(* ===== verification/Prelude.thy ===== *)
theory Prelude
  imports Main "HOL-Library.Word" "HOL-Library.AList"
begin

text \<open>
  Shared vocabulary of the development: the machine integers and results of the Rust
  sources, the string operations of the Rust standard library that the components call,
  hash maps, and the generic lemmas about them.

  \<^item> A Rust \<open>String\<close> is a \<^typ>\<open>string\<close> whose characters are the Unicode scalar values
    \<open>U+0000\<close> to \<open>U+00FF\<close>; \<open>as_bytes\<close> is its UTF-8 encoding, and \<open>str_len\<close> the number of
    those bytes, which is what \<open>str::len\<close> returns. The character classes below are those
    of Rust on that range.
  \<^item> A \<open>Result<T, E>\<close> is a sum with \<open>Err\<close> on the left and \<open>Ok\<close> on the right.
  \<^item> A \<open>HashMap\<close> is an association list with distinct keys. The order of the list
    stands for the iteration order, which Rust leaves open: no lemma of the development
    depends on where \<open>hm_insert\<close> puts a key.
  \<^item> A \<open>DateTime<Utc>\<close> is the number of nanoseconds since the epoch, an \<^typ>\<open>int\<close>; each
    operation that reads the clock takes the value it reads as an argument.
\<close>

unbundle bit_operations_syntax

section \<open>Machine integers, time, results\<close>

type_synonym u8 = "8 word"
type_synonym u16 = "16 word"
type_synonym u32 = "32 word"
type_synonym u64 = "64 word"
type_synonym byte = "8 word"
type_synonym time = int

type_synonym ('a, 'e) result = "'e + 'a"

abbreviation Ok :: "'a \<Rightarrow> ('a, 'e) result" where "Ok \<equiv> Inr"
abbreviation Err :: "'e \<Rightarrow> ('a, 'e) result" where "Err \<equiv> Inl"

named_theorems word_nat "facts that move word arithmetic to the natural numbers"
named_theorems str_simps "equations of the string operations"
named_theorems hm_simps "equations of the hash map operations"

definition checked_add :: "'a::len word \<Rightarrow> 'a word \<Rightarrow> 'a word option" where
  "checked_add a b = (if unat a + unat b < 2 ^ LENGTH('a) then Some (a + b) else None)"

definition saturating_sub :: "'a::len word \<Rightarrow> 'a word \<Rightarrow> 'a word" where
  "saturating_sub a b = (if a \<le> b then 0 else a - b)"

lemma checked_add_Some_iff:
  "checked_add (a :: 'a::len word) b = Some c \<longleftrightarrow> unat c = unat a + unat b"
  using unat_add_lem [of a b]
  by (auto simp: checked_add_def word_unat_eq_iff) (metis unsigned_less)

lemma checked_add_None_iff:
  "checked_add (a :: 'a::len word) b = None \<longleftrightarrow> 2 ^ LENGTH('a) \<le> unat a + unat b"
  by (auto simp: checked_add_def)

lemma unat_saturating_sub [word_nat]: "unat (saturating_sub a b) = unat a - unat b"
  by (auto simp: saturating_sub_def word_le_nat_alt unat_sub_if')

lemma unat_ucast_up [word_nat]:
  "LENGTH('a) \<le> LENGTH('b) \<Longrightarrow> unat (ucast (a :: 'a::len word) :: 'b::len word) = unat a"
  by (simp add: unsigned_ucast_eq take_bit_nat_eq_self less_le_trans [OF unsigned_less])

section \<open>Strings\<close>

definition code :: "char \<Rightarrow> nat" where
  "code c = of_char c"

text \<open>\<open>char::is_whitespace\<close> and \<open>char::is_control\<close> on \<open>U+0000\<close> to \<open>U+00FF\<close>.\<close>

definition is_whitespace :: "char \<Rightarrow> bool" where
  "is_whitespace c \<longleftrightarrow> 9 \<le> code c \<and> code c \<le> 13 \<or> code c = 32 \<or> code c = 133 \<or> code c = 160"

definition is_control :: "char \<Rightarrow> bool" where
  "is_control c \<longleftrightarrow> code c < 32 \<or> 127 \<le> code c \<and> code c \<le> 159"

definition is_ascii_digit :: "char \<Rightarrow> bool" where
  "is_ascii_digit c \<longleftrightarrow> 48 \<le> code c \<and> code c \<le> 57"

definition is_ascii_alphanumeric :: "char \<Rightarrow> bool" where
  "is_ascii_alphanumeric c \<longleftrightarrow>
     is_ascii_digit c \<or> 65 \<le> code c \<and> code c \<le> 90 \<or> 97 \<le> code c \<and> code c \<le> 122"

definition nul :: char where
  "nul = CHR 0x00"

definition ascii_lower :: "char \<Rightarrow> char" where
  "ascii_lower c = (if 65 \<le> code c \<and> code c \<le> 90 then char_of (code c + 32) else c)"

definition to_ascii_lowercase :: "string \<Rightarrow> string" where
  "to_ascii_lowercase s = map ascii_lower s"

definition utf8 :: "char \<Rightarrow> byte list" where
  "utf8 c = (if code c < 128 then [of_nat (code c)]
             else [of_nat (192 + code c div 64), of_nat (128 + code c mod 64)])"

definition as_bytes :: "string \<Rightarrow> byte list" where
  "as_bytes s = concat (map utf8 s)"

text \<open>\<open>to_le_bytes\<close>, \<open>to_be_bytes\<close> and \<open>from_be_bytes\<close> of the integer widths that the sources use.\<close>

definition to_le_bytes :: "u64 \<Rightarrow> byte list" where
  "to_le_bytes w = map (\<lambda>i. ucast (drop_bit (8 * i) w)) [0..<8]"
definition to_be_bytes :: "u32 \<Rightarrow> byte list" where
  "to_be_bytes w = map (\<lambda>i. ucast (drop_bit (8 * i) w)) (rev [0..<4])"
definition from_be_bytes :: "byte list \<Rightarrow> u32" where
  "from_be_bytes bs = foldl (\<lambda>a b. push_bit 8 a OR ucast b) 0 bs"

definition str_len :: "string \<Rightarrow> nat" where
  "str_len s = length (as_bytes s)"

definition str_trim :: "string \<Rightarrow> string" where
  "str_trim s = rev (dropWhile is_whitespace (rev (dropWhile is_whitespace s)))"

definition trim_start_matches :: "char \<Rightarrow> string \<Rightarrow> string" where
  "trim_start_matches c s = dropWhile (\<lambda>x. x = c) s"

definition trim_end_matches :: "char \<Rightarrow> string \<Rightarrow> string" where
  "trim_end_matches c s = rev (dropWhile (\<lambda>x. x = c) (rev s))"

definition starts_with :: "string \<Rightarrow> string \<Rightarrow> bool" where
  "starts_with p s \<longleftrightarrow> take (length p) s = p"

definition ends_with :: "string \<Rightarrow> string \<Rightarrow> bool" where
  "ends_with p s \<longleftrightarrow> length p \<le> length s \<and> drop (length s - length p) s = p"

definition strip_prefix :: "string \<Rightarrow> string \<Rightarrow> string option" where
  "strip_prefix p s = (if starts_with p s then Some (drop (length p) s) else None)"

fun split_on :: "char \<Rightarrow> string \<Rightarrow> string list" where
  "split_on d [] = [[]]"
| "split_on d (c # cs) =
     (if c = d then [] # split_on d cs
      else case split_on d cs of [] \<Rightarrow> [[c]] | p # ps \<Rightarrow> (c # p) # ps)"

fun join_with :: "string \<Rightarrow> string list \<Rightarrow> string" where
  "join_with sep [] = []"
| "join_with sep [p] = p"
| "join_with sep (p # ps) = p @ sep @ join_with sep ps"

definition split_once :: "char \<Rightarrow> string \<Rightarrow> (string \<times> string) option" where
  "split_once d s =
     (case dropWhile (\<lambda>c. c \<noteq> d) s of [] \<Rightarrow> None
      | _ # rest \<Rightarrow> Some (takeWhile (\<lambda>c. c \<noteq> d) s, rest))"

text \<open>The decimal digits of a number, and \<open>str::parse\<close> for an unsigned type whose
  largest value is \<open>mx\<close>: an optional plus sign, then at least one digit.\<close>

fun show_nat :: "nat \<Rightarrow> string" where
  "show_nat n = (if n < 10 then [char_of (48 + n)]
                 else show_nat (n div 10) @ [char_of (48 + n mod 10)])"

declare show_nat.simps [simp del]

definition digits_value :: "string \<Rightarrow> nat" where
  "digits_value ds = foldl (\<lambda>v c. 10 * v + (code c - 48)) 0 ds"

definition parse_digits :: "nat \<Rightarrow> string \<Rightarrow> nat option" where
  "parse_digits mx ds =
     (if ds \<noteq> [] \<and> list_all is_ascii_digit ds \<and> digits_value ds \<le> mx
      then Some (digits_value ds) else None)"

definition parse_uint :: "nat \<Rightarrow> string \<Rightarrow> nat option" where
  "parse_uint mx s =
     (case s of [] \<Rightarrow> None | c # cs \<Rightarrow> if c = CHR ''+'' then parse_digits mx cs else parse_digits mx s)"

lemma code_char_of [simp]: "n < 256 \<Longrightarrow> code (char_of n) = n"
  by (simp add: code_def)

lemma code_less [simp]: "code c < 256"
  by (simp add: code_def)

lemma code_inj: "code c = code d \<longleftrightarrow> c = d"
  by (simp add: code_def)

lemma as_bytes_Nil [simp]: "as_bytes [] = []"
  by (simp add: as_bytes_def)

lemma as_bytes_append [simp]: "as_bytes (s @ t) = as_bytes s @ as_bytes t"
  by (simp add: as_bytes_def)

lemma to_le_bytes_inject [simp]: "to_le_bytes v = to_le_bytes w \<longleftrightarrow> v = w"
proof
  assume eq: "to_le_bytes v = to_le_bytes w"
  show "v = w"
  proof (rule bit_word_eqI)
    fix n assume n: "n < LENGTH(64)"
    have "to_le_bytes v ! (n div 8) = to_le_bytes w ! (n div 8)" using eq by simp
    moreover have "n div 8 < 8" using n by simp
    ultimately have "(ucast (drop_bit (8 * (n div 8)) v) :: byte) = ucast (drop_bit (8 * (n div 8)) w)"
      by (simp add: to_le_bytes_def del: upt.simps)
    then have "bit (ucast (drop_bit (8 * (n div 8)) v) :: byte) (n mod 8) =
       bit (ucast (drop_bit (8 * (n div 8)) w) :: byte) (n mod 8)" by simp
    then show "bit v n = bit w n" by (simp add: bit_simps)
  qed
qed simp

lemma from_to_be_bytes [simp]: "from_be_bytes (to_be_bytes w) = w"
proof -
  have l: "rev [0..<4] = [3,2,1,0::nat]" by (simp add: eval_nat_numeral)
  have "bit (from_be_bytes (to_be_bytes w)) n = bit w n" if n: "n < 32" for n
  proof -
    consider "n < 8" | "8 \<le> n" "n < 16" | "16 \<le> n" "n < 24" | "24 \<le> n" "n < 32" using n by linarith
    then show ?thesis unfolding to_be_bytes_def from_be_bytes_def l
      by cases (auto simp: bit_simps)
  qed
  then show ?thesis by (intro bit_word_eqI) simp
qed

lemma utf8_map_unat:
  "map unat (utf8 c) = (if code c < 128 then [code c] else [192 + code c div 64, 128 + code c mod 64])"
proof -
  have "code c div 64 < 64" using code_less [of c] by linarith
  then have "192 + code c div 64 < 256" "128 + code c mod 64 < 256" by auto
  moreover have "code c < 256" by (rule code_less)
  ultimately show ?thesis unfolding utf8_def by (simp add: unat_of_nat del: of_nat_add)
qed

lemma utf8_prefix_free: "map unat (utf8 c) @ u = map unat (utf8 d) @ v \<Longrightarrow> c = d \<and> u = v"
proof -
  assume a: "map unat (utf8 c) @ u = map unat (utf8 d) @ v"
  have divmod: "x div 64 = y div 64 \<Longrightarrow> x mod 64 = y mod 64 \<Longrightarrow> x = y" for x y :: nat
    by (metis div_mult_mod_eq)
  have "code c = code d \<and> u = v"
  proof (cases "code c < 128"; cases "code d < 128")
    assume "\<not> code c < 128" "\<not> code d < 128"
    with a have "code c div 64 = code d div 64" "code c mod 64 = code d mod 64" "u = v"
      by (simp_all add: utf8_map_unat)
    then show ?thesis using divmod by blast
  qed (use a in \<open>simp_all add: utf8_map_unat\<close>)
  then show ?thesis by (simp add: code_inj)
qed

lemma as_bytes_inject [simp]: "as_bytes s = as_bytes t \<longleftrightarrow> s = t"
proof -
  have ne: "utf8 c \<noteq> []" for c by (simp add: utf8_def)
  have "map unat (as_bytes s) = map unat (as_bytes t) \<Longrightarrow> s = t"
  proof (induction s arbitrary: t)
    case Nil then show ?case using ne by (cases t) (auto simp: as_bytes_def)
  next
    case (Cons c s)
    then obtain d t' where t: "t = d # t'" using ne by (cases t) (auto simp: as_bytes_def)
    have "map unat (utf8 c) @ map unat (as_bytes s) = map unat (utf8 d) @ map unat (as_bytes t')"
      using Cons.prems by (simp add: t as_bytes_def)
    from utf8_prefix_free [OF this] Cons.IH show ?case by (simp add: t)
  qed
  then show ?thesis by auto
qed
lemma starts_with_iff: "starts_with p s \<longleftrightarrow> (\<exists>r. s = p @ r)"
  by (auto simp: starts_with_def) (metis append_take_drop_id)

lemma ends_with_iff: "ends_with p s \<longleftrightarrow> (\<exists>r. s = r @ p)"
  by (auto simp: ends_with_def) (metis append_take_drop_id)

lemma strip_prefix_Some_iff: "strip_prefix p s = Some r \<longleftrightarrow> s = p @ r"
  by (auto simp: strip_prefix_def starts_with_iff)

lemma split_on_ne [simp]: "split_on d s \<noteq> []"
  by (induction s) (auto split: list.splits)

lemma join_split_on: "join_with [d] (split_on d s) = s"
proof (induction s)
  case (Cons c cs)
  obtain p ps where "split_on d cs = p # ps"
    using split_on_ne by (meson list.exhaust)
  with Cons show ?case
    by (cases ps) auto
qed simp

lemma split_on_no_sep: "p \<in> set (split_on d s) \<Longrightarrow> d \<notin> set p"
proof (induction s arbitrary: p)
  case (Cons c cs)
  then show ?case
    by (auto split: if_splits list.splits)
qed simp

lemma split_on_whole: "d \<notin> set p \<Longrightarrow> split_on d p = [p]"
  by (induction p) auto

lemma split_on_append: "d \<notin> set p \<Longrightarrow> split_on d (p @ d # s) = p # split_on d s"
  by (induction p) auto

lemma split_on_join:
  "ps \<noteq> [] \<Longrightarrow> (\<And>p. p \<in> set ps \<Longrightarrow> d \<notin> set p) \<Longrightarrow> split_on d (join_with [d] ps) = ps"
  by (induction ps rule: induct_list012) (auto simp: split_on_whole split_on_append)

lemma split_once_append: "d \<notin> set p \<Longrightarrow> split_once d (p @ d # r) = Some (p, r)"
  by (induction p) (auto simp: split_once_def split: list.splits)

lemma split_once_SomeD:
  assumes "split_once d s = Some (p, r)"
  shows "s = p @ d # r" and "d \<notin> set p"
proof -
  from assms obtain x where x: "dropWhile (\<lambda>c. c \<noteq> d) s = x # r"
    and p: "p = takeWhile (\<lambda>c. c \<noteq> d) s"
    by (auto simp: split_once_def split: list.splits)
  have "x = d"
    using hd_dropWhile [of "\<lambda>c. c \<noteq> d" s] x by simp
  with x p show "s = p @ d # r"
    by (metis takeWhile_dropWhile_id)
  show "d \<notin> set p"
    by (auto simp: p dest: set_takeWhileD)
qed

lemma split_once_None_iff: "split_once d s = None \<longleftrightarrow> d \<notin> set s"
  by (auto simp: split_once_def list.case_eq_if dropWhile_eq_Nil_conv)

lemma digits_value_snoc: "digits_value (ds @ [c]) = 10 * digits_value ds + (code c - 48)"
  by (simp add: digits_value_def)

lemma show_nat_digits: "list_all is_ascii_digit (show_nat n) \<and> show_nat n \<noteq> []"
proof (induction n rule: show_nat.induct)
  case (1 n)
  show ?case
  proof (cases "n < 10")
    case True
    then show ?thesis by (subst (1 2) show_nat.simps) (simp add: is_ascii_digit_def)
  next
    case False
    with 1 have "list_all is_ascii_digit (show_nat (n div 10))" by simp
    moreover have "is_ascii_digit (char_of (48 + n mod 10))"
      using mod_less_divisor [of 10 n] by (simp add: is_ascii_digit_def)
    ultimately show ?thesis
      using False by (subst (1 2) show_nat.simps) simp
  qed
qed

lemma digits_value_show_nat [simp]: "digits_value (show_nat n) = n"
proof (induction n rule: show_nat.induct)
  case (1 n)
  show ?case
    using 1 by (subst show_nat.simps) (auto simp: digits_value_snoc, simp add: digits_value_def)
qed

lemma show_nat_no_plus: "CHR ''+'' \<notin> set (show_nat n)"
  using show_nat_digits [of n] by (auto simp: list_all_iff is_ascii_digit_def code_def)

lemma show_nat_no_dot: "CHR ''.'' \<notin> set (show_nat n)"
  using show_nat_digits [of n] by (auto simp: list_all_iff is_ascii_digit_def code_def)

lemma parse_show_nat [simp]: "n \<le> mx \<Longrightarrow> parse_uint mx (show_nat n) = Some n"
  using show_nat_digits [of n] show_nat_no_plus [of n] digits_value_show_nat [of n]
  by (cases "show_nat n") (auto simp: parse_uint_def parse_digits_def)

lemma show_nat_inject [simp]: "show_nat m = show_nat n \<longleftrightarrow> m = n"
  by (metis digits_value_show_nat)

lemma parse_digits_bound: "parse_digits mx s = Some n \<Longrightarrow> n \<le> mx"
  by (auto simp: parse_digits_def split: if_splits)

lemma parse_uint_bound: "parse_uint mx s = Some n \<Longrightarrow> n \<le> mx"
  by (auto simp: parse_uint_def split: list.splits if_splits dest: parse_digits_bound)

section \<open>Hash maps\<close>

type_synonym ('k, 'v) hashmap = "('k \<times> 'v) list"

definition hm_ok :: "('k, 'v) hashmap \<Rightarrow> bool" where
  "hm_ok m \<longleftrightarrow> distinct (map fst m)"

definition hm_get :: "('k, 'v) hashmap \<Rightarrow> 'k \<Rightarrow> 'v option" where
  "hm_get m k = map_of m k"

definition hm_insert :: "'k \<Rightarrow> 'v \<Rightarrow> ('k, 'v) hashmap \<Rightarrow> ('k, 'v) hashmap" where
  "hm_insert k v m = AList.update k v m"

definition hm_remove :: "'k \<Rightarrow> ('k, 'v) hashmap \<Rightarrow> ('k, 'v) hashmap" where
  "hm_remove k m = filter (\<lambda>(k', _). k' \<noteq> k) m"

definition hm_values :: "('k, 'v) hashmap \<Rightarrow> 'v list" where
  "hm_values m = map snd m"

definition hm_extend :: "('k, 'v) hashmap \<Rightarrow> ('k, 'v) hashmap \<Rightarrow> ('k, 'v) hashmap" where
  "hm_extend m n = foldl (\<lambda>acc (k, v). hm_insert k v acc) m n"

text \<open>\<open>values_mut\<close> followed by an update of each value.\<close>

definition hm_map_values :: "('v \<Rightarrow> 'v) \<Rightarrow> ('k, 'v) hashmap \<Rightarrow> ('k, 'v) hashmap" where
  "hm_map_values f m = map (\<lambda>(k, v). (k, f v)) m"

lemma hm_ok_Nil [simp]: "hm_ok []"
  by (simp add: hm_ok_def)

lemma hm_get_Nil [simp]: "hm_get [] k = None"
  by (simp add: hm_get_def)

lemma hm_get_insert [simp]: "hm_get (hm_insert k v m) j = (if j = k then Some v else hm_get m j)"
  by (simp add: hm_get_def hm_insert_def update_conv')

lemma hm_get_remove [simp]: "hm_get (hm_remove k m) j = (if j = k then None else hm_get m j)"
  by (induction m) (auto simp: hm_get_def hm_remove_def)

lemma hm_ok_insert [simp]: "hm_ok m \<Longrightarrow> hm_ok (hm_insert k v m)"
  by (simp add: hm_ok_def hm_insert_def distinct_update)

lemma hm_ok_remove [simp]: "hm_ok m \<Longrightarrow> hm_ok (hm_remove k m)"
  by (induction m) (auto simp: hm_ok_def hm_remove_def)

lemma hm_get_map_values [simp]: "hm_get (hm_map_values f m) k = map_option f (hm_get m k)"
  by (induction m) (auto simp: hm_get_def hm_map_values_def)

lemma hm_ok_map_values [simp]: "hm_ok (hm_map_values f m) = hm_ok m"
  by (simp add: hm_ok_def hm_map_values_def comp_def case_prod_beta)

lemma hm_get_mem: "hm_ok m \<Longrightarrow> hm_get m k = Some v \<longleftrightarrow> (k, v) \<in> set m"
  by (simp add: hm_ok_def hm_get_def)

lemma hm_values_iff: "hm_ok m \<Longrightarrow> v \<in> set (hm_values m) \<longleftrightarrow> (\<exists>k. hm_get m k = Some v)"
  by (auto simp: hm_get_mem hm_values_def rev_image_eqI)

lemma hm_insert_same_keys: "map_of m k \<noteq> None \<Longrightarrow> map fst (hm_insert k v m) = map fst m"
  by (induction m) (auto simp: hm_insert_def split: if_splits)

section \<open>Vectors\<close>

text \<open>\<open>Iterator::position\<close>, and \<open>min_by_key\<close>, which returns the first of several minima.\<close>

fun position :: "('a \<Rightarrow> bool) \<Rightarrow> 'a list \<Rightarrow> nat option" where
  "position P [] = None"
| "position P (x # xs) = (if P x then Some 0 else map_option Suc (position P xs))"

fun min_by_key :: "('a \<Rightarrow> 'k::linorder) \<Rightarrow> 'a list \<Rightarrow> 'a option" where
  "min_by_key f [] = None"
| "min_by_key f (x # xs) =
     (case min_by_key f xs of None \<Rightarrow> Some x | Some y \<Rightarrow> Some (if f y < f x then y else x))"

lemma find_append:
  "find P (xs @ ys) = (case find P xs of Some x \<Rightarrow> Some x | None \<Rightarrow> find P ys)"
  by (induction xs) auto

lemma position_SomeD:
  "position P xs = Some i \<Longrightarrow> i < length xs \<and> P (xs ! i) \<and> (\<forall>j<i. \<not> P (xs ! j))"
  by (induction xs arbitrary: i) (auto simp: nth_Cons less_Suc_eq_0_disj split: if_splits nat.splits)

lemma position_None_iff: "position P xs = None \<longleftrightarrow> (\<forall>x\<in>set xs. \<not> P x)"
  by (induction xs) auto

lemma min_by_key_None_iff [simp]: "min_by_key f xs = None \<longleftrightarrow> xs = []"
  by (cases xs) (auto split: option.splits)

lemma min_by_key_SomeD:
  "min_by_key f xs = Some y \<Longrightarrow> y \<in> set xs \<and> (\<forall>x\<in>set xs. f y \<le> f x)"
  by (induction xs arbitrary: y) (fastforce split: option.splits if_splits)+

lemma sum_list_update_nat:
  "i < length xs \<Longrightarrow> sum_list (map f (xs[i := x])) + f (xs ! i) = sum_list (map f xs) + (f x :: nat)"
  by (induction xs arbitrary: i) (auto simp: nth_Cons split: nat.splits)
text \<open>The sum of a measure over the values of a map, and what inserting and removing a key do to it.\<close>

definition hm_total :: "('v \<Rightarrow> nat) \<Rightarrow> ('k, 'v) hashmap \<Rightarrow> nat" where
  "hm_total f m = sum_list (map f (hm_values m))"

definition opt_total :: "('v \<Rightarrow> nat) \<Rightarrow> 'v option \<Rightarrow> nat" where
  "opt_total f v = (case v of None \<Rightarrow> 0 | Some x \<Rightarrow> f x)"

lemma opt_total_simps [simp]: "opt_total f None = 0" "opt_total f (Some x) = f x"
  by (simp_all add: opt_total_def)

lemma hm_total_Nil [simp]: "hm_total f [] = 0"
  by (simp add: hm_total_def hm_values_def)

lemma hm_total_Cons: "hm_total f ((k, v) # m) = f v + hm_total f m"
  by (simp add: hm_total_def hm_values_def)

lemma hm_total_remove: "hm_ok m \<Longrightarrow> hm_total f (hm_remove k m) + opt_total f (hm_get m k) = hm_total f m"
proof (induction m)
  case (Cons e m)
  obtain j v where e: "e = (j, v)" by (cases e)
  have m: "hm_ok m" "j \<notin> fst ` set m" using Cons.prems by (simp_all add: hm_ok_def e)
  show ?case
  proof (cases "j = k")
    case True
    then have "hm_remove k m = m" using m(2) by (force simp: hm_remove_def filter_id_conv)
    then show ?thesis using True by (simp add: e hm_total_Cons hm_get_def hm_remove_def)
  next
    case False
    then show ?thesis using Cons.IH [OF m(1)] by (simp add: e hm_total_Cons hm_get_def hm_remove_def)
  qed
qed (simp add: hm_remove_def)

lemma hm_total_insert: "hm_total f (hm_insert k v m) + opt_total f (hm_get m k) = hm_total f m + f v"
proof (induction m)
  case (Cons e m)
  then show ?case by (cases e) (auto simp: hm_total_Cons hm_get_def hm_insert_def)
qed (simp add: hm_insert_def hm_total_Cons)

end
