(* ===== verification/Core_Types.thy ===== *)
theory Core_Types
  imports Prelude
begin

text \<open>
  The value types of \<open>crates/clouisle-core\<close>: the unified error (\<open>error.rs\<close>), resource
  requests with their validation and accumulation (\<open>resources.rs\<close>), node descriptions
  (\<open>types.rs\<close>), execution requests and records (\<open>execution.rs\<close>) and boot traces
  (\<open>timing.rs\<close>). The lemmas give the exact acceptance condition of each validator, the
  overflow behaviour of the accumulation, the cut-off of \<open>truncate_output\<close> and the
  stages a boot trace reports.
\<close>

section \<open>Errors\<close>

datatype error_kind =
    EkValidation | EkResourceExhausted | EkNotFound | EkInvalidState | EkUnauthenticated
  | EkForbidden | EkQuotaExceeded | EkInternal | EkIo | EkTimeout | EkVmm | EkStore
  | EkNetwork | EkImage | EkSecurity

fun error_kind_str :: "error_kind \<Rightarrow> string" where
  "error_kind_str EkValidation = ''VALIDATION''"
| "error_kind_str EkResourceExhausted = ''RESOURCE_EXHAUSTED''"
| "error_kind_str EkNotFound = ''NOT_FOUND''"
| "error_kind_str EkInvalidState = ''INVALID_STATE''"
| "error_kind_str EkUnauthenticated = ''UNAUTHENTICATED''"
| "error_kind_str EkForbidden = ''FORBIDDEN''"
| "error_kind_str EkQuotaExceeded = ''QUOTA_EXCEEDED''"
| "error_kind_str EkInternal = ''INTERNAL''"
| "error_kind_str EkIo = ''IO''"
| "error_kind_str EkTimeout = ''TIMEOUT''"
| "error_kind_str EkVmm = ''VMM''"
| "error_kind_str EkStore = ''STORE''"
| "error_kind_str EkNetwork = ''NETWORK''"
| "error_kind_str EkImage = ''IMAGE''"
| "error_kind_str EkSecurity = ''SECURITY''"

text \<open>The boxed \<open>source\<close> of an error is kept for logs only and is not modelled.\<close>

record clouisle_error =
  err_kind :: error_kind
  err_message :: string

definition new_error :: "error_kind \<Rightarrow> string \<Rightarrow> clouisle_error" where
  "new_error k msg = \<lparr>err_kind = k, err_message = msg\<rparr>"

definition validation_error :: "string \<Rightarrow> clouisle_error" where
  "validation_error msg = new_error EkValidation msg"

definition not_found :: "string \<Rightarrow> clouisle_error" where
  "not_found msg = new_error EkNotFound msg"

definition resource_exhausted :: "string \<Rightarrow> clouisle_error" where
  "resource_exhausted msg = new_error EkResourceExhausted msg"

definition invalid_state :: "string \<Rightarrow> clouisle_error" where
  "invalid_state msg = new_error EkInvalidState msg"

definition internal_error :: "string \<Rightarrow> clouisle_error" where
  "internal_error msg = new_error EkInternal msg"

definition io_error :: "string \<Rightarrow> clouisle_error" where
  "io_error msg = new_error EkIo msg"

definition timeout_error :: "string \<Rightarrow> clouisle_error" where
  "timeout_error msg = new_error EkTimeout msg"

lemmas error_defs = new_error_def validation_error_def not_found_def resource_exhausted_def
  invalid_state_def internal_error_def io_error_def timeout_error_def

section \<open>Resources\<close>

record resources =
  vcpu :: u16
  memory_mb :: u32
  disk_mb :: u32
  bandwidth_mbps :: "u32 option"
  iops :: "u32 option"
  pids_max :: "u32 option"

definition default_resources :: resources where
  "default_resources = \<lparr>vcpu = 1, memory_mb = 256, disk_mb = 512, bandwidth_mbps = None,
                        iops = None, pids_max = Some 512\<rparr>"

record field_error =
  fe_field :: string
  fe_message :: string

definition field_err :: "string \<Rightarrow> string \<Rightarrow> field_error" where
  "field_err f msg = \<lparr>fe_field = f, fe_message = msg\<rparr>"

definition resources_errors :: "resources \<Rightarrow> field_error list" where
  "resources_errors r =
     (if vcpu r = 0 then [field_err ''vcpu'' ''vcpu must be >= 1'']
      else if 4 < vcpu r
        then [field_err ''vcpu'' (''vcpu must be <= 4, got '' @ show_nat (unat (vcpu r)))]
      else []) @
     (if memory_mb r < 64
        then [field_err ''memory_mb'' (''memory_mb must be >= 64, got '' @ show_nat (unat (memory_mb r)))]
      else if 8192 < memory_mb r
        then [field_err ''memory_mb'' (''memory_mb must be <= 8192, got '' @ show_nat (unat (memory_mb r)))]
      else []) @
     (if disk_mb r < 64
        then [field_err ''disk_mb'' (''disk_mb must be >= 64, got '' @ show_nat (unat (disk_mb r)))]
      else []) @
     (if bandwidth_mbps r = Some 0
        then [field_err ''bandwidth_mbps'' ''bandwidth_mbps must be >= 1 if set''] else []) @
     (if iops r = Some 0 then [field_err ''iops'' ''iops must be >= 1 if set''] else []) @
     (if pids_max r = Some 0
        then [field_err ''pids_max'' ''pids_max must be >= 1 if set''] else [])"

definition resources_validate :: "resources \<Rightarrow> (unit, field_error list) result" where
  "resources_validate r =
     (if resources_errors r = [] then Ok () else Err (resources_errors r))"

definition or_max :: "u32 option \<Rightarrow> u32 option \<Rightarrow> u32 option" where
  "or_max a b =
     (case (a, b) of (Some x, Some y) \<Rightarrow> Some (max x y)
      | (Some x, None) \<Rightarrow> Some x | (None, _) \<Rightarrow> b)"

definition resources_checked_add :: "resources \<Rightarrow> resources \<Rightarrow> resources option" where
  "resources_checked_add a b =
     (case checked_add (vcpu a) (vcpu b) of None \<Rightarrow> None | Some c \<Rightarrow>
      (case checked_add (memory_mb a) (memory_mb b) of None \<Rightarrow> None | Some m \<Rightarrow>
       (case checked_add (disk_mb a) (disk_mb b) of None \<Rightarrow> None | Some d \<Rightarrow>
          Some \<lparr>vcpu = c, memory_mb = m, disk_mb = d,
                bandwidth_mbps = or_max (bandwidth_mbps a) (bandwidth_mbps b),
                iops = or_max (iops a) (iops b),
                pids_max = (case pids_max a of Some p \<Rightarrow> Some p | None \<Rightarrow> pids_max b)\<rparr>)))"

text \<open>The documented bounds of a resource request.\<close>

definition resources_ok :: "resources \<Rightarrow> bool" where
  "resources_ok r \<longleftrightarrow>
     1 \<le> unat (vcpu r) \<and> unat (vcpu r) \<le> 4 \<and>
     64 \<le> unat (memory_mb r) \<and> unat (memory_mb r) \<le> 8192 \<and>
     64 \<le> unat (disk_mb r) \<and>
     bandwidth_mbps r \<noteq> Some 0 \<and> iops r \<noteq> Some 0 \<and> pids_max r \<noteq> Some 0"

lemma resources_errors_Nil_iff: "resources_errors r = [] \<longleftrightarrow> resources_ok r"
proof -
  have v: "(vcpu r \<noteq> 0 \<and> \<not> 4 < vcpu r) \<longleftrightarrow> 1 \<le> unat (vcpu r) \<and> unat (vcpu r) \<le> 4"
    by (auto simp: word_less_nat_alt unat_gt_0 Suc_le_eq)
  have m: "(\<not> memory_mb r < 64 \<and> \<not> 8192 < memory_mb r) \<longleftrightarrow>
      64 \<le> unat (memory_mb r) \<and> unat (memory_mb r) \<le> 8192"
    by (auto simp: word_less_nat_alt)
  have d: "\<not> disk_mb r < 64 \<longleftrightarrow> 64 \<le> unat (disk_mb r)"
    by (auto simp: word_less_nat_alt)
  have "resources_errors r = [] \<longleftrightarrow>
      (vcpu r \<noteq> 0 \<and> \<not> 4 < vcpu r) \<and> (\<not> memory_mb r < 64 \<and> \<not> 8192 < memory_mb r) \<and>
      \<not> disk_mb r < 64 \<and> bandwidth_mbps r \<noteq> Some 0 \<and> iops r \<noteq> Some 0 \<and> pids_max r \<noteq> Some 0"
    by (auto simp: resources_errors_def)
  then show ?thesis
    unfolding v m d resources_ok_def by blast
qed

lemma resources_validate_ok_iff: "resources_validate r = Ok () \<longleftrightarrow> resources_ok r"
  by (auto simp: resources_validate_def resources_errors_Nil_iff)

lemma default_resources_ok: "resources_ok default_resources"
  by (simp add: resources_ok_def default_resources_def)

lemma resources_checked_add_None_iff:
  "resources_checked_add a b = None \<longleftrightarrow>
     2 ^ 16 \<le> unat (vcpu a) + unat (vcpu b) \<or>
     2 ^ 32 \<le> unat (memory_mb a) + unat (memory_mb b) \<or>
     2 ^ 32 \<le> unat (disk_mb a) + unat (disk_mb b)"
proof -
  have "resources_checked_add a b = None \<longleftrightarrow>
      checked_add (vcpu a) (vcpu b) = None \<or>
      checked_add (memory_mb a) (memory_mb b) = None \<or>
      checked_add (disk_mb a) (disk_mb b) = None"
    by (auto simp: resources_checked_add_def split: option.splits)
  then show ?thesis by (simp add: checked_add_None_iff)
qed

lemma resources_checked_add_SomeD:
  assumes "resources_checked_add a b = Some c"
  shows "unat (vcpu c) = unat (vcpu a) + unat (vcpu b)"
    and "unat (memory_mb c) = unat (memory_mb a) + unat (memory_mb b)"
    and "unat (disk_mb c) = unat (disk_mb a) + unat (disk_mb b)"
  using assms
  by (auto simp: resources_checked_add_def checked_add_Some_iff split: option.splits)

section \<open>Nodes\<close>

datatype node_status = NodeReady | NodeUnreachable | NodeDown | NodeDraining

record node_info =
  ni_node_id :: string
  ni_hostname :: string
  ni_total_vcpu :: u16
  ni_total_memory_mb :: u64
  ni_total_disk_mb :: u64
  ni_kvm_available :: bool
  ni_kernel_version :: string
  ni_firecracker_version :: string
  ni_labels :: "(string, string) hashmap"

record registered_node =
  rn_info :: node_info
  rn_endpoint :: string
  rn_status :: node_status
  rn_last_heartbeat_ms :: int
  rn_allocated_vcpu :: u16
  rn_allocated_memory_mb :: u64
  rn_running_sandboxes :: nat
  rn_sandbox_ids :: "string list"

section \<open>Executions\<close>

record execution_spec =
  es_argv :: "string list"
  es_env :: "(string, string) hashmap"
  es_cwd :: "string option"
  es_timeout_ms :: u64

definition execution_spec_validate :: "execution_spec \<Rightarrow> (unit, clouisle_error) result" where
  "execution_spec_validate s =
     (if es_argv s = [] then Err (validation_error ''argv must not be empty'')
      else if es_timeout_ms s = 0 then Err (validation_error ''timeout_ms must be >= 1'')
      else Ok ())"

record execution_result =
  er_exit_code :: int
  er_stdout :: "byte list"
  er_stderr :: "byte list"
  er_duration_ms :: u64

record execution_record =
  xr_id :: string
  xr_sandbox_id :: string
  xr_spec :: execution_spec
  xr_exit_code :: int
  xr_stdout :: "byte list"
  xr_stderr :: "byte list"
  xr_started_at :: time
  xr_finished_at :: time
  xr_timed_out :: bool
  xr_stdout_truncated :: bool
  xr_stderr_truncated :: bool
  xr_node_id :: "string option"

definition MAX_OUTPUT_BYTES :: nat where
  "MAX_OUTPUT_BYTES = 1024 * 1024"

definition truncate_output :: "byte list \<Rightarrow> byte list \<times> bool" where
  "truncate_output data =
     (if MAX_OUTPUT_BYTES < length data then (take MAX_OUTPUT_BYTES data, True)
      else (data, False))"

lemma truncate_output_length: "length (fst (truncate_output data)) \<le> MAX_OUTPUT_BYTES"
  by (simp add: truncate_output_def)

lemma truncate_output_prefix:
  "\<exists>rest. data = fst (truncate_output data) @ rest \<and>
     (snd (truncate_output data) \<longleftrightarrow> rest \<noteq> [])"
  by (auto simp: truncate_output_def intro: exI [of _ "drop MAX_OUTPUT_BYTES data"])

section \<open>Boot traces\<close>

datatype slo_kind = PoolAlloc | WarmStart | ColdStart | ImagePull

fun slo_kind_str :: "slo_kind \<Rightarrow> string" where
  "slo_kind_str PoolAlloc = ''pool_alloc''"
| "slo_kind_str WarmStart = ''warm_start''"
| "slo_kind_str ColdStart = ''cold_start''"
| "slo_kind_str ImagePull = ''image_pull''"

fun targets_p95_ms :: "slo_kind \<Rightarrow> u64" where
  "targets_p95_ms PoolAlloc = 50"
| "targets_p95_ms WarmStart = 100"
| "targets_p95_ms ColdStart = 200"
| "targets_p95_ms ImagePull = 0"

record boot_trace =
  bt_sandbox_id :: string
  t_request :: "u64 option"
  t_scratch_ready :: "u64 option"
  t_tap_ready :: "u64 option"
  t_proc_spawned :: "u64 option"
  t_api_configured :: "u64 option"
  t_instance_start :: "u64 option"
  t_agent_hello :: "u64 option"

definition boot_trace_new :: "string \<Rightarrow> boot_trace" where
  "boot_trace_new sid = \<lparr>bt_sandbox_id = sid, t_request = None, t_scratch_ready = None,
     t_tap_ready = None, t_proc_spawned = None, t_api_configured = None,
     t_instance_start = None, t_agent_hello = None\<rparr>"

text \<open>The seven \<open>mark_*\<close> methods; \<open>now\<close> is the millisecond clock they read.\<close>

datatype boot_stage = StRequest | StScratch | StTap | StSpawned | StConfigured | StStart | StHello

fun boot_mark :: "u64 \<Rightarrow> boot_stage \<Rightarrow> boot_trace \<Rightarrow> boot_trace" where
  "boot_mark now StRequest t = t\<lparr>t_request := Some now\<rparr>"
| "boot_mark now StScratch t = t\<lparr>t_scratch_ready := Some now\<rparr>"
| "boot_mark now StTap t = t\<lparr>t_tap_ready := Some now\<rparr>"
| "boot_mark now StSpawned t = t\<lparr>t_proc_spawned := Some now\<rparr>"
| "boot_mark now StConfigured t = t\<lparr>t_api_configured := Some now\<rparr>"
| "boot_mark now StStart t = t\<lparr>t_instance_start := Some now\<rparr>"
| "boot_mark now StHello t = t\<lparr>t_agent_hello := Some now\<rparr>"

definition boot_total_ms :: "boot_trace \<Rightarrow> u64 option" where
  "boot_total_ms t =
     (case (t_request t, t_agent_hello t) of
        (Some a, Some b) \<Rightarrow> Some (saturating_sub b a) | _ \<Rightarrow> None)"

fun breakdown_loop ::
  "u64 option \<Rightarrow> (string \<times> u64 option) list \<Rightarrow> (string \<times> u64 option) list" where
  "breakdown_loop prev [] = []"
| "breakdown_loop prev ((name, cur) # rest) =
     (case (prev, cur) of
        (Some p, Some c) \<Rightarrow> [(name, Some (saturating_sub c p))] | _ \<Rightarrow> []) @
     breakdown_loop cur rest"

definition boot_stages :: "boot_trace \<Rightarrow> (string \<times> u64 option) list" where
  "boot_stages t = [(''request'', t_request t), (''scratch'', t_scratch_ready t),
     (''tap'', t_tap_ready t), (''spawn'', t_proc_spawned t), (''configure'', t_api_configured t),
     (''start'', t_instance_start t), (''hello'', t_agent_hello t)]"

definition boot_breakdown :: "boot_trace \<Rightarrow> (string \<times> u64 option) list" where
  "boot_breakdown t = breakdown_loop None (boot_stages t)"

text \<open>The durations of the reported stages add up to the last mark minus the first when
  every stage is marked and the marks are in order.\<close>

definition reported_ms :: "(string \<times> u64 option) list \<Rightarrow> nat" where
  "reported_ms xs = sum_list (map (\<lambda>(_, d). case d of None \<Rightarrow> 0 | Some w \<Rightarrow> unat w) xs)"

lemma breakdown_loop_telescopes:
  "list_all (\<lambda>(_, d). d \<noteq> None) xs \<Longrightarrow>
   sorted (map unat (p # map (the \<circ> snd) xs)) \<Longrightarrow>
   unat p + reported_ms (breakdown_loop (Some p) xs) = unat (last (p # map (the \<circ> snd) xs))"
proof (induction xs arbitrary: p)
  case Nil
  then show ?case by (simp add: reported_ms_def)
next
  case (Cons x xs)
  obtain name c where x: "x = (name, Some c)"
    using Cons.prems(1) by (cases x) auto
  have "unat c + reported_ms (breakdown_loop (Some c) xs) = unat (last (c # map (the \<circ> snd) xs))"
    using Cons.prems by (intro Cons.IH) (auto simp: x)
  moreover have "unat p \<le> unat c"
    using Cons.prems(2) by (simp add: x)
  ultimately show ?case
    by (simp add: x reported_ms_def unat_saturating_sub comp_def)
qed

section \<open>Properties\<close>

text \<open>Adding two resource requests is exact or refused: the sum is \<open>None\<close> exactly when one of
  the three added fields would not fit its integer, and otherwise every field is the true
  sum, so no total ever wraps around.\<close>

lemma resources_add_exact:
  "(resources_checked_add a b = None \<longleftrightarrow>
      2 ^ 16 \<le> unat (vcpu a) + unat (vcpu b) \<or> 2 ^ 32 \<le> unat (memory_mb a) + unat (memory_mb b)
      \<or> 2 ^ 32 \<le> unat (disk_mb a) + unat (disk_mb b))
   \<and> (case resources_checked_add a b of None \<Rightarrow> True
      | Some c \<Rightarrow> unat (vcpu c) = unat (vcpu a) + unat (vcpu b)
          \<and> unat (memory_mb c) = unat (memory_mb a) + unat (memory_mb b)
          \<and> unat (disk_mb c) = unat (disk_mb a) + unat (disk_mb b))"
  unfolding resources_checked_add_None_iff
  by (cases "resources_checked_add a b") (simp_all add: resources_checked_add_SomeD)

text \<open>The stage durations of a complete boot trace add up to its total: when all seven marks
  are set and in order, the six reported stages sum to the time from the request to the
  hello of the agent.\<close>

lemma breakdown_sums_to_total:
  assumes "boot_stages t = map (\<lambda>(n, d). (n, Some d)) marks" and "sorted (map (unat \<circ> snd) marks)"
  shows "boot_total_ms t = Some (snd (last marks) - snd (hd marks))
    \<and> reported_ms (boot_breakdown t) = unat (snd (last marks)) - unat (snd (hd marks))
    \<and> length (boot_breakdown t) = 6"
proof -
  obtain n0 m0 rest where m: "marks = (n0, m0) # rest"
    using assms(1) by (cases marks) (auto simp: boot_stages_def)
  let ?xs = "map (\<lambda>(n, d). (n, Some d)) rest"
  have tail: "tl (boot_stages t) = ?xs" using assms(1) m by simp
  have len: "length rest = 6" using arg_cong [OF tail, of length] by (simp add: boot_stages_def)
  then have ne: "rest \<noteq> []" by auto
  have bd: "boot_breakdown t = breakdown_loop (Some m0) ?xs"
    using assms(1) by (simp add: boot_breakdown_def m)
  have lens: "length (breakdown_loop (Some p) (map (\<lambda>(n, d). (n, Some d)) ys)) = length ys"
    for p and ys :: "(string \<times> u64) list"
    by (induction ys arbitrary: p) auto
  have marks_of: "map (the \<circ> snd) ?xs = map snd rest" by (induction rest) auto
  have "unat m0 + reported_ms (boot_breakdown t) = unat (last (m0 # map (the \<circ> snd) ?xs))"
    unfolding bd
  proof (rule breakdown_loop_telescopes)
    show "list_all (\<lambda>(_, d). d \<noteq> None) ?xs" by (auto simp: list_all_iff)
    show "sorted (map unat (m0 # map (the \<circ> snd) ?xs))"
      using assms(2) unfolding marks_of by (simp add: m comp_def)
  qed
  then have rep: "unat m0 + reported_ms (boot_breakdown t) = unat (snd (last marks))"
    unfolding marks_of using ne by (simp add: m last_map)
  have first: "t_request t = Some m0" using assms(1) by (simp add: m boot_stages_def)
  have "last (boot_stages t) = (fst (last rest), Some (snd (last rest)))"
    using assms(1) ne by (simp add: m last_map split_beta)
  then have hello: "t_agent_hello t = Some (snd (last rest))" by (simp add: boot_stages_def)
  have "m0 \<le> snd (last marks)" using rep by (simp add: word_le_nat_alt)
  then have "saturating_sub (snd (last marks)) m0 = snd (last marks) - m0"
    by (auto simp: saturating_sub_def)
  moreover have "reported_ms (boot_breakdown t) = unat (snd (last marks)) - unat m0" using rep by linarith
  moreover have "length (boot_breakdown t) = 6" by (simp add: bd lens len)
  ultimately show ?thesis using first hello ne by (simp add: m boot_total_ms_def)
qed

definition demo_trace :: boot_trace where
  "demo_trace = \<lparr>bt_sandbox_id = ''sb'', t_request = Some 10, t_scratch_ready = Some 20, t_tap_ready = Some 25,
     t_proc_spawned = Some 40, t_api_configured = Some 60, t_instance_start = Some 61, t_agent_hello = Some 130\<rparr>"

lemma breakdown_sums_to_total_witness:
  "boot_total_ms demo_trace = Some 120 \<and> reported_ms (boot_breakdown demo_trace) = 120"
  using breakdown_sums_to_total [of demo_trace
      "[(''request'', 10), (''scratch'', 20), (''tap'', 25), (''spawn'', 40), (''configure'', 60),
        (''start'', 61), (''hello'', 130)]"]
  by (simp add: boot_stages_def demo_trace_def)

end
