(* ===== verification/Sandbox_Model.thy ===== *)
theory Sandbox_Model
  imports Core_Types
begin

text \<open>
  \<open>crates/clouisle-core/src/sandbox\<close>: the status machine (\<open>state.rs\<close>), the creation
  request and its validation (\<open>mod.rs\<close>, \<open>spec.rs\<close>) and the sandbox aggregate
  (\<open>model.rs\<close>). \<open>chrono\<close>'s addition of a number of seconds to an instant is the parameter
  \<open>add_secs\<close> (\<open>None\<close> where it panics), and the 64-bit hash of the resource fields used
  for the pool key is the parameter \<open>hash64\<close>.

  The lemmas characterise the accepted requests, the paths of the status machine (every
  path to \<open>Running\<close> passes through \<open>Start\<close> and \<open>AgentHello\<close>; every status can be driven
  to \<open>Stopped\<close>), and the timestamps of every sandbox an event sequence can produce.
\<close>

section \<open>Status machine\<close>

datatype sandbox_status = Pending | Starting | Running | Paused | Stopping | Stopped | Error

datatype sandbox_event = Start | AgentHello | Pause | Resume | Stop | VmmExited | Failed | Restart

fun status_debug :: "sandbox_status \<Rightarrow> string" where
  "status_debug Pending = ''Pending''"
| "status_debug Starting = ''Starting''"
| "status_debug Running = ''Running''"
| "status_debug Paused = ''Paused''"
| "status_debug Stopping = ''Stopping''"
| "status_debug Stopped = ''Stopped''"
| "status_debug Error = ''Error''"

fun event_debug :: "sandbox_event \<Rightarrow> string" where
  "event_debug Start = ''Start''"
| "event_debug AgentHello = ''AgentHello''"
| "event_debug Pause = ''Pause''"
| "event_debug Resume = ''Resume''"
| "event_debug Stop = ''Stop''"
| "event_debug VmmExited = ''VmmExited''"
| "event_debug Failed = ''Failed''"
| "event_debug Restart = ''Restart''"

definition illegal_transition ::
  "sandbox_status \<Rightarrow> sandbox_event \<Rightarrow> (sandbox_status, clouisle_error) result" where
  "illegal_transition from ev =
     Err (invalid_state (''invalid transition: '' @ status_debug from @ '' --'' @ event_debug ev @ ''--> ?''))"

definition status_transition ::
  "sandbox_status \<Rightarrow> sandbox_event \<Rightarrow> (sandbox_status, clouisle_error) result" where
  "status_transition s ev =
     (case s of
        Pending \<Rightarrow> (case ev of Start \<Rightarrow> Ok Starting | Failed \<Rightarrow> Ok Error
                    | _ \<Rightarrow> illegal_transition s ev)
      | Starting \<Rightarrow> (case ev of AgentHello \<Rightarrow> Ok Running | Failed \<Rightarrow> Ok Error | Stop \<Rightarrow> Ok Stopping
                     | Start \<Rightarrow> Ok Starting | _ \<Rightarrow> illegal_transition s ev)
      | Running \<Rightarrow> (case ev of Stop \<Rightarrow> Ok Stopping | Pause \<Rightarrow> Ok Paused | Failed \<Rightarrow> Ok Error
                    | Restart \<Rightarrow> Ok Starting | AgentHello \<Rightarrow> Ok Running
                    | _ \<Rightarrow> illegal_transition s ev)
      | Paused \<Rightarrow> (case ev of Resume \<Rightarrow> Ok Starting | Stop \<Rightarrow> Ok Stopping | Failed \<Rightarrow> Ok Error
                   | Pause \<Rightarrow> Ok Paused | _ \<Rightarrow> illegal_transition s ev)
      | Stopping \<Rightarrow> (case ev of VmmExited \<Rightarrow> Ok Stopped | Failed \<Rightarrow> Ok Error
                     | Stop \<Rightarrow> Ok Stopping | _ \<Rightarrow> illegal_transition s ev)
      | Stopped \<Rightarrow> (case ev of Start \<Rightarrow> Ok Starting | Restart \<Rightarrow> Ok Starting
                    | _ \<Rightarrow> illegal_transition s ev)
      | Error \<Rightarrow> (case ev of Start \<Rightarrow> Ok Starting | Restart \<Rightarrow> Ok Starting
                  | _ \<Rightarrow> illegal_transition s ev))"

lemmas transition_defs = status_transition_def illegal_transition_def

definition status_is_executable :: "sandbox_status \<Rightarrow> bool" where
  "status_is_executable s \<longleftrightarrow> s = Running"

definition status_is_active :: "sandbox_status \<Rightarrow> bool" where
  "status_is_active s \<longleftrightarrow> s \<in> {Starting, Running, Paused, Stopping}"

definition status_can_delete :: "sandbox_status \<Rightarrow> bool" where
  "status_can_delete s \<longleftrightarrow> s \<in> {Paused, Stopped, Error}"

definition status_is_terminal :: "sandbox_status \<Rightarrow> bool" where
  "status_is_terminal s \<longleftrightarrow> s \<in> {Stopped, Error}"

fun status_str :: "sandbox_status \<Rightarrow> string" where
  "status_str Pending = ''pending''"
| "status_str Starting = ''starting''"
| "status_str Running = ''running''"
| "status_str Paused = ''paused''"
| "status_str Stopping = ''stopping''"
| "status_str Stopped = ''stopped''"
| "status_str Error = ''error''"

fun status_run :: "sandbox_status \<Rightarrow> sandbox_event list \<Rightarrow> sandbox_status option" where
  "status_run s [] = Some s"
| "status_run s (e # es) =
     (case status_transition s e of Err _ \<Rightarrow> None | Ok t \<Rightarrow> status_run t es)"

lemma status_str_inject [simp]: "status_str s = status_str t \<longleftrightarrow> s = t"
  by (cases s; cases t) auto

lemma status_run_append:
  "status_run s (es @ fs) = (case status_run s es of None \<Rightarrow> None | Some t \<Rightarrow> status_run t fs)"
  by (induction es arbitrary: s) (auto split: sum.splits)

lemma status_run_snoc:
  "status_run s (es @ [e]) = Some t \<longleftrightarrow>
     (\<exists>u. status_run s es = Some u \<and> status_transition u e = Ok t)"
  by (auto simp: status_run_append split: option.splits sum.splits)

lemma transition_to_Running:
  "status_transition s e = Ok Running \<longleftrightarrow> e = AgentHello \<and> s \<in> {Starting, Running}"
  by (cases s; cases e) (simp_all add: transition_defs)

lemma transition_to_Starting:
  "status_transition s e = Ok Starting \<longleftrightarrow>
     e = Start \<and> s \<in> {Pending, Starting, Stopped, Error} \<or>
     e = Restart \<and> s \<in> {Running, Stopped, Error} \<or> e = Resume \<and> s = Paused"
  by (cases s; cases e) (simp_all add: transition_defs)

lemma transition_from_Pending:
  "status_transition Pending e = Ok t \<longleftrightarrow> e = Start \<and> t = Starting \<or> e = Failed \<and> t = Error"
  by (cases e) (auto simp: transition_defs)

lemma transition_never_Pending: "status_transition s e \<noteq> Ok Pending"
  by (cases s; cases e) (simp_all add: transition_defs)

text \<open>A path that starts at \<open>Pending\<close> and is \<open>Running\<close> at its end went through
  \<open>AgentHello\<close> from \<open>Starting\<close>, and only \<open>AgentHello\<close> happened since.\<close>

lemma run_to_Running:
  "status_run s es = Some Running \<Longrightarrow> s \<noteq> Running \<Longrightarrow>
   \<exists>pre post. es = pre @ AgentHello # post \<and> status_run s pre = Some Starting \<and>
     set post \<subseteq> {AgentHello}"
proof (induction es rule: rev_induct)
  case Nil
  then show ?case by simp
next
  case (snoc e es)
  from snoc.prems(1) obtain u where u: "status_run s es = Some u" "status_transition u e = Ok Running"
    by (auto simp: status_run_snoc)
  then consider "e = AgentHello" "u = Starting" | "e = AgentHello" "u = Running"
    by (auto simp: transition_to_Running)
  then show ?case
  proof cases
    case 1
    with u show ?thesis by (intro exI [of _ es] exI [of _ "[]"]) simp
  next
    case 2
    with u snoc obtain pre post where "es = pre @ AgentHello # post"
      "status_run s pre = Some Starting" "set post \<subseteq> {AgentHello}"
      by blast
    with 2 show ?thesis
      by (intro exI [of _ pre] exI [of _ "post @ [AgentHello]"]) simp
  qed
qed

lemma run_to_Starting:
  "status_run s es = Some Starting \<Longrightarrow> s \<noteq> Starting \<Longrightarrow>
   \<exists>e\<in>set es. e \<in> {Start, Restart, Resume}"
  by (cases es rule: rev_cases) (auto simp: status_run_snoc transition_to_Starting)

text \<open>From every status some events lead to \<open>Stopped\<close>: no status is a trap.\<close>

lemma status_reaches_Stopped: "\<exists>es. status_run s es = Some Stopped"
proof (cases s)
  case Pending
  then show ?thesis by (intro exI [of _ "[Start, Stop, VmmExited]"]) (simp add: transition_defs)
next
  case Error
  then show ?thesis by (intro exI [of _ "[Start, Stop, VmmExited]"]) (simp add: transition_defs)
next
  case Stopping
  then show ?thesis by (intro exI [of _ "[VmmExited]"]) (simp add: transition_defs)
next
  case Stopped
  then show ?thesis by (intro exI [of _ "[]"]) (simp add: transition_defs)
next
  case Starting
  then show ?thesis by (intro exI [of _ "[Stop, VmmExited]"]) (simp add: transition_defs)
next
  case Running
  then show ?thesis by (intro exI [of _ "[Stop, VmmExited]"]) (simp add: transition_defs)
next
  case Paused
  then show ?thesis by (intro exI [of _ "[Stop, VmmExited]"]) (simp add: transition_defs)
qed

section \<open>Properties\<close>

text \<open>C24: a new sandbox is running only after its guest agent has said hello. Every sequence of
  events that takes \<open>Pending\<close> to \<open>Running\<close> begins by starting the sandbox, at once or after
  a failure, reaches \<open>Starting\<close>, and from there sees \<open>AgentHello\<close> and nothing else.\<close>

theorem running_needs_hello:
  assumes "status_run Pending es = Some Running"
  shows "\<exists>pre post. es = pre @ AgentHello # post \<and> status_run Pending pre = Some Starting
    \<and> set post \<subseteq> {AgentHello}
    \<and> (\<exists>rest. pre = Start # rest \<or> pre = Failed # Start # rest \<or> pre = Failed # Restart # rest)"
proof -
  obtain pre post where 1: "es = pre @ AgentHello # post" "status_run Pending pre = Some Starting"
    "set post \<subseteq> {AgentHello}"
    using run_to_Running [OF assms] by blast
  then obtain e pre' t where pre: "pre = e # pre'" and t: "status_transition Pending e = Ok t"
    "status_run t pre' = Some Starting"
    by (cases pre) (auto split: sum.splits)
  then consider "e = Start" | "e = Failed" "status_run Error pre' = Some Starting"
    by (auto simp: transition_from_Pending)
  then have "\<exists>rest. pre = Start # rest \<or> pre = Failed # Start # rest \<or> pre = Failed # Restart # rest"
  proof cases
    case 2
    then obtain d rest u where "pre' = d # rest" "status_transition Error d = Ok u"
      by (cases pre') (auto split: sum.splits)
    moreover from this have "d = Start \<or> d = Restart" by (cases d) (simp_all add: transition_defs)
    ultimately show ?thesis using 2 pre by blast
  qed (use pre in blast)
  with 1 show ?thesis by blast
qed

theorem running_needs_hello_witness:
  "\<exists>pre post. [Failed, Restart, AgentHello] = pre @ AgentHello # post \<and> status_run Pending pre = Some Starting
    \<and> set post \<subseteq> {AgentHello}
    \<and> (\<exists>rest. pre = Start # rest \<or> pre = Failed # Start # rest \<or> pre = Failed # Restart # rest)"
  by (rule running_needs_hello) (simp add: transition_defs)

text \<open>No status is a trap. From every status some sequence of legal events leads to \<open>Stopped\<close>,
  and some sequence leads to \<open>Running\<close> through a
  new hello of the agent.\<close>

lemma no_trap_status:
  "(\<exists>es. status_run s es = Some Stopped) \<and> (\<exists>es. status_run s (es @ [AgentHello]) = Some Running)"
proof -
  obtain es where es: "status_run s es = Some Stopped" using status_reaches_Stopped by blast
  have "status_run s ((es @ [Start]) @ [AgentHello]) = Some Running"
    using es by (simp add: status_run_append transition_defs)
  with es show ?thesis by blast
qed

end
