(* ===== verification/Sandbox_Spec.thy ===== *)
theory Sandbox_Spec
  imports Sandbox_Model
begin

text \<open>
  The creation request (\<open>sandbox/mod.rs\<close>, \<open>sandbox/spec.rs\<close>) with its validation, and the
  sandbox aggregate (\<open>sandbox/model.rs\<close>) with its transition function. The 64-bit hash of
  the resource fields is the parameter \<open>hash64\<close>, and \<open>chrono\<close>'s addition of seconds to an
  instant the parameter \<open>add_secs\<close>, with \<open>None\<close> where it panics.
\<close>

section \<open>Request types\<close>

record image_ref =
  ir_reference :: string
  ir_digest :: "string option"

definition image_ref_new :: "string \<Rightarrow> image_ref" where
  "image_ref_new r = \<lparr>ir_reference = r, ir_digest = None\<rparr>"

definition cache_key :: "image_ref \<Rightarrow> string" where
  "cache_key i = (case ir_digest i of Some d \<Rightarrow> d | None \<Rightarrow> ir_reference i)"

record network_config =
  nc_enabled :: bool
  nc_allow_egress :: "string list"
  nc_deny_egress :: "string list"

definition default_network :: network_config where
  "default_network = \<lparr>nc_enabled = True, nc_allow_egress = [], nc_deny_egress = []\<rparr>"

record mount_spec =
  ms_source :: string
  ms_target :: string
  ms_readonly :: bool

record volume_mount_spec =
  vm_name :: string
  vm_target :: string

record secret_spec =
  ss_name :: string
  ss_value :: string

datatype restart_policy = Never | OnFailure | Always

fun restart_policy_str :: "restart_policy \<Rightarrow> string" where
  "restart_policy_str Never = ''never''"
| "restart_policy_str OnFailure = ''on_failure''"
| "restart_policy_str Always = ''always''"

record sandbox_spec =
  sp_image :: image_ref
  sp_resources :: resources
  sp_network :: network_config
  sp_mounts :: "mount_spec list"
  sp_volume_mounts :: "volume_mount_spec list"
  sp_secrets :: "secret_spec list"
  sp_ttl_secs :: "u64 option"
  sp_start_timeout_secs :: u64
  sp_env :: "(string, string) hashmap"
  sp_init_command :: "string list"
  sp_init_env :: "(string, string) hashmap"
  sp_init_cwd :: "string option"
  sp_init_timeout_ms :: u64
  sp_metadata :: "(string, string) hashmap"
  sp_auto_pause :: bool
  sp_auto_pause_memory :: bool
  sp_auto_resume :: bool
  sp_node_selector :: "(string, string) hashmap"
  sp_restart_policy :: restart_policy
  sp_tenant_id :: "string option"

definition default_init_timeout_ms :: u64 where
  "default_init_timeout_ms = 30000"

definition default_spec :: sandbox_spec where
  "default_spec = \<lparr>
     sp_image = image_ref_new ''docker.io/library/alpine:latest'',
     sp_resources = default_resources, sp_network = default_network,
     sp_mounts = [], sp_volume_mounts = [], sp_secrets = [], sp_ttl_secs = None,
     sp_start_timeout_secs = 10, sp_env = [], sp_init_command = [], sp_init_env = [],
     sp_init_cwd = None, sp_init_timeout_ms = default_init_timeout_ms, sp_metadata = [],
     sp_auto_pause = False, sp_auto_pause_memory = True, sp_auto_resume = False,
     sp_node_selector = [], sp_restart_policy = Never, sp_tenant_id = None\<rparr>"

section \<open>Validation\<close>

definition image_errors :: "sandbox_spec \<Rightarrow> field_error list" where
  "image_errors sp =
     (let r = ir_reference (sp_image sp) in
      if str_trim r = [] then [field_err ''image'' ''image is required'']
      else if list_ex (\<lambda>c. c = nul \<or> is_control c) r
        then [field_err ''image'' ''image reference must not contain control characters'']
      else [])"

definition has_dotdot :: "string \<Rightarrow> bool" where
  "has_dotdot p \<longleftrightarrow> list_ex (\<lambda>part. part = ''..'') (split_on (CHR ''/'') p)"

definition init_errors :: "sandbox_spec \<Rightarrow> field_error list" where
  "init_errors sp =
     (if sp_start_timeout_secs sp = 0 \<or> 300 < sp_start_timeout_secs sp
        then [field_err ''start_timeout_secs'' ''start_timeout_secs must be in [1, 300]''] else []) @
     (if list_ex (\<lambda>part. str_trim part = []) (sp_init_command sp)
        then [field_err ''init_command'' ''init_command entries must not be empty''] else []) @
     (if sp_init_command sp = [] \<and> (sp_init_env sp \<noteq> [] \<or> sp_init_cwd sp \<noteq> None)
        then [field_err ''init_command'' ''init_env and init_cwd require init_command''] else []) @
     (case sp_init_cwd sp of None \<Rightarrow> []
      | Some cwd \<Rightarrow> if cwd = [] \<or> \<not> starts_with ''/'' cwd \<or> nul \<in> set cwd \<or> has_dotdot cwd
          then [field_err ''init_cwd'' ''init_cwd must be an absolute guest path without traversal'']
          else []) @
     (if sp_init_command sp = [] \<and> sp_init_timeout_ms sp \<noteq> default_init_timeout_ms
        then [field_err ''init_timeout_ms'' ''init_timeout_ms is only valid with init_command''] else []) @
     (if sp_init_timeout_ms sp = 0 \<or> 300000 < sp_init_timeout_ms sp
        then [field_err ''init_timeout_ms'' ''init_timeout_ms must be in [1, 300000]''] else []) @
     (if sp_auto_resume sp \<and> \<not> sp_auto_pause sp
        then [field_err ''auto_resume'' ''auto_resume requires auto_pause''] else [])"

definition bad_mount :: "mount_spec \<Rightarrow> bool" where
  "bad_mount m \<longleftrightarrow>
     str_trim (ms_source m) = [] \<or> str_trim (ms_target m) = [] \<or>
     \<not> starts_with ''/'' (ms_target m) \<or> nul \<in> set (ms_source m) \<or> nul \<in> set (ms_target m) \<or>
     has_dotdot (ms_source m) \<or> has_dotdot (ms_target m)"

definition bad_volume_mount :: "volume_mount_spec \<Rightarrow> bool" where
  "bad_volume_mount m \<longleftrightarrow>
     str_trim (vm_name m) = [] \<or>
     list_ex (\<lambda>c. c \<in> {CHR ''/'', CHR 0x5C, nul}) (vm_name m) \<or>
     str_trim (vm_target m) = [] \<or> \<not> starts_with ''/'' (vm_target m) \<or>
     nul \<in> set (vm_target m) \<or> has_dotdot (vm_target m)"

definition mount_errors :: "sandbox_spec \<Rightarrow> field_error list" where
  "mount_errors sp =
     map (\<lambda>_. field_err ''mounts''
            ''mount source/target must be non-empty and must not escape its root'')
         (filter bad_mount (sp_mounts sp)) @
     map (\<lambda>_. field_err ''volume_mounts''
            ''volume name must be a simple name and target must be an absolute guest path'')
         (filter bad_volume_mount (sp_volume_mounts sp))"

definition bad_secret_name :: "string \<Rightarrow> bool" where
  "bad_secret_name n \<longleftrightarrow>
     n = [] \<or> n = ''.'' \<or> n = ''..'' \<or> list_ex (\<lambda>c. c \<in> {CHR ''/'', CHR 0x5C, nul}) n"

text \<open>The loop over the secrets; \<open>seen\<close> is the hash set of the names accepted so far.\<close>

fun secret_errors :: "string list \<Rightarrow> secret_spec list \<Rightarrow> field_error list" where
  "secret_errors seen [] = []"
| "secret_errors seen (s # ss) =
     (if bad_secret_name (ss_name s)
      then field_err ''secrets'' ''secret names must be non-empty file names without path separators''
           # secret_errors seen ss
      else if ss_name s \<in> set seen
      then field_err ''secrets'' ''secret names must be unique'' # secret_errors seen ss
      else secret_errors (ss_name s # seen) ss)"

definition spec_errors :: "sandbox_spec \<Rightarrow> field_error list" where
  "spec_errors sp = image_errors sp @ resources_errors (sp_resources sp) @ init_errors sp @
     mount_errors sp @ secret_errors [] (sp_secrets sp)"

definition spec_validate :: "sandbox_spec \<Rightarrow> (unit, field_error list) result" where
  "spec_validate sp = (if spec_errors sp = [] then Ok () else Err (spec_errors sp))"

definition resources_hash :: "(u16 \<times> u32 \<times> u32 \<times> u32 option \<Rightarrow> u64) \<Rightarrow> sandbox_spec \<Rightarrow> u64" where
  "resources_hash hash64 sp =
     (let r = sp_resources sp in hash64 (vcpu r, memory_mb r, disk_mb r, pids_max r))"

definition pool_key :: "(u16 \<times> u32 \<times> u32 \<times> u32 option \<Rightarrow> u64) \<Rightarrow> sandbox_spec \<Rightarrow> string" where
  "pool_key hash64 sp =
     cache_key (sp_image sp) @ '':'' @ show_nat (unat (resources_hash hash64 sp))"

subsection \<open>What an accepted request guarantees\<close>

definition guest_path_ok :: "string \<Rightarrow> bool" where
  "guest_path_ok p \<longleftrightarrow> (\<exists>r. p = CHR ''/'' # r) \<and> nul \<notin> set p \<and> ''..'' \<notin> set (split_on (CHR ''/'') p)"

definition file_name_ok :: "string \<Rightarrow> bool" where
  "file_name_ok n \<longleftrightarrow> n \<noteq> [] \<and> n \<noteq> ''.'' \<and> n \<noteq> ''..'' \<and>
     CHR ''/'' \<notin> set n \<and> CHR 0x5C \<notin> set n \<and> nul \<notin> set n"

lemma bad_secret_name_iff: "bad_secret_name n \<longleftrightarrow> \<not> file_name_ok n"
  by (auto simp: bad_secret_name_def file_name_ok_def list_ex_iff)

lemma secret_errors_Nil_iff:
  "secret_errors seen ss = [] \<longleftrightarrow>
     (\<forall>s\<in>set ss. file_name_ok (ss_name s)) \<and> distinct (map ss_name ss) \<and>
     set (map ss_name ss) \<inter> set seen = {}"
  by (induction seen ss rule: secret_errors.induct) (auto simp: bad_secret_name_iff)

lemma has_dotdot_iff: "has_dotdot p \<longleftrightarrow> ''..'' \<in> set (split_on (CHR ''/'') p)"
  by (auto simp: has_dotdot_def list_ex_iff)

lemma starts_with_slash: "starts_with ''/'' p \<longleftrightarrow> (\<exists>r. p = CHR ''/'' # r)"
  by (simp add: starts_with_iff)

lemma not_bad_mountD:
  "\<not> bad_mount m \<Longrightarrow> guest_path_ok (ms_target m) \<and> str_trim (ms_source m) \<noteq> [] \<and>
     nul \<notin> set (ms_source m) \<and> ''..'' \<notin> set (split_on (CHR ''/'') (ms_source m))"
  by (simp add: bad_mount_def guest_path_ok_def has_dotdot_iff starts_with_slash)

lemma str_trim_Nil [simp]: "str_trim [] = []"
  by (simp add: str_trim_def)

lemma not_bad_volume_mountD:
  assumes "\<not> bad_volume_mount m"
  shows "guest_path_ok (vm_target m) \<and> vm_name m \<noteq> [] \<and> CHR ''/'' \<notin> set (vm_name m)"
proof -
  from assms have "str_trim (vm_name m) \<noteq> []"
    unfolding bad_volume_mount_def by blast
  then have name: "vm_name m \<noteq> []"
    by (metis str_trim_Nil)
  from assms have "\<not> list_ex (\<lambda>c. c \<in> {CHR ''/'', CHR 0x5C, nul}) (vm_name m)"
    unfolding bad_volume_mount_def by blast
  then have chars: "CHR ''/'' \<notin> set (vm_name m)"
    unfolding list_ex_iff by blast
  from assms have "guest_path_ok (vm_target m)"
    by (simp add: bad_volume_mount_def guest_path_ok_def has_dotdot_iff starts_with_slash)
  with name chars show ?thesis by blast
qed

lemma spec_validate_ok_iff: "spec_validate sp = Ok () \<longleftrightarrow> spec_errors sp = []"
  by (simp add: spec_validate_def)

lemma init_errors_Nil_cwd:
  "init_errors sp = [] \<Longrightarrow> sp_init_cwd sp = Some cwd \<Longrightarrow> guest_path_ok cwd \<and> sp_init_command sp \<noteq> []"
  by (auto simp: init_errors_def guest_path_ok_def has_dotdot_iff starts_with_slash split: if_splits)

lemma init_errors_Nil_bounds:
  assumes "init_errors sp = []"
  shows "1 \<le> unat (sp_start_timeout_secs sp) \<and> unat (sp_start_timeout_secs sp) \<le> 300"
    and "1 \<le> unat (sp_init_timeout_ms sp) \<and> unat (sp_init_timeout_ms sp) \<le> 300000"
    and "sp_auto_resume sp \<Longrightarrow> sp_auto_pause sp"
proof -
  have a: "sp_start_timeout_secs sp \<noteq> 0" "\<not> 300 < sp_start_timeout_secs sp"
    and b: "sp_init_timeout_ms sp \<noteq> 0" "\<not> 300000 < sp_init_timeout_ms sp"
    and c: "sp_auto_resume sp \<Longrightarrow> sp_auto_pause sp"
    using assms by (simp_all add: init_errors_def split: if_splits)
  show "1 \<le> unat (sp_start_timeout_secs sp) \<and> unat (sp_start_timeout_secs sp) \<le> 300"
    using a by (auto simp: word_less_nat_alt unat_gt_0 Suc_le_eq)
  show "1 \<le> unat (sp_init_timeout_ms sp) \<and> unat (sp_init_timeout_ms sp) \<le> 300000"
    using b by (auto simp: word_less_nat_alt unat_gt_0 Suc_le_eq)
  show "sp_auto_resume sp \<Longrightarrow> sp_auto_pause sp" by (rule c)
qed

section \<open>The sandbox aggregate\<close>

record vmm_meta =
  me_backend :: string
  me_owner_id :: "string option"
  me_pid :: "u64 option"
  me_api_socket :: "string option"
  me_vsock_socket :: "string option"
  me_vsock_cid :: "u64 option"
  me_vmm_id :: "string option"
  me_extra :: "(string, string) hashmap"

definition default_vmm_meta :: vmm_meta where
  "default_vmm_meta = \<lparr>me_backend = [], me_owner_id = None, me_pid = None, me_api_socket = None,
     me_vsock_socket = None, me_vsock_cid = None, me_vmm_id = None, me_extra = []\<rparr>"

definition parse_u16 :: "string \<Rightarrow> u16 option" where
  "parse_u16 s = map_option of_nat (parse_uint (2 ^ 16 - 1) s)"

definition inherited_subnet :: "vmm_meta \<Rightarrow> (u16 \<times> u16) option" where
  "inherited_subnet m =
     (case hm_get (me_extra m) ''subnet'' of None \<Rightarrow> None | Some v \<Rightarrow>
      (case split_once (CHR ''.'') v of None \<Rightarrow> None | Some (a, b) \<Rightarrow>
       (case parse_u16 a of None \<Rightarrow> None | Some x \<Rightarrow>
        (case parse_u16 b of None \<Rightarrow> None | Some y \<Rightarrow> Some (x, y)))))"

record sandbox =
  sb_id :: string
  sb_spec :: sandbox_spec
  sb_status :: sandbox_status
  sb_created_at :: time
  sb_updated_at :: time
  sb_ready_at :: "time option"
  sb_expires_at :: "time option"
  sb_vmm_meta :: vmm_meta
  sb_terminal_message :: "string option"
  sb_node_id :: "string option"

definition sandbox_new :: "time \<Rightarrow> string \<Rightarrow> sandbox_spec \<Rightarrow> sandbox" where
  "sandbox_new now i sp = \<lparr>sb_id = i, sb_spec = sp, sb_status = Pending, sb_created_at = now,
     sb_updated_at = now, sb_ready_at = None, sb_expires_at = None,
     sb_vmm_meta = default_vmm_meta, sb_terminal_message = None, sb_node_id = None\<rparr>"

text \<open>\<open>ttl as i64\<close> reads the 64 bits as a signed number, hence \<open>sint\<close>. The outer \<open>None\<close> is
  the panic of \<open>chrono\<close>'s addition.\<close>

definition sandbox_transition ::
  "(time \<Rightarrow> int \<Rightarrow> time option) \<Rightarrow> time \<Rightarrow> sandbox \<Rightarrow> sandbox_event
   \<Rightarrow> (sandbox, clouisle_error) result option" where
  "sandbox_transition add_secs now sb ev =
     (case status_transition (sb_status sb) ev of
        Err e \<Rightarrow> Some (Err e)
      | Ok nxt \<Rightarrow>
          (let sb' = sb\<lparr>sb_status := nxt, sb_updated_at := now\<rparr> in
           if nxt = Running then
             (case sp_ttl_secs (sb_spec sb) of
                None \<Rightarrow> Some (Ok (sb'\<lparr>sb_ready_at := Some now, sb_expires_at := None\<rparr>))
              | Some ttl \<Rightarrow>
                  (case add_secs now (sint ttl) of
                     None \<Rightarrow> None
                   | Some ex \<Rightarrow> Some (Ok (sb'\<lparr>sb_ready_at := Some now, sb_expires_at := Some ex\<rparr>))))
           else Some (Ok sb')))"

definition sandbox_is_executable :: "sandbox \<Rightarrow> bool" where
  "sandbox_is_executable sb \<longleftrightarrow> status_is_executable (sb_status sb)"

text \<open>The sandboxes that events can produce from a new one, at any clock readings.\<close>

inductive sandbox_reach :: "(time \<Rightarrow> int \<Rightarrow> time option) \<Rightarrow> sandbox \<Rightarrow> bool"
  for add_secs where
  reach_new: "sandbox_reach add_secs (sandbox_new now i sp)"
| reach_step: "sandbox_reach add_secs sb \<Longrightarrow>
     sandbox_transition add_secs now sb ev = Some (Ok sb') \<Longrightarrow> sandbox_reach add_secs sb'"

definition timestamps_ok :: "(time \<Rightarrow> int \<Rightarrow> time option) \<Rightarrow> sandbox \<Rightarrow> bool" where
  "timestamps_ok add_secs sb \<longleftrightarrow>
     (sb_ready_at sb = None \<longrightarrow> sb_expires_at sb = None \<and> sb_status sb \<notin> {Running, Paused}) \<and>
     (\<forall>r. sb_ready_at sb = Some r \<longrightarrow>
        sb_expires_at sb =
          (case sp_ttl_secs (sb_spec sb) of None \<Rightarrow> None | Some ttl \<Rightarrow> add_secs r (sint ttl))) \<and>
     (sb_status sb = Running \<longrightarrow> sb_ready_at sb = Some (sb_updated_at sb))"

lemma transition_to_Paused:
  "status_transition s e = Ok Paused \<longleftrightarrow> e = Pause \<and> s \<in> {Running, Paused}"
  by (cases s; cases e) (simp_all add: transition_defs)

lemma timestamps_ok_new: "timestamps_ok add_secs (sandbox_new now i sp)"
  by (simp add: timestamps_ok_def sandbox_new_def)

lemma timestamps_ok_step:
  assumes "timestamps_ok add_secs sb"
    and "sandbox_transition add_secs now sb ev = Some (Ok sb')"
  shows "timestamps_ok add_secs sb'"
proof -
  obtain nxt where nxt: "status_transition (sb_status sb) ev = Ok nxt"
    using assms(2) by (auto simp: sandbox_transition_def split: sum.splits)
  show ?thesis
  proof (cases "nxt = Running")
    case True
    with nxt assms(2) show ?thesis
      by (auto simp: sandbox_transition_def timestamps_ok_def Let_def split: option.splits)
  next
    case False
    then have sb': "sb' = sb\<lparr>sb_status := nxt, sb_updated_at := now\<rparr>"
      using nxt assms(2) by (simp add: sandbox_transition_def)
    have "nxt = Paused \<Longrightarrow> sb_status sb \<in> {Running, Paused}"
      using nxt by (simp add: transition_to_Paused)
    with False assms(1) show ?thesis
      by (auto simp: sb' timestamps_ok_def)
  qed
qed

lemma reach_timestamps_ok: "sandbox_reach add_secs sb \<Longrightarrow> timestamps_ok add_secs sb"
  by (induction rule: sandbox_reach.induct) (blast intro: timestamps_ok_new timestamps_ok_step)+

lemma sandbox_transition_frame:
  "sandbox_transition add_secs now sb ev = Some (Ok sb') \<Longrightarrow>
     sb_id sb' = sb_id sb \<and> sb_spec sb' = sb_spec sb \<and> sb_created_at sb' = sb_created_at sb \<and>
     sb_vmm_meta sb' = sb_vmm_meta sb \<and> sb_node_id sb' = sb_node_id sb \<and>
     status_transition (sb_status sb) ev = Ok (sb_status sb')"
  by (auto simp: sandbox_transition_def Let_def split: sum.splits option.splits if_splits)

lemma unat_u16_le: "unat (a :: u16) \<le> 65535"
proof -
  have "unat a < 2 ^ LENGTH(16)" by (rule unsigned_less)
  then show ?thesis by simp
qed

lemma inherited_subnet_insert:
  "inherited_subnet (m\<lparr>me_extra := hm_insert ''subnet''
     (show_nat (unat a) @ ''.'' @ show_nat (unat b)) (me_extra m)\<rparr>) = Some (a, b)"
  using unat_u16_le [of a] unat_u16_le [of b]
  by (simp add: inherited_subnet_def split_once_append show_nat_no_dot parse_u16_def)

section \<open>Properties\<close>

text \<open>An accepted request is safe to act on: the resources are within their documented bounds,
  the timeouts are within theirs, the image reference is not blank and has no control
  character, every mount target and the working directory is an absolute guest path without
  a \<open>..\<close> component, and the secret names are distinct plain file names.\<close>

lemma spec_validate_sound:
  assumes "spec_validate sp = Ok ()"
  shows "resources_ok (sp_resources sp)
    \<and> str_trim (ir_reference (sp_image sp)) \<noteq> [] \<and> \<not> list_ex is_control (ir_reference (sp_image sp))
    \<and> unat (sp_start_timeout_secs sp) \<in> {1..300} \<and> unat (sp_init_timeout_ms sp) \<in> {1..300000}
    \<and> (\<forall>cwd. sp_init_cwd sp = Some cwd \<longrightarrow> guest_path_ok cwd \<and> sp_init_command sp \<noteq> [])
    \<and> (\<forall>m\<in>set (sp_mounts sp). guest_path_ok (ms_target m) \<and> ''..'' \<notin> set (split_on (CHR ''/'') (ms_source m)))
    \<and> (\<forall>v\<in>set (sp_volume_mounts sp). guest_path_ok (vm_target v) \<and> CHR ''/'' \<notin> set (vm_name v))
    \<and> (\<forall>x\<in>set (sp_secrets sp). file_name_ok (ss_name x)) \<and> distinct (map ss_name (sp_secrets sp))
    \<and> (sp_auto_resume sp \<longrightarrow> sp_auto_pause sp)"
proof -
  have e: "image_errors sp = []" "resources_errors (sp_resources sp) = []" "init_errors sp = []"
    "mount_errors sp = []" "secret_errors [] (sp_secrets sp) = []"
    using assms by (simp_all add: spec_validate_ok_iff spec_errors_def)
  have m: "\<forall>m\<in>set (sp_mounts sp). \<not> bad_mount m" "\<forall>v\<in>set (sp_volume_mounts sp). \<not> bad_volume_mount v"
    using e(4) by (simp_all add: mount_errors_def filter_empty_conv)
  have i: "str_trim (ir_reference (sp_image sp)) \<noteq> []" "\<not> list_ex is_control (ir_reference (sp_image sp))"
    using e(1) by (auto simp: image_errors_def Let_def list_ex_iff split: if_splits)
  show ?thesis
    using i e(2) m not_bad_mountD not_bad_volume_mountD init_errors_Nil_cwd [OF e(3)]
      init_errors_Nil_bounds [OF e(3)] e(5) [unfolded secret_errors_Nil_iff]
    unfolding resources_errors_Nil_iff atLeastAtMost_iff by meson
qed

definition demo_spec :: sandbox_spec where
  "demo_spec = default_spec\<lparr>sp_image := image_ref_new ''alpine'',
     sp_mounts := [\<lparr>ms_source = ''data'', ms_target = ''/mnt'', ms_readonly = True\<rparr>],
     sp_secrets := [\<lparr>ss_name = ''KEY'', ss_value = ''v''\<rparr>]\<rparr>"

lemma spec_validate_sound_witness: "resources_ok (sp_resources demo_spec)"
proof -
  have "spec_validate demo_spec = Ok ()" by code_simp
  then show ?thesis using spec_validate_sound by blast
qed

text \<open>In every sandbox that events can produce, the time of readiness and the expiry belong
  together: there is no expiry before the sandbox was ready, afterwards the expiry is the
  time of readiness plus the time to live, and a running sandbox became ready at its last
  update.\<close>

lemma reachable_timestamps:
  assumes "sandbox_reach add_secs sb"
  shows "(sb_ready_at sb = None \<longrightarrow> sb_expires_at sb = None \<and> sb_status sb \<notin> {Running, Paused})
    \<and> (\<forall>r. sb_ready_at sb = Some r \<longrightarrow> sb_expires_at sb =
         (case sp_ttl_secs (sb_spec sb) of None \<Rightarrow> None | Some ttl \<Rightarrow> add_secs r (sint ttl)))
    \<and> (sb_status sb = Running \<longrightarrow> sb_ready_at sb = Some (sb_updated_at sb))"
  using reach_timestamps_ok [OF assms] by (simp add: timestamps_ok_def)

definition plus_secs :: "time \<Rightarrow> int \<Rightarrow> time option" where
  "plus_secs t s = Some (t + 1000000000 * s)"

definition sb_started :: "sandbox_spec \<Rightarrow> sandbox" where
  "sb_started sp = (sandbox_new 1 ''sb'' sp)\<lparr>sb_status := Starting, sb_updated_at := 2\<rparr>"

lemma sb_started_reach: "sandbox_reach add_secs (sb_started sp)"
proof -
  have "sandbox_transition add_secs 2 (sandbox_new 1 ''sb'' sp) Start = Some (Ok (sb_started sp))"
    by (simp add: sandbox_transition_def transition_defs sandbox_new_def sb_started_def)
  then show ?thesis by (rule sandbox_reach.reach_step [OF sandbox_reach.reach_new])
qed

lemma reachable_timestamps_witness:
  "sb_expires_at (sb_started demo_spec) = None \<and> sb_status (sb_started demo_spec) \<notin> {Running, Paused}"
  using reachable_timestamps [OF sb_started_reach [of plus_secs demo_spec]]
  by (simp add: sb_started_def sandbox_new_def)

text \<open>A time to live of \<open>2^63\<close> seconds or more, which validation accepts, is read as a negative
  number: a sandbox with such a request is past its expiry the moment it runs, or the
  addition panics.\<close>

lemma huge_ttl_expires_at_once:
  assumes "\<And>t s e. add_secs t s = Some e \<Longrightarrow> e = t + 1000000000 * s"
    and "sp_ttl_secs (sb_spec sb) = Some ttl" and "2 ^ 63 \<le> unat ttl"
    and "sandbox_transition add_secs now sb AgentHello = Some (Ok sb')"
  shows "sb_status sb' = Running \<and> (\<exists>e. sb_expires_at sb' = Some e \<and> e < now)"
proof -
  have run: "sb_status sb' = Running"
    using assms(4)
    by (cases "sb_status sb") (auto simp: sandbox_transition_def transition_defs Let_def split: option.splits)
  then obtain e where e: "add_secs now (sint ttl) = Some e" "sb_expires_at sb' = Some e"
    using assms(2,4) by (auto simp: sandbox_transition_def Let_def split: sum.splits if_splits option.splits)
  have "uint ttl < 2 ^ LENGTH(64)" by (rule uint_lt2p)
  moreover have "2 ^ 63 \<le> uint ttl" using assms(3) by (metis of_nat_le_iff of_nat_numeral of_nat_power uint_nat)
  moreover from this calculation have "uint ttl div 9223372036854775808 = 1" by simp
  ultimately have "sint ttl < 0"
    by (simp add: sint_uint signed_take_bit_eq_take_bit_minus take_bit_int_eq_self bit_iff_odd_drop_bit
        drop_bit_eq_div) 
  with assms(1) [OF e(1)] e(2) run show ?thesis by auto
qed

lemma huge_ttl_expires_at_once_witness:
  "let sp = demo_spec\<lparr>sp_ttl_secs := Some (2 ^ 64 - 5)\<rparr> in
   spec_validate sp = Ok ()
   \<and> (\<exists>sb'. sandbox_transition plus_secs 7 (sb_started sp) AgentHello = Some (Ok sb')
        \<and> sb_status sb' = Running \<and> (\<exists>e. sb_expires_at sb' = Some e \<and> e < 7))"
proof -
  let ?sp = "demo_spec\<lparr>sp_ttl_secs := Some (2 ^ 64 - 5)\<rparr>"
  obtain sb' where t: "sandbox_transition plus_secs 7 (sb_started ?sp) AgentHello = Some (Ok sb')"
    by (simp add: sandbox_transition_def transition_defs sb_started_def plus_secs_def sandbox_new_def Let_def)
  have "sb_status sb' = Running \<and> (\<exists>e. sb_expires_at sb' = Some e \<and> e < 7)"
    by (rule huge_ttl_expires_at_once [OF _ _ _ t, of "2 ^ 64 - 5"])
      (simp_all add: plus_secs_def sb_started_def sandbox_new_def)
  moreover have "spec_validate ?sp = Ok ()" by code_simp
  ultimately show ?thesis using t by (auto simp: Let_def)
qed

end
