(* ===== verification/Placement.thy ===== *)
theory Placement
  imports Complex_Main Sandbox_Spec
begin

text \<open>
  \<open>crates/clouisle-scheduler/src/placement.rs\<close>: choosing a node by filtering, scoring and
  a stable sort. A 64-bit float is the rational it denotes and every float operation is
  \<open>rnd\<close> of the exact result, where the parameter \<open>rnd\<close> is rounding to the nearest float;
  no operation here can overflow or produce a NaN, since the divisors are checked. The
  lemmas hold for every \<open>rnd\<close>, and where the order of two scores is compared, for every
  monotone one.
\<close>

datatype placement_strategy = LeastLoaded | BestFit | Spread

record node_allocation =
  na_node_id :: string
  na_allocated_vcpu :: u16
  na_allocated_memory_mb :: u64
  na_sandbox_count :: nat

definition matches_selector :: "node_info \<Rightarrow> (string, string) hashmap \<Rightarrow> bool" where
  "matches_selector n sel \<longleftrightarrow> list_all (\<lambda>(k, v). hm_get (ni_labels n) k = Some v) sel"

definition find_alloc :: "node_allocation list \<Rightarrow> node_info \<Rightarrow> node_allocation option" where
  "find_alloc allocs n = find (\<lambda>a. na_node_id a = ni_node_id n) allocs"

definition node_passes :: "node_allocation list \<Rightarrow> sandbox_spec \<Rightarrow> node_info \<Rightarrow> bool" where
  "node_passes allocs sp n =
     (if \<not> ni_kvm_available n then False
      else if \<not> matches_selector n (sp_node_selector sp) then False
      else case find_alloc allocs n of
        None \<Rightarrow> True
      | Some a \<Rightarrow>
          (let avail_vcpu = saturating_sub (ni_total_vcpu n) (na_allocated_vcpu a);
               avail_mem = saturating_sub (ni_total_memory_mb n) (na_allocated_memory_mb a)
           in if avail_vcpu < vcpu (sp_resources sp) then False
              else if avail_mem < ucast (memory_mb (sp_resources sp)) then False
              else True))"

definition filter_nodes ::
  "node_info list \<Rightarrow> node_allocation list \<Rightarrow> sandbox_spec \<Rightarrow> node_info list" where
  "filter_nodes nodes allocs sp = filter (node_passes allocs sp) nodes"

definition load_fraction :: "(rat \<Rightarrow> rat) \<Rightarrow> node_info \<Rightarrow> node_allocation option \<Rightarrow> rat" where
  "load_fraction rnd n alloc =
     (case alloc of None \<Rightarrow> 0 | Some a \<Rightarrow>
        if ni_total_vcpu n = 0 \<or> ni_total_memory_mb n = 0 then 1
        else
          (let cpu_load = rnd (rnd (of_nat (unat (na_allocated_vcpu a))) /
                               rnd (of_nat (unat (ni_total_vcpu n))));
               mem_load = rnd (rnd (of_nat (unat (na_allocated_memory_mb a))) /
                               rnd (of_nat (unat (ni_total_memory_mb n))))
           in rnd (rnd (cpu_load + mem_load) / 2)))"

definition node_score ::
  "(rat \<Rightarrow> rat) \<Rightarrow> node_allocation list \<Rightarrow> placement_strategy \<Rightarrow> node_info \<Rightarrow> rat" where
  "node_score rnd allocs strategy n =
     (let alloc = find_alloc allocs n; load = load_fraction rnd n alloc in
      case strategy of
        LeastLoaded \<Rightarrow> load
      | BestFit \<Rightarrow> rnd (rnd (1 - load) + rnd (load * (1/2)))
      | Spread \<Rightarrow>
          (let count_penalty = (case alloc of None \<Rightarrow> 0
                 | Some a \<Rightarrow> rnd (rnd (of_nat (na_sandbox_count a)) * rnd (1/10)))
           in rnd (load + count_penalty)))"

definition score_nodes ::
  "(rat \<Rightarrow> rat) \<Rightarrow> node_info list \<Rightarrow> node_allocation list \<Rightarrow> placement_strategy
   \<Rightarrow> (node_info \<times> rat) list" where
  "score_nodes rnd nodes allocs strategy =
     map (\<lambda>n. (n, node_score rnd allocs strategy n)) nodes"

definition place ::
  "(rat \<Rightarrow> rat) \<Rightarrow> node_info list \<Rightarrow> node_allocation list \<Rightarrow> sandbox_spec \<Rightarrow> placement_strategy
   \<Rightarrow> node_info option" where
  "place rnd nodes allocs sp strategy =
     (case sort_key snd (score_nodes rnd (filter_nodes nodes allocs sp) allocs strategy) of
        [] \<Rightarrow> None | (n, _) # _ \<Rightarrow> Some n)"

section \<open>What the filter admits\<close>

text \<open>The resources a node has left according to the reported allocation.\<close>

definition fits :: "node_allocation list \<Rightarrow> sandbox_spec \<Rightarrow> node_info \<Rightarrow> bool" where
  "fits allocs sp n \<longleftrightarrow>
     (\<forall>a. find_alloc allocs n = Some a \<longrightarrow>
        unat (na_allocated_vcpu a) + unat (vcpu (sp_resources sp)) \<le> unat (ni_total_vcpu n) \<and>
        unat (na_allocated_memory_mb a) + unat (memory_mb (sp_resources sp))
          \<le> unat (ni_total_memory_mb n))"

lemma unat_memory_ucast: "unat (ucast (m :: u32) :: u64) = unat m"
  by (simp add: unat_ucast_up)

lemma node_passes_iff:
  assumes "resources_ok (sp_resources sp)"
  shows "node_passes allocs sp n \<longleftrightarrow>
    ni_kvm_available n \<and> matches_selector n (sp_node_selector sp) \<and> fits allocs sp n"
proof (cases "find_alloc allocs n")
  case None
  then show ?thesis by (auto simp: node_passes_def fits_def)
next
  case (Some a)
  have v: "\<not> saturating_sub (ni_total_vcpu n) (na_allocated_vcpu a) < vcpu (sp_resources sp) \<longleftrightarrow>
      unat (na_allocated_vcpu a) + unat (vcpu (sp_resources sp)) \<le> unat (ni_total_vcpu n)"
    using assms by (auto simp: word_less_nat_alt unat_saturating_sub resources_ok_def)
  have m: "\<not> saturating_sub (ni_total_memory_mb n) (na_allocated_memory_mb a)
        < ucast (memory_mb (sp_resources sp)) \<longleftrightarrow>
      unat (na_allocated_memory_mb a) + unat (memory_mb (sp_resources sp))
        \<le> unat (ni_total_memory_mb n)"
    using assms
    by (auto simp: word_less_nat_alt unat_saturating_sub unat_memory_ucast resources_ok_def)
  show ?thesis
    unfolding node_passes_def fits_def Some option.case Let_def using v m by auto
qed

lemma node_passes_no_alloc:
  "find_alloc allocs n = None \<Longrightarrow> ni_kvm_available n \<Longrightarrow>
   matches_selector n (sp_node_selector sp) \<Longrightarrow> node_passes allocs sp n"
  by (simp add: node_passes_def)

lemma matches_selector_iff:
  "matches_selector n sel \<longleftrightarrow> (\<forall>(k, v)\<in>set sel. hm_get (ni_labels n) k = Some v)"
  by (simp add: matches_selector_def list_all_iff)

section \<open>What the sort selects\<close>

lemma sort_key_head:
  assumes "sort_key f xs = y # ys"
  shows "y \<in> set xs" and "x \<in> set xs \<Longrightarrow> f y \<le> f x"
proof -
  have set: "set (sort_key f xs) = set xs" by simp
  have sorted: "sorted (map f (y # ys))"
    using sorted_sort_key [of f xs] assms by simp
  show "y \<in> set xs" using set assms by auto
  show "f y \<le> f x" if "x \<in> set xs"
    using that set assms sorted by auto
qed

text \<open>Among equal scores the stable sort keeps the order of the node list, so the first
  minimum wins.\<close>

lemma find_first_filter: "filter P xs = y # ys \<Longrightarrow> find P xs = Some y"
  by (induction xs) (auto split: if_splits)

lemma sort_key_head_first:
  assumes "sort_key f xs = y # ys"
  shows "find (\<lambda>x. f x = f y) xs = Some y"
proof -
  have "filter (\<lambda>x. f x = f y) (sort_key f xs) = filter (\<lambda>x. f x = f y) xs"
    by (rule sort_key_stable)
  then have "filter (\<lambda>x. f x = f y) xs = y # filter (\<lambda>x. f x = f y) ys"
    by (simp add: assms)
  then show ?thesis by (rule find_first_filter)
qed

lemma find_map_fst:
  "find (\<lambda>x. snd x = c) (map (\<lambda>n. (n, f n)) xs) = Some (n, c) \<Longrightarrow>
   find (\<lambda>m. f m = c) xs = Some n"
  by (induction xs) (auto split: if_splits)

lemma place_SomeD:
  assumes "place rnd nodes allocs sp strategy = Some n"
  shows "n \<in> set nodes" and "node_passes allocs sp n"
    and "m \<in> set nodes \<Longrightarrow> node_passes allocs sp m \<Longrightarrow>
           node_score rnd allocs strategy n \<le> node_score rnd allocs strategy m"
    and "find (\<lambda>m. node_score rnd allocs strategy m = node_score rnd allocs strategy n)
           (filter_nodes nodes allocs sp) = Some n"
proof -
  let ?scored = "score_nodes rnd (filter_nodes nodes allocs sp) allocs strategy"
  obtain c ys where sorted: "sort_key snd ?scored = (n, c) # ys"
    using assms by (auto simp: place_def split: list.splits)
  note head = sort_key_head [OF sorted]
  have c: "c = node_score rnd allocs strategy n"
    and mem: "n \<in> set (filter_nodes nodes allocs sp)"
    using head(1) by (auto simp: score_nodes_def)
  from mem show "n \<in> set nodes" "node_passes allocs sp n"
    by (auto simp: filter_nodes_def)
  show "node_score rnd allocs strategy n \<le> node_score rnd allocs strategy m"
    if "m \<in> set nodes" "node_passes allocs sp m"
    using head(2) [of "(m, node_score rnd allocs strategy m)"] that c
    by (auto simp: score_nodes_def filter_nodes_def)
  show "find (\<lambda>m. node_score rnd allocs strategy m = node_score rnd allocs strategy n)
      (filter_nodes nodes allocs sp) = Some n"
    using sort_key_head_first [OF sorted] unfolding c score_nodes_def snd_conv
    by (rule find_map_fst)
qed

lemma place_None_iff:
  "place rnd nodes allocs sp strategy = None \<longleftrightarrow> (\<forall>n\<in>set nodes. \<not> node_passes allocs sp n)"
proof -
  have "place rnd nodes allocs sp strategy = None \<longleftrightarrow>
      sort_key snd (score_nodes rnd (filter_nodes nodes allocs sp) allocs strategy) = []"
    by (auto simp: place_def split: list.splits)
  also have "\<dots> \<longleftrightarrow> filter_nodes nodes allocs sp = []"
    by (metis length_0_conv length_map length_sort score_nodes_def)
  finally show ?thesis by (simp add: filter_nodes_def filter_empty_conv)
qed

section \<open>Load ordering\<close>

lemma load_fraction_mono:
  assumes rnd: "mono rnd" "rnd 0 = 0"
    and tot: "ni_total_vcpu n \<noteq> 0" "ni_total_memory_mb n \<noteq> 0"
    and le: "na_allocated_vcpu a \<le> na_allocated_vcpu b"
      "na_allocated_memory_mb a \<le> na_allocated_memory_mb b"
  shows "load_fraction rnd n (Some a) \<le> load_fraction rnd n (Some b)"
proof -
  have pos: "0 \<le> rnd x" if "0 \<le> x" for x
    using monoD [OF rnd(1) that] rnd(2) by simp
  have frac: "rnd (rnd (of_nat i) / rnd (of_nat t)) \<le> rnd (rnd (of_nat j) / rnd (of_nat t))"
    if "i \<le> j" for i j t :: nat
    using that pos by (intro monoD [OF rnd(1)] divide_right_mono) auto
  have "x + y \<le> x' + y' \<Longrightarrow> rnd (rnd (x + y) / 2) \<le> rnd (rnd (x' + y') / 2)" for x y x' y'
    by (intro monoD [OF rnd(1)] divide_right_mono) auto
  moreover note frac [of "unat (na_allocated_vcpu a)" "unat (na_allocated_vcpu b)"
      "unat (ni_total_vcpu n)"] frac [of "unat (na_allocated_memory_mb a)"
      "unat (na_allocated_memory_mb b)" "unat (ni_total_memory_mb n)"]
  ultimately show ?thesis
    using tot le unfolding load_fraction_def Let_def word_le_nat_alt option.case
    by (simp del: of_nat_unat add: add_mono)
qed

section \<open>Properties\<close>


definition demo_node :: "string \<Rightarrow> node_info" where
  "demo_node i = \<lparr>ni_node_id = i, ni_hostname = i, ni_total_vcpu = 8, ni_total_memory_mb = 16384,
     ni_total_disk_mb = 100000, ni_kvm_available = True,
     ni_kernel_version = ''6.1'', ni_firecracker_version = ''1.7'', ni_labels = []\<rparr>"


text \<open>A node without an allocation entry is never checked for room: it is eligible for any
  request, larger than the whole node or not, and has the lowest possible score under
  \<open>LeastLoaded\<close> and \<open>Spread\<close>, so it is placed on whenever it comes first.\<close>

lemma unreported_node_unchecked:
  assumes "mono rnd" and "rnd 0 = 0" and "ni_kvm_available n"
    and "matches_selector n (sp_node_selector sp)" and "find_alloc allocs n = None"
    and "strategy \<noteq> BestFit"
  shows "place rnd (n # nodes) allocs sp strategy = Some n"
proof -
  have pass: "node_passes allocs sp n" by (rule node_passes_no_alloc [OF assms(5,3,4)])
  have pos: "0 \<le> rnd x" if "0 \<le> x" for x
    using monoD [OF assms(1) that] assms(2) by simp
  have frac: "0 \<le> rnd (rnd (of_nat i) / rnd (of_nat j))" for i j :: nat
    by (intro pos divide_nonneg_nonneg) simp_all
  have load: "0 \<le> load_fraction rnd m a" for m a
    unfolding load_fraction_def Let_def
    using pos [of 1] frac
    by (auto simp del: of_nat_unat split: option.split intro!: pos divide_nonneg_nonneg add_nonneg_nonneg)
  have penalty: "0 \<le> rnd (rnd (of_nat k) * rnd (1/10))" for k :: nat
    by (intro pos mult_nonneg_nonneg) simp_all
  have score: "0 \<le> node_score rnd allocs strategy m" for m
    using load penalty assms(6) unfolding node_score_def Let_def
    by (cases strategy) (auto split: option.split intro!: pos add_nonneg_nonneg mult_nonneg_nonneg)
  have zero: "node_score rnd allocs strategy n = 0"
    using assms(2,5,6) by (cases strategy) (simp_all add: node_score_def load_fraction_def)
  obtain m where m: "place rnd (n # nodes) allocs sp strategy = Some m"
    using place_None_iff [of rnd "n # nodes" allocs sp strategy] pass by (cases "place rnd (n # nodes) allocs sp strategy") auto
  have "node_score rnd allocs strategy m = 0"
    using place_SomeD(3) [OF m, of n] pass zero score [of m] by simp
  then have "find (\<lambda>k. node_score rnd allocs strategy k = 0) (filter_nodes (n # nodes) allocs sp) = Some m"
    using place_SomeD(4) [OF m] by simp
  then show ?thesis using m pass zero by (simp add: filter_nodes_def)
qed

lemma unreported_node_unchecked_witness:
  "place id ((demo_node ''a'')\<lparr>ni_total_vcpu := 0\<rparr> # [demo_node ''b'']) [] default_spec LeastLoaded
     = Some ((demo_node ''a'')\<lparr>ni_total_vcpu := 0\<rparr>)"
  by (rule unreported_node_unchecked)
    (simp_all add: mono_def demo_node_def matches_selector_def default_spec_def find_alloc_def)

end
