(* ===== verification/Frame_Codec.thy ===== *)
theory Frame_Codec
  imports Prelude
begin

text \<open>
  \<open>crates/clouisle-proto/src/lib.rs\<close> and \<open>codec.rs\<close>: the frames exchanged between the host and
  the agent in the guest, and their length-prefixed encoding. The serialisation of one
  frame is the \<open>postcard\<close> crate, a parameter \<open>ops\<close>; \<open>postcard_roundtrip\<close> is the one law
  used of it. The lemmas show that the encoding can be cut anywhere: a decoder fed the bytes
  of a sequence of frames in any chunks returns exactly those frames.
\<close>

section \<open>Frames\<close>

record dir_entry =
  de_name :: string
  de_size :: u64
  de_mode :: u32
  de_mtime :: u64
  de_is_dir :: bool

record pty_config =
  pc_cols :: u16
  pc_rows :: u16

datatype process_signal = Sigterm | Sigkill | Sigint

text \<open>The signed fields \<open>code\<close>, \<open>unix_nanos\<close> and \<open>mtime\<close> are words read with \<open>sint\<close>.\<close>

datatype frame =
    Hello string
  | ExecReq string "string list" "(string, string) hashmap" "string option" u64
  | ProcessStart string "string list" "(string, string) hashmap" "string option" u64 bool "pty_config option"
  | ProcessStarted string u32
  | Stdin string "byte list"
  | StdinEof string
  | Signal string process_signal
  | Resize string u16 u16
  | ControlOk
  | Stdout string "byte list"
  | Stderr string "byte list"
  | Exited string u32
  | Ping
  | Pong
  | SyncTime u64
  | WriteFile string u32 "byte list"
  | WriteFileResult string
  | ReadFile string u64 u64
  | ReadFileResult string "byte list"
  | ListDir string
  | ListDirResult "dir_entry list"
  | ErrorFrame string u32
  | SetSecret string "byte list"
  | ApplyLimits "u32 option" "u32 option"

fun signal_as_i32 :: "process_signal \<Rightarrow> u32" where
  "signal_as_i32 Sigterm = 15"
| "signal_as_i32 Sigkill = 9"
| "signal_as_i32 Sigint = 2"

definition signal_try_from :: "u8 \<Rightarrow> (process_signal, unit) result" where
  "signal_try_from v =
     (if v = 15 then Ok Sigterm else if v = 9 then Ok Sigkill else if v = 2 then Ok Sigint else Err ())"

definition hello_frame :: "string \<Rightarrow> frame" where
  "hello_frame version = Hello version"

section \<open>Encoding and decoding one frame\<close>

datatype codec_error = FrameTruncated nat nat | Decode string | CodecIo string

record postcard_ops =
  to_allocvec :: "frame \<Rightarrow> (byte list, string) result"
  from_bytes :: "byte list \<Rightarrow> (frame, string) result"

definition postcard_roundtrip :: "postcard_ops \<Rightarrow> bool" where
  "postcard_roundtrip ops \<longleftrightarrow> (\<forall>f b. to_allocvec ops f = Ok b \<longrightarrow> from_bytes ops b = Ok f)"

definition FRAME_HEADER_LEN :: nat where
  "FRAME_HEADER_LEN = 4"

definition encode_frame :: "postcard_ops \<Rightarrow> frame \<Rightarrow> (byte list, codec_error) result" where
  "encode_frame ops f =
     (case to_allocvec ops f of
        Err e \<Rightarrow> Err (Decode e)
      | Ok payload \<Rightarrow> Ok (to_be_bytes (of_nat (length payload)) @ payload))"

definition decode_frame_once :: "postcard_ops \<Rightarrow> byte list \<Rightarrow> ((frame \<times> nat) option, codec_error) result" where
  "decode_frame_once ops buf =
     (if length buf < FRAME_HEADER_LEN then Ok None
      else
        (let len = unat (from_be_bytes (take 4 buf)); total = FRAME_HEADER_LEN + len in
         if length buf < total then Ok None
         else case from_bytes ops (drop FRAME_HEADER_LEN (take total buf)) of
           Err e \<Rightarrow> Err (Decode e)
         | Ok f \<Rightarrow> Ok (Some (f, total))))"

section \<open>The streaming decoder\<close>

lemma decode_frame_once_bounds:
  "decode_frame_once ops buf = Ok (Some (f, n)) \<Longrightarrow> 4 \<le> n \<and> n \<le> length buf"
  by (auto simp: decode_frame_once_def FRAME_HEADER_LEN_def Let_def split: if_splits sum.splits)

text \<open>The loop of \<open>push\<close> on the buffer. The frames found before an error are dropped with the
  vector that holds them; the buffer keeps what was not yet drained.\<close>

function drain_frames :: "postcard_ops \<Rightarrow> byte list \<Rightarrow> byte list \<times> (frame list, codec_error) result" where
  "drain_frames ops buf =
     (case decode_frame_once ops buf of
        Err e \<Rightarrow> (buf, Err e)
      | Ok None \<Rightarrow> (buf, Ok [])
      | Ok (Some (f, consumed)) \<Rightarrow>
          (case drain_frames ops (drop consumed buf) of
             (buf', Ok fs) \<Rightarrow> (buf', Ok (f # fs))
           | (buf', Err e) \<Rightarrow> (buf', Err e)))"
  by pat_completeness auto
termination
  by (relation "measure (\<lambda>(ops, buf). length buf)") (auto dest: decode_frame_once_bounds)

declare drain_frames.simps [simp del]

definition decoder_new :: "byte list" where
  "decoder_new = []"

definition push :: "postcard_ops \<Rightarrow> byte list \<Rightarrow> byte list \<Rightarrow> byte list \<times> (frame list, codec_error) result" where
  "push ops data buf = drain_frames ops (buf @ data)"

definition finish :: "byte list \<Rightarrow> (unit, codec_error) result" where
  "finish buf = (if buf \<noteq> [] then Err (FrameTruncated FRAME_HEADER_LEN (length buf)) else Ok ())"

section \<open>Asynchronous reading and writing\<close>

text \<open>A reader is the bytes it will still deliver, a writer the bytes written so far; \<open>fault\<close> is an
  I/O error after so many bytes, if one happens.\<close>

definition read_exact :: "nat \<Rightarrow> byte list \<Rightarrow> byte list \<times> (byte list, codec_error) result" where
  "read_exact n r = (if n \<le> length r then (drop n r, Ok (take n r)) else ([], Err (CodecIo ''early eof'')))"

definition read_frame :: "postcard_ops \<Rightarrow> byte list \<Rightarrow> byte list \<times> (frame, codec_error) result" where
  "read_frame ops r =
     (case read_exact FRAME_HEADER_LEN r of
        (r1, Err e) \<Rightarrow> (r1, Err e)
      | (r1, Ok header) \<Rightarrow>
          (let len = unat (from_be_bytes header) in
           case read_exact len r1 of
             (r2, Err e) \<Rightarrow> (r2, Err e)
           | (r2, Ok payload) \<Rightarrow>
               (let buf = header @ payload in
                case decode_frame_once ops buf of
                  Err e \<Rightarrow> (r2, Err e)
                | Ok (Some (f, _)) \<Rightarrow> (r2, Ok f)
                | Ok None \<Rightarrow> (r2, Err (FrameTruncated (length buf) (FRAME_HEADER_LEN + len))))))"

definition write_frame ::
  "postcard_ops \<Rightarrow> (nat \<times> string) option \<Rightarrow> frame \<Rightarrow> byte list \<Rightarrow> byte list \<times> (unit, codec_error) result" where
  "write_frame ops fault f w =
     (case encode_frame ops f of
        Err e \<Rightarrow> (w, Err e)
      | Ok b \<Rightarrow>
          (case fault of
             Some (k, e) \<Rightarrow> (w @ take k b, Err (CodecIo e))
           | None \<Rightarrow> (w @ b, Ok ())))"

section \<open>One frame\<close>

text \<open>A frame fits when its length survives the cast to 32 bits.\<close>

definition frame_fits :: "postcard_ops \<Rightarrow> frame \<Rightarrow> byte list \<Rightarrow> bool" where
  "frame_fits ops f b \<longleftrightarrow> encode_frame ops f = Ok b \<and> length b < 2 ^ 32 + 4"

lemma length_to_be_bytes [simp]: "length (to_be_bytes w) = 4"
  by (simp add: to_be_bytes_def)

lemma decode_encode:
  assumes "postcard_roundtrip ops" and "frame_fits ops f b"
  shows "decode_frame_once ops (b @ rest) = Ok (Some (f, length b))"
proof -
  obtain p where p: "to_allocvec ops f = Ok p" and b: "b = to_be_bytes (of_nat (length p)) @ p"
    using assms(2) by (auto simp: frame_fits_def encode_frame_def split: sum.splits)
  have "length p < 2 ^ 32" using assms(2) b by (simp add: frame_fits_def)
  then have len: "unat (of_nat (length p) :: u32) = length p" by (simp add: unat_of_nat)
  have "from_bytes ops p = Ok f" using assms(1) p unfolding postcard_roundtrip_def by blast
  then show ?thesis by (simp add: decode_frame_once_def FRAME_HEADER_LEN_def Let_def b len)
qed

lemma frame_fits_nonempty: "frame_fits ops f b \<Longrightarrow> 4 \<le> length b"
  by (auto simp: frame_fits_def encode_frame_def split: sum.splits)

text \<open>More bytes never change what was found in the bytes before.\<close>

lemma decode_frame_once_append:
  "decode_frame_once ops buf = Ok (Some r) \<Longrightarrow> decode_frame_once ops (buf @ data) = Ok (Some r)"
  "decode_frame_once ops buf = Err e \<Longrightarrow> decode_frame_once ops (buf @ data) = Err e"
  by (auto simp: decode_frame_once_def FRAME_HEADER_LEN_def Let_def split: if_splits sum.splits)

lemma decode_frame_once_prefix:
  assumes "postcard_roundtrip ops" and "frame_fits ops f (p @ q)" and "q \<noteq> []"
  shows "decode_frame_once ops p = Ok None"
proof (cases "decode_frame_once ops p")
  case (Inl e)
  then show ?thesis
    using decode_frame_once_append(2) [of ops p e q] decode_encode [OF assms(1,2), of "[]"] by simp
next
  case (Inr r)
  show ?thesis
  proof (cases r)
    case (Some x)
    obtain g n where x: "x = (g, n)" by (cases x)
    have "n \<le> length p" using Inr Some x decode_frame_once_bounds by blast
    moreover have "n = length p + length q"
      using decode_frame_once_append(1) [of ops p x q] decode_encode [OF assms(1,2), of "[]"] Inr Some x
      by simp
    ultimately show ?thesis using assms(3) by simp
  qed (use Inr in simp)
qed

section \<open>Chunks\<close>

lemma drain_Some:
  "decode_frame_once ops buf = Ok (Some (f, n)) \<Longrightarrow>
   drain_frames ops buf =
     (case drain_frames ops (drop n buf) of
        (buf', Ok fs) \<Rightarrow> (buf', Ok (f # fs)) | (buf', Err e) \<Rightarrow> (buf', Err e))"
  by (subst drain_frames.simps) (simp split: prod.split sum.split)

lemma drain_append:
  "drain_frames ops buf = (buf', Ok fs) \<Longrightarrow>
   drain_frames ops (buf @ data) =
     (case drain_frames ops (buf' @ data) of
        (b, Ok gs) \<Rightarrow> (b, Ok (fs @ gs)) | (b, Err e) \<Rightarrow> (b, Err e))"
proof (induction ops buf arbitrary: buf' fs rule: drain_frames.induct)
  case (1 ops buf)
  show ?case
  proof (cases "decode_frame_once ops buf")
    case (Inl e)
    then show ?thesis using "1.prems" by (subst (asm) drain_frames.simps) simp
  next
    case (Inr r)
    show ?thesis
    proof (cases r)
      case None
      then have "buf' = buf" "fs = []"
        using "1.prems" Inr by (subst (asm) drain_frames.simps, simp)+
      then show ?thesis by (simp split: prod.split sum.split)
    next
      case (Some x)
      obtain f n where x: "x = (f, n)" by (cases x)
      have once: "decode_frame_once ops buf = Ok (Some (f, n))" using Inr Some x by simp
      have n: "n \<le> length buf" using decode_frame_once_bounds [OF once] by simp
      obtain fs' where rest: "drain_frames ops (drop n buf) = (buf', Ok fs')" and fs: "fs = f # fs'"
        using "1.prems" drain_Some [OF once] by (auto split: prod.splits sum.splits)
      have IH: "drain_frames ops (drop n buf @ data) =
          (case drain_frames ops (buf' @ data) of
             (b, Ok gs) \<Rightarrow> (b, Ok (fs' @ gs)) | (b, Err e) \<Rightarrow> (b, Err e))"
        by (rule "1.IH" [OF Inr Some x [symmetric] rest]) 
      show ?thesis
        using drain_Some [OF decode_frame_once_append(1) [OF once]] n fs
        by (simp add: IH split: prod.split sum.split)
    qed
  qed
qed

lemma drain_append_Err:
  "drain_frames ops buf = (buf', Err e) \<Longrightarrow> drain_frames ops (buf @ data) = (buf' @ data, Err e)"
proof (induction ops buf arbitrary: buf' rule: drain_frames.induct)
  case (1 ops buf)
  show ?case
  proof (cases "decode_frame_once ops buf")
    case (Inl e')
    then have "buf' = buf" "e' = e" using "1.prems" by (subst (asm) drain_frames.simps, simp)+
    then show ?thesis
      using decode_frame_once_append(2) [OF Inl] by (subst drain_frames.simps) simp
  next
    case (Inr r)
    show ?thesis
    proof (cases r)
      case None
      then show ?thesis using "1.prems" Inr by (subst (asm) drain_frames.simps) simp
    next
      case (Some x)
      obtain f n where x: "x = (f, n)" by (cases x)
      have once: "decode_frame_once ops buf = Ok (Some (f, n))" using Inr Some x by simp
      have n: "n \<le> length buf" using decode_frame_once_bounds [OF once] by simp
      have rest: "drain_frames ops (drop n buf) = (buf', Err e)"
        using "1.prems" drain_Some [OF once] by (auto split: prod.splits sum.splits)
      have "drain_frames ops (drop n buf @ data) = (buf' @ data, Err e)"
        by (rule "1.IH" [OF Inr Some x [symmetric] rest])
      then show ?thesis
        using drain_Some [OF decode_frame_once_append(1) [OF once]] n by simp
    qed
  qed
qed

lemma drain_rest:
  assumes "drain_frames ops buf = (buf', Ok fs)"
  shows "drain_frames ops buf' = (buf', Ok [])"
  using drain_append [OF assms, of "[]"] assms by (auto split: prod.splits sum.splits)

text \<open>A client that pushes chunk after chunk and stops at the first error.\<close>

fun feed :: "postcard_ops \<Rightarrow> byte list list \<Rightarrow> byte list \<Rightarrow> byte list \<times> (frame list, codec_error) result" where
  "feed ops [] buf = (buf, Ok [])"
| "feed ops (c # cs) buf =
     (case push ops c buf of
        (buf1, Ok fs) \<Rightarrow>
          (case feed ops cs buf1 of (buf2, Ok gs) \<Rightarrow> (buf2, Ok (fs @ gs)) | (buf2, Err e) \<Rightarrow> (buf2, Err e))
      | (buf1, Err e) \<Rightarrow> (buf1, Err e))"

lemma feed_concat:
  "drain_frames ops buf = (buf, Ok []) \<Longrightarrow> drain_frames ops (buf @ concat cs) = (b, Ok fs) \<Longrightarrow>
   feed ops cs buf = (b, Ok fs)"
proof (induction cs arbitrary: buf fs)
  case (Cons c cs)
  show ?case
  proof (cases "drain_frames ops (buf @ c)")
    case (Pair buf1 r)
    show ?thesis
    proof (cases r)
      case (Inl e)
      then have "drain_frames ops ((buf @ c) @ concat cs) = (buf1 @ concat cs, Err e)"
        using drain_append_Err Pair by blast
      then show ?thesis using Cons.prems(2) by simp
    next
      case (Inr fs1)
      then have 1: "drain_frames ops (buf @ c) = (buf1, Ok fs1)" using Pair by simp
      obtain gs where 2: "drain_frames ops (buf1 @ concat cs) = (b, Ok gs)" and fs: "fs = fs1 @ gs"
        using drain_append [OF 1, of "concat cs"] Cons.prems(2) by (auto split: prod.splits sum.splits)
      have "feed ops cs buf1 = (b, Ok gs)" by (rule Cons.IH [OF drain_rest [OF 1] 2])
      then show ?thesis using 1 fs by (simp add: push_def)
    qed
  qed
qed simp

lemma drain_incomplete: "decode_frame_once ops p = Ok None \<Longrightarrow> drain_frames ops p = (p, Ok [])"
  by (subst drain_frames.simps) simp

lemma drain_encoded:
  assumes "postcard_roundtrip ops" and "list_all2 (frame_fits ops) fs bs"
  shows "drain_frames ops (concat bs @ p) =
    (case drain_frames ops p of (b, Ok gs) \<Rightarrow> (b, Ok (fs @ gs)) | (b, Err e) \<Rightarrow> (b, Err e))"
  using assms(2)
proof (induction rule: list_all2_induct)
  case Nil
  then show ?case by (simp split: prod.split sum.split)
next
  case (Cons f fs b bs)
  have "drain_frames ops (b @ (concat bs @ p)) =
      (case drain_frames ops (concat bs @ p) of
        (buf', Ok fs) \<Rightarrow> (buf', Ok (f # fs)) | (buf', Err e) \<Rightarrow> (buf', Err e))"
    using drain_Some [OF decode_encode [OF assms(1) Cons.hyps(1), of "concat bs @ p"]] by simp
  then show ?case by (simp add: Cons.IH split: prod.split sum.split)
qed

text \<open>A beginning of a frame: nothing, or a proper prefix of an encoding.\<close>

definition partial_frame :: "postcard_ops \<Rightarrow> byte list \<Rightarrow> bool" where
  "partial_frame ops p \<longleftrightarrow> p = [] \<or> (\<exists>g q. q \<noteq> [] \<and> frame_fits ops g (p @ q))"

lemma partial_frame_decode:
  "postcard_roundtrip ops \<Longrightarrow> partial_frame ops p \<Longrightarrow> decode_frame_once ops p = Ok None"
  using decode_frame_once_prefix
  by (auto simp: partial_frame_def) (simp add: decode_frame_once_def FRAME_HEADER_LEN_def)

section \<open>Properties\<close>

text \<open>C6: streaming round trip. However the encodings of a sequence of frames, possibly followed by
  the beginning of one more, are cut into chunks, the decoder returns exactly those frames in
  order and keeps the beginning; \<open>finish\<close> then reports a truncated frame exactly when
  something was left over.\<close>

theorem stream_roundtrip:
  assumes "postcard_roundtrip ops" and "list_all2 (frame_fits ops) fs bs"
    and "partial_frame ops p" and "concat chunks = concat bs @ p"
  shows "feed ops chunks decoder_new = (p, Ok fs)
    \<and> finish p = (if p = [] then Ok () else Err (FrameTruncated 4 (length p)))"
proof -
  have "drain_frames ops p = (p, Ok [])"
    by (rule drain_incomplete [OF partial_frame_decode [OF assms(1,3)]])
  then have "drain_frames ops (concat chunks) = (p, Ok fs)"
    using drain_encoded [OF assms(1,2), of p] assms(4) by simp
  moreover have "drain_frames ops [] = ([], Ok [])"
    by (rule drain_incomplete) (simp add: decode_frame_once_def FRAME_HEADER_LEN_def)
  ultimately show ?thesis
    using feed_concat [of ops "[]" chunks] by (simp add: decoder_new_def finish_def FRAME_HEADER_LEN_def)
qed

text \<open>Two frames in \<open>postcard\<close>'s own form: the number of the variant and nothing more.\<close>

definition demo_postcard :: postcard_ops where
  "demo_postcard = \<lparr>
     to_allocvec = (\<lambda>f. if f = Ping then Ok [12] else if f = Pong then Ok [13] else Err ''unsupported''),
     from_bytes = (\<lambda>b. if b = [12] then Ok Ping else if b = [13] then Ok Pong else Err ''unsupported'')\<rparr>"

lemma demo_postcard_roundtrip: "postcard_roundtrip demo_postcard"
  by (simp add: postcard_roundtrip_def demo_postcard_def)

lemma demo_fits:
  "frame_fits demo_postcard Ping [0, 0, 0, 1, 12]" "frame_fits demo_postcard Pong [0, 0, 0, 1, 13]"
proof -
  have "encode_frame demo_postcard Ping = Ok [0, 0, 0, 1, 12]" by code_simp
  moreover have "encode_frame demo_postcard Pong = Ok [0, 0, 0, 1, 13]" by code_simp
  ultimately show "frame_fits demo_postcard Ping [0, 0, 0, 1, 12]" "frame_fits demo_postcard Pong [0, 0, 0, 1, 13]"
    by (simp_all add: frame_fits_def)
qed

theorem stream_roundtrip_witness:
  "feed demo_postcard [[0], [0, 0, 1, 12, 0, 0], [0, 1, 13, 0, 0]] decoder_new = ([0, 0], Ok [Ping, Pong])"
proof -
  have "partial_frame demo_postcard [0, 0]"
    unfolding partial_frame_def using demo_fits(1)
    by (intro disjI2 exI [of _ Ping] exI [of _ "[0, 1, 12]"]) simp
  then show ?thesis
    using stream_roundtrip [OF demo_postcard_roundtrip, of "[Ping, Pong]"
        "[[0, 0, 0, 1, 12], [0, 0, 0, 1, 13]]" "[0, 0]"
        "[[0], [0, 0, 1, 12, 0, 0], [0, 1, 13, 0, 0]]"] demo_fits by simp
qed

text \<open>A malformed frame ends the stream. The frames in front of it in the same push are
  discarded with the error, the buffer stays at the malformed frame, and every later push
  returns the same error.\<close>

lemma malformed_blocks:
  assumes "postcard_roundtrip ops" and "list_all2 (frame_fits ops) fs bs"
    and "decode_frame_once ops bad = Err e"
  shows "push ops (concat bs @ bad) decoder_new = (bad, Err e)
    \<and> push ops data bad = (bad @ data, Err e)"
proof -
  have bad: "drain_frames ops bad = (bad, Err e)" by (subst drain_frames.simps) (simp add: assms(3))
  show ?thesis
    using drain_encoded [OF assms(1,2), of bad] bad drain_append_Err [OF bad, of data]
    by (simp add: push_def decoder_new_def)
qed

lemma malformed_blocks_witness:
  "push demo_postcard ([0, 0, 0, 1, 12] @ [0, 0, 0, 1, 99]) decoder_new
     = ([0, 0, 0, 1, 99], Err (Decode ''unsupported''))"
proof -
  have "decode_frame_once demo_postcard [0, 0, 0, 1, 99] = Err (Decode ''unsupported'')"
    by (simp add: decode_frame_once_def FRAME_HEADER_LEN_def demo_postcard_def from_be_bytes_def)
  then show ?thesis
    using malformed_blocks [OF demo_postcard_roundtrip, of "[Ping]" "[[0, 0, 0, 1, 12]]"] demo_fits by simp
qed

text \<open>What \<open>write_frame\<close> writes, \<open>read_frame\<close> reads back, leaving the reader at the first byte
  after the frame; a stream that ends inside a frame gives the I/O error of an early end.\<close>

lemma read_write_frame:
  assumes "postcard_roundtrip ops" and "frame_fits ops f b"
  shows "write_frame ops None f w = (w @ b, Ok ()) \<and> read_frame ops (b @ rest) = (rest, Ok f)
    \<and> (b = p @ q \<and> q \<noteq> [] \<longrightarrow> read_frame ops p = ([], Err (CodecIo ''early eof'')))"
proof -
  obtain pl where b: "b = to_be_bytes (of_nat (length pl)) @ pl" and enc: "encode_frame ops f = Ok b"
    using assms(2) by (auto simp: frame_fits_def encode_frame_def split: sum.splits)
  have "length pl < 2 ^ 32" using assms(2) b by (simp add: frame_fits_def)
  then have len: "unat (of_nat (length pl) :: u32) = length pl" by (simp add: unat_of_nat)
  have "read_frame ops (b @ rest) = (rest, Ok f)"
    using decode_encode [OF assms, of "[]"]
    by (simp add: read_frame_def read_exact_def FRAME_HEADER_LEN_def b len Let_def)
  moreover have "read_frame ops p = ([], Err (CodecIo ''early eof''))" if pq: "b = p @ q" and q: "q \<noteq> []"
  proof (cases "4 \<le> length p")
    case True
    then have "take 4 p = to_be_bytes (of_nat (length pl))" using pq b
      by (metis append_eq_conv_conj length_to_be_bytes take_append diff_is_0_eq take0 append_Nil2)
    moreover have "length p < 4 + length pl" using pq b q
      by (metis length_append length_to_be_bytes length_greater_0_conv less_add_same_cancel1)
    moreover from this True have "\<not> length pl \<le> length p - 4" by linarith
    ultimately show ?thesis using True
      by (simp add: read_frame_def read_exact_def FRAME_HEADER_LEN_def len Let_def)
  qed (simp add: read_frame_def read_exact_def FRAME_HEADER_LEN_def)
  ultimately show ?thesis using enc by (simp add: write_frame_def)
qed

lemma read_write_frame_witness:
  "read_frame demo_postcard ([0, 0, 0, 1, 12] @ [7]) = ([7], Ok Ping)"
  using read_write_frame [OF demo_postcard_roundtrip demo_fits(1)] by blast

end
