(* ===== verification/Audit_Chain.thy ===== *)
theory Audit_Chain
  imports Prelude
begin

text \<open>
  \<open>crates/clouisle-audit/src/chain.rs\<close> and \<open>sink.rs\<close>: the hash chain over audit events, kept once
  as \<open>HashChain\<close> and once as \<open>AuditSink\<close> with a signer. SHA-256 with its hexadecimal
  encoding, the RFC 3339 form of a timestamp, the text of a JSON value and the Ed25519
  signature belong to other crates and are the fields of \<open>audit_env\<close>. The locale
  \<open>chained_log\<close> states what both types promise; its lemmas say that appending keeps a log
  valid and that two valid logs of the same length with the same head agree entry by
  entry on everything that was hashed, or exhibit a collision of the digest.
\<close>

section \<open>Events and the hash\<close>

record 'j audit_event =
  ae_seq :: u64
  ae_timestamp :: time
  ae_node_id :: string
  ae_sandbox_id :: "string option"
  ae_source :: string
  ae_event_type :: string
  ae_payload :: 'j
  ae_trust_level :: string

record 'j chain_entry =
  ce_event :: "'j audit_event"
  ce_hash :: string
  ce_prev_hash :: string

record ('j, 'k) audit_env =
  sha256_hex :: "byte list \<Rightarrow> string"
  rfc3339 :: "time \<Rightarrow> string"
  json_text :: "'j \<Rightarrow> string"
  ed25519_sign :: "'k \<Rightarrow> byte list \<Rightarrow> byte list"

text \<open>The bytes fed to the hasher, in the order of the \<open>update\<close> calls.\<close>

definition event_text :: "('j, 'k) audit_env \<Rightarrow> 'j audit_event \<Rightarrow> string" where
  "event_text env e = rfc3339 env (ae_timestamp e) @ ae_node_id e
     @ (case ae_sandbox_id e of Some sid \<Rightarrow> sid | None \<Rightarrow> [])
     @ ae_source e @ ae_event_type e @ json_text env (ae_payload e) @ ae_trust_level e"

definition hash_input :: "('j, 'k) audit_env \<Rightarrow> 'j audit_event \<Rightarrow> string \<Rightarrow> byte list" where
  "hash_input env e prev = as_bytes prev @ to_le_bytes (ae_seq e) @ as_bytes (event_text env e)"

definition compute_hash :: "('j, 'k) audit_env \<Rightarrow> 'j audit_event \<Rightarrow> string \<Rightarrow> string" where
  "compute_hash env e prev = sha256_hex env (hash_input env e prev)"

section \<open>HashChain\<close>

record 'j hash_chain =
  hc_events :: "'j chain_entry list"

definition chain_new :: "'j hash_chain" where
  "chain_new = \<lparr>hc_events = []\<rparr>"

definition last_hash :: "'j chain_entry list \<Rightarrow> string" where
  "last_hash es = (if es = [] then [] else ce_hash (last es))"

definition chain_append ::
  "('j, 'k) audit_env \<Rightarrow> 'j hash_chain \<Rightarrow> 'j audit_event \<Rightarrow> 'j hash_chain \<times> string" where
  "chain_append env c e =
     (let prev = last_hash (hc_events c); h = compute_hash env e prev
      in (c\<lparr>hc_events := hc_events c @ [\<lparr>ce_event = e, ce_hash = h, ce_prev_hash = prev\<rparr>]\<rparr>, h))"

text \<open>The loop of \<open>verify\<close>: \<open>expected\<close> is the hash of the entry before, an entry is pushed
  once for a wrong link and once for a wrong hash.\<close>

fun broken_entries :: "('j, 'k) audit_env \<Rightarrow> string \<Rightarrow> 'j chain_entry list \<Rightarrow> 'j chain_entry list" where
  "broken_entries env expected [] = []"
| "broken_entries env expected (x # xs) =
     (if ce_prev_hash x \<noteq> expected then [x] else [])
     @ (if ce_hash x \<noteq> compute_hash env (ce_event x) (ce_prev_hash x) then [x] else [])
     @ broken_entries env (ce_hash x) xs"

definition chain_verify ::
  "('j, 'k) audit_env \<Rightarrow> 'j hash_chain \<Rightarrow> (unit, 'j chain_entry list) result" where
  "chain_verify env c =
     (let broken = broken_entries env [] (hc_events c)
      in if broken = [] then Ok () else Err broken)"

section \<open>AuditSink\<close>

datatype audit_error = ADb string | ACrypto string | AChainBroken u64 | AIo string

record ('j, 'k) audit_sink =
  as_events :: "'j chain_entry list"
  as_signer :: "'k option"

definition sink_new :: "('j, 'k) audit_sink" where
  "sink_new = \<lparr>as_events = [], as_signer = None\<rparr>"

definition sink_with_signer :: "'k \<Rightarrow> ('j, 'k) audit_sink" where
  "sink_with_signer k = \<lparr>as_events = [], as_signer = Some k\<rparr>"

definition sink_emit ::
  "('j, 'k) audit_env \<Rightarrow> ('j, 'k) audit_sink \<Rightarrow> 'j audit_event
   \<Rightarrow> ('j, 'k) audit_sink \<times> (string, audit_error) result" where
  "sink_emit env s e =
     (let prev = last_hash (as_events s); h = compute_hash env e prev
      in (s\<lparr>as_events := as_events s @ [\<lparr>ce_event = e, ce_hash = h, ce_prev_hash = prev\<rparr>]\<rparr>, Ok h))"

definition head_hash :: "('j, 'k) audit_sink \<Rightarrow> string option" where
  "head_hash s = (if as_events s = [] then None else Some (ce_hash (last (as_events s))))"

definition sign_head :: "('j, 'k) audit_env \<Rightarrow> ('j, 'k) audit_sink \<Rightarrow> (byte list, audit_error) result" where
  "sign_head env s =
     (case as_signer s of
        Some k \<Rightarrow>
          (if as_events s = [] then Err (ACrypto ''no events to sign'')
           else Ok (ed25519_sign env k (as_bytes (ce_hash (last (as_events s))))))
      | None \<Rightarrow> Err (ACrypto ''no signer configured''))"

fun sink_verify_loop ::
  "('j, 'k) audit_env \<Rightarrow> string \<Rightarrow> 'j chain_entry list \<Rightarrow> (unit, audit_error) result" where
  "sink_verify_loop env expected [] = Ok ()"
| "sink_verify_loop env expected (x # xs) =
     (if ce_prev_hash x \<noteq> expected then Err (AChainBroken (ae_seq (ce_event x)))
      else if ce_hash x \<noteq> compute_hash env (ce_event x) (ce_prev_hash x)
      then Err (AChainBroken (ae_seq (ce_event x)))
      else sink_verify_loop env (ce_hash x) xs)"

definition sink_verify :: "('j, 'k) audit_env \<Rightarrow> ('j, 'k) audit_sink \<Rightarrow> (unit, audit_error) result" where
  "sink_verify env s = sink_verify_loop env [] (as_events s)"

definition sink_count :: "('j, 'k) audit_sink \<Rightarrow> nat" where
  "sink_count s = length (as_events s)"

definition sink_reset :: "('j, 'k) audit_sink \<Rightarrow> ('j, 'k) audit_sink" where
  "sink_reset s = s\<lparr>as_events := []\<rparr>"

section \<open>Linked entries\<close>

fun linked :: "('j, 'k) audit_env \<Rightarrow> string \<Rightarrow> 'j chain_entry list \<Rightarrow> bool" where
  "linked env expected [] \<longleftrightarrow> True"
| "linked env expected (x # xs) \<longleftrightarrow>
     ce_prev_hash x = expected \<and> ce_hash x = compute_hash env (ce_event x) (ce_prev_hash x)
     \<and> linked env (ce_hash x) xs"

definition head_from :: "string \<Rightarrow> 'j chain_entry list \<Rightarrow> string" where
  "head_from start es = (if es = [] then start else ce_hash (last es))"

lemma head_from_Cons [simp]: "head_from start (x # xs) = head_from (ce_hash x) xs"
  by (simp add: head_from_def)

lemma head_from_Nil [simp]: "head_from start [] = start"
  by (simp add: head_from_def)

lemma last_hash_head: "last_hash es = head_from [] es"
  by (simp add: last_hash_def head_from_def)

lemma linked_append:
  "linked env start (xs @ ys) \<longleftrightarrow> linked env start xs \<and> linked env (head_from start xs) ys"
  by (induction xs arbitrary: start) auto

lemma broken_entries_Nil_iff: "broken_entries env start es = [] \<longleftrightarrow> linked env start es"
  by (induction es arbitrary: start) auto

lemma sink_loop_Ok_iff: "sink_verify_loop env start es = Ok () \<longleftrightarrow> linked env start es"
  by (induction es arbitrary: start) auto

lemma chain_verify_iff: "chain_verify env c = Ok () \<longleftrightarrow> linked env [] (hc_events c)"
  by (simp add: chain_verify_def Let_def broken_entries_Nil_iff)

lemma sink_verify_iff: "sink_verify env s = Ok () \<longleftrightarrow> linked env [] (as_events s)"
  by (simp add: sink_verify_def sink_loop_Ok_iff)

text \<open>Two entries that hash to the same value although the hashed bytes differ.\<close>

definition collides :: "('j, 'k) audit_env \<Rightarrow> 'j chain_entry \<Rightarrow> 'j chain_entry \<Rightarrow> bool" where
  "collides env x y \<longleftrightarrow>
     hash_input env (ce_event x) (ce_prev_hash x) \<noteq> hash_input env (ce_event y) (ce_prev_hash y)
     \<and> ce_hash x = ce_hash y"

text \<open>What the hash covers of an entry: the link, the sequence number, and the texts of the
  fields run together.\<close>

definition same_content :: "('j, 'k) audit_env \<Rightarrow> 'j chain_entry \<Rightarrow> 'j chain_entry \<Rightarrow> bool" where
  "same_content env x y \<longleftrightarrow>
     ce_hash x = ce_hash y \<and> ce_prev_hash x = ce_prev_hash y
     \<and> ae_seq (ce_event x) = ae_seq (ce_event y)
     \<and> event_text env (ce_event x) = event_text env (ce_event y)"

definition fixed_digest :: "('j, 'k) audit_env \<Rightarrow> bool" where
  "fixed_digest env \<longleftrightarrow> (\<forall>b. str_len (sha256_hex env b) = 64)"

lemma hash_input_inject:
  assumes "str_len p = str_len q" and "hash_input env d p = hash_input env e q"
  shows "p = q" and "ae_seq d = ae_seq e" and "event_text env d = event_text env e"
proof -
  have 1: "as_bytes p = as_bytes q" and
    2: "to_le_bytes (ae_seq d) @ as_bytes (event_text env d) = to_le_bytes (ae_seq e) @ as_bytes (event_text env e)"
    using assms by (simp_all add: hash_input_def str_len_def)
  have "length (to_le_bytes (ae_seq d)) = length (to_le_bytes (ae_seq e))" by (simp add: to_le_bytes_def)
  with 2 have "to_le_bytes (ae_seq d) = to_le_bytes (ae_seq e)"
    "as_bytes (event_text env d) = as_bytes (event_text env e)" by simp_all
  with 1 show "p = q" "ae_seq d = ae_seq e" "event_text env d = event_text env e" by simp_all
qed

lemma linked_head_len:
  "linked env start es \<Longrightarrow> fixed_digest env \<Longrightarrow> es \<noteq> [] \<Longrightarrow> str_len (head_from start es) = 64"
  by (induction es arbitrary: start) (auto simp: fixed_digest_def compute_hash_def head_from_def)

lemma linked_same_head:
  assumes "length xs = length ys" and "linked env start xs" and "linked env start ys"
    and "fixed_digest env" and "head_from start xs = head_from start ys"
  shows "list_all2 (same_content env) xs ys \<or> (\<exists>i<length xs. collides env (xs ! i) (ys ! i))"
  using assms
proof (induction xs ys rule: rev_induct2)
  case (4 x xs y ys)
  then have len: "length xs = length ys" by simp
  have lx: "linked env start xs" and ly: "linked env start ys"
    and px: "ce_prev_hash x = head_from start xs" and py: "ce_prev_hash y = head_from start ys"
    and h: "ce_hash x = ce_hash y"
    using 4 by (auto simp: linked_append head_from_def)
  show ?case
  proof (cases "collides env x y")
    case True
    then show ?thesis using len by (intro disjI2 exI [of _ "length xs"]) (simp add: nth_append)
  next
    case False
    have "str_len (ce_prev_hash x) = str_len (ce_prev_hash y)"
      using linked_head_len [OF lx 4(5)] linked_head_len [OF ly 4(5)] len px py by (cases "xs = []"; cases "ys = []") auto
    with False h have same: "same_content env x y"
      using hash_input_inject [of "ce_prev_hash x" "ce_prev_hash y" env "ce_event x" "ce_event y"]
      unfolding collides_def same_content_def by blast
    then have "head_from start xs = head_from start ys" using px py by (simp add: same_content_def)
    then consider "list_all2 (same_content env) xs ys" | i where "i < length xs" "collides env (xs ! i) (ys ! i)"
      using 4(1) [OF len lx ly 4(5)] by blast
    then show ?thesis
    proof cases
      case 1
      then show ?thesis using same by (simp add: list_all2_appendI)
    next
      case 2
      then show ?thesis using len by (intro disjI2 exI [of _ i]) (simp add: nth_append)
    qed
  qed
qed auto

section \<open>The contract of a chained log\<close>

locale chained_log =
  fixes env :: "('j, 'k) audit_env" and entries :: "'l \<Rightarrow> 'j chain_entry list"
    and add :: "'l \<Rightarrow> 'j audit_event \<Rightarrow> 'l" and valid :: "'l \<Rightarrow> bool"
  assumes entries_add: "entries (add l e) = entries l @
      [\<lparr>ce_event = e, ce_hash = compute_hash env e (last_hash (entries l)),
        ce_prev_hash = last_hash (entries l)\<rparr>]"
    and valid_iff: "valid l \<longleftrightarrow> linked env [] (entries l)"
begin

lemma valid_add: "valid (add l e) \<longleftrightarrow> valid l"
  by (simp add: valid_iff entries_add linked_append last_hash_head)

lemma valid_add_all: "valid (foldl add l es) \<longleftrightarrow> valid l"
  by (induction es arbitrary: l) (simp_all add: valid_add)

lemma events_add_all: "map ce_event (entries (foldl add l es)) = map ce_event (entries l) @ es"
  by (induction es arbitrary: l) (simp_all add: entries_add)

lemma entries_add_all_prefix: "take (length (entries l)) (entries (foldl add l es)) = entries l"
proof (induction es rule: rev_induct)
  case (snoc e es)
  have "length (entries l) \<le> length (entries (foldl add l es))"
    using arg_cong [OF snoc, of length] by simp
  with snoc show ?case by (simp add: entries_add)
qed simp

lemma same_head_same_content:
  assumes "valid l" and "valid l'" and "fixed_digest env"
    and "length (entries l) = length (entries l')" and "last_hash (entries l) = last_hash (entries l')"
  shows "list_all2 (same_content env) (entries l) (entries l')
    \<or> (\<exists>i<length (entries l). collides env (entries l ! i) (entries l' ! i))"
  using linked_same_head [of "entries l" "entries l'" env "[]"] assms
  by (simp add: valid_iff last_hash_head)

end

interpretation hc: chained_log env hc_events "\<lambda>c e. fst (chain_append env c e)"
  "\<lambda>c. chain_verify env c = Ok ()" for env
  by unfold_locales (simp_all add: chain_append_def Let_def chain_verify_iff)

interpretation sink: chained_log env as_events "\<lambda>s e. fst (sink_emit env s e)"
  "\<lambda>s. sink_verify env s = Ok ()" for env
  by unfold_locales (simp_all add: sink_emit_def Let_def sink_verify_iff)

section \<open>Properties\<close>

text \<open>A sink verifies after any sequence of events, holds exactly the emitted events in order,
  never rewrites an entry it had before, and a plain hash chain fed the same events has the
  same entries and verifies too.\<close>

lemma emit_all_verifies:
  "sink_verify env (foldl (\<lambda>s e. fst (sink_emit env s e)) sink_new es) = Ok ()
   \<and> map ce_event (as_events (foldl (\<lambda>s e. fst (sink_emit env s e)) sink_new es)) = es
   \<and> take (length ds) (as_events (foldl (\<lambda>s e. fst (sink_emit env s e)) sink_new (ds @ es)))
       = as_events (foldl (\<lambda>s e. fst (sink_emit env s e)) sink_new ds)
   \<and> hc_events (foldl (\<lambda>c e. fst (chain_append env c e)) chain_new es)
       = as_events (foldl (\<lambda>s e. fst (sink_emit env s e)) sink_new es)
   \<and> chain_verify env (foldl (\<lambda>c e. fst (chain_append env c e)) chain_new es) = Ok ()"
proof -
  let ?s = "foldl (\<lambda>s e. fst (sink_emit env s e)) (sink_new :: ('a, 'b) audit_sink)"
  have new: "as_events (sink_new :: ('a, 'b) audit_sink) = []" "hc_events (chain_new :: 'a hash_chain) = []"
    by (simp_all add: sink_new_def chain_new_def)
  have "hc_events c = as_events s \<Longrightarrow>
      hc_events (foldl (\<lambda>c e. fst (chain_append env c e)) c es)
      = as_events (foldl (\<lambda>s e. fst (sink_emit env s e)) s es)" for c s
    by (induction es arbitrary: c s) (simp_all add: chain_append_def sink_emit_def Let_def)
  moreover have "take (length ds) (as_events (?s (ds @ es))) = as_events (?s ds)"
  proof -
    have "length (as_events (?s ds)) = length ds"
      using arg_cong [OF sink.events_add_all [of env sink_new ds], of length] new by simp
    then show ?thesis using sink.entries_add_all_prefix [of "?s ds" env es] by simp
  qed
  ultimately show ?thesis
    using new sink.valid_add_all [of env sink_new es] hc.valid_add_all [of env chain_new es]
      sink.events_add_all [of env sink_new es]
    by (simp add: sink_verify_iff chain_verify_iff)
qed

text \<open>C21: tamper evidence. Two sinks that both verify, have equally many entries and the same head
  hash (which is what \<open>sign_head\<close> signs) agree entry by entry on the stored hashes, the links,
  the sequence numbers and the concatenated field texts, unless two corresponding entries are
  a collision of the digest.\<close>

theorem same_head_same_log:
  assumes "fixed_digest env"
    and "sink_verify env s = Ok ()" and "sink_verify env t = Ok ()"
    and "sink_count s = sink_count t" and "head_hash s = head_hash t"
  shows "list_all2 (same_content env) (as_events s) (as_events t)
    \<or> (\<exists>i < sink_count s. collides env (as_events s ! i) (as_events t ! i))"
proof -
  have "last_hash (as_events s) = last_hash (as_events t)"
    using assms(5) by (auto simp: head_hash_def last_hash_def split: if_splits)
  then show ?thesis
    using sink.same_head_same_content [OF assms(2,3,1)] assms(4) by (simp add: sink_count_def)
qed

definition demo_env :: "(unit, unit) audit_env" where
  "demo_env = \<lparr>sha256_hex = (\<lambda>b. replicate 64 (CHR ''0'')), rfc3339 = (\<lambda>t. ''T''),
     json_text = (\<lambda>j. ''null''), ed25519_sign = (\<lambda>k b. b)\<rparr>"

definition demo_event :: "unit audit_event" where
  "demo_event = \<lparr>ae_seq = 1, ae_timestamp = 0, ae_node_id = ''n'', ae_sandbox_id = Some ''sb'',
     ae_source = ''host'', ae_event_type = ''create'', ae_payload = (), ae_trust_level = ''trusted''\<rparr>"

theorem same_head_same_log_witness:
  "let s = fst (sink_emit demo_env sink_new demo_event) in
   list_all2 (same_content demo_env) (as_events s) (as_events s)
   \<or> (\<exists>i < sink_count s. collides demo_env (as_events s ! i) (as_events s ! i))"
proof -
  let ?s = "fst (sink_emit demo_env sink_new demo_event)"
  have "fixed_digest demo_env"
    by (simp add: fixed_digest_def demo_env_def str_len_def as_bytes_def utf8_def code_def
        numeral_eq_Suc)
  moreover have "sink_verify demo_env ?s = Ok ()"
    using sink.valid_add [of demo_env sink_new] by (simp add: sink_verify_iff sink_new_def)
  ultimately show ?thesis using same_head_same_log [of demo_env ?s ?s] by (simp add: Let_def)
qed

lemma broken_entries_linked [simp]: "linked env start es \<Longrightarrow> broken_entries env start es = []"
  by (simp add: broken_entries_Nil_iff)

lemma broken_entries_append:
  "broken_entries env start (xs @ ys) = broken_entries env start xs @ broken_entries env (head_from start xs) ys"
  by (induction xs arbitrary: start) simp_all

text \<open>Verification of a hash chain points at the damage. When the event of one entry of a valid
  chain is replaced by one with a different digest and the stored hashes are kept, \<open>verify\<close>
  reports that entry and nothing else; the sink reports its sequence number.\<close>

lemma verify_localises:
  assumes "chain_verify env \<lparr>hc_events = es\<rparr> = Ok ()" and "i < length es"
    and "compute_hash env e (ce_prev_hash (es ! i)) \<noteq> ce_hash (es ! i)"
  shows "chain_verify env \<lparr>hc_events = es[i := (es ! i)\<lparr>ce_event := e\<rparr>]\<rparr> = Err [(es ! i)\<lparr>ce_event := e\<rparr>]
    \<and> sink_verify env \<lparr>as_events = es[i := (es ! i)\<lparr>ce_event := e\<rparr>], as_signer = k\<rparr>
        = Err (AChainBroken (ae_seq e))"
proof -
  let ?x = "es ! i" and ?y = "(es ! i)\<lparr>ce_event := e\<rparr>"
  obtain xs zs where es: "es = xs @ ?x # zs" and len: "length xs = i"
    using id_take_nth_drop [OF assms(2)] assms(2) by (metis length_take min.absorb2 nless_le)
  have lk: "linked env [] xs" "linked env (head_from [] xs) (?x # zs)"
    using assms(1) es linked_append [of env "[]" xs "?x # zs"] by (metis chain_verify_iff hash_chain.select_convs(1))+
  have new: "es[i := ?y] = xs @ ?y # zs" using es len by (metis list_update_length)
  have "broken_entries env (ce_hash ?x) zs = []"
    unfolding broken_entries_Nil_iff using lk(2) by (metis linked.simps(2))
  then have "broken_entries env [] (es[i := ?y]) = [?y]"
    using lk assms(3) by (simp add: new broken_entries_append)
  moreover have loop: "sink_verify_loop env start (xs @ ?y # zs) = Err (AChainBroken (ae_seq e))"
    if "linked env start xs" "linked env (head_from start xs) (?x # zs)" for start
    using that assms(3) by (induction xs arbitrary: start) auto
  ultimately show ?thesis using loop [OF lk] by (simp add: chain_verify_def sink_verify_def new)
qed

definition length_env :: "(unit, unit) audit_env" where
  "length_env = demo_env\<lparr>sha256_hex := (\<lambda>b. show_nat (length b))\<rparr>"

lemma verify_localises_witness:
  "let c = fst (chain_append length_env chain_new demo_event); d = demo_event\<lparr>ae_node_id := ''node''\<rparr> in
   chain_verify length_env \<lparr>hc_events = (hc_events c)[0 := (hc_events c ! 0)\<lparr>ce_event := d\<rparr>]\<rparr>
     = Err [(hc_events c ! 0)\<lparr>ce_event := d\<rparr>]"
proof -
  let ?c = "fst (chain_append length_env chain_new demo_event)"
  let ?d = "demo_event\<lparr>ae_node_id := ''node''\<rparr>"
  have 1: "chain_verify length_env \<lparr>hc_events = hc_events ?c\<rparr> = Ok ()"
    by (simp add: chain_verify_iff chain_append_def chain_new_def Let_def last_hash_def)
  have 2: "compute_hash length_env ?d (ce_prev_hash (hc_events ?c ! 0)) \<noteq> ce_hash (hc_events ?c ! 0)"
    by code_simp
  have 3: "0 < length (hc_events ?c)" by (simp add: chain_append_def Let_def)
  show ?thesis using verify_localises [OF 1 3 2] by (simp add: Let_def)
qed

text \<open>The hash does not determine the fields. Characters can move between the node and the
  sandbox identifier without changing the hash, whatever the digest: the two events below
  differ in both, and every chain accepts either in place of the other.\<close>

lemma hash_fields_ambiguous:
  "compute_hash env (e\<lparr>ae_node_id := n @ m, ae_sandbox_id := Some s\<rparr>) prev
     = compute_hash env (e\<lparr>ae_node_id := n, ae_sandbox_id := Some (m @ s)\<rparr>) prev
   \<and> (chain_verify env \<lparr>hc_events = xs @ \<lparr>ce_event = e\<lparr>ae_node_id := n @ m, ae_sandbox_id := Some s\<rparr>,
          ce_hash = h, ce_prev_hash = p\<rparr> # ys\<rparr> = Ok ()
      \<longleftrightarrow> chain_verify env \<lparr>hc_events = xs @ \<lparr>ce_event = e\<lparr>ae_node_id := n, ae_sandbox_id := Some (m @ s)\<rparr>,
          ce_hash = h, ce_prev_hash = p\<rparr> # ys\<rparr> = Ok ())"
  by (simp add: chain_verify_iff linked_append compute_hash_def hash_input_def event_text_def)

end
