(* ===== verification/Store_Contract.thy ===== *)
theory Store_Contract
  imports Sandbox_Spec
begin

text \<open>
  \<open>crates/clouisle-store/src/store_trait.rs\<close>: the errors of a store and the contract of the \<open>Store\<close>
  trait. The abstract state of a store is a map from identifiers to what a client can see of
  a sandbox apart from the clock readings (\<open>sb_view\<close>); \<open>spec_exec\<close> says what each operation
  does to it. The locale \<open>sandbox_store\<close> states the laws an implementation promises; inside
  it every sequence of operations is shown to be answered as the abstract map answers it,
  so that any two implementations are interchangeable.
\<close>

section \<open>Errors\<close>

datatype store_error = SNotFound string | SConflict string | SSqlite string | SIo string | SInternal string

fun store_error_text :: "store_error \<Rightarrow> string" where
  "store_error_text (SNotFound m) = ''not found: '' @ m"
| "store_error_text (SConflict m) = ''conflict: '' @ m"
| "store_error_text (SSqlite m) = ''sqlite: '' @ m"
| "store_error_text (SIo m) = ''io: '' @ m"
| "store_error_text (SInternal m) = ''internal: '' @ m"

definition from_store_error :: "store_error \<Rightarrow> clouisle_error" where
  "from_store_error e =
     (case e of
        SNotFound m \<Rightarrow> not_found m
      | SConflict m \<Rightarrow> invalid_state m
      | _ \<Rightarrow> new_error EkStore (store_error_text e))"

section \<open>The abstract store\<close>

record sb_view =
  v_id :: string
  v_spec :: sandbox_spec
  v_status :: sandbox_status
  v_meta :: vmm_meta
  v_message :: "string option"
  v_node :: "string option"

definition view_of :: "sandbox \<Rightarrow> sb_view" where
  "view_of sb = \<lparr>v_id = sb_id sb, v_spec = sb_spec sb, v_status = sb_status sb, v_meta = sb_vmm_meta sb,
     v_message = sb_terminal_message sb, v_node = sb_node_id sb\<rparr>"

text \<open>The six updates of the trait.\<close>

datatype sb_update =
    UStatus sandbox_status
  | USpec sandbox_spec
  | UStatusMessage sandbox_status "string option"
  | UNode "string option"
  | UVmmMeta vmm_meta
  | UExpiry "time option"

fun apply_update :: "sb_update \<Rightarrow> sb_view \<Rightarrow> sb_view" where
  "apply_update (UStatus st) v = v\<lparr>v_status := st\<rparr>"
| "apply_update (USpec sp) v = v\<lparr>v_spec := sp\<rparr>"
| "apply_update (UStatusMessage st m) v = v\<lparr>v_status := st, v_message := m\<rparr>"
| "apply_update (UNode n) v = v\<lparr>v_node := n\<rparr>"
| "apply_update (UVmmMeta m) v = v\<lparr>v_meta := m\<rparr>"
| "apply_update (UExpiry e) v = v"

datatype store_cmd =
    CCreate sandbox
  | CGet string
  | CUpdate string sb_update
  | CDelete string
  | CList "sandbox_status option"

datatype store_obs = ODone | OFound sb_view | OListed "sb_view set" | OMissing | OConflict | OFailed

definition status_matches :: "sandbox_status option \<Rightarrow> sandbox_status \<Rightarrow> bool" where
  "status_matches flt st \<longleftrightarrow> (case flt of None \<Rightarrow> True | Some x \<Rightarrow> st = x)"

fun spec_exec :: "store_cmd \<Rightarrow> (string \<Rightarrow> sb_view option) \<Rightarrow> (string \<Rightarrow> sb_view option) \<times> store_obs" where
  "spec_exec (CCreate sb) m =
     (if m (sb_id sb) = None then (m(sb_id sb \<mapsto> view_of sb), ODone) else (m, OConflict))"
| "spec_exec (CGet i) m = (m, case m i of None \<Rightarrow> OMissing | Some v \<Rightarrow> OFound v)"
| "spec_exec (CUpdate i u) m =
     (case m i of None \<Rightarrow> (m, OMissing) | Some v \<Rightarrow> (m(i \<mapsto> apply_update u v), ODone))"
| "spec_exec (CDelete i) m = (case m i of None \<Rightarrow> (m, OMissing) | Some v \<Rightarrow> (m(i := None), ODone))"
| "spec_exec (CList flt) m = (m, OListed {v \<in> ran m. status_matches flt (v_status v)})"

fun spec_run :: "store_cmd list \<Rightarrow> (string \<Rightarrow> sb_view option) \<Rightarrow> store_obs list" where
  "spec_run [] m = []"
| "spec_run (c # cs) m = (let (m', ob) = spec_exec c m in ob # spec_run cs m')"

section \<open>Running an implementation\<close>

fun obs_of_error :: "store_error \<Rightarrow> store_obs" where
  "obs_of_error (SNotFound _) = OMissing"
| "obs_of_error (SConflict _) = OConflict"
| "obs_of_error _ = OFailed"

definition obs_of_unit :: "(unit, store_error) result \<Rightarrow> store_obs" where
  "obs_of_unit r = (case r of Ok _ \<Rightarrow> ODone | Err e \<Rightarrow> obs_of_error e)"

record 's store_ops =
  so_create :: "sandbox \<Rightarrow> 's \<Rightarrow> 's \<times> (unit, store_error) result"
  so_get :: "time \<Rightarrow> string \<Rightarrow> 's \<Rightarrow> (sandbox, store_error) result"
  so_update :: "time \<Rightarrow> string \<Rightarrow> sb_update \<Rightarrow> 's \<Rightarrow> 's \<times> (unit, store_error) result"
  so_delete :: "string \<Rightarrow> 's \<Rightarrow> 's \<times> (unit, store_error) result"
  so_list :: "time \<Rightarrow> sandbox_status option \<Rightarrow> 's \<Rightarrow> (sandbox list, store_error) result"

fun store_exec :: "'s store_ops \<Rightarrow> time \<Rightarrow> store_cmd \<Rightarrow> 's \<Rightarrow> 's \<times> store_obs" where
  "store_exec ops t (CCreate sb) s = (let (s', r) = so_create ops sb s in (s', obs_of_unit r))"
| "store_exec ops t (CGet i) s =
     (s, case so_get ops t i s of Ok sb \<Rightarrow> OFound (view_of sb) | Err e \<Rightarrow> obs_of_error e)"
| "store_exec ops t (CUpdate i u) s = (let (s', r) = so_update ops t i u s in (s', obs_of_unit r))"
| "store_exec ops t (CDelete i) s = (let (s', r) = so_delete ops i s in (s', obs_of_unit r))"
| "store_exec ops t (CList flt) s =
     (s, case so_list ops t flt s of Ok sbs \<Rightarrow> OListed (view_of ` set sbs) | Err e \<Rightarrow> obs_of_error e)"

fun store_run :: "'s store_ops \<Rightarrow> (time \<times> store_cmd) list \<Rightarrow> 's \<Rightarrow> store_obs list" where
  "store_run ops [] s = []"
| "store_run ops ((t, c) # cs) s = (let (s', ob) = store_exec ops t c s in ob # store_run ops cs s')"

section \<open>The contract\<close>

locale sandbox_store =
  fixes ops :: "'s store_ops" and inv :: "'s \<Rightarrow> bool" and lookup :: "'s \<Rightarrow> string \<Rightarrow> sb_view option"
  assumes create_new: "inv s \<Longrightarrow> lookup s (sb_id sb) = None \<Longrightarrow>
      \<exists>s'. so_create ops sb s = (s', Ok ()) \<and> inv s' \<and> lookup s' = (lookup s)(sb_id sb \<mapsto> view_of sb)"
    and create_dup: "inv s \<Longrightarrow> lookup s (sb_id sb) = Some v \<Longrightarrow>
      \<exists>m. so_create ops sb s = (s, Err (SConflict m))"
    and get_some: "inv s \<Longrightarrow> lookup s i = Some v \<Longrightarrow> \<exists>sb. so_get ops t i s = Ok sb \<and> view_of sb = v"
    and get_none: "inv s \<Longrightarrow> lookup s i = None \<Longrightarrow> \<exists>m. so_get ops t i s = Err (SNotFound m)"
    and update_some: "inv s \<Longrightarrow> lookup s i = Some v \<Longrightarrow>
      \<exists>s'. so_update ops t i u s = (s', Ok ()) \<and> inv s' \<and> lookup s' = (lookup s)(i \<mapsto> apply_update u v)"
    and update_none: "inv s \<Longrightarrow> lookup s i = None \<Longrightarrow> \<exists>m. so_update ops t i u s = (s, Err (SNotFound m))"
    and delete_some: "inv s \<Longrightarrow> lookup s i = Some v \<Longrightarrow>
      \<exists>s'. so_delete ops i s = (s', Ok ()) \<and> inv s' \<and> lookup s' = (lookup s)(i := None)"
    and delete_none: "inv s \<Longrightarrow> lookup s i = None \<Longrightarrow> \<exists>m. so_delete ops i s = (s, Err (SNotFound m))"
    and list_all: "inv s \<Longrightarrow>
      \<exists>sbs. so_list ops t flt s = Ok sbs \<and> distinct (map sb_id sbs)
        \<and> view_of ` set sbs = {v \<in> ran (lookup s). status_matches flt (v_status v)}"
begin

lemma exec_refines:
  assumes "inv s" and "store_exec ops t c s = (s', ob)"
  shows "inv s' \<and> spec_exec c (lookup s) = (lookup s', ob)"
proof (cases c)
  case (CCreate sb)
  show ?thesis
  proof (cases "lookup s (sb_id sb)")
    case None
    then show ?thesis using create_new [OF assms(1) None] assms(2) CCreate
      by (auto simp: obs_of_unit_def)
  next
    case (Some v)
    then show ?thesis using create_dup [OF assms(1) Some] assms CCreate
      by (auto simp: obs_of_unit_def)
  qed
next
  case (CGet i)
  show ?thesis
  proof (cases "lookup s i")
    case None
    then show ?thesis using get_none [OF assms(1) None, of t] assms CGet by auto
  next
    case (Some v)
    then show ?thesis using get_some [OF assms(1) Some, of t] assms CGet by auto
  qed
next
  case (CUpdate i u)
  show ?thesis
  proof (cases "lookup s i")
    case None
    then show ?thesis using update_none [OF assms(1) None, of t u] assms CUpdate
      by (auto simp: obs_of_unit_def)
  next
    case (Some v)
    then show ?thesis using update_some [OF assms(1) Some, of t u] assms(2) CUpdate
      by (auto simp: obs_of_unit_def)
  qed
next
  case (CDelete i)
  show ?thesis
  proof (cases "lookup s i")
    case None
    then show ?thesis using delete_none [OF assms(1) None] assms CDelete by (auto simp: obs_of_unit_def)
  next
    case (Some v)
    then show ?thesis using delete_some [OF assms(1) Some] assms(2) CDelete by (auto simp: obs_of_unit_def)
  qed
next
  case (CList flt)
  then show ?thesis using list_all [OF assms(1), of t flt] assms by auto
qed

lemma run_refines: "inv s \<Longrightarrow> store_run ops cs s = spec_run (map snd cs) (lookup s)"
proof (induction cs arbitrary: s)
  case (Cons tc cs)
  obtain t c where tc: "tc = (t, c)" by (cases tc)
  obtain s' ob where e: "store_exec ops t c s = (s', ob)" by (metis surj_pair)
  from exec_refines [OF Cons.prems e] Cons.IH [of s'] e show ?case by (simp add: tc)
qed simp

text \<open>An identifier that a store does not hold can be created once, is then found as created,
  and is gone after its deletion.\<close>

lemma create_get_delete:
  assumes "inv s" and "lookup s (sb_id sb) = None"
  shows "store_run ops [(t1, CCreate sb), (t2, CCreate sb), (t3, CGet (sb_id sb)), (t4, CDelete (sb_id sb)),
      (t5, CGet (sb_id sb))] s = [ODone, OConflict, OFound (view_of sb), ODone, OMissing]"
  unfolding run_refines [OF assms(1)] using assms(2) by simp

end

text \<open>A store that files every sandbox under its own identifier. A listing then names each
  sandbox once and finds it where it is filed.\<close>

locale keyed_store = sandbox_store +
  assumes lookup_id: "inv s \<Longrightarrow> lookup s i = Some v \<Longrightarrow> v_id v = i"
begin

lemma list_keyed:
  assumes "inv s" and "so_list ops t None s = Ok sbs"
  shows "distinct (map sb_id sbs)" and "sb \<in> set sbs \<Longrightarrow> lookup s (sb_id sb) = Some (view_of sb)"
    and "lookup s i = Some v \<Longrightarrow> \<exists>sb \<in> set sbs. sb_id sb = i \<and> view_of sb = v"
proof -
  have l: "distinct (map sb_id sbs)" "view_of ` set sbs = ran (lookup s)"
    using list_all [OF assms(1), of t None] assms(2) by (auto simp: status_matches_def)
  show "distinct (map sb_id sbs)" by (rule l)
  show "lookup s (sb_id sb) = Some (view_of sb)" if "sb \<in> set sbs"
  proof -
    have "view_of sb \<in> ran (lookup s)" using that l(2) by blast
    then obtain i where i: "lookup s i = Some (view_of sb)" by (auto simp: ran_def)
    with lookup_id [OF assms(1) i] show ?thesis by (simp add: view_of_def)
  qed
  show "\<exists>sb \<in> set sbs. sb_id sb = i \<and> view_of sb = v" if v: "lookup s i = Some v"
  proof -
    have "v \<in> view_of ` set sbs" using v l(2) by (auto simp: ran_def)
    with lookup_id [OF assms(1) v] show ?thesis by (auto simp: view_of_def)
  qed
qed

end

end
