(* ===== verification/Store_Memory.thy ===== *)
theory Store_Memory
  imports Store_Contract
begin

text \<open>
  \<open>crates/clouisle-store/src/memory.rs\<close>: the store in memory. Each operation runs under one lock
  and takes the clock reading it makes as an argument. The store implements the contract.
\<close>

record mem_store =
  m_sandboxes :: "(string, sandbox) hashmap"
  m_executions :: "(string, execution_record) hashmap"
  m_nodes :: "(string, registered_node) hashmap"

definition mem_new :: mem_store where
  "mem_new = \<lparr>m_sandboxes = [], m_executions = [], m_nodes = []\<rparr>"

definition sandbox_missing :: "string \<Rightarrow> store_error" where
  "sandbox_missing i = SNotFound (''sandbox '' @ i @ '' not found'')"

definition mem_create_sandbox :: "sandbox \<Rightarrow> mem_store \<Rightarrow> mem_store \<times> (unit, store_error) result" where
  "mem_create_sandbox sb s =
     (if hm_get (m_sandboxes s) (sb_id sb) \<noteq> None
      then (s, Err (SConflict (''sandbox '' @ sb_id sb @ '' already exists'')))
      else (s\<lparr>m_sandboxes := hm_insert (sb_id sb) sb (m_sandboxes s)\<rparr>, Ok ()))"

definition mem_get_sandbox :: "string \<Rightarrow> mem_store \<Rightarrow> (sandbox, store_error) result" where
  "mem_get_sandbox i s =
     (case hm_get (m_sandboxes s) i of Some sb \<Rightarrow> Ok sb | None \<Rightarrow> Err (sandbox_missing i))"

text \<open>\<open>get_mut\<close>, the error when the key is absent, and the change made through the reference.\<close>

definition mem_modify ::
  "string \<Rightarrow> (sandbox \<Rightarrow> sandbox) \<Rightarrow> mem_store \<Rightarrow> mem_store \<times> (unit, store_error) result" where
  "mem_modify i f s =
     (case hm_get (m_sandboxes s) i of
        None \<Rightarrow> (s, Err (sandbox_missing i))
      | Some sb \<Rightarrow> (s\<lparr>m_sandboxes := hm_insert i (f sb) (m_sandboxes s)\<rparr>, Ok ()))"

definition touch_status :: "time \<Rightarrow> sandbox_status \<Rightarrow> sandbox \<Rightarrow> sandbox" where
  "touch_status now st sb =
     (let sb' = sb\<lparr>sb_status := st, sb_updated_at := now\<rparr>
      in if st = Running then sb'\<lparr>sb_ready_at := Some now\<rparr> else sb')"

definition mem_update_sandbox_status ::
  "time \<Rightarrow> string \<Rightarrow> sandbox_status \<Rightarrow> mem_store \<Rightarrow> mem_store \<times> (unit, store_error) result" where
  "mem_update_sandbox_status now i st = mem_modify i (touch_status now st)"

definition mem_update_sandbox_spec ::
  "time \<Rightarrow> string \<Rightarrow> sandbox_spec \<Rightarrow> mem_store \<Rightarrow> mem_store \<times> (unit, store_error) result" where
  "mem_update_sandbox_spec now i sp = mem_modify i (\<lambda>sb. sb\<lparr>sb_spec := sp, sb_updated_at := now\<rparr>)"

definition mem_update_sandbox_status_message ::
  "time \<Rightarrow> string \<Rightarrow> sandbox_status \<Rightarrow> string option \<Rightarrow> mem_store
   \<Rightarrow> mem_store \<times> (unit, store_error) result" where
  "mem_update_sandbox_status_message now i st msg =
     mem_modify i (\<lambda>sb. touch_status now st (sb\<lparr>sb_terminal_message := msg\<rparr>))"

definition mem_update_sandbox_node ::
  "time \<Rightarrow> string \<Rightarrow> string option \<Rightarrow> mem_store \<Rightarrow> mem_store \<times> (unit, store_error) result" where
  "mem_update_sandbox_node now i n = mem_modify i (\<lambda>sb. sb\<lparr>sb_node_id := n, sb_updated_at := now\<rparr>)"

definition mem_update_sandbox_vmm_meta ::
  "time \<Rightarrow> string \<Rightarrow> vmm_meta \<Rightarrow> mem_store \<Rightarrow> mem_store \<times> (unit, store_error) result" where
  "mem_update_sandbox_vmm_meta now i m = mem_modify i (\<lambda>sb. sb\<lparr>sb_vmm_meta := m, sb_updated_at := now\<rparr>)"

definition mem_update_sandbox_expiry ::
  "string \<Rightarrow> time option \<Rightarrow> mem_store \<Rightarrow> mem_store \<times> (unit, store_error) result" where
  "mem_update_sandbox_expiry i e = mem_modify i (\<lambda>sb. sb\<lparr>sb_expires_at := e\<rparr>)"

definition mem_list_sandboxes ::
  "sandbox_status option \<Rightarrow> mem_store \<Rightarrow> (sandbox list, store_error) result" where
  "mem_list_sandboxes flt s =
     (let xs = hm_values (m_sandboxes s)
      in case flt of Some st \<Rightarrow> Ok (filter (\<lambda>sb. sb_status sb = st) xs) | None \<Rightarrow> Ok xs)"

definition mem_delete_sandbox :: "string \<Rightarrow> mem_store \<Rightarrow> mem_store \<times> (unit, store_error) result" where
  "mem_delete_sandbox i s =
     (case hm_get (m_sandboxes s) i of
        None \<Rightarrow> (s, Err (sandbox_missing i))
      | Some _ \<Rightarrow> (s\<lparr>m_sandboxes := hm_remove i (m_sandboxes s)\<rparr>, Ok ()))"

definition mem_upsert_node :: "registered_node \<Rightarrow> mem_store \<Rightarrow> mem_store" where
  "mem_upsert_node n s = s\<lparr>m_nodes := hm_insert (ni_node_id (rn_info n)) n (m_nodes s)\<rparr>"

definition mem_list_ready_nodes :: "int \<Rightarrow> mem_store \<Rightarrow> registered_node list" where
  "mem_list_ready_nodes now_ms s =
     filter (\<lambda>n. rn_status n = NodeReady \<and> now_ms \<le> rn_last_heartbeat_ms n) (hm_values (m_nodes s))"

definition mem_save_execution :: "execution_record \<Rightarrow> mem_store \<Rightarrow> mem_store" where
  "mem_save_execution r s = s\<lparr>m_executions := hm_insert (xr_id r) r (m_executions s)\<rparr>"

definition mem_get_execution :: "string \<Rightarrow> mem_store \<Rightarrow> (execution_record, store_error) result" where
  "mem_get_execution i s =
     (case hm_get (m_executions s) i of
        Some r \<Rightarrow> Ok r | None \<Rightarrow> Err (SNotFound (''execution '' @ i @ '' not found'')))"

definition mem_list_executions :: "string \<Rightarrow> mem_store \<Rightarrow> execution_record list" where
  "mem_list_executions sid s = filter (\<lambda>r. xr_sandbox_id r = sid) (hm_values (m_executions s))"

section \<open>The contract\<close>

fun mem_update ::
  "time \<Rightarrow> string \<Rightarrow> sb_update \<Rightarrow> mem_store \<Rightarrow> mem_store \<times> (unit, store_error) result" where
  "mem_update now i (UStatus st) = mem_update_sandbox_status now i st"
| "mem_update now i (USpec sp) = mem_update_sandbox_spec now i sp"
| "mem_update now i (UStatusMessage st m) = mem_update_sandbox_status_message now i st m"
| "mem_update now i (UNode n) = mem_update_sandbox_node now i n"
| "mem_update now i (UVmmMeta m) = mem_update_sandbox_vmm_meta now i m"
| "mem_update now i (UExpiry e) = mem_update_sandbox_expiry i e"

definition mem_ops :: "mem_store store_ops" where
  "mem_ops = \<lparr>so_create = mem_create_sandbox, so_get = (\<lambda>t. mem_get_sandbox), so_update = mem_update,
     so_delete = mem_delete_sandbox, so_list = (\<lambda>t. mem_list_sandboxes)\<rparr>"

definition mem_inv :: "mem_store \<Rightarrow> bool" where
  "mem_inv s \<longleftrightarrow> hm_ok (m_sandboxes s) \<and> (\<forall>i sb. hm_get (m_sandboxes s) i = Some sb \<longrightarrow> sb_id sb = i)"

definition mem_lookup :: "mem_store \<Rightarrow> string \<Rightarrow> sb_view option" where
  "mem_lookup s i = map_option view_of (hm_get (m_sandboxes s) i)"

lemmas mem_update_defs = mem_update_sandbox_status_def mem_update_sandbox_spec_def
  mem_update_sandbox_status_message_def mem_update_sandbox_node_def mem_update_sandbox_vmm_meta_def
  mem_update_sandbox_expiry_def

lemma mem_modify_some:
  assumes "mem_inv s" and "hm_get (m_sandboxes s) i = Some sb" and "sb_id (f sb) = sb_id sb"
  shows "\<exists>s'. mem_modify i f s = (s', Ok ()) \<and> mem_inv s' \<and> mem_lookup s' = (mem_lookup s)(i \<mapsto> view_of (f sb))"
  using assms by (auto simp: mem_modify_def mem_inv_def mem_lookup_def fun_eq_iff)

lemma mem_update_is_modify:
  obtains f where "mem_update t i u = mem_modify i f"
    and "\<And>sb. sb_id (f sb) = sb_id sb" and "\<And>sb. view_of (f sb) = apply_update u (view_of sb)"
proof (cases u)
  case (UStatus st)
  then show ?thesis
    by (intro that [of "touch_status t st"])
      (simp_all add: mem_update_defs touch_status_def view_of_def Let_def)
next
  case (UStatusMessage st m)
  then show ?thesis
    by (intro that [of "\<lambda>sb. touch_status t st (sb\<lparr>sb_terminal_message := m\<rparr>)"])
      (simp_all add: mem_update_defs touch_status_def view_of_def Let_def)
qed (auto simp: mem_update_defs view_of_def intro!: that)

lemma distinct_values_ids:
  "hm_ok m \<Longrightarrow> \<forall>(k, sb)\<in>set m. sb_id sb = k \<Longrightarrow> distinct (map sb_id (hm_values m))"
proof -
  assume ok: "hm_ok m" and ids: "\<forall>(k, sb)\<in>set m. sb_id sb = k"
  have "map sb_id (hm_values m) = map fst m"
    using ids by (auto simp: hm_values_def)
  then show ?thesis using ok by (simp add: hm_ok_def)
qed

lemma mem_list_ok:
  assumes "mem_inv s"
  shows "\<exists>sbs. mem_list_sandboxes flt s = Ok sbs \<and> distinct (map sb_id sbs)
    \<and> view_of ` set sbs = {v \<in> ran (mem_lookup s). status_matches flt (v_status v)}"
proof -
  let ?vs = "hm_values (m_sandboxes s)"
  have ok: "hm_ok (m_sandboxes s)" using assms by (simp add: mem_inv_def)
  have "\<forall>(k, sb)\<in>set (m_sandboxes s). sb_id sb = k"
    using assms hm_get_mem [OF ok] by (auto simp: mem_inv_def)
  from distinct_values_ids [OF ok this] have d: "distinct (map sb_id (filter P ?vs))" for P
    by (simp add: distinct_map_filter)
  have l: "mem_list_sandboxes flt s = Ok (filter (\<lambda>sb. status_matches flt (sb_status sb)) ?vs)"
    by (cases flt) (simp_all add: mem_list_sandboxes_def status_matches_def Let_def)
  have "ran (mem_lookup s) = view_of ` set ?vs"
    using hm_values_iff [OF ok] by (fastforce simp: ran_def mem_lookup_def)
  then have "view_of ` set (filter (\<lambda>sb. status_matches flt (sb_status sb)) ?vs)
      = {v \<in> ran (mem_lookup s). status_matches flt (v_status v)}"
    by (auto simp: view_of_def)
  with l d show ?thesis by blast
qed

interpretation mem: sandbox_store mem_ops mem_inv mem_lookup
proof
  fix s :: mem_store and sb i v t u flt
  assume inv: "mem_inv s"
  show "\<exists>s'. so_create mem_ops sb s = (s', Ok ()) \<and> mem_inv s' \<and> mem_lookup s' = (mem_lookup s)(sb_id sb \<mapsto> view_of sb)"
    if "mem_lookup s (sb_id sb) = None"
    using that inv by (auto simp: mem_ops_def mem_create_sandbox_def mem_inv_def mem_lookup_def fun_eq_iff)
  show "\<exists>m. so_create mem_ops sb s = (s, Err (SConflict m))" if "mem_lookup s (sb_id sb) = Some v"
    using that by (auto simp: mem_ops_def mem_create_sandbox_def mem_lookup_def)
  show "\<exists>sb. so_get mem_ops t i s = Ok sb \<and> view_of sb = v" if "mem_lookup s i = Some v"
    using that by (auto simp: mem_ops_def mem_get_sandbox_def mem_lookup_def)
  show "\<exists>m. so_get mem_ops t i s = Err (SNotFound m)" if "mem_lookup s i = None"
    using that by (auto simp: mem_ops_def mem_get_sandbox_def mem_lookup_def sandbox_missing_def)
  obtain f where f: "mem_update t i u = mem_modify i f" "\<And>sb. sb_id (f sb) = sb_id sb"
    "\<And>sb. view_of (f sb) = apply_update u (view_of sb)"
    by (rule mem_update_is_modify [of t i u]) blast
  show "\<exists>s'. so_update mem_ops t i u s = (s', Ok ()) \<and> mem_inv s' \<and> mem_lookup s' = (mem_lookup s)(i \<mapsto> apply_update u v)"
    if v: "mem_lookup s i = Some v"
  proof -
    obtain sb where "hm_get (m_sandboxes s) i = Some sb" "v = view_of sb"
      using v by (auto simp: mem_lookup_def)
    then show ?thesis using mem_modify_some [OF inv, of i sb f] f by (simp add: mem_ops_def)
  qed
  show "\<exists>m. so_update mem_ops t i u s = (s, Err (SNotFound m))" if "mem_lookup s i = None"
    using that f(1) by (auto simp: mem_ops_def mem_modify_def mem_lookup_def sandbox_missing_def)
  show "\<exists>s'. so_delete mem_ops i s = (s', Ok ()) \<and> mem_inv s' \<and> mem_lookup s' = (mem_lookup s)(i := None)"
    if "mem_lookup s i = Some v"
    using that inv by (auto simp: mem_ops_def mem_delete_sandbox_def mem_inv_def mem_lookup_def fun_eq_iff)
  show "\<exists>m. so_delete mem_ops i s = (s, Err (SNotFound m))" if "mem_lookup s i = None"
    using that by (auto simp: mem_ops_def mem_delete_sandbox_def mem_lookup_def sandbox_missing_def)
  show "\<exists>sbs. so_list mem_ops t flt s = Ok sbs \<and> distinct (map sb_id sbs)
      \<and> view_of ` set sbs = {v \<in> ran (mem_lookup s). status_matches flt (v_status v)}"
    using mem_list_ok [OF inv] by (simp add: mem_ops_def)
qed

lemma mem_new_inv: "mem_inv mem_new" "mem_lookup mem_new = Map.empty"
  by (auto simp: mem_inv_def mem_new_def mem_lookup_def)

interpretation memk: keyed_store mem_ops mem_inv mem_lookup
  by unfold_locales (auto simp: mem_inv_def mem_lookup_def view_of_def)

end
