(* ===== verification/Store_Sqlite.thy ===== *)
theory Store_Sqlite
  imports Store_Memory
begin

text \<open>
  \<open>crates/clouisle-store/src/sqlite.rs\<close>: the store on SQLite. A table is the list of its rows and
  each SQL statement of the source is the operation on that list that it denotes; a primary
  key makes a second insertion fail. The JSON texts of \<open>serde_json\<close>, the conversion between a
  time and its milliseconds of \<open>chrono\<close>, and a failure of the database engine are the fields of
  \<open>sql_env\<close>, where \<open>'j\<close> is the type of a JSON text, which the store never looks into; \<open>sql_laws\<close> names what is relied on. Under these laws the store implements the same
  contract as the store in memory.
\<close>

section \<open>Rows\<close>

record 'j sb_row =
  row_id :: string
  row_spec_json :: 'j
  row_status :: string
  row_vmm_meta_json :: 'j
  row_created_at :: int
  row_updated_at :: int
  row_ready_at :: "int option"
  row_expires_at :: "int option"
  row_terminal_message :: "string option"
  row_node_id :: "string option"

record 'j exec_row =
  xrow_id :: string
  xrow_sandbox_id :: string
  xrow_spec_json :: 'j
  xrow_exit_code :: int
  xrow_stdout :: "byte list"
  xrow_stderr :: "byte list"
  xrow_started_at :: int
  xrow_finished_at :: int
  xrow_timed_out :: int
  xrow_stdout_truncated :: int
  xrow_stderr_truncated :: int
  xrow_node_id :: "string option"

record 'j node_row =
  nrow_node_id :: string
  nrow_json :: 'j
  nrow_status :: string
  nrow_last_heartbeat_ms :: int

record 'j sql_store =
  q_sandboxes :: "'j sb_row list"
  q_executions :: "'j exec_row list"
  q_nodes :: "'j node_row list"

definition sql_new :: "'j sql_store" where
  "sql_new = \<lparr>q_sandboxes = [], q_executions = [], q_nodes = []\<rparr>"

record 'j sql_env =
  spec_to_json :: "sandbox_spec \<Rightarrow> ('j, string) result"
  spec_of_json :: "'j \<Rightarrow> (sandbox_spec, string) result"
  meta_to_json :: "vmm_meta \<Rightarrow> ('j, string) result"
  meta_of_json :: "'j \<Rightarrow> (vmm_meta, string) result"
  xspec_to_json :: "execution_spec \<Rightarrow> ('j, string) result"
  xspec_of_json :: "'j \<Rightarrow> (execution_spec, string) result"
  node_to_json :: "registered_node \<Rightarrow> ('j, string) result"
  node_of_json :: "'j \<Rightarrow> (registered_node, string) result"
  node_status_json :: "node_status \<Rightarrow> string"
  timestamp_millis :: "time \<Rightarrow> int"
  from_timestamp_millis :: "int \<Rightarrow> time option"
  engine_fault :: "string option"

definition ms_floor :: "time \<Rightarrow> time" where
  "ms_floor t = t - t mod 1000000"

definition sql_laws :: "'j sql_env \<Rightarrow> bool" where
  "sql_laws env \<longleftrightarrow>
     engine_fault env = None
     \<and> (\<forall>sp. \<exists>j. spec_to_json env sp = Ok j \<and> spec_of_json env j = Ok sp)
     \<and> (\<forall>m. \<exists>j. meta_to_json env m = Ok j \<and> meta_of_json env j = Ok m)
     \<and> (\<forall>x. \<exists>j. xspec_to_json env x = Ok j \<and> xspec_of_json env j = Ok x)
     \<and> (\<forall>n. \<exists>j. node_to_json env n = Ok j \<and> node_of_json env j = Ok n)
     \<and> (\<forall>n. node_status_json env n = ''\"ready\"'' \<longleftrightarrow> n = NodeReady)
     \<and> (\<forall>t. from_timestamp_millis env (timestamp_millis env t) = Some (ms_floor t))"

section \<open>Sandboxes\<close>

definition parse_status :: "string \<Rightarrow> sandbox_status option" where
  "parse_status s =
     (if s = ''pending'' then Some Pending else if s = ''starting'' then Some Starting
      else if s = ''running'' then Some Running else if s = ''paused'' then Some Paused
      else if s = ''stopping'' then Some Stopping else if s = ''stopped'' then Some Stopped
      else if s = ''error'' then Some Error else None)"

definition row_to_sandbox :: "'j sql_env \<Rightarrow> time \<Rightarrow> 'j sb_row \<Rightarrow> (sandbox, store_error) result" where
  "row_to_sandbox env now row =
     (case spec_of_json env (row_spec_json row) of
        Err e \<Rightarrow> Err (SInternal (''bad spec_json: '' @ e))
      | Ok sp \<Rightarrow>
      (case meta_of_json env (row_vmm_meta_json row) of
        Err e \<Rightarrow> Err (SInternal (''bad vmm_meta_json: '' @ e))
      | Ok meta \<Rightarrow>
      (case parse_status (row_status row) of
        None \<Rightarrow> Err (SInternal (''bad status: '' @ row_status row))
      | Some st \<Rightarrow> Ok \<lparr>
          sb_id = row_id row, sb_spec = sp, sb_status = st,
          sb_created_at = (case from_timestamp_millis env (row_created_at row) of Some t \<Rightarrow> t | None \<Rightarrow> now),
          sb_updated_at = (case from_timestamp_millis env (row_updated_at row) of Some t \<Rightarrow> t | None \<Rightarrow> now),
          sb_ready_at = Option.bind (row_ready_at row) (from_timestamp_millis env),
          sb_expires_at = Option.bind (row_expires_at row) (from_timestamp_millis env),
          sb_vmm_meta = meta, sb_terminal_message = row_terminal_message row,
          sb_node_id = row_node_id row\<rparr>)))"

definition sql_create_sandbox ::
  "'j sql_env \<Rightarrow> sandbox \<Rightarrow> 'j sql_store \<Rightarrow> 'j sql_store \<times> (unit, store_error) result" where
  "sql_create_sandbox env sb s =
     (case spec_to_json env (sb_spec sb) of
        Err e \<Rightarrow> (s, Err (SInternal e))
      | Ok spec_json \<Rightarrow>
      (case meta_to_json env (sb_vmm_meta sb) of
        Err e \<Rightarrow> (s, Err (SInternal e))
      | Ok meta_json \<Rightarrow>
      (case engine_fault env of
        Some e \<Rightarrow> (s, Err (SSqlite e))
      | None \<Rightarrow>
          if list_ex (\<lambda>r. row_id r = sb_id sb) (q_sandboxes s)
          then (s, Err (SConflict (''sandbox '' @ sb_id sb @ '' already exists'')))
          else (s\<lparr>q_sandboxes := q_sandboxes s @ [\<lparr>
                 row_id = sb_id sb, row_spec_json = spec_json, row_status = status_str (sb_status sb),
                 row_vmm_meta_json = meta_json,
                 row_created_at = timestamp_millis env (sb_created_at sb),
                 row_updated_at = timestamp_millis env (sb_updated_at sb),
                 row_ready_at = map_option (timestamp_millis env) (sb_ready_at sb),
                 row_expires_at = map_option (timestamp_millis env) (sb_expires_at sb),
                 row_terminal_message = sb_terminal_message sb, row_node_id = sb_node_id sb\<rparr>]\<rparr>, Ok ()))))"

definition sql_missing :: "string \<Rightarrow> store_error" where
  "sql_missing i = SNotFound (''sandbox '' @ i)"

definition sql_get_sandbox ::
  "'j sql_env \<Rightarrow> time \<Rightarrow> string \<Rightarrow> 'j sql_store \<Rightarrow> (sandbox, store_error) result" where
  "sql_get_sandbox env now i s =
     (case engine_fault env of
        Some e \<Rightarrow> Err (SSqlite e)
      | None \<Rightarrow>
          (case find (\<lambda>r. row_id r = i) (q_sandboxes s) of
             None \<Rightarrow> Err (sql_missing i)
           | Some row \<Rightarrow> row_to_sandbox env now row))"

text \<open>\<open>UPDATE sandboxes SET \<dots> WHERE id = i\<close> and the test of the number of changed rows.\<close>

definition sql_update_row ::
  "'j sql_env \<Rightarrow> string \<Rightarrow> ('j sb_row \<Rightarrow> 'j sb_row) \<Rightarrow> 'j sql_store \<Rightarrow> 'j sql_store \<times> (unit, store_error) result" where
  "sql_update_row env i f s =
     (case engine_fault env of
        Some e \<Rightarrow> (s, Err (SSqlite e))
      | None \<Rightarrow>
          (let n = length (filter (\<lambda>r. row_id r = i) (q_sandboxes s));
               s' = s\<lparr>q_sandboxes := map (\<lambda>r. if row_id r = i then f r else r) (q_sandboxes s)\<rparr>
           in if n = 0 then (s', Err (sql_missing i)) else (s', Ok ())))"

definition coalesce :: "'a option \<Rightarrow> 'a option \<Rightarrow> 'a option" where
  "coalesce a b = (case a of None \<Rightarrow> b | Some _ \<Rightarrow> a)"

definition sql_update_sandbox_status ::
  "'j sql_env \<Rightarrow> time \<Rightarrow> string \<Rightarrow> sandbox_status \<Rightarrow> 'j sql_store \<Rightarrow> 'j sql_store \<times> (unit, store_error) result" where
  "sql_update_sandbox_status env now i st =
     (let ms = timestamp_millis env now; ready = (if st = Running then Some ms else None)
      in sql_update_row env i (\<lambda>r. r\<lparr>row_status := status_str st,
           row_ready_at := coalesce (row_ready_at r) ready, row_updated_at := ms\<rparr>))"

definition sql_update_sandbox_spec ::
  "'j sql_env \<Rightarrow> time \<Rightarrow> string \<Rightarrow> sandbox_spec \<Rightarrow> 'j sql_store \<Rightarrow> 'j sql_store \<times> (unit, store_error) result" where
  "sql_update_sandbox_spec env now i sp s =
     (case spec_to_json env sp of
        Err e \<Rightarrow> (s, Err (SInternal e))
      | Ok j \<Rightarrow> sql_update_row env i
          (\<lambda>r. r\<lparr>row_spec_json := j, row_updated_at := timestamp_millis env now\<rparr>) s)"

definition sql_update_sandbox_status_message ::
  "'j sql_env \<Rightarrow> time \<Rightarrow> string \<Rightarrow> sandbox_status \<Rightarrow> string option \<Rightarrow> 'j sql_store
   \<Rightarrow> 'j sql_store \<times> (unit, store_error) result" where
  "sql_update_sandbox_status_message env now i st msg =
     (let ms = timestamp_millis env now; ready = (if st = Running then Some ms else None)
      in sql_update_row env i (\<lambda>r. r\<lparr>row_status := status_str st, row_terminal_message := msg,
           row_ready_at := coalesce (row_ready_at r) ready, row_updated_at := ms\<rparr>))"

definition sql_update_sandbox_node ::
  "'j sql_env \<Rightarrow> time \<Rightarrow> string \<Rightarrow> string option \<Rightarrow> 'j sql_store \<Rightarrow> 'j sql_store \<times> (unit, store_error) result" where
  "sql_update_sandbox_node env now i n =
     sql_update_row env i (\<lambda>r. r\<lparr>row_node_id := n, row_updated_at := timestamp_millis env now\<rparr>)"

definition sql_update_sandbox_vmm_meta ::
  "'j sql_env \<Rightarrow> time \<Rightarrow> string \<Rightarrow> vmm_meta \<Rightarrow> 'j sql_store \<Rightarrow> 'j sql_store \<times> (unit, store_error) result" where
  "sql_update_sandbox_vmm_meta env now i m s =
     (case meta_to_json env m of
        Err e \<Rightarrow> (s, Err (SInternal e))
      | Ok j \<Rightarrow> sql_update_row env i
          (\<lambda>r. r\<lparr>row_vmm_meta_json := j, row_updated_at := timestamp_millis env now\<rparr>) s)"

definition sql_update_sandbox_expiry ::
  "'j sql_env \<Rightarrow> time \<Rightarrow> string \<Rightarrow> time option \<Rightarrow> 'j sql_store \<Rightarrow> 'j sql_store \<times> (unit, store_error) result" where
  "sql_update_sandbox_expiry env now i e =
     sql_update_row env i (\<lambda>r. r\<lparr>row_expires_at := map_option (timestamp_millis env) e,
       row_updated_at := timestamp_millis env now\<rparr>)"

text \<open>Rows that do not parse are left out of a listing.\<close>

definition sql_list_sandboxes ::
  "'j sql_env \<Rightarrow> time \<Rightarrow> sandbox_status option \<Rightarrow> 'j sql_store \<Rightarrow> (sandbox list, store_error) result" where
  "sql_list_sandboxes env now flt s =
     (case engine_fault env of
        Some e \<Rightarrow> Err (SSqlite e)
      | None \<Rightarrow>
          (let out = List.map_filter
                 (\<lambda>r. case row_to_sandbox env now r of Ok sb \<Rightarrow> Some sb | Err _ \<Rightarrow> None) (q_sandboxes s)
           in case flt of Some st \<Rightarrow> Ok (filter (\<lambda>sb. sb_status sb = st) out) | None \<Rightarrow> Ok out))"

definition sql_delete_sandbox ::
  "'j sql_env \<Rightarrow> string \<Rightarrow> 'j sql_store \<Rightarrow> 'j sql_store \<times> (unit, store_error) result" where
  "sql_delete_sandbox env i s =
     (case engine_fault env of
        Some e \<Rightarrow> (s, Err (SSqlite e))
      | None \<Rightarrow>
          (let n = length (filter (\<lambda>r. row_id r = i) (q_sandboxes s));
               s' = s\<lparr>q_sandboxes := filter (\<lambda>r. row_id r \<noteq> i) (q_sandboxes s)\<rparr>
           in if n = 0 then (s', Err (sql_missing i)) else (s', Ok ())))"

section \<open>Nodes and executions\<close>

definition sql_upsert_node ::
  "'j sql_env \<Rightarrow> registered_node \<Rightarrow> 'j sql_store \<Rightarrow> 'j sql_store \<times> (unit, store_error) result" where
  "sql_upsert_node env n s =
     (case node_to_json env n of
        Err e \<Rightarrow> (s, Err (SInternal e))
      | Ok j \<Rightarrow>
      (case engine_fault env of
        Some e \<Rightarrow> (s, Err (SSqlite e))
      | None \<Rightarrow>
          (let i = ni_node_id (rn_info n);
               row = \<lparr>nrow_node_id = i, nrow_json = j, nrow_status = node_status_json env (rn_status n),
                      nrow_last_heartbeat_ms = rn_last_heartbeat_ms n\<rparr>
           in (s\<lparr>q_nodes := (if list_ex (\<lambda>r. nrow_node_id r = i) (q_nodes s)
                             then map (\<lambda>r. if nrow_node_id r = i then row else r) (q_nodes s)
                             else q_nodes s @ [row])\<rparr>, Ok ()))))"

fun collect_results :: "('a, 'e) result list \<Rightarrow> ('a list, 'e) result" where
  "collect_results [] = Ok []"
| "collect_results (Err e # rs) = Err e"
| "collect_results (Ok x # rs) = (case collect_results rs of Ok xs \<Rightarrow> Ok (x # xs) | Err e \<Rightarrow> Err e)"

definition sql_list_ready_nodes ::
  "'j sql_env \<Rightarrow> int \<Rightarrow> 'j sql_store \<Rightarrow> (registered_node list, store_error) result" where
  "sql_list_ready_nodes env now_ms s =
     (case engine_fault env of
        Some e \<Rightarrow> Err (SSqlite e)
      | None \<Rightarrow> collect_results (map (\<lambda>r. map_sum SInternal (\<lambda>n. n) (node_of_json env (nrow_json r)))
          (filter (\<lambda>r. nrow_status r = ''\"ready\"'' \<and> now_ms \<le> nrow_last_heartbeat_ms r) (q_nodes s))))"

definition sql_save_execution ::
  "'j sql_env \<Rightarrow> execution_record \<Rightarrow> 'j sql_store \<Rightarrow> 'j sql_store \<times> (unit, store_error) result" where
  "sql_save_execution env x s =
     (case xspec_to_json env (xr_spec x) of
        Err e \<Rightarrow> (s, Err (SInternal e))
      | Ok j \<Rightarrow>
      (case engine_fault env of
        Some e \<Rightarrow> (s, Err (SSqlite e))
      | None \<Rightarrow>
          if list_ex (\<lambda>r. xrow_id r = xr_id x) (q_executions s)
          then (s, Err (SSqlite ''UNIQUE constraint failed: executions.id''))
          else (s\<lparr>q_executions := q_executions s @ [\<lparr>
                 xrow_id = xr_id x, xrow_sandbox_id = xr_sandbox_id x, xrow_spec_json = j,
                 xrow_exit_code = xr_exit_code x, xrow_stdout = xr_stdout x, xrow_stderr = xr_stderr x,
                 xrow_started_at = timestamp_millis env (xr_started_at x),
                 xrow_finished_at = timestamp_millis env (xr_finished_at x),
                 xrow_timed_out = of_bool (xr_timed_out x),
                 xrow_stdout_truncated = of_bool (xr_stdout_truncated x),
                 xrow_stderr_truncated = of_bool (xr_stderr_truncated x),
                 xrow_node_id = xr_node_id x\<rparr>]\<rparr>, Ok ())))"

definition row_to_execution :: "'j sql_env \<Rightarrow> time \<Rightarrow> 'j exec_row \<Rightarrow> (execution_record, store_error) result" where
  "row_to_execution env now r =
     (case xspec_of_json env (xrow_spec_json r) of
        Err e \<Rightarrow> Err (SSqlite e)
      | Ok sp \<Rightarrow> Ok \<lparr>
          xr_id = xrow_id r, xr_sandbox_id = xrow_sandbox_id r, xr_spec = sp, xr_exit_code = xrow_exit_code r,
          xr_stdout = xrow_stdout r, xr_stderr = xrow_stderr r,
          xr_started_at = (case from_timestamp_millis env (xrow_started_at r) of Some t \<Rightarrow> t | None \<Rightarrow> now),
          xr_finished_at = (case from_timestamp_millis env (xrow_finished_at r) of Some t \<Rightarrow> t | None \<Rightarrow> now),
          xr_timed_out = (xrow_timed_out r \<noteq> 0), xr_stdout_truncated = (xrow_stdout_truncated r \<noteq> 0),
          xr_stderr_truncated = (xrow_stderr_truncated r \<noteq> 0), xr_node_id = xrow_node_id r\<rparr>)"

definition sql_get_execution ::
  "'j sql_env \<Rightarrow> time \<Rightarrow> string \<Rightarrow> 'j sql_store \<Rightarrow> (execution_record, store_error) result" where
  "sql_get_execution env now i s =
     (case engine_fault env of
        Some e \<Rightarrow> Err (SSqlite e)
      | None \<Rightarrow>
          (case find (\<lambda>r. xrow_id r = i) (q_executions s) of
             None \<Rightarrow> Err (SNotFound (''execution '' @ i))
           | Some r \<Rightarrow> row_to_execution env now r))"

definition sql_list_executions ::
  "'j sql_env \<Rightarrow> time \<Rightarrow> string \<Rightarrow> 'j sql_store \<Rightarrow> (execution_record list, store_error) result" where
  "sql_list_executions env now sid s =
     (case engine_fault env of
        Some e \<Rightarrow> Err (SSqlite e)
      | None \<Rightarrow> collect_results (map (row_to_execution env now)
          (sort_key (\<lambda>r. - xrow_started_at r) (filter (\<lambda>r. xrow_sandbox_id r = sid) (q_executions s)))))"

section \<open>The contract\<close>

fun sql_update ::
  "'j sql_env \<Rightarrow> time \<Rightarrow> string \<Rightarrow> sb_update \<Rightarrow> 'j sql_store \<Rightarrow> 'j sql_store \<times> (unit, store_error) result" where
  "sql_update env now i (UStatus st) = sql_update_sandbox_status env now i st"
| "sql_update env now i (USpec sp) = sql_update_sandbox_spec env now i sp"
| "sql_update env now i (UStatusMessage st m) = sql_update_sandbox_status_message env now i st m"
| "sql_update env now i (UNode n) = sql_update_sandbox_node env now i n"
| "sql_update env now i (UVmmMeta m) = sql_update_sandbox_vmm_meta env now i m"
| "sql_update env now i (UExpiry e) = sql_update_sandbox_expiry env now i e"

definition sql_ops :: "'j sql_env \<Rightarrow> 'j sql_store store_ops" where
  "sql_ops env = \<lparr>so_create = sql_create_sandbox env, so_get = sql_get_sandbox env,
     so_update = sql_update env, so_delete = sql_delete_sandbox env, so_list = sql_list_sandboxes env\<rparr>"

definition row_view :: "'j sql_env \<Rightarrow> 'j sb_row \<Rightarrow> sb_view option" where
  "row_view env r = (case row_to_sandbox env 0 r of Ok sb \<Rightarrow> Some (view_of sb) | Err _ \<Rightarrow> None)"

definition sql_inv :: "'j sql_env \<Rightarrow> 'j sql_store \<Rightarrow> bool" where
  "sql_inv env s \<longleftrightarrow> distinct (map row_id (q_sandboxes s)) \<and> (\<forall>r\<in>set (q_sandboxes s). row_view env r \<noteq> None)"

definition find_row :: "string \<Rightarrow> 'j sql_store \<Rightarrow> 'j sb_row option" where
  "find_row i s = find (\<lambda>r. row_id r = i) (q_sandboxes s)"

definition sql_lookup :: "'j sql_env \<Rightarrow> 'j sql_store \<Rightarrow> string \<Rightarrow> sb_view option" where
  "sql_lookup env s i = Option.bind (find_row i s) (row_view env)"

lemmas sql_update_defs = sql_update_sandbox_status_def sql_update_sandbox_spec_def
  sql_update_sandbox_status_message_def sql_update_sandbox_node_def sql_update_sandbox_vmm_meta_def
  sql_update_sandbox_expiry_def

lemma parse_status_str [simp]: "parse_status (status_str st) = Some st"
  by (cases st) (simp_all add: parse_status_def)

text \<open>The view of a row does not depend on the clock reading that stands in for a bad timestamp.\<close>

lemma row_view_Some_iff:
  "row_view env r = Some v \<longleftrightarrow> (\<exists>sp m st. spec_of_json env (row_spec_json r) = Ok sp
     \<and> meta_of_json env (row_vmm_meta_json r) = Ok m \<and> parse_status (row_status r) = Some st
     \<and> v = \<lparr>v_id = row_id r, v_spec = sp, v_status = st, v_meta = m,
            v_message = row_terminal_message r, v_node = row_node_id r\<rparr>)"
  by (auto simp: row_view_def row_to_sandbox_def view_of_def split: sum.splits option.splits)

lemma row_view_sandbox:
  "row_view env r = Some v \<Longrightarrow> \<exists>sb. row_to_sandbox env t r = Ok sb \<and> view_of sb = v \<and> sb_id sb = row_id r"
  by (auto simp: row_view_Some_iff row_to_sandbox_def view_of_def)

lemma row_to_sandbox_ready:
  "row_to_sandbox env t r = Ok sb \<Longrightarrow> Option.bind (row_ready_at r) (from_timestamp_millis env) = sb_ready_at sb"
  by (auto simp: row_to_sandbox_def split: sum.splits option.splits)

lemma find_row_None: "find_row i s = None \<longleftrightarrow> i \<notin> row_id ` set (q_sandboxes s)"
  by (auto simp: find_row_def find_None_iff)

lemma find_row_Some: "find_row i s = Some r \<Longrightarrow> r \<in> set (q_sandboxes s) \<and> row_id r = i"
  by (auto simp: find_row_def find_Some_iff)

lemma sql_lookup_Some:
  "sql_inv env s \<Longrightarrow> sql_lookup env s i = Some v \<longleftrightarrow> (\<exists>r. find_row i s = Some r \<and> row_view env r = Some v)"
  by (auto simp: sql_lookup_def bind_eq_Some_conv)

lemma sql_lookup_None: "sql_inv env s \<Longrightarrow> sql_lookup env s i = None \<longleftrightarrow> find_row i s = None"
  unfolding sql_lookup_def sql_inv_def bind_eq_None_conv using find_row_Some [of i s] by (cases "find_row i s") auto

lemma count_rows: "length (filter (\<lambda>r. row_id r = i) (q_sandboxes s)) = 0 \<longleftrightarrow> find_row i s = None"
  by (auto simp: find_row_None filter_empty_conv)

lemma map_rows_absent:
  "find_row i s = None \<Longrightarrow> map (\<lambda>r. if row_id r = i then f r else r) (q_sandboxes s) = q_sandboxes s"
  by (auto simp: find_row_None intro!: map_idI)

lemma find_map_rows:
  assumes "\<And>r. row_id (f r) = row_id r"
  shows "find (\<lambda>r. row_id r = j) (map (\<lambda>r. if row_id r = i then f r else r) rows)
    = map_option (\<lambda>r. if row_id r = i then f r else r) (find (\<lambda>r. row_id r = j) rows)"
  using assms by (induction rows) auto

lemma sql_update_row_some:
  assumes "engine_fault env = None" and "sql_inv env s" and "sql_lookup env s i = Some v"
    and f: "\<And>r. row_id (f r) = row_id r"
    and view: "\<And>r. row_view env r = Some v \<Longrightarrow> row_view env (f r) = Some w"
  shows "\<exists>s'. sql_update_row env i f s = (s', Ok ()) \<and> sql_inv env s' \<and> sql_lookup env s' = (sql_lookup env s)(i \<mapsto> w)"
proof -
  let ?g = "\<lambda>r. if row_id r = i then f r else r"
  let ?s = "s\<lparr>q_sandboxes := map ?g (q_sandboxes s)\<rparr>"
  obtain r where r: "find_row i s = Some r" "row_view env r = Some v"
    using assms(2,3) by (auto simp: sql_lookup_Some)
  have unique: "x = r" if "x \<in> set (q_sandboxes s)" "row_id x = i" for x
    using that find_row_Some [OF r(1)] assms(2) by (auto simp: sql_inv_def distinct_map inj_on_def)
  have upd: "sql_update_row env i f s = (?s, Ok ())"
    using assms(1) r(1) count_rows [of i s] by (simp add: sql_update_row_def Let_def)
  have ids: "map row_id (map ?g (q_sandboxes s)) = map row_id (q_sandboxes s)" using f by simp
  have "row_view env x \<noteq> None" if "x \<in> set (map ?g (q_sandboxes s))" for x
    using that unique view r(2) assms(2) by (auto simp: sql_inv_def)
  moreover have "distinct (map row_id (map ?g (q_sandboxes s)))" unfolding ids using assms(2) by (simp add: sql_inv_def)
  ultimately have inv: "sql_inv env ?s" unfolding sql_inv_def by simp
  have "sql_lookup env ?s j = ((sql_lookup env s)(i \<mapsto> w)) j" for j
  proof -
    have fr: "find_row j ?s = map_option ?g (find_row j s)" by (simp add: find_row_def find_map_rows f)
    show ?thesis
    proof (cases "find_row j s")
      case None
      then show ?thesis using fr r(1) by (auto simp: sql_lookup_def)
    next
      case (Some x)
      then have "row_id x = j" "j = i \<Longrightarrow> x = r" using find_row_Some r(1) by (blast, simp)
      then show ?thesis using fr Some view [OF r(2)] by (auto simp: sql_lookup_def)
    qed
  qed
  with upd inv show ?thesis by blast
qed

lemma sql_update_row_none:
  "engine_fault env = None \<Longrightarrow> find_row i s = None \<Longrightarrow> sql_update_row env i f s = (s, Err (sql_missing i))"
  using count_rows [of i s] map_rows_absent [of i s f] by (simp add: sql_update_row_def Let_def)

lemma sql_update_is_row:
  assumes "sql_laws env"
  obtains f where "\<And>s. sql_update env t i u s = sql_update_row env i f s" and "\<And>r. row_id (f r) = row_id r"
    and "\<And>r v. row_view env r = Some v \<Longrightarrow> row_view env (f r) = Some (apply_update u v)"
proof (cases u)
  case (USpec sp)
  obtain j where "spec_to_json env sp = Ok j" "spec_of_json env j = Ok sp"
    using assms unfolding sql_laws_def by blast
  then show ?thesis using USpec
    by (intro that [of "\<lambda>r. r\<lparr>row_spec_json := j, row_updated_at := timestamp_millis env t\<rparr>"])
      (auto simp: sql_update_defs row_view_Some_iff)
next
  case (UVmmMeta m)
  obtain j where "meta_to_json env m = Ok j" "meta_of_json env j = Ok m"
    using assms unfolding sql_laws_def by blast
  then show ?thesis using UVmmMeta
    by (intro that [of "\<lambda>r. r\<lparr>row_vmm_meta_json := j, row_updated_at := timestamp_millis env t\<rparr>"])
      (auto simp: sql_update_defs row_view_Some_iff)
next
  case (UStatus st)
  then show ?thesis
    by (intro that [of "\<lambda>r. r\<lparr>row_status := status_str st,
          row_ready_at := coalesce (row_ready_at r) (if st = Running then Some (timestamp_millis env t) else None),
          row_updated_at := timestamp_millis env t\<rparr>"])
      (auto simp: sql_update_defs Let_def row_view_Some_iff)
next
  case (UStatusMessage st m)
  then show ?thesis
    by (intro that [of "\<lambda>r. r\<lparr>row_status := status_str st, row_terminal_message := m,
          row_ready_at := coalesce (row_ready_at r) (if st = Running then Some (timestamp_millis env t) else None),
          row_updated_at := timestamp_millis env t\<rparr>"])
      (auto simp: sql_update_defs Let_def row_view_Some_iff)
next
  case (UNode n)
  then show ?thesis
    by (intro that [of "\<lambda>r. r\<lparr>row_node_id := n, row_updated_at := timestamp_millis env t\<rparr>"])
      (auto simp: sql_update_defs row_view_Some_iff)
next
  case (UExpiry e)
  then show ?thesis
    by (intro that [of "\<lambda>r. r\<lparr>row_expires_at := map_option (timestamp_millis env) e,
          row_updated_at := timestamp_millis env t\<rparr>"])
      (auto simp: sql_update_defs row_view_Some_iff)
qed

text \<open>A sandbox as a row keeps it: every time is cut to whole milliseconds.\<close>

definition floor_times :: "sandbox \<Rightarrow> sandbox" where
  "floor_times sb = sb\<lparr>sb_created_at := ms_floor (sb_created_at sb), sb_updated_at := ms_floor (sb_updated_at sb),
     sb_ready_at := map_option ms_floor (sb_ready_at sb), sb_expires_at := map_option ms_floor (sb_expires_at sb)\<rparr>"

lemma view_of_floor_times [simp]: "view_of (floor_times sb) = view_of sb"
  by (simp add: view_of_def floor_times_def)

lemma sql_create_ok:
  assumes "sql_laws env" and "find_row (sb_id sb) s = None"
  obtains r where "row_id r = sb_id sb" and "\<And>t. row_to_sandbox env t r = Ok (floor_times sb)"
    and "sql_create_sandbox env sb s = (s\<lparr>q_sandboxes := q_sandboxes s @ [r]\<rparr>, Ok ())"
proof -
  obtain j where j: "spec_to_json env (sb_spec sb) = Ok j" "spec_of_json env j = Ok (sb_spec sb)"
    using assms(1) unfolding sql_laws_def by blast
  obtain k where k: "meta_to_json env (sb_vmm_meta sb) = Ok k" "meta_of_json env k = Ok (sb_vmm_meta sb)"
    using assms(1) unfolding sql_laws_def by blast
  have ms: "from_timestamp_millis env (timestamp_millis env t) = Some (ms_floor t)" for t
    using assms(1) by (simp add: sql_laws_def)
  have ms_opt: "Option.bind (map_option (timestamp_millis env) x) (from_timestamp_millis env) = map_option ms_floor x" for x
    by (cases x) (simp_all add: ms)
  have "engine_fault env = None" using assms(1) by (simp add: sql_laws_def)
  moreover have "\<not> list_ex (\<lambda>r. row_id r = sb_id sb) (q_sandboxes s)"
    using assms(2) unfolding find_row_None list_ex_iff by (metis imageI)
  ultimately show ?thesis
    using j k
    by (intro that [of "\<lparr>row_id = sb_id sb, row_spec_json = j, row_status = status_str (sb_status sb),
          row_vmm_meta_json = k, row_created_at = timestamp_millis env (sb_created_at sb),
          row_updated_at = timestamp_millis env (sb_updated_at sb),
          row_ready_at = map_option (timestamp_millis env) (sb_ready_at sb),
          row_expires_at = map_option (timestamp_millis env) (sb_expires_at sb),
          row_terminal_message = sb_terminal_message sb, row_node_id = sb_node_id sb\<rparr>"])
      (simp_all add: sql_create_sandbox_def row_to_sandbox_def ms ms_opt floor_times_def)
qed

lemma find_filter_rows:
  "find (\<lambda>r. row_id r = j) (filter (\<lambda>r. row_id r \<noteq> i) rows) = (if j = i then None else find (\<lambda>r. row_id r = j) rows)"
  by (induction rows) auto

lemma find_row_append:
  "find_row j (s\<lparr>q_sandboxes := q_sandboxes s @ [r]\<rparr>) =
     (case find_row j s of Some x \<Rightarrow> Some x | None \<Rightarrow> if row_id r = j then Some r else None)"
  by (simp add: find_row_def find_append split: option.split)

lemma sql_list_ok:
  assumes "sql_laws env" and inv: "sql_inv env s"
  shows "\<exists>sbs. sql_list_sandboxes env t flt s = Ok sbs \<and> distinct (map sb_id sbs)
    \<and> view_of ` set sbs = {v \<in> ran (sql_lookup env s). status_matches flt (v_status v)}"
proof -
  define to_sb where "to_sb r = projr (row_to_sandbox env t r)" for r
  have row: "row_to_sandbox env t r = Ok (to_sb r) \<and> row_view env r = Some (view_of (to_sb r))
      \<and> sb_id (to_sb r) = row_id r" if r: "r \<in> set (q_sandboxes s)" for r
  proof -
    obtain v where "row_view env r = Some v" using inv r by (auto simp: sql_inv_def)
    from row_view_sandbox [OF this, of t] this show ?thesis by (auto simp: to_sb_def)
  qed
  let ?out = "map to_sb (q_sandboxes s)"
  have "List.map_filter (\<lambda>r. case row_to_sandbox env t r of Ok sb \<Rightarrow> Some sb | Err _ \<Rightarrow> None) rows = map to_sb rows"
    if "set rows \<subseteq> set (q_sandboxes s)" for rows
    using that row by (induction rows) (auto simp: map_filter_simps)
  from this [of "q_sandboxes s"]
  have l: "sql_list_sandboxes env t flt s = Ok (filter (\<lambda>sb. status_matches flt (sb_status sb)) ?out)"
    using assms(1) by (cases flt) (simp_all add: sql_list_sandboxes_def sql_laws_def status_matches_def Let_def)
  have "map sb_id ?out = map row_id (q_sandboxes s)" using row by simp
  then have d: "distinct (map sb_id ?out)" using inv unfolding sql_inv_def by metis
  have "sql_lookup env s i = Some v \<longleftrightarrow> (\<exists>r\<in>set (q_sandboxes s). row_id r = i \<and> v = view_of (to_sb r))" for i v
  proof
    assume "sql_lookup env s i = Some v"
    then obtain r where r: "find_row i s = Some r" "row_view env r = Some v"
      using sql_lookup_Some [OF inv] by blast
    then show "\<exists>r\<in>set (q_sandboxes s). row_id r = i \<and> v = view_of (to_sb r)"
      using find_row_Some [OF r(1)] row by fastforce
  next
    assume "\<exists>r\<in>set (q_sandboxes s). row_id r = i \<and> v = view_of (to_sb r)"
    then obtain r where r: "r \<in> set (q_sandboxes s)" "row_id r = i" "v = view_of (to_sb r)" by blast
    then obtain x where x: "find_row i s = Some x" using find_row_None [of i s] by (cases "find_row i s") auto
    have "x = r" using find_row_Some [OF x] r inv by (auto simp: sql_inv_def distinct_map inj_on_def)
    then show "sql_lookup env s i = Some v" using x r row by (simp add: sql_lookup_def)
  qed
  then have "ran (sql_lookup env s) = view_of ` set ?out" by (auto simp: ran_def)
  then have "view_of ` set (filter (\<lambda>sb. status_matches flt (sb_status sb)) ?out)
      = {v \<in> ran (sql_lookup env s). status_matches flt (v_status v)}"
    by (auto simp: view_of_def)
  with l d distinct_map_filter show ?thesis by blast
qed

lemma sql_implements_contract:
  assumes laws: "sql_laws env"
  shows "sandbox_store (sql_ops env) (sql_inv env) (sql_lookup env)"
proof
  have fault: "engine_fault env = None" using laws by (simp add: sql_laws_def)
  fix s :: "'a sql_store" and sb i v t u flt
  assume inv: "sql_inv env s"
  show "\<exists>s'. so_create (sql_ops env) sb s = (s', Ok ()) \<and> sql_inv env s' \<and> sql_lookup env s' = (sql_lookup env s)(sb_id sb \<mapsto> view_of sb)"
    if none: "sql_lookup env s (sb_id sb) = None"
  proof -
    have fresh: "find_row (sb_id sb) s = None" using none sql_lookup_None [OF inv] by blast
    obtain r where r: "row_id r = sb_id sb" "\<And>t. row_to_sandbox env t r = Ok (floor_times sb)"
      and c: "sql_create_sandbox env sb s = (s\<lparr>q_sandboxes := q_sandboxes s @ [r]\<rparr>, Ok ())"
      by (rule sql_create_ok [OF laws fresh]) blast
    have v: "row_view env r = Some (view_of sb)" by (simp add: row_view_def r(2))
    have "sql_inv env (s\<lparr>q_sandboxes := q_sandboxes s @ [r]\<rparr>)"
      using inv r(1) v fresh by (simp add: sql_inv_def find_row_None)
    moreover have "sql_lookup env (s\<lparr>q_sandboxes := q_sandboxes s @ [r]\<rparr>) = (sql_lookup env s)(sb_id sb \<mapsto> view_of sb)"
      using r(1) v fresh by (auto simp: fun_eq_iff sql_lookup_def find_row_append split: option.split)
    ultimately show ?thesis using c by (simp add: sql_ops_def)
  qed
  show "\<exists>m. so_create (sql_ops env) sb s = (s, Err (SConflict m))" if dup: "sql_lookup env s (sb_id sb) = Some v"
  proof -
    obtain r where "find_row (sb_id sb) s = Some r" using dup sql_lookup_Some [OF inv] by blast
    then have "list_ex (\<lambda>r. row_id r = sb_id sb) (q_sandboxes s)"
      unfolding list_ex_iff using find_row_Some [of "sb_id sb" s r] by blast
    moreover have "\<exists>j. spec_to_json env (sb_spec sb) = Ok j" "\<exists>k. meta_to_json env (sb_vmm_meta sb) = Ok k"
      using laws unfolding sql_laws_def by blast+
    ultimately show ?thesis using fault by (auto simp: sql_ops_def sql_create_sandbox_def)
  qed
  show "\<exists>sb. so_get (sql_ops env) t i s = Ok sb \<and> view_of sb = v" if "sql_lookup env s i = Some v"
    using that sql_lookup_Some [OF inv] row_view_sandbox fault
    by (fastforce simp: sql_ops_def sql_get_sandbox_def find_row_def)
  show "\<exists>m. so_get (sql_ops env) t i s = Err (SNotFound m)" if "sql_lookup env s i = None"
    using that sql_lookup_None [OF inv] fault by (simp add: sql_ops_def sql_get_sandbox_def find_row_def sql_missing_def)
  obtain f where f: "\<And>s. sql_update env t i u s = sql_update_row env i f s" "\<And>r. row_id (f r) = row_id r"
    "\<And>r v. row_view env r = Some v \<Longrightarrow> row_view env (f r) = Some (apply_update u v)"
    by (rule sql_update_is_row [OF laws, of t i u]) blast
  show "\<exists>s'. so_update (sql_ops env) t i u s = (s', Ok ()) \<and> sql_inv env s' \<and> sql_lookup env s' = (sql_lookup env s)(i \<mapsto> apply_update u v)"
    if v: "sql_lookup env s i = Some v"
    using sql_update_row_some [OF fault inv v f(2) f(3)] by (simp add: sql_ops_def f(1))
  show "\<exists>m. so_update (sql_ops env) t i u s = (s, Err (SNotFound m))" if "sql_lookup env s i = None"
    using that sql_lookup_None [OF inv] sql_update_row_none [OF fault] by (simp add: sql_ops_def f(1) sql_missing_def)
  show "\<exists>s'. so_delete (sql_ops env) i s = (s', Ok ()) \<and> sql_inv env s' \<and> sql_lookup env s' = (sql_lookup env s)(i := None)"
    if some: "sql_lookup env s i = Some v"
  proof -
    let ?s = "s\<lparr>q_sandboxes := filter (\<lambda>r. row_id r \<noteq> i) (q_sandboxes s)\<rparr>"
    have "find_row i s \<noteq> None" using some sql_lookup_Some [OF inv] by blast
    then have "sql_delete_sandbox env i s = (?s, Ok ())"
      using fault count_rows [of i s] by (simp add: sql_delete_sandbox_def Let_def)
    moreover have "sql_inv env ?s" using inv by (auto simp: sql_inv_def distinct_map_filter)
    moreover have "find_row j ?s = (if j = i then None else find_row j s)" for j
      by (simp add: find_row_def find_filter_rows)
    ultimately show ?thesis by (auto simp: sql_ops_def sql_lookup_def fun_eq_iff)
  qed
  show "\<exists>m. so_delete (sql_ops env) i s = (s, Err (SNotFound m))" if "sql_lookup env s i = None"
  proof -
    have none: "find_row i s = None" using that sql_lookup_None [OF inv] by blast
    then have "filter (\<lambda>r. row_id r \<noteq> i) (q_sandboxes s) = q_sandboxes s"
      unfolding find_row_None filter_id_conv by (metis imageI)
    then show ?thesis using fault none count_rows [of i s]
      by (simp add: sql_ops_def sql_delete_sandbox_def Let_def sql_missing_def)
  qed
  show "\<exists>sbs. so_list (sql_ops env) t flt s = Ok sbs \<and> distinct (map sb_id sbs)
      \<and> view_of ` set sbs = {v \<in> ran (sql_lookup env s). status_matches flt (v_status v)}"
    using sql_list_ok [OF laws inv] by (simp add: sql_ops_def)
qed

lemma sql_keyed:
  assumes "sql_laws env"
  shows "keyed_store (sql_ops env) (sql_inv env) (sql_lookup env)"
proof (intro keyed_store.intro sql_implements_contract assms keyed_store_axioms.intro)
  fix s :: "'a sql_store" and i v
  assume inv: "sql_inv env s" and v: "sql_lookup env s i = Some v"
  obtain r where r: "find_row i s = Some r" "row_view env r = Some v" using sql_lookup_Some [OF inv] v by blast
  then obtain sb where "row_to_sandbox env 0 r = Ok sb" "v = view_of sb"
    using row_view_sandbox by blast
  moreover have "row_id r = i" using find_row_Some [OF r(1)] by simp
  ultimately show "v_id v = i"
    by (auto simp: row_to_sandbox_def view_of_def Let_def split: option.splits sum.splits if_splits)
qed

lemma sql_new_inv: "sql_inv env sql_new" "sql_lookup env sql_new = Map.empty"
  by (auto simp: sql_inv_def sql_new_def sql_lookup_def find_row_def)

section \<open>Properties\<close>


text \<open>A sandbox survives the database: what is read back after its creation is the sandbox that
  was stored with every time cut to whole milliseconds, and creating it again is refused
  without changing anything.\<close>

lemma sqlite_roundtrip:
  assumes "sql_laws env" and "sb_id sb \<notin> row_id ` set (q_sandboxes s)"
  shows "\<exists>s'. sql_create_sandbox env sb s = (s', Ok ())
    \<and> sql_get_sandbox env now (sb_id sb) s' = Ok (floor_times sb)
    \<and> (\<exists>m. sql_create_sandbox env sb s' = (s', Err (SConflict m)))
    \<and> (\<forall>j. j \<noteq> sb_id sb \<longrightarrow> sql_get_sandbox env now j s' = sql_get_sandbox env now j s)"
proof -
  have fresh: "find_row (sb_id sb) s = None" using assms(2) by (simp add: find_row_None)
  have fault: "engine_fault env = None" using assms(1) by (simp add: sql_laws_def)
  obtain r where r: "row_id r = sb_id sb" "\<And>t. row_to_sandbox env t r = Ok (floor_times sb)"
    and c: "sql_create_sandbox env sb s = (s\<lparr>q_sandboxes := q_sandboxes s @ [r]\<rparr>, Ok ())"
    by (rule sql_create_ok [OF assms(1) fresh]) blast
  let ?s = "s\<lparr>q_sandboxes := q_sandboxes s @ [r]\<rparr>"
  have get: "sql_get_sandbox env now j t = (case find_row j t of None \<Rightarrow> Err (sql_missing j) | Some x \<Rightarrow> row_to_sandbox env now x)" for j t
    by (simp add: sql_get_sandbox_def fault find_row_def)
  have "\<exists>j. spec_to_json env (sb_spec sb) = Ok j" "\<exists>k. meta_to_json env (sb_vmm_meta sb) = Ok k"
    using assms(1) unfolding sql_laws_def by blast+
  then have "\<exists>m. sql_create_sandbox env sb ?s = (?s, Err (SConflict m))"
    using fault r(1) by (auto simp: sql_create_sandbox_def)
  moreover have "sql_get_sandbox env now (sb_id sb) ?s = Ok (floor_times sb)"
    using fresh r by (simp add: get find_row_append)
  moreover have "sql_get_sandbox env now j ?s = sql_get_sandbox env now j s" if "j \<noteq> sb_id sb" for j
    using that r(1) by (auto simp: get find_row_append split: option.split)
  ultimately show ?thesis using c by blast
qed

text \<open>The stores part ways on the time of readiness. When a sandbox that has run before becomes
  running again, the store in memory replaces the time of readiness and the database keeps
  the first one; a new expiry moves the update time in the database only.\<close>

lemma ready_at_diverges:
  assumes "sql_laws env" and "sb_ready_at sb = Some r0" and "sb_id sb \<notin> row_id ` set (q_sandboxes s)"
    and "hm_get (m_sandboxes m) (sb_id sb) = None"
  shows "map_sum id sb_ready_at (mem_get_sandbox (sb_id sb)
      (fst (mem_update_sandbox_status t (sb_id sb) Running (fst (mem_create_sandbox sb m))))) = Ok (Some t)
    \<and> map_sum id sb_ready_at (sql_get_sandbox env now (sb_id sb)
      (fst (sql_update_sandbox_status env t (sb_id sb) Running (fst (sql_create_sandbox env sb s))))) = Ok (Some (ms_floor r0))
    \<and> map_sum id sb_updated_at (mem_get_sandbox (sb_id sb)
      (fst (mem_update_sandbox_expiry (sb_id sb) e (fst (mem_create_sandbox sb m))))) = Ok (sb_updated_at sb)
    \<and> map_sum id sb_updated_at (sql_get_sandbox env now (sb_id sb)
      (fst (sql_update_sandbox_expiry env t (sb_id sb) e (fst (sql_create_sandbox env sb s))))) = Ok (ms_floor t)"
proof -
  have fresh: "find_row (sb_id sb) s = None" using assms(3) by (simp add: find_row_None)
  have fault: "engine_fault env = None" using assms(1) by (simp add: sql_laws_def)
  have ms: "from_timestamp_millis env (timestamp_millis env x) = Some (ms_floor x)" for x
    using assms(1) by (simp add: sql_laws_def)
  obtain r where r: "row_id r = sb_id sb" "\<And>t. row_to_sandbox env t r = Ok (floor_times sb)"
    and c: "sql_create_sandbox env sb s = (s\<lparr>q_sandboxes := q_sandboxes s @ [r]\<rparr>, Ok ())"
    by (rule sql_create_ok [OF assms(1) fresh]) blast
  have ready: "Option.bind (row_ready_at r) (from_timestamp_millis env) = Some (ms_floor r0)"
    using row_to_sandbox_ready [OF r(2)] assms(2) by (simp add: floor_times_def)
  have upd: "sql_get_sandbox env now (sb_id sb) (fst (sql_update_row env (sb_id sb) f (s\<lparr>q_sandboxes := q_sandboxes s @ [r]\<rparr>)))
      = row_to_sandbox env now (f r)" if "\<And>x. row_id (f x) = row_id x" for f
    using fresh r(1) that
    by (simp add: sql_get_sandbox_def sql_update_row_def fault Let_def find_append find_map_rows
        find_row_def split: option.split)
  have sp: "\<exists>sp. spec_of_json env (row_spec_json r) = Ok sp" "\<exists>m. meta_of_json env (row_vmm_meta_json r) = Ok m"
    "\<exists>st. parse_status (row_status r) = Some st"
    using r(2) [of 0] by (auto simp: row_to_sandbox_def split: sum.splits option.splits)
  have "map_sum id sb_ready_at (sql_get_sandbox env now (sb_id sb)
      (fst (sql_update_sandbox_status env t (sb_id sb) Running (fst (sql_create_sandbox env sb s))))) = Ok (Some (ms_floor r0))"
    using sp ready by (cases "row_ready_at r")
      (auto simp: c sql_update_sandbox_status_def Let_def upd row_to_sandbox_def parse_status_def coalesce_def)
  moreover have "map_sum id sb_updated_at (sql_get_sandbox env now (sb_id sb)
      (fst (sql_update_sandbox_expiry env t (sb_id sb) e (fst (sql_create_sandbox env sb s))))) = Ok (ms_floor t)"
    using sp by (auto simp: c sql_update_sandbox_expiry_def upd row_to_sandbox_def ms)
  ultimately show ?thesis
    using assms(4) by (simp add: mem_create_sandbox_def mem_get_sandbox_def mem_update_sandbox_status_def
        mem_update_sandbox_expiry_def mem_modify_def touch_status_def Let_def)
qed

text \<open>A JSON text that is the value it encodes, and times in milliseconds.\<close>

datatype demo_json =
    JSpec sandbox_spec | JMeta vmm_meta | JExec execution_spec | JNode registered_node

definition demo_sql_env :: "demo_json sql_env" where
  "demo_sql_env = \<lparr>
     spec_to_json = (\<lambda>x. Ok (JSpec x)), spec_of_json = (\<lambda>j. case j of JSpec x \<Rightarrow> Ok x | _ \<Rightarrow> Err ''type''),
     meta_to_json = (\<lambda>x. Ok (JMeta x)), meta_of_json = (\<lambda>j. case j of JMeta x \<Rightarrow> Ok x | _ \<Rightarrow> Err ''type''),
     xspec_to_json = (\<lambda>x. Ok (JExec x)), xspec_of_json = (\<lambda>j. case j of JExec x \<Rightarrow> Ok x | _ \<Rightarrow> Err ''type''),
     node_to_json = (\<lambda>x. Ok (JNode x)), node_of_json = (\<lambda>j. case j of JNode x \<Rightarrow> Ok x | _ \<Rightarrow> Err ''type''),
     node_status_json = (\<lambda>n. case n of NodeReady \<Rightarrow> ''\"ready\"'' | NodeUnreachable \<Rightarrow> ''\"unreachable\"''
                               | NodeDown \<Rightarrow> ''\"down\"'' | NodeDraining \<Rightarrow> ''\"draining\"''),
     timestamp_millis = (\<lambda>t. t div 1000000), from_timestamp_millis = (\<lambda>ms. Some (ms * 1000000)),
     engine_fault = None\<rparr>"

lemma demo_sql_laws: "sql_laws demo_sql_env"
proof -
  have "\<forall>n. node_status_json demo_sql_env n = ''\"ready\"'' \<longleftrightarrow> n = NodeReady"
  proof
    fix n show "node_status_json demo_sql_env n = ''\"ready\"'' \<longleftrightarrow> n = NodeReady"
      by (cases n) (simp_all add: demo_sql_env_def)
  qed
  moreover have "from_timestamp_millis demo_sql_env (timestamp_millis demo_sql_env t) = Some (ms_floor t)" for t
    by (simp add: demo_sql_env_def ms_floor_def minus_mod_eq_div_mult)
  ultimately show ?thesis by (simp add: sql_laws_def demo_sql_env_def)
qed


lemma sqlite_roundtrip_witness:
  "\<exists>s'. sql_create_sandbox demo_sql_env (sandbox_new 1234567 ''a'' default_spec) sql_new = (s', Ok ())
    \<and> sql_get_sandbox demo_sql_env 9 ''a'' s' = Ok (sandbox_new 1000000 ''a'' default_spec)"
proof -
  have "floor_times (sandbox_new 1234567 ''a'' default_spec) = sandbox_new 1000000 ''a'' default_spec"
    by (simp add: floor_times_def sandbox_new_def ms_floor_def)
  then show ?thesis
    using sqlite_roundtrip [OF demo_sql_laws, of "sandbox_new 1234567 ''a'' default_spec" sql_new 9]
    by (auto simp: sql_new_def sandbox_new_def)
qed

lemma ready_at_diverges_witness:
  "let sb = (sandbox_new 1 ''a'' default_spec)\<lparr>sb_ready_at := Some 5000000\<rparr> in
   map_sum id sb_ready_at (mem_get_sandbox ''a''
     (fst (mem_update_sandbox_status 8000000 ''a'' Running (fst (mem_create_sandbox sb mem_new))))) = Ok (Some 8000000)
   \<and> map_sum id sb_ready_at (sql_get_sandbox demo_sql_env 0 ''a''
     (fst (sql_update_sandbox_status demo_sql_env 8000000 ''a'' Running (fst (sql_create_sandbox demo_sql_env sb sql_new)))))
     = Ok (Some 5000000)"
  using ready_at_diverges [OF demo_sql_laws, of "(sandbox_new 1 ''a'' default_spec)\<lparr>sb_ready_at := Some 5000000\<rparr>"
      5000000 sql_new mem_new 8000000 0 None]
  by (simp add: sql_new_def mem_new_def sandbox_new_def Let_def ms_floor_def)

end
