(* ===== verification/Dns_Policy.thy ===== *)
theory Dns_Policy
  imports Prelude
begin

text \<open>
  \<open>crates/clouisle-net/src/dns_proxy.rs\<close>: the proxy that answers the name queries of a sandbox. The
  decision on a name (\<open>is_allowed\<close>) and the handling of a parsed query are modelled; the
  packet format and the upstream resolver belong to the \<open>hickory\<close> crates, so a parsed message
  is an argument and the resolver is the function \<open>lookup_ip\<close>. A call of \<open>allow_ip\<close> opens the
  host firewall for an address: the handler returns the addresses it opens.
\<close>

section \<open>The decision\<close>

record dns_proxy =
  dp_allowed :: "string list"
  dp_sandbox_id :: "string option"

definition proxy_new :: "string list \<Rightarrow> string option \<Rightarrow> dns_proxy" where
  "proxy_new domains sid = \<lparr>dp_allowed = domains, dp_sandbox_id = sid\<rparr>"

definition replace_allowed :: "string list \<Rightarrow> dns_proxy \<Rightarrow> dns_proxy" where
  "replace_allowed domains p = p\<lparr>dp_allowed := domains\<rparr>"

definition entry_core :: "string \<Rightarrow> string" where
  "entry_core entry =
     (let e = trim_end_matches (CHR ''.'') entry
      in case strip_prefix ''*.'' e of Some r \<Rightarrow> r | None \<Rightarrow> e)"

definition normal_domain :: "string \<Rightarrow> string" where
  "normal_domain d = to_ascii_lowercase (trim_end_matches (CHR ''.'') d)"

definition entry_matches :: "string \<Rightarrow> string \<Rightarrow> bool" where
  "entry_matches domain entry \<longleftrightarrow>
     domain = entry_core entry \<or> ends_with (CHR ''.'' # entry_core entry) domain"

definition is_allowed :: "dns_proxy \<Rightarrow> string \<Rightarrow> bool" where
  "is_allowed p d \<longleftrightarrow> list_ex (entry_matches (normal_domain d)) (dp_allowed p)"

section \<open>One query\<close>

datatype record_type = TypeA | TypeAAAA | TypeOther

datatype ip_addr = V4 string | V6 string

datatype response_code = NoError | NXDomain

record dns_message =
  dm_is_query_opcode :: bool
  dm_is_query_type :: bool
  dm_queries :: "(string \<times> record_type) list"

record dns_response =
  dr_code :: response_code
  dr_queries :: "(string \<times> record_type) list"
  dr_answers :: "string list"

definition make_response :: "dns_message \<Rightarrow> response_code \<Rightarrow> dns_response" where
  "make_response req rc = \<lparr>dr_code = rc, dr_queries = dm_queries req, dr_answers = []\<rparr>"

definition allow_ip :: "dns_proxy \<Rightarrow> string \<Rightarrow> string list" where
  "allow_ip p ip = (case dp_sandbox_id p of Some _ \<Rightarrow> [ip] | None \<Rightarrow> [])"

fun v4_of :: "ip_addr \<Rightarrow> string option" where
  "v4_of (V4 a) = Some a"
| "v4_of (V6 a) = None"

fun v6_of :: "ip_addr \<Rightarrow> string option" where
  "v6_of (V4 a) = None"
| "v6_of (V6 a) = Some a"

text \<open>The loop over the addresses: those of the asked family are opened and answered.\<close>

definition answer_with ::
  "dns_proxy \<Rightarrow> (ip_addr \<Rightarrow> string option) \<Rightarrow> ip_addr list option \<Rightarrow> dns_response \<Rightarrow> dns_response \<times> string list" where
  "answer_with p sel found resp =
     (case found of
        None \<Rightarrow> (resp\<lparr>dr_code := NXDomain\<rparr>, [])
      | Some addrs \<Rightarrow>
          (resp\<lparr>dr_answers := dr_answers resp @ List.map_filter sel addrs\<rparr>,
           concat (map (allow_ip p) (List.map_filter sel addrs))))"

definition forward ::
  "(string \<Rightarrow> ip_addr list option) \<Rightarrow> dns_proxy \<Rightarrow> dns_message \<Rightarrow> string \<Rightarrow> record_type
   \<Rightarrow> dns_response \<times> string list" where
  "forward lookup_ip p req domain qtype =
     (let resp = make_response req NoError in
      case qtype of
        TypeA \<Rightarrow> answer_with p v4_of (lookup_ip domain) resp
      | TypeAAAA \<Rightarrow> answer_with p v6_of (lookup_ip domain) resp
      | TypeOther \<Rightarrow> (resp, []))"

text \<open>The response that is sent, if any, and the addresses opened. \<open>None\<close> for a packet that is
  not a query or asks nothing.\<close>

definition handle_query ::
  "(string \<Rightarrow> ip_addr list option) \<Rightarrow> dns_proxy \<Rightarrow> dns_message \<Rightarrow> dns_response option \<times> string list" where
  "handle_query lookup_ip p req =
     (if \<not> dm_is_query_opcode req \<or> \<not> dm_is_query_type req then (None, [])
      else case dm_queries req of
        [] \<Rightarrow> (None, [])
      | (name, qtype) # _ \<Rightarrow>
          (let domain = to_ascii_lowercase name in
           if \<not> is_allowed p domain then (Some (make_response req NXDomain), [])
           else let (resp, opened) = forward lookup_ip p req domain qtype in (Some resp, opened)))"

section \<open>Names as labels\<close>

abbreviation labels :: "string \<Rightarrow> string list" where
  "labels \<equiv> split_on (CHR ''.'')"

lemma split_on_append_sep: "split_on d (s @ d # t) = split_on d s @ split_on d t"
proof (induction s)
  case (Cons c s)
  obtain p ps where "split_on d s = p # ps" using split_on_ne by (meson list.exhaust)
  with Cons show ?case by simp
qed simp

lemma join_with_append:
  "xs \<noteq> [] \<Longrightarrow> ys \<noteq> [] \<Longrightarrow> join_with sep (xs @ ys) = join_with sep xs @ sep @ join_with sep ys"
proof (induction xs rule: induct_list012)
  case (2 x)
  then show ?case by (cases ys) auto
qed auto

lemma suffix_labels_iff:
  "(\<exists>xs. labels d = xs @ labels e) \<longleftrightarrow> d = e \<or> ends_with (CHR ''.'' # e) d"
proof
  assume "\<exists>xs. labels d = xs @ labels e"
  then obtain xs where xs: "labels d = xs @ labels e" by blast
  show "d = e \<or> ends_with (CHR ''.'' # e) d"
  proof (cases "xs = []")
    case True
    then show ?thesis using xs by (metis append_Nil join_split_on)
  next
    case False
    have "d = join_with ''.'' (xs @ labels e)" using xs join_split_on by metis
    then have "d = join_with ''.'' xs @ ''.'' @ e"
      using False by (simp add: join_with_append join_split_on)
    then show ?thesis by (auto simp: ends_with_iff)
  qed
next
  assume "d = e \<or> ends_with (CHR ''.'' # e) d"
  then show "\<exists>xs. labels d = xs @ labels e"
    by (auto simp: ends_with_iff split_on_append_sep)
qed

lemma ascii_lower_not_upper: "\<not> (65 \<le> code (ascii_lower c) \<and> code (ascii_lower c) \<le> 90)"
  by (auto simp: ascii_lower_def code_def)

section \<open>Properties\<close>

text \<open>C36: the allow list works on whole labels: a name is allowed exactly when, for some entry, the
  labels of the entry (without a leading wildcard and trailing dots) are the last labels of
  the lower-cased name. An entry for \<open>example.com\<close> admits its subdomains and nothing that
  merely ends with the same characters.\<close>

theorem allowed_iff_label_suffix:
  "is_allowed p d \<longleftrightarrow> (\<exists>e\<in>set (dp_allowed p). \<exists>xs. labels (normal_domain d) = xs @ labels (entry_core e))"
  unfolding is_allowed_def list_ex_iff entry_matches_def suffix_labels_iff ..

text \<open>An entry with an upper-case letter never admits any name, since names are lower-cased and
  entries are not.\<close>

lemma uppercase_entry_never_matches:
  assumes "c \<in> set (entry_core e)" and "65 \<le> code c" and "code c \<le> 90"
  shows "\<not> is_allowed (proxy_new [e] sid) d"
proof
  assume "is_allowed (proxy_new [e] sid) d"
  then have "normal_domain d = entry_core e \<or> (\<exists>r. normal_domain d = r @ CHR ''.'' # entry_core e)"
    by (simp add: is_allowed_def proxy_new_def entry_matches_def ends_with_iff)
  then have "c \<in> set (normal_domain d)" using assms(1) by auto
  then obtain x where "c = ascii_lower x" by (auto simp: normal_domain_def to_ascii_lowercase_def)
  then show False using ascii_lower_not_upper assms(2,3) by blast
qed

lemma uppercase_entry_never_matches_witness:
  "\<not> is_allowed (proxy_new [''Example.com''] None) ''Example.com''"
  by (rule uppercase_entry_never_matches [of "CHR ''E''"]) code_simp+

text \<open>The firewall is opened only for allowed names: a query opens an address only if its name is
  allowed and the upstream resolver returned the address for it, each opened address is
  among the answers, and a name that is not allowed is answered with \<open>NXDomain\<close> and no
  address.\<close>

lemma query_opens_only_allowed:
  assumes "handle_query lookup_ip p req = (resp, opened)"
  shows "(\<forall>ip\<in>set opened. \<exists>name qtype rest addrs r. dm_queries req = (name, qtype) # rest
            \<and> is_allowed p (to_ascii_lowercase name)
            \<and> lookup_ip (to_ascii_lowercase name) = Some addrs \<and> (V4 ip \<in> set addrs \<or> V6 ip \<in> set addrs)
            \<and> resp = Some r \<and> ip \<in> set (dr_answers r))
    \<and> (\<forall>name qtype rest r. dm_queries req = (name, qtype) # rest \<and> \<not> is_allowed p (to_ascii_lowercase name)
         \<and> resp = Some r \<longrightarrow> dr_code r = NXDomain \<and> dr_answers r = [] \<and> opened = [])"
proof -
  have sel: "V4 ip \<in> set addrs" if "ip \<in> set (List.map_filter v4_of addrs)" for ip addrs
    using that by (induction addrs) (auto simp: map_filter_simps split: option.splits elim: v4_of.elims)
  have sel6: "V6 ip \<in> set addrs" if "ip \<in> set (List.map_filter v6_of addrs)" for ip addrs
    using that by (induction addrs) (auto simp: map_filter_simps split: option.splits elim: v6_of.elims)
  have aw: "\<exists>addrs. found = Some addrs \<and> ip \<in> set (List.map_filter f addrs) \<and> ip \<in> set (dr_answers r)"
    if "answer_with p f found s = (r, ops)" "ip \<in> set ops" for f found s r ops ip
    using that by (auto simp: answer_with_def allow_ip_def split: option.splits)
  show ?thesis
    using assms sel sel6
    by (cases "dm_queries req")
      (auto simp: handle_query_def forward_def make_response_def Let_def
        split: if_splits prod.splits record_type.splits dest!: aw)
qed

lemma query_opens_only_allowed_witness:
  "let p = proxy_new [''a.com''] (Some ''sb''); look = (\<lambda>d. Some [V4 ''1.2.3.4''])
   in dr_code (the (fst (handle_query look p
        \<lparr>dm_is_query_opcode = True, dm_is_query_type = True, dm_queries = [(''bada.com'', TypeA)]\<rparr>))) = NXDomain"
proof -
  let ?p = "proxy_new [''a.com''] (Some ''sb'')" and ?look = "\<lambda>d :: string. Some [V4 ''1.2.3.4'']"
  let ?m = "\<lparr>dm_is_query_opcode = True, dm_is_query_type = True, dm_queries = [(''bada.com'', TypeA)]\<rparr>"
  have no: "\<not> is_allowed ?p (to_ascii_lowercase ''bada.com'')" by code_simp
  have h: "handle_query ?look ?p ?m = (Some (make_response ?m NXDomain), [])"
    using no by (simp add: handle_query_def Let_def)
  show ?thesis using query_opens_only_allowed [OF h] no by (simp add: Let_def h)
qed

end
