(* ===== verification/Firewall.thy ===== *)
theory Firewall
  imports Dns_Policy Core_Types
begin

text \<open>
  \<open>crates/clouisle-net/src/netns.rs\<close>, \<open>nftables.rs\<close> and \<open>firewall.rs\<close>: the network of a sandbox. Every effect
  goes through a system command: \<open>exec\<close> of \<open>net_env\<close> runs one on the state of the host, an
  arbitrary type, and answers with its output, its failure, or that it could not be
  started. The texts of the rule sets are built as the source builds them. \<open>nft_laws\<close> states
  what the manual of \<open>nft\<close> promises about loading, inserting and deleting in terms of the
  rules of a table; the lemmas about verdicts rest on it.
\<close>

section \<open>System commands\<close>

datatype cmd_result = CmdOk string | CmdFailed string | CmdNotStarted string

record 'w net_env =
  sha256 :: "byte list \<Rightarrow> byte list"
  hex_encode :: "byte list \<Rightarrow> string"
  exec :: "string list \<Rightarrow> string \<Rightarrow> 'w \<Rightarrow> 'w \<times> cmd_result"

abbreviation network_error :: "string \<Rightarrow> clouisle_error" where
  "network_error m \<equiv> new_error EkNetwork m"

definition run :: "'w net_env \<Rightarrow> string \<Rightarrow> string list \<Rightarrow> 'w \<Rightarrow> 'w \<times> (string, clouisle_error) result" where
  "run env cmd args w =
     (case exec env (cmd # args) [] w of
        (w', CmdOk out) \<Rightarrow> (w', Ok out)
      | (w', CmdFailed err) \<Rightarrow> (w', Err (network_error (cmd @ '' '' @ join_with '' '' args @ '' failed: '' @ err)))
      | (w', CmdNotStarted err) \<Rightarrow> (w', Err (io_error (''run '' @ cmd @ '': '' @ err))))"

definition run_in_ns :: "'w net_env \<Rightarrow> string \<Rightarrow> string list \<Rightarrow> 'w \<Rightarrow> 'w \<times> (string, clouisle_error) result" where
  "run_in_ns env ns args = run env ''ip'' ([''netns'', ''exec'', ns, ''ip''] @ args)"

definition run_sysctl_in_ns :: "'w net_env \<Rightarrow> string \<Rightarrow> string list \<Rightarrow> 'w \<Rightarrow> 'w \<times> (string, clouisle_error) result" where
  "run_sysctl_in_ns env ns args = run env ''ip'' ([''netns'', ''exec'', ns, ''sysctl''] @ args)"

definition run_nft_in_ns :: "'w net_env \<Rightarrow> string \<Rightarrow> string list \<Rightarrow> 'w \<Rightarrow> 'w \<times> (string, clouisle_error) result" where
  "run_nft_in_ns env ns args = run env ''ip'' ([''netns'', ''exec'', ns, ''nft''] @ args)"

definition run_tc_in_ns :: "'w net_env \<Rightarrow> string \<Rightarrow> string list \<Rightarrow> 'w \<Rightarrow> 'w \<times> (string, clouisle_error) result" where
  "run_tc_in_ns env ns args = run env ''ip'' ([''netns'', ''exec'', ns, ''tc''] @ args)"

text \<open>Commands in sequence, each with the \<open>?\<close> operator.\<close>

fun run_seq ::
  "('w \<Rightarrow> 'w \<times> (string, clouisle_error) result) list \<Rightarrow> 'w \<Rightarrow> 'w \<times> (unit, clouisle_error) result" where
  "run_seq [] w = (w, Ok ())"
| "run_seq (c # cs) w = (case c w of (w', Ok _) \<Rightarrow> run_seq cs w' | (w', Err e) \<Rightarrow> (w', Err e))"

section \<open>Names and subnets\<close>

definition short_name :: "'w net_env \<Rightarrow> string \<Rightarrow> string \<Rightarrow> string" where
  "short_name env sid prefix = prefix @ take 8 (hex_encode env (sha256 env (as_bytes sid)))"

definition ns_name :: "'w net_env \<Rightarrow> string \<Rightarrow> string" where
  "ns_name env sid = ''clo-'' @ short_name env sid []"

definition sandbox_subnet :: "'w net_env \<Rightarrow> string \<Rightarrow> u16 \<times> u16" where
  "sandbox_subnet env sid =
     (let d = sha256 env (as_bytes sid)
      in (10 + ucast (d ! 0) mod 200, 10 + ucast (d ! 1) mod 200))"

record net_info =
  nf_ns_name :: string
  nf_veth_host :: string
  nf_veth_ns :: string
  nf_subnet :: string
  nf_gateway :: string
  nf_guest_ip :: string

definition subnet_prefix :: "u16 \<times> u16 \<Rightarrow> string" where
  "subnet_prefix ab = ''10.'' @ show_nat (unat (fst ab)) @ ''.'' @ show_nat (unat (snd ab))"

definition create_netns_in_subnet ::
  "'w net_env \<Rightarrow> string \<Rightarrow> (u16 \<times> u16) option \<Rightarrow> 'w \<Rightarrow> 'w \<times> (net_info, clouisle_error) result" where
  "create_netns_in_subnet env sid explicit w =
     (let ab = (case explicit of Some x \<Rightarrow> x | None \<Rightarrow> sandbox_subnet env sid);
          ns = ns_name env sid; vh = short_name env sid ''vh''; vn = short_name env sid ''vn'';
          info = \<lparr>nf_ns_name = ns, nf_veth_host = vh, nf_veth_ns = vn,
                  nf_subnet = subnet_prefix ab @ ''.0/30'', nf_gateway = subnet_prefix ab @ ''.1'',
                  nf_guest_ip = subnet_prefix ab @ ''.2''\<rparr>
      in case run_seq [
           run env ''ip'' [''netns'', ''add'', ns],
           run env ''ip'' [''link'', ''add'', vh, ''type'', ''veth'', ''peer'', ''name'', vn],
           run env ''ip'' [''link'', ''set'', vn, ''netns'', ns],
           run_in_ns env ns [''link'', ''add'', ''br0'', ''type'', ''bridge''],
           run_in_ns env ns [''link'', ''set'', vn, ''master'', ''br0''],
           run_in_ns env ns [''link'', ''set'', vn, ''up''],
           run_in_ns env ns [''addr'', ''add'', nf_gateway info @ ''/30'', ''dev'', ''br0''],
           run_in_ns env ns [''link'', ''set'', ''br0'', ''up''],
           run_sysctl_in_ns env ns [''-w'', ''net.ipv4.ip_forward=1''],
           run env ''ip'' [''addr'', ''add'', nf_gateway info @ ''/30'', ''dev'', vh],
           run env ''ip'' [''link'', ''set'', vh, ''up''],
           run env ''ip'' [''route'', ''replace'', nf_subnet info, ''dev'', vh]] w of
           (w', Ok _) \<Rightarrow> (w', Ok info)
         | (w', Err e) \<Rightarrow> (w', Err e))"

definition create_netns :: "'w net_env \<Rightarrow> string \<Rightarrow> 'w \<Rightarrow> 'w \<times> (net_info, clouisle_error) result" where
  "create_netns env sid = create_netns_in_subnet env sid None"

text \<open>At most thirty attempts; the pauses between them are not modelled.\<close>

fun attach_loop :: "'w net_env \<Rightarrow> string \<Rightarrow> nat \<Rightarrow> 'w \<Rightarrow> 'w \<times> (unit, clouisle_error) result" where
  "attach_loop env ns 0 w =
     (w, Err (io_error (''tap0 did not appear in netns '' @ ns @ '' after Firecracker start'')))"
| "attach_loop env ns (Suc n) w =
     (case run_in_ns env ns [''link'', ''show'', ''tap0''] w of
        (w', Ok _) \<Rightarrow> run_seq [run_in_ns env ns [''link'', ''set'', ''tap0'', ''master'', ''br0''],
                              run_in_ns env ns [''link'', ''set'', ''tap0'', ''up'']] w'
      | (w', Err _) \<Rightarrow> attach_loop env ns n w')"

definition attach_tap :: "'w net_env \<Rightarrow> string \<Rightarrow> 'w \<Rightarrow> 'w \<times> (unit, clouisle_error) result" where
  "attach_tap env sid = attach_loop env (ns_name env sid) 30"

definition delete_netns :: "'w net_env \<Rightarrow> string \<Rightarrow> (u16 \<times> u16) option \<Rightarrow> 'w \<Rightarrow> 'w" where
  "delete_netns env sid explicit w =
     (let ab = (case explicit of Some x \<Rightarrow> x | None \<Rightarrow> sandbox_subnet env sid);
          vh = short_name env sid ''vh'';
          w1 = fst (run env ''ip'' [''route'', ''del'', subnet_prefix ab @ ''.0/30'', ''dev'', vh] w);
          w2 = fst (run env ''ip'' [''netns'', ''del'', ns_name env sid] w1)
      in fst (run env ''ip'' [''link'', ''del'', vh] w2))"

definition saturating_mul :: "u32 \<Rightarrow> u32 \<Rightarrow> u32" where
  "saturating_mul a b = (if unat a * unat b < 2 ^ 32 then a * b else - 1)"

definition apply_bandwidth_limit ::
  "'w net_env \<Rightarrow> string \<Rightarrow> u32 option \<Rightarrow> 'w \<Rightarrow> 'w \<times> (unit, clouisle_error) result" where
  "apply_bandwidth_limit env sid mbps w =
     (case mbps of
        None \<Rightarrow> (w, Ok ())
      | Some rate \<Rightarrow>
          if rate = 0 then (w, Ok ())
          else
            (let ns = ns_name env sid; vn = short_name env sid ''vn'';
                 w1 = fst (run_tc_in_ns env ns [''qdisc'', ''del'', ''dev'', vn, ''root''] w);
                 burst = max 32 (saturating_mul rate 8)
             in run_seq [run_tc_in_ns env ns [''qdisc'', ''add'', ''dev'', vn, ''root'', ''handle'', ''1:'', ''tbf'',
                  ''rate'', show_nat (unat rate) @ ''mbit'', ''burst'', show_nat (unat burst) @ ''kbit'',
                  ''latency'', ''50ms'']] w1))"

definition guest_ip :: "'w net_env \<Rightarrow> string \<Rightarrow> string" where
  "guest_ip env sid = subnet_prefix (sandbox_subnet env sid) @ ''.2''"

definition gateway_ip :: "'w net_env \<Rightarrow> string \<Rightarrow> string" where
  "gateway_ip env sid = subnet_prefix (sandbox_subnet env sid) @ ''.1''"

definition subnet_of :: "'w net_env \<Rightarrow> string \<Rightarrow> string" where
  "subnet_of env sid = subnet_prefix (sandbox_subnet env sid) @ ''.0/30''"

subsection \<open>The sequential allocator\<close>

definition allocator_new :: "u16 \<times> u16" where
  "allocator_new = (10, 10)"

definition allocate :: "u16 \<times> u16 \<Rightarrow> (u16 \<times> u16) \<times> (u16 \<times> u16)" where
  "allocate next =
     (let (a, b) = next; b1 = b + 1;
          (a2, b2) = (if 200 < b1 then (a + 1, 10) else (a, b1));
          a3 = (if 200 < a2 then 10 else a2)
      in ((a3, b2), next))"

fun allocate_many :: "nat \<Rightarrow> u16 \<times> u16 \<Rightarrow> (u16 \<times> u16) list" where
  "allocate_many 0 s = []"
| "allocate_many (Suc n) s = (let (s', r) = allocate s in r # allocate_many n s')"

section \<open>Rule sets\<close>

definition valid_octet :: "string \<Rightarrow> bool" where
  "valid_octet p \<longleftrightarrow> p \<noteq> [] \<and> length p \<le> 3 \<and> list_all is_ascii_digit p
     \<and> (hd p = CHR ''0'' \<longrightarrow> p = ''0'') \<and> digits_value p \<le> 255"

text \<open>\<open>Ipv4Addr::from_str\<close>: four decimal numbers of at most three digits without leading zeros.\<close>

definition is_ipv4_addr :: "string \<Rightarrow> bool" where
  "is_ipv4_addr s \<longleftrightarrow> length (split_on (CHR ''.'') s) = 4 \<and> list_all valid_octet (split_on (CHR ''.'') s)"

definition is_valid_ipv4_cidr :: "string \<Rightarrow> bool" where
  "is_valid_ipv4_cidr rule =
     (let (address, prefix) = (case split_once (CHR ''/'') rule of Some (a, p) \<Rightarrow> (a, Some p) | None \<Rightarrow> (rule, None))
      in if \<not> is_ipv4_addr address then False
         else case prefix of None \<Rightarrow> True
           | Some v \<Rightarrow> (case parse_uint 255 v of Some bits \<Rightarrow> bits \<le> 32 | None \<Rightarrow> False))"

datatype egress_match = Daddr string | Established | AnyDst

datatype verdict = Accept | Drop

fun match_text :: "egress_match \<Rightarrow> string" where
  "match_text (Daddr d) = '' ip daddr '' @ d"
| "match_text Established = '' ct state established,related''"
| "match_text AnyDst = []"

fun verdict_text :: "verdict \<Rightarrow> string" where
  "verdict_text Accept = ''accept''"
| "verdict_text Drop = ''drop''"

abbreviation nl :: string where
  "nl \<equiv> [CHR 0x0A]"

definition rule_line :: "string \<Rightarrow> egress_match \<times> verdict \<Rightarrow> string" where
  "rule_line veth r = ''        iifname \"'' @ veth @ ''\"'' @ match_text (fst r) @ '' '' @ verdict_text (snd r) @ nl"

definition egress_rules :: "string list \<Rightarrow> string list \<Rightarrow> (egress_match \<times> verdict) list" where
  "egress_rules allow deny =
     [(Daddr ''10.0.0.0/8'', Accept), (Daddr ''127.0.0.0/8'', Accept), (Established, Accept)]
     @ map (\<lambda>d. (Daddr d, Drop)) deny @ map (\<lambda>d. (Daddr d, Accept)) allow @ [(AnyDst, Drop)]"

definition host_ruleset :: "string \<Rightarrow> string \<Rightarrow> (egress_match \<times> verdict) list \<Rightarrow> string" where
  "host_ruleset table veth rules =
     nl @ ''table ip '' @ table @ '' {'' @ nl @ ''    chain egress {'' @ nl
     @ ''        type filter hook forward priority -1; policy accept;'' @ nl
     @ concat (map (rule_line veth) rules) @ ''    }'' @ nl @ ''}'' @ nl"

definition host_table_name :: "'w net_env \<Rightarrow> string \<Rightarrow> string" where
  "host_table_name env sid = ''clo_'' @ short_name env sid []"

definition setup_host_egress_with_policy ::
  "'w net_env \<Rightarrow> string \<Rightarrow> string list \<Rightarrow> string list \<Rightarrow> 'w \<Rightarrow> 'w \<times> (unit, clouisle_error) result" where
  "setup_host_egress_with_policy env sid allow deny w =
     (case find (\<lambda>r. \<not> is_valid_ipv4_cidr r) deny of
        Some r \<Rightarrow> (w, Err (validation_error (''deny egress rule is not a valid IPv4 address or CIDR: '' @ r)))
      | None \<Rightarrow>
          (let text = host_ruleset (host_table_name env sid) (short_name env sid ''vh'')
                 (egress_rules (filter is_valid_ipv4_cidr allow) deny)
           in case exec env [''nft'', ''-f'', ''-''] text w of
                (w', CmdOk _) \<Rightarrow> (w', Ok ())
              | (w', CmdFailed err) \<Rightarrow> (w', Err (network_error (''host nft ruleset apply failed: '' @ err)))
              | (w', CmdNotStarted err) \<Rightarrow> (w', Err (io_error (''spawn host nft: '' @ err)))))"

definition setup_host_egress_with_deny ::
  "'w net_env \<Rightarrow> string \<Rightarrow> string list \<Rightarrow> 'w \<Rightarrow> 'w \<times> (unit, clouisle_error) result" where
  "setup_host_egress_with_deny env sid deny = setup_host_egress_with_policy env sid [] deny"

definition setup_host_egress :: "'w net_env \<Rightarrow> string \<Rightarrow> 'w \<Rightarrow> 'w \<times> (unit, clouisle_error) result" where
  "setup_host_egress env sid = setup_host_egress_with_policy env sid [] []"

definition allow_ip_host :: "'w net_env \<Rightarrow> string \<Rightarrow> string \<Rightarrow> 'w \<Rightarrow> 'w \<times> (unit, clouisle_error) result" where
  "allow_ip_host env sid ip w =
     (case exec env [''nft'', ''insert'', ''rule'', ''ip'', host_table_name env sid, ''egress'', ''iifname'',
          short_name env sid ''vh'', ''ip'', ''daddr'', ip, ''accept''] [] w of
        (w', CmdOk _) \<Rightarrow> (w', Ok ())
      | (w', CmdFailed _) \<Rightarrow> (w', Err (network_error (''host nft allow '' @ ip @ '' failed'')))
      | (w', CmdNotStarted e) \<Rightarrow> (w', Err (io_error (''spawn host nft allow '' @ ip @ '': '' @ e))))"

definition teardown_host_egress :: "'w net_env \<Rightarrow> string \<Rightarrow> 'w \<Rightarrow> 'w \<times> (unit, clouisle_error) result" where
  "teardown_host_egress env sid w =
     (case exec env [''nft'', ''delete'', ''table'', ''ip'', host_table_name env sid] [] w of
        (w', CmdNotStarted e) \<Rightarrow>
          (w', Err (io_error (''delete host nft table '' @ host_table_name env sid @ '': '' @ e)))
      | (w', _) \<Rightarrow> (w', Ok ()))"

definition ns_ruleset :: "string \<Rightarrow> string" where
  "ns_ruleset veth_ns = concat (map (\<lambda>l. l @ nl) [
     [], ''table ip filter {'', ''    chain forward {'',
     ''        type filter hook forward priority 0; policy drop;'',
     ''        ip daddr 10.0.0.0/8 accept'', ''        ip daddr 127.0.0.0/8 accept'',
     ''        tcp dport 5201 accept'', ''        udp dport 53 accept'',
     ''        ct state established,related accept'', ''        counter drop'', ''    }'',
     ''    chain input {'', ''        type filter hook input priority 0; policy drop;'',
     ''        iif \"lo\" accept'', ''        iif \"br0\" accept'', ''        iif \"tap0\" udp dport 53 accept'',
     ''        udp dport 53 accept'', ''        ct state established,related accept'', ''    }'',
     ''    chain postrouting {'', ''        type nat hook postrouting priority 100; policy accept;'',
     ''        oif \"br0\" masquerade'', ''        oif \"'' @ veth_ns @ ''\" masquerade'', ''    }'', ''}''])"

definition setup_ruleset :: "'w net_env \<Rightarrow> string \<Rightarrow> string \<Rightarrow> 'w \<Rightarrow> 'w \<times> (unit, clouisle_error) result" where
  "setup_ruleset env ns veth_ns w =
     (case exec env [''ip'', ''netns'', ''exec'', ns, ''nft'', ''-f'', ''-''] (ns_ruleset veth_ns) w of
        (w', CmdOk _) \<Rightarrow> (w', Ok ())
      | (w', CmdFailed err) \<Rightarrow> (w', Err (network_error (''nft ruleset apply in ns '' @ ns @ '' failed: '' @ err)))
      | (w', CmdNotStarted e) \<Rightarrow> (w', Err (io_error (''spawn nft in ns: '' @ e))))"

definition ns_allow_ip :: "'w net_env \<Rightarrow> string \<Rightarrow> string \<Rightarrow> 'w \<Rightarrow> 'w \<times> (string, clouisle_error) result" where
  "ns_allow_ip env ns ip = run_nft_in_ns env ns
     [''add'', ''rule'', ''ip'', ''filter'', ''forward'', ''iif'', ''tap0'', ''ip'', ''daddr'', ip, ''accept'']"

definition teardown_ruleset :: "'w net_env \<Rightarrow> string \<Rightarrow> 'w \<Rightarrow> 'w" where
  "teardown_ruleset env ns w = fst (run_nft_in_ns env ns [''delete'', ''table'', ''ip'', ''filter''] w)"

section \<open>The manager\<close>

record dns_handle =
  dh_proxy :: dns_proxy
  dh_addr :: string

record firewall =
  fw_nets :: "(string, unit) hashmap"
  fw_dns :: "(string, dns_handle) hashmap"

definition firewall_new :: firewall where
  "firewall_new = \<lparr>fw_nets = [], fw_dns = []\<rparr>"

definition create_network_in_subnet ::
  "'w net_env \<Rightarrow> string \<Rightarrow> (u16 \<times> u16) option \<Rightarrow> 'w \<Rightarrow> 'w \<times> (string \<times> string \<times> string, clouisle_error) result" where
  "create_network_in_subnet env sid subnet w =
     (case create_netns_in_subnet env sid subnet w of
        (w', Ok info) \<Rightarrow> (w', Ok (nf_ns_name info, nf_veth_ns info, nf_guest_ip info))
      | (w', Err e) \<Rightarrow> (w', Err e))"

definition setup_sandbox_network ::
  "'w net_env \<Rightarrow> string \<Rightarrow> string \<Rightarrow> string list \<Rightarrow> string list \<Rightarrow> u32 option \<Rightarrow> firewall \<Rightarrow> 'w
   \<Rightarrow> firewall \<times> 'w \<times> (unit, clouisle_error) result" where
  "setup_sandbox_network env sid veth_host_ip allow deny bandwidth fw w =
     (let ns = ns_name env sid; vn = short_name env sid ''vn'' in
      case attach_tap env sid w of (w1, Err e) \<Rightarrow> (fw, w1, Err e) | (w1, Ok _) \<Rightarrow>
      (case setup_ruleset env ns vn w1 of (w2, Err e) \<Rightarrow> (fw, w2, Err e) | (w2, Ok _) \<Rightarrow>
      (case setup_host_egress_with_policy env sid allow deny w2 of (w3, Err e) \<Rightarrow> (fw, w3, Err e) | (w3, Ok _) \<Rightarrow>
      (case apply_bandwidth_limit env sid bandwidth w3 of (w4, Err e) \<Rightarrow> (fw, w4, Err e) | (w4, Ok _) \<Rightarrow>
         (let addr = (case split_once (CHR ''/'') veth_host_ip of Some (a, _) \<Rightarrow> a | None \<Rightarrow> veth_host_ip);
              h = \<lparr>dh_proxy = proxy_new allow (Some sid), dh_addr = addr\<rparr>
          in (fw\<lparr>fw_dns := hm_insert sid h (fw_dns fw), fw_nets := hm_insert sid () (fw_nets fw)\<rparr>, w4, Ok ()))))))"

definition update_sandbox_network ::
  "'w net_env \<Rightarrow> string \<Rightarrow> bool \<Rightarrow> string list \<Rightarrow> string list \<Rightarrow> firewall \<Rightarrow> 'w
   \<Rightarrow> firewall \<times> 'w \<times> (unit, clouisle_error) result" where
  "update_sandbox_network env sid enabled allow deny fw w =
     (case hm_get (fw_dns fw) sid of
        None \<Rightarrow> (fw, w, Err (invalid_state (''sandbox network '' @ sid @ '' is not active'')))
      | Some h \<Rightarrow>
          (let h' = h\<lparr>dh_proxy := replace_allowed (if enabled then allow else []) (dh_proxy h)\<rparr>;
               fw' = fw\<lparr>fw_dns := hm_insert sid h' (fw_dns fw)\<rparr>
           in case teardown_host_egress env sid w of
                (w1, Err e) \<Rightarrow> (fw', w1, Err e)
              | (w1, Ok _) \<Rightarrow>
                  (case setup_host_egress_with_policy env sid (if enabled then allow else [])
                          (if enabled then deny else [''0.0.0.0/0'']) w1 of
                     (w2, r) \<Rightarrow> (fw', w2, r))))"

definition teardown_sandbox_network ::
  "'w net_env \<Rightarrow> string \<Rightarrow> (u16 \<times> u16) option \<Rightarrow> firewall \<Rightarrow> 'w \<Rightarrow> firewall \<times> 'w" where
  "teardown_sandbox_network env sid subnet fw w =
     (let w1 = teardown_ruleset env (ns_name env sid) w;
          w2 = fst (teardown_host_egress env sid w1);
          w3 = delete_netns env sid subnet w2
      in (fw\<lparr>fw_dns := hm_remove sid (fw_dns fw), fw_nets := hm_remove sid (fw_nets fw)\<rparr>, w3))"

definition firewall_allow_ip ::
  "'w net_env \<Rightarrow> string \<Rightarrow> string \<Rightarrow> 'w \<Rightarrow> 'w \<times> (string, clouisle_error) result" where
  "firewall_allow_ip env sid ip = ns_allow_ip env (ns_name env sid) ip"

definition firewall_dns_proxy :: "firewall \<Rightarrow> string \<Rightarrow> dns_proxy option" where
  "firewall_dns_proxy fw sid = map_option dh_proxy (hm_get (fw_dns fw) sid)"

section \<open>What a rule set means\<close>

text \<open>A reader of the host rule set: the table it names and the rules of its chain. It is the
  meaning of the text in the syntax of \<open>nft\<close>, restricted to what the host rule set uses.\<close>

fun parse_verdict :: "string \<Rightarrow> verdict option" where
  "parse_verdict s = (if s = ''accept'' then Some Accept else if s = ''drop'' then Some Drop else None)"

definition parse_match :: "string \<Rightarrow> (egress_match \<times> verdict) option" where
  "parse_match rest =
     (case strip_prefix '' ip daddr '' rest of
        Some r \<Rightarrow> (case split_once (CHR '' '') r of
                     Some (d, v) \<Rightarrow> map_option (Pair (Daddr d)) (parse_verdict v) | None \<Rightarrow> None)
      | None \<Rightarrow>
     (case strip_prefix '' ct state established,related '' rest of
        Some v \<Rightarrow> map_option (Pair Established) (parse_verdict v)
      | None \<Rightarrow>
     (case strip_prefix '' '' rest of
        Some v \<Rightarrow> map_option (Pair AnyDst) (parse_verdict v)
      | None \<Rightarrow> None)))"

definition parse_rule :: "string \<Rightarrow> (egress_match \<times> verdict) option" where
  "parse_rule l =
     (case strip_prefix ''        iifname \"'' l of
        None \<Rightarrow> None
      | Some r \<Rightarrow> (case split_once (CHR 0x22) r of None \<Rightarrow> None | Some (_, rest) \<Rightarrow> parse_match rest))"

fun parse_rules :: "string list \<Rightarrow> (egress_match \<times> verdict) list option" where
  "parse_rules [] = None"
| "parse_rules (l # ls) =
     (if l = ''    }'' then if ls = [''}'', []] then Some [] else None
      else case parse_rule l of None \<Rightarrow> None
        | Some r \<Rightarrow> (case parse_rules ls of None \<Rightarrow> None | Some rs \<Rightarrow> Some (r # rs)))"

definition parse_ruleset :: "string \<Rightarrow> (string \<times> (egress_match \<times> verdict) list) option" where
  "parse_ruleset text =
     (case split_on (CHR 0x0A) text of
        l0 # l1 # l2 # l3 # ls \<Rightarrow>
          if l0 = [] \<and> l2 = ''    chain egress {''
             \<and> l3 = ''        type filter hook forward priority -1; policy accept;''
          then case strip_prefix ''table ip '' l1 of
              Some r \<Rightarrow> (case split_once (CHR '' '') r of
                  Some (t, brace) \<Rightarrow> if brace = ''{'' then map_option (Pair t) (parse_rules ls) else None
                | None \<Rightarrow> None)
            | None \<Rightarrow> None
          else None
      | _ \<Rightarrow> None)"

text \<open>The first matching rule decides; the policy of the chain is to accept.\<close>

fun egress_verdict :: "(string \<Rightarrow> 'a \<Rightarrow> bool) \<Rightarrow> bool \<Rightarrow> 'a \<Rightarrow> (egress_match \<times> verdict) list \<Rightarrow> verdict" where
  "egress_verdict inside est a [] = Accept"
| "egress_verdict inside est a ((m, v) # rs) =
     (if (case m of Daddr d \<Rightarrow> inside d a | Established \<Rightarrow> est | AnyDst \<Rightarrow> True) then v
      else egress_verdict inside est a rs)"

lemma egress_verdict_append:
  "egress_verdict inside est a (xs @ ys) =
     (if \<exists>(m, v)\<in>set xs. (case m of Daddr d \<Rightarrow> inside d a | Established \<Rightarrow> est | AnyDst \<Rightarrow> True)
      then egress_verdict inside est a xs else egress_verdict inside est a ys)"
  by (induction xs) auto

lemma egress_verdict_const:
  "egress_verdict inside est a (map (\<lambda>d. (Daddr d, v)) ds) = (if \<exists>d\<in>set ds. inside d a then v else Accept)"
  by (induction ds) auto

lemma egress_rules_verdict:
  "egress_verdict inside est a (egress_rules allow deny) =
     (if inside ''10.0.0.0/8'' a \<or> inside ''127.0.0.0/8'' a \<or> est then Accept
      else if \<exists>d\<in>set deny. inside d a then Drop
      else if \<exists>d\<in>set allow. inside d a then Accept else Drop)"
  unfolding egress_rules_def egress_verdict_append
  by (auto simp: egress_verdict_const split: if_splits)

subsection \<open>Entries that pass validation cannot forge rules\<close>

definition cidr_char :: "char \<Rightarrow> bool" where
  "cidr_char c \<longleftrightarrow> is_ascii_digit c \<or> c = CHR ''.'' \<or> c = CHR ''/'' \<or> c = CHR ''+''"

lemma set_join_with:
  "c \<in> set (join_with [d] ps) \<Longrightarrow> c = d \<or> (\<exists>p\<in>set ps. c \<in> set p)"
  by (induction ps rule: induct_list012) auto

lemma ipv4_chars: "is_ipv4_addr s \<Longrightarrow> c \<in> set s \<Longrightarrow> is_ascii_digit c \<or> c = CHR ''.''"
proof -
  assume v: "is_ipv4_addr s" and "c \<in> set s"
  then have "c \<in> set (join_with ''.'' (split_on (CHR ''.'') s))" by (simp add: join_split_on)
  then consider "c = CHR ''.''" | p where "p \<in> set (split_on (CHR ''.'') s)" "c \<in> set p"
    using set_join_with by blast
  then show ?thesis
  proof cases
    case 2
    then show ?thesis using v by (auto simp: is_ipv4_addr_def valid_octet_def list_all_iff)
  qed simp
qed

lemma parse_uint_chars: "parse_uint mx v = Some n \<Longrightarrow> c \<in> set v \<Longrightarrow> is_ascii_digit c \<or> c = CHR ''+''"
  by (auto simp: parse_uint_def parse_digits_def list_all_iff split: list.splits if_splits)

lemma cidr_chars:
  assumes "is_valid_ipv4_cidr r"
  shows "list_all cidr_char r"
proof (cases "split_once (CHR ''/'') r")
  case None
  then have "is_ipv4_addr r" using assms by (simp add: is_valid_ipv4_cidr_def split: if_splits)
  then show ?thesis using ipv4_chars by (auto simp: list_all_iff cidr_char_def)
next
  case (Some ap)
  obtain a p where ap: "ap = (a, p)" by (cases ap)
  have r: "r = a @ CHR ''/'' # p" using split_once_SomeD(1) Some ap by simp
  have "is_ipv4_addr a" and "\<exists>n. parse_uint 255 p = Some n"
    using assms Some ap by (auto simp: is_valid_ipv4_cidr_def split: if_splits option.splits)
  then show ?thesis
    using ipv4_chars [of a] parse_uint_chars [of 255 p] by (auto simp: list_all_iff cidr_char_def r)
qed

lemma cidr_char_not: "\<not> cidr_char (CHR '' '')" "\<not> cidr_char (CHR 0x0A)" "\<not> cidr_char (CHR 0x22)"
  by (simp_all add: cidr_char_def is_ascii_digit_def code_def)

definition plain_rule :: "egress_match \<times> verdict \<Rightarrow> bool" where
  "plain_rule r \<longleftrightarrow> (case fst r of Daddr d \<Rightarrow> list_all cidr_char d | _ \<Rightarrow> True)"

lemma strip_prefix_append [simp]: "strip_prefix p (p @ r) = Some r"
  by (simp add: strip_prefix_Some_iff)

lemma parse_verdict_text [simp]: "parse_verdict (verdict_text v) = Some v"
  by (cases v) simp_all

declare parse_verdict.simps [simp del]

lemma parse_match_text:
  "plain_rule (m, v) \<Longrightarrow> parse_match (match_text m @ '' '' @ verdict_text v) = Some (m, v)"
proof (cases m)
  case (Daddr d)
  assume "plain_rule (m, v)"
  then have "CHR '' '' \<notin> set d" using Daddr cidr_char_not(1) by (auto simp: plain_rule_def list_all_iff)
  from split_once_append [OF this, of "verdict_text v"]
  show ?thesis using Daddr strip_prefix_append [of "'' ip daddr ''" "d @ '' '' @ verdict_text v"]
    by (simp add: parse_match_def)
next
  case Established
  then show ?thesis
    by (cases v) (simp_all add: parse_match_def strip_prefix_def starts_with_def parse_verdict.simps)
next
  case AnyDst
  then show ?thesis
    by (cases v) (simp_all add: parse_match_def strip_prefix_def starts_with_def parse_verdict.simps)
qed

definition rule_body :: "string \<Rightarrow> egress_match \<times> verdict \<Rightarrow> string" where
  "rule_body veth r = ''        iifname \"'' @ veth @ ''\"'' @ match_text (fst r) @ '' '' @ verdict_text (snd r)"

lemma parse_rule_line:
  assumes "plain_rule r" and "CHR 0x22 \<notin> set veth"
  shows "parse_rule (rule_body veth r) = Some r"
proof -
  have "split_once (CHR 0x22) (veth @ CHR 0x22 # match_text (fst r) @ '' '' @ verdict_text (snd r))
      = Some (veth, match_text (fst r) @ '' '' @ verdict_text (snd r))"
    by (rule split_once_append [OF assms(2)])
  then show ?thesis
    using parse_match_text [of "fst r" "snd r"] assms(1)
      strip_prefix_append [of "''        iifname \"''" "veth @ CHR 0x22 # match_text (fst r) @ '' '' @ verdict_text (snd r)"]
    by (simp add: parse_rule_def rule_body_def)
qed

lemma rule_line_body: "rule_line veth r = rule_body veth r @ nl"
  by (simp add: rule_line_def rule_body_def)

lemma rule_body_no_nl:
  assumes "plain_rule r" and "CHR 0x0A \<notin> set veth"
  shows "CHR 0x0A \<notin> set (rule_body veth r)"
proof -
  have "CHR 0x0A \<notin> set (match_text (fst r))"
    using assms(1) cidr_char_not(2) by (cases "fst r") (auto simp: plain_rule_def list_all_iff)
  moreover have "CHR 0x0A \<notin> set (verdict_text (snd r))" by (cases "snd r") simp_all
  ultimately show ?thesis using assms(2) by (simp add: rule_body_def)
qed

lemma rule_body_not_end: "rule_body veth r \<noteq> ''    }''"
  by (simp add: rule_body_def)

lemma parse_rules_text:
  assumes "list_all plain_rule rs" and "CHR 0x0A \<notin> set veth" and "CHR 0x22 \<notin> set veth"
  shows "parse_rules (split_on (CHR 0x0A) (concat (map (rule_line veth) rs) @ ''    }'' @ nl @ ''}'' @ nl)) = Some rs"
  using assms(1)
proof (induction rs)
  case Nil
  show ?case by simp
next
  case (Cons r rs)
  let ?rest = "concat (map (rule_line veth) rs) @ ''    }'' @ nl @ ''}'' @ nl"
  have "split_on (CHR 0x0A) (rule_body veth r @ CHR 0x0A # ?rest) = rule_body veth r # split_on (CHR 0x0A) ?rest"
    using Cons.prems by (intro split_on_append rule_body_no_nl assms(2)) simp
  moreover have "parse_rule (rule_body veth r) = Some r"
    using Cons.prems assms(3) by (intro parse_rule_line) simp_all
  moreover have "concat (map (rule_line veth) (r # rs)) @ ''    }'' @ nl @ ''}'' @ nl = rule_body veth r @ CHR 0x0A # ?rest"
    by (simp add: rule_line_body [of veth r])
  moreover have "parse_rules (split_on (CHR 0x0A) ?rest) = Some rs" using Cons by simp
  ultimately show ?case
    using rule_body_not_end [of veth r] by (simp only: parse_rules.simps if_False option.case)
qed

lemma parse_host_ruleset:
  assumes "list_all plain_rule rs" and "CHR 0x0A \<notin> set veth" and "CHR 0x22 \<notin> set veth"
    and "CHR 0x0A \<notin> set t" and "CHR '' '' \<notin> set t"
  shows "parse_ruleset (host_ruleset t veth rs) = Some (t, rs)"
proof -
  let ?rules = "concat (map (rule_line veth) rs) @ ''    }'' @ nl @ ''}'' @ nl"
  let ?l1 = "''table ip '' @ t @ '' {''"
  have "split_on (CHR 0x0A) (host_ruleset t veth rs) =
      [] # ?l1 # ''    chain egress {'' # ''        type filter hook forward priority -1; policy accept;''
      # split_on (CHR 0x0A) ?rules"
  proof -
    have "split_on (CHR 0x0A) (?l1 @ CHR 0x0A # x) = ?l1 # split_on (CHR 0x0A) x" for x
      using assms(4) by (intro split_on_append) simp
    moreover have "split_on (CHR 0x0A) (''    chain egress {'' @ CHR 0x0A # x) = ''    chain egress {'' # split_on (CHR 0x0A) x"
      "split_on (CHR 0x0A) (''        type filter hook forward priority -1; policy accept;'' @ CHR 0x0A # x)
        = ''        type filter hook forward priority -1; policy accept;'' # split_on (CHR 0x0A) x" for x
      by (intro split_on_append; simp)+
    ultimately show ?thesis by (simp add: host_ruleset_def)
  qed
  moreover have "strip_prefix ''table ip '' ?l1 = Some (t @ '' {'')" by (rule strip_prefix_append)
  moreover have "split_once (CHR '' '') (t @ '' {'') = Some (t, ''{'')"
    using split_once_append [OF assms(5), of "''{''"] by simp
  ultimately show ?thesis
    using parse_rules_text [OF assms(1-3)] by (simp add: parse_ruleset_def)
qed

lemma egress_rules_plain:
  "list_all (list_all cidr_char) allow \<Longrightarrow> list_all (list_all cidr_char) deny \<Longrightarrow>
   list_all plain_rule (egress_rules allow deny)"
  by (auto simp: egress_rules_def plain_rule_def list_all_iff cidr_char_def is_ascii_digit_def code_def)

section \<open>The host state\<close>

text \<open>\<open>rules_of w t\<close> are the rules of the chain of table \<open>t\<close> in the state \<open>w\<close>. Loading adds rules
  at the end of the chain, inserting puts one in front, deleting removes the table, and a
  command other than \<open>nft\<close> on the host leaves the tables alone.\<close>

definition nft_laws ::
  "'w net_env \<Rightarrow> ('w \<Rightarrow> string \<Rightarrow> (egress_match \<times> verdict) list option) \<Rightarrow> bool" where
  "nft_laws env rules_of \<longleftrightarrow>
     (\<forall>text w w' out t rs. exec env [''nft'', ''-f'', ''-''] text w = (w', CmdOk out) \<longrightarrow>
        parse_ruleset text = Some (t, rs) \<longrightarrow>
        rules_of w' = (rules_of w)(t \<mapsto> (case rules_of w t of None \<Rightarrow> [] | Some old \<Rightarrow> old) @ rs))
     \<and> (\<forall>t veth ip w w' out. exec env [''nft'', ''insert'', ''rule'', ''ip'', t, ''egress'', ''iifname'', veth, ''ip'', ''daddr'',
            ip, ''accept''] [] w = (w', CmdOk out) \<longrightarrow>
        (\<exists>old. rules_of w t = Some old \<and> rules_of w' = (rules_of w)(t \<mapsto> (Daddr ip, Accept) # old)))
     \<and> (\<forall>t w w' r. exec env [''nft'', ''delete'', ''table'', ''ip'', t] [] w = (w', r) \<longrightarrow> (\<forall>e. r \<noteq> CmdNotStarted e) \<longrightarrow>
        rules_of w' = (rules_of w)(t := None))
     \<and> (\<forall>args text w. rules_of (fst (exec env (''ip'' # args) text w)) = rules_of w)"

text \<open>Hexadecimal names, as \<open>hex::encode\<close> produces them.\<close>

definition hex_names :: "'w net_env \<Rightarrow> bool" where
  "hex_names env \<longleftrightarrow> (\<forall>b. \<forall>c\<in>set (hex_encode env b). is_ascii_digit c \<or> c \<in> {CHR ''a'', CHR ''b'', CHR ''c'', CHR ''d'', CHR ''e'', CHR ''f''})"

lemma short_name_chars:
  assumes "hex_names env" and "c \<in> set (short_name env sid prefix)" and "c \<notin> set prefix"
  shows "c \<noteq> CHR 0x0A \<and> c \<noteq> CHR 0x22 \<and> c \<noteq> CHR '' ''"
proof -
  have "c \<in> set (hex_encode env (sha256 env (as_bytes sid)))"
    using assms(2,3) by (auto simp: short_name_def dest: in_set_takeD)
  then have "is_ascii_digit c \<or> c \<in> {CHR ''a'', CHR ''b'', CHR ''c'', CHR ''d'', CHR ''e'', CHR ''f''}"
    using assms(1) by (auto simp: hex_names_def)
  then show ?thesis by (auto simp: is_ascii_digit_def code_def)
qed

lemma parse_policy_text:
  assumes "hex_names env" and "list_all is_valid_ipv4_cidr allow" and "list_all is_valid_ipv4_cidr deny"
  shows "parse_ruleset (host_ruleset (host_table_name env sid) (short_name env sid ''vh'') (egress_rules allow deny))
    = Some (host_table_name env sid, egress_rules allow deny)"
proof (rule parse_host_ruleset)
  show "list_all plain_rule (egress_rules allow deny)"
    using assms(2,3) cidr_chars by (intro egress_rules_plain) (auto simp: list_all_iff)
  show "CHR 0x0A \<notin> set (short_name env sid ''vh'')" "CHR 0x22 \<notin> set (short_name env sid ''vh'')"
    using short_name_chars [OF assms(1)] by fastforce+
  show "CHR 0x0A \<notin> set (host_table_name env sid)" "CHR '' '' \<notin> set (host_table_name env sid)"
    using short_name_chars [OF assms(1), of _ sid "[]"] by (fastforce simp: host_table_name_def)+
qed

lemma setup_host_egress_rules:
  assumes "nft_laws env rules_of" and "hex_names env"
    and "setup_host_egress_with_policy env sid allow deny w = (w', Ok ())"
  shows "list_all is_valid_ipv4_cidr deny
    \<and> rules_of w' = (rules_of w)(host_table_name env sid \<mapsto>
        (case rules_of w (host_table_name env sid) of None \<Rightarrow> [] | Some old \<Rightarrow> old)
        @ egress_rules (filter is_valid_ipv4_cidr allow) deny)"
proof -
  have none: "find (\<lambda>r. \<not> is_valid_ipv4_cidr r) deny = None"
    using assms(3) by (auto simp: setup_host_egress_with_policy_def split: option.splits)
  then have deny: "list_all is_valid_ipv4_cidr deny" by (simp add: find_None_iff list_all_iff)
  have "\<exists>out. exec env [''nft'', ''-f'', ''-''] (host_ruleset (host_table_name env sid) (short_name env sid ''vh'')
      (egress_rules (filter is_valid_ipv4_cidr allow) deny)) w = (w', CmdOk out)"
    using assms(3) none by (auto simp: setup_host_egress_with_policy_def Let_def split: prod.splits cmd_result.splits)
  moreover have "list_all is_valid_ipv4_cidr (filter is_valid_ipv4_cidr allow)" by (simp add: list_all_iff)
  note parse_policy_text [OF assms(2) this deny, of sid]
  ultimately show ?thesis using assms(1) deny unfolding nft_laws_def by blast
qed

lemma run_ip_rules:
  assumes "nft_laws env rules_of" and "run env ''ip'' args w = (w', r)"
  shows "rules_of w' = rules_of w"
proof -
  have "fst (run env ''ip'' args w) = fst (exec env (''ip'' # args) [] w)"
    by (simp add: run_def split: prod.split cmd_result.split)
  moreover have "rules_of (fst (exec env (''ip'' # args) [] w)) = rules_of w"
    using assms(1) by (simp add: nft_laws_def)
  ultimately show ?thesis using assms(2) by simp
qed

lemma run_seq_rules:
  "(\<And>c w w' r. c \<in> set cs \<Longrightarrow> c w = (w', r) \<Longrightarrow> rules_of w' = rules_of w) \<Longrightarrow>
   run_seq cs w = (w', r) \<Longrightarrow> rules_of w' = rules_of w"
proof (induction cs arbitrary: w)
  case (Cons c cs)
  obtain v s where c: "c w = (v, s)" by (cases "c w")
  have v: "rules_of v = rules_of w" by (rule Cons.prems(1) [of c w v s]) (simp_all add: c)
  show ?case
  proof (cases s)
    case (Inl e)
    then show ?thesis using Cons.prems(2) c v by simp
  next
    case (Inr out)
    have "rules_of w' = rules_of v"
      by (rule Cons.IH) (use Cons.prems c Inr in auto)
    then show ?thesis using v by simp
  qed
qed simp

lemma attach_loop_rules:
  assumes "nft_laws env rules_of"
  shows "attach_loop env ns n w = (w', r) \<Longrightarrow> rules_of w' = rules_of w"
proof (induction n arbitrary: w)
  case (Suc n)
  obtain v s where c: "run_in_ns env ns [''link'', ''show'', ''tap0''] w = (v, s)" by fastforce
  have v: "rules_of v = rules_of w" using run_ip_rules [OF assms] c by (auto simp: run_in_ns_def)
  show ?case
  proof (cases s)
    case (Inl e)
    then show ?thesis using Suc c v by simp
  next
    case (Inr out)
    have "rules_of w' = rules_of v"
      by (rule run_seq_rules [of "[run_in_ns env ns [''link'', ''set'', ''tap0'', ''master'', ''br0''],
              run_in_ns env ns [''link'', ''set'', ''tap0'', ''up'']]" rules_of v w' r])
        (use run_ip_rules [OF assms] Suc.prems c Inr in \<open>auto simp: run_in_ns_def\<close>)
    then show ?thesis using v by simp
  qed
qed simp

lemma apply_bandwidth_rules:
  assumes "nft_laws env rules_of" and "apply_bandwidth_limit env sid mbps w = (w', r)"
  shows "rules_of w' = rules_of w"
proof (cases "mbps = None \<or> mbps = Some 0")
  case True
  then show ?thesis using assms(2) by (auto simp: apply_bandwidth_limit_def)
next
  case False
  then obtain rate where rate: "mbps = Some rate" "rate \<noteq> 0" by (cases mbps) auto
  have tc: "run_tc_in_ns env ns args v = (v', s) \<Longrightarrow> rules_of v' = rules_of v" for ns args v v' s
    using run_ip_rules [OF assms(1)] by (simp add: run_tc_in_ns_def)
  obtain v s where del: "run_tc_in_ns env (ns_name env sid) [''qdisc'', ''del'', ''dev'', short_name env sid ''vn'', ''root''] w = (v, s)"
    by fastforce
  show ?thesis
    using assms(2) rate del tc [OF del] tc
    by (auto simp: apply_bandwidth_limit_def Let_def split: prod.splits sum.splits)
qed

section \<open>Properties\<close>


text \<open>An updated policy is enforced on the host. After a successful update, traffic of the
  sandbox to the internal ranges or of an established connection passes; anything else
  passes only when the network is enabled, an allowed address covers it and no denied one
  does. The tables of other sandboxes are untouched, and the proxy resolves the allowed
  names, or none when the network is disabled.\<close>

lemma update_enforces_policy:
  assumes "nft_laws env rules_of" and "hex_names env"
    and "update_sandbox_network env sid enabled allow deny fw w = (fw', w', Ok ())"
  shows "\<exists>rules. rules_of w' = (rules_of w)(host_table_name env sid \<mapsto> rules)
    \<and> (\<forall>inside est a. egress_verdict inside est a rules =
         (if inside ''10.0.0.0/8'' a \<or> inside ''127.0.0.0/8'' a \<or> est then Accept
          else if enabled \<and> (\<exists>d\<in>set allow. is_valid_ipv4_cidr d \<and> inside d a) \<and> \<not> (\<exists>d\<in>set deny. inside d a)
          then Accept else Drop))
    \<and> map_option dp_allowed (firewall_dns_proxy fw' sid) = Some (if enabled then allow else [])"
proof -
  let ?t = "host_table_name env sid"
  let ?allow = "if enabled then allow else []" and ?deny = "if enabled then deny else [''0.0.0.0/0'']"
  obtain h where h: "hm_get (fw_dns fw) sid = Some h"
    using assms(3) by (auto simp: update_sandbox_network_def split: option.splits)
  obtain w1 where w1: "teardown_host_egress env sid w = (w1, Ok ())"
    and s: "setup_host_egress_with_policy env sid ?allow ?deny w1 = (w', Ok ())"
    using assms(3) h by (auto simp: update_sandbox_network_def Let_def split: prod.splits sum.splits)
  have "rules_of w1 = (rules_of w)(?t := None)"
  proof -
    obtain r where r: "exec env [''nft'', ''delete'', ''table'', ''ip'', ?t] [] w = (w1, r)" "\<forall>e. r \<noteq> CmdNotStarted e"
      using w1 by (auto simp: teardown_host_egress_def split: prod.splits cmd_result.splits)
    then show ?thesis using assms(1) unfolding nft_laws_def by blast
  qed
  then have "rules_of w' = (rules_of w)(?t \<mapsto> egress_rules (filter is_valid_ipv4_cidr ?allow) ?deny)"
    using setup_host_egress_rules [OF assms(1,2) s] by auto
  moreover have "egress_verdict inside est a (egress_rules (filter is_valid_ipv4_cidr ?allow) ?deny) =
      (if inside ''10.0.0.0/8'' a \<or> inside ''127.0.0.0/8'' a \<or> est then Accept
       else if enabled \<and> (\<exists>d\<in>set allow. is_valid_ipv4_cidr d \<and> inside d a) \<and> \<not> (\<exists>d\<in>set deny. inside d a)
       then Accept else Drop)" for inside est a
    by (auto simp: egress_rules_verdict)
  moreover have "map_option dp_allowed (firewall_dns_proxy fw' sid) = Some ?allow"
    using assms(3) h w1 s
    by (auto simp: update_sandbox_network_def firewall_dns_proxy_def replace_allowed_def Let_def)
  ultimately show ?thesis by blast
qed

text \<open>A new sandbox network starts with its policy in force: when the table of the sandbox does
  not exist yet and the setup succeeds, the rules of the table are exactly those of the
  policy, whose verdict is to accept internal and established traffic, then to deny, then
  to allow, then to drop; the proxy resolves the allowed names.\<close>

lemma setup_enforces_policy:
  assumes "nft_laws env rules_of" and "hex_names env" and "rules_of w (host_table_name env sid) = None"
    and "setup_sandbox_network env sid ip allow deny bandwidth fw w = (fw', w', Ok ())"
  shows "rules_of w' = (rules_of w)(host_table_name env sid \<mapsto> egress_rules (filter is_valid_ipv4_cidr allow) deny)
    \<and> egress_verdict inside est a (egress_rules (filter is_valid_ipv4_cidr allow) deny) =
        (if inside ''10.0.0.0/8'' a \<or> inside ''127.0.0.0/8'' a \<or> est then Accept
         else if \<exists>d\<in>set deny. inside d a then Drop
         else if \<exists>d\<in>set allow. is_valid_ipv4_cidr d \<and> inside d a then Accept else Drop)
    \<and> map_option dp_allowed (firewall_dns_proxy fw' sid) = Some allow"
proof -
  let ?ns = "ns_name env sid" and ?vn = "short_name env sid ''vn''"
  obtain w1 w2 w3 where 1: "attach_tap env sid w = (w1, Ok ())" and 2: "setup_ruleset env ?ns ?vn w1 = (w2, Ok ())"
    and 3: "setup_host_egress_with_policy env sid allow deny w2 = (w3, Ok ())"
    and 4: "apply_bandwidth_limit env sid bandwidth w3 = (w', Ok ())"
    and fw: "hm_get (fw_dns fw') sid = Some \<lparr>dh_proxy = proxy_new allow (Some sid),
      dh_addr = (case split_once (CHR ''/'') ip of Some (a, _) \<Rightarrow> a | None \<Rightarrow> ip)\<rparr>"
    using assms(4) by (auto simp: setup_sandbox_network_def Let_def split: prod.splits sum.splits)
  have "rules_of w1 = rules_of w" using attach_loop_rules [OF assms(1)] 1 by (auto simp: attach_tap_def)
  moreover have "rules_of w2 = rules_of w1"
  proof -
    have "fst (setup_ruleset env ?ns ?vn w1) = fst (exec env (''ip'' # [''netns'', ''exec'', ?ns, ''nft'', ''-f'', ''-'']) (ns_ruleset ?vn) w1)"
      by (simp add: setup_ruleset_def split: prod.split cmd_result.split)
    then show ?thesis using 2 assms(1) unfolding nft_laws_def by (metis fst_conv)
  qed
  moreover have "rules_of w' = rules_of w3" by (rule apply_bandwidth_rules [OF assms(1) 4])
  ultimately have "rules_of w' = (rules_of w)(host_table_name env sid \<mapsto> egress_rules (filter is_valid_ipv4_cidr allow) deny)"
    using setup_host_egress_rules [OF assms(1,2) 3] assms(3) by simp
  then show ?thesis using fw
    by (auto simp: egress_rules_verdict firewall_dns_proxy_def proxy_new_def)
qed

text \<open>A resolved address overrides the deny list. The rule that the proxy inserts for an answer
  stands in front of all others, so traffic to that address passes although a deny entry
  covers it.\<close>

lemma resolved_address_overrides_deny:
  assumes "nft_laws env rules_of" and "allow_ip_host env sid ip w = (w', Ok ())" and "inside ip a"
  shows "\<exists>rules. rules_of w' (host_table_name env sid) = Some rules \<and> egress_verdict inside est a rules = Accept"
proof -
  let ?t = "host_table_name env sid" and ?vh = "short_name env sid ''vh''"
  obtain out where e: "exec env [''nft'', ''insert'', ''rule'', ''ip'', ?t, ''egress'', ''iifname'', ?vh, ''ip'', ''daddr'',
      ip, ''accept''] [] w = (w', CmdOk out)"
    using assms(2) by (auto simp: allow_ip_host_def split: prod.splits cmd_result.splits)
  have "\<forall>t veth ip w w' out. exec env [''nft'', ''insert'', ''rule'', ''ip'', t, ''egress'', ''iifname'', veth, ''ip'', ''daddr'',
            ip, ''accept''] [] w = (w', CmdOk out) \<longrightarrow>
        (\<exists>old. rules_of w t = Some old \<and> rules_of w' = (rules_of w)(t \<mapsto> (Daddr ip, Accept) # old))"
    using assms(1) unfolding nft_laws_def by blast
  with e obtain old where "rules_of w' = (rules_of w)(?t \<mapsto> (Daddr ip, Accept) # old)" by blast
  then show ?thesis using assms(3) by simp
qed

text \<open>A host that follows the manual: its state is the tables with their rules.\<close>

definition demo_exec ::
  "string list \<Rightarrow> string \<Rightarrow> (string, (egress_match \<times> verdict) list) hashmap
   \<Rightarrow> (string, (egress_match \<times> verdict) list) hashmap \<times> cmd_result" where
  "demo_exec argv text w =
     (if argv = [''nft'', ''-f'', ''-'']
      then case parse_ruleset text of
          Some (t, rs) \<Rightarrow> (hm_insert t ((case hm_get w t of None \<Rightarrow> [] | Some old \<Rightarrow> old) @ rs) w, CmdOk [])
        | None \<Rightarrow> (w, CmdFailed ''syntax error'')
      else if take 4 argv = [''nft'', ''insert'', ''rule'', ''ip''] \<and> length argv = 12
      then case hm_get w (argv ! 4) of
          Some old \<Rightarrow> (hm_insert (argv ! 4) ((Daddr (argv ! 10), Accept) # old) w, CmdOk [])
        | None \<Rightarrow> (w, CmdFailed ''no such table'')
      else if take 4 argv = [''nft'', ''delete'', ''table'', ''ip''] \<and> length argv = 5
      then (hm_remove (argv ! 4) w, CmdOk [])
      else (w, CmdOk []))"

definition demo_net :: "((string, (egress_match \<times> verdict) list) hashmap) net_env" where
  "demo_net = \<lparr>sha256 = (\<lambda>b. replicate 32 7), hex_encode = (\<lambda>b. replicate 64 (CHR ''a'')), exec = demo_exec\<rparr>"

lemma demo_hex_names: "hex_names demo_net"
  by (simp add: hex_names_def demo_net_def)

lemma demo_nft_laws: "nft_laws demo_net hm_get"
  unfolding nft_laws_def demo_net_def
  by (auto simp: demo_exec_def fun_eq_iff split: option.splits prod.splits)


definition demo_fw :: firewall where
  "demo_fw = \<lparr>fw_nets = [(''sb'', ())], fw_dns = [(''sb'', \<lparr>dh_proxy = proxy_new [] (Some ''sb''), dh_addr = ''10.10.10.1''\<rparr>)]\<rparr>"

lemma update_enforces_policy_witness:
  "map_option dp_allowed (firewall_dns_proxy
     (fst (update_sandbox_network demo_net ''sb'' True [''1.1.1.1''] [] demo_fw [])) ''sb'') = Some [''1.1.1.1'']"
proof -
  obtain fw' w' r where u: "update_sandbox_network demo_net ''sb'' True [''1.1.1.1''] [] demo_fw [] = (fw', w', r)"
    by (metis surj_pair)
  have "snd (snd (update_sandbox_network demo_net ''sb'' True [''1.1.1.1''] [] demo_fw [])) = Ok ()" by code_simp
  then have "r = Ok ()" using u by simp
  then show ?thesis using update_enforces_policy [OF demo_nft_laws demo_hex_names, of "''sb''" True "[''1.1.1.1'']" "[]" demo_fw "[]"] u
    by auto
qed

lemma setup_enforces_policy_witness:
  "map_option dp_allowed (firewall_dns_proxy
     (fst (setup_sandbox_network demo_net ''sb'' ''10.1.1.1/30'' [''1.1.1.1''] [] None firewall_new [])) ''sb'') = Some [''1.1.1.1'']"
proof -
  obtain fw' w' r where u: "setup_sandbox_network demo_net ''sb'' ''10.1.1.1/30'' [''1.1.1.1''] [] None firewall_new [] = (fw', w', r)"
    by (metis surj_pair)
  have "snd (snd (setup_sandbox_network demo_net ''sb'' ''10.1.1.1/30'' [''1.1.1.1''] [] None firewall_new [])) = Ok ()" by code_simp
  then have u': "setup_sandbox_network demo_net ''sb'' ''10.1.1.1/30'' [''1.1.1.1''] [] None firewall_new [] = (fw', w', Ok ())"
    using u by simp
  have "map_option dp_allowed (firewall_dns_proxy fw' ''sb'') = Some [''1.1.1.1'']"
    using setup_enforces_policy [OF demo_nft_laws demo_hex_names hm_get_Nil u', of "\<lambda>d a. False" False "()"]
    by (elim conjE)
  then show ?thesis using u by simp
qed

lemma resolved_address_overrides_deny_witness:
  "let t = host_table_name demo_net ''sb''; w = [(t, egress_rules [] [''0.0.0.0/0''])] in
   \<exists>rules. hm_get (fst (allow_ip_host demo_net ''sb'' ''9.9.9.9'' w)) t = Some rules
     \<and> egress_verdict (\<lambda>d a. d = ''0.0.0.0/0'' \<or> d = a) False ''9.9.9.9'' rules = Accept"
proof -
  let ?t = "host_table_name demo_net ''sb''"
  let ?w = "[(?t, egress_rules [] [''0.0.0.0/0''])]"
  have "snd (allow_ip_host demo_net ''sb'' ''9.9.9.9'' ?w) = Ok ()"
    by (simp add: allow_ip_host_def demo_net_def demo_exec_def host_table_name_def hm_get_def short_name_def)
  then obtain w' where "allow_ip_host demo_net ''sb'' ''9.9.9.9'' ?w = (w', Ok ())" by (metis prod.collapse)
  then show ?thesis
    using resolved_address_overrides_deny [OF demo_nft_laws, of "''sb''" "''9.9.9.9''" ?w w'
        "\<lambda>d a. d = ''0.0.0.0/0'' \<or> d = a" "''9.9.9.9''" False] by (simp add: Let_def)
qed

subsection \<open>Subnets\<close>

definition nth_subnet :: "nat \<Rightarrow> u16 \<times> u16" where
  "nth_subnet k = (of_nat (10 + k div 191 mod 191), of_nat (10 + k mod 191))"

lemma u16_eq_of_nat: "m < 2 ^ 16 \<Longrightarrow> n < 2 ^ 16 \<Longrightarrow> (of_nat m :: u16) = of_nat n \<longleftrightarrow> m = n"
  by (simp add: word_of_nat_eq_iff take_bit_nat_eq_self)

lemma u16_less_of_nat: "m < 2 ^ 16 \<Longrightarrow> n < 2 ^ 16 \<Longrightarrow> (of_nat m :: u16) < of_nat n \<longleftrightarrow> m < n"
  by (simp add: word_less_nat_alt unat_of_nat)

lemma allocate_nth: "allocate (nth_subnet k) = (nth_subnet (Suc k), nth_subnet k)"
proof -
  define a b where "a = k div 191 mod 191" and "b = k mod 191"
  have ab: "a < 191" "b < 191" by (simp_all add: a_def b_def)
  have b1: "of_nat (10 + b) + 1 = (of_nat (11 + b) :: u16)" and a1: "of_nat (10 + a) + 1 = (of_nat (11 + a) :: u16)"
    by simp_all
  have gb: "200 < (of_nat (11 + b) :: u16) \<longleftrightarrow> b = 190"
    using u16_less_of_nat [of 200 "11 + b"] ab by simp linarith
  have ga: "200 < (of_nat (11 + a) :: u16) \<longleftrightarrow> a = 190" and ga0: "\<not> 200 < (of_nat (10 + a) :: u16)"
    using u16_less_of_nat [of 200 "11 + a"] u16_less_of_nat [of 200 "10 + a"] ab by simp_all linarith+
  have next_b: "Suc k mod 191 = (if b = 190 then 0 else Suc b)"
    by (simp add: b_def mod_Suc)
  have next_a: "Suc k div 191 mod 191 = (if b = 190 then if a = 190 then 0 else Suc a else a)"
    by (simp add: a_def b_def div_Suc mod_Suc)
  show ?thesis
    unfolding allocate_def nth_subnet_def a_def [symmetric] b_def [symmetric] next_a next_b
    using gb ga ga0 b1 a1 by (simp del: of_nat_add of_nat_Suc)
qed

lemma nth_subnet_range: "unat (fst (nth_subnet k)) \<in> {10..200} \<and> unat (snd (nth_subnet k)) \<in> {10..200}"
proof -
  have "k div 191 mod 191 \<le> 190" "k mod 191 \<le> 190"
    using mod_less_divisor [of 191 "k div 191"] mod_less_divisor [of 191 k] by linarith+
  then show ?thesis by (simp add: nth_subnet_def unat_of_nat del: of_nat_add)
qed

lemma allocate_many_nth: "allocate_many n (nth_subnet k) = map nth_subnet [k..<k + n]"
proof (induction n arbitrary: k)
  case (Suc n)
  have "[k..<k + Suc n] = k # [Suc k..<Suc k + n]" by (simp add: upt_rec)
  then show ?case using Suc [of "Suc k"] by (simp add: allocate_nth)
qed simp

text \<open>The sequential allocator hands out distinct subnets: the first \<open>191 * 191\<close> allocations are
  pairwise different, all between \<open>10.10.10.0\<close> and \<open>10.200.200.0\<close>, and the next one is the
  first again.\<close>

lemma allocations_distinct:
  "distinct (allocate_many (191 * 191) allocator_new)
   \<and> set (allocate_many n allocator_new) \<subseteq> {(a, b). unat a \<in> {10..200} \<and> unat b \<in> {10..200}}
   \<and> last (allocate_many (191 * 191 + 1) allocator_new) = allocator_new"
proof -
  have start: "allocator_new = nth_subnet 0" by (simp add: allocator_new_def nth_subnet_def)
  have inj: "k = l" if "k < 191 * 191" "l < 191 * 191" "nth_subnet k = nth_subnet l" for k l
  proof -
    have "10 + x mod 191 < 2 ^ 16" for x :: nat
    proof -
      have "x mod 191 < 191" by (rule mod_less_divisor) simp
      then show ?thesis by simp
    qed
    then have "k div 191 mod 191 = l div 191 mod 191" "k mod 191 = l mod 191"
      using that(3) unfolding nth_subnet_def prod.inject by (metis u16_eq_of_nat add_left_cancel)+
    moreover have "k div 191 < 191" "l div 191 < 191" using that by simp_all
    ultimately show ?thesis by (metis div_mult_mod_eq mod_less)
  qed
  have "distinct (map nth_subnet [0..<191 * 191])" 
    using inj by (simp only: distinct_map distinct_upt inj_on_def set_upt) auto
  moreover have "last (map nth_subnet [0..<191 * 191 + 1]) = nth_subnet 0"
  proof -
    have "[0..<191 * 191 + 1] = [0..<191 * 191] @ [191 * 191]" by (simp only: Suc_eq_plus1 [symmetric] upt_Suc) simp
    then have "last (map nth_subnet [0..<191 * 191 + 1]) = nth_subnet (191 * 191)" by (simp only: map_append list.map last_snoc)
    then show ?thesis by (simp add: nth_subnet_def)
  qed
  moreover have "set (map nth_subnet [0..<n]) \<subseteq> {(a, b). unat a \<in> {10..200} \<and> unat b \<in> {10..200}}"
  proof
    fix s assume "s \<in> set (map nth_subnet [0..<n])"
    then obtain k where "s = nth_subnet k" by auto
    then show "s \<in> {(a, b). unat a \<in> {10..200} \<and> unat b \<in> {10..200}}"
      using nth_subnet_range [of k] by (simp add: case_prod_beta)
  qed
  ultimately show ?thesis
    unfolding start allocate_many_nth [of _ 0, unfolded add_0] by blast
qed

text \<open>The two ways of choosing a subnet overlap: the subnet derived from the identifier of a
  sandbox lies between \<open>10.10.10.0\<close> and \<open>10.209.209.0\<close>, and whenever both of its numbers are
  at most 200 the allocator hands out the same subnet within its first \<open>191 * 191\<close> calls.\<close>

lemma derived_subnet_overlaps:
  "unat (fst (sandbox_subnet env sid)) \<in> {10..209} \<and> unat (snd (sandbox_subnet env sid)) \<in> {10..209}
   \<and> (unat (fst (sandbox_subnet env sid)) \<le> 200 \<and> unat (snd (sandbox_subnet env sid)) \<le> 200
      \<longleftrightarrow> sandbox_subnet env sid \<in> set (allocate_many (191 * 191) allocator_new))"
proof -
  obtain a b where ab: "sandbox_subnet env sid = (a, b)" by (cases "sandbox_subnet env sid")
  have range: "unat (10 + ucast (x :: byte) mod 200 :: u16) \<in> {10..209}" for x
  proof -
    have "unat (ucast x mod 200 :: u16) < 200" by (simp add: unat_mod)
    then show ?thesis by (auto simp: unat_word_ariths(1))
  qed
  have r: "unat a \<in> {10..209}" "unat b \<in> {10..209}"
    using range ab by (auto simp: sandbox_subnet_def Let_def)
  have start: "allocator_new = nth_subnet 0" by (simp add: allocator_new_def nth_subnet_def)
  have mem: "(a, b) \<in> set (allocate_many (191 * 191) allocator_new)" if "unat a \<le> 200" "unat b \<le> 200"
  proof -
    define k where "k = (unat a - 10) * 191 + (unat b - 10)"
    have lt: "unat b - 10 < 191" "unat a - 10 < 191" using that by simp_all
    have "k div 191 = unat a - 10" "k mod 191 = unat b - 10" using lt by (simp_all add: k_def)
    then have "nth_subnet k = (of_nat (unat a), of_nat (unat b))" using r lt by (simp add: nth_subnet_def del: of_nat_add of_nat_diff)
    then have "nth_subnet k = (a, b)" by simp
    moreover have "k < 191 * 191" using lt unfolding k_def by linarith
    ultimately show ?thesis unfolding start allocate_many_nth [of _ 0, unfolded add_0] by force
  qed
  have "unat a \<le> 200 \<and> unat b \<le> 200" if m: "(a, b) \<in> set (allocate_many (191 * 191) allocator_new)"
  proof -
    obtain k where "(a, b) = nth_subnet k" using m unfolding start allocate_many_nth by auto
    with nth_subnet_range [of k] show ?thesis by (cases "nth_subnet k") simp
  qed
  then show ?thesis using r mem unfolding ab by auto
qed

end
