(* ===== verification/Auth.thy ===== *)
theory Auth
  imports Store_Contract
begin

text \<open>
  \<open>crates/clouisle-api/src/auth.rs\<close>, \<open>middleware_auth.rs\<close> and \<open>error.rs\<close>: who may call the interface. The
  keys of the authenticator, the middleware that every request passes, and the mapping of
  errors to status codes. The administrator's token is the value of an environment variable
  and an argument; the authentication of the control plane is the argument \<open>e2b_auth\<close>, which
  the model of the control plane instantiates.
\<close>

section \<open>Principals and keys\<close>

datatype scope = ScopeFull | ScopeRead

definition scope_from_string :: "string \<Rightarrow> scope" where
  "scope_from_string s =
     (if s = ''read'' then ScopeRead else if s = ''full'' \<or> s = ''admin'' then ScopeFull else ScopeRead)"

fun scope_str :: "scope \<Rightarrow> string" where
  "scope_str ScopeFull = ''full''"
| "scope_str ScopeRead = ''read''"

record principal =
  pr_tenant_id :: string
  pr_scope :: scope
  pr_volume_id :: "string option"

definition principal_dev :: principal where
  "principal_dev = \<lparr>pr_tenant_id = ''dev'', pr_scope = ScopeFull, pr_volume_id = None\<rparr>"

record authenticator =
  au_keys :: "(string, principal) hashmap"
  au_key_ids :: "(string, string) hashmap"
  au_allow_anonymous_dev :: bool

definition authenticator_new :: authenticator where
  "authenticator_new = \<lparr>au_keys = [], au_key_ids = [], au_allow_anonymous_dev = True\<rparr>"

definition authenticator_new_production :: authenticator where
  "authenticator_new_production = \<lparr>au_keys = [], au_key_ids = [], au_allow_anonymous_dev = False\<rparr>"

definition register_inner :: "string option \<Rightarrow> string \<Rightarrow> string \<Rightarrow> scope \<Rightarrow> authenticator \<Rightarrow> authenticator" where
  "register_inner i key tenant sc a =
     (let a' = a\<lparr>au_keys := hm_insert key \<lparr>pr_tenant_id = tenant, pr_scope = sc, pr_volume_id = None\<rparr> (au_keys a)\<rparr>
      in case i of None \<Rightarrow> a' | Some x \<Rightarrow> a'\<lparr>au_key_ids := hm_insert x key (au_key_ids a')\<rparr>)"

definition register :: "string \<Rightarrow> string \<Rightarrow> scope \<Rightarrow> authenticator \<Rightarrow> authenticator" where
  "register key tenant sc = register_inner None key tenant sc"

definition register_with_id :: "string \<Rightarrow> string \<Rightarrow> string \<Rightarrow> scope \<Rightarrow> authenticator \<Rightarrow> authenticator" where
  "register_with_id i key tenant sc = register_inner (Some i) key tenant sc"

definition revoke_id :: "string \<Rightarrow> authenticator \<Rightarrow> authenticator" where
  "revoke_id i a =
     (case hm_get (au_key_ids a) i of
        None \<Rightarrow> a
      | Some key \<Rightarrow> a\<lparr>au_key_ids := hm_remove i (au_key_ids a), au_keys := hm_remove key (au_keys a)\<rparr>)"

definition require_tenant :: "principal \<Rightarrow> sandbox \<Rightarrow> (unit, clouisle_error) result" where
  "require_tenant p sb =
     (if sp_tenant_id (sb_spec sb) = Some (pr_tenant_id p) then Ok ()
      else Err (new_error EkNotFound (''sandbox '' @ sb_id sb @ '' not found'')))"

definition authenticate :: "authenticator \<Rightarrow> string option \<Rightarrow> (principal, clouisle_error) result" where
  "authenticate a header =
     (case header of
        None \<Rightarrow> Err (new_error EkUnauthenticated ''missing Authorization header'')
      | Some h \<Rightarrow>
          (case strip_prefix ''Bearer '' h of
             None \<Rightarrow> Err (new_error EkUnauthenticated ''invalid auth scheme'')
           | Some key \<Rightarrow>
               (case hm_get (au_keys a) key of
                  Some p \<Rightarrow> Ok p
                | None \<Rightarrow> Err (new_error EkUnauthenticated ''invalid API key''))))"

definition require_write :: "principal \<Rightarrow> (unit, clouisle_error) result" where
  "require_write p =
     (if pr_scope p = ScopeFull then Ok ()
      else Err (new_error EkForbidden ''read-only token cannot perform this operation''))"

section \<open>Errors as status codes\<close>

definition error_status :: "clouisle_error \<Rightarrow> nat" where
  "error_status e =
     (case err_kind e of
        EkValidation \<Rightarrow> 400 | EkNotFound \<Rightarrow> 404 | EkResourceExhausted \<Rightarrow> 507 | EkInvalidState \<Rightarrow> 409
      | EkUnauthenticated \<Rightarrow> 401 | EkForbidden \<Rightarrow> 403 | EkQuotaExceeded \<Rightarrow> 429 | _ \<Rightarrow> 500)"

text \<open>The body carries code and message twice, nested and at the top; its details are always null
  and have no field here.\<close>

record error_body =
  eb_code :: string
  eb_message :: string

record error_response =
  rs_error :: error_body
  rs_code :: string
  rs_message :: string

definition into_error_response :: "clouisle_error \<Rightarrow> nat \<times> error_response" where
  "into_error_response e =
     (let code = error_kind_str (err_kind e); message = err_message e
      in (error_status e,
          \<lparr>rs_error = \<lparr>eb_code = code, eb_message = message\<rparr>, rs_code = code, rs_message = message\<rparr>))"

section \<open>The middleware\<close>

datatype http_method = GET | HEAD | OPTIONS | POST | PUT | PATCH | DELETE | OtherMethod string

text \<open>A header is present or not; its value is readable text or not (\<open>to_str\<close>).\<close>

record request =
  rq_method :: http_method
  rq_path :: string
  rq_headers :: "(string, string option) hashmap"

datatype outcome = Next "principal option" | Refuse "nat \<times> error_response"

definition volume_credential_path :: "string \<Rightarrow> bool" where
  "volume_credential_path path \<longleftrightarrow>
     starts_with ''/volumecontent/'' path
     \<and> path \<notin> {''/volumecontent/health'', ''/volumecontent/init'', ''/volumecontent/metrics''}"

definition probe_path :: "string \<Rightarrow> bool" where
  "probe_path path \<longleftrightarrow> path \<in> {''/health'', ''/health/live'', ''/health/ready'', ''/metrics''}"

definition or_else :: "'a option \<Rightarrow> 'a option \<Rightarrow> 'a option" where
  "or_else a b = (case a of None \<Rightarrow> b | Some _ \<Rightarrow> a)"

definition admin_presented :: "string option \<Rightarrow> request \<Rightarrow> bool" where
  "admin_presented admin_token rq =
     (case admin_token of
        None \<Rightarrow> False
      | Some tok \<Rightarrow>
          (case or_else (hm_get (rq_headers rq) ''x-admin-token'') (hm_get (rq_headers rq) ''authorization'') of
             Some (Some v) \<Rightarrow> (case strip_prefix ''Bearer '' v of Some c \<Rightarrow> c | None \<Rightarrow> v) = tok
           | _ \<Rightarrow> False))"

definition auth_header :: "request \<Rightarrow> string option" where
  "auth_header rq =
     (let get = (\<lambda>name. Option.bind (hm_get (rq_headers rq) name) (\<lambda>v. v))
      in or_else (get ''authorization'')
           (or_else (map_option (\<lambda>v. ''Bearer '' @ v) (get ''x-api-key''))
                    (map_option (\<lambda>v. ''Bearer '' @ v) (get ''x-access-token''))))"

definition anonymous_dev :: "authenticator \<Rightarrow> request \<Rightarrow> bool" where
  "anonymous_dev a rq \<longleftrightarrow>
     au_keys a = [] \<and> au_allow_anonymous_dev a \<and> hm_get (rq_headers rq) ''authorization'' = None
     \<and> hm_get (rq_headers rq) ''x-api-key'' = None \<and> hm_get (rq_headers rq) ''x-access-token'' = None"

definition mutating :: "http_method \<Rightarrow> bool" where
  "mutating m \<longleftrightarrow> m \<in> {POST, PUT, PATCH, DELETE}"

text \<open>The checks made of an authenticated principal, the same on both paths.\<close>

definition admit_principal :: "request \<Rightarrow> principal \<Rightarrow> outcome" where
  "admit_principal rq p =
     (if pr_volume_id p \<noteq> None \<and> \<not> volume_credential_path (rq_path rq)
      then Refuse (into_error_response
             (new_error EkForbidden ''volume credential is limited to its volume content API''))
      else if mutating (rq_method rq)
      then (case require_write p of Err e \<Rightarrow> Refuse (into_error_response e) | Ok _ \<Rightarrow> Next (Some p))
      else Next (Some p))"

definition auth_middleware ::
  "string option \<Rightarrow> authenticator \<Rightarrow> (string \<Rightarrow> principal option) \<Rightarrow> request \<Rightarrow> outcome" where
  "auth_middleware admin_token a e2b_auth rq =
     (if probe_path (rq_path rq) then Next None
      else if admin_presented admin_token rq then Next (Some principal_dev)
      else if anonymous_dev a rq then Next (Some principal_dev)
      else case authenticate a (auth_header rq) of
        Ok p \<Rightarrow> admit_principal rq p
      | Err e \<Rightarrow>
          (case Option.bind (Option.bind (auth_header rq) (strip_prefix ''Bearer '')) e2b_auth of
             Some p \<Rightarrow> admit_principal rq p
           | None \<Rightarrow> Refuse (into_error_response e)))"

section \<open>Lemmas\<close>

lemma admit_principal_Next:
  "admit_principal rq p = Next q \<longleftrightarrow>
     q = Some p \<and> (pr_volume_id p = None \<or> volume_credential_path (rq_path rq))
     \<and> (mutating (rq_method rq) \<longrightarrow> pr_scope p = ScopeFull)"
  by (auto simp: admit_principal_def require_write_def)

lemma authenticate_Ok_iff:
  "authenticate a h = Ok p \<longleftrightarrow> (\<exists>key. h = Some (''Bearer '' @ key) \<and> hm_get (au_keys a) key = Some p)"
proof
  assume "authenticate a h = Ok p"
  then show "\<exists>key. h = Some (''Bearer '' @ key) \<and> hm_get (au_keys a) key = Some p"
    by (auto simp: authenticate_def strip_prefix_Some_iff split: option.splits)
next
  assume "\<exists>key. h = Some (''Bearer '' @ key) \<and> hm_get (au_keys a) key = Some p"
  then obtain key where h: "h = Some (''Bearer '' @ key)" and g: "hm_get (au_keys a) key = Some p" by blast
  have "strip_prefix ''Bearer '' (''Bearer '' @ key) = Some key" by (simp only: strip_prefix_Some_iff)
  then show "authenticate a h = Ok p" unfolding authenticate_def h using g by simp
qed

lemma authenticate_Err_kind: "authenticate a h = Err e \<Longrightarrow> err_kind e = EkUnauthenticated"
  by (auto simp: authenticate_def new_error_def split: option.splits)

section \<open>Properties\<close>

text \<open>C7: what the middleware lets through. A request outside the probe paths passes only with a
  principal, and then one of three things holds: the administrator's token was presented;
  no key is registered, anonymous development is on and no credential was presented; or the
  presented credential belongs to the principal, who has full scope if the method changes
  state, and whose volume credential, if it is one, is used on a volume content path.\<close>

theorem middleware_admits_only:
  assumes "auth_middleware admin_token a e2b_auth rq = Next q" and "\<not> probe_path (rq_path rq)"
  shows "\<exists>p. q = Some p \<and>
    (admin_presented admin_token rq \<and> p = principal_dev
     \<or> anonymous_dev a rq \<and> p = principal_dev
     \<or> (\<exists>key. auth_header rq = Some (''Bearer '' @ key) \<and> (hm_get (au_keys a) key = Some p \<or> e2b_auth key = Some p))
       \<and> (mutating (rq_method rq) \<longrightarrow> pr_scope p = ScopeFull)
       \<and> (pr_volume_id p \<noteq> None \<longrightarrow> volume_credential_path (rq_path rq)))"
proof (cases "admin_presented admin_token rq \<or> anonymous_dev a rq")
  case True
  then show ?thesis using assms by (auto simp: auth_middleware_def split: if_splits)
next
  case False
  note step = assms(1) [unfolded auth_middleware_def]
  show ?thesis
  proof (cases "authenticate a (auth_header rq)")
    case (Inr p)
    then have "admit_principal rq p = Next q" using step assms(2) False by simp
    moreover have "\<exists>key. auth_header rq = Some (''Bearer '' @ key) \<and> hm_get (au_keys a) key = Some p"
      using Inr by (simp add: authenticate_Ok_iff)
    ultimately show ?thesis by (auto simp: admit_principal_Next)
  next
    case (Inl e)
    then obtain p where b: "Option.bind (Option.bind (auth_header rq) (strip_prefix ''Bearer '')) e2b_auth = Some p"
      and p: "admit_principal rq p = Next q"
      using step assms(2) False by (auto split: option.splits)
    then have "\<exists>key. auth_header rq = Some (''Bearer '' @ key) \<and> e2b_auth key = Some p"
      by (auto simp: bind_eq_Some_conv strip_prefix_Some_iff)
    with p show ?thesis by (auto simp: admit_principal_Next)
  qed
qed

definition demo_auth :: authenticator where
  "demo_auth = register_with_id ''k1'' ''secret'' ''t1'' ScopeFull authenticator_new_production"

definition demo_request :: "string \<Rightarrow> request" where
  "demo_request key = \<lparr>rq_method = POST, rq_path = ''/sandboxes'', rq_headers = [(''x-api-key'', Some key)]\<rparr>"

theorem middleware_admits_only_witness:
  "\<exists>p. auth_middleware None demo_auth (\<lambda>_. None) (demo_request ''secret'') = Next (Some p) \<and> pr_scope p = ScopeFull"
proof -
  have n: "auth_middleware None demo_auth (\<lambda>_. None) (demo_request ''secret'')
      = Next (Some \<lparr>pr_tenant_id = ''t1'', pr_scope = ScopeFull, pr_volume_id = None\<rparr>)" by code_simp
  have "\<not> probe_path (rq_path (demo_request ''secret''))" by code_simp
  from middleware_admits_only [OF n this] n show ?thesis by auto
qed

text \<open>A deployed control plane fails closed. With the production authenticator, no administrator's
  token and a credential that neither the keys nor the control plane know, every request
  outside the probe paths is refused as unauthenticated.\<close>

lemma production_fails_closed:
  assumes "\<not> au_allow_anonymous_dev a" and "\<not> probe_path (rq_path rq)" and "\<not> admin_presented admin_token rq"
    and "\<And>key. auth_header rq = Some (''Bearer '' @ key) \<Longrightarrow> hm_get (au_keys a) key = None \<and> e2b_auth key = None"
  shows "\<exists>r. auth_middleware admin_token a e2b_auth rq = Refuse r \<and> fst r = 401"
proof -
  obtain e where e: "authenticate a (auth_header rq) = Err e"
  proof (cases "authenticate a (auth_header rq)")
    case (Inr p)
    then obtain key where "auth_header rq = Some (''Bearer '' @ key)" and "hm_get (au_keys a) key = Some p"
      unfolding authenticate_Ok_iff by blast
    then show ?thesis using assms(4) [of key] by simp
  qed
  have "Option.bind (Option.bind (auth_header rq) (strip_prefix ''Bearer '')) e2b_auth = None"
  proof (cases "Option.bind (auth_header rq) (strip_prefix ''Bearer '')")
    case (Some key)
    then have "auth_header rq = Some (''Bearer '' @ key)"
      unfolding bind_eq_Some_conv strip_prefix_Some_iff by blast
    with Some show ?thesis using assms(4) [of key] by simp
  qed simp
  then have "auth_middleware admin_token a e2b_auth rq = Refuse (into_error_response e)"
    using assms(1-3) e by (simp add: auth_middleware_def anonymous_dev_def)
  then show ?thesis
    using authenticate_Err_kind [OF e] by (simp add: into_error_response_def error_status_def Let_def)
qed

lemma production_fails_closed_witness:
  "\<exists>r. auth_middleware (Some ''root'') authenticator_new_production (\<lambda>_. None) (demo_request ''guess'') = Refuse r
     \<and> fst r = 401"
  by (rule production_fails_closed)
    (simp_all add: authenticator_new_production_def demo_request_def probe_path_def admin_presented_def
      or_else_def hm_get_def)

text \<open>Revocation takes effect at once, for the key last registered under the identifier. After
  \<open>revoke_id\<close> the key is refused; but a key registered earlier under the same identifier is
  forgotten by the table of identifiers and still authenticates.\<close>

lemma revoke_reaches_last_key_only:
  assumes "k1 \<noteq> k2"
  shows "let a1 = register_with_id i k1 t1 s1 a; a2 = register_with_id i k2 t2 s2 a1 in
    (\<exists>e. authenticate (revoke_id i a1) (Some (''Bearer '' @ k1)) = Err e \<and> err_kind e = EkUnauthenticated)
    \<and> (\<exists>e. authenticate (revoke_id i a2) (Some (''Bearer '' @ k2)) = Err e \<and> err_kind e = EkUnauthenticated)
    \<and> authenticate (revoke_id i (revoke_id i a2)) (Some (''Bearer '' @ k1))
        = Ok \<lparr>pr_tenant_id = t1, pr_scope = s1, pr_volume_id = None\<rparr>"
proof -
  have strip: "strip_prefix ''Bearer '' (''Bearer '' @ k) = Some k" for k by (simp only: strip_prefix_Some_iff)
  show ?thesis
    using assms strip [of k1] strip [of k2]
    by (simp add: Let_def register_with_id_def register_inner_def revoke_id_def authenticate_def new_error_def)
qed

lemma revoke_reaches_last_key_only_witness:
  "authenticate (revoke_id ''id'' (revoke_id ''id''
      (register_with_id ''id'' ''new'' ''t'' ScopeRead (register_with_id ''id'' ''old'' ''t'' ScopeFull authenticator_new))))
      (Some (''Bearer '' @ ''old''))
    = Ok \<lparr>pr_tenant_id = ''t'', pr_scope = ScopeFull, pr_volume_id = None\<rparr>"
  using revoke_reaches_last_key_only [of "''old''" "''new''" "''id''" "''t''" ScopeFull authenticator_new "''t''" ScopeRead]
  by (simp only: Let_def) simp

end
