(* ===== verification/Vmm_Types.thy ===== *)
theory Vmm_Types
  imports Sandbox_Spec
begin

text \<open>
  The value types of \<open>crates/clouisle-vmm/src/lib.rs\<close> and the conversions between a
  persisted \<open>VmmMeta\<close> and a \<open>VmHandle\<close> (\<open>crates/clouisle-api/src/handlers/exec.rs\<close>). The
  backend itself (\<open>dyn Vmm\<close>: a Firecracker process, a container engine, a remote node) is
  not modelled: its answers are arguments of the operations that call it.
\<close>

record vm_handle =
  vh_id :: string
  vh_backend :: string
  vh_owner_id :: "string option"
  vh_pid :: "u64 option"
  vh_api_socket :: "string option"
  vh_vsock_socket :: "string option"
  vh_vsock_cid :: "u64 option"
  vh_subnet :: "(u16 \<times> u16) option"

datatype stop_mode = Graceful | Force

record snapshot_paths =
  sp_state_path :: string
  sp_mem_path :: string

record vmm_capabilities =
  cap_snapshot :: bool
  cap_vsock :: bool
  cap_balloon :: bool

definition meta_to_handle :: "vmm_meta \<Rightarrow> string \<Rightarrow> vm_handle" where
  "meta_to_handle m sid = \<lparr>
     vh_id = (case me_vmm_id m of Some i \<Rightarrow> i | None \<Rightarrow> sid),
     vh_backend = me_backend m, vh_owner_id = me_owner_id m, vh_pid = me_pid m,
     vh_api_socket = me_api_socket m, vh_vsock_socket = me_vsock_socket m,
     vh_vsock_cid = me_vsock_cid m,
     vh_subnet =
       (case hm_get (me_extra m) ''subnet'' of None \<Rightarrow> None | Some v \<Rightarrow>
        (case split_once (CHR ''.'') v of None \<Rightarrow> None | Some (a, b) \<Rightarrow>
         (case parse_u16 a of None \<Rightarrow> None | Some x \<Rightarrow>
          (case parse_u16 b of None \<Rightarrow> None | Some y \<Rightarrow> Some (x, y)))))\<rparr>"

definition handle_to_meta :: "vm_handle \<Rightarrow> (string, string) hashmap \<Rightarrow> vmm_meta" where
  "handle_to_meta h extra = \<lparr>
     me_backend = vh_backend h, me_owner_id = vh_owner_id h, me_pid = vh_pid h,
     me_api_socket = vh_api_socket h, me_vsock_socket = vh_vsock_socket h,
     me_vsock_cid = vh_vsock_cid h, me_vmm_id = Some (vh_id h), me_extra = extra\<rparr>"

definition subnet_text :: "u16 \<Rightarrow> u16 \<Rightarrow> string" where
  "subnet_text a b = show_nat (unat a) @ ''.'' @ show_nat (unat b)"

lemma meta_to_handle_subnet: "vh_subnet (meta_to_handle m sid) = inherited_subnet m"
  by (simp add: meta_to_handle_def inherited_subnet_def)

lemma inherited_subnet_text:
  "hm_get (me_extra m) ''subnet'' = Some (subnet_text a b) \<Longrightarrow> inherited_subnet m = Some (a, b)"
  using unat_u16_le [of a] unat_u16_le [of b]
  by (simp add: inherited_subnet_def subnet_text_def split_once_append show_nat_no_dot parse_u16_def)

text \<open>The handle rebuilt from the persisted metadata is the one that was stored, when the
  extra map records the handle's subnet the way the provisioning code does.\<close>

lemma meta_to_handle_roundtrip:
  assumes "hm_get extra ''subnet'' = map_option (\<lambda>(a, b). subnet_text a b) (vh_subnet h)"
  shows "meta_to_handle (handle_to_meta h extra) sid = h"
proof -
  have "vh_subnet (meta_to_handle (handle_to_meta h extra) sid) = vh_subnet h"
  proof (cases "vh_subnet h")
    case None
    with assms show ?thesis
      by (simp add: meta_to_handle_subnet inherited_subnet_def handle_to_meta_def)
  next
    case (Some ab)
    obtain a b where "ab = (a, b)" by force
    with Some assms have "inherited_subnet (handle_to_meta h extra) = Some (a, b)"
      by (intro inherited_subnet_text) (simp add: handle_to_meta_def)
    with Some \<open>ab = (a, b)\<close> show ?thesis by (simp add: meta_to_handle_subnet)
  qed
  then show ?thesis
    by (simp add: meta_to_handle_def handle_to_meta_def)
qed

section \<open>Properties\<close>

text \<open>A machine can be found again after a restart: the handle rebuilt from the persisted
  metadata is the handle that was stored, the subnet included, when the extra entries
  record the subnet the way provisioning writes it.\<close>

lemma handle_survives_storage:
  assumes "hm_get extra ''subnet'' = map_option (\<lambda>(a, b). show_nat (unat a) @ ''.'' @ show_nat (unat b)) (vh_subnet h)"
  shows "meta_to_handle (handle_to_meta h extra) sid = h"
  using assms by (intro meta_to_handle_roundtrip) (simp add: subnet_text_def)

lemma handle_survives_storage_witness:
  "let h = \<lparr>vh_id = ''vm'', vh_backend = ''firecracker'', vh_owner_id = None, vh_pid = Some 42,
            vh_api_socket = Some ''/s'', vh_vsock_socket = None, vh_vsock_cid = Some 3, vh_subnet = Some (10, 200)\<rparr>
   in meta_to_handle (handle_to_meta h [(''subnet'', ''10.200'')]) ''sb'' = h"
  unfolding Let_def
  by (rule handle_survives_storage) code_simp

end
