(* ===== verification/Warm_Pool.thy ===== *)
theory Warm_Pool
  imports Vmm_Types
begin

text \<open>
  \<open>crates/clouisle-pool/src/pool.rs\<close>: pre-started virtual machines. Every function takes the
  state behind the mutex and returns it; a function that releases the mutex while it waits
  for the backend is split at those points (\<open>slot_begin\<close>, \<open>slot_ready\<close>, \<open>remove_slot\<close>), and
  \<open>create_slot\<close> composes the pieces. The backend's answers, fresh identifiers and
  \<open>chrono\<close>'s \<open>num_seconds\<close> are arguments; the virtual machines a function stops are part of
  its result. \<open>pool_step\<close> interleaves the critical sections of any number of callers with
  the background task.
\<close>

section \<open>State and operations\<close>

datatype pool_error = SlotNotFound | SlotAlreadyAcquired | InvalidSlotState

datatype slot_state = Preparing | Ready | Acquired | Destroyed

record pool_slot =
  ps_id :: string
  ps_pool_key :: string
  ps_vm_handle :: vm_handle
  ps_state :: slot_state
  ps_created_at :: time
  ps_last_used_at :: time

definition empty_handle :: vm_handle where
  "empty_handle = \<lparr>vh_id = [], vh_backend = [], vh_owner_id = None, vh_pid = None,
     vh_api_socket = None, vh_vsock_socket = None, vh_vsock_cid = None, vh_subnet = None\<rparr>"

definition pool_slot_new :: "time \<Rightarrow> string \<Rightarrow> string \<Rightarrow> pool_slot" where
  "pool_slot_new now uid key = \<lparr>ps_id = uid, ps_pool_key = key, ps_vm_handle = empty_handle,
     ps_state = Preparing, ps_created_at = now, ps_last_used_at = now\<rparr>"

record pool_inner =
  pi_slots :: "pool_slot list"
  pi_templates :: "(string, sandbox_spec) hashmap"
  pi_min_idle :: nat
  pi_max_idle_secs :: u64
  pi_bg_started :: bool

definition pool_new :: "nat \<Rightarrow> u64 \<Rightarrow> pool_inner" where
  "pool_new min_idle max_idle = \<lparr>pi_slots = [], pi_templates = [], pi_min_idle = min_idle,
     pi_max_idle_secs = max_idle, pi_bg_started = False\<rparr>"

text \<open>Marks the background task as started; the flag says whether to spawn it.\<close>

definition ensure_background :: "pool_inner \<Rightarrow> pool_inner \<times> bool" where
  "ensure_background g = (g\<lparr>pi_bg_started := True\<rparr>, \<not> pi_bg_started g)"

definition acquire :: "time \<Rightarrow> string \<Rightarrow> pool_inner \<Rightarrow> pool_inner \<times> pool_slot option" where
  "acquire now key g0 =
     (let g = fst (ensure_background g0); slots = pi_slots g;
          candidates = filter (\<lambda>i. ps_pool_key (slots ! i) = key \<and> ps_state (slots ! i) = Ready)
                         [0..<length slots] in
      case min_by_key (\<lambda>i. ps_last_used_at (slots ! i)) candidates of
        None \<Rightarrow> (g, None)
      | Some pos \<Rightarrow>
          (let slot = (slots ! pos)\<lparr>ps_state := Acquired, ps_last_used_at := now\<rparr>
           in (g\<lparr>pi_slots := slots[pos := slot]\<rparr>, Some slot)))"

definition release :: "time \<Rightarrow> string \<Rightarrow> pool_inner \<Rightarrow> pool_inner \<times> (unit, pool_error) result" where
  "release now sid g0 =
     (let g = fst (ensure_background g0); slots = pi_slots g in
      case position (\<lambda>s. ps_id s = sid) slots of
        None \<Rightarrow> (g, Err SlotNotFound)
      | Some i \<Rightarrow>
          (case ps_state (slots ! i) of
             Acquired \<Rightarrow>
               (g\<lparr>pi_slots := slots[i := (slots ! i)\<lparr>ps_state := Ready, ps_last_used_at := now\<rparr>]\<rparr>, Ok ())
           | Ready \<Rightarrow> (g, Err SlotAlreadyAcquired)
           | _ \<Rightarrow> (g, Err InvalidSlotState)))"

definition remove_at :: "nat \<Rightarrow> 'a list \<Rightarrow> 'a list" where
  "remove_at i xs = take i xs @ drop (Suc i) xs"

text \<open>The third component is the list of virtual machines stopped by force.\<close>

definition discard ::
  "string \<Rightarrow> pool_inner \<Rightarrow> pool_inner \<times> (unit, pool_error) result \<times> vm_handle list" where
  "discard sid g0 =
     (let g = fst (ensure_background g0); slots = pi_slots g in
      case position (\<lambda>s. ps_id s = sid) slots of
        None \<Rightarrow> (g, Err SlotNotFound, [])
      | Some i \<Rightarrow> (g\<lparr>pi_slots := remove_at i slots\<rparr>, Ok (), [ps_vm_handle (slots ! i)]))"

definition ready_count :: "pool_inner \<Rightarrow> pool_inner \<times> nat" where
  "ready_count g0 =
     (let g = fst (ensure_background g0)
      in (g, length (filter (\<lambda>s. ps_state s = Ready) (pi_slots g))))"

definition set_min_idle :: "nat \<Rightarrow> pool_inner \<Rightarrow> pool_inner" where
  "set_min_idle n g0 = (fst (ensure_background g0))\<lparr>pi_min_idle := n\<rparr>"

text \<open>The slot identifier: the image reference with separators replaced, and a fresh UUID.\<close>

definition slot_id :: "sandbox_spec \<Rightarrow> string \<Rightarrow> string" where
  "slot_id sp uid =
     map (\<lambda>c. if c = CHR ''/'' \<or> c = CHR '':'' then CHR ''_'' else c) (ir_reference (sp_image sp))
     @ ''_'' @ uid"

definition slot_begin :: "time \<Rightarrow> string \<Rightarrow> string \<Rightarrow> pool_inner \<Rightarrow> pool_inner" where
  "slot_begin now sid key g = g\<lparr>pi_slots := pi_slots g @ [pool_slot_new now sid key]\<rparr>"

definition remove_slot :: "string \<Rightarrow> pool_inner \<Rightarrow> pool_inner" where
  "remove_slot sid g = g\<lparr>pi_slots := filter (\<lambda>s. ps_id s \<noteq> sid) (pi_slots g)\<rparr>"

definition slot_ready ::
  "time \<Rightarrow> string \<Rightarrow> vm_handle \<Rightarrow> pool_inner \<Rightarrow> pool_inner \<times> pool_slot option" where
  "slot_ready now sid h g =
     (case position (\<lambda>s. ps_id s = sid) (pi_slots g) of
        None \<Rightarrow> (g, None)
      | Some i \<Rightarrow>
          (let s = (pi_slots g ! i)\<lparr>ps_vm_handle := h, ps_state := Ready, ps_last_used_at := now\<rparr>
           in (g\<lparr>pi_slots := (pi_slots g)[i := s]\<rparr>, Some s)))"

text \<open>\<open>created\<close> and \<open>started\<close> are the backend's answers to \<open>create\<close> and \<open>start\<close>.\<close>

definition create_slot ::
  "(vm_handle, clouisle_error) result \<Rightarrow> (unit, clouisle_error) result \<Rightarrow> time \<Rightarrow> time \<Rightarrow> string
   \<Rightarrow> sandbox_spec \<Rightarrow> string \<Rightarrow> pool_inner \<Rightarrow> pool_inner \<times> pool_slot option \<times> vm_handle list" where
  "create_slot created started now now' uid sp key g =
     (let sid = slot_id sp uid; g1 = slot_begin now sid key g in
      case created of
        Err _ \<Rightarrow> (remove_slot sid g1, None, [])
      | Ok h \<Rightarrow>
          (case started of
             Err _ \<Rightarrow> (remove_slot sid g1, None, [h])
           | Ok _ \<Rightarrow> (let (g2, r) = slot_ready now' sid h g1 in (g2, r, []))))"

definition warm ::
  "(u16 \<times> u32 \<times> u32 \<times> u32 option \<Rightarrow> u64) \<Rightarrow> bool
   \<Rightarrow> (vm_handle, clouisle_error) result \<Rightarrow> (unit, clouisle_error) result \<Rightarrow> time \<Rightarrow> time \<Rightarrow> string
   \<Rightarrow> sandbox_spec \<Rightarrow> pool_inner \<Rightarrow> pool_inner \<times> pool_slot option \<times> vm_handle list" where
  "warm hash64 detached created started now now' uid sp g0 =
     (let g = fst (ensure_background g0) in
      if \<not> detached then (g, None, [])
      else
        (let key = pool_key hash64 sp;
             g1 = g\<lparr>pi_templates := hm_insert key sp (pi_templates g)\<rparr>
         in create_slot created started now now' uid sp key g1))"

section \<open>The background task\<close>

definition idle_expired :: "(int \<Rightarrow> int) \<Rightarrow> time \<Rightarrow> u64 \<Rightarrow> pool_slot \<Rightarrow> bool" where
  "idle_expired num_seconds now max_idle s \<longleftrightarrow>
     ps_state s = Ready \<and> sint max_idle \<le> num_seconds (now - ps_last_used_at s)"

definition reap_idle :: "(int \<Rightarrow> int) \<Rightarrow> time \<Rightarrow> pool_inner \<Rightarrow> pool_inner \<times> vm_handle list" where
  "reap_idle num_seconds now g =
     (let mx = pi_max_idle_secs g in
      if mx = 0 then (g, [])
      else (g\<lparr>pi_slots := filter (\<lambda>s. \<not> idle_expired num_seconds now mx s) (pi_slots g)\<rparr>,
            map ps_vm_handle (filter (idle_expired num_seconds now mx) (pi_slots g))))"

definition health_targets :: "pool_inner \<Rightarrow> vm_handle list" where
  "health_targets g = map ps_vm_handle (filter (\<lambda>s. ps_state s = Acquired) (pi_slots g))"

definition health_remove :: "vm_handle \<Rightarrow> pool_inner \<Rightarrow> pool_inner" where
  "health_remove h g =
     g\<lparr>pi_slots := filter (\<lambda>s. vh_id (ps_vm_handle s) \<noteq> vh_id h) (pi_slots g)\<rparr>"

text \<open>\<open>alive\<close> answers the \<open>stats\<close> probe.\<close>

definition health_check :: "(vm_handle \<Rightarrow> bool) \<Rightarrow> pool_inner \<Rightarrow> pool_inner \<times> vm_handle list" where
  "health_check alive g =
     (let dead = filter (\<lambda>h. \<not> alive h) (health_targets g)
      in (fold health_remove dead g, dead))"

definition in_pool :: "pool_inner \<Rightarrow> string \<Rightarrow> nat" where
  "in_pool g key =
     length (filter (\<lambda>s. ps_pool_key s = key \<and> ps_state s \<noteq> Destroyed) (pi_slots g))"

fun hungriest :: "pool_inner \<Rightarrow> (string \<times> nat) option \<Rightarrow> string list \<Rightarrow> (string \<times> nat) option" where
  "hungriest g best [] = best"
| "hungriest g best (k # ks) =
     (case best of
        None \<Rightarrow> hungriest g (Some (k, in_pool g k)) ks
      | Some (b, c) \<Rightarrow> hungriest g (if in_pool g k < c then Some (k, in_pool g k) else best) ks)"

definition replenish_choice :: "pool_inner \<Rightarrow> (string \<times> sandbox_spec) option" where
  "replenish_choice g =
     (if pi_templates g = [] then None
      else if list_ex (\<lambda>s. ps_state s = Preparing) (pi_slots g) then None
      else if pi_min_idle g \<le> length (filter (\<lambda>s. ps_state s = Ready) (pi_slots g)) then None
      else case hungriest g None (map fst (pi_templates g)) of
        None \<Rightarrow> None
      | Some (key, _) \<Rightarrow> map_option (\<lambda>sp. (key, sp)) (hm_get (pi_templates g) key))"

definition replenish ::
  "bool \<Rightarrow> (string \<Rightarrow> sandbox_spec \<Rightarrow> (vm_handle, clouisle_error) result)
   \<Rightarrow> (vm_handle \<Rightarrow> (unit, clouisle_error) result)
   \<Rightarrow> time \<Rightarrow> time \<Rightarrow> string \<Rightarrow> pool_inner \<Rightarrow> pool_inner \<times> vm_handle list" where
  "replenish detached vm_create vm_start now now' uid g =
     (if \<not> detached then (g, [])
      else case replenish_choice g of
        None \<Rightarrow> (g, [])
      | Some (key, sp) \<Rightarrow>
          (let created = vm_create (slot_id sp uid) sp;
               (g', _, stopped) = create_slot created
                 (case created of Ok h \<Rightarrow> vm_start h | Err e \<Rightarrow> Err e) now now' uid sp key g
           in (g', stopped)))"

section \<open>Callers interleaved with the background task\<close>

text \<open>
  \<open>leased\<close> holds the identifiers handed out by \<open>acquire\<close> and not given back, \<open>pending\<close> those of
  the cold starts that wait for the backend. A release, a discard or a health removal may
  come at any moment and name any slot. A fresh UUID is one that is not in use.
\<close>

record pool_system =
  sy_pool :: pool_inner
  sy_leased :: "string set"
  sy_pending :: "string set"

definition slot_ids :: "pool_inner \<Rightarrow> string set" where
  "slot_ids g = ps_id ` set (pi_slots g)"

inductive pool_step :: "(int \<Rightarrow> int) \<Rightarrow> pool_system \<Rightarrow> pool_system \<Rightarrow> bool" for num_seconds where
  step_config: "pi_slots g' = pi_slots (sy_pool S) \<Longrightarrow> pool_step num_seconds S (S\<lparr>sy_pool := g'\<rparr>)"
| step_acquire: "acquire now key (sy_pool S) = (g', r) \<Longrightarrow>
    pool_step num_seconds S (S\<lparr>sy_pool := g', sy_leased := sy_leased S \<union> ps_id ` set_option r\<rparr>)"
| step_release: "release now sid (sy_pool S) = (g', r) \<Longrightarrow>
    pool_step num_seconds S (S\<lparr>sy_pool := g', sy_leased := sy_leased S - {sid}\<rparr>)"
| step_discard: "discard sid (sy_pool S) = (g', r, stopped) \<Longrightarrow>
    pool_step num_seconds S (S\<lparr>sy_pool := g', sy_leased := sy_leased S - {sid}\<rparr>)"
| step_begin: "sid \<notin> slot_ids (sy_pool S) \<union> sy_leased S \<union> sy_pending S \<Longrightarrow>
    pool_step num_seconds S
      (S\<lparr>sy_pool := slot_begin now sid key (sy_pool S), sy_pending := insert sid (sy_pending S)\<rparr>)"
| step_fail: "sid \<in> sy_pending S \<Longrightarrow>
    pool_step num_seconds S
      (S\<lparr>sy_pool := remove_slot sid (sy_pool S), sy_pending := sy_pending S - {sid}\<rparr>)"
| step_ready: "sid \<in> sy_pending S \<Longrightarrow> slot_ready now sid h (sy_pool S) = (g', r) \<Longrightarrow>
    pool_step num_seconds S (S\<lparr>sy_pool := g', sy_pending := sy_pending S - {sid}\<rparr>)"
| step_reap: "reap_idle num_seconds now (sy_pool S) = (g', stopped) \<Longrightarrow>
    pool_step num_seconds S (S\<lparr>sy_pool := g'\<rparr>)"
| step_health: "pool_step num_seconds S (S\<lparr>sy_pool := health_remove h (sy_pool S)\<rparr>)"

definition pool_start :: "nat \<Rightarrow> u64 \<Rightarrow> pool_system" where
  "pool_start n mx = \<lparr>sy_pool = pool_new n mx, sy_leased = {}, sy_pending = {}\<rparr>"

definition pool_reach :: "(int \<Rightarrow> int) \<Rightarrow> nat \<Rightarrow> u64 \<Rightarrow> pool_system \<Rightarrow> bool" where
  "pool_reach num_seconds n mx S \<longleftrightarrow> (pool_step num_seconds)\<^sup>*\<^sup>* (pool_start n mx) S"

section \<open>Leases are exclusive\<close>

definition slot_agrees :: "string set \<Rightarrow> string set \<Rightarrow> pool_slot \<Rightarrow> bool" where
  "slot_agrees L P s \<longleftrightarrow>
     (ps_state s = Acquired \<longleftrightarrow> ps_id s \<in> L) \<and> (ps_state s = Preparing \<longleftrightarrow> ps_id s \<in> P)
     \<and> ps_state s \<noteq> Destroyed"

definition slots_inv :: "string set \<Rightarrow> string set \<Rightarrow> pool_slot list \<Rightarrow> bool" where
  "slots_inv L P xs \<longleftrightarrow> distinct (map ps_id xs) \<and> (\<forall>s\<in>set xs. slot_agrees L P s)"

definition pool_inv :: "pool_system \<Rightarrow> bool" where
  "pool_inv S \<longleftrightarrow> slots_inv (sy_leased S) (sy_pending S) (pi_slots (sy_pool S))"

lemma slots_inv_filter: "slots_inv L P xs \<Longrightarrow> slots_inv L P (filter Q xs)"
  by (auto simp: slots_inv_def distinct_map_filter)

lemma slots_inv_away:
  assumes "slots_inv L P xs" and "x \<notin> ps_id ` set xs" and "L' - {x} = L - {x}" and "P' - {x} = P - {x}"
  shows "slots_inv L' P' xs"
proof -
  have "slot_agrees L' P' s" if "s \<in> set xs" for s
    using that assms unfolding slots_inv_def slot_agrees_def by blast
  then show ?thesis using assms(1) by (simp add: slots_inv_def)
qed

lemma slots_inv_update:
  assumes inv: "slots_inv L P xs" and i: "i < length xs" and x: "ps_id s = ps_id (xs ! i)"
    and s: "slot_agrees L' P' s" and L: "L' - {ps_id s} = L - {ps_id s}" and P: "P' - {ps_id s} = P - {ps_id s}"
  shows "slots_inv L' P' (xs[i := s])"
proof -
  have d: "distinct (map ps_id xs)" using inv by (simp add: slots_inv_def)
  have ids: "map ps_id (xs[i := s]) = map ps_id xs"
    using i x by (simp add: map_update list_update_same_conv)
  have "slot_agrees L' P' t" if t: "t \<in> set (xs[i := s])" for t
  proof -
    obtain j where j: "j < length xs" and tj: "t = (xs[i := s]) ! j"
      using t by (auto simp: in_set_conv_nth)
    show ?thesis
    proof (cases "j = i")
      case False
      have "slot_agrees L P t" using inv j tj False by (simp add: slots_inv_def)
      moreover have "ps_id t \<noteq> ps_id s"
        using d i j False x tj by (simp add: distinct_conv_nth)
      ultimately show ?thesis using L P unfolding slot_agrees_def by blast
    qed (use s i tj in simp)
  qed
  with d ids show ?thesis by (simp add: slots_inv_def)
qed

lemma not_in_position_None:
  "position (\<lambda>s. ps_id s = sid) xs = None \<Longrightarrow> sid \<notin> ps_id ` set xs"
  by (auto simp: position_None_iff)

lemma pi_slots_ensure_background [simp]: "pi_slots (fst (ensure_background g)) = pi_slots g"
  by (simp add: ensure_background_def)

lemma pi_templates_ensure_background [simp]:
  "pi_templates (fst (ensure_background g)) = pi_templates g"
  by (simp add: ensure_background_def)

text \<open>What \<open>acquire\<close> returns: a ready slot of the key, unused for the longest time.\<close>

lemma acquire_SomeD:
  assumes "acquire now key g = (g', Some s)"
  obtains i where "i < length (pi_slots g)" and "ps_pool_key (pi_slots g ! i) = key"
    and "ps_state (pi_slots g ! i) = Ready"
    and "s = (pi_slots g ! i)\<lparr>ps_state := Acquired, ps_last_used_at := now\<rparr>"
    and "pi_slots g' = (pi_slots g)[i := s]"
    and "\<forall>t\<in>set (pi_slots g). ps_pool_key t = key \<and> ps_state t = Ready
           \<longrightarrow> ps_last_used_at (pi_slots g ! i) \<le> ps_last_used_at t"
proof -
  let ?c = "filter (\<lambda>i. ps_pool_key (pi_slots g ! i) = key \<and> ps_state (pi_slots g ! i) = Ready)
              [0..<length (pi_slots g)]"
  obtain i where m: "min_by_key (\<lambda>i. ps_last_used_at (pi_slots g ! i)) ?c = Some i"
    and s: "s = (pi_slots g ! i)\<lparr>ps_state := Acquired, ps_last_used_at := now\<rparr>"
    and g': "pi_slots g' = (pi_slots g)[i := s]"
    using assms by (auto simp: acquire_def Let_def split: option.splits)
  from min_by_key_SomeD [OF m]
  have i: "i \<in> set ?c" and least: "\<forall>j\<in>set ?c. ps_last_used_at (pi_slots g ! i) \<le> ps_last_used_at (pi_slots g ! j)"
    by blast+
  show ?thesis
  proof (rule that)
    show "\<forall>t\<in>set (pi_slots g). ps_pool_key t = key \<and> ps_state t = Ready
            \<longrightarrow> ps_last_used_at (pi_slots g ! i) \<le> ps_last_used_at t"
      using least by (auto simp: in_set_conv_nth)
  qed (use i s g' in auto)
qed

lemma acquire_NoneD:
  assumes "acquire now key g = (g', None)"
  shows "pi_slots g' = pi_slots g"
    and "\<forall>t\<in>set (pi_slots g). \<not> (ps_pool_key t = key \<and> ps_state t = Ready)"
proof -
  show "pi_slots g' = pi_slots g"
    using assms by (auto simp: acquire_def Let_def split: option.splits)
  have "filter (\<lambda>i. ps_pool_key (pi_slots g ! i) = key \<and> ps_state (pi_slots g ! i) = Ready)
          [0..<length (pi_slots g)] = []"
    using assms by (auto simp: acquire_def Let_def split: option.splits)
  then show "\<forall>t\<in>set (pi_slots g). \<not> (ps_pool_key t = key \<and> ps_state t = Ready)"
    by (auto simp: filter_empty_conv in_set_conv_nth)
qed

lemma acquire_inv:
  assumes inv: "slots_inv L P (pi_slots g)" and acq: "acquire now key g = (g', r)"
  shows "slots_inv (L \<union> ps_id ` set_option r) P (pi_slots g')"
proof (cases r)
  case None
  then show ?thesis using acquire_NoneD(1) acq inv by simp
next
  case (Some s)
  obtain i where i: "i < length (pi_slots g)" and rdy: "ps_state (pi_slots g ! i) = Ready"
    and s: "s = (pi_slots g ! i)\<lparr>ps_state := Acquired, ps_last_used_at := now\<rparr>"
    and g': "pi_slots g' = (pi_slots g)[i := s]"
    using acquire_SomeD acq Some by metis
  have "slot_agrees L P (pi_slots g ! i)" using inv i by (simp add: slots_inv_def)
  then have "slot_agrees (insert (ps_id s) L) P s" using rdy s by (simp add: slot_agrees_def)
  then show ?thesis using slots_inv_update [OF inv i] g' s Some by simp
qed

lemma acquire_not_leased:
  assumes inv: "slots_inv L P (pi_slots g)" and acq: "acquire now key g = (g', Some s)"
  shows "ps_id s \<notin> L"
proof -
  obtain i where "i < length (pi_slots g)" and "ps_state (pi_slots g ! i) = Ready" and "ps_id s = ps_id (pi_slots g ! i)"
    using acquire_SomeD [OF acq] by (metis pool_slot.select_convs(1) pool_slot.surjective pool_slot.update_convs(4,6))
  then have "slot_agrees L P (pi_slots g ! i)" and "ps_state (pi_slots g ! i) = Ready"
    and "ps_id s = ps_id (pi_slots g ! i)"
    using inv by (simp_all add: slots_inv_def)
  then show ?thesis by (simp add: slot_agrees_def)
qed

lemma release_slots:
  assumes "release now sid g = (g', r)"
  shows "pi_slots g' =
    (case position (\<lambda>s. ps_id s = sid) (pi_slots g) of
       None \<Rightarrow> pi_slots g
     | Some i \<Rightarrow>
         (if ps_state (pi_slots g ! i) = Acquired
          then (pi_slots g)[i := (pi_slots g ! i)\<lparr>ps_state := Ready, ps_last_used_at := now\<rparr>]
          else pi_slots g))"
proof -
  have g': "g' = fst (release now sid g)" using assms by simp
  show ?thesis
    unfolding g' release_def Let_def pi_slots_ensure_background
    by (cases "position (\<lambda>s. ps_id s = sid) (pi_slots g)")
       (simp_all split: slot_state.split)
qed

lemma release_inv:
  assumes inv: "slots_inv L P (pi_slots g)" and rel: "release now sid g = (g', r)"
  shows "slots_inv (L - {sid}) P (pi_slots g')"
proof (cases "position (\<lambda>s. ps_id s = sid) (pi_slots g)")
  case None
  then show ?thesis
    using release_slots [OF rel] slots_inv_away [OF inv not_in_position_None] by simp
next
  case (Some i)
  note p = position_SomeD [OF Some]
  then have i: "i < length (pi_slots g)" by simp
  have ag: "slot_agrees L P (pi_slots g ! i)" using inv i by (simp add: slots_inv_def)
  show ?thesis
  proof (cases "ps_state (pi_slots g ! i) = Acquired")
    case True
    let ?s = "(pi_slots g ! i)\<lparr>ps_state := Ready, ps_last_used_at := now\<rparr>"
    have "slot_agrees (L - {sid}) P ?s" using ag p True by (simp add: slot_agrees_def)
    then have "slots_inv (L - {sid}) P ((pi_slots g)[i := ?s])"
      using slots_inv_update [OF inv i] p by simp
    then show ?thesis using release_slots [OF rel] Some True by simp
  next
    case False
    then have "sid \<notin> L" using ag p by (simp add: slot_agrees_def)
    then have "L - {sid} = L" by blast
    then show ?thesis using release_slots [OF rel] Some False inv by simp
  qed
qed

lemma set_remove_at: "set (remove_at i xs) \<subseteq> set xs"
  by (auto simp: remove_at_def dest: in_set_takeD in_set_dropD)

lemma remove_at_map: "map f (remove_at i xs) = remove_at i (map f xs)"
  by (simp add: remove_at_def take_map drop_map)

lemma remove_at_distinct:
  assumes "distinct xs" and "i < length xs"
  shows "distinct (remove_at i xs)" and "xs ! i \<notin> set (remove_at i xs)"
proof -
  have "distinct (take i xs @ (xs ! i) # drop (Suc i) xs)"
    using assms by (simp add: id_take_nth_drop [symmetric])
  then show "distinct (remove_at i xs)" and "xs ! i \<notin> set (remove_at i xs)"
    by (auto simp: remove_at_def)
qed

lemma discard_inv:
  assumes inv: "slots_inv L P (pi_slots g)" and dis: "discard sid g = (g', r, st)"
  shows "slots_inv (L - {sid}) P (pi_slots g')"
proof (cases "position (\<lambda>s. ps_id s = sid) (pi_slots g)")
  case None
  then show ?thesis
    using dis slots_inv_away [OF inv not_in_position_None] by (auto simp: discard_def Let_def)
next
  case (Some i)
  let ?xs = "remove_at i (pi_slots g)"
  note p = position_SomeD [OF Some]
  have d: "distinct (map ps_id (pi_slots g))" using inv by (simp add: slots_inv_def)
  have inv': "slots_inv L P ?xs"
    using inv remove_at_distinct(1) [OF d, of i] p set_remove_at [of i "pi_slots g"]
    by (auto simp: slots_inv_def remove_at_map)
  have "sid \<notin> set (map ps_id ?xs)"
    using remove_at_distinct(2) [OF d, of i] p by (simp add: remove_at_map)
  then have "slots_inv (L - {sid}) P ?xs" using slots_inv_away [OF inv', of sid] by simp
  then show ?thesis using dis Some by (auto simp: discard_def Let_def)
qed

lemma slot_ready_inv:
  assumes inv: "slots_inv L P (pi_slots g)" and pend: "sid \<in> P"
    and rdy: "slot_ready now sid h g = (g', r)"
  shows "slots_inv L (P - {sid}) (pi_slots g')"
proof (cases "position (\<lambda>s. ps_id s = sid) (pi_slots g)")
  case None
  then show ?thesis
    using rdy slots_inv_away [OF inv not_in_position_None] by (auto simp: slot_ready_def)
next
  case (Some i)
  note p = position_SomeD [OF Some]
  then have i: "i < length (pi_slots g)" by simp
  let ?s = "(pi_slots g ! i)\<lparr>ps_vm_handle := h, ps_state := Ready, ps_last_used_at := now\<rparr>"
  have "slot_agrees L P (pi_slots g ! i)" using inv i by (simp add: slots_inv_def)
  then have "slot_agrees L (P - {sid}) ?s" using p pend by (auto simp: slot_agrees_def)
  then have "slots_inv L (P - {sid}) ((pi_slots g)[i := ?s])"
    using slots_inv_update [OF inv i] p by simp
  then show ?thesis using rdy Some by (auto simp: slot_ready_def Let_def)
qed

lemma pool_step_inv:
  assumes "pool_step num_seconds S S'" and "pool_inv S"
  shows "pool_inv S'"
  using assms
proof (induction rule: pool_step.induct)
  case (step_begin sid S now key)
  let ?P = "insert sid (sy_pending S)"
  have "sid \<notin> ps_id ` set (pi_slots (sy_pool S))" using step_begin by (simp add: slot_ids_def)
  moreover from this have "slots_inv (sy_leased S) ?P (pi_slots (sy_pool S))"
    using step_begin slots_inv_away [of "sy_leased S" "sy_pending S" _ sid] by (simp add: pool_inv_def)
  ultimately show ?case using step_begin
    by (simp add: pool_inv_def slots_inv_def slot_begin_def pool_slot_new_def slot_agrees_def)
next
  case (step_fail sid S)
  let ?xs = "filter (\<lambda>s. ps_id s \<noteq> sid) (pi_slots (sy_pool S))"
  have "slots_inv (sy_leased S) (sy_pending S) ?xs"
    using step_fail slots_inv_filter by (simp add: pool_inv_def)
  then have "slots_inv (sy_leased S) (sy_pending S - {sid}) ?xs"
    by (rule slots_inv_away [of _ _ _ sid]) auto
  then show ?case by (simp add: pool_inv_def remove_slot_def)
qed (auto simp: pool_inv_def acquire_inv release_inv discard_inv slot_ready_inv reap_idle_def
       health_remove_def slots_inv_filter Let_def split: if_splits)

lemma pool_reach_inv:
  assumes "pool_reach num_seconds n mx S"
  shows "pool_inv S"
proof -
  have "(pool_step num_seconds)\<^sup>*\<^sup>* (pool_start n mx) S" using assms by (simp add: pool_reach_def)
  then show ?thesis
  proof (induction rule: rtranclp_induct)
    case base
    show ?case by (simp add: pool_inv_def pool_start_def pool_new_def slots_inv_def)
  qed (use pool_step_inv in blast)
qed

section \<open>Properties\<close>

text \<open>C2: in every state that callers and the background task can reach together, \<open>acquire\<close> hands
  out a slot that nobody holds: it was ready, it has the requested key, and no other ready slot
  of that key has been unused for longer.\<close>

theorem acquire_exclusive:
  assumes "pool_reach num_seconds n mx S" and "acquire now key (sy_pool S) = (g', Some s)"
  shows "ps_id s \<notin> sy_leased S \<and> ps_pool_key s = key \<and> ps_state s = Acquired
    \<and> (\<exists>old\<in>set (pi_slots (sy_pool S)). ps_state old = Ready
         \<and> s = old\<lparr>ps_state := Acquired, ps_last_used_at := now\<rparr>
         \<and> (\<forall>t\<in>set (pi_slots (sy_pool S)). ps_pool_key t = key \<and> ps_state t = Ready
              \<longrightarrow> ps_last_used_at old \<le> ps_last_used_at t))"
proof -
  have inv: "slots_inv (sy_leased S) (sy_pending S) (pi_slots (sy_pool S))"
    using pool_reach_inv [OF assms(1)] by (simp add: pool_inv_def)
  obtain i where i: "i < length (pi_slots (sy_pool S))" "ps_pool_key (pi_slots (sy_pool S) ! i) = key"
    "ps_state (pi_slots (sy_pool S) ! i) = Ready"
    and s: "s = (pi_slots (sy_pool S) ! i)\<lparr>ps_state := Acquired, ps_last_used_at := now\<rparr>"
    and lru: "\<forall>t\<in>set (pi_slots (sy_pool S)). ps_pool_key t = key \<and> ps_state t = Ready
      \<longrightarrow> ps_last_used_at (pi_slots (sy_pool S) ! i) \<le> ps_last_used_at t"
    using acquire_SomeD [OF assms(2)] by metis
  have "ps_pool_key s = key" and "ps_state s = Acquired" using s i(2) by simp_all
  moreover have "ps_id s \<notin> sy_leased S" by (rule acquire_not_leased [OF inv assms(2)])
  moreover have "pi_slots (sy_pool S) ! i \<in> set (pi_slots (sy_pool S))" using i(1) by simp
  ultimately show ?thesis using i(3) s lru by blast
qed

text \<open>A state with one slot warmed and not yet taken.\<close>

definition one_ready :: pool_system where
  "one_ready = \<lparr>sy_pool = fst (slot_ready 5 ''a'' empty_handle (slot_begin 1 ''a'' ''k'' (pool_new 1 300))),
     sy_leased = {}, sy_pending = {}\<rparr>"

lemma one_ready_reach: "pool_reach num_seconds 1 300 one_ready"
proof -
  let ?S1 = "(pool_start 1 300)\<lparr>sy_pool := slot_begin 1 ''a'' ''k'' (sy_pool (pool_start 1 300)),
               sy_pending := {''a''}\<rparr>"
  have 1: "pool_step num_seconds (pool_start 1 300) ?S1"
    using pool_step.step_begin [of "''a''" "pool_start 1 300" num_seconds 1 "''k''"]
    by (simp add: pool_start_def pool_new_def slot_ids_def)
  have 2: "pool_step num_seconds ?S1 one_ready"
    using pool_step.step_ready [of "''a''" ?S1 5 empty_handle
        "fst (slot_ready 5 ''a'' empty_handle (sy_pool ?S1))" _ num_seconds]
    by (simp add: pool_start_def one_ready_def prod_eq_iff)
  show ?thesis unfolding pool_reach_def using 1 2 by (meson r_into_rtranclp rtranclp_trans)
qed

lemma acquire_one_ready:
  "acquire 9 ''k'' (sy_pool one_ready) =
    (fst (acquire 9 ''k'' (sy_pool one_ready)),
     Some \<lparr>ps_id = ''a'', ps_pool_key = ''k'', ps_vm_handle = empty_handle, ps_state = Acquired,
           ps_created_at = 1, ps_last_used_at = 9\<rparr>)"
  by (simp add: one_ready_def acquire_def Let_def slot_ready_def slot_begin_def pool_new_def
      pool_slot_new_def ensure_background_def)

theorem acquire_exclusive_witness:
  "ps_id \<lparr>ps_id = ''a'', ps_pool_key = ''k'', ps_vm_handle = empty_handle, ps_state = Acquired,
          ps_created_at = 1, ps_last_used_at = 9\<rparr> \<notin> sy_leased one_ready"
  using acquire_exclusive [OF one_ready_reach acquire_one_ready] by blast

text \<open>The idle reaper stops exactly the virtual machines it removes, removes a slot only when
  it is ready and idle for the configured time, and so never takes away a slot that a caller
  holds or that is still being prepared.\<close>

lemma reap_idle_safe:
  assumes "pool_reach num_seconds n mx S" and "reap_idle num_seconds now (sy_pool S) = (g', stopped)"
  shows "stopped = map ps_vm_handle (filter (\<lambda>s. s \<notin> set (pi_slots g')) (pi_slots (sy_pool S)))
    \<and> (\<forall>s\<in>set (pi_slots (sy_pool S)). s \<in> set (pi_slots g') \<longleftrightarrow>
         \<not> (pi_max_idle_secs (sy_pool S) \<noteq> 0 \<and> ps_state s = Ready
            \<and> sint (pi_max_idle_secs (sy_pool S)) \<le> num_seconds (now - ps_last_used_at s)))
    \<and> slot_ids g' \<inter> (sy_leased S \<union> sy_pending S) = slot_ids (sy_pool S) \<inter> (sy_leased S \<union> sy_pending S)"
proof -
  let ?g = "sy_pool S" and ?e = "idle_expired num_seconds now (pi_max_idle_secs (sy_pool S))"
  have agree: "\<forall>s\<in>set (pi_slots ?g). slot_agrees (sy_leased S) (sy_pending S) s"
    using pool_reach_inv [OF assms(1)] by (simp add: pool_inv_def slots_inv_def)
  have slots: "pi_slots g' = filter (\<lambda>s. \<not> (pi_max_idle_secs ?g \<noteq> 0 \<and> ?e s)) (pi_slots ?g)"
    using assms(2) by (auto simp: reap_idle_def Let_def split: if_splits)
  have stopped: "stopped = map ps_vm_handle (filter (\<lambda>s. pi_max_idle_secs ?g \<noteq> 0 \<and> ?e s) (pi_slots ?g))"
    using assms(2) by (auto simp: reap_idle_def Let_def split: if_splits)
  have gone: "s \<notin> set (pi_slots g') \<longleftrightarrow> pi_max_idle_secs ?g \<noteq> 0 \<and> ?e s" if "s \<in> set (pi_slots ?g)" for s
    using that by (auto simp: slots)
  have "s \<in> set (pi_slots g')"
    if "s \<in> set (pi_slots ?g)" and "ps_id s \<in> sy_leased S \<union> sy_pending S" for s
  proof -
    have "ps_state s \<noteq> Ready" using agree that unfolding slot_agrees_def by fastforce
    then show ?thesis using gone [OF that(1)] by (auto simp: idle_expired_def)
  qed
  moreover have "set (pi_slots g') \<subseteq> set (pi_slots ?g)" by (auto simp: slots)
  ultimately have "slot_ids g' \<inter> (sy_leased S \<union> sy_pending S) = slot_ids ?g \<inter> (sy_leased S \<union> sy_pending S)"
    unfolding slot_ids_def by blast
  moreover have "stopped = map ps_vm_handle (filter (\<lambda>s. s \<notin> set (pi_slots g')) (pi_slots ?g))"
    using gone by (simp add: stopped cong: filter_cong)
  ultimately show ?thesis using gone unfolding idle_expired_def by blast
qed

lemma reap_idle_safe_witness:
  "slot_ids (fst (reap_idle (\<lambda>d. d) 400 (sy_pool one_ready))) \<inter> (sy_leased one_ready \<union> sy_pending one_ready)
   = slot_ids (sy_pool one_ready) \<inter> (sy_leased one_ready \<union> sy_pending one_ready)"
  using reap_idle_safe [OF one_ready_reach, of "\<lambda>d. d" 400 _ "snd (reap_idle (\<lambda>d. d) 400 (sy_pool one_ready))"]
  by (metis prod.collapse)

lemma hungriest_Some:
  "hungriest g (Some (b, in_pool g b)) ks = Some (k, c) \<Longrightarrow>
   k \<in> insert b (set ks) \<and> c = in_pool g k \<and> (\<forall>x\<in>insert b (set ks). c \<le> in_pool g x)"
proof (induction ks arbitrary: b)
  case (Cons x ks)
  show ?case
    using Cons.IH [of x] Cons.IH [of b] Cons.prems by (auto split: if_splits)
qed simp

lemma hungriest_defined: "\<exists>r. hungriest g (Some b) ks = Some r"
  by (induction ks arbitrary: b) (auto split: prod.split)

lemma hungriest_None:
  assumes "ks \<noteq> []"
  obtains k where "hungriest g None ks = Some (k, in_pool g k)" and "k \<in> set ks"
    and "\<forall>x\<in>set ks. in_pool g k \<le> in_pool g x"
proof -
  obtain x xs where ks: "ks = x # xs" using assms by (cases ks) auto
  obtain k c where r: "hungriest g (Some (x, in_pool g x)) xs = Some (k, c)"
    using hungriest_defined by (metis surj_pair)
  from hungriest_Some [OF r] show ?thesis using that r by (auto simp: ks)
qed

lemma hm_get_key: "k \<in> fst ` set m \<Longrightarrow> \<exists>v. hm_get m k = Some v"
  by (induction m) (auto simp: hm_get_def)

abbreviation ready_slots :: "pool_inner \<Rightarrow> nat" where
  "ready_slots g \<equiv> length (filter (\<lambda>s. ps_state s = Ready) (pi_slots g))"

text \<open>The background task decides to cold start one more machine exactly when some template is
  registered, no start is under way and fewer slots than the minimum are ready; it then
  chooses a registered template that has the fewest slots in the pool.\<close>

lemma replenish_choice_hungriest:
  "(replenish_choice g = None \<longleftrightarrow>
      pi_templates g = [] \<or> (\<exists>s\<in>set (pi_slots g). ps_state s = Preparing) \<or> pi_min_idle g \<le> ready_slots g)
   \<and> (case replenish_choice g of
        None \<Rightarrow> True
      | Some (key, sp) \<Rightarrow> hm_get (pi_templates g) key = Some sp
          \<and> Min (in_pool g ` fst ` set (pi_templates g)) = in_pool g key)"
proof (cases "pi_templates g = []")
  case True
  then show ?thesis by (simp add: replenish_choice_def)
next
  case False
  then obtain k where h: "hungriest g None (map fst (pi_templates g)) = Some (k, in_pool g k)"
    and k: "k \<in> fst ` set (pi_templates g)" and least: "\<forall>x\<in>fst ` set (pi_templates g). in_pool g k \<le> in_pool g x"
    using hungriest_None [of "map fst (pi_templates g)" g] by auto
  obtain sp where sp: "hm_get (pi_templates g) k = Some sp" using hm_get_key [OF k] by blast
  have "Min (in_pool g ` fst ` set (pi_templates g)) = in_pool g k"
    using k least by (intro Min_eqI) auto
  then show ?thesis using False h sp by (auto simp: replenish_choice_def list_ex_iff)
qed

lemma position_fresh_last:
  "sid \<notin> ps_id ` set xs \<Longrightarrow> ps_id s = sid \<Longrightarrow>
   position (\<lambda>s. ps_id s = sid) (xs @ [s]) = Some (length xs)"
  by (induction xs) auto

text \<open>A cold start with a fresh identifier adds one ready slot, or changes nothing and stops
  the machine if one was created.\<close>

lemma create_slot_cases:
  assumes "slot_id sp uid \<notin> slot_ids g"
  shows "create_slot created started now now' uid sp key g =
    (case created of
       Err _ \<Rightarrow> (g, None, [])
     | Ok h \<Rightarrow>
         (case started of
            Err _ \<Rightarrow> (g, None, [h])
          | Ok _ \<Rightarrow>
              (let s = \<lparr>ps_id = slot_id sp uid, ps_pool_key = key, ps_vm_handle = h, ps_state = Ready,
                        ps_created_at = now, ps_last_used_at = now'\<rparr>
               in (g\<lparr>pi_slots := pi_slots g @ [s]\<rparr>, Some s, []))))"
proof -
  have fresh: "slot_id sp uid \<notin> ps_id ` set (pi_slots g)" using assms by (simp add: slot_ids_def)
  then have "filter (\<lambda>s. ps_id s \<noteq> slot_id sp uid) (pi_slots g) = pi_slots g"
    unfolding filter_id_conv by (metis image_eqI)
  moreover have "position (\<lambda>s. ps_id s = slot_id sp uid)
      (pi_slots g @ [pool_slot_new now (slot_id sp uid) key]) = Some (length (pi_slots g))"
    by (rule position_fresh_last [OF fresh]) (simp add: pool_slot_new_def)
  ultimately show ?thesis
    by (auto simp: create_slot_def Let_def slot_begin_def remove_slot_def slot_ready_def
        pool_slot_new_def split: sum.split)
qed

text \<open>One round of replenishment adds at most one ready slot and never lifts the number of ready
  slots above the larger of the minimum and what was there; when the backend fails, the
  slots are what they were and a machine that was created is stopped.\<close>

lemma replenish_bounded:
  assumes "\<And>sp. slot_id sp uid \<notin> slot_ids g"
    and "replenish detached vm_create vm_start now now' uid g = (g', stopped)"
  shows "ready_slots g' \<le> Suc (ready_slots g) \<and> ready_slots g' \<le> max (pi_min_idle g) (ready_slots g)
    \<and> (pi_slots g' = pi_slots g \<or>
       (\<exists>s. pi_slots g' = pi_slots g @ [s] \<and> ps_state s = Ready \<and> stopped = []
          \<and> vm_start (ps_vm_handle s) = Ok ()))
    \<and> (\<forall>h\<in>set stopped. \<exists>sp. vm_create (slot_id sp uid) sp = Ok h)"
proof (cases "detached \<and> replenish_choice g \<noteq> None")
  case False
  then have "g' = g \<and> stopped = []"
    using assms(2) by (cases "replenish_choice g") (auto simp: replenish_def split: if_splits)
  then show ?thesis by simp
next
  case True
  then obtain key sp where c: "replenish_choice g = Some (key, sp)" and d: detached by auto
  then have "ready_slots g < pi_min_idle g" by (auto simp: replenish_choice_def split: if_splits)
  moreover have "replenish detached vm_create vm_start now now' uid g =
      (case vm_create (slot_id sp uid) sp of
         Err _ \<Rightarrow> (g, [])
       | Ok h \<Rightarrow> (case vm_start h of
           Err _ \<Rightarrow> (g, [h])
         | Ok _ \<Rightarrow> (g\<lparr>pi_slots := pi_slots g @ [\<lparr>ps_id = slot_id sp uid, ps_pool_key = key,
                     ps_vm_handle = h, ps_state = Ready, ps_created_at = now, ps_last_used_at = now'\<rparr>]\<rparr>, [])))"
    using c d by (auto simp: replenish_def create_slot_cases [OF assms(1)] Let_def split: sum.split)
  ultimately show ?thesis
    using assms(2) by (cases "vm_create (slot_id sp uid) sp"; cases "vm_start (projr (vm_create (slot_id sp uid) sp))") auto
qed

lemma replenish_bounded_witness:
  "\<exists>g' stopped. replenish True (\<lambda>i sp. Ok empty_handle) (\<lambda>h. Ok ()) 1 2 ''u''
      ((pool_new 1 300)\<lparr>pi_templates := [(''k'', default_spec)]\<rparr>) = (g', stopped)
    \<and> ready_slots g' \<le> max 1 0"
proof -
  let ?g = "(pool_new 1 300)\<lparr>pi_templates := [(''k'', default_spec)]\<rparr>"
  have fresh: "slot_id sp ''u'' \<notin> slot_ids ?g" for sp by (simp add: slot_ids_def pool_new_def)
  obtain g' stopped where r: "replenish True (\<lambda>i sp. Ok empty_handle) (\<lambda>h. Ok ()) 1 2 ''u'' ?g = (g', stopped)"
    by (metis surj_pair)
  have "ready_slots g' \<le> max (pi_min_idle ?g) (ready_slots ?g)"
    using replenish_bounded [OF fresh r] by blast
  then show ?thesis using r by (auto simp: pool_new_def)
qed

end
