(* ===== verification/Admission.thy ===== *)
theory Admission
  imports Sandbox_Spec
begin

text \<open>
  \<open>crates/clouisle-scheduler/src/admission.rs\<close>: the resource pool of one host. The tokio
  semaphore is the parameter \<open>ops\<close>, a record of its operations; \<open>semaphore_laws\<close> states
  what its documentation promises about the number of available permits. \<open>admit\<close> and
  \<open>reservation_drop\<close> are the whole functions; \<open>admission_step\<close> is the same code one
  semaphore or lock operation at a time, so that any number of tasks may interleave. The
  lemmas show that no interleaving over-commits a resource, that the tracked totals are
  exactly the live reservations and never wrap, and that a rejected request leaves every
  permit where it was.
\<close>

section \<open>The semaphore interface\<close>

record 's semaphore_ops =
  sem_new :: "nat \<Rightarrow> 's"
  sem_try_acquire_many :: "nat \<Rightarrow> 's \<Rightarrow> 's option"
  sem_release :: "nat \<Rightarrow> 's \<Rightarrow> 's"
  sem_available :: "'s \<Rightarrow> nat"

definition MAX_PERMITS :: nat where
  "MAX_PERMITS = 2 ^ 61 - 1"

definition semaphore_laws :: "'s semaphore_ops \<Rightarrow> bool" where
  "semaphore_laws ops \<longleftrightarrow>
     (\<forall>n\<le>MAX_PERMITS. sem_available ops (sem_new ops n) = n) \<and>
     (\<forall>n s. sem_try_acquire_many ops n s = None \<longleftrightarrow> sem_available ops s < n) \<and>
     (\<forall>n s s'. sem_try_acquire_many ops n s = Some s' \<longrightarrow>
        sem_available ops s = sem_available ops s' + n) \<and>
     (\<forall>n s. sem_available ops s + n \<le> MAX_PERMITS \<longrightarrow>
        sem_available ops (sem_release ops n s) = sem_available ops s + n)"

text \<open>The permit counter that the documentation describes satisfies the laws.\<close>

definition counter_ops :: "nat semaphore_ops" where
  "counter_ops = \<lparr>sem_new = (\<lambda>n. n),
     sem_try_acquire_many = (\<lambda>n s. if n \<le> s then Some (s - n) else None),
     sem_release = (\<lambda>n s. s + n), sem_available = (\<lambda>s. s)\<rparr>"

lemma counter_ops_laws: "semaphore_laws counter_ops"
  by (auto simp: semaphore_laws_def counter_ops_def)

section \<open>The pool\<close>

record allocated =
  al_vcpu :: u16
  al_memory_mb :: u32
  al_disk_mb :: u32
  al_count :: u64

record 's resource_pool =
  rp_vcpu_sem :: 's
  rp_mem_sem :: 's
  rp_disk_sem :: 's
  rp_max_sandboxes :: 's
  rp_tracking :: allocated
  rp_capacity :: resources

definition resource_pool_new :: "'s semaphore_ops \<Rightarrow> resources \<Rightarrow> nat \<Rightarrow> 's resource_pool" where
  "resource_pool_new ops cap mx = \<lparr>
     rp_vcpu_sem = sem_new ops (unat (vcpu cap)),
     rp_mem_sem = sem_new ops (unat (memory_mb cap)),
     rp_disk_sem = sem_new ops (unat (disk_mb cap)),
     rp_max_sandboxes = sem_new ops mx,
     rp_tracking = \<lparr>al_vcpu = 0, al_memory_mb = 0, al_disk_mb = 0, al_count = 0\<rparr>,
     rp_capacity = cap\<rparr>"

definition track :: "resources \<Rightarrow> allocated \<Rightarrow> allocated" where
  "track r t = \<lparr>al_vcpu = al_vcpu t + vcpu r, al_memory_mb = al_memory_mb t + memory_mb r,
                al_disk_mb = al_disk_mb t + disk_mb r, al_count = al_count t + 1\<rparr>"

definition untrack :: "resources \<Rightarrow> allocated \<Rightarrow> allocated" where
  "untrack r t = \<lparr>al_vcpu = saturating_sub (al_vcpu t) (vcpu r),
                  al_memory_mb = saturating_sub (al_memory_mb t) (memory_mb r),
                  al_disk_mb = saturating_sub (al_disk_mb t) (disk_mb r),
                  al_count = saturating_sub (al_count t) 1\<rparr>"

text \<open>\<open>admit\<close> returns the pool as well, since the permits it takes and the totals it
  tracks are shared state. A reservation is identified by the resources it holds.\<close>

definition admit ::
  "'s semaphore_ops \<Rightarrow> 's resource_pool \<Rightarrow> sandbox_spec
   \<Rightarrow> 's resource_pool \<times> (resources, clouisle_error) result" where
  "admit ops p sp =
     (let r = sp_resources sp in
      case sem_try_acquire_many ops 1 (rp_max_sandboxes p) of
        None \<Rightarrow> (p, Err (resource_exhausted ''sandbox count limit reached''))
      | Some sb \<Rightarrow>
      (case sem_try_acquire_many ops (unat (vcpu r)) (rp_vcpu_sem p) of
        None \<Rightarrow> (p\<lparr>rp_max_sandboxes := sem_release ops 1 sb\<rparr>,
          Err (resource_exhausted (''insufficient vcpu: need '' @ show_nat (unat (vcpu r)))))
      | Some vc \<Rightarrow>
      (case sem_try_acquire_many ops (unat (memory_mb r)) (rp_mem_sem p) of
        None \<Rightarrow> (p\<lparr>rp_max_sandboxes := sem_release ops 1 sb,
                   rp_vcpu_sem := sem_release ops (unat (vcpu r)) vc\<rparr>,
          Err (resource_exhausted (''insufficient memory: need '' @ show_nat (unat (memory_mb r)) @ '' MB'')))
      | Some me \<Rightarrow>
      (case sem_try_acquire_many ops (unat (disk_mb r)) (rp_disk_sem p) of
        None \<Rightarrow> (p\<lparr>rp_max_sandboxes := sem_release ops 1 sb,
                   rp_vcpu_sem := sem_release ops (unat (vcpu r)) vc,
                   rp_mem_sem := sem_release ops (unat (memory_mb r)) me\<rparr>,
          Err (resource_exhausted (''insufficient disk: need '' @ show_nat (unat (disk_mb r)) @ '' MB'')))
      | Some di \<Rightarrow>
          (p\<lparr>rp_max_sandboxes := sb, rp_vcpu_sem := vc, rp_mem_sem := me, rp_disk_sem := di,
             rp_tracking := track r (rp_tracking p)\<rparr>,
           Ok r)))))"

text \<open>Dropping a reservation: the \<open>Drop\<close> implementation runs first, then the four permits
  are dropped in the order of the fields.\<close>

definition reservation_drop ::
  "'s semaphore_ops \<Rightarrow> resources \<Rightarrow> 's resource_pool \<Rightarrow> 's resource_pool" where
  "reservation_drop ops r p = p\<lparr>
     rp_tracking := untrack r (rp_tracking p),
     rp_max_sandboxes := sem_release ops 1 (rp_max_sandboxes p),
     rp_vcpu_sem := sem_release ops (unat (vcpu r)) (rp_vcpu_sem p),
     rp_mem_sem := sem_release ops (unat (memory_mb r)) (rp_mem_sem p),
     rp_disk_sem := sem_release ops (unat (disk_mb r)) (rp_disk_sem p)\<rparr>"

definition pool_available :: "'s semaphore_ops \<Rightarrow> 's resource_pool \<Rightarrow> resources" where
  "pool_available ops p = \<lparr>
     vcpu = of_nat (sem_available ops (rp_vcpu_sem p)),
     memory_mb = of_nat (sem_available ops (rp_mem_sem p)),
     disk_mb = of_nat (sem_available ops (rp_disk_sem p)),
     bandwidth_mbps = None, iops = None, pids_max = None\<rparr>"

definition pool_reserved :: "'s resource_pool \<Rightarrow> resources" where
  "pool_reserved p = \<lparr>
     vcpu = al_vcpu (rp_tracking p), memory_mb = al_memory_mb (rp_tracking p),
     disk_mb = al_disk_mb (rp_tracking p), bandwidth_mbps = None, iops = None, pids_max = None\<rparr>"

definition pool_capacity :: "'s resource_pool \<Rightarrow> resources" where
  "pool_capacity p = rp_capacity p"

section \<open>Interleaved tasks\<close>

text \<open>The four dimensions in the order in which \<open>admit\<close> acquires them.\<close>

datatype dim = DSandbox | DVcpu | DMem | DDisk

definition dims :: "dim list" where
  "dims = [DSandbox, DVcpu, DMem, DDisk]"

fun need :: "resources \<Rightarrow> dim \<Rightarrow> nat" where
  "need r DSandbox = 1"
| "need r DVcpu = unat (vcpu r)"
| "need r DMem = unat (memory_mb r)"
| "need r DDisk = unat (disk_mb r)"

fun get_sem :: "'s resource_pool \<Rightarrow> dim \<Rightarrow> 's" where
  "get_sem p DSandbox = rp_max_sandboxes p"
| "get_sem p DVcpu = rp_vcpu_sem p"
| "get_sem p DMem = rp_mem_sem p"
| "get_sem p DDisk = rp_disk_sem p"

fun set_sem :: "dim \<Rightarrow> 's \<Rightarrow> 's resource_pool \<Rightarrow> 's resource_pool" where
  "set_sem DSandbox s p = p\<lparr>rp_max_sandboxes := s\<rparr>"
| "set_sem DVcpu s p = p\<lparr>rp_vcpu_sem := s\<rparr>"
| "set_sem DMem s p = p\<lparr>rp_mem_sem := s\<rparr>"
| "set_sem DDisk s p = p\<lparr>rp_disk_sem := s\<rparr>"

fun total :: "resources \<Rightarrow> nat \<Rightarrow> dim \<Rightarrow> nat" where
  "total cap mx DSandbox = mx"
| "total cap mx DVcpu = unat (vcpu cap)"
| "total cap mx DMem = unat (memory_mb cap)"
| "total cap mx DDisk = unat (disk_mb cap)"

text \<open>What a task is doing: \<open>Acquiring r k\<close> holds the permits of the first \<open>k\<close> dimensions,
  \<open>Releasing r j k\<close> still has to give back those from \<open>j\<close> to \<open>k - 1\<close> (the rollback of a
  failed \<open>admit\<close>, or the end of a dropped reservation).\<close>

datatype task = Idle | Acquiring resources nat | Reserved resources | Releasing resources nat nat

definition held :: "dim \<Rightarrow> task \<Rightarrow> nat" where
  "held d t = (case t of
     Idle \<Rightarrow> 0
   | Acquiring r k \<Rightarrow> if d \<in> set (take k dims) then need r d else 0
   | Reserved r \<Rightarrow> need r d
   | Releasing r j k \<Rightarrow> if d \<in> set (drop j (take k dims)) then need r d else 0)"

definition tracked :: "dim \<Rightarrow> task \<Rightarrow> nat" where
  "tracked d t = (case t of Reserved r \<Rightarrow> need r d | _ \<Rightarrow> 0)"

inductive admission_step ::
  "'s semaphore_ops \<Rightarrow> 's resource_pool \<times> task list \<Rightarrow> 's resource_pool \<times> task list \<Rightarrow> bool"
  for ops where
  step_start: "i < length ts \<Longrightarrow> ts ! i = Idle \<Longrightarrow>
     admission_step ops (p, ts) (p, ts[i := Acquiring r 0])"
| step_acquire: "i < length ts \<Longrightarrow> ts ! i = Acquiring r k \<Longrightarrow> k < 4 \<Longrightarrow> d = dims ! k \<Longrightarrow>
     sem_try_acquire_many ops (need r d) (get_sem p d) = Some s \<Longrightarrow>
     admission_step ops (p, ts) (set_sem d s p, ts[i := Acquiring r (Suc k)])"
| step_fail: "i < length ts \<Longrightarrow> ts ! i = Acquiring r k \<Longrightarrow> k < 4 \<Longrightarrow> d = dims ! k \<Longrightarrow>
     sem_try_acquire_many ops (need r d) (get_sem p d) = None \<Longrightarrow>
     admission_step ops (p, ts) (p, ts[i := Releasing r 0 k])"
| step_track: "i < length ts \<Longrightarrow> ts ! i = Acquiring r 4 \<Longrightarrow>
     admission_step ops (p, ts)
       (p\<lparr>rp_tracking := track r (rp_tracking p)\<rparr>, ts[i := Reserved r])"
| step_drop: "i < length ts \<Longrightarrow> ts ! i = Reserved r \<Longrightarrow>
     admission_step ops (p, ts)
       (p\<lparr>rp_tracking := untrack r (rp_tracking p)\<rparr>, ts[i := Releasing r 0 4])"
| step_release: "i < length ts \<Longrightarrow> ts ! i = Releasing r j k \<Longrightarrow> j < k \<Longrightarrow> k \<le> 4 \<Longrightarrow> d = dims ! j \<Longrightarrow>
     admission_step ops (p, ts)
       (set_sem d (sem_release ops (need r d) (get_sem p d)) p, ts[i := Releasing r (Suc j) k])"
| step_done: "i < length ts \<Longrightarrow> ts ! i = Releasing r k k \<Longrightarrow>
     admission_step ops (p, ts) (p, ts[i := Idle])"

inductive admission_reach ::
  "'s semaphore_ops \<Rightarrow> resources \<Rightarrow> nat \<Rightarrow> 's resource_pool \<times> task list \<Rightarrow> bool"
  for ops cap mx where
  reach_init: "admission_reach ops cap mx (resource_pool_new ops cap mx, replicate n Idle)"
| reach_next: "admission_reach ops cap mx st \<Longrightarrow> admission_step ops st st' \<Longrightarrow>
     admission_reach ops cap mx st'"

section \<open>The invariant\<close>

definition total_held :: "dim \<Rightarrow> task list \<Rightarrow> nat" where
  "total_held d ts = sum_list (map (held d) ts)"

definition total_tracked :: "dim \<Rightarrow> task list \<Rightarrow> nat" where
  "total_tracked d ts = sum_list (map (tracked d) ts)"

fun tracked_total :: "allocated \<Rightarrow> dim \<Rightarrow> nat" where
  "tracked_total t DSandbox = unat (al_count t)"
| "tracked_total t DVcpu = unat (al_vcpu t)"
| "tracked_total t DMem = unat (al_memory_mb t)"
| "tracked_total t DDisk = unat (al_disk_mb t)"

definition admission_inv ::
  "'s semaphore_ops \<Rightarrow> resources \<Rightarrow> nat \<Rightarrow> 's resource_pool \<times> task list \<Rightarrow> bool" where
  "admission_inv ops cap mx = (\<lambda>(p, ts).
     rp_capacity p = cap \<and>
     (\<forall>d. sem_available ops (get_sem p d) + total_held d ts = total cap mx d) \<and>
     (\<forall>d. tracked_total (rp_tracking p) d = total_tracked d ts))"

lemma nat_less_4: "k < (4::nat) \<longleftrightarrow> k = 0 \<or> k = 1 \<or> k = 2 \<or> k = 3"
  by auto

lemma held_acquire:
  "k < 4 \<Longrightarrow> held d (Acquiring r (Suc k)) =
     held d (Acquiring r k) + (if d = dims ! k then need r d else 0)"
  by (cases d) (auto simp: nat_less_4 held_def dims_def numeral_2_eq_2 numeral_3_eq_3)

lemma held_release:
  "j < k \<Longrightarrow> k \<le> 4 \<Longrightarrow> held d (Releasing r j k) =
     held d (Releasing r (Suc j) k) + (if d = dims ! j then need r d else 0)"
  unfolding held_def dims_def
  by (cases d) (auto simp: le_eq_less_or_eq nat_less_4 numeral_2_eq_2 numeral_3_eq_3 numeral_eq_Suc
      less_Suc_eq)

lemma held_simps [simp]:
  "held d Idle = 0" "held d (Acquiring r 0) = 0" "held d (Reserved r) = need r d"
  "held d (Releasing r k k) = 0"
  "held d (Releasing r 0 k) = held d (Acquiring r k)"
  "held d (Acquiring r 4) = need r d"
  by (cases d; simp add: held_def dims_def)+

lemma tracked_simps [simp]:
  "tracked d Idle = 0" "tracked d (Acquiring r k) = 0" "tracked d (Reserved r) = need r d"
  "tracked d (Releasing r j k) = 0"
  by (simp_all add: tracked_def)

lemma tracked_le_held: "tracked d t \<le> held d t"
  by (simp add: tracked_def split: task.split)

lemma total_tracked_le_held: "total_tracked d ts \<le> total_held d ts"
  unfolding total_tracked_def total_held_def by (intro sum_list_mono tracked_le_held)

lemma get_set_sem [simp]:
  "get_sem (set_sem d s p) d' = (if d' = d then s else get_sem p d')"
  "rp_tracking (set_sem d s p) = rp_tracking p" "rp_capacity (set_sem d s p) = rp_capacity p"
  by (cases d; cases d'; simp)+

lemma get_sem_tracking [simp]: "get_sem (p\<lparr>rp_tracking := t\<rparr>) d = get_sem p d"
  by (cases d) auto

lemma total_held_update:
  "i < length ts \<Longrightarrow> total_held d (ts[i := t]) + held d (ts ! i) = total_held d ts + held d t"
  unfolding total_held_def by (rule sum_list_update_nat)

lemma total_tracked_update:
  "i < length ts \<Longrightarrow>
   total_tracked d (ts[i := t]) + tracked d (ts ! i) = total_tracked d ts + tracked d t"
  unfolding total_tracked_def by (rule sum_list_update_nat)

text \<open>The untracked part of a task's permits still fits beside everything tracked.\<close>

lemma tracked_plus_held:
  assumes "i < length ts"
  shows "total_tracked d ts + held d (ts ! i) \<le> total_held d ts + tracked d (ts ! i)"
proof -
  have "total_tracked d (ts[i := Idle]) \<le> total_held d (ts[i := Idle])"
    by (rule total_tracked_le_held)
  with total_held_update [OF assms, of d Idle] total_tracked_update [OF assms, of d Idle]
  show ?thesis by simp
qed

lemma total_le_max: "mx \<le> MAX_PERMITS \<Longrightarrow> total cap mx d \<le> MAX_PERMITS"
proof -
  have "unat (vcpu cap) < 2 ^ LENGTH(16)" "unat (memory_mb cap) < 2 ^ LENGTH(32)"
    "unat (disk_mb cap) < 2 ^ LENGTH(32)"
    by (rule unsigned_less)+
  then show "mx \<le> MAX_PERMITS \<Longrightarrow> total cap mx d \<le> MAX_PERMITS"
    by (cases d) (simp_all add: MAX_PERMITS_def)
qed

fun width :: "dim \<Rightarrow> nat" where
  "width DSandbox = 2 ^ 64" | "width DVcpu = 2 ^ 16" | "width DMem = 2 ^ 32" | "width DDisk = 2 ^ 32"

lemma total_less_width: "mx \<le> MAX_PERMITS \<Longrightarrow> total cap mx d < width d"
proof -
  have "unat (vcpu cap) < 2 ^ LENGTH(16)" "unat (memory_mb cap) < 2 ^ LENGTH(32)"
    "unat (disk_mb cap) < 2 ^ LENGTH(32)"
    by (rule unsigned_less)+
  then show "mx \<le> MAX_PERMITS \<Longrightarrow> total cap mx d < width d"
    by (cases d) (simp_all add: MAX_PERMITS_def)
qed

lemma tracked_total_track:
  assumes "tracked_total t d + need r d < width d"
  shows "tracked_total (track r t) d = tracked_total t d + need r d"
  using assms by (cases d) (simp_all add: track_def unat_word_ariths)

lemma tracked_total_untrack:
  "tracked_total (untrack r t) d = tracked_total t d - need r d"
  by (cases d) (simp_all add: untrack_def unat_saturating_sub)

lemma admission_inv_init:
  assumes "semaphore_laws ops" "mx \<le> MAX_PERMITS"
  shows "admission_inv ops cap mx (resource_pool_new ops cap mx, replicate n Idle)"
proof -
  have "sem_available ops (get_sem (resource_pool_new ops cap mx) d) = total cap mx d" for d
    using assms total_le_max [OF assms(2), of cap d]
    by (cases d) (simp_all add: resource_pool_new_def semaphore_laws_def)
  moreover have "tracked_total (rp_tracking (resource_pool_new ops cap mx)) d = 0" for d
    by (cases d) (simp_all add: resource_pool_new_def)
  ultimately show ?thesis
    by (simp add: admission_inv_def total_held_def total_tracked_def sum_list_replicate
        resource_pool_new_def)
qed

text \<open>Moving a task without touching permits or totals.\<close>

lemma admission_inv_move:
  assumes "admission_inv ops cap mx (p, ts)" "i < length ts"
    and "\<And>d. held d t = held d (ts ! i)" "\<And>d. tracked d t = tracked d (ts ! i)"
  shows "admission_inv ops cap mx (p, ts[i := t])"
proof -
  have "total_held d (ts[i := t]) = total_held d ts" for d
    using total_held_update [OF assms(2), of d t] assms(3) [of d] by simp
  moreover have "total_tracked d (ts[i := t]) = total_tracked d ts" for d
    using total_tracked_update [OF assms(2), of d t] assms(4) [of d] by simp
  ultimately show ?thesis
    using assms(1) by (simp add: admission_inv_def)
qed

text \<open>Exchanging permits with the semaphore of one dimension.\<close>

lemma admission_inv_sem:
  assumes "admission_inv ops cap mx (p, ts)" "i < length ts"
    and "\<And>d'. d' \<noteq> d \<Longrightarrow> held d' t = held d' (ts ! i)"
    and "sem_available ops s + held d t = sem_available ops (get_sem p d) + held d (ts ! i)"
    and "\<And>d'. tracked d' t = tracked d' (ts ! i)"
  shows "admission_inv ops cap mx (set_sem d s p, ts[i := t])"
proof -
  have "sem_available ops (get_sem (set_sem d s p) d') + total_held d' (ts[i := t]) =
      total cap mx d'" for d'
  proof -
    have "sem_available ops (get_sem p d') + total_held d' ts = total cap mx d'"
      using assms(1) by (simp add: admission_inv_def)
    then show ?thesis
      using total_held_update [OF assms(2), of d' t] assms(3) [of d'] assms(4)
      by (cases "d' = d") auto
  qed
  moreover have "total_tracked d' (ts[i := t]) = total_tracked d' ts" for d'
    using total_tracked_update [OF assms(2), of d' t] assms(5) [of d'] by simp
  ultimately show ?thesis
    using assms(1) by (simp add: admission_inv_def)
qed

lemma admission_inv_track:
  assumes inv: "admission_inv ops cap mx (p, ts)" and mx: "mx \<le> MAX_PERMITS"
    and i: "i < length ts" "ts ! i = Acquiring r 4"
  shows "admission_inv ops cap mx
    (p\<lparr>rp_tracking := track r (rp_tracking p)\<rparr>, ts[i := Reserved r])"
proof -
  have held: "total_held d (ts[i := Reserved r]) = total_held d ts" for d
    using total_held_update [OF i(1), of d "Reserved r"] i(2) by simp
  have tr: "tracked_total (track r (rp_tracking p)) d = total_tracked d (ts[i := Reserved r])" for d
  proof -
    have old: "tracked_total (rp_tracking p) d = total_tracked d ts"
      using inv by (simp add: admission_inv_def)
    have "total_tracked d ts + need r d \<le> total_held d ts"
      using tracked_plus_held [OF i(1), of d] i(2) by simp
    also have "\<dots> \<le> total cap mx d"
      using inv by (simp add: admission_inv_def) (metis le_add2)
    also have "\<dots> < width d"
      by (rule total_less_width [OF mx])
    finally have "tracked_total (track r (rp_tracking p)) d = total_tracked d ts + need r d"
      by (simp add: tracked_total_track old)
    then show ?thesis
      using total_tracked_update [OF i(1), of d "Reserved r"] i(2) by simp
  qed
  show ?thesis
    using inv held tr by (simp add: admission_inv_def)
qed

lemma admission_inv_drop:
  assumes inv: "admission_inv ops cap mx (p, ts)"
    and i: "i < length ts" "ts ! i = Reserved r"
  shows "admission_inv ops cap mx
    (p\<lparr>rp_tracking := untrack r (rp_tracking p)\<rparr>, ts[i := Releasing r 0 4])"
proof -
  have held: "total_held d (ts[i := Releasing r 0 4]) = total_held d ts" for d
    using total_held_update [OF i(1), of d "Releasing r 0 4"] i(2) by simp
  have tr: "total_tracked d (ts[i := Releasing r 0 4]) + need r d = total_tracked d ts" for d
    using total_tracked_update [OF i(1), of d "Releasing r 0 4"] i(2) by simp
  have "tracked_total (untrack r (rp_tracking p)) d = total_tracked d (ts[i := Releasing r 0 4])" for d
    using inv tr [of d] by (simp add: tracked_total_untrack admission_inv_def)
  then show ?thesis
    using inv held by (simp add: admission_inv_def)
qed

lemma admission_inv_step:
  assumes laws: "semaphore_laws ops" and mx: "mx \<le> MAX_PERMITS"
    and step: "admission_step ops st st'" and inv: "admission_inv ops cap mx st"
  shows "admission_inv ops cap mx st'"
  using step inv
proof (induction rule: admission_step.induct)
  case (step_start i ts p r)
  then show ?case by (intro admission_inv_move) auto
next
  case (step_acquire i ts r k d p s)
  have "sem_available ops (get_sem p d) = sem_available ops s + need r d"
    using laws step_acquire(5) by (auto simp: semaphore_laws_def)
  with step_acquire show ?case
    by (intro admission_inv_sem) (auto simp: held_acquire)
next
  case (step_fail i ts r k d p)
  then show ?case by (intro admission_inv_move) auto
next
  case (step_track i ts r p)
  then show ?case using mx by (intro admission_inv_track)
next
  case (step_drop i ts r p)
  then show ?case by (intro admission_inv_drop)
next
  case (step_release i ts r j k d p)
  have "held d (ts ! i) \<le> total_held d ts"
    using total_held_update [OF step_release(1), of d Idle] by simp
  moreover have "sem_available ops (get_sem p d) + total_held d ts = total cap mx d"
    using step_release.prems by (simp add: admission_inv_def)
  moreover have "need r d \<le> held d (ts ! i)"
    using step_release by (simp add: held_release)
  ultimately have "sem_available ops (get_sem p d) + need r d \<le> MAX_PERMITS"
    using total_le_max [OF mx, of cap d] by linarith
  then have "sem_available ops (sem_release ops (need r d) (get_sem p d)) =
      sem_available ops (get_sem p d) + need r d"
    using laws by (simp add: semaphore_laws_def)
  with step_release show ?case
    by (intro admission_inv_sem) (auto simp: held_release)
next
  case (step_done i ts r k p)
  then show ?case by (intro admission_inv_move) auto
qed

lemma admission_reach_inv:
  "admission_reach ops cap mx st \<Longrightarrow> semaphore_laws ops \<Longrightarrow> mx \<le> MAX_PERMITS \<Longrightarrow>
   admission_inv ops cap mx st"
  by (induction rule: admission_reach.induct)
    (auto intro: admission_inv_init admission_inv_step)

section \<open>The whole functions as runs of steps\<close>

abbreviation admission_run where
  "admission_run ops \<equiv> (admission_step ops)\<^sup>*\<^sup>*"

lemma run_step: "admission_step ops a b \<Longrightarrow> admission_run ops b c \<Longrightarrow> admission_run ops a c"
  by (rule converse_rtranclp_into_rtranclp)

lemma run_release:
  assumes "i < length ts" "ts ! i = Releasing r j k" "j < k" "k \<le> 4"
    and "admission_run ops (set_sem (dims ! j)
           (sem_release ops (need r (dims ! j)) (get_sem p (dims ! j))) p,
           ts[i := Releasing r (Suc j) k]) c"
  shows "admission_run ops (p, ts) c"
  by (rule run_step [OF step_release [OF assms(1-4) refl] assms(5)])

lemma run_done:
  "i < length ts \<Longrightarrow> ts ! i = Releasing r k k \<Longrightarrow> admission_run ops (p, ts) (p, ts[i := Idle])"
  by (rule r_into_rtranclp, rule step_done)

lemma run_acquire:
  assumes "i < length ts" "ts ! i = Acquiring r k" "k < 4"
    and "sem_try_acquire_many ops (need r (dims ! k)) (get_sem p (dims ! k)) = Some s"
    and "admission_run ops (set_sem (dims ! k) s p, ts[i := Acquiring r (Suc k)]) c"
  shows "admission_run ops (p, ts) c"
  by (rule run_step [OF step_acquire [OF assms(1-3) refl assms(4)] assms(5)])

lemma run_fail:
  assumes "i < length ts" "ts ! i = Acquiring r k" "k < 4"
    and "sem_try_acquire_many ops (need r (dims ! k)) (get_sem p (dims ! k)) = None"
    and "admission_run ops (p, ts[i := Releasing r 0 k]) c"
  shows "admission_run ops (p, ts) c"
  by (rule run_step [OF step_fail [OF assms(1-3) refl assms(4)] assms(5)])

lemma dims_nth [simp]:
  "dims ! 0 = DSandbox" "dims ! Suc 0 = DVcpu" "dims ! Suc (Suc 0) = DMem"
  "dims ! Suc (Suc (Suc 0)) = DDisk"
  by (simp_all add: dims_def)

definition give_back :: "'s semaphore_ops \<Rightarrow> resources \<Rightarrow> dim \<Rightarrow> 's resource_pool \<Rightarrow> 's resource_pool" where
  "give_back ops r d p = set_sem d (sem_release ops (need r d) (get_sem p d)) p"

lemma run_release_all:
  "j \<le> k \<Longrightarrow> k \<le> 4 \<Longrightarrow> i < length ts \<Longrightarrow> ts ! i = Releasing r j k \<Longrightarrow>
   admission_run ops (p, ts) (fold (give_back ops r) (drop j (take k dims)) p, ts[i := Idle])"
proof (induction "k - j" arbitrary: j p ts)
  case 0
  then show ?case using run_done [of i ts r k ops p] by simp
next
  case (Suc n)
  then have less: "j < k" by simp
  have len: "length (take k dims) = k"
    using Suc.prems(2) by (simp add: dims_def)
  have "drop j (take k dims) = dims ! j # drop (Suc j) (take k dims)"
    using Cons_nth_drop_Suc [of j "take k dims"] less len by simp
  moreover have "admission_run ops (give_back ops r (dims ! j) p, ts[i := Releasing r (Suc j) k])
      (fold (give_back ops r) (drop (Suc j) (take k dims)) (give_back ops r (dims ! j) p),
       (ts[i := Releasing r (Suc j) k])[i := Idle])"
    using Suc.hyps(2) Suc.prems less by (intro Suc.hyps(1)) auto
  ultimately show ?case
    using run_release [OF Suc.prems(3,4) less Suc.prems(2)] by (simp add: give_back_def)
qed

lemma give_back_simps [simp]:
  "give_back ops r DSandbox p = p\<lparr>rp_max_sandboxes := sem_release ops 1 (rp_max_sandboxes p)\<rparr>"
  "give_back ops r DVcpu p = p\<lparr>rp_vcpu_sem := sem_release ops (unat (vcpu r)) (rp_vcpu_sem p)\<rparr>"
  "give_back ops r DMem p = p\<lparr>rp_mem_sem := sem_release ops (unat (memory_mb r)) (rp_mem_sem p)\<rparr>"
  "give_back ops r DDisk p = p\<lparr>rp_disk_sem := sem_release ops (unat (disk_mb r)) (rp_disk_sem p)\<rparr>"
  by (simp_all add: give_back_def)

lemma reservation_drop_run:
  assumes i: "i < length ts" "ts ! i = Reserved r"
  shows "admission_run ops (p, ts) (reservation_drop ops r p, ts[i := Idle])"
  by (rule run_step [OF step_drop [OF i]])
    (use run_release_all [of 0 4 i "ts[i := Releasing r 0 4]" r ops
           "p\<lparr>rp_tracking := untrack r (rp_tracking p)\<rparr>"] i in
      \<open>simp add: reservation_drop_def dims_def\<close>)

text \<open>Failing at dimension \<open>k\<close> gives the first \<open>k\<close> permits back.\<close>

lemma run_fail_all:
  assumes "i < length ts" "k < 4"
    and "sem_try_acquire_many ops (need r (dims ! k)) (get_sem p (dims ! k)) = None"
    and "p' = fold (give_back ops r) (take k dims) p"
  shows "admission_run ops (p, ts[i := Acquiring r k]) (p', ts[i := Idle])"
  by (rule run_fail [of i _ r k])
    (use assms run_release_all [of 0 k i "ts[i := Releasing r 0 k]" r ops p] in simp_all)

lemma admit_run:
  assumes i: "i < length ts" "ts ! i = Idle" and adm: "admit ops p sp = (p', res)"
  shows "admission_run ops (p, ts)
    (p', ts[i := (case res of Ok r \<Rightarrow> Reserved r | Err _ \<Rightarrow> Idle)])"
proof -
  let ?r = "sp_resources sp"
  let ?goal = "(p', ts[i := (case res of Ok r \<Rightarrow> Reserved r | Err _ \<Rightarrow> Idle)])"
  note fail = run_fail_all [OF i(1)]
  have "admission_run ops (p, ts[i := Acquiring ?r 0]) ?goal"
  proof (cases "sem_try_acquire_many ops 1 (rp_max_sandboxes p)")
    case None
    have "p' = p" and err: "\<exists>e. res = Err e"
      using adm None by (auto simp: admit_def Let_def)
    then show ?thesis
      using fail [of 0 ops ?r p p'] None by auto
  next
    case sb: (Some sb)
    let ?p1 = "p\<lparr>rp_max_sandboxes := sb\<rparr>"
    have "admission_run ops (?p1, ts[i := Acquiring ?r (Suc 0)]) ?goal"
    proof (cases "sem_try_acquire_many ops (unat (vcpu ?r)) (rp_vcpu_sem p)")
      case None
      have p': "p' = p\<lparr>rp_max_sandboxes := sem_release ops 1 sb\<rparr>"
        and err: "\<exists>e. res = Err e"
        using adm None sb by (auto simp: admit_def Let_def)
      have "p' = fold (give_back ops ?r) (take (Suc 0) dims) ?p1"
        by (simp add: p' dims_def)
      with err show ?thesis
        using fail [of "Suc 0" ops ?r ?p1 p'] None by auto
    next
      case vc: (Some vc)
      let ?p2 = "?p1\<lparr>rp_vcpu_sem := vc\<rparr>"
      have "admission_run ops (?p2, ts[i := Acquiring ?r (Suc (Suc 0))]) ?goal"
      proof (cases "sem_try_acquire_many ops (unat (memory_mb ?r)) (rp_mem_sem p)")
        case None
        have p': "p' = p\<lparr>rp_max_sandboxes := sem_release ops 1 sb,
            rp_vcpu_sem := sem_release ops (unat (vcpu ?r)) vc\<rparr>"
          and err: "\<exists>e. res = Err e"
          using adm None sb vc by (auto simp: admit_def Let_def)
        have "p' = fold (give_back ops ?r) (take (Suc (Suc 0)) dims) ?p2"
          by (simp add: p' dims_def)
        with err show ?thesis
          using fail [of "Suc (Suc 0)" ops ?r ?p2 p'] None by auto
      next
        case me: (Some me)
        let ?p3 = "?p2\<lparr>rp_mem_sem := me\<rparr>"
        have "admission_run ops (?p3, ts[i := Acquiring ?r (Suc (Suc (Suc 0)))]) ?goal"
        proof (cases "sem_try_acquire_many ops (unat (disk_mb ?r)) (rp_disk_sem p)")
          case None
          have p': "p' = p\<lparr>rp_max_sandboxes := sem_release ops 1 sb,
            rp_vcpu_sem := sem_release ops (unat (vcpu ?r)) vc,
            rp_mem_sem := sem_release ops (unat (memory_mb ?r)) me\<rparr>"
            and err: "\<exists>e. res = Err e"
            using adm None sb vc me by (auto simp: admit_def Let_def)
          have "p' = fold (give_back ops ?r) (take (Suc (Suc (Suc 0))) dims) ?p3"
            by (simp add: p' dims_def)
          with err show ?thesis
            using fail [of "Suc (Suc (Suc 0))" ops ?r ?p3 p'] None by auto
        next
          case di: (Some di)
          let ?p4 = "?p3\<lparr>rp_disk_sem := di\<rparr>"
          have "admission_step ops (?p4, ts[i := Acquiring ?r 4]) ?goal"
            using step_track [of i "ts[i := Acquiring ?r 4]" ?r ops ?p4] sb vc me di adm i
            by (auto simp: admit_def Let_def)
          then have "admission_run ops (?p4, ts[i := Acquiring ?r (Suc (Suc (Suc (Suc 0))))]) ?goal"
            by (intro r_into_rtranclp) (simp add: eval_nat_numeral)
          then show ?thesis
            using di i run_acquire [of i _ ?r "Suc (Suc (Suc 0))" ops _ di] by auto
        qed
        then show ?thesis
          using me i run_acquire [of i _ ?r "Suc (Suc 0)" ops _ me] by auto
      qed
      then show ?thesis
        using vc i run_acquire [of i _ ?r "Suc 0" ops _ vc] by auto
    qed
    then show ?thesis
      using sb i run_acquire [of i _ ?r 0 ops _ sb] by auto
  qed
  then show ?thesis
    by (rule run_step [OF step_start [OF i]])
qed

text \<open>A rejected request leaves every dimension with the permits it had, and the tracked
  totals as they were.\<close>

lemma admit_Err_unchanged:
  assumes laws: "semaphore_laws ops" and adm: "admit ops p sp = (p', Err e)"
    and bound: "\<And>d. sem_available ops (get_sem p d) \<le> MAX_PERMITS"
  shows "sem_available ops (get_sem p' d) = sem_available ops (get_sem p d)"
    and "rp_tracking p' = rp_tracking p" and "err_kind e = EkResourceExhausted"
proof -
  have undo: "sem_available ops (sem_release ops n s') = sem_available ops s"
    if "sem_try_acquire_many ops n s = Some s'" "sem_available ops s \<le> MAX_PERMITS" for n s s'
    using that laws by (fastforce simp: semaphore_laws_def)
  have b: "sem_available ops (rp_max_sandboxes p) \<le> MAX_PERMITS"
    "sem_available ops (rp_vcpu_sem p) \<le> MAX_PERMITS" "sem_available ops (rp_mem_sem p) \<le> MAX_PERMITS"
    using bound [of DSandbox] bound [of DVcpu] bound [of DMem] by simp_all
  show "sem_available ops (get_sem p' d) = sem_available ops (get_sem p d)"
    using adm b by (cases d) (auto simp: admit_def Let_def undo split: option.splits)
  show "rp_tracking p' = rp_tracking p" "err_kind e = EkResourceExhausted"
    using adm by (auto simp: admit_def Let_def error_defs split: option.splits)
qed

lemma admit_Ok_iff:
  assumes "semaphore_laws ops"
  shows "(\<exists>p' r. admit ops p sp = (p', Ok r)) \<longleftrightarrow>
    (\<forall>d. need (sp_resources sp) d \<le> sem_available ops (get_sem p d))"
proof -
  have some: "(\<exists>s'. sem_try_acquire_many ops n s = Some s') \<longleftrightarrow> n \<le> sem_available ops s" for n s
    using assms by (metis semaphore_laws_def not_Some_eq not_less)
  have all: "(\<forall>d. P d) \<longleftrightarrow> P DSandbox \<and> P DVcpu \<and> P DMem \<and> P DDisk" for P :: "dim \<Rightarrow> bool"
    by (metis dim.exhaust)
  show ?thesis
    unfolding all need.simps get_sem.simps some [symmetric]
    by (auto simp: admit_def Let_def split: option.splits)
qed

lemma admit_Ok_effect:
  assumes "semaphore_laws ops" and adm: "admit ops p sp = (p', Ok r)"
  shows "r = sp_resources sp" and "rp_tracking p' = track r (rp_tracking p)"
    and "need r d \<le> sem_available ops (get_sem p d)"
    and "sem_available ops (get_sem p' d) = sem_available ops (get_sem p d) - need r d"
proof -
  show r: "r = sp_resources sp" and "rp_tracking p' = track r (rp_tracking p)"
    using adm by (auto simp: admit_def Let_def split: option.splits)
  show "need r d \<le> sem_available ops (get_sem p d)"
    using admit_Ok_iff [OF assms(1), of p sp] adm r by auto
  have took: "sem_available ops s' = sem_available ops s - n"
    if "sem_try_acquire_many ops n s = Some s'" for n s s'
    using that assms(1) unfolding semaphore_laws_def by (metis add_diff_cancel_right')
  show "sem_available ops (get_sem p' d) = sem_available ops (get_sem p d) - need r d"
    using adm by (cases d) (auto simp: admit_def Let_def took split: option.splits)
qed

section \<open>Properties\<close>

text \<open>C1: no interleaving of admissions, rollbacks and dropped reservations over-commits a
  dimension: in every reachable state the permits held by all tasks and the permits still
  available add up to the capacity, so what is held never exceeds it.\<close>

theorem never_overcommitted:
  assumes "semaphore_laws ops" and "mx \<le> MAX_PERMITS" and "admission_reach ops cap mx (p, ts)"
  shows "sem_available ops (get_sem p d) + total_held d ts = total cap mx d
    \<and> total_tracked d ts \<le> total cap mx d"
proof -
  have inv: "sem_available ops (get_sem p d) + total_held d ts = total cap mx d"
    using admission_reach_inv [OF assms(3,1,2)] by (simp add: admission_inv_def)
  then show ?thesis using total_tracked_le_held [of d ts] by simp
qed

lemma counter_reach_init: "admission_reach counter_ops cap mx (resource_pool_new counter_ops cap mx, [Idle, Idle])"
  using admission_reach.reach_init [of counter_ops cap mx 2] by (simp add: numeral_2_eq_2)

theorem never_overcommitted_witness:
  "sem_available counter_ops (get_sem (resource_pool_new counter_ops default_resources 5) DSandbox)
     + total_held DSandbox [Idle, Idle] = 5"
  using never_overcommitted [OF counter_ops_laws _ counter_reach_init, of 5 default_resources DSandbox]
  by (simp add: MAX_PERMITS_def)

text \<open>The totals that \<open>reserved\<close> reports are exact in every reachable state: each is the sum over
  the live reservations, without wrap-around and without the loss that saturating
  subtraction could hide.\<close>

lemma reserved_is_exact:
  assumes "semaphore_laws ops" and "mx \<le> MAX_PERMITS" and "admission_reach ops cap mx (p, ts)"
  shows "unat (vcpu (pool_reserved p)) = (\<Sum>t\<leftarrow>ts. case t of Reserved r \<Rightarrow> unat (vcpu r) | _ \<Rightarrow> 0)
    \<and> unat (memory_mb (pool_reserved p)) = (\<Sum>t\<leftarrow>ts. case t of Reserved r \<Rightarrow> unat (memory_mb r) | _ \<Rightarrow> 0)
    \<and> unat (disk_mb (pool_reserved p)) = (\<Sum>t\<leftarrow>ts. case t of Reserved r \<Rightarrow> unat (disk_mb r) | _ \<Rightarrow> 0)
    \<and> unat (al_count (rp_tracking p)) = length (filter (\<lambda>t. \<exists>r. t = Reserved r) ts)"
proof -
  have tr: "tracked_total (rp_tracking p) d = total_tracked d ts" for d
    using admission_reach_inv [OF assms(3,1,2)] by (simp add: admission_inv_def)
  have count: "total_tracked DSandbox ts = length (filter (\<lambda>t. \<exists>r. t = Reserved r) ts)"
    by (induction ts) (auto simp: total_tracked_def tracked_def split: task.split)
  have sums: "total_tracked d ts = (\<Sum>t\<leftarrow>ts. case t of Reserved r \<Rightarrow> need r d | _ \<Rightarrow> 0)" for d
    unfolding total_tracked_def by (rule arg_cong [where f = sum_list]) (simp add: tracked_def)
  show ?thesis
    using tr [of DVcpu] tr [of DMem] tr [of DDisk] tr [of DSandbox] count
      sums [of DVcpu] sums [of DMem] sums [of DDisk]
    unfolding tracked_total.simps need.simps pool_reserved_def by simp
qed

lemma reserved_is_exact_witness:
  "unat (al_count (rp_tracking (resource_pool_new counter_ops default_resources 5))) = 0"
  using reserved_is_exact [OF counter_ops_laws _ counter_reach_init, of 5 default_resources]
  by (simp add: MAX_PERMITS_def)

text \<open>\<open>admit\<close> accepts exactly when every dimension has the permits, and otherwise reports
  exhaustion and leaves the pool as it was: the permits it had taken are back and nothing
  is tracked.\<close>

lemma admit_all_or_nothing:
  assumes "semaphore_laws ops" and "\<And>d. sem_available ops (get_sem p d) \<le> MAX_PERMITS"
  shows "case admit ops p sp of
      (p', Ok r) \<Rightarrow> r = sp_resources sp \<and> (\<forall>d. need r d \<le> sem_available ops (get_sem p d))
        \<and> (\<forall>d. sem_available ops (get_sem p' d) = sem_available ops (get_sem p d) - need r d)
        \<and> rp_tracking p' = track r (rp_tracking p)
    | (p', Err e) \<Rightarrow> err_kind e = EkResourceExhausted
        \<and> (\<exists>d. sem_available ops (get_sem p d) < need (sp_resources sp) d)
        \<and> (\<forall>d. sem_available ops (get_sem p' d) = sem_available ops (get_sem p d))
        \<and> rp_tracking p' = rp_tracking p"
proof (cases "admit ops p sp")
  case (Pair p' res)
  show ?thesis
  proof (cases res)
    case (Inl e)
    with Pair have adm: "admit ops p sp = (p', Err e)" by simp
    then have "\<not> (\<forall>d. need (sp_resources sp) d \<le> sem_available ops (get_sem p d))"
      using admit_Ok_iff [OF assms(1), of p sp] by auto
    then show ?thesis
      using adm admit_Err_unchanged [OF assms(1) adm assms(2)] by (simp add: not_le)
  next
    case (Inr r)
    with Pair have adm: "admit ops p sp = (p', Ok r)" by simp
    then show ?thesis using admit_Ok_effect [OF assms(1) adm] by simp
  qed
qed

lemma admit_all_or_nothing_witness:
  "fst (admit counter_ops (resource_pool_new counter_ops default_resources 0) default_spec)
     = resource_pool_new counter_ops default_resources 0
   \<and> (case admit counter_ops (resource_pool_new counter_ops default_resources 0) default_spec of
        (p', Ok r) \<Rightarrow> False | (p', Err e) \<Rightarrow> err_kind e = EkResourceExhausted)"
proof -
  let ?p = "resource_pool_new counter_ops default_resources 0"
  have "sem_available counter_ops (get_sem ?p d) \<le> MAX_PERMITS" for d
    by (cases d) (simp_all add: resource_pool_new_def counter_ops_def default_resources_def MAX_PERMITS_def)
  from admit_all_or_nothing [OF counter_ops_laws this, of default_spec]
  show ?thesis by (simp add: admit_def Let_def resource_pool_new_def counter_ops_def)
qed

text \<open>C34: the whole functions are runs of the interleaved steps: calling \<open>admit\<close> in an idle task, or
  dropping its reservation, with nobody in between, is a sequence of the steps above, and
  the task ends reserved exactly when the call succeeded.\<close>

theorem admit_and_drop_refine_steps:
  assumes "i < length ts"
  shows "(ts ! i = Idle \<longrightarrow> (case admit ops p sp of (p', res) \<Rightarrow>
       (admission_step ops)\<^sup>*\<^sup>* (p, ts) (p', ts[i := (case res of Ok r \<Rightarrow> Reserved r | Err _ \<Rightarrow> Idle)])))
    \<and> (ts ! i = Reserved r \<longrightarrow> (admission_step ops)\<^sup>*\<^sup>* (p, ts) (reservation_drop ops r p, ts[i := Idle]))"
proof -
  have "(admission_step ops)\<^sup>*\<^sup>* (p, ts) (p', ts[i := (case res of Ok r \<Rightarrow> Reserved r | Err _ \<Rightarrow> Idle)])"
    if "ts ! i = Idle" "admit ops p sp = (p', res)" for p' res
    by (rule admit_run [OF assms that])
  moreover have "(admission_step ops)\<^sup>*\<^sup>* (p, ts) (reservation_drop ops r p, ts[i := Idle])"
    if "ts ! i = Reserved r"
    by (rule reservation_drop_run [OF assms that])
  ultimately show ?thesis by blast
qed

theorem admit_and_drop_refine_steps_witness:
  "(admission_step counter_ops)\<^sup>*\<^sup>*
     (resource_pool_new counter_ops default_resources 5, [Reserved default_resources])
     (reservation_drop counter_ops default_resources (resource_pool_new counter_ops default_resources 5), [Idle])"
  using admit_and_drop_refine_steps [of 0 "[Reserved default_resources]" counter_ops
      "resource_pool_new counter_ops default_resources 5"] by simp

end
