(* ===== verification/Result_State.thy ===== *)
theory Result_State
  imports Prelude
begin

text \<open>
  Computations that change a state and may fail: the sequencing that the operator \<open>?\<close> of the
  sources performs, and a rule to carry a relation between the states before and after a
  computation over that sequencing. The relation is a preorder on states; the invariants and the
  frame conditions of the components are its instances.
\<close>

type_synonym ('s, 'a, 'e) comp = "'s \<Rightarrow> 's \<times> ('a, 'e) result"

definition ok :: "'a \<Rightarrow> ('s, 'a, 'e) comp" where
  "ok a s = (s, Ok a)"

definition throw :: "'e \<Rightarrow> ('s, 'a, 'e) comp" where
  "throw e s = (s, Err e)"

definition lift_result :: "('a, 'e) result \<Rightarrow> ('s, 'a, 'e) comp" where
  "lift_result r s = (s, r)"

definition and_then :: "('s, 'a, 'e) comp \<Rightarrow> ('a \<Rightarrow> ('s, 'b, 'e) comp) \<Rightarrow> ('s, 'b, 'e) comp" where
  "and_then m f s = (case m s of (s', r) \<Rightarrow> (case r of Ok a \<Rightarrow> f a s' | Err e \<Rightarrow> (s', Err e)))"

definition modify :: "('s \<Rightarrow> 's) \<Rightarrow> ('s, unit, 'e) comp" where
  "modify f s = (f s, Ok ())"

definition ok_or :: "'e \<Rightarrow> 'a option \<Rightarrow> ('a, 'e) result" where
  "ok_or e v = (case v of Some a \<Rightarrow> Ok a | None \<Rightarrow> Err e)"

definition opt_filter :: "('a \<Rightarrow> bool) \<Rightarrow> 'a option \<Rightarrow> 'a option" where
  "opt_filter P v = (case v of Some a \<Rightarrow> if P a then Some a else None | None \<Rightarrow> None)"

lemmas comp_defs = ok_def throw_def lift_result_def modify_def

lemma opt_filter_Some [simp]: "opt_filter P v = Some a \<longleftrightarrow> v = Some a \<and> P a"
  by (auto simp: opt_filter_def split: option.splits)

lemma opt_filter_None: "opt_filter P v = None \<longleftrightarrow> (\<forall>a. v = Some a \<longrightarrow> \<not> P a)"
  by (auto simp: opt_filter_def split: option.splits)

lemma ok_or_simps [simp]: "ok_or e (Some a) = Ok a" "ok_or e None = Err e"
  by (simp_all add: ok_or_def)

lemma ok_or_Ok [simp]: "ok_or e v = Ok a \<longleftrightarrow> v = Some a"
  by (cases v) auto

lemma and_then_Ok: "and_then m f s = (s'', Ok b) \<longleftrightarrow> (\<exists>s' a. m s = (s', Ok a) \<and> f a s' = (s'', Ok b))"
  by (auto simp: and_then_def split: prod.splits sum.splits)

lemma and_then_run:
  "m s = (s', Ok a) \<Longrightarrow> and_then m f s = f a s'"
  "m s = (s', Err e) \<Longrightarrow> and_then m f s = (s', Err e)"
  by (simp_all add: and_then_def)

definition confined :: "('s \<Rightarrow> 's \<Rightarrow> bool) \<Rightarrow> ('s, 'a, 'e) comp \<Rightarrow> bool" where
  "confined R m \<longleftrightarrow> (\<forall>s. R s (fst (m s)))"

lemma confinedD: "confined R m \<Longrightarrow> m s = (s', r) \<Longrightarrow> R s s'"
  by (metis confined_def fst_conv)

lemma confined_at: "confined R m \<Longrightarrow> R s (fst (m s))"
  by (simp add: confined_def)

locale state_preorder =
  fixes R :: "'s \<Rightarrow> 's \<Rightarrow> bool"
  assumes refl: "R s s" and trans: "R s s' \<Longrightarrow> R s' s'' \<Longrightarrow> R s s''"
begin

lemma and_then_at:
  assumes "R s (fst (m s))" and "\<And>s' a. m s = (s', Ok a) \<Longrightarrow> R s' (fst (f a s'))"
  shows "R s (fst (and_then m f s))"
proof (cases "m s")
  case (Pair s' r)
  then show ?thesis using assms trans by (auto simp: and_then_def split: sum.splits)
qed

lemma confined_and_then:
  "confined R m \<Longrightarrow> (\<And>a. confined R (f a)) \<Longrightarrow> confined R (and_then m f)"
  by (simp add: confined_def and_then_at)

lemma confined_pure: "confined R (ok a)" "confined R (throw e)" "confined R (lift_result r)"
  by (simp_all add: confined_def comp_defs refl)

lemma confined_const: "(\<And>s. fst (m s) = s) \<Longrightarrow> confined R m"
  by (simp add: confined_def refl)

lemma confined_if: "confined R m \<Longrightarrow> confined R n \<Longrightarrow> confined R (if b then m else n)"
  by simp

end

text \<open>A sequence ends in its first part with an error, or in its second.\<close>

lemma and_then_cases:
  assumes "and_then m f s = (s'', r)"
  obtains (first) e s1 where "m s = (s1, Err e)" and "s'' = s1" and "r = Err e"
    | (second) s1 a where "m s = (s1, Ok a)" and "f a s1 = (s'', r)"
proof (cases "m s")
  case (Pair s1 q)
  with assms that show thesis by (cases q) (auto simp: and_then_def)
qed

text \<open>An invariant and an observation are both preorders on states.\<close>

lemma invariant_preorder: "state_preorder (\<lambda>s s'. I s \<longrightarrow> I s')"
  by unfold_locales auto

lemma observation_preorder: "state_preorder (\<lambda>s s'. f s' = f s)"
  by unfold_locales auto

end
