(* ===== verification/Control_Data.thy ===== *)
theory Control_Data
  imports Result_State Auth
begin

text \<open>
  \<open>crates/clouisle-api/src/e2b_cloud.rs\<close>, the records of the control plane and its functions on text:
  name validation, normal volume paths, digests and masks of secrets. The digest
  function is a parameter. The operations are in \<open>Control_Plane\<close>.
\<close>

section \<open>Errors and records\<close>

datatype control_plane_error = CpNotFound string | CpConflict string | CpValidation string | CpPersistence string

fun control_plane_error_text :: "control_plane_error \<Rightarrow> string" where
  "control_plane_error_text (CpNotFound m) = ''not found: '' @ m"
| "control_plane_error_text (CpConflict m) = ''conflict: '' @ m"
| "control_plane_error_text (CpValidation m) = ''validation: '' @ m"
| "control_plane_error_text (CpPersistence m) = ''persistence: '' @ m"

text \<open>JSON values; a number is kept as its text.\<close>

datatype json = JNull | JBool bool | JNum string | JStr string | JArr "json list" | JObj "(string \<times> json) list"

fun json_get :: "string \<Rightarrow> json \<Rightarrow> json option" where
  "json_get k (JObj m) = hm_get m k"
| "json_get k _ = None"

fun json_bool :: "json \<Rightarrow> bool option" where
  "json_bool (JBool b) = Some b"
| "json_bool _ = None"

fun json_str :: "json \<Rightarrow> string option" where
  "json_str (JStr s) = Some s"
| "json_str _ = None"

fun json_array :: "json \<Rightarrow> json list option" where
  "json_array (JArr xs) = Some xs"
| "json_array _ = None"

record team_record =
  tm_team_id :: string
  tm_name :: string
  tm_is_default :: bool
  tm_created_at :: time

record team_member_record =
  mb_user_id :: string
  mb_email :: "string option"
  mb_role :: string

datatype scope_record = SrRead | SrFull | SrAdmin

fun into_scope :: "scope_record \<Rightarrow> scope" where
  "into_scope SrRead = ScopeRead"
| "into_scope SrFull = ScopeFull"
| "into_scope SrAdmin = ScopeFull"

record api_key_record =
  ak_id :: string
  ak_team_id :: string
  ak_name :: string
  ak_salt :: string
  ak_digest :: string
  ak_mask :: string
  ak_created_at :: time
  ak_last_used :: "time option"
  ak_scope :: scope_record

record access_token_record =
  at_id :: string
  at_team_id :: string
  at_name :: string
  at_salt :: string
  at_digest :: string
  at_mask :: string
  at_created_at :: time

record volume_file_record =
  vf_content :: "byte list"
  vf_mode :: u32
  vf_modified_at :: time
  vf_metadata :: "(string, string) hashmap"

record volume_record =
  vo_volume_id :: string
  vo_team_id :: string
  vo_name :: string
  vo_token_salt :: string
  vo_token_digest :: string
  vo_token_mask :: string
  vo_created_at :: time
  vo_files :: "(string, volume_file_record) hashmap"

record template_record =
  te_template_id :: string
  te_team_id :: string
  te_names :: "string list"
  te_aliases :: "string list"
  te_tags :: "string list"
  te_public :: bool
  te_created_at :: time
  te_updated_at :: time
  te_latest_build_id :: "string option"
  te_build_ids :: "string list"
  te_image_reference :: "string option"

record build_record =
  bu_build_id :: string
  bu_template_id :: string
  bu_team_id :: string
  bu_status :: string
  bu_image_reference :: "string option"
  bu_request :: json
  bu_logs :: "json list"
  bu_created_at :: time
  bu_updated_at :: time

record snapshot_record =
  sn_snapshot_id :: string
  sn_team_id :: string
  sn_sandbox_id :: string
  sn_name :: "string option"
  sn_created_at :: time
  sn_state_path :: string
  sn_memory_path :: string

record watcher_record =
  wa_watcher_id :: string
  wa_team_id :: string
  wa_sandbox_id :: string
  wa_path :: string
  wa_recursive :: bool
  wa_include_entry :: bool
  wa_events :: "json list"

record audit_record =
  ad_id :: string
  ad_team_id :: string
  ad_action :: string
  ad_resource_type :: string
  ad_resource_id :: "string option"
  ad_created_at :: time
  ad_fields :: json

record control_data =
  cd_teams :: "(string, team_record) hashmap"
  cd_members :: "(string, team_member_record list) hashmap"
  cd_api_keys :: "(string, api_key_record) hashmap"
  cd_access_tokens :: "(string, access_token_record) hashmap"
  cd_volumes :: "(string, volume_record) hashmap"
  cd_templates :: "(string, template_record) hashmap"
  cd_builds :: "(string, build_record) hashmap"
  cd_snapshots :: "(string, snapshot_record) hashmap"
  cd_watchers :: "(string, watcher_record) hashmap"
  cd_audit :: "audit_record list"

definition default_control_data :: control_data where
  "default_control_data = \<lparr>cd_teams = [], cd_members = [], cd_api_keys = [], cd_access_tokens = [], cd_volumes = [],
     cd_templates = [], cd_builds = [], cd_snapshots = [], cd_watchers = [], cd_audit = []\<rparr>"

section \<open>Validation\<close>

definition validate_name :: "string \<Rightarrow> string \<Rightarrow> (unit, control_plane_error) result" where
  "validate_name name kind =
     (if str_trim name = [] \<or> str_len name > 128 then Err (CpValidation (kind @ '' name is invalid'')) else Ok ())"

definition validate_template_name :: "string \<Rightarrow> (unit, control_plane_error) result" where
  "validate_template_name name =
     (if str_trim name = [] \<or> str_len name > 128 \<or> CHR ''/'' \<in> set name \<or> CHR 0x5C \<in> set name
      then Err (CpValidation ''template name is invalid'') else Ok ())"

text \<open>The loop over the components of a path, with the output so far.\<close>

fun normal_components :: "string list \<Rightarrow> string list \<Rightarrow> (string list, control_plane_error) result" where
  "normal_components [] out = Ok out"
| "normal_components (c # cs) out =
     (if c = [] \<or> c = ''.'' then normal_components cs out
      else if c = ''..'' then Err (CpValidation ''volume path escapes root'')
      else if nul \<in> set c then Err (CpValidation ''volume path contains NUL'')
      else normal_components cs (out @ [c]))"

definition normalize_volume_path :: "string \<Rightarrow> (string, control_plane_error) result" where
  "normalize_volume_path path =
     (if CHR 0x5C \<in> set path \<or> nul \<in> set path
      then Err (CpValidation ''volume path contains an invalid character'')
      else if path = [] then Ok ''/''
      else case normal_components (split_on (CHR ''/'') path) [] of
        Err e \<Rightarrow> Err e
      | Ok out \<Rightarrow> Ok (''/'' @ join_with ''/'' out))"

section \<open>Secrets\<close>

definition digest_secret :: "(byte list \<Rightarrow> string) \<Rightarrow> string \<Rightarrow> string \<Rightarrow> string" where
  "digest_secret sha256_hex salt v = sha256_hex (as_bytes salt @ [0] @ as_bytes v)"

definition verify_digest :: "(byte list \<Rightarrow> string) \<Rightarrow> string \<Rightarrow> string \<Rightarrow> string \<Rightarrow> bool" where
  "verify_digest sha256_hex salt v expected \<longleftrightarrow> digest_secret sha256_hex salt v = expected"

text \<open>\<open>mask_secret\<close> slices by bytes; the secrets are ASCII text, where bytes and characters agree.\<close>

definition mask_secret :: "string \<Rightarrow> string" where
  "mask_secret v =
     (if length v \<le> 8 then ''********''
      else take 4 v @ replicate (length v - 8) (CHR ''*'') @ drop (length v - 4) v)"

definition mask_secret_suffix :: "string \<Rightarrow> string" where
  "mask_secret_suffix m = rev (take 4 (rev m))"

text \<open>What the interface shows of an API key.\<close>

record api_key_shown =
  ks_id :: string
  ks_name :: string
  ks_prefix :: string
  ks_suffix :: string
  ks_created_at :: time
  ks_last_used :: "time option"

definition api_key_view :: "api_key_record \<Rightarrow> api_key_shown" where
  "api_key_view k = \<lparr>ks_id = ak_id k, ks_name = ak_name k, ks_prefix = take 4 (ak_mask k),
     ks_suffix = mask_secret_suffix (ak_mask k), ks_created_at = ak_created_at k, ks_last_used = ak_last_used k\<rparr>"

section \<open>Lemmas\<close>

definition plain_component :: "string \<Rightarrow> bool" where
  "plain_component c \<longleftrightarrow> c \<noteq> [] \<and> c \<noteq> ''.'' \<and> c \<noteq> ''..'' \<and> nul \<notin> set c"

definition path_text :: "string list \<Rightarrow> string" where
  "path_text cs = ''/'' @ join_with ''/'' cs"

lemma normal_components_append:
  "normal_components cs out =
     (case normal_components cs [] of Err e \<Rightarrow> Err e | Ok rest \<Rightarrow> Ok (out @ rest))"
proof (induction cs arbitrary: out)
  case (Cons c cs)
  show ?case using Cons.IH [of out] Cons.IH [of "out @ [c]"] Cons.IH [of "[c]"]
    by (auto split: sum.splits)
qed simp

lemma normal_components_plain:
  "list_all plain_component cs \<Longrightarrow> normal_components cs out = Ok (out @ cs)"
  by (induction cs arbitrary: out) (auto simp: plain_component_def)

lemma normal_components_OkD:
  "normal_components cs [] = Ok out \<Longrightarrow>
     list_all plain_component out \<and> out = filter (\<lambda>c. c \<noteq> [] \<and> c \<noteq> ''.'') cs"
proof (induction cs arbitrary: out)
  case (Cons c cs)
  then show ?case using normal_components_append [of cs "[c]"]
    by (auto simp: plain_component_def split: if_splits sum.splits)
qed simp

text \<open>The normal form of a path is the text of a list of plain components.\<close>

definition clean_component :: "string \<Rightarrow> bool" where
  "clean_component c \<longleftrightarrow> plain_component c \<and> CHR ''/'' \<notin> set c \<and> CHR 0x5C \<notin> set c"

definition path_components :: "string \<Rightarrow> string list" where
  "path_components p = filter (\<lambda>c. c \<noteq> [] \<and> c \<noteq> ''.'') (split_on (CHR ''/'') p)"

lemma split_on_subset: "c \<in> set (split_on d s) \<Longrightarrow> set c \<subseteq> set s"
proof (induction d s arbitrary: c rule: split_on.induct)
  case (2 d x s)
  then show ?case by (cases "split_on d s") (fastforce split: if_splits)+
qed simp

lemma normalize_OkD:
  assumes "normalize_volume_path p = Ok q"
  shows "q = path_text (path_components p) \<and> list_all clean_component (path_components p)"
proof (cases "p = []")
  case True
  then show ?thesis using assms by (simp add: normalize_volume_path_def path_text_def path_components_def)
next
  case False
  then obtain out where out: "normal_components (split_on (CHR ''/'') p) [] = Ok out"
    and q: "q = path_text out" and bs: "CHR 0x5C \<notin> set p"
    using assms by (auto simp: normalize_volume_path_def path_text_def split: if_splits sum.splits)
  from normal_components_OkD [OF out] have o: "list_all plain_component out" "out = path_components p"
    unfolding path_components_def by blast+
  have "CHR ''/'' \<notin> set c \<and> CHR 0x5C \<notin> set c" if "c \<in> set out" for c
  proof -
    have c: "c \<in> set (split_on (CHR ''/'') p)" using that o(2) by (simp add: path_components_def)
    show ?thesis using split_on_no_sep [OF c] split_on_subset [OF c] bs by blast
  qed
  then show ?thesis using o q by (simp add: list_all_iff clean_component_def)
qed

lemma join_with_chars: "c \<in> set (join_with ''/'' cs) \<Longrightarrow> c = CHR ''/'' \<or> (\<exists>x\<in>set cs. c \<in> set x)"
  by (induction "''/''" cs rule: join_with.induct) auto

lemma path_components_text: "list_all clean_component cs \<Longrightarrow> path_components (path_text cs) = cs"
proof -
  assume cs: "list_all clean_component cs"
  show ?thesis
  proof (cases "cs = []")
    case False
    then have "split_on (CHR ''/'') (join_with ''/'' cs) = cs"
      using cs by (intro split_on_join) (auto simp: list_all_iff clean_component_def)
    then show ?thesis using cs
      by (simp add: path_components_def path_text_def filter_id_conv list_all_iff clean_component_def plain_component_def)
  qed (simp add: path_components_def path_text_def)
qed

lemma normalize_path_text: "list_all clean_component cs \<Longrightarrow> normalize_volume_path (path_text cs) = Ok (path_text cs)"
proof -
  assume cs: "list_all clean_component cs"
  have "CHR 0x5C \<notin> set (path_text cs)" "nul \<notin> set (path_text cs)"
    using join_with_chars [of _ cs] cs
    by (auto simp: path_text_def list_all_iff clean_component_def plain_component_def nul_def)
  moreover have "normal_components (split_on (CHR ''/'') (path_text cs)) [] = Ok cs"
  proof (cases "cs = []")
    case False
    then have "split_on (CHR ''/'') (join_with ''/'' cs) = cs"
      using cs by (intro split_on_join) (auto simp: list_all_iff clean_component_def)
    then show ?thesis using cs normal_components_plain [of cs "[]"]
      by (simp add: path_text_def list_all_iff clean_component_def)
  qed (simp add: path_text_def)
  ultimately show ?thesis by (simp add: normalize_volume_path_def) (simp add: path_text_def)
qed

lemma normalize_idem: "normalize_volume_path p = Ok q \<Longrightarrow> normalize_volume_path q = Ok q"
  using normalize_OkD normalize_path_text by blast

end
