(* ===== verification/Control_Plane.thy ===== *)
theory Control_Plane
  imports Control_Data
begin

text \<open>
  \<open>crates/clouisle-api/src/e2b_cloud.rs\<close>, the operations of \<open>E2bControlPlane\<close>. An operation changes the
  data in memory, then writes all of it to a temporary file and renames that file over the
  persistent one. Digest, JSON text and file system are the parameter \<open>env\<close>; the
  identifiers and clock readings that a call draws are its argument \<open>fr\<close>, numbered in the order
  in which the call draws them.
\<close>

section \<open>State and persistence\<close>

record 'w cp_env =
  ce_sha256_hex :: "byte list \<Rightarrow> string"
  ce_to_json :: "control_data \<Rightarrow> (byte list, string) result"
  ce_from_json :: "byte list \<Rightarrow> (control_data, string) result"
  ce_pid :: nat
  ce_try_exists :: "string \<Rightarrow> 'w \<Rightarrow> bool"
  ce_read :: "string \<Rightarrow> 'w \<Rightarrow> (byte list, string) result"
  ce_create_dir_all :: "string \<Rightarrow> 'w \<Rightarrow> 'w \<times> (unit, string) result"
  ce_write :: "string \<Rightarrow> byte list \<Rightarrow> 'w \<Rightarrow> 'w \<times> (unit, string) result"
  ce_rename :: "string \<Rightarrow> string \<Rightarrow> 'w \<Rightarrow> 'w \<times> (unit, string) result"

record fresh =
  fr_uuid :: "nat \<Rightarrow> string"
  fr_now :: "nat \<Rightarrow> time"

record 'w plane =
  pl_data :: control_data
  pl_path :: "string option"
  pl_fs :: 'w

type_synonym ('w, 'a) cp_comp = "('w plane, 'a, control_plane_error) comp"

definition plane_new :: "'w \<Rightarrow> 'w plane" where
  "plane_new w = \<lparr>pl_data = default_control_data, pl_path = None, pl_fs = w\<rparr>"

text \<open>\<open>Path::with_extension\<close> and \<open>Path::parent\<close> on a path whose last component is a plain file name.\<close>

definition file_name :: "string \<Rightarrow> string" where
  "file_name p = rev (takeWhile (\<lambda>c. c \<noteq> CHR ''/'') (rev p))"

definition dir_part :: "string \<Rightarrow> string" where
  "dir_part p = take (length p - length (file_name p)) p"

definition file_stem :: "string \<Rightarrow> string" where
  "file_stem n =
     (let ext = takeWhile (\<lambda>c. c \<noteq> CHR ''.'') (rev n)
      in if length n \<le> Suc (length ext) then n else take (length n - Suc (length ext)) n)"

definition with_extension :: "string \<Rightarrow> string \<Rightarrow> string" where
  "with_extension p ext = dir_part p @ file_stem (file_name p) @ ''.'' @ ext"

definition parent_dir :: "string \<Rightarrow> string" where
  "parent_dir p = (if length (dir_part p) \<le> 1 then dir_part p else butlast (dir_part p))"

definition fs_call :: "('w \<Rightarrow> 'w \<times> ('a, string) result) \<Rightarrow> ('w, 'a) cp_comp" where
  "fs_call f p = (case f (pl_fs p) of (w', r) \<Rightarrow> (p\<lparr>pl_fs := w'\<rparr>, map_sum CpPersistence id r))"

definition tmp_path :: "'w cp_env \<Rightarrow> string \<Rightarrow> string" where
  "tmp_path env path = with_extension path (''tmp-'' @ show_nat (ce_pid env))"

definition persist :: "'w cp_env \<Rightarrow> ('w, unit) cp_comp" where
  "persist env p =
     (case pl_path p of
        None \<Rightarrow> (p, Ok ())
      | Some path \<Rightarrow>
          (case ce_to_json env (pl_data p) of
             Err e \<Rightarrow> (p, Err (CpPersistence e))
           | Ok bytes \<Rightarrow>
               and_then (if parent_dir path \<noteq> [] then fs_call (ce_create_dir_all env (parent_dir path)) else ok ())
                 (\<lambda>_. and_then (fs_call (ce_write env (tmp_path env path) bytes))
                 (\<lambda>_. fs_call (ce_rename env (tmp_path env path) path))) p))"

definition with_data :: "(control_data \<Rightarrow> control_data) \<Rightarrow> 'w plane \<Rightarrow> 'w plane" where
  "with_data f p = p\<lparr>pl_data := f (pl_data p)\<rparr>"

section \<open>Teams\<close>

definition ensure_team ::
  "'w cp_env \<Rightarrow> fresh \<Rightarrow> string \<Rightarrow> string option \<Rightarrow> ('w, team_record) cp_comp" where
  "ensure_team env fr team_id name p =
     (if str_trim team_id = [] then (p, Err (CpValidation ''team id is empty''))
      else case hm_get (cd_teams (pl_data p)) team_id of
        Some team \<Rightarrow> and_then (persist env) (\<lambda>_. ok team) p
      | None \<Rightarrow>
          (let team = \<lparr>tm_team_id = team_id, tm_name = (case name of Some n \<Rightarrow> n | None \<Rightarrow> team_id),
                       tm_is_default = (cd_teams (pl_data p) = []), tm_created_at = fr_now fr 0\<rparr>
           in and_then (modify (with_data (cd_teams_update (hm_insert team_id team))))
                (\<lambda>_. and_then (persist env) (\<lambda>_. ok team)) p))"

definition plane_open ::
  "'w cp_env \<Rightarrow> fresh \<Rightarrow> string \<Rightarrow> 'w \<Rightarrow> 'w \<times> ('w plane, control_plane_error) result" where
  "plane_open env fr path w =
     (case (if ce_try_exists env path w
            then (case ce_read env path w of
                    Err e \<Rightarrow> Err (CpPersistence e)
                  | Ok bytes \<Rightarrow> map_sum CpPersistence id (ce_from_json env bytes))
            else Ok default_control_data) of
        Err e \<Rightarrow> (w, Err e)
      | Ok d \<Rightarrow>
          (case ensure_team env fr ''dev'' (Some ''Development'') \<lparr>pl_data = d, pl_path = Some path, pl_fs = w\<rparr> of
             (p, Ok _) \<Rightarrow> (pl_fs p, Ok p)
           | (p, Err e) \<Rightarrow> (pl_fs p, Err e)))"

definition get_team :: "string \<Rightarrow> 'w plane \<Rightarrow> (team_record, control_plane_error) result" where
  "get_team team_id p = ok_or (CpNotFound (''team '' @ team_id)) (hm_get (cd_teams (pl_data p)) team_id)"

definition list_teams :: "'w cp_env \<Rightarrow> fresh \<Rightarrow> string \<Rightarrow> ('w, team_record list) cp_comp" where
  "list_teams env fr team_id = and_then (ensure_team env fr team_id None) (\<lambda>team. ok [team])"

definition members_of :: "string \<Rightarrow> control_data \<Rightarrow> team_member_record list" where
  "members_of team_id d = (case hm_get (cd_members d) team_id of Some ms \<Rightarrow> ms | None \<Rightarrow> [])"

text \<open>\<open>entry(..).or_default()\<close> leaves an empty list behind even when the member is refused.\<close>

definition push_member :: "string \<Rightarrow> team_member_record \<Rightarrow> ('w, unit) cp_comp" where
  "push_member team_id m p =
     (let ms = members_of team_id (pl_data p);
          p' = with_data (cd_members_update (hm_insert team_id ms)) p
      in if \<exists>x\<in>set ms. mb_user_id x = mb_user_id m
         then (p', Err (CpConflict (''member '' @ mb_user_id m @ '' already exists'')))
         else (with_data (cd_members_update (hm_insert team_id (ms @ [m]))) p', Ok ()))"

definition add_member ::
  "'w cp_env \<Rightarrow> fresh \<Rightarrow> string \<Rightarrow> team_member_record \<Rightarrow> ('w, unit) cp_comp" where
  "add_member env fr team_id m =
     and_then (ensure_team env fr team_id None) (\<lambda>_. and_then (push_member team_id m) (\<lambda>_. persist env))"

definition team_members ::
  "'w cp_env \<Rightarrow> fresh \<Rightarrow> string \<Rightarrow> ('w, team_member_record list) cp_comp" where
  "team_members env fr team_id =
     and_then (ensure_team env fr team_id None) (\<lambda>_ p. (p, Ok (members_of team_id (pl_data p))))"

section \<open>Credentials\<close>

definition key_accepts :: "'w cp_env \<Rightarrow> string \<Rightarrow> api_key_record \<Rightarrow> bool" where
  "key_accepts env cred k = verify_digest (ce_sha256_hex env) (ak_salt k) cred (ak_digest k)"

definition token_accepts :: "'w cp_env \<Rightarrow> string \<Rightarrow> access_token_record \<Rightarrow> bool" where
  "token_accepts env cred t = verify_digest (ce_sha256_hex env) (at_salt t) cred (at_digest t)"

definition volume_accepts :: "'w cp_env \<Rightarrow> string \<Rightarrow> volume_record \<Rightarrow> bool" where
  "volume_accepts env cred v = verify_digest (ce_sha256_hex env) (vo_token_salt v) cred (vo_token_digest v)"

definition cp_authenticate :: "'w cp_env \<Rightarrow> fresh \<Rightarrow> string \<Rightarrow> 'w plane \<Rightarrow> 'w plane \<times> principal option" where
  "cp_authenticate env fr cred p =
     (case find (\<lambda>(_, k). key_accepts env cred k) (cd_api_keys (pl_data p)) of
        Some (i, k) \<Rightarrow>
          (fst (persist env (with_data (cd_api_keys_update (hm_insert i (k\<lparr>ak_last_used := Some (fr_now fr 0)\<rparr>))) p)),
           Some \<lparr>pr_tenant_id = ak_team_id k, pr_scope = into_scope (ak_scope k), pr_volume_id = None\<rparr>)
      | None \<Rightarrow>
          (case find (token_accepts env cred) (hm_values (cd_access_tokens (pl_data p))) of
             Some t \<Rightarrow> (p, Some \<lparr>pr_tenant_id = at_team_id t, pr_scope = ScopeFull, pr_volume_id = None\<rparr>)
           | None \<Rightarrow>
               (case find (volume_accepts env cred) (hm_values (cd_volumes (pl_data p))) of
                  Some v \<Rightarrow> (p, Some \<lparr>pr_tenant_id = vo_team_id v, pr_scope = ScopeFull, pr_volume_id = Some (vo_volume_id v)\<rparr>)
                | None \<Rightarrow> (p, None))))"

definition record_audit ::
  "'w cp_env \<Rightarrow> string \<Rightarrow> time \<Rightarrow> string \<Rightarrow> string \<Rightarrow> string \<Rightarrow> string option \<Rightarrow> json \<Rightarrow> ('w, unit) cp_comp" where
  "record_audit env i now team_id action rtype rid flds =
     and_then (modify (with_data (cd_audit_update (\<lambda>xs. xs @ [\<lparr>ad_id = i, ad_team_id = team_id, ad_action = action,
         ad_resource_type = rtype, ad_resource_id = rid, ad_created_at = now, ad_fields = flds\<rparr>]))))
       (\<lambda>_. persist env)"

definition name_fields :: "string \<Rightarrow> json" where
  "name_fields name = JObj [(''name'', JStr name)]"

definition uuid_simple :: "string \<Rightarrow> string" where
  "uuid_simple u = filter (\<lambda>c. c \<noteq> CHR ''-'') u"

text \<open>The answer to the creation of a key or token; its secret is in no other answer.\<close>

record secret_created =
  kc_id :: string
  kc_secret :: string
  kc_prefix :: string
  kc_suffix :: string
  kc_name :: string
  kc_created_at :: time

definition key_of_call ::
  "'w cp_env \<Rightarrow> fresh \<Rightarrow> string \<Rightarrow> string \<Rightarrow> scope_record \<Rightarrow> string \<Rightarrow> api_key_record" where
  "key_of_call env fr team_id name sc raw =
     \<lparr>ak_id = fr_uuid fr 0, ak_team_id = team_id, ak_name = name, ak_salt = fr_uuid fr 2,
      ak_digest = digest_secret (ce_sha256_hex env) (fr_uuid fr 2) raw, ak_mask = mask_secret raw,
      ak_created_at = fr_now fr 1, ak_last_used = None, ak_scope = sc\<rparr>"

definition create_api_key ::
  "'w cp_env \<Rightarrow> fresh \<Rightarrow> string \<Rightarrow> string \<Rightarrow> scope_record \<Rightarrow> ('w, secret_created) cp_comp" where
  "create_api_key env fr team_id name sc =
     and_then (lift_result (validate_name name ''API key'')) (\<lambda>_.
     and_then (ensure_team env fr team_id None) (\<lambda>_.
       let i = fr_uuid fr 0; raw = ''e2b_'' @ uuid_simple (fr_uuid fr 1); m = mask_secret raw
       in and_then (modify (with_data (cd_api_keys_update (hm_insert i (key_of_call env fr team_id name sc raw))))) (\<lambda>_.
          and_then (record_audit env (fr_uuid fr 3) (fr_now fr 2) team_id ''api_key.create'' ''api_key'' (Some i)
                      (name_fields name)) (\<lambda>_.
          and_then (persist env) (\<lambda>_.
          ok \<lparr>kc_id = i, kc_secret = raw, kc_prefix = take 8 m, kc_suffix = mask_secret_suffix m, kc_name = name,
              kc_created_at = fr_now fr 3\<rparr>)))))"

definition list_api_keys :: "'w cp_env \<Rightarrow> fresh \<Rightarrow> string \<Rightarrow> ('w, api_key_shown list) cp_comp" where
  "list_api_keys env fr team_id =
     and_then (ensure_team env fr team_id None)
       (\<lambda>_ p. (p, Ok (map api_key_view (filter (\<lambda>k. ak_team_id k = team_id) (hm_values (cd_api_keys (pl_data p)))))))"

definition update_api_key ::
  "'w cp_env \<Rightarrow> fresh \<Rightarrow> string \<Rightarrow> string \<Rightarrow> string \<Rightarrow> ('w, unit) cp_comp" where
  "update_api_key env fr team_id i name =
     and_then (lift_result (validate_name name ''API key'')) (\<lambda>_ p.
       case opt_filter (\<lambda>k. ak_team_id k = team_id) (hm_get (cd_api_keys (pl_data p)) i) of
         None \<Rightarrow> (p, Err (CpNotFound (''API key '' @ i)))
       | Some k \<Rightarrow>
           and_then (modify (with_data (cd_api_keys_update (hm_insert i (k\<lparr>ak_name := name\<rparr>))))) (\<lambda>_.
           and_then (record_audit env (fr_uuid fr 0) (fr_now fr 0) team_id ''api_key.update'' ''api_key'' (Some i)
                       (name_fields name)) (\<lambda>_.
           persist env)) p)"

text \<open>The three deletions below remove the entry from the map before they look at its team.\<close>

definition delete_api_key :: "'w cp_env \<Rightarrow> fresh \<Rightarrow> string \<Rightarrow> string \<Rightarrow> ('w, unit) cp_comp" where
  "delete_api_key env fr team_id i p =
     (let removed = opt_filter (\<lambda>k. ak_team_id k = team_id) (hm_get (cd_api_keys (pl_data p)) i);
          p' = with_data (cd_api_keys_update (hm_remove i)) p
      in if removed = None then (p', Err (CpNotFound (''API key '' @ i)))
         else and_then (record_audit env (fr_uuid fr 0) (fr_now fr 0) team_id ''api_key.delete'' ''api_key'' (Some i)
                          (JObj [])) (\<lambda>_. persist env) p')"

definition create_access_token ::
  "'w cp_env \<Rightarrow> fresh \<Rightarrow> string \<Rightarrow> string \<Rightarrow> ('w, secret_created) cp_comp" where
  "create_access_token env fr team_id name =
     and_then (lift_result (validate_name name ''access token'')) (\<lambda>_.
     and_then (ensure_team env fr team_id None) (\<lambda>_.
       let i = fr_uuid fr 0; raw = ''e2b_access_'' @ uuid_simple (fr_uuid fr 1); salt = fr_uuid fr 2; m = mask_secret raw;
           t = \<lparr>at_id = i, at_team_id = team_id, at_name = name, at_salt = salt,
                at_digest = digest_secret (ce_sha256_hex env) salt raw, at_mask = m, at_created_at = fr_now fr 1\<rparr>
       in and_then (modify (with_data (cd_access_tokens_update (hm_insert i t)))) (\<lambda>_.
          and_then (record_audit env (fr_uuid fr 3) (fr_now fr 2) team_id ''access_token.create'' ''access_token'' (Some i)
                      (name_fields name)) (\<lambda>_.
          and_then (persist env) (\<lambda>_.
          ok \<lparr>kc_id = i, kc_secret = raw, kc_prefix = take 8 m, kc_suffix = mask_secret_suffix m, kc_name = name,
              kc_created_at = fr_now fr 3\<rparr>)))))"

definition delete_access_token :: "'w cp_env \<Rightarrow> fresh \<Rightarrow> string \<Rightarrow> string \<Rightarrow> ('w, unit) cp_comp" where
  "delete_access_token env fr team_id i p =
     (let removed = opt_filter (\<lambda>t. at_team_id t = team_id) (hm_get (cd_access_tokens (pl_data p)) i);
          p' = with_data (cd_access_tokens_update (hm_remove i)) p
      in if removed = None then (p', Err (CpNotFound (''access token '' @ i)))
         else and_then (record_audit env (fr_uuid fr 0) (fr_now fr 0) team_id ''access_token.delete'' ''access_token''
                          (Some i) (JObj [])) (\<lambda>_. persist env) p')"

section \<open>Volumes\<close>

definition volume_name_ok :: "string \<Rightarrow> bool" where
  "volume_name_ok name \<longleftrightarrow>
     name \<noteq> [] \<and> list_all (\<lambda>c. is_ascii_alphanumeric c \<or> c = CHR ''_'' \<or> c = CHR ''-'') name"

record volume_created =
  vc_volume_id :: string
  vc_name :: string
  vc_token :: string

definition insert_volume :: "'w cp_env \<Rightarrow> fresh \<Rightarrow> string \<Rightarrow> string \<Rightarrow> string \<Rightarrow> ('w, unit) cp_comp" where
  "insert_volume env fr team_id name token p =
     (if \<exists>v\<in>set (hm_values (cd_volumes (pl_data p))). vo_team_id v = team_id \<and> vo_name v = name
      then (p, Err (CpConflict (''volume '' @ name @ '' exists'')))
      else (with_data (cd_volumes_update (hm_insert (fr_uuid fr 0)
              \<lparr>vo_volume_id = fr_uuid fr 0, vo_team_id = team_id, vo_name = name, vo_token_salt = fr_uuid fr 2,
               vo_token_digest = digest_secret (ce_sha256_hex env) (fr_uuid fr 2) token,
               vo_token_mask = mask_secret token, vo_created_at = fr_now fr 1, vo_files = []\<rparr>)) p, Ok ()))"

definition create_volume :: "'w cp_env \<Rightarrow> fresh \<Rightarrow> string \<Rightarrow> string \<Rightarrow> ('w, volume_created) cp_comp" where
  "create_volume env fr team_id name =
     (if \<not> volume_name_ok name then throw (CpValidation ''volume name must match ^[a-zA-Z0-9_-]+$'')
      else and_then (ensure_team env fr team_id None) (\<lambda>_.
        let token = ''e2b_volume_'' @ uuid_simple (fr_uuid fr 1)
        in and_then (insert_volume env fr team_id name token) (\<lambda>_.
           and_then (record_audit env (fr_uuid fr 3) (fr_now fr 2) team_id ''volume.create'' ''volume'' (Some (fr_uuid fr 0))
                       (name_fields name)) (\<lambda>_.
           and_then (persist env) (\<lambda>_.
           ok \<lparr>vc_volume_id = fr_uuid fr 0, vc_name = name, vc_token = token\<rparr>)))))"

definition list_volumes :: "'w cp_env \<Rightarrow> fresh \<Rightarrow> string \<Rightarrow> ('w, (string \<times> string) list) cp_comp" where
  "list_volumes env fr team_id =
     and_then (ensure_team env fr team_id None)
       (\<lambda>_ p. (p, Ok (map (\<lambda>v. (vo_volume_id v, vo_name v))
                        (filter (\<lambda>v. vo_team_id v = team_id) (hm_values (cd_volumes (pl_data p)))))))"

definition volume_by_name :: "string \<Rightarrow> string \<Rightarrow> 'w plane \<Rightarrow> (volume_record, control_plane_error) result" where
  "volume_by_name team_id name p =
     ok_or (CpNotFound (''volume '' @ name))
       (find (\<lambda>v. vo_team_id v = team_id \<and> vo_name v = name) (hm_values (cd_volumes (pl_data p))))"

definition team_volume :: "string \<Rightarrow> string \<Rightarrow> control_data \<Rightarrow> volume_record option" where
  "team_volume team_id i d = opt_filter (\<lambda>v. vo_team_id v = team_id) (hm_get (cd_volumes d) i)"

definition get_volume :: "string \<Rightarrow> string \<Rightarrow> 'w plane \<Rightarrow> (volume_created, control_plane_error) result" where
  "get_volume team_id i p =
     map_sum id (\<lambda>v. \<lparr>vc_volume_id = vo_volume_id v, vc_name = vo_name v, vc_token = vo_token_mask v\<rparr>)
       (ok_or (CpNotFound (''volume '' @ i)) (team_volume team_id i (pl_data p)))"

definition delete_volume :: "'w cp_env \<Rightarrow> fresh \<Rightarrow> string \<Rightarrow> string \<Rightarrow> ('w, unit) cp_comp" where
  "delete_volume env fr team_id i p =
     (let removed = team_volume team_id i (pl_data p);
          p' = with_data (cd_volumes_update (hm_remove i)) p
      in if removed = None then (p', Err (CpNotFound (''volume '' @ i)))
         else and_then (record_audit env (fr_uuid fr 0) (fr_now fr 0) team_id ''volume.delete'' ''volume'' (Some i)
                          (JObj [])) (\<lambda>_. persist env) p')"

definition volume_by_credential :: "'w cp_env \<Rightarrow> string \<Rightarrow> 'w plane \<Rightarrow> volume_record option" where
  "volume_by_credential env cred p = find (volume_accepts env cred) (hm_values (cd_volumes (pl_data p)))"

definition put_volume_file ::
  "'w cp_env \<Rightarrow> fresh \<Rightarrow> string \<Rightarrow> string \<Rightarrow> string \<Rightarrow> byte list \<Rightarrow> (string, string) hashmap \<Rightarrow> ('w, unit) cp_comp" where
  "put_volume_file env fr team_id i path content metadata =
     and_then (lift_result (normalize_volume_path path)) (\<lambda>path p.
       case team_volume team_id i (pl_data p) of
         None \<Rightarrow> (p, Err (CpNotFound (''volume '' @ i)))
       | Some v \<Rightarrow>
           and_then (modify (with_data (cd_volumes_update (hm_insert i (v\<lparr>vo_files := hm_insert path
               \<lparr>vf_content = content, vf_mode = 420, vf_modified_at = fr_now fr 0, vf_metadata = metadata\<rparr> (vo_files v)\<rparr>)))))
             (\<lambda>_. persist env) p)"

definition get_volume_file ::
  "string \<Rightarrow> string \<Rightarrow> string \<Rightarrow> 'w plane \<Rightarrow> (volume_file_record, control_plane_error) result" where
  "get_volume_file team_id i path p =
     (case normalize_volume_path path of
        Err e \<Rightarrow> Err e
      | Ok path \<Rightarrow> ok_or (CpNotFound (''volume file '' @ path))
          (Option.bind (team_volume team_id i (pl_data p)) (\<lambda>v. hm_get (vo_files v) path)))"

text \<open>The entry that a file contributes to the listing of a directory, and the fold that keeps the
  first of equal entries.\<close>

definition dir_prefix :: "string \<Rightarrow> string" where
  "dir_prefix path = (if path = ''/'' then ''/'' else trim_end_matches (CHR ''/'') path @ ''/'')"

definition listed_entry :: "string \<Rightarrow> string \<Rightarrow> string option" where
  "listed_entry path file =
     Option.bind (strip_prefix (dir_prefix path) file) (\<lambda>remainder.
     Option.bind (opt_filter (\<lambda>f. f \<noteq> []) (Some (hd (split_on (CHR ''/'') remainder)))) (\<lambda>f.
     Some (if path = ''/'' then ''/'' @ f else trim_end_matches (CHR ''/'') path @ ''/'' @ f)))"

definition push_new :: "string list \<Rightarrow> string \<Rightarrow> string list" where
  "push_new entries e = (if e \<in> set entries then entries else entries @ [e])"

definition list_volume_files ::
  "string \<Rightarrow> string \<Rightarrow> string \<Rightarrow> 'w plane \<Rightarrow> (string list, control_plane_error) result" where
  "list_volume_files team_id i path p =
     (case normalize_volume_path path of
        Err e \<Rightarrow> Err e
      | Ok path \<Rightarrow>
          (case team_volume team_id i (pl_data p) of
             None \<Rightarrow> Err (CpNotFound (''volume '' @ i))
           | Some v \<Rightarrow> Ok (foldl push_new [] (List.map_filter (listed_entry path) (map fst (vo_files v))))))"

section \<open>Templates and builds\<close>

definition team_template :: "string \<Rightarrow> string \<Rightarrow> control_data \<Rightarrow> template_record option" where
  "team_template team_id i d = opt_filter (\<lambda>t. te_team_id t = team_id) (hm_get (cd_templates d) i)"

definition insert_template ::
  "fresh \<Rightarrow> string \<Rightarrow> string \<Rightarrow> string option \<Rightarrow> bool \<Rightarrow> string option \<Rightarrow> ('w, template_record) cp_comp" where
  "insert_template fr team_id i alias pub img p =
     (if \<exists>t\<in>set (hm_values (cd_templates (pl_data p))). te_team_id t = team_id \<and> te_template_id t = i
      then (p, Err (CpConflict (''template '' @ i @ '' exists'')))
      else (let t = \<lparr>te_template_id = i, te_team_id = team_id, te_names = [i],
                     te_aliases = (case alias of Some a \<Rightarrow> [a] | None \<Rightarrow> []), te_tags = [], te_public = pub,
                     te_created_at = fr_now fr 1, te_updated_at = fr_now fr 1, te_latest_build_id = None,
                     te_build_ids = [], te_image_reference = img\<rparr>
            in (with_data (cd_templates_update (hm_insert i t)) p, Ok t)))"

definition template_id_of :: "fresh \<Rightarrow> string option \<Rightarrow> string" where
  "template_id_of fr name =
     (case opt_filter (\<lambda>n. str_trim n \<noteq> []) name of Some n \<Rightarrow> n | None \<Rightarrow> ''template-'' @ fr_uuid fr 0)"

definition create_template ::
  "'w cp_env \<Rightarrow> fresh \<Rightarrow> string \<Rightarrow> string option \<Rightarrow> string option \<Rightarrow> bool \<Rightarrow> string option
   \<Rightarrow> ('w, template_record) cp_comp" where
  "create_template env fr team_id name alias pub img =
     and_then (lift_result (validate_template_name (template_id_of fr name))) (\<lambda>_.
     and_then (ensure_team env fr team_id None) (\<lambda>_.
     and_then (insert_template fr team_id (template_id_of fr name) alias pub img) (\<lambda>t.
     and_then (persist env) (\<lambda>_. ok t))))"

definition list_templates :: "string \<Rightarrow> 'w plane \<Rightarrow> template_record list" where
  "list_templates team_id p =
     filter (\<lambda>t. te_public t \<or> te_team_id t = team_id) (hm_values (cd_templates (pl_data p)))"

definition image_templates :: "'w plane \<Rightarrow> string list" where
  "image_templates p = List.map_filter te_image_reference (hm_values (cd_templates (pl_data p)))"

definition get_template :: "string \<Rightarrow> string \<Rightarrow> 'w plane \<Rightarrow> (template_record, control_plane_error) result" where
  "get_template team_id i p =
     ok_or (CpNotFound (''template '' @ i))
       (opt_filter (\<lambda>t. te_public t \<or> te_team_id t = team_id) (hm_get (cd_templates (pl_data p)) i))"

text \<open>The changes of \<open>update_template\<close> made through the reference, up to the refusal of an alias.\<close>

definition set_public :: "json \<Rightarrow> template_record \<Rightarrow> template_record" where
  "set_public rq t = (case Option.bind (json_get ''public'' rq) json_bool of Some b \<Rightarrow> t\<lparr>te_public := b\<rparr> | None \<Rightarrow> t)"

definition add_alias :: "string \<Rightarrow> template_record \<Rightarrow> template_record" where
  "add_alias a t = (if a \<in> set (te_aliases t) then t else t\<lparr>te_aliases := te_aliases t @ [a]\<rparr>)"

definition set_tags :: "json \<Rightarrow> template_record \<Rightarrow> template_record" where
  "set_tags rq t = (case Option.bind (json_get ''tags'' rq) json_array of
      Some xs \<Rightarrow> t\<lparr>te_tags := List.map_filter json_str xs\<rparr> | None \<Rightarrow> t)"

definition patch_template ::
  "fresh \<Rightarrow> json \<Rightarrow> template_record \<Rightarrow> template_record \<times> (unit, control_plane_error) result" where
  "patch_template fr rq t =
     (case Option.bind (json_get ''alias'' rq) json_str of
        None \<Rightarrow> ((set_tags rq (set_public rq t))\<lparr>te_updated_at := fr_now fr 0\<rparr>, Ok ())
      | Some a \<Rightarrow>
          (case validate_template_name a of
             Err e \<Rightarrow> (set_public rq t, Err e)
           | Ok _ \<Rightarrow> ((set_tags rq (add_alias a (set_public rq t)))\<lparr>te_updated_at := fr_now fr 0\<rparr>, Ok ())))"

definition update_template ::
  "'w cp_env \<Rightarrow> fresh \<Rightarrow> string \<Rightarrow> string \<Rightarrow> json \<Rightarrow> ('w, template_record) cp_comp" where
  "update_template env fr team_id i rq p =
     (case team_template team_id i (pl_data p) of
        None \<Rightarrow> (p, Err (CpNotFound (''template '' @ i)))
      | Some t \<Rightarrow>
          (case patch_template fr rq t of
             (t', r) \<Rightarrow>
               and_then (modify (with_data (cd_templates_update (hm_insert i t')))) (\<lambda>_.
               and_then (lift_result r) (\<lambda>_.
               and_then (persist env) (\<lambda>_. ok t'))) p))"

definition create_build ::
  "'w cp_env \<Rightarrow> fresh \<Rightarrow> string \<Rightarrow> string \<Rightarrow> json \<Rightarrow> string option \<Rightarrow> ('w, build_record) cp_comp" where
  "create_build env fr team_id i rq img p =
     (case get_template team_id i p of
        Err e \<Rightarrow> (p, Err e)
      | Ok t \<Rightarrow>
          (let b = \<lparr>bu_build_id = fr_uuid fr 0, bu_template_id = te_template_id t, bu_team_id = team_id,
                    bu_status = ''queued'', bu_image_reference = img, bu_request = rq, bu_logs = [],
                    bu_created_at = fr_now fr 0, bu_updated_at = fr_now fr 0\<rparr>;
               touch = (\<lambda>d. case hm_get (cd_templates d) i of
                   None \<Rightarrow> d
                 | Some t \<Rightarrow> cd_templates_update (hm_insert i (t\<lparr>te_build_ids := te_build_ids t @ [fr_uuid fr 0],
                     te_updated_at := fr_now fr 0\<rparr>)) d)
           in and_then (modify (with_data (touch \<circ> cd_builds_update (hm_insert (fr_uuid fr 0) b)))) (\<lambda>_.
              and_then (persist env) (\<lambda>_. ok b)) p))"

definition team_build :: "string \<Rightarrow> string \<Rightarrow> control_data \<Rightarrow> build_record option" where
  "team_build team_id i d = opt_filter (\<lambda>b. bu_team_id b = team_id) (hm_get (cd_builds d) i)"

definition publish_build :: "build_record \<Rightarrow> control_data \<Rightarrow> control_data" where
  "publish_build b d =
     (case hm_get (cd_templates d) (bu_template_id b) of
        None \<Rightarrow> d
      | Some t \<Rightarrow>
          (let t' = t\<lparr>te_latest_build_id := Some (bu_build_id b)\<rparr>;
               t'' = (if bu_image_reference b \<noteq> None then t'\<lparr>te_image_reference := bu_image_reference b\<rparr> else t')
           in cd_templates_update (hm_insert (bu_template_id b) t'') d))"

definition update_build ::
  "'w cp_env \<Rightarrow> fresh \<Rightarrow> string \<Rightarrow> string \<Rightarrow> string \<Rightarrow> json option \<Rightarrow> ('w, build_record) cp_comp" where
  "update_build env fr team_id i status entry p =
     (case team_build team_id i (pl_data p) of
        None \<Rightarrow> (p, Err (CpNotFound (''build '' @ i)))
      | Some b \<Rightarrow>
          (let b' = b\<lparr>bu_status := status, bu_updated_at := fr_now fr 0,
                      bu_logs := bu_logs b @ (case entry of Some l \<Rightarrow> [l] | None \<Rightarrow> [])\<rparr>;
               publish = (if status = ''succeeded'' then publish_build b' else id)
           in and_then (modify (with_data (publish \<circ> cd_builds_update (hm_insert i b')))) (\<lambda>_.
              and_then (persist env) (\<lambda>_. ok b')) p))"

definition get_build :: "string \<Rightarrow> string \<Rightarrow> 'w plane \<Rightarrow> (build_record, control_plane_error) result" where
  "get_build team_id i p = ok_or (CpNotFound (''build '' @ i)) (team_build team_id i (pl_data p))"

definition cancellable :: "string \<Rightarrow> build_record \<Rightarrow> bool" where
  "cancellable team_id b \<longleftrightarrow> bu_team_id b = team_id \<and> bu_status b \<in> {''queued'', ''running''}"

definition cancel_build :: "fresh \<Rightarrow> string \<Rightarrow> build_record \<Rightarrow> build_record" where
  "cancel_build fr team_id b =
     (if cancellable team_id b
      then b\<lparr>bu_status := ''cancelled'', bu_updated_at := fr_now fr 0,
             bu_logs := bu_logs b @ [JObj [(''message'', JStr ''build cancelled by administrator'')]]\<rparr>
      else b)"

definition cancel_builds :: "'w cp_env \<Rightarrow> fresh \<Rightarrow> string \<Rightarrow> ('w, nat \<times> nat) cp_comp" where
  "cancel_builds env fr team_id p =
     (let bs = hm_values (cd_builds (pl_data p));
          cancelled = length (filter (cancellable team_id) bs);
          failed = length (filter (\<lambda>b. bu_team_id b = team_id \<and> bu_status b = ''failed'') bs)
      in and_then (modify (with_data (cd_builds_update (hm_map_values (cancel_build fr team_id))))) (\<lambda>_.
         and_then (persist env) (\<lambda>_. ok (cancelled, failed))) p)"

definition add_template_tag ::
  "'w cp_env \<Rightarrow> fresh \<Rightarrow> string \<Rightarrow> string \<Rightarrow> string \<Rightarrow> ('w, template_record) cp_comp" where
  "add_template_tag env fr team_id i tag =
     and_then (lift_result (validate_template_name tag)) (\<lambda>_ p.
       case team_template team_id i (pl_data p) of
         None \<Rightarrow> (p, Err (CpNotFound (''template '' @ i)))
       | Some t \<Rightarrow>
           (let t' = (if tag \<in> set (te_tags t) then t else t\<lparr>te_tags := te_tags t @ [tag]\<rparr>)\<lparr>te_updated_at := fr_now fr 0\<rparr>
            in and_then (modify (with_data (cd_templates_update (hm_insert i t')))) (\<lambda>_.
               and_then (persist env) (\<lambda>_. ok t')) p))"

section \<open>Snapshots and watchers\<close>

definition create_snapshot ::
  "'w cp_env \<Rightarrow> fresh \<Rightarrow> string \<Rightarrow> string \<Rightarrow> string option \<Rightarrow> string \<Rightarrow> string \<Rightarrow> ('w, snapshot_record) cp_comp" where
  "create_snapshot env fr team_id sid name state_path memory_path =
     (let s = \<lparr>sn_snapshot_id = fr_uuid fr 0, sn_team_id = team_id, sn_sandbox_id = sid, sn_name = name,
               sn_created_at = fr_now fr 0, sn_state_path = state_path, sn_memory_path = memory_path\<rparr>
      in and_then (modify (with_data (cd_snapshots_update (hm_insert (fr_uuid fr 0) s)))) (\<lambda>_.
         and_then (persist env) (\<lambda>_. ok s)))"

definition list_snapshots :: "string \<Rightarrow> 'w plane \<Rightarrow> snapshot_record list" where
  "list_snapshots team_id p = filter (\<lambda>s. sn_team_id s = team_id) (hm_values (cd_snapshots (pl_data p)))"

definition get_snapshot :: "string \<Rightarrow> string \<Rightarrow> 'w plane \<Rightarrow> (snapshot_record, control_plane_error) result" where
  "get_snapshot team_id i p =
     ok_or (CpNotFound (''snapshot '' @ i))
       (opt_filter (\<lambda>s. sn_team_id s = team_id) (hm_get (cd_snapshots (pl_data p)) i))"

definition create_watcher ::
  "'w cp_env \<Rightarrow> fresh \<Rightarrow> string \<Rightarrow> string \<Rightarrow> string \<Rightarrow> bool \<Rightarrow> bool \<Rightarrow> ('w, watcher_record) cp_comp" where
  "create_watcher env fr team_id sid path recursive include_entry =
     and_then (lift_result (normalize_volume_path path)) (\<lambda>path.
       let w = \<lparr>wa_watcher_id = fr_uuid fr 0, wa_team_id = team_id, wa_sandbox_id = sid, wa_path = path,
                wa_recursive = recursive, wa_include_entry = include_entry, wa_events = []\<rparr>
       in and_then (modify (with_data (cd_watchers_update (hm_insert (fr_uuid fr 0) w)))) (\<lambda>_.
          and_then (persist env) (\<lambda>_. ok w)))"

definition watcher_events :: "string \<Rightarrow> string \<Rightarrow> 'w plane \<Rightarrow> (json list, control_plane_error) result" where
  "watcher_events team_id i p =
     ok_or (CpNotFound (''watcher '' @ i))
       (map_option wa_events (opt_filter (\<lambda>w. wa_team_id w = team_id) (hm_get (cd_watchers (pl_data p)) i)))"

definition remove_watcher :: "'w cp_env \<Rightarrow> string \<Rightarrow> string \<Rightarrow> ('w, unit) cp_comp" where
  "remove_watcher env team_id i p =
     (let removed = opt_filter (\<lambda>w. wa_team_id w = team_id) (hm_get (cd_watchers (pl_data p)) i);
          p' = with_data (cd_watchers_update (hm_remove i)) p
      in if removed = None then (p', Err (CpNotFound (''watcher '' @ i))) else persist env p')"

end
