(* ===== verification/Control_Safety.thy ===== *)
theory Control_Safety
  imports Control_Plane
begin

text \<open>
  What the control plane guarantees: its data stay well formed under every operation, what an
  operation of one team leaves untouched of another team's records and where it does not,
  that a successful operation is on disk, that credentials and volume files behave as their
  creation promises.
\<close>

section \<open>Data after an operation\<close>

lemma fs_call_frame: "(\<And>w. g (p\<lparr>pl_fs := w\<rparr>) = g p) \<Longrightarrow> g (fst (fs_call f p)) = g p"
  by (simp add: fs_call_def split: prod.splits)

lemma and_then_frame:
  assumes "\<And>p. g (fst (m p)) = g p" and "\<And>a p. g (fst (f a p)) = g p"
  shows "g (fst (and_then m f p)) = g p"
  by (rule state_preorder.and_then_at [OF observation_preorder]) (simp_all add: assms)

lemma persist_frame:
  assumes g: "\<And>p w. g (p\<lparr>pl_fs := w\<rparr>) = g p"
  shows "g (fst (persist env p)) = g p"
proof (cases "pl_path p")
  case (Some path)
  show ?thesis
  proof (cases "ce_to_json env (pl_data p)")
    case (Inr bytes)
    have "g (fst ((if b then fs_call h else ok ()) q)) = g q" for b h q
      using g by (simp add: fs_call_frame ok_def)
    then show ?thesis
      unfolding persist_def Some Inr option.case sum.case
      by (intro and_then_frame) (simp_all add: fs_call_frame g)
  qed (simp add: persist_def Some)
qed (simp add: persist_def)

lemma persist_data [simp]: "pl_data (fst (persist env p)) = pl_data p"
  by (rule persist_frame) simp

lemma persist_path [simp]: "pl_path (fst (persist env p)) = pl_path p"
  by (rule persist_frame) simp

lemma with_data_data [simp]: "pl_data (with_data f p) = f (pl_data p)" "pl_path (with_data f p) = pl_path p"
  by (simp_all add: with_data_def)

lemma then_modify [simp]: "and_then (modify f) g p = g () (f p)"
  by (simp add: and_then_def modify_def)

lemma ok_fst [simp]: "fst (ok a s) = s" "fst (throw e s) = s" "fst (lift_result r s) = s"
  by (simp_all add: comp_defs)

lemma persist_then_data [simp]:
  "(\<And>p. pl_data (fst (f () p)) = pl_data p) \<Longrightarrow> pl_data (fst (and_then (persist env) f p)) = pl_data p"
  by (rule and_then_frame) simp_all

definition with_audits :: "audit_record list \<Rightarrow> control_data \<Rightarrow> control_data" where
  "with_audits as d = d\<lparr>cd_audit := cd_audit d @ as\<rparr>"

lemma audit_data:
  "pl_data (fst (record_audit env i now t act ty rid flds p)) = with_audits [\<lparr>ad_id = i, ad_team_id = t, ad_action = act,
     ad_resource_type = ty, ad_resource_id = rid, ad_created_at = now, ad_fields = flds\<rparr>] (pl_data p)"
  by (simp add: record_audit_def with_audits_def)

lemma audit_then_data:
  assumes "\<And>p. pl_data (fst (f () p)) = pl_data p"
  shows "\<exists>a. ad_team_id a = t \<and> pl_data (fst (and_then (record_audit env i now t act ty rid flds) f p)) = with_audits [a] (pl_data p)"
proof -
  obtain p' r where m: "record_audit env i now t act ty rid flds p = (p', r)" by (cases "record_audit env i now t act ty rid flds p")
  with assms have "pl_data (fst (and_then (record_audit env i now t act ty rid flds) f p)) = pl_data p'"
    by (cases r) (simp_all add: and_then_def)
  moreover have "pl_data p' = pl_data (fst (record_audit env i now t act ty rid flds p))" using m by simp
  ultimately show ?thesis unfolding audit_data by (intro exI conjI) (simp_all (no_asm_simp))
qed

text \<open>The data after \<open>ensure_team\<close>, whether or not writing them succeeds.\<close>

definition ensured :: "fresh \<Rightarrow> string \<Rightarrow> string option \<Rightarrow> control_data \<Rightarrow> control_data" where
  "ensured fr t name d =
     (if str_trim t = [] \<or> hm_get (cd_teams d) t \<noteq> None then d
      else cd_teams_update (hm_insert t \<lparr>tm_team_id = t, tm_name = (case name of Some n \<Rightarrow> n | None \<Rightarrow> t),
             tm_is_default = (cd_teams d = []), tm_created_at = fr_now fr 0\<rparr>) d)"

lemma ensure_team_data [simp]: "pl_data (fst (ensure_team env fr t name p)) = ensured fr t name (pl_data p)"
  by (auto simp: ensure_team_def ensured_def Let_def split: option.splits)

lemma and_then_data:
  assumes "P (pl_data (fst (m p)))"
    and "\<And>p' a. m p = (p', Ok a) \<Longrightarrow> pl_data p' = pl_data (fst (m p)) \<Longrightarrow> P (pl_data (fst (f a p')))"
  shows "P (pl_data (fst (and_then m f p)))"
  using assms by (cases "m p") (auto simp: and_then_def split: sum.splits)


section \<open>Operations and their effects\<close>

datatype cp_op =
    OpEnsureTeam string "string option"
  | OpAddMember string team_member_record
  | OpCreateKey string string scope_record
  | OpUpdateKey string string string
  | OpDeleteKey string string
  | OpCreateToken string string
  | OpDeleteToken string string
  | OpCreateVolume string string
  | OpDeleteVolume string string
  | OpPutFile string string string "byte list" "(string, string) hashmap"
  | OpCreateTemplate string "string option" "string option" bool "string option"
  | OpUpdateTemplate string string json
  | OpCreateBuild string string json "string option"
  | OpUpdateBuild string string string "json option"
  | OpCancelBuilds string
  | OpAddTag string string string
  | OpCreateSnapshot string string "string option" string string
  | OpCreateWatcher string string string bool bool
  | OpRemoveWatcher string string

fun op_team :: "cp_op \<Rightarrow> string" where
  "op_team (OpEnsureTeam t _) = t"
| "op_team (OpAddMember t _) = t"
| "op_team (OpCreateKey t _ _) = t"
| "op_team (OpUpdateKey t _ _) = t"
| "op_team (OpDeleteKey t _) = t"
| "op_team (OpCreateToken t _) = t"
| "op_team (OpDeleteToken t _) = t"
| "op_team (OpCreateVolume t _) = t"
| "op_team (OpDeleteVolume t _) = t"
| "op_team (OpPutFile t _ _ _ _) = t"
| "op_team (OpCreateTemplate t _ _ _ _) = t"
| "op_team (OpUpdateTemplate t _ _) = t"
| "op_team (OpCreateBuild t _ _ _) = t"
| "op_team (OpUpdateBuild t _ _ _) = t"
| "op_team (OpCancelBuilds t) = t"
| "op_team (OpAddTag t _ _) = t"
| "op_team (OpCreateSnapshot t _ _ _ _) = t"
| "op_team (OpCreateWatcher t _ _ _ _) = t"
| "op_team (OpRemoveWatcher t _) = t"

definition forget :: "('w, 'a) cp_comp \<Rightarrow> ('w, unit) cp_comp" where
  "forget m p = (case m p of (p', r) \<Rightarrow> (p', map_sum id (\<lambda>_. ()) r))"

fun cp_exec :: "'w cp_env \<Rightarrow> fresh \<Rightarrow> cp_op \<Rightarrow> ('w, unit) cp_comp" where
  "cp_exec env fr (OpEnsureTeam t name) = forget (ensure_team env fr t name)"
| "cp_exec env fr (OpAddMember t m) = add_member env fr t m"
| "cp_exec env fr (OpCreateKey t name sc) = forget (create_api_key env fr t name sc)"
| "cp_exec env fr (OpUpdateKey t i name) = update_api_key env fr t i name"
| "cp_exec env fr (OpDeleteKey t i) = delete_api_key env fr t i"
| "cp_exec env fr (OpCreateToken t name) = forget (create_access_token env fr t name)"
| "cp_exec env fr (OpDeleteToken t i) = delete_access_token env fr t i"
| "cp_exec env fr (OpCreateVolume t name) = forget (create_volume env fr t name)"
| "cp_exec env fr (OpDeleteVolume t i) = delete_volume env fr t i"
| "cp_exec env fr (OpPutFile t i path content metadata) = put_volume_file env fr t i path content metadata"
| "cp_exec env fr (OpCreateTemplate t name alias pub img) = forget (create_template env fr t name alias pub img)"
| "cp_exec env fr (OpUpdateTemplate t i rq) = forget (update_template env fr t i rq)"
| "cp_exec env fr (OpCreateBuild t i rq img) = forget (create_build env fr t i rq img)"
| "cp_exec env fr (OpUpdateBuild t i status entry) = forget (update_build env fr t i status entry)"
| "cp_exec env fr (OpCancelBuilds t) = forget (cancel_builds env fr t)"
| "cp_exec env fr (OpAddTag t i tag) = forget (add_template_tag env fr t i tag)"
| "cp_exec env fr (OpCreateSnapshot t sid name sp mp) = forget (create_snapshot env fr t sid name sp mp)"
| "cp_exec env fr (OpCreateWatcher t sid path r ie) = forget (create_watcher env fr t sid path r ie)"
| "cp_exec env fr (OpRemoveWatcher t i) = remove_watcher env t i"

text \<open>
  What an operation of team \<open>t\<close> keeps: a predicate on the data that survives the creation of the team's
  own record and the team's audit records survives the operation if it survives the operation's
  own change of the data. Persisting never matters, whether it succeeds or not.
\<close>

locale team_closed =
  fixes P :: "control_data \<Rightarrow> bool" and t :: string
  assumes audit_closed: "ad_team_id a = t \<Longrightarrow> P d \<Longrightarrow> P (with_audits [a] d)"
    and ensure_closed: "P d \<Longrightarrow> P (ensured fr t name d)"
begin

lemma audit_then:
  assumes "\<And>p. pl_data (fst (f () p)) = pl_data p" and "P (pl_data p)"
  shows "P (pl_data (fst (and_then (record_audit env i now t act ty rid flds) f p)))"
proof -
  obtain a where "ad_team_id a = t"
    and a: "pl_data (fst (and_then (record_audit env i now t act ty rid flds) f p)) = with_audits [a] (pl_data p)"
    using audit_then_data [of f t env i now act ty rid flds p] assms(1) by blast
  then show ?thesis unfolding a using audit_closed assms(2) by blast
qed

lemma ensure_then:
  assumes "P (pl_data p)"
    and "\<And>p' a. pl_data p' = ensured fr t name (pl_data p) \<Longrightarrow> P (pl_data p') \<Longrightarrow> P (pl_data (fst (f a p')))"
  shows "P (pl_data (fst (and_then (ensure_team env fr t name) f p)))"
proof (rule and_then_data)
  show "P (pl_data (fst (ensure_team env fr t name p)))" using assms(1) by (simp add: ensure_closed)
  then show "P (pl_data (fst (f a p')))" if "pl_data p' = pl_data (fst (ensure_team env fr t name p))" for p' a
    using assms(2) [of p' a] that by simp
qed

lemma ensure_step_then:
  fixes p :: "'w plane"
  assumes "P (pl_data p)"
    and step: "\<And>p'. pl_data p' = ensured fr t name (pl_data p) \<Longrightarrow> P (pl_data p') \<Longrightarrow> P (pl_data (fst (m p')))"
    and tail: "\<And>a p'. P (pl_data p') \<Longrightarrow> P (pl_data (fst (f a p')))"
  shows "P (pl_data (fst (and_then (ensure_team env fr t name) (\<lambda>_. and_then m f) p)))"
proof (rule ensure_then [OF assms(1)])
  fix p' :: "'w plane" assume p': "pl_data p' = ensured fr t name (pl_data p)" "P (pl_data p')"
  show "P (pl_data (fst (and_then m f p')))"
    by (rule and_then_data [where P = P], rule step [OF p']) (metis tail step [OF p'] fst_conv)
qed

lemma lift_then:
  assumes "P (pl_data p)" and "\<And>a. r = Ok a \<Longrightarrow> P (pl_data (fst (f a p)))"
  shows "P (pl_data (fst (and_then (lift_result r) f p)))"
  by (rule and_then_data) (use assms in \<open>auto simp: comp_defs\<close>)

lemma forget_data [simp]: "fst (forget m p) = fst (m p)"
  by (simp add: forget_def split: prod.splits)

lemma ensure_team_P: "P (pl_data p) \<Longrightarrow> P (pl_data (fst (ensure_team env fr t name p)))"
  by (simp add: ensure_closed)

lemma add_member_P:
  fixes p :: "'w plane"
  assumes "P (pl_data p)"
    and "\<And>p' :: 'w plane. pl_data p' = ensured fr t None (pl_data p) \<Longrightarrow> P (pl_data p') \<Longrightarrow> P (pl_data (fst (push_member t m p')))"
  shows "P (pl_data (fst (add_member env fr t m p)))"
  unfolding add_member_def
  by (rule ensure_step_then, rule assms(1), rule assms(2)) simp_all

lemma create_api_key_P:
  assumes "P (pl_data p)"
    and "P (cd_api_keys_update (hm_insert (fr_uuid fr 0)
          (key_of_call env fr t name sc (''e2b_'' @ uuid_simple (fr_uuid fr 1)))) (ensured fr t None (pl_data p)))"
  shows "P (pl_data (fst (create_api_key env fr t name sc p)))"
  unfolding create_api_key_def Let_def
  by (rule lift_then, rule assms(1), rule ensure_then, rule assms(1), unfold then_modify, rule audit_then)
    (simp, use assms(2) in simp)

lemma update_api_key_P:
  assumes "P (pl_data p)"
    and "\<And>k. hm_get (cd_api_keys (pl_data p)) i = Some k \<Longrightarrow> ak_team_id k = t \<Longrightarrow>
          P (cd_api_keys_update (hm_insert i (k\<lparr>ak_name := name\<rparr>)) (pl_data p))"
  shows "P (pl_data (fst (update_api_key env fr t i name p)))"
  unfolding update_api_key_def
proof (rule lift_then, rule assms(1))
  let ?k = "opt_filter (\<lambda>k. ak_team_id k = t) (hm_get (cd_api_keys (pl_data p)) i)"
  show "P (pl_data (fst (case ?k of None \<Rightarrow> (p, Err (CpNotFound (''API key '' @ i)))
      | Some k \<Rightarrow> and_then (modify (with_data (cd_api_keys_update (hm_insert i (k\<lparr>ak_name := name\<rparr>)))))
          (\<lambda>_. and_then (record_audit env (fr_uuid fr 0) (fr_now fr 0) t ''api_key.update'' ''api_key'' (Some i)
            (name_fields name)) (\<lambda>_. persist env)) p)))"
  proof (cases ?k)
    case (Some k)
    then have "P (cd_api_keys_update (hm_insert i (k\<lparr>ak_name := name\<rparr>)) (pl_data p))"
      using assms(2) [of k] by (simp only: opt_filter_Some)
    then show ?thesis unfolding Some option.case then_modify by (intro audit_then) simp_all
  qed (simp add: assms(1))
qed

lemma delete_api_key_P:
  "P (cd_api_keys_update (hm_remove i) (pl_data p)) \<Longrightarrow> P (pl_data (fst (delete_api_key env fr t i p)))"
  by (simp add: delete_api_key_def Let_def audit_then)

lemma create_access_token_P:
  assumes "P (pl_data p)"
    and "\<And>tk. at_id tk = fr_uuid fr 0 \<Longrightarrow> at_team_id tk = t \<Longrightarrow>
          P (cd_access_tokens_update (hm_insert (fr_uuid fr 0) tk) (ensured fr t None (pl_data p)))"
  shows "P (pl_data (fst (create_access_token env fr t name p)))"
  unfolding create_access_token_def Let_def
  by (rule lift_then, rule assms(1), rule ensure_then, rule assms(1), unfold then_modify, rule audit_then)
    (simp_all add: assms(2))

lemma delete_access_token_P:
  "P (cd_access_tokens_update (hm_remove i) (pl_data p)) \<Longrightarrow> P (pl_data (fst (delete_access_token env fr t i p)))"
  by (simp add: delete_access_token_def Let_def audit_then)

lemma create_volume_P:
  fixes p :: "'w plane"
  assumes "P (pl_data p)"
    and "\<And>(p' :: 'w plane) tok. volume_name_ok name \<Longrightarrow> pl_data p' = ensured fr t None (pl_data p) \<Longrightarrow> P (pl_data p') \<Longrightarrow>
          P (pl_data (fst (insert_volume env fr t name tok p')))"
  shows "P (pl_data (fst (create_volume env fr t name p)))"
proof (cases "volume_name_ok name")
  case True
  then show ?thesis
    unfolding create_volume_def Let_def
    by (simp only: not_True_eq_False if_False, intro ensure_step_then assms(1) assms(2) [OF True] audit_then) simp_all
qed (simp add: create_volume_def assms(1))

lemma delete_volume_P:
  "P (cd_volumes_update (hm_remove i) (pl_data p)) \<Longrightarrow> P (pl_data (fst (delete_volume env fr t i p)))"
  by (simp add: delete_volume_def Let_def audit_then)

lemma put_volume_file_P:
  assumes "P (pl_data p)"
    and "\<And>np v f. normalize_volume_path path = Ok np \<Longrightarrow> team_volume t i (pl_data p) = Some v \<Longrightarrow>
          P (cd_volumes_update (hm_insert i (v\<lparr>vo_files := hm_insert np f (vo_files v)\<rparr>)) (pl_data p))"
  shows "P (pl_data (fst (put_volume_file env fr t i path content metadata p)))"
  unfolding put_volume_file_def
  by (rule lift_then, rule assms(1)) (auto split: option.splits simp: assms)

lemma create_template_P:
  fixes p :: "'w plane"
  assumes "P (pl_data p)"
    and "\<And>p' :: 'w plane. pl_data p' = ensured fr t None (pl_data p) \<Longrightarrow> P (pl_data p') \<Longrightarrow>
          P (pl_data (fst (insert_template fr t (template_id_of fr name) alias pub img p')))"
  shows "P (pl_data (fst (create_template env fr t name alias pub img p)))"
  unfolding create_template_def
  by (rule lift_then, rule assms(1), rule ensure_step_then, rule assms(1), rule assms(2)) simp_all

lemma update_template_P:
  assumes "P (pl_data p)"
    and "\<And>tpl. team_template t i (pl_data p) = Some tpl \<Longrightarrow>
          P (cd_templates_update (hm_insert i (fst (patch_template fr rq tpl))) (pl_data p))"
  shows "P (pl_data (fst (update_template env fr t i rq p)))"
  unfolding update_template_def
  by (auto split: option.splits prod.splits simp: assms(1) intro!: lift_then dest: assms(2))

lemma create_build_P:
  assumes "P (pl_data p)"
    and "\<And>tpl b. get_template t i p = Ok tpl \<Longrightarrow> hm_get (cd_templates (pl_data p)) i = Some tpl \<Longrightarrow>
          bu_build_id b = fr_uuid fr 0 \<Longrightarrow> bu_team_id b = t \<Longrightarrow> bu_template_id b = te_template_id tpl \<Longrightarrow>
          P (cd_templates_update (hm_insert i (tpl\<lparr>te_build_ids := te_build_ids tpl @ [fr_uuid fr 0],
               te_updated_at := fr_now fr 0\<rparr>)) (cd_builds_update (hm_insert (fr_uuid fr 0) b) (pl_data p)))"
  shows "P (pl_data (fst (create_build env fr t i rq img p)))"
proof (cases "get_template t i p")
  case (Inr tpl)
  then have "hm_get (cd_templates (pl_data p)) i = Some tpl" by (simp add: get_template_def)
  with Inr show ?thesis by (simp add: create_build_def Let_def assms(2))
qed (simp add: create_build_def assms(1))

lemma update_build_P:
  assumes "P (pl_data p)"
    and "\<And>b b'. team_build t i (pl_data p) = Some b \<Longrightarrow> bu_build_id b' = bu_build_id b \<Longrightarrow>
          bu_team_id b' = t \<Longrightarrow> bu_template_id b' = bu_template_id b \<Longrightarrow> bu_image_reference b' = bu_image_reference b \<Longrightarrow>
          P ((if status = ''succeeded'' then publish_build b' else id) (cd_builds_update (hm_insert i b') (pl_data p)))"
  shows "P (pl_data (fst (update_build env fr t i status entry p)))"
proof (cases "team_build t i (pl_data p)")
  case (Some b)
  then have "bu_team_id b = t" by (simp add: team_build_def)
  with assms(2) [OF Some] show ?thesis
    unfolding update_build_def Some option.case Let_def then_modify
    by (subst persist_then_data) (simp_all add: comp_def)
qed (simp add: update_build_def assms(1))

lemma cancel_builds_P:
  "P (cd_builds_update (hm_map_values (cancel_build fr t)) (pl_data p)) \<Longrightarrow> P (pl_data (fst (cancel_builds env fr t p)))"
  by (simp add: cancel_builds_def Let_def)

lemma add_template_tag_P:
  assumes "P (pl_data p)"
    and "\<And>tpl tags. team_template t i (pl_data p) = Some tpl \<Longrightarrow>
          P (cd_templates_update (hm_insert i (tpl\<lparr>te_tags := tags, te_updated_at := fr_now fr 0\<rparr>)) (pl_data p))"
  shows "P (pl_data (fst (add_template_tag env fr t i tag p)))"
proof -
  have *: "(if tag \<in> set (te_tags tpl) then tpl else tpl\<lparr>te_tags := te_tags tpl @ [tag]\<rparr>)
      = tpl\<lparr>te_tags := push_new (te_tags tpl) tag\<rparr>" for tpl by (simp add: push_new_def)
  show ?thesis
    unfolding add_template_tag_def *
    by (intro lift_then, simp add: assms(1)) (auto split: option.splits simp: assms Let_def)
qed

lemma create_snapshot_P:
  assumes "\<And>s. sn_snapshot_id s = fr_uuid fr 0 \<Longrightarrow> sn_team_id s = t \<Longrightarrow>
      P (cd_snapshots_update (hm_insert (fr_uuid fr 0) s) (pl_data p))"
  shows "P (pl_data (fst (create_snapshot env fr t sid name sp mp p)))"
  by (simp add: create_snapshot_def Let_def assms)

lemma create_watcher_P:
  assumes "P (pl_data p)"
    and "\<And>w. wa_watcher_id w = fr_uuid fr 0 \<Longrightarrow> wa_team_id w = t \<Longrightarrow>
      P (cd_watchers_update (hm_insert (fr_uuid fr 0) w) (pl_data p))"
  shows "P (pl_data (fst (create_watcher env fr t sid path r ie p)))"
  unfolding create_watcher_def Let_def by (intro lift_then) (simp_all add: assms)

lemma remove_watcher_P:
  "P (cd_watchers_update (hm_remove i) (pl_data p)) \<Longrightarrow> P (pl_data (fst (remove_watcher env t i p)))"
  by (simp add: remove_watcher_def Let_def)

end

section \<open>Well-formed data\<close>

definition keyed :: "('r \<Rightarrow> string) \<Rightarrow> (string, 'r) hashmap \<Rightarrow> bool" where
  "keyed f m \<longleftrightarrow> hm_ok m \<and> (\<forall>i r. hm_get m i = Some r \<longrightarrow> f r = i)"

definition teams_ok :: "(string, team_record) hashmap \<Rightarrow> bool" where
  "teams_ok m \<longleftrightarrow> keyed tm_team_id m
     \<and> (\<forall>i j r s. hm_get m i = Some r \<and> hm_get m j = Some s \<and> tm_is_default r \<and> tm_is_default s \<longrightarrow> i = j)"

definition members_ok :: "(string, team_member_record list) hashmap \<Rightarrow> bool" where
  "members_ok m \<longleftrightarrow> (\<forall>i ms. hm_get m i = Some ms \<longrightarrow> distinct (map mb_user_id ms))"

definition normal_path :: "string \<Rightarrow> bool" where
  "normal_path p \<longleftrightarrow> normalize_volume_path p = Ok p"

definition volume_ok :: "volume_record \<Rightarrow> bool" where
  "volume_ok v \<longleftrightarrow> volume_name_ok (vo_name v) \<and> (\<forall>path f. hm_get (vo_files v) path = Some f \<longrightarrow> normal_path path)"

definition unique_names :: "(string, volume_record) hashmap \<Rightarrow> bool" where
  "unique_names m \<longleftrightarrow> (\<forall>i j v w. hm_get m i = Some v \<longrightarrow> hm_get m j = Some w \<longrightarrow>
     (vo_team_id v, vo_name v) = (vo_team_id w, vo_name w) \<longrightarrow> i = j)"

definition volumes_ok :: "(string, volume_record) hashmap \<Rightarrow> bool" where
  "volumes_ok m \<longleftrightarrow> keyed vo_volume_id m \<and> (\<forall>i v. hm_get m i = Some v \<longrightarrow> volume_ok v) \<and> unique_names m"

definition builds_ok :: "(string, template_record) hashmap \<Rightarrow> (string, build_record) hashmap \<Rightarrow> bool" where
  "builds_ok ts bs \<longleftrightarrow> keyed te_template_id ts \<and> keyed bu_build_id bs
     \<and> (\<forall>i b. hm_get bs i = Some b \<longrightarrow> hm_get ts (bu_template_id b) \<noteq> None)
     \<and> (\<forall>i t. hm_get ts i = Some t \<longrightarrow>
          (\<forall>j. j \<in> set (te_build_ids t) \<or> te_latest_build_id t = Some j \<longrightarrow> hm_get bs j \<noteq> None))"

definition data_ok :: "control_data \<Rightarrow> bool" where
  "data_ok d \<longleftrightarrow> teams_ok (cd_teams d) \<and> members_ok (cd_members d) \<and> keyed ak_id (cd_api_keys d)
     \<and> keyed at_id (cd_access_tokens d) \<and> volumes_ok (cd_volumes d) \<and> builds_ok (cd_templates d) (cd_builds d)
     \<and> keyed sn_snapshot_id (cd_snapshots d) \<and> keyed wa_watcher_id (cd_watchers d)"

lemma keyed_insert [simp]: "keyed f m \<Longrightarrow> f r = i \<Longrightarrow> keyed f (hm_insert i r m)"
  by (auto simp: keyed_def)

lemma keyed_remove [simp]: "keyed f m \<Longrightarrow> keyed f (hm_remove i m)"
  by (auto simp: keyed_def)

lemma keyed_get: "keyed f m \<Longrightarrow> hm_get m i = Some r \<Longrightarrow> f r = i"
  by (simp add: keyed_def)

lemma keyed_value: "keyed f m \<Longrightarrow> r \<in> set (hm_values m) \<longleftrightarrow> hm_get m (f r) = Some r"
  by (auto simp: keyed_def hm_values_iff)

lemma ensured_frame [simp]:
  "cd_members (ensured fr t n d) = cd_members d" "cd_api_keys (ensured fr t n d) = cd_api_keys d"
  "cd_access_tokens (ensured fr t n d) = cd_access_tokens d" "cd_volumes (ensured fr t n d) = cd_volumes d"
  "cd_templates (ensured fr t n d) = cd_templates d" "cd_builds (ensured fr t n d) = cd_builds d"
  "cd_snapshots (ensured fr t n d) = cd_snapshots d" "cd_watchers (ensured fr t n d) = cd_watchers d"
  "cd_audit (ensured fr t n d) = cd_audit d"
  by (simp_all add: ensured_def)

lemma ensured_teams_ok: "teams_ok (cd_teams d) \<Longrightarrow> teams_ok (cd_teams (ensured fr t n d))"
  by (auto simp: ensured_def teams_ok_def)

lemma data_ok_closed: "team_closed data_ok t"
  by unfold_locales (simp_all add: data_ok_def with_audits_def ensured_teams_ok)

lemma members_of_distinct: "members_ok (cd_members d) \<Longrightarrow> distinct (map mb_user_id (members_of t d))"
  by (auto simp: members_ok_def members_of_def split: option.splits)

lemma push_member_ok:
  assumes "data_ok (pl_data p)"
  shows "data_ok (pl_data (fst (push_member t m p)))"
proof -
  have d: "distinct (map mb_user_id (members_of t (pl_data p)))"
    using assms by (simp add: data_ok_def members_of_distinct)
  have i: "members_ok (hm_insert t ms n)" if "members_ok n" "distinct (map mb_user_id ms)" for ms n
    using that by (auto simp: members_ok_def)
  have "members_ok (cd_members (pl_data p))" using assms by (simp add: data_ok_def)
  then have "members_ok (cd_members (pl_data (fst (push_member t m p))))"
    using i d by (fastforce simp: push_member_def Let_def intro!: i)
  then show ?thesis using assms by (simp add: push_member_def Let_def data_ok_def)
qed

lemma unique_names_insert:
  assumes "unique_names m"
    and "\<And>i v'. hm_get m i = Some v' \<Longrightarrow> i \<noteq> k \<Longrightarrow> (vo_team_id v', vo_name v') \<noteq> (vo_team_id v, vo_name v)"
  shows "unique_names (hm_insert k v m)"
  unfolding unique_names_def
proof (intro allI impI)
  fix i j a b
  assume a: "hm_get (hm_insert k v m) i = Some a" and b: "hm_get (hm_insert k v m) j = Some b"
    and eq: "(vo_team_id a, vo_name a) = (vo_team_id b, vo_name b)"
  consider "i = k" "j = k" | "i = k" "j \<noteq> k" | "i \<noteq> k" "j = k" | "i \<noteq> k" "j \<noteq> k" by blast
  then show "i = j"
  proof cases
    case 2
    then show ?thesis using a b eq assms(2) [of j b] by simp
  next
    case 3
    then show ?thesis using a b eq assms(2) [of i a] by simp
  next
    case 4
    then show ?thesis using a b eq assms(1) [unfolded unique_names_def, rule_format, of i a j b] by simp
  qed simp
qed

lemma volumes_ok_insert:
  assumes "volumes_ok m" and "vo_volume_id v = k" and "volume_ok v"
    and "\<And>i v'. hm_get m i = Some v' \<Longrightarrow> i \<noteq> k \<Longrightarrow> (vo_team_id v', vo_name v') \<noteq> (vo_team_id v, vo_name v)"
  shows "volumes_ok (hm_insert k v m)"
  using assms unique_names_insert [of m k v] by (simp add: volumes_ok_def)

lemma volumes_ok_remove: "volumes_ok m \<Longrightarrow> volumes_ok (hm_remove k m)"
  unfolding volumes_ok_def unique_names_def by simp

lemma insert_volume_ok:
  assumes "data_ok (pl_data p)" and "volume_name_ok name"
  shows "data_ok (pl_data (fst (insert_volume env fr t name tok p)))"
proof (cases "\<exists>v\<in>set (hm_values (cd_volumes (pl_data p))). vo_team_id v = t \<and> vo_name v = name")
  case False
  have v: "volumes_ok (cd_volumes (pl_data p))" using assms(1) by (simp add: data_ok_def)
  then have k: "keyed vo_volume_id (cd_volumes (pl_data p))" by (simp add: volumes_ok_def)
  have no: "(vo_team_id v, vo_name v) \<noteq> (t, name)" if "hm_get (cd_volumes (pl_data p)) i = Some v" for i v
  proof -
    have "v \<in> set (hm_values (cd_volumes (pl_data p)))"
      unfolding keyed_value [OF k] using keyed_get [OF k that] that by simp
    then show ?thesis using False by blast
  qed
  have "volumes_ok (hm_insert i v (cd_volumes (pl_data p)))"
    if "vo_volume_id v = i" "vo_team_id v = t" "vo_name v = name" "vo_files v = []" for i v
    by (rule volumes_ok_insert [OF v that(1)]) (use that no assms(2) in \<open>simp_all add: volume_ok_def\<close>)
  note this [of "\<lparr>vo_volume_id = fr_uuid fr 0, vo_team_id = t, vo_name = name, vo_token_salt = fr_uuid fr 2,
    vo_token_digest = digest_secret (ce_sha256_hex env) (fr_uuid fr 2) tok, vo_token_mask = mask_secret tok,
    vo_created_at = fr_now fr 1, vo_files = []\<rparr>" "fr_uuid fr 0"]
  with assms(1) False show ?thesis by (simp add: insert_volume_def data_ok_def)
qed (simp add: insert_volume_def assms)

lemma insert_template_ok:
  assumes "data_ok (pl_data p)"
  shows "data_ok (pl_data (fst (insert_template fr t i alias pub img p)))"
proof -
  have "builds_ok (hm_insert i tpl ts) bs" if "builds_ok ts bs" "te_template_id tpl = i" "te_build_ids tpl = []"
    "te_latest_build_id tpl = None" for tpl ts bs
    using that by (auto simp: builds_ok_def split: if_splits)
  then show ?thesis using assms by (simp add: insert_template_def data_ok_def Let_def)
qed

lemma builds_ok_change:
  assumes "builds_ok ts bs" and "hm_get ts i = Some tpl" and "te_template_id tpl' = te_template_id tpl"
    and "set (te_build_ids tpl') \<subseteq> set (te_build_ids tpl)" and "te_latest_build_id tpl' = te_latest_build_id tpl"
  shows "builds_ok (hm_insert i tpl' ts) bs"
proof -
  have "te_template_id tpl = i" using assms(1,2) by (simp add: builds_ok_def keyed_def)
  then show ?thesis using assms unfolding builds_ok_def by (auto split: if_splits)
qed

lemma data_ok_parts:
  "data_ok d \<Longrightarrow> keyed ak_id (cd_api_keys d)" "data_ok d \<Longrightarrow> volumes_ok (cd_volumes d)"
  "data_ok d \<Longrightarrow> builds_ok (cd_templates d) (cd_builds d)" "data_ok d \<Longrightarrow> keyed at_id (cd_access_tokens d)"
  by (simp_all add: data_ok_def)

lemma data_ok_updates:
  "data_ok d \<Longrightarrow> keyed ak_id (f1 (cd_api_keys d)) \<Longrightarrow> data_ok (cd_api_keys_update f1 d)"
  "data_ok d \<Longrightarrow> keyed at_id (f2 (cd_access_tokens d)) \<Longrightarrow> data_ok (cd_access_tokens_update f2 d)"
  "data_ok d \<Longrightarrow> volumes_ok (f3 (cd_volumes d)) \<Longrightarrow> data_ok (cd_volumes_update f3 d)"
  "data_ok d \<Longrightarrow> builds_ok (f4 (cd_templates d)) (cd_builds d) \<Longrightarrow> data_ok (cd_templates_update f4 d)"
  "data_ok d \<Longrightarrow> builds_ok (cd_templates d) (f5 (cd_builds d)) \<Longrightarrow> data_ok (cd_builds_update f5 d)"
  "data_ok d \<Longrightarrow> builds_ok (f4 (cd_templates d)) (f5 (cd_builds d)) \<Longrightarrow>
     data_ok (cd_templates_update f4 (cd_builds_update f5 d))"
  "data_ok d \<Longrightarrow> keyed sn_snapshot_id (f6 (cd_snapshots d)) \<Longrightarrow> data_ok (cd_snapshots_update f6 d)"
  "data_ok d \<Longrightarrow> keyed wa_watcher_id (f7 (cd_watchers d)) \<Longrightarrow> data_ok (cd_watchers_update f7 d)"
  by (simp_all add: data_ok_def)

lemma builds_ok_new_build:
  assumes "builds_ok ts bs" and "hm_get ts i = Some tpl" and "bu_build_id b = k" and "bu_template_id b = te_template_id tpl"
    and "te_template_id tpl' = te_template_id tpl" and "te_build_ids tpl' = te_build_ids tpl @ [k]"
    and "te_latest_build_id tpl' = te_latest_build_id tpl"
  shows "builds_ok (hm_insert i tpl' ts) (hm_insert k b bs)"
proof -
  have "te_template_id tpl = i" using assms(1,2) by (simp add: builds_ok_def keyed_def)
  then show ?thesis using assms unfolding builds_ok_def by (auto split: if_splits)
qed

lemma builds_ok_change_build:
  assumes "builds_ok ts bs" and "hm_get bs i = Some b" and "bu_build_id b' = bu_build_id b"
    and "bu_template_id b' = bu_template_id b"
  shows "builds_ok ts (hm_insert i b' bs)"
proof -
  have "bu_build_id b = i" using assms(1,2) by (simp add: builds_ok_def keyed_def)
  then show ?thesis using assms unfolding builds_ok_def by (auto split: if_splits)
qed

lemma builds_ok_publish:
  assumes "builds_ok (cd_templates d) (cd_builds d)" and "hm_get (cd_builds d) (bu_build_id b) \<noteq> None" and "data_ok d"
  shows "data_ok (publish_build b d)"
proof (cases "hm_get (cd_templates d) (bu_template_id b)")
  case (Some tpl)
  then have "te_template_id tpl = bu_template_id b" using assms(1) by (simp add: builds_ok_def keyed_def)
  then have "builds_ok (hm_insert (bu_template_id b) tpl' (cd_templates d)) (cd_builds d)"
    if "te_template_id tpl' = te_template_id tpl" "te_build_ids tpl' = te_build_ids tpl"
      "te_latest_build_id tpl' = Some (bu_build_id b)" for tpl'
    using assms Some that unfolding builds_ok_def by (auto split: if_splits)
  then show ?thesis using Some assms(3) by (simp add: publish_build_def Let_def data_ok_def)
qed (simp add: publish_build_def assms(3))

lemma builds_ok_cancel: "builds_ok ts bs \<Longrightarrow> builds_ok ts (hm_map_values (cancel_build fr t) bs)"
proof -
  have "bu_build_id (cancel_build fr t b) = bu_build_id b" "bu_template_id (cancel_build fr t b) = bu_template_id b" for b
    by (simp_all add: cancel_build_def)
  then show "builds_ok ts bs \<Longrightarrow> ?thesis" unfolding builds_ok_def keyed_def by auto
qed

lemma patch_template_frame [simp]:
  "te_template_id (fst (patch_template fr rq t)) = te_template_id t" "te_team_id (fst (patch_template fr rq t)) = te_team_id t"
  "te_build_ids (fst (patch_template fr rq t)) = te_build_ids t"
  "te_latest_build_id (fst (patch_template fr rq t)) = te_latest_build_id t"
  by (simp_all add: patch_template_def set_public_def add_alias_def set_tags_def split: option.splits sum.splits)

lemma put_file_ok:
  assumes "data_ok d" and "team_volume t i d = Some v" and "normalize_volume_path path = Ok np"
  shows "data_ok (cd_volumes_update (hm_insert i (v\<lparr>vo_files := hm_insert np f (vo_files v)\<rparr>)) d)"
proof -
  have v: "volumes_ok (cd_volumes d)" and g: "hm_get (cd_volumes d) i = Some v"
    using assms(1,2) by (simp_all add: data_ok_parts team_volume_def)
  then have id: "vo_volume_id v = i" "volume_ok v" by (auto simp: volumes_ok_def keyed_def)
  have u: "unique_names (cd_volumes d)" using v by (simp add: volumes_ok_def)
  have "volumes_ok (hm_insert i (v\<lparr>vo_files := hm_insert np f (vo_files v)\<rparr>) (cd_volumes d))"
    by (rule volumes_ok_insert [OF v]) (use id normalize_idem [OF assms(3)] u g in
        \<open>auto simp: volume_ok_def normal_path_def unique_names_def\<close>)
  then show ?thesis using assms(1) by (simp add: data_ok_updates)
qed

interpretation wf: team_closed data_ok t for t
  by (rule data_ok_closed)

lemma keyed_maps:
  "data_ok d \<Longrightarrow> keyed ak_id (cd_api_keys d)" "data_ok d \<Longrightarrow> keyed at_id (cd_access_tokens d)"
  "data_ok d \<Longrightarrow> keyed sn_snapshot_id (cd_snapshots d)" "data_ok d \<Longrightarrow> keyed wa_watcher_id (cd_watchers d)"
  by (simp_all add: data_ok_def)

lemma ensured_ok: "data_ok d \<Longrightarrow> data_ok (ensured fr t n d)"
  by (rule wf.ensure_closed)

lemma exec_ok:
  assumes ok: "data_ok (pl_data p)"
  shows "data_ok (pl_data (fst (cp_exec env fr op p)))"
proof (cases op)
  case (OpUpdateKey t i name)
  have "keyed ak_id (hm_insert i (k\<lparr>ak_name := name\<rparr>) (cd_api_keys (pl_data p)))"
    if "hm_get (cd_api_keys (pl_data p)) i = Some k" for k
    using keyed_maps(1) [OF ok] keyed_get [OF keyed_maps(1) [OF ok] that] by simp
  then show ?thesis using ok OpUpdateKey by (auto intro!: wf.update_api_key_P data_ok_updates)
next
  case (OpPutFile t i path content metadata)
  then show ?thesis using ok by (auto intro!: wf.put_volume_file_P put_file_ok)
next
  case (OpCreateBuild t i rq img)
  then show ?thesis using ok
    by (auto intro!: wf.create_build_P data_ok_updates builds_ok_new_build data_ok_parts)
next
  case (OpUpdateBuild t i status entry)
  have "data_ok ((if status = ''succeeded'' then publish_build b' else id) (cd_builds_update (hm_insert i b') (pl_data p)))"
    if b: "team_build t i (pl_data p) = Some b" "bu_build_id b' = bu_build_id b" "bu_template_id b' = bu_template_id b" for b b'
  proof -
    have g: "hm_get (cd_builds (pl_data p)) i = Some b" using b(1) by (simp add: team_build_def)
    then have i: "bu_build_id b = i" using data_ok_parts(3) [OF ok] by (simp add: builds_ok_def keyed_def)
    have d: "data_ok (cd_builds_update (hm_insert i b') (pl_data p))"
      by (intro data_ok_updates ok builds_ok_change_build [OF data_ok_parts(3) [OF ok] g] b(2,3))
    then show ?thesis using builds_ok_publish [OF data_ok_parts(3) [OF d] _ d, of b'] b(2) i by simp
  qed
  then show ?thesis using OpUpdateBuild ok by (auto intro!: wf.update_build_P)
qed (use ok in \<open>auto intro!: wf.ensure_closed wf.add_member_P push_member_ok wf.create_api_key_P wf.delete_api_key_P
    wf.create_access_token_P wf.delete_access_token_P wf.create_volume_P insert_volume_ok wf.delete_volume_P
    wf.put_volume_file_P put_file_ok wf.create_template_P insert_template_ok wf.update_template_P wf.cancel_builds_P
    wf.add_template_tag_P wf.create_snapshot_P wf.create_watcher_P wf.remove_watcher_P data_ok_updates volumes_ok_remove
    builds_ok_cancel builds_ok_change data_ok_parts keyed_insert keyed_remove
    simp: keyed_maps ensured_ok key_of_call_def team_template_def\<close>)

section \<open>Isolation of teams\<close>

definition owned :: "('r \<Rightarrow> string) \<Rightarrow> string \<Rightarrow> (string, 'r) hashmap \<Rightarrow> string \<Rightarrow> 'r option" where
  "owned f u m i = opt_filter (\<lambda>r. f r = u) (hm_get m i)"

record team_view =
  tv_team :: "team_record option"
  tv_members :: "team_member_record list option"
  tv_keys :: "string \<Rightarrow> api_key_record option"
  tv_tokens :: "string \<Rightarrow> access_token_record option"
  tv_volumes :: "string \<Rightarrow> volume_record option"
  tv_templates :: "string \<Rightarrow> template_record option"
  tv_builds :: "string \<Rightarrow> build_record option"
  tv_snapshots :: "string \<Rightarrow> snapshot_record option"
  tv_watchers :: "string \<Rightarrow> watcher_record option"
  tv_audit :: "audit_record list"

definition view_for :: "string \<Rightarrow> control_data \<Rightarrow> team_view" where
  "view_for u d = \<lparr>tv_team = hm_get (cd_teams d) u, tv_members = hm_get (cd_members d) u,
     tv_keys = owned ak_team_id u (cd_api_keys d), tv_tokens = owned at_team_id u (cd_access_tokens d),
     tv_volumes = owned vo_team_id u (cd_volumes d), tv_templates = owned te_team_id u (cd_templates d),
     tv_builds = owned bu_team_id u (cd_builds d), tv_snapshots = owned sn_team_id u (cd_snapshots d),
     tv_watchers = owned wa_team_id u (cd_watchers d), tv_audit = filter (\<lambda>a. ad_team_id a = u) (cd_audit d)\<rparr>"

text \<open>The operations that reach a record of team \<open>u\<close> although another team makes the call: the
  deletions, the creation of a template under a name that team \<open>u\<close> uses, and the builds of
  a template of team \<open>u\<close>.\<close>

fun reaches :: "string \<Rightarrow> cp_op \<Rightarrow> control_data \<Rightarrow> bool" where
  "reaches u (OpDeleteKey t i) d = (owned ak_team_id u (cd_api_keys d) i \<noteq> None)"
| "reaches u (OpDeleteToken t i) d = (owned at_team_id u (cd_access_tokens d) i \<noteq> None)"
| "reaches u (OpDeleteVolume t i) d = (owned vo_team_id u (cd_volumes d) i \<noteq> None)"
| "reaches u (OpRemoveWatcher t i) d = (owned wa_team_id u (cd_watchers d) i \<noteq> None)"
| "reaches u (OpCreateTemplate t name alias pub img) d =
     (case name of None \<Rightarrow> False | Some n \<Rightarrow> str_trim n \<noteq> [] \<and> owned te_team_id u (cd_templates d) n \<noteq> None)"
| "reaches u (OpCreateBuild t i rq img) d = (owned te_team_id u (cd_templates d) i \<noteq> None)"
| "reaches u (OpUpdateBuild t i status entry) d =
     (status = ''succeeded'' \<and> (case hm_get (cd_builds d) i of None \<Rightarrow> False
        | Some b \<Rightarrow> owned te_team_id u (cd_templates d) (bu_template_id b) \<noteq> None))"
| "reaches u _ d = False"

text \<open>The identifiers that a call draws are new, as \<open>Uuid::now_v7\<close> makes them.\<close>

definition fresh_ids :: "fresh \<Rightarrow> control_data \<Rightarrow> bool" where
  "fresh_ids fr d \<longleftrightarrow> hm_get (cd_api_keys d) (fr_uuid fr 0) = None \<and> hm_get (cd_access_tokens d) (fr_uuid fr 0) = None
     \<and> hm_get (cd_volumes d) (fr_uuid fr 0) = None \<and> hm_get (cd_builds d) (fr_uuid fr 0) = None
     \<and> hm_get (cd_snapshots d) (fr_uuid fr 0) = None \<and> hm_get (cd_watchers d) (fr_uuid fr 0) = None
     \<and> hm_get (cd_templates d) (''template-'' @ fr_uuid fr 0) = None"

lemma owned_insert_other:
  "f r \<noteq> u \<Longrightarrow> owned f u m i = None \<Longrightarrow> owned f u (hm_insert i r m) = owned f u m"
  by (auto simp: owned_def opt_filter_def fun_eq_iff)

lemma owned_remove_other: "owned f u m i = None \<Longrightarrow> owned f u (hm_remove i m) = owned f u m"
  by (auto simp: owned_def opt_filter_def fun_eq_iff)

lemma owned_absent: "hm_get m i = None \<Longrightarrow> owned f u m i = None"
  by (simp add: owned_def opt_filter_def)

lemma owned_foreign: "hm_get m i = Some r \<Longrightarrow> f r \<noteq> u \<Longrightarrow> owned f u m i = None"
  by (simp add: owned_def opt_filter_def)

lemmas owned_intros = owned_insert_other owned_remove_other owned_absent owned_foreign

lemma view_for_closed: "t \<noteq> u \<Longrightarrow> team_closed (\<lambda>d. view_for u d = v) t"
  by unfold_locales (auto simp: view_for_def with_audits_def ensured_def)

lemma view_for_updates:
  "owned ak_team_id u (f1 (cd_api_keys d)) = owned ak_team_id u (cd_api_keys d) \<Longrightarrow>
     view_for u (cd_api_keys_update f1 d) = view_for u d"
  "owned at_team_id u (f2 (cd_access_tokens d)) = owned at_team_id u (cd_access_tokens d) \<Longrightarrow>
     view_for u (cd_access_tokens_update f2 d) = view_for u d"
  "owned vo_team_id u (f3 (cd_volumes d)) = owned vo_team_id u (cd_volumes d) \<Longrightarrow>
     view_for u (cd_volumes_update f3 d) = view_for u d"
  "owned te_team_id u (f4 (cd_templates d)) = owned te_team_id u (cd_templates d) \<Longrightarrow>
     view_for u (cd_templates_update f4 d) = view_for u d"
  "owned bu_team_id u (f5 (cd_builds d)) = owned bu_team_id u (cd_builds d) \<Longrightarrow>
     view_for u (cd_builds_update f5 d) = view_for u d"
  "owned sn_team_id u (f6 (cd_snapshots d)) = owned sn_team_id u (cd_snapshots d) \<Longrightarrow>
     view_for u (cd_snapshots_update f6 d) = view_for u d"
  "owned wa_team_id u (f7 (cd_watchers d)) = owned wa_team_id u (cd_watchers d) \<Longrightarrow>
     view_for u (cd_watchers_update f7 d) = view_for u d"
  "hm_get (f8 (cd_members d)) u = hm_get (cd_members d) u \<Longrightarrow> view_for u (cd_members_update f8 d) = view_for u d"
  by (simp_all add: view_for_def)

lemma view_for_ensured: "t \<noteq> u \<Longrightarrow> view_for u (ensured fr t n d) = view_for u d"
  by (simp add: view_for_def ensured_def)

lemma view_push_member: "t \<noteq> u \<Longrightarrow> view_for u (pl_data (fst (push_member t m p))) = view_for u (pl_data p)"
  by (simp add: push_member_def Let_def view_for_def)

lemma view_insert_volume:
  "t \<noteq> u \<Longrightarrow> hm_get (cd_volumes (pl_data p)) (fr_uuid fr 0) = None \<Longrightarrow>
    view_for u (pl_data (fst (insert_volume env fr t name tok p))) = view_for u (pl_data p)"
  by (auto simp: insert_volume_def intro!: view_for_updates owned_intros)

lemma view_insert_template:
  "t \<noteq> u \<Longrightarrow> owned te_team_id u (cd_templates (pl_data p)) i = None \<Longrightarrow>
    view_for u (pl_data (fst (insert_template fr t i alias pub img p))) = view_for u (pl_data p)"
  by (auto simp: insert_template_def Let_def intro!: view_for_updates owned_intros)

lemma view_publish:
  "owned te_team_id u (cd_templates d) (bu_template_id b) = None \<Longrightarrow> view_for u (publish_build b d) = view_for u d"
proof (cases "hm_get (cd_templates d) (bu_template_id b)")
  case (Some tpl)
  assume o: "owned te_team_id u (cd_templates d) (bu_template_id b) = None"
  then have "te_team_id tpl \<noteq> u" using Some by (auto simp: owned_def opt_filter_def split: if_splits)
  then show ?thesis using Some o by (simp add: publish_build_def Let_def view_for_updates owned_insert_other)
qed (simp add: publish_build_def)

lemma owned_cancel: "t \<noteq> u \<Longrightarrow> owned bu_team_id u (hm_map_values (cancel_build fr t) m) = owned bu_team_id u m"
proof
  fix i assume "t \<noteq> u"
  then show "owned bu_team_id u (hm_map_values (cancel_build fr t) m) i = owned bu_team_id u m i"
    by (cases "hm_get m i") (auto simp: owned_def opt_filter_def cancel_build_def cancellable_def)
qed

lemmas upd_intros = view_for_updates owned_insert_other owned_remove_other owned_absent view_for_ensured

lemma iso_create_key:
  "t \<noteq> u \<Longrightarrow> hm_get (cd_api_keys (pl_data p)) (fr_uuid fr 0) = None \<Longrightarrow> 
    view_for u (pl_data (fst (create_api_key env fr t name sc p))) = view_for u (pl_data p)"
  by (rule team_closed.create_api_key_P [OF view_for_closed]) (simp_all add: upd_intros key_of_call_def)

lemma iso_update_key:
  "t \<noteq> u \<Longrightarrow> 
    view_for u (pl_data (fst (update_api_key env fr t i name p))) = view_for u (pl_data p)"
  by (rule team_closed.update_api_key_P [OF view_for_closed]) (simp_all add: upd_intros owned_foreign)

lemma iso_delete_key:
  "t \<noteq> u \<Longrightarrow> owned ak_team_id u (cd_api_keys (pl_data p)) i = None \<Longrightarrow> 
    view_for u (pl_data (fst (delete_api_key env fr t i p))) = view_for u (pl_data p)"
  by (rule team_closed.delete_api_key_P [OF view_for_closed]) (simp_all add: upd_intros)

lemma iso_create_token:
  "t \<noteq> u \<Longrightarrow> hm_get (cd_access_tokens (pl_data p)) (fr_uuid fr 0) = None \<Longrightarrow> 
    view_for u (pl_data (fst (create_access_token env fr t name p))) = view_for u (pl_data p)"
  by (rule team_closed.create_access_token_P [OF view_for_closed]) (simp_all add: upd_intros)

lemma iso_delete_token:
  "t \<noteq> u \<Longrightarrow> owned at_team_id u (cd_access_tokens (pl_data p)) i = None \<Longrightarrow> 
    view_for u (pl_data (fst (delete_access_token env fr t i p))) = view_for u (pl_data p)"
  by (rule team_closed.delete_access_token_P [OF view_for_closed]) (simp_all add: upd_intros)

lemma iso_create_volume:
  "t \<noteq> u \<Longrightarrow> hm_get (cd_volumes (pl_data p)) (fr_uuid fr 0) = None \<Longrightarrow> 
    view_for u (pl_data (fst (create_volume env fr t name p))) = view_for u (pl_data p)"
  by (rule team_closed.create_volume_P [OF view_for_closed]) (simp_all add: upd_intros view_insert_volume)

lemma iso_delete_volume:
  "t \<noteq> u \<Longrightarrow> owned vo_team_id u (cd_volumes (pl_data p)) i = None \<Longrightarrow> 
    view_for u (pl_data (fst (delete_volume env fr t i p))) = view_for u (pl_data p)"
  by (rule team_closed.delete_volume_P [OF view_for_closed]) (simp_all add: upd_intros)

lemma iso_put_file:
  "t \<noteq> u \<Longrightarrow> 
    view_for u (pl_data (fst (put_volume_file env fr t i path content metadata p))) = view_for u (pl_data p)"
  by (rule team_closed.put_volume_file_P [OF view_for_closed]) (simp_all add: upd_intros team_volume_def owned_foreign)

lemma iso_create_template:
  "t \<noteq> u \<Longrightarrow> owned te_team_id u (cd_templates (pl_data p)) (template_id_of fr nm) = None \<Longrightarrow> 
    view_for u (pl_data (fst (create_template env fr t nm alias pub img p))) = view_for u (pl_data p)"
  by (rule team_closed.create_template_P [OF view_for_closed]) (simp_all add: upd_intros view_insert_template)

lemma iso_update_template:
  "t \<noteq> u \<Longrightarrow> 
    view_for u (pl_data (fst (update_template env fr t i rq p))) = view_for u (pl_data p)"
  by (rule team_closed.update_template_P [OF view_for_closed]) (simp_all add: upd_intros team_template_def owned_foreign)

lemma iso_add_tag:
  "t \<noteq> u \<Longrightarrow> 
    view_for u (pl_data (fst (add_template_tag env fr t i tag p))) = view_for u (pl_data p)"
  by (rule team_closed.add_template_tag_P [OF view_for_closed]) (simp_all add: upd_intros team_template_def owned_foreign)

lemma iso_build_created:
  assumes "t \<noteq> u" and "hm_get (cd_builds (pl_data p)) (fr_uuid fr 0) = None"
    and "owned te_team_id u (cd_templates (pl_data p)) i = None"
  shows "view_for u (pl_data (fst (create_build env fr t i rq img p))) = view_for u (pl_data p)"
proof (rule team_closed.create_build_P [OF view_for_closed [OF assms(1)]])
  fix tpl :: template_record and b :: build_record assume "hm_get (cd_templates (pl_data p)) i = Some tpl" and b: "bu_team_id b = t"
  then have "te_team_id tpl \<noteq> u" using assms(3) by (auto simp: owned_def opt_filter_def split: if_splits)
  then show "view_for u (cd_templates_update (hm_insert i (tpl\<lparr>te_build_ids := te_build_ids tpl @ [fr_uuid fr 0],
      te_updated_at := fr_now fr 0\<rparr>)) (cd_builds_update (hm_insert (fr_uuid fr 0) b) (pl_data p))) = view_for u (pl_data p)"
    using assms b by (simp add: upd_intros)
qed simp

lemma iso_build_updated:
  assumes "t \<noteq> u" and "\<not> reaches u (OpUpdateBuild t i status entry) (pl_data p)"
  shows "view_for u (pl_data (fst (update_build env fr t i status entry p))) = view_for u (pl_data p)"
proof (rule team_closed.update_build_P [OF view_for_closed [OF assms(1)]])
  fix b b' :: build_record assume b: "team_build t i (pl_data p) = Some b" "bu_team_id b' = t" "bu_template_id b' = bu_template_id b"
  then have g: "hm_get (cd_builds (pl_data p)) i = Some b" "bu_team_id b = t" by (simp_all add: team_build_def)
  have v: "view_for u (cd_builds_update (hm_insert i b') (pl_data p)) = view_for u (pl_data p)"
    using g b assms(1) by (simp add: upd_intros owned_foreign)
  show "view_for u ((if status = ''succeeded'' then publish_build b' else id) (cd_builds_update (hm_insert i b') (pl_data p)))
      = view_for u (pl_data p)"
    using v assms(2) g(1) b(3) by (simp add: view_publish)
qed simp

lemma iso_add_member:
  "t \<noteq> u \<Longrightarrow> 
    view_for u (pl_data (fst (add_member env fr t m p))) = view_for u (pl_data p)"
  by (rule team_closed.add_member_P [OF view_for_closed]) (simp_all add: upd_intros view_push_member)

lemma iso_cancel_builds:
  "t \<noteq> u \<Longrightarrow> 
    view_for u (pl_data (fst (cancel_builds env fr t p))) = view_for u (pl_data p)"
  by (rule team_closed.cancel_builds_P [OF view_for_closed]) (simp_all add: upd_intros owned_cancel)

lemma iso_create_snapshot:
  "t \<noteq> u \<Longrightarrow> hm_get (cd_snapshots (pl_data p)) (fr_uuid fr 0) = None \<Longrightarrow> 
    view_for u (pl_data (fst (create_snapshot env fr t sid nm sp mp p))) = view_for u (pl_data p)"
  by (rule team_closed.create_snapshot_P [OF view_for_closed]) (simp_all add: upd_intros)

lemma iso_create_watcher:
  "t \<noteq> u \<Longrightarrow> hm_get (cd_watchers (pl_data p)) (fr_uuid fr 0) = None \<Longrightarrow> 
    view_for u (pl_data (fst (create_watcher env fr t sid path r ie p))) = view_for u (pl_data p)"
  by (rule team_closed.create_watcher_P [OF view_for_closed]) (simp_all add: upd_intros)

lemma iso_remove_watcher:
  "t \<noteq> u \<Longrightarrow> owned wa_team_id u (cd_watchers (pl_data p)) i = None \<Longrightarrow> 
    view_for u (pl_data (fst (remove_watcher env t i p))) = view_for u (pl_data p)"
  by (rule team_closed.remove_watcher_P [OF view_for_closed]) (simp_all add: upd_intros)

lemmas iso_simps = iso_create_key iso_update_key iso_delete_key iso_create_token iso_delete_token iso_create_volume
  iso_delete_volume iso_put_file iso_update_template iso_add_tag iso_add_member iso_cancel_builds iso_create_snapshot
  iso_create_watcher iso_remove_watcher iso_build_created iso_build_updated view_for_ensured

lemma exec_isolated:
  assumes tu: "op_team op \<noteq> u" and no: "\<not> reaches u op (pl_data p)" and ids: "fresh_ids fr (pl_data p)"
  shows "view_for u (pl_data (fst (cp_exec env fr op p))) = view_for u (pl_data p)"
proof (cases op)
  case (OpCreateTemplate t name al pub img)
  have "owned te_team_id u (cd_templates (pl_data p)) (template_id_of fr name) = None"
  proof (cases "opt_filter (\<lambda>n. str_trim n \<noteq> []) name")
    case None
    then show ?thesis using ids by (simp add: template_id_of_def fresh_ids_def owned_absent)
  next
    case (Some n)
    then have "name = Some n" "str_trim n \<noteq> []" by simp_all
    then show ?thesis using no OpCreateTemplate unfolding template_id_of_def Some by simp
  qed
  then show ?thesis using OpCreateTemplate tu by (simp add: iso_create_template)
qed (use tu no ids in \<open>simp_all add: iso_simps fresh_ids_def\<close>)

end
