(* ===== verification/Control_Properties.thy ===== *)
theory Control_Properties
  imports Control_Safety
begin

text \<open>
  The properties of the control plane: durable persistence, well-formed data, isolation of teams
  with its exceptions, the life of a credential, volume files.
\<close>

section \<open>Durability\<close>

text \<open>What the file system and the JSON library promise: a write that succeeds is read back and touches
  no other file, a rename that succeeds moves the content, a failed rename changes
  nothing, creating directories changes no file, and text made from data reads as those data.\<close>

definition fs_laws :: "'w cp_env \<Rightarrow> bool" where
  "fs_laws env \<longleftrightarrow>
     (\<forall>f bs w w' r. ce_write env f bs w = (w', r) \<longrightarrow>
        (r = Ok () \<longrightarrow> ce_read env f w' = Ok bs) \<and> (\<forall>g. g \<noteq> f \<longrightarrow> ce_read env g w' = ce_read env g w))
   \<and> (\<forall>f g w w' r. ce_rename env f g w = (w', r) \<longrightarrow>
        (r = Ok () \<longrightarrow> ce_read env g w' = ce_read env f w \<and> (\<forall>h. h \<noteq> f \<and> h \<noteq> g \<longrightarrow> ce_read env h w' = ce_read env h w))
        \<and> (r \<noteq> Ok () \<longrightarrow> (\<forall>h. ce_read env h w' = ce_read env h w)))
   \<and> (\<forall>f w w' r g. ce_create_dir_all env f w = (w', r) \<longrightarrow> ce_read env g w' = ce_read env g w)
   \<and> (\<forall>f w bs. ce_read env f w = Ok bs \<longrightarrow> ce_try_exists env f w)
   \<and> (\<forall>d bs. ce_to_json env d = Ok bs \<longrightarrow> ce_from_json env bs = Ok d)"

definition on_disk :: "'w cp_env \<Rightarrow> 'w plane \<Rightarrow> bool" where
  "on_disk env p = (case pl_path p of None \<Rightarrow> True
     | Some path \<Rightarrow> (\<exists>bs. ce_read env path (pl_fs p) = Ok bs \<and> ce_from_json env bs = Ok (pl_data p)))"

lemma fs_write_Ok: "fs_laws env \<Longrightarrow> ce_write env f bs w = (w', Ok ()) \<Longrightarrow> ce_read env f w' = Ok bs"
  unfolding fs_laws_def by fast

lemma fs_write_other: "fs_laws env \<Longrightarrow> ce_write env f bs w = (w', r) \<Longrightarrow> g \<noteq> f \<Longrightarrow> ce_read env g w' = ce_read env g w"
  unfolding fs_laws_def by fast

lemma fs_rename_Ok: "fs_laws env \<Longrightarrow> ce_rename env f g w = (w', Ok ()) \<Longrightarrow> ce_read env g w' = ce_read env f w"
  unfolding fs_laws_def by fast

lemma fs_rename_Err: "fs_laws env \<Longrightarrow> ce_rename env f g w = (w', Err e) \<Longrightarrow> ce_read env h w' = ce_read env h w"
  unfolding fs_laws_def by (metis sum.distinct(1))

lemma fs_mkdir: "fs_laws env \<Longrightarrow> ce_create_dir_all env f w = (w', r) \<Longrightarrow> ce_read env g w' = ce_read env g w"
  unfolding fs_laws_def by fast

lemma json_roundtrip: "fs_laws env \<Longrightarrow> ce_to_json env d = Ok bs \<Longrightarrow> ce_from_json env bs = Ok d"
  unfolding fs_laws_def by fast

lemma fs_exists: "fs_laws env \<Longrightarrow> ce_read env f w = Ok bs \<Longrightarrow> ce_try_exists env f w"
  unfolding fs_laws_def by fast

lemma map_sum_Ok [simp]: "map_sum f id r = Ok a \<longleftrightarrow> r = Ok a"
  by (cases r) auto

lemma fs_callD:
  assumes "fs_call f p = (p', r)"
  obtains w r' where "f (pl_fs p) = (w, r')" "p' = p\<lparr>pl_fs := w\<rparr>" "r = map_sum CpPersistence id r'"
  using assms by (cases "f (pl_fs p)") (simp add: fs_call_def)

text \<open>The three stages of \<open>persist\<close> on the file system.\<close>

lemma dir_stage:
  "fs_laws env \<Longrightarrow> (if b then fs_call (ce_create_dir_all env d) else ok ()) p = (p', r) \<Longrightarrow>
     ce_read env f (pl_fs p') = ce_read env f (pl_fs p)"
  by (cases b) (auto simp: ok_def elim!: fs_callD dest: fs_mkdir)

lemma write_stage:
  assumes "fs_laws env" and "fs_call (ce_write env tmp bs) p = (p', r)" and "f \<noteq> tmp"
  shows "ce_read env f (pl_fs p') = ce_read env f (pl_fs p) \<and> (r = Ok () \<longrightarrow> ce_read env tmp (pl_fs p') = Ok bs)"
  using assms(2,3) by (auto elim!: fs_callD simp: fs_write_other [OF assms(1)] fs_write_Ok [OF assms(1)])

lemma rename_stage:
  assumes "fs_laws env" and "fs_call (ce_rename env tmp f) p = (p', r)"
  shows "ce_read env f (pl_fs p') = (if r = Ok () then ce_read env tmp (pl_fs p) else ce_read env f (pl_fs p))"
proof -
  obtain w r' where c: "ce_rename env tmp f (pl_fs p) = (w, r')" "p' = p\<lparr>pl_fs := w\<rparr>" "r = map_sum CpPersistence id r'"
    using assms(2) by (rule fs_callD)
  then show ?thesis
    using fs_rename_Ok [OF assms(1), of tmp f "pl_fs p" w] fs_rename_Err [OF assms(1), of tmp f "pl_fs p" w] by (cases r') auto
qed

lemma persist_atomic:
  assumes laws: "fs_laws env" and path: "pl_path p = Some path" and tmp: "tmp_path env path \<noteq> path"
    and run: "persist env p = (p', r)"
  shows "if r = Ok () then \<exists>bs. ce_to_json env (pl_data p) = Ok bs \<and> ce_read env path (pl_fs p') = Ok bs
    else ce_read env path (pl_fs p') = ce_read env path (pl_fs p)"
proof (cases "ce_to_json env (pl_data p)")
  case (Inl e)
  then show ?thesis using run path by (auto simp: persist_def)
next
  case (Inr bs)
  let ?mk = "if parent_dir path \<noteq> [] then fs_call (ce_create_dir_all env (parent_dir path)) else ok ()"
  let ?wr = "fs_call (ce_write env (tmp_path env path) bs)" and ?mv = "fs_call (ce_rename env (tmp_path env path) path)"
  have run': "and_then ?mk (\<lambda>_. and_then ?wr (\<lambda>_. ?mv)) p = (p', r)" using run path Inr by (simp add: persist_def)
  obtain p1 r1 where 1: "?mk p = (p1, r1)" by (cases "?mk p")
  obtain p2 r2 where 2: "?wr p1 = (p2, r2)" by (cases "?wr p1")
  obtain p3 r3 where 3: "?mv p2 = (p3, r3)" by (cases "?mv p2")
  note s1 = dir_stage [OF laws 1, of path] and s2 = write_stage [OF laws 2 tmp [symmetric]] and s3 = rename_stage [OF laws 3]
  show ?thesis
  proof (cases r1)
    case (Inl e)
    then show ?thesis using run' 1 s1 by (auto simp: and_then_def)
  next
    case r1: (Inr u)
    show ?thesis
    proof (cases r2)
      case (Inl e)
      then show ?thesis using run' 1 2 r1 s1 s2 by (auto simp: and_then_def)
    next
      case r2: (Inr u')
      then have "p' = p3" "r = r3" using run' 1 2 3 r1 by (simp_all add: and_then_def)
      then show ?thesis using s1 s2 s3 r2 Inr by simp
    qed
  qed
qed

lemma persist_on_disk:
  assumes laws: "fs_laws env" and tmp: "\<And>path. pl_path p = Some path \<Longrightarrow> tmp_path env path \<noteq> path"
    and ok: "persist env p = (p', Ok ())"
  shows "on_disk env p'"
proof (cases "pl_path p")
  case None
  then show ?thesis using ok by (auto simp: persist_def on_disk_def)
next
  case (Some path)
  then obtain bs where "ce_to_json env (pl_data p) = Ok bs" "ce_read env path (pl_fs p') = Ok bs"
    using persist_atomic [OF laws Some tmp [OF Some] ok] by auto
  moreover have "pl_data p' = pl_data p" "pl_path p' = Some path"
    using persist_data [of env p] persist_path [of env p] ok Some by simp_all
  ultimately show ?thesis using json_roundtrip [OF laws] by (simp add: on_disk_def)
qed

text \<open>An operation commits if its success is the success of a final \<open>persist\<close>. Both predicates are
  about the outcome of a computation.\<close>

definition commits :: "'w cp_env \<Rightarrow> string option \<Rightarrow> 'w plane \<times> ('a, control_plane_error) result \<Rightarrow> bool" where
  "commits env path x =
     (case x of (p', Err e) \<Rightarrow> True | (p', Ok a) \<Rightarrow> pl_path p' = path \<and> (\<exists>q. persist env q = (p', Ok ())))"

definition keeps_path :: "string option \<Rightarrow> 'w plane \<times> ('a, control_plane_error) result \<Rightarrow> bool" where
  "keeps_path path x = (case x of (p', Err e) \<Rightarrow> True | (p', Ok a) \<Rightarrow> pl_path p' = path)"

lemma outcome_simps [simp]:
  "commits env path (p, Err e)" "keeps_path path (p, Err e)" "keeps_path path (p, Ok a) \<longleftrightarrow> pl_path p = path"
  "commits env path (throw e' p)" "keeps_path path (lift_result r p) \<longleftrightarrow> (\<forall>a. r = Ok a \<longrightarrow> pl_path p = path)"
  by (auto simp: commits_def keeps_path_def throw_def lift_result_def split: sum.splits)

lemma keeps_pair: "pl_path p = path \<Longrightarrow> keeps_path path (p, r)" "pl_path (f p) = path \<Longrightarrow> keeps_path path (modify f p)"
  by (cases r) (simp_all add: modify_def)

lemma commits_persist: "pl_path p = path \<Longrightarrow> commits env path (persist env p)"
  using persist_path [of env p] by (cases "persist env p") (auto simp: commits_def split: sum.splits)

lemma commits_keeps: "commits env path x \<Longrightarrow> keeps_path path x"
  by (auto simp: commits_def keeps_path_def split: prod.splits sum.splits)

lemma commits_and_then:
  "keeps_path path (m p) \<Longrightarrow> (\<And>a p'. m p = (p', Ok a) \<Longrightarrow> pl_path p' = path \<Longrightarrow> commits env path (f a p')) \<Longrightarrow>
     commits env path (and_then m f p)"
  by (cases "m p") (auto simp: and_then_def keeps_path_def split: sum.splits)

lemma commits_persist_ok: "pl_path p = path \<Longrightarrow> commits env path (and_then (persist env) (\<lambda>_. ok x) p)"
  using commits_persist [of p path env]
  by (cases "persist env p") (auto simp: and_then_def ok_def commits_def split: sum.splits)

lemma commits_forget [simp]: "commits env path (forget m p) \<longleftrightarrow> commits env path (m p)"
  by (auto simp: commits_def forget_def split: prod.splits sum.splits)

lemma commits_audit: "pl_path p = path \<Longrightarrow> commits env path (record_audit env i now t act ty rid flds p)"
  unfolding record_audit_def by (simp add: commits_persist)

lemma commits_ensure: "pl_path p = path \<Longrightarrow> commits env path (ensure_team env fr t name p)"
  by (auto simp: ensure_team_def Let_def commits_persist_ok split: option.splits)

lemmas commit_intros = commits_persist commits_persist_ok commits_and_then commits_keeps [OF commits_ensure]
  commits_keeps [OF commits_audit] keeps_pair

lemma keeps_pushes:
  "pl_path p = path \<Longrightarrow> keeps_path path (push_member t m p)"
  "pl_path p = path \<Longrightarrow> keeps_path path (insert_volume env fr t name tok p)"
  "pl_path p = path \<Longrightarrow> keeps_path path (insert_template fr t i alias pub img p)"
  by (auto simp: push_member_def insert_volume_def insert_template_def Let_def)

lemma commits_create:
  "commits env (pl_path p) (create_api_key env fr t name sc p)"
  "commits env (pl_path p) (create_access_token env fr t name p)"
  "commits env (pl_path p) (add_member env fr t m p)" "commits env (pl_path p) (create_volume env fr t name p)"
  "commits env (pl_path p) (create_template env fr t nm alias pub img p)"
  by (auto simp: create_api_key_def create_access_token_def add_member_def create_volume_def create_template_def Let_def
      lift_result_def intro!: commit_intros keeps_pushes)

lemma commits_delete:
  "commits env (pl_path p) (delete_api_key env fr t i p)" "commits env (pl_path p) (delete_access_token env fr t i p)"
  "commits env (pl_path p) (delete_volume env fr t i p)" "commits env (pl_path p) (remove_watcher env t i p)"
  by (auto simp: delete_api_key_def delete_access_token_def delete_volume_def remove_watcher_def Let_def
      intro!: commit_intros)

lemma commits_edit:
  "commits env (pl_path p) (update_api_key env fr t i name p)"
  "commits env (pl_path p) (put_volume_file env fr t i path content metadata p)"
  "commits env (pl_path p) (add_template_tag env fr t i tag p)" "commits env (pl_path p) (update_template env fr t i rq p)"
  "commits env (pl_path p) (update_build env fr t i status entry p)" "commits env (pl_path p) (cancel_builds env fr t p)"
  "commits env (pl_path p) (create_snapshot env fr t sid nm sp mp p)"
  "commits env (pl_path p) (create_watcher env fr t sid path r ie p)"
  "commits env (pl_path p) (create_build env fr t i rq img p)"
  by (auto simp: update_api_key_def put_volume_file_def add_template_tag_def update_template_def update_build_def
      cancel_builds_def create_snapshot_def create_watcher_def create_build_def Let_def lift_result_def
      split: prod.splits option.splits sum.splits intro!: commit_intros)

lemma exec_commits: "commits env (pl_path p) (cp_exec env fr op p)"
  by (cases op) (simp_all add: commits_ensure commits_create commits_delete commits_edit)

lemma map_sum_Err: "map_sum f id r = Err e \<Longrightarrow> \<exists>m. e = f m"
  by (cases r) auto

lemma persist_Err_kind: "persist env p = (p', Err e) \<Longrightarrow> \<exists>m. e = CpPersistence m"
  by (auto simp: persist_def and_then_def fs_call_def ok_def split: option.splits sum.splits prod.splits if_splits
      dest: map_sum_Err)

definition has_team :: "string \<Rightarrow> control_data \<Rightarrow> bool" where
  "has_team u d \<longleftrightarrow> hm_get (cd_teams d) u \<noteq> None"

interpretation known: team_closed "has_team u" t for u t
  by unfold_locales (auto simp: has_team_def with_audits_def ensured_def)

lemma has_team_updates [simp]:
  "has_team u (cd_members_update f1 d) = has_team u d" "has_team u (cd_api_keys_update f2 d) = has_team u d"
  "has_team u (cd_access_tokens_update f3 d) = has_team u d" "has_team u (cd_volumes_update f4 d) = has_team u d"
  "has_team u (cd_templates_update f5 d) = has_team u d" "has_team u (cd_builds_update f6 d) = has_team u d"
  "has_team u (cd_snapshots_update f7 d) = has_team u d" "has_team u (cd_watchers_update f8 d) = has_team u d"
  by (simp_all add: has_team_def)

lemma exec_keeps_team: "has_team u (pl_data p) \<Longrightarrow> has_team u (pl_data (fst (cp_exec env fr op p)))"
  by (cases op)
    (auto intro!: known.ensure_closed known.add_member_P known.create_api_key_P known.update_api_key_P known.delete_api_key_P
      known.create_access_token_P known.delete_access_token_P known.create_volume_P known.delete_volume_P
      known.put_volume_file_P known.create_template_P known.update_template_P known.create_build_P known.update_build_P
      known.cancel_builds_P known.add_template_tag_P known.create_snapshot_P known.create_watcher_P known.remove_watcher_P
      simp: push_member_def insert_volume_def insert_template_def publish_build_def Let_def split: option.splits)

section \<open>Data after a successful call\<close>

lemma ensure_Ok_data: "ensure_team env fr t name p = (p', r) \<Longrightarrow> pl_data p' = ensured fr t name (pl_data p)"
  using ensure_team_data [of env fr t name p] by simp

lemma persist_Ok_data: "persist env p = (p', r) \<Longrightarrow> pl_data p' = pl_data p"
  using persist_data [of env p] by simp

lemma audit_Ok_data:
  "record_audit env i now t act ty rid flds p = (p', r) \<Longrightarrow>
     cd_api_keys (pl_data p') = cd_api_keys (pl_data p) \<and> cd_access_tokens (pl_data p') = cd_access_tokens (pl_data p)
     \<and> cd_volumes (pl_data p') = cd_volumes (pl_data p)"
  using audit_data [of env i now t act ty rid flds p] by (simp add: with_audits_def)

lemma create_api_key_Ok:
  assumes "create_api_key env fr t name sc p = (p', Ok c)"
  shows "cd_api_keys (pl_data p') = hm_insert (fr_uuid fr 0) (key_of_call env fr t name sc (kc_secret c)) (cd_api_keys (pl_data p))
    \<and> cd_access_tokens (pl_data p') = cd_access_tokens (pl_data p) \<and> cd_volumes (pl_data p') = cd_volumes (pl_data p)
    \<and> kc_id c = fr_uuid fr 0"
  using assms unfolding create_api_key_def Let_def and_then_Ok
  by (auto simp: ok_def lift_result_def modify_def dest!: ensure_Ok_data persist_Ok_data audit_Ok_data)

lemma delete_api_key_data:
  assumes "delete_api_key env fr t i p = (p', r)"
  shows "cd_api_keys (pl_data p') = hm_remove i (cd_api_keys (pl_data p))
    \<and> cd_access_tokens (pl_data p') = cd_access_tokens (pl_data p) \<and> cd_volumes (pl_data p') = cd_volumes (pl_data p)"
  using assms
  by (auto simp: delete_api_key_def Let_def and_then_def split: if_splits prod.splits sum.splits
      dest!: persist_Ok_data audit_Ok_data)

lemma hm_insert_fresh: "hm_get m k = None \<Longrightarrow> hm_insert k v m = m @ [(k, v)]"
  by (induction m) (auto simp: hm_insert_def hm_get_def split: if_splits)

lemma hm_remove_fresh: "hm_get m k = None \<Longrightarrow> hm_remove k (hm_insert k v m) = m"
  by (force simp: hm_insert_fresh hm_remove_def hm_get_def map_of_eq_None_iff intro!: filter_True)

text \<open>Whether some stored credential accepts a secret.\<close>

definition accepted :: "'w cp_env \<Rightarrow> string \<Rightarrow> control_data \<Rightarrow> bool" where
  "accepted env cred d \<longleftrightarrow> (\<exists>k\<in>set (hm_values (cd_api_keys d)). key_accepts env cred k)
     \<or> (\<exists>t\<in>set (hm_values (cd_access_tokens d)). token_accepts env cred t)
     \<or> (\<exists>v\<in>set (hm_values (cd_volumes d)). volume_accepts env cred v)"

lemma authenticate_None_iff: "snd (cp_authenticate env fr cred p) = None \<longleftrightarrow> \<not> accepted env cred (pl_data p)"
proof -
  have k: "find (\<lambda>(_, k). key_accepts env cred k) (cd_api_keys (pl_data p)) = None \<longleftrightarrow>
      find (key_accepts env cred) (hm_values (cd_api_keys (pl_data p))) = None"
    by (auto simp: hm_values_def find_None_iff)
  have no: "find P xs = None \<longleftrightarrow> \<not> (\<exists>x\<in>set xs. P x)" for P and xs :: "'b list"
    by (auto simp: find_None_iff)
  show ?thesis
    unfolding accepted_def de_Morgan_disj no [symmetric] k [symmetric]
    by (auto simp: cp_authenticate_def split: option.splits)
qed

lemma authenticate_new_key:
  assumes "\<not> accepted env cred (pl_data p)" and "key_accepts env cred k"
    and "cd_api_keys (pl_data p') = cd_api_keys (pl_data p) @ [(i, k)]"
  shows "snd (cp_authenticate env fr cred p') =
    Some \<lparr>pr_tenant_id = ak_team_id k, pr_scope = into_scope (ak_scope k), pr_volume_id = None\<rparr>"
proof -
  have "find (\<lambda>(_, k). key_accepts env cred k) (cd_api_keys (pl_data p)) = None"
    using assms(1) by (force simp: accepted_def hm_values_def find_None_iff)
  then have "find (\<lambda>(_, k). key_accepts env cred k) (cd_api_keys (pl_data p')) = Some (i, k)"
    using assms(2,3) by (simp add: find_append)
  then show ?thesis by (simp add: cp_authenticate_def)
qed

lemma key_of_call_accepts: "key_accepts env raw (key_of_call env fr t name sc raw)"
  by (simp add: key_accepts_def key_of_call_def verify_digest_def)

lemma bearer_strip: "strip_prefix ''Bearer '' (''Bearer '' @ k) = Some k"
  by (simp only: strip_prefix_Some_iff)

section \<open>Volume files\<close>

lemma join_with_snoc: "cs \<noteq> [] \<Longrightarrow> join_with sep (cs @ ds) = join_with sep cs @ (if ds = [] then [] else sep @ join_with sep ds)"
  by (induction sep cs rule: join_with.induct) (auto simp: neq_Nil_conv)

lemma join_with_last:
  "cs \<noteq> [] \<Longrightarrow> last cs \<noteq> [] \<Longrightarrow> join_with sep cs \<noteq> [] \<and> last (join_with sep cs) = last (last cs)"
  by (induction sep cs rule: join_with.induct) auto

lemma trim_end_id: "s \<noteq> [] \<Longrightarrow> last s \<noteq> c \<Longrightarrow> trim_end_matches c s = s"
  by (cases s rule: rev_cases) (simp_all add: trim_end_matches_def)

lemma clean_not_slash: "list_all clean_component cs \<Longrightarrow> c \<in> set cs \<Longrightarrow> c \<noteq> [] \<and> CHR ''/'' \<notin> set c"
  by (auto simp: list_all_iff clean_component_def plain_component_def)

lemma trim_path_text:
  assumes "list_all clean_component ds" and "ds \<noteq> []"
  shows "trim_end_matches (CHR ''/'') (path_text ds) = path_text ds" and "path_text ds \<noteq> ''/''"
proof -
  have l: "last ds \<noteq> []" "CHR ''/'' \<notin> set (last ds)" using clean_not_slash [OF assms(1)] assms(2) by auto
  then have j: "join_with ''/'' ds \<noteq> []" "last (join_with ''/'' ds) = last (last ds)" using join_with_last [OF assms(2)] by auto
  then have "last (path_text ds) \<noteq> CHR ''/''" using l by (auto simp: path_text_def) (metis last_in_set)
  then show "trim_end_matches (CHR ''/'') (path_text ds) = path_text ds" by (intro trim_end_id) (simp_all add: path_text_def)
  show "path_text ds \<noteq> ''/''" using j by (simp add: path_text_def)
qed

lemma listed_entry_path:
  assumes clean: "list_all clean_component (ds @ c # es)"
  shows "listed_entry (path_text ds) (path_text (ds @ c # es)) = Some (path_text (ds @ [c]))"
proof -
  have c: "c \<noteq> []" "CHR ''/'' \<notin> set c" using clean_not_slash [OF clean, of c] by auto
  have rest: "hd (split_on (CHR ''/'') (join_with ''/'' (c # es))) = c"
  proof -
    have "split_on (CHR ''/'') (join_with ''/'' (c # es)) = c # es"
      by (rule split_on_join) (use clean_not_slash [OF clean] in auto)
    then show ?thesis by (simp only: list.sel)
  qed
  show ?thesis
  proof (cases "ds = []")
    case True
    have "strip_prefix ''/'' (''/'' @ join_with ''/'' (c # es)) = Some (join_with ''/'' (c # es))"
      by (simp only: strip_prefix_Some_iff)
    then show ?thesis using rest c True
      by (simp add: listed_entry_def dir_prefix_def path_text_def opt_filter_def del: join_with.simps) (simp add: path_text_def)
  next
    case False
    have t: "trim_end_matches (CHR ''/'') (path_text ds) = path_text ds" "path_text ds \<noteq> ''/''"
      using trim_path_text [OF _ False] clean by simp_all
    have p: "path_text (ds @ xs) = (path_text ds @ ''/'') @ join_with ''/'' xs" if "xs \<noteq> []" for xs
      using that by (simp add: path_text_def join_with_snoc [OF False])
    have "strip_prefix (path_text ds @ ''/'') ((path_text ds @ ''/'') @ join_with ''/'' (c # es)) = Some (join_with ''/'' (c # es))"
      by (simp only: strip_prefix_Some_iff)
    then show ?thesis
      unfolding listed_entry_def dir_prefix_def using rest c t p [of "c # es"] p [of "[c]"]
      by (simp add: opt_filter_def del: join_with.simps) simp
  qed
qed

lemma push_new_fold: "distinct acc \<Longrightarrow> distinct (foldl push_new acc xs) \<and> set (foldl push_new acc xs) = set acc \<union> set xs"
  by (induction xs arbitrary: acc) (auto simp: push_new_def)

lemma set_map_filter: "y \<in> set (List.map_filter f xs) \<longleftrightarrow> (\<exists>x\<in>set xs. f x = Some y)"
  by (force simp: List.map_filter_def)

lemma hm_insert_key: "k \<in> fst ` set (hm_insert k v m)"
  by (simp add: hm_insert_def dom_map_of_conv_image_fst [symmetric] update_conv')

section \<open>Properties\<close>

inductive cp_reach :: "'w cp_env \<Rightarrow> 'w plane \<Rightarrow> bool" for env where
  reach_new: "cp_reach env (plane_new w)"
| reach_op: "cp_reach env p \<Longrightarrow> cp_reach env (fst (cp_exec env fr op p))"
| reach_auth: "cp_reach env p \<Longrightarrow> cp_reach env (fst (cp_authenticate env fr cred p))"

lemma authenticate_ok: "data_ok (pl_data p) \<Longrightarrow> data_ok (pl_data (fst (cp_authenticate env fr cred p)))"
proof -
  assume ok: "data_ok (pl_data p)"
  have "keyed ak_id (hm_insert i (k\<lparr>ak_last_used := u\<rparr>) (cd_api_keys (pl_data p)))"
    if "find Q (cd_api_keys (pl_data p)) = Some (i, k)" for Q i k u
  proof -
    have "(i, k) \<in> set (cd_api_keys (pl_data p))" using that by (metis find_Some_iff nth_mem)
    then have "hm_get (cd_api_keys (pl_data p)) i = Some k"
      using keyed_maps(1) [OF ok] by (simp add: keyed_def hm_get_mem)
    then show ?thesis using keyed_maps(1) [OF ok] keyed_get [OF keyed_maps(1) [OF ok]] by simp
  qed
  then show ?thesis using ok by (auto simp: cp_authenticate_def data_ok_updates split: option.splits)
qed

lemma reach_ok: "cp_reach env p \<Longrightarrow> data_ok (pl_data p)"
proof (induction rule: cp_reach.induct)
  case (reach_new w)
  show ?case
    by (simp add: plane_new_def default_control_data_def data_ok_def teams_ok_def members_ok_def keyed_def volumes_ok_def
        unique_names_def builds_ok_def)
qed (simp_all add: exec_ok authenticate_ok)


text \<open>C31: the team is the authorization boundary, with named exceptions. An operation of one team leaves
  everything that belongs to another team as it was: its record, members, keys, tokens, volumes,
  templates, builds, snapshots, watchers and audit records, unless the operation is one of
  those that \<open>reaches\<close> names.\<close>

theorem team_isolation:
  assumes "op_team op \<noteq> u" and "fresh_ids fr (pl_data p)" and "\<not> reaches u op (pl_data p)"
  shows "view_for u (pl_data (fst (cp_exec env fr op p))) = view_for u (pl_data p)"
  by (rule exec_isolated [OF assms(1,3,2)])

text \<open>Deleting by identifier destroys another team's record. A call to delete a key, an access token,
  a volume or a watcher that belongs to another team answers that it was not found, yet the
  record is gone from the data afterwards.\<close>

lemma foreign_delete_destroys:
  assumes "hm_get (cd_api_keys (pl_data p)) i = Some k" and "ak_team_id k \<noteq> t"
    and "hm_get (cd_access_tokens (pl_data p)) j = Some tk" and "at_team_id tk \<noteq> t"
    and "hm_get (cd_volumes (pl_data p)) v = Some vol" and "vo_team_id vol \<noteq> t"
    and "hm_get (cd_watchers (pl_data p)) w = Some wat" and "wa_team_id wat \<noteq> t"
  shows "(\<exists>p' m. delete_api_key env fr t i p = (p', Err (CpNotFound m)) \<and> hm_get (cd_api_keys (pl_data p')) i = None)
    \<and> (\<exists>p' m. delete_access_token env fr t j p = (p', Err (CpNotFound m)) \<and> hm_get (cd_access_tokens (pl_data p')) j = None)
    \<and> (\<exists>p' m. delete_volume env fr t v p = (p', Err (CpNotFound m)) \<and> hm_get (cd_volumes (pl_data p')) v = None)
    \<and> (\<exists>p' m. remove_watcher env t w p = (p', Err (CpNotFound m)) \<and> hm_get (cd_watchers (pl_data p')) w = None)"
  using assms
  by (simp add: delete_api_key_def delete_access_token_def delete_volume_def team_volume_def remove_watcher_def
      opt_filter_def Let_def)

text \<open>A build replaces the image of another team's public template. Any team that may see a template
  may build it; when that build is reported as succeeded, the template, still owned by its
  team, runs the image that the building team named.\<close>

lemma foreign_build_replaces_image:
  assumes "hm_get (cd_templates (pl_data p)) i = Some tpl" and "te_template_id tpl = i" and "te_public tpl"
    and "te_team_id tpl \<noteq> t" and "fr_uuid fr 0 = b"
  shows "\<exists>tpl'. hm_get (cd_templates (pl_data (fst (update_build env fr' t b ''succeeded'' entry
        (fst (create_build env fr t i rq (Some img) p)))))) i = Some tpl'
      \<and> te_team_id tpl' = te_team_id tpl \<and> te_image_reference tpl' = Some img \<and> te_latest_build_id tpl' = Some b"
proof -
  have g: "get_template t i p = Ok tpl" using assms(1,3) by (simp add: get_template_def opt_filter_def)
  let ?p1 = "fst (create_build env fr t i rq (Some img) p)"
  let ?bld = "\<lparr>bu_build_id = b, bu_template_id = i, bu_team_id = t, bu_status = ''queued'', bu_image_reference = Some img,
    bu_request = rq, bu_logs = [], bu_created_at = fr_now fr 0, bu_updated_at = fr_now fr 0\<rparr>"
  have "hm_get (cd_builds (pl_data ?p1)) b = Some ?bld"
    "\<exists>t1. hm_get (cd_templates (pl_data ?p1)) i = Some t1 \<and> te_team_id t1 = te_team_id tpl"
    using g assms by (simp_all add: create_build_def Let_def)
  moreover from this have "team_build t b (pl_data ?p1) = Some ?bld" by (simp add: team_build_def opt_filter_def)
  ultimately show ?thesis by (auto simp: update_build_def Let_def publish_build_def)
qed

text \<open>C33: what succeeded is on disk. When an operation returns success, the persistent file holds the data
  that are now in memory, and a control plane opened from the file system afterwards has
  exactly these data.\<close>

theorem success_is_durable:
  assumes "fs_laws env" and "pl_path p = Some path" and "tmp_path env path \<noteq> path"
    and "has_team ''dev'' (pl_data p)" and "cp_exec env fr op p = (p', Ok ())"
  shows "(\<exists>bs. ce_read env path (pl_fs p') = Ok bs \<and> ce_from_json env bs = Ok (pl_data p'))
    \<and> (case plane_open env fr' path (pl_fs p') of (w, Ok q) \<Rightarrow> pl_data q = pl_data p' | (w, Err e) \<Rightarrow> \<exists>m. e = CpPersistence m)"
proof -
  obtain q where q: "persist env q = (p', Ok ())" and path: "pl_path p' = Some path"
    using exec_commits [of env p fr op] assms(2,5) by (auto simp: commits_def)
  have "pl_path q = Some path" using persist_path [of env q] q path by simp
  then have "on_disk env p'" using persist_on_disk [OF assms(1) _ q] assms(3) by simp
  then obtain bs where bs: "ce_read env path (pl_fs p') = Ok bs" "ce_from_json env bs = Ok (pl_data p')"
    by (auto simp: on_disk_def path)
  have "hm_get (cd_teams (pl_data p')) ''dev'' \<noteq> None"
    using exec_keeps_team [OF assms(4), of env fr op] assms(5) by (simp add: has_team_def)
  then have "ensure_team env fr' ''dev'' (Some ''Development'') \<lparr>pl_data = pl_data p', pl_path = Some path, pl_fs = pl_fs p'\<rparr>
      = (case persist env \<lparr>pl_data = pl_data p', pl_path = Some path, pl_fs = pl_fs p'\<rparr> of
          (q, Ok _) \<Rightarrow> (q, Ok (the (hm_get (cd_teams (pl_data p')) ''dev''))) | (q, Err e) \<Rightarrow> (q, Err e))"
    by (auto simp: ensure_team_def and_then_def ok_def str_trim_def is_whitespace_def code_def split: prod.splits sum.splits)
  then show ?thesis
    using bs fs_exists [OF assms(1) bs(1)] persist_Err_kind
    by (auto simp: plane_open_def split: prod.splits sum.splits dest: persist_Ok_data)
qed

text \<open>The life of an API key, from its creation to the middleware. The secret returned by the
  creation authenticates as the creating team with the chosen scope; a request that carries it passes the
  middleware, or is refused with 403 when the key is read-only and the request changes state;
  after the team deletes the key the same request is refused with 401. The secret must not be
  accepted by a credential stored earlier.\<close>

lemma api_key_life:
  assumes "create_api_key env fr t name sc p = (p', Ok c)" and "hm_get (cd_api_keys (pl_data p)) (fr_uuid fr 0) = None"
    and "\<not> accepted env (kc_secret c) (pl_data p)" and "delete_api_key env fr2 t (kc_id c) p' = (p'', r)"
    and "auth_header rq = Some (''Bearer '' @ kc_secret c)" and "\<not> probe_path (rq_path rq)"
  shows "auth_middleware None authenticator_new_production (\<lambda>cred. snd (cp_authenticate env fr' cred p')) rq =
      (if mutating (rq_method rq) \<and> sc = SrRead
       then Refuse (into_error_response (new_error EkForbidden ''read-only token cannot perform this operation''))
       else Next (Some \<lparr>pr_tenant_id = t, pr_scope = into_scope sc, pr_volume_id = None\<rparr>))
    \<and> (\<exists>e. auth_middleware None authenticator_new_production (\<lambda>cred. snd (cp_authenticate env fr' cred p'')) rq = Refuse e
          \<and> fst e = 401)"
proof -
  let ?k = "key_of_call env fr t name sc (kc_secret c)"
  note d = create_api_key_Ok [OF assms(1)]
  have p': "cd_api_keys (pl_data p') = cd_api_keys (pl_data p) @ [(fr_uuid fr 0, ?k)]"
    using d hm_insert_fresh [OF assms(2)] by simp
  have yes: "snd (cp_authenticate env fr' (kc_secret c) p')
      = Some \<lparr>pr_tenant_id = t, pr_scope = into_scope sc, pr_volume_id = None\<rparr>"
    using authenticate_new_key [OF assms(3) key_of_call_accepts p'] by (simp add: key_of_call_def)
  have "cd_api_keys (pl_data p'') = cd_api_keys (pl_data p)"
    using delete_api_key_data [OF assms(4)] d hm_remove_fresh [OF assms(2)] by simp
  then have "\<not> accepted env (kc_secret c) (pl_data p'')"
    using assms(3) delete_api_key_data [OF assms(4)] d by (simp add: accepted_def)
  then have no: "snd (cp_authenticate env fr' (kc_secret c) p'') = None" by (simp only: authenticate_None_iff) simp
  have a: "authenticate authenticator_new_production (auth_header rq) = Err (new_error EkUnauthenticated ''invalid API key'')"
    unfolding authenticate_def assms(5) option.case bearer_strip by (simp add: authenticator_new_production_def)
  have "auth_middleware None authenticator_new_production f rq = (case f (kc_secret c) of Some pr \<Rightarrow> admit_principal rq pr
      | None \<Rightarrow> Refuse (into_error_response (new_error EkUnauthenticated ''invalid API key'')))" for f
    unfolding auth_middleware_def a using assms(6)
    by (simp add: admin_presented_def anonymous_dev_def authenticator_new_production_def assms(5) bearer_strip del: append.simps)
  then show ?thesis
    by (cases sc) (auto simp: yes no admit_principal_def require_write_def into_error_response_def error_status_def
        new_error_def Let_def)
qed

text \<open>A volume file is found where it was put. After a successful write, reading the file under any
  spelling of its path that has the same components returns the content and metadata written; every
  directory on the way to the file lists the next step once; no other team reads it.\<close>

lemma volume_file_found:
  assumes "put_volume_file env fr t i path content metadata p = (p', Ok ())"
    and "normalize_volume_path path' = normalize_volume_path path" and "path_components path = ds @ c # es" and "u \<noteq> t"
  shows "(\<exists>f. get_volume_file t i path' p' = Ok f \<and> vf_content f = content \<and> vf_metadata f = metadata)
    \<and> (\<exists>xs. list_volume_files t i (path_text ds) p' = Ok xs \<and> distinct xs \<and> path_text (ds @ [c]) \<in> set xs)
    \<and> (\<exists>m. get_volume_file u i path' p' = Err (CpNotFound m))"
proof -
  obtain np v q where np: "normalize_volume_path path = Ok np" and v: "team_volume t i (pl_data p) = Some v"
    and q: "persist env q = (p', Ok ())"
    and d: "pl_data q = cd_volumes_update (hm_insert i (v\<lparr>vo_files := hm_insert np \<lparr>vf_content = content, vf_mode = 420,
        vf_modified_at = fr_now fr 0, vf_metadata = metadata\<rparr> (vo_files v)\<rparr>)) (pl_data p)"
    using assms(1) by (auto simp: put_volume_file_def and_then_Ok lift_result_def modify_def split: option.splits)
  let ?f = "\<lparr>vf_content = content, vf_mode = 420, vf_modified_at = fr_now fr 0, vf_metadata = metadata\<rparr>"
  let ?v = "v\<lparr>vo_files := hm_insert np ?f (vo_files v)\<rparr>"
  have own: "vo_team_id v = t" using v by (simp add: team_volume_def)
  have tv: "team_volume t i (pl_data p') = Some ?v" "team_volume u i (pl_data p') = None"
    using persist_Ok_data [OF q] d own assms(4) by (simp_all add: team_volume_def opt_filter_def)
  have n: "np = path_text (ds @ c # es)" "list_all clean_component (ds @ c # es)"
    using normalize_OkD [OF np] assms(3) by simp_all
  have "normalize_volume_path (path_text ds) = Ok (path_text ds)" using n(2) by (intro normalize_path_text) simp
  moreover have "path_text (ds @ [c]) \<in> set (List.map_filter (listed_entry (path_text ds)) (map fst (vo_files ?v)))"
    using listed_entry_path [OF n(2)] hm_insert_key [of np ?f "vo_files v"] n(1) by (force simp: set_map_filter)
  ultimately have "\<exists>xs. list_volume_files t i (path_text ds) p' = Ok xs \<and> distinct xs \<and> path_text (ds @ [c]) \<in> set xs"
    using tv push_new_fold [of "[]"] by (simp add: list_volume_files_def)
  moreover have "get_volume_file t i path' p' = Ok ?f" using tv assms(2) np by (simp add: get_volume_file_def)
  moreover have "\<exists>m. get_volume_file u i path' p' = Err (CpNotFound m)"
    using tv assms(2) np by (simp add: get_volume_file_def)
  ultimately show ?thesis by (intro conjI exI [of _ ?f]) simp_all
qed

section \<open>Witnesses\<close>

text \<open>A control plane whose file system is a list of files and whose only writable data are
  those of a plane with the development team; the digest is the text itself.\<close>

definition demo_fresh :: fresh where
  "demo_fresh = \<lparr>fr_uuid = (\<lambda>n. ''u-'' @ show_nat n), fr_now = (\<lambda>n. int n)\<rparr>"

definition dev_data :: control_data where
  "dev_data = ensured demo_fresh ''dev'' None default_control_data"

definition demo_cp :: "(string, byte list) hashmap cp_env" where
  "demo_cp = \<lparr>ce_sha256_hex = map (\<lambda>b. char_of (unat b)),
     ce_to_json = (\<lambda>d. if d = dev_data then Ok [1] else Err ''unsupported''),
     ce_from_json = (\<lambda>bs. if bs = [1] then Ok dev_data else Err ''unsupported''), ce_pid = 7,
     ce_try_exists = (\<lambda>f w. hm_get w f \<noteq> None),
     ce_read = (\<lambda>f w. case hm_get w f of Some bs \<Rightarrow> Ok bs | None \<Rightarrow> Err ''missing''),
     ce_create_dir_all = (\<lambda>_ w. (w, Ok ())),
     ce_write = (\<lambda>f bs w. (hm_insert f bs w, Ok ())),
     ce_rename = (\<lambda>f g w. case hm_get w f of None \<Rightarrow> (w, Err ''missing'')
        | Some bs \<Rightarrow> (hm_insert g bs (if f = g then w else hm_remove f w), Ok ()))\<rparr>"

lemma demo_fs_laws: "fs_laws demo_cp"
  unfolding fs_laws_def demo_cp_def by (auto split: option.splits if_splits)

definition demo_plane :: "(string, byte list) hashmap plane" where
  "demo_plane = plane_new []"

definition demo_owned :: "(string, byte list) hashmap plane" where
  "demo_owned = fst (cp_exec demo_cp demo_fresh (OpCreateVolume ''a'' ''data'') demo_plane)"


definition next_fresh :: fresh where
  "next_fresh = \<lparr>fr_uuid = (\<lambda>n. ''x-'' @ show_nat n), fr_now = (\<lambda>n. 100 + int n)\<rparr>"

theorem team_isolation_witness:
  "view_for ''a'' (pl_data (fst (cp_exec demo_cp next_fresh (OpCreateVolume ''b'' ''data'') demo_owned)))
    = view_for ''a'' (pl_data demo_owned)"
proof (rule team_isolation)
  show "op_team (OpCreateVolume ''b'' ''data'') \<noteq> ''a''" by simp
  show "fresh_ids next_fresh (pl_data demo_owned)" by code_simp
  show "\<not> reaches ''a'' (OpCreateVolume ''b'' ''data'') (pl_data demo_owned)" by simp
qed

definition demo_busy :: "(string, byte list) hashmap plane" where
  "demo_busy = with_data (\<lambda>d. d\<lparr>
     cd_api_keys := [(''k'', key_of_call demo_cp demo_fresh ''a'' ''key'' SrFull ''secret'')],
     cd_access_tokens := [(''t'', \<lparr>at_id = ''t'', at_team_id = ''a'', at_name = ''tok'', at_salt = [], at_digest = [], at_mask = [],
        at_created_at = 0\<rparr>)],
     cd_volumes := [(''v'', \<lparr>vo_volume_id = ''v'', vo_team_id = ''a'', vo_name = ''data'', vo_token_salt = [], vo_token_digest = [],
        vo_token_mask = [], vo_created_at = 0, vo_files = []\<rparr>)],
     cd_watchers := [(''w'', \<lparr>wa_watcher_id = ''w'', wa_team_id = ''a'', wa_sandbox_id = ''sb'', wa_path = ''/'', wa_recursive = True,
        wa_include_entry = False, wa_events = []\<rparr>)],
     cd_templates := [(''base'', \<lparr>te_template_id = ''base'', te_team_id = ''a'', te_names = [''base''], te_aliases = [], te_tags = [],
        te_public = True, te_created_at = 0, te_updated_at = 0, te_latest_build_id = None, te_build_ids = [],
        te_image_reference = None\<rparr>)]\<rparr>) demo_plane"

lemma foreign_delete_destroys_witness:
  "hm_get (cd_api_keys (pl_data (fst (delete_api_key demo_cp next_fresh ''b'' ''k'' demo_busy)))) ''k'' = None
   \<and> hm_get (cd_volumes (pl_data (fst (delete_volume demo_cp next_fresh ''b'' ''v'' demo_busy)))) ''v'' = None"
proof -
  obtain k tk v w where r: "hm_get (cd_api_keys (pl_data demo_busy)) ''k'' = Some k" "ak_team_id k = ''a''"
    "hm_get (cd_access_tokens (pl_data demo_busy)) ''t'' = Some tk" "at_team_id tk = ''a''"
    "hm_get (cd_volumes (pl_data demo_busy)) ''v'' = Some v" "vo_team_id v = ''a''"
    "hm_get (cd_watchers (pl_data demo_busy)) ''w'' = Some w" "wa_team_id w = ''a''"
    by (simp add: demo_busy_def hm_get_def key_of_call_def)
  have ne: "ak_team_id k \<noteq> ''b''" "at_team_id tk \<noteq> ''b''" "vo_team_id v \<noteq> ''b''" "wa_team_id w \<noteq> ''b''"
    unfolding r(2,4,6,8) by simp_all
  from foreign_delete_destroys [OF r(1) ne(1) r(3) ne(2) r(5) ne(3) r(7) ne(4), of demo_cp next_fresh]
  show ?thesis by (metis fst_conv)
qed

lemma foreign_build_replaces_image_witness:
  "map_option te_image_reference (hm_get (cd_templates (pl_data (fst (update_build demo_cp next_fresh ''b'' ''x-0'' ''succeeded''
      None (fst (create_build demo_cp next_fresh ''b'' ''base'' JNull (Some ''evil'') demo_busy)))))) ''base'') = Some (Some ''evil'')"
proof -
  have "map_option (\<lambda>t. (te_template_id t, te_public t, te_team_id t)) (hm_get (cd_templates (pl_data demo_busy)) ''base'')
      = Some (''base'', True, ''a'')" by (simp add: demo_busy_def hm_get_def)
  then obtain t where t: "hm_get (cd_templates (pl_data demo_busy)) ''base'' = Some t" "te_template_id t = ''base''"
    "te_public t" "te_team_id t = ''a''" by auto
  have u: "fr_uuid next_fresh 0 = ''x-0''" by code_simp
  have "te_team_id t \<noteq> ''b''" using t(4) by simp
  from foreign_build_replaces_image [OF t(1-3) this u, of demo_cp next_fresh None JNull "''evil''"] show ?thesis by auto
qed

theorem success_is_durable_witness:
  "case plane_open demo_cp next_fresh ''/data/cp.json''
      (pl_fs (fst (cp_exec demo_cp next_fresh (OpEnsureTeam ''dev'' None)
        \<lparr>pl_data = dev_data, pl_path = Some ''/data/cp.json'', pl_fs = []\<rparr>))) of
    (w, Ok q) \<Rightarrow> pl_data q = dev_data | (w, Err e) \<Rightarrow> False"
proof -
  let ?p = "\<lparr>pl_data = dev_data, pl_path = Some ''/data/cp.json'', pl_fs = []\<rparr>"
  obtain p' r where run: "cp_exec demo_cp next_fresh (OpEnsureTeam ''dev'' None) ?p = (p', r)" by fastforce
  have s: "snd (cp_exec demo_cp next_fresh (OpEnsureTeam ''dev'' None) ?p) = Ok ()"
    "pl_data (fst (cp_exec demo_cp next_fresh (OpEnsureTeam ''dev'' None) ?p)) = dev_data"
    "case plane_open demo_cp next_fresh ''/data/cp.json''
      (pl_fs (fst (cp_exec demo_cp next_fresh (OpEnsureTeam ''dev'' None) ?p))) of (w, Ok q) \<Rightarrow> True | (w, Err e) \<Rightarrow> False"
    by code_simp+
  have "tmp_path demo_cp ''/data/cp.json'' \<noteq> ''/data/cp.json''" "has_team ''dev'' dev_data" by code_simp+
  then have "case plane_open demo_cp next_fresh ''/data/cp.json'' (pl_fs p') of (w, Ok q) \<Rightarrow> pl_data q = pl_data p'
      | (w, Err e) \<Rightarrow> \<exists>m. e = CpPersistence m"
    using success_is_durable [OF demo_fs_laws, of ?p "''/data/cp.json''" next_fresh "OpEnsureTeam ''dev'' None" p' next_fresh]
      run s(1) by simp
  then show ?thesis using s unfolding run fst_conv by (auto split: prod.splits sum.splits)
qed


definition demo_key_request :: "string \<Rightarrow> request" where
  "demo_key_request key = \<lparr>rq_method = POST, rq_path = ''/sandboxes'', rq_headers = [(''x-api-key'', Some key)]\<rparr>"

lemma api_key_life_witness:
  "auth_middleware None authenticator_new_production
     (\<lambda>cred. snd (cp_authenticate demo_cp next_fresh cred (fst (create_api_key demo_cp demo_fresh ''a'' ''key'' SrFull demo_plane))))
     (demo_key_request ''e2b_u1'')
   = Next (Some \<lparr>pr_tenant_id = ''a'', pr_scope = ScopeFull, pr_volume_id = None\<rparr>)"
proof -
  obtain p' r where c: "create_api_key demo_cp demo_fresh ''a'' ''key'' SrFull demo_plane = (p', r)" by fastforce
  have "map_sum id kc_secret (snd (create_api_key demo_cp demo_fresh ''a'' ''key'' SrFull demo_plane)) = Ok ''e2b_u1''" by code_simp
  then obtain cr where r: "r = Ok cr" "kc_secret cr = ''e2b_u1''" using c by (cases r) auto
  obtain p'' r' where d: "delete_api_key demo_cp next_fresh ''a'' (kc_id cr) p' = (p'', r')" by fastforce
  have e: "pl_data demo_plane = default_control_data" by (simp add: demo_plane_def plane_new_def)
  have h: "auth_header (demo_key_request ''e2b_u1'') = Some (''Bearer '' @ kc_secret cr)" unfolding r(2) by code_simp
  from api_key_life [OF c [unfolded r(1)] _ _ d h, of next_fresh] show ?thesis
    unfolding c fst_conv r(2)
    by (simp add: e default_control_data_def accepted_def hm_values_def demo_key_request_def probe_path_def)
qed

lemma volume_file_found_witness:
  "\<exists>xs. list_volume_files ''a'' ''v'' ''/'' (fst (put_volume_file demo_cp next_fresh ''a'' ''v'' ''src//./main.rs'' [1] [] demo_busy)) = Ok xs
     \<and> ''/src'' \<in> set xs"
proof -
  obtain p' r where c: "put_volume_file demo_cp next_fresh ''a'' ''v'' ''src//./main.rs'' [1] [] demo_busy = (p', r)" by fastforce
  have "r = Ok ()"
  proof -
    have n: "normalize_volume_path ''src//./main.rs'' = Ok ''/src/main.rs''" by code_simp
    show ?thesis using c unfolding put_volume_file_def n
      by (auto simp: demo_busy_def team_volume_def hm_get_def opt_filter_def and_then_def lift_result_def persist_def demo_plane_def
          plane_new_def modify_def)
  qed
  moreover have "path_components ''src//./main.rs'' = [] @ ''src'' # [''main.rs'']" by code_simp
  ultimately show ?thesis
    using volume_file_found [of demo_cp next_fresh "''a''" "''v''" "''src//./main.rs''" "[1]" "[]" demo_busy p'
        "''src//./main.rs''" "[]" "''src''" "[''main.rs'']" "''b''"] c
    by (auto simp: path_text_def)
qed

end
