(* ===== verification/Reconciler.thy ===== *)
theory Reconciler
  imports Store_Sqlite
begin

text \<open>
  \<open>crates/clouisled/src/reconciler.rs\<close>: one round of the node daemon's reconciliation of the store
  with the virtual machines that run on the node. The set of live sandboxes is a list without
  repetitions; \<open>now i\<close> is the reading of the clock when the sandbox \<open>i\<close> is written. The round is shown
  correct for every store that files sandboxes under their identifiers.
\<close>

record drift_report =
  dr_node_id :: string
  dr_marked_error :: "string list"
  dr_orphans_killed :: nat
  dr_status_corrected :: "string list"

record reconciler =
  rc_node_id :: string
  rc_live_sandboxes :: "string list"

definition reconciler_new :: "string \<Rightarrow> reconciler" where
  "reconciler_new node = \<lparr>rc_node_id = node, rc_live_sandboxes = []\<rparr>"

definition register_live :: "string \<Rightarrow> reconciler \<Rightarrow> reconciler" where
  "register_live i rc = rc\<lparr>rc_live_sandboxes := List.insert i (rc_live_sandboxes rc)\<rparr>"

definition unregister_live :: "string \<Rightarrow> reconciler \<Rightarrow> reconciler" where
  "unregister_live i rc = rc\<lparr>rc_live_sandboxes := removeAll i (rc_live_sandboxes rc)\<rparr>"

definition kill_orphan :: "string \<Rightarrow> (unit, clouisle_error) result" where
  "kill_orphan i = Ok ()"

text \<open>One turn of the loop over the listed sandboxes.\<close>

definition reconcile_one ::
  "'s store_ops \<Rightarrow> (string \<Rightarrow> time) \<Rightarrow> reconciler \<Rightarrow> sandbox \<Rightarrow> 's \<times> drift_report \<Rightarrow> 's \<times> drift_report" where
  "reconcile_one ops now rc sb = (\<lambda>(s, rep).
     if sb_node_id sb \<noteq> Some (rc_node_id rc) then (s, rep)
     else if \<not> status_is_active (sb_status sb) then (s, rep)
     else if sb_id sb \<in> set (rc_live_sandboxes rc) then
       if sb_status sb \<noteq> Running then
         (fst (so_update ops (now (sb_id sb)) (sb_id sb) (UStatus Running) s),
          rep\<lparr>dr_status_corrected := dr_status_corrected rep @ [sb_id sb]\<rparr>)
       else (s, rep)
     else
       (fst (so_update ops (now (sb_id sb)) (sb_id sb) (UStatus Error) s),
        rep\<lparr>dr_marked_error := dr_marked_error rep @ [sb_id sb]\<rparr>))"

definition count_orphan :: "sandbox list \<Rightarrow> string \<Rightarrow> drift_report \<Rightarrow> drift_report" where
  "count_orphan sbs i rep =
     (if i \<in> sb_id ` set sbs then rep
      else case kill_orphan i of _ \<Rightarrow> rep\<lparr>dr_orphans_killed := dr_orphans_killed rep + 1\<rparr>)"

definition reconcile ::
  "'s store_ops \<Rightarrow> time \<Rightarrow> (string \<Rightarrow> time) \<Rightarrow> reconciler \<Rightarrow> 's \<Rightarrow> 's \<times> drift_report" where
  "reconcile ops t now rc s =
     (let rep = \<lparr>dr_node_id = rc_node_id rc, dr_marked_error = [], dr_orphans_killed = 0, dr_status_corrected = []\<rparr>;
          sbs = (case so_list ops t None s of Ok sbs \<Rightarrow> sbs | Err _ \<Rightarrow> []);
          (s', rep') = fold (reconcile_one ops now rc) sbs (s, rep)
      in (s', fold (count_orphan sbs) (rc_live_sandboxes rc) rep'))"

section \<open>What a round does\<close>

text \<open>What should become of a sandbox: one that is active on this node runs if its machine lives,
  and has failed otherwise.\<close>

definition dead :: "reconciler \<Rightarrow> sb_view \<Rightarrow> bool" where
  "dead rc v \<longleftrightarrow> v_node v = Some (rc_node_id rc) \<and> status_is_active (v_status v) \<and> v_id v \<notin> set (rc_live_sandboxes rc)"

definition drifted :: "reconciler \<Rightarrow> sb_view \<Rightarrow> bool" where
  "drifted rc v \<longleftrightarrow> v_node v = Some (rc_node_id rc) \<and> status_is_active (v_status v) \<and> v_status v \<noteq> Running
     \<and> v_id v \<in> set (rc_live_sandboxes rc)"

definition settle :: "reconciler \<Rightarrow> sb_view \<Rightarrow> sb_view" where
  "settle rc v = (if dead rc v then v\<lparr>v_status := Error\<rparr> else if drifted rc v then v\<lparr>v_status := Running\<rparr> else v)"

lemma settle_settles [simp]: "\<not> dead rc (settle rc v)" "\<not> drifted rc (settle rc v)"
  by (auto simp: settle_def dead_def drifted_def status_is_active_def)

lemma settle_idem [simp]: "settle rc (settle rc v) = settle rc v"
  by (subst settle_def) simp

lemma settle_id [simp]: "v_id (settle rc v) = v_id v"
  by (simp add: settle_def)

lemma fold_orphans:
  "fold (count_orphan sbs) xs rep =
     rep\<lparr>dr_orphans_killed := dr_orphans_killed rep + length (filter (\<lambda>i. i \<notin> sb_id ` set sbs) xs)\<rparr>"
  by (induction xs arbitrary: rep) (auto simp: count_orphan_def)

context keyed_store
begin

lemma one_settles:
  assumes "inv s" and "lookup s (sb_id sb) = Some (view_of sb)"
  shows "\<exists>s'. reconcile_one ops now rc sb (s, rep) =
      (s', rep\<lparr>dr_marked_error := dr_marked_error rep @ (if dead rc (view_of sb) then [sb_id sb] else []),
              dr_status_corrected := dr_status_corrected rep @ (if drifted rc (view_of sb) then [sb_id sb] else [])\<rparr>)
    \<and> inv s' \<and> lookup s' = (lookup s)(sb_id sb \<mapsto> settle rc (view_of sb))"
proof -
  have u: "\<exists>s'. so_update ops (now (sb_id sb)) (sb_id sb) (UStatus st) s = (s', Ok ()) \<and> inv s'
      \<and> lookup s' = (lookup s)(sb_id sb \<mapsto> (view_of sb)\<lparr>v_status := st\<rparr>)" for st
    using update_some [OF assms, of "now (sb_id sb)" "UStatus st"] by simp
  have same: "(lookup s)(sb_id sb \<mapsto> view_of sb) = lookup s" using assms(2) by (simp add: fun_upd_idem)
  have v: "v_node (view_of sb) = sb_node_id sb" "v_status (view_of sb) = sb_status sb" "v_id (view_of sb) = sb_id sb"
    by (simp_all add: view_of_def)
  show ?thesis
    using u [of Running] u [of Error] assms(1) same
    by (auto simp: reconcile_one_def dead_def drifted_def settle_def v)
qed

lemma fold_settles:
  assumes "inv s" and "distinct (map sb_id sbs)" and "\<And>sb. sb \<in> set sbs \<Longrightarrow> lookup s (sb_id sb) = Some (view_of sb)"
  shows "\<exists>s'. fold (reconcile_one ops now rc) sbs (s, rep) =
      (s', rep\<lparr>dr_marked_error := dr_marked_error rep @ map sb_id (filter (\<lambda>x. dead rc (view_of x)) sbs),
              dr_status_corrected := dr_status_corrected rep @ map sb_id (filter (\<lambda>x. drifted rc (view_of x)) sbs)\<rparr>)
    \<and> inv s' \<and> lookup s' = (\<lambda>i. if i \<in> sb_id ` set sbs then map_option (settle rc) (lookup s i) else lookup s i)"
  using assms
proof (induction sbs arbitrary: s rep)
  case (Cons sb sbs)
  obtain s1 rep1 where one: "reconcile_one ops now rc sb (s, rep) = (s1, rep1)"
    and rep1: "rep1 = rep\<lparr>dr_marked_error := dr_marked_error rep @ (if dead rc (view_of sb) then [sb_id sb] else []),
              dr_status_corrected := dr_status_corrected rep @ (if drifted rc (view_of sb) then [sb_id sb] else [])\<rparr>"
    and s1: "inv s1" "lookup s1 = (lookup s)(sb_id sb \<mapsto> settle rc (view_of sb))"
    using one_settles [OF Cons.prems(1), of sb now rc rep] Cons.prems(3) by auto
  have "lookup s1 (sb_id x) = Some (view_of x)" if "x \<in> set sbs" for x
    using that Cons.prems(2,3) s1(2) by (auto simp: image_iff)
  from Cons.IH [OF s1(1) _ this, of rep1] Cons.prems(2) obtain s' where
    s': "fold (reconcile_one ops now rc) sbs (s1, rep1) =
      (s', rep1\<lparr>dr_marked_error := dr_marked_error rep1 @ map sb_id (filter (\<lambda>x. dead rc (view_of x)) sbs),
              dr_status_corrected := dr_status_corrected rep1 @ map sb_id (filter (\<lambda>x. drifted rc (view_of x)) sbs)\<rparr>)"
      "inv s'" "lookup s' = (\<lambda>i. if i \<in> sb_id ` set sbs then map_option (settle rc) (lookup s1 i) else lookup s1 i)"
    by auto
  have "lookup s' = (\<lambda>i. if i \<in> sb_id ` set (sb # sbs) then map_option (settle rc) (lookup s i) else lookup s i)"
    using s'(3) s1(2) Cons.prems(2,3) by (auto simp: fun_eq_iff)
  then show ?case using s' one rep1 by auto
qed (auto simp: fun_eq_iff)

lemma round_settles:
  assumes "inv s" and "distinct (rc_live_sandboxes rc)"
  shows "\<exists>s' rep. reconcile ops t now rc s = (s', rep) \<and> inv s'
    \<and> lookup s' = (\<lambda>i. map_option (settle rc) (lookup s i))
    \<and> distinct (dr_marked_error rep) \<and> set (dr_marked_error rep) = {i. \<exists>v. lookup s i = Some v \<and> dead rc v}
    \<and> distinct (dr_status_corrected rep) \<and> set (dr_status_corrected rep) = {i. \<exists>v. lookup s i = Some v \<and> drifted rc v}
    \<and> dr_orphans_killed rep = card {i \<in> set (rc_live_sandboxes rc). lookup s i = None}"
proof -
  obtain sbs where l: "so_list ops t None s = Ok sbs" using list_all [OF assms(1)] by blast
  note k = list_keyed [OF assms(1) l]
  have dom: "i \<in> sb_id ` set sbs \<longleftrightarrow> lookup s i \<noteq> None" for i using k(2,3) by fastforce
  have lk: "(\<lambda>i. if i \<in> sb_id ` set sbs then map_option (settle rc) (lookup s i) else lookup s i)
      = (\<lambda>i. map_option (settle rc) (lookup s i))"
    by (auto simp: fun_eq_iff dom)
  have sets: "set (map sb_id (filter (\<lambda>x. P (view_of x)) sbs)) = {i. \<exists>v. lookup s i = Some v \<and> P v}" for P
    using k(2,3) by fastforce
  have dist: "distinct (map sb_id (filter P sbs))" for P using k(1) by (simp add: distinct_map_filter)
  have orph: "length (filter (\<lambda>i. i \<notin> sb_id ` set sbs) (rc_live_sandboxes rc))
      = card {i \<in> set (rc_live_sandboxes rc). lookup s i = None}"
    using assms(2) dom by (simp add: distinct_length_filter Int_def conj_commute)
  show ?thesis
    using fold_settles [OF assms(1) k(1,2), of now rc "\<lparr>dr_node_id = rc_node_id rc, dr_marked_error = [],
        dr_orphans_killed = 0, dr_status_corrected = []\<rparr>"]
    unfolding lk reconcile_def fold_orphans
    by (auto simp: l dist orph simp del: set_map simp: sets)
qed

text \<open>A second round finds nothing to do.\<close>

lemma round_idempotent:
  assumes "inv s" and "distinct (rc_live_sandboxes rc)"
  shows "lookup (fst (reconcile ops t' now' rc (fst (reconcile ops t now rc s)))) = lookup (fst (reconcile ops t now rc s))
    \<and> dr_marked_error (snd (reconcile ops t' now' rc (fst (reconcile ops t now rc s)))) = []
    \<and> dr_status_corrected (snd (reconcile ops t' now' rc (fst (reconcile ops t now rc s)))) = []"
proof -
  obtain s' rep where r: "reconcile ops t now rc s = (s', rep)" "inv s'"
      "lookup s' = (\<lambda>i. map_option (settle rc) (lookup s i))"
    using round_settles [OF assms, of t now] by blast
  obtain s2 rep2 where r2: "reconcile ops t' now' rc s' = (s2, rep2)"
      "lookup s2 = (\<lambda>i. map_option (settle rc) (lookup s' i))"
      "set (dr_marked_error rep2) = {i. \<exists>v. lookup s' i = Some v \<and> dead rc v}"
      "set (dr_status_corrected rep2) = {i. \<exists>v. lookup s' i = Some v \<and> drifted rc v}"
    using round_settles [OF r(2) assms(2), of t' now'] by blast
  have "set (dr_marked_error rep2) = {}" "set (dr_status_corrected rep2) = {}"
    unfolding r2(3,4) r(3) by auto
  then have "dr_marked_error rep2 = []" "dr_status_corrected rep2 = []" by simp_all
  moreover have "lookup s2 = lookup s'" unfolding r2(2) r(3) by (auto simp: fun_eq_iff option.map_comp comp_def)
  ultimately show ?thesis using r(1) r2(1) by simp
qed

end

lemma live_distinct:
  "distinct (rc_live_sandboxes (reconciler_new n))"
  "distinct (rc_live_sandboxes rc) \<Longrightarrow> distinct (rc_live_sandboxes (register_live i rc))"
  "distinct (rc_live_sandboxes rc) \<Longrightarrow> distinct (rc_live_sandboxes (unregister_live i rc))"
  by (simp_all add: reconciler_new_def register_live_def unregister_live_def distinct_removeAll)

section \<open>Properties\<close>


definition demo_node_store :: mem_store where
  "demo_node_store = mem_new\<lparr>m_sandboxes :=
     [(''a'', (sandbox_new 1 ''a'' default_spec)\<lparr>sb_status := Running, sb_node_id := Some ''n''\<rparr>),
      (''b'', (sandbox_new 1 ''b'' default_spec)\<lparr>sb_status := Paused, sb_node_id := Some ''n''\<rparr>)]\<rparr>"

lemma demo_node_store_inv: "mem_inv demo_node_store"
  by (auto simp: mem_inv_def demo_node_store_def hm_ok_def hm_get_def sandbox_new_def split: if_splits)


end
