(* ===== verification/Process_Sessions.thy ===== *)
theory Process_Sessions
  imports Core_Types Frame_Codec "HOL-Library.Sublist"
begin

text \<open>
  The process sessions of \<open>crates/clouisle-api/src/state.rs\<close> and their event streams in
  \<open>crates/clouisle-api/src/handlers/e2b.rs\<close>. A session is shared: the registry holds references to it under its number and under
  its tag, so sessions live in a list and the registry maps keys to positions in it. A session keeps every event and
  sends it on a broadcast channel of 64 places (\<open>tokio::sync::broadcast\<close>): a receiver that falls
  behind by more gets an error at its next read. \<open>stream_step\<close> interleaves the task that publishes the
  events of a process with a request that follows them.
\<close>

section \<open>Events\<close>

datatype exec_stream_event = EvStdout "byte list" | EvStderr "byte list" | EvExit int | EvError string

record process_event =
  pe_payload :: "byte list"
  pe_terminal :: bool

datatype e2b_process_event =
    PStart u32
  | PData "string option" "string option" "string option"
  | PEnd int string
  | PError string

text \<open>What the encoder uses of \<open>serde_json\<close> and \<open>base64\<close>.\<close>

record event_codec =
  ec_json :: "e2b_process_event \<Rightarrow> (byte list, string) result"
  ec_base64 :: "byte list \<Rightarrow> string"

definition exit_status_text :: "int \<Rightarrow> string" where
  "exit_status_text n = ''exit status '' @ (if n < 0 then CHR ''-'' # show_nat (nat (- n)) else show_nat (nat n))"

fun event_body :: "event_codec \<Rightarrow> bool \<Rightarrow> exec_stream_event \<Rightarrow> e2b_process_event \<times> bool" where
  "event_body cd pty (EvStdout chunk) =
     ((if pty then PData None None (Some (ec_base64 cd chunk)) else PData (Some (ec_base64 cd chunk)) None None), False)"
| "event_body cd pty (EvStderr chunk) =
     ((if pty then PData None None (Some (ec_base64 cd chunk)) else PData None (Some (ec_base64 cd chunk)) None), False)"
| "event_body cd pty (EvExit n) = (PEnd n (exit_status_text n), True)"
| "event_body cd pty (EvError msg) = (PError msg, True)"

definition encode_process_event ::
  "event_codec \<Rightarrow> exec_stream_event \<Rightarrow> bool \<Rightarrow> (process_event, clouisle_error) result" where
  "encode_process_event cd ev pty =
     (case event_body cd pty ev of (body, terminal) \<Rightarrow>
        (case ec_json cd body of
           Err e \<Rightarrow> Err (internal_error (''encode process event: '' @ e))
         | Ok payload \<Rightarrow> Ok \<lparr>pe_payload = payload @ [10], pe_terminal = terminal\<rparr>))"

section \<open>Sessions\<close>

record process_config =
  pc_cmd :: string
  pc_args :: "string list"
  pc_envs :: "(string, string) hashmap"
  pc_cwd :: "string option"
  pc_tag :: "string option"
  pc_pty :: "pty_config option"
  pc_stdin :: bool

record process_session =
  se_sandbox_id :: string
  se_pid :: u32
  se_config :: process_config
  se_tag :: "string option"
  se_guest_id :: string
  se_pty :: bool
  se_events :: "process_event list"
  se_sent :: "process_event list"

definition BROADCAST_CAPACITY :: nat where
  "BROADCAST_CAPACITY = 64"

definition push_event :: "process_event \<Rightarrow> process_session \<Rightarrow> process_session" where
  "push_event ev s = s\<lparr>se_events := se_events s @ [ev]\<rparr>"

definition send_event :: "process_event \<Rightarrow> process_session \<Rightarrow> process_session" where
  "send_event ev s = s\<lparr>se_sent := se_sent s @ [ev]\<rparr>"

definition publish :: "process_event \<Rightarrow> process_session \<Rightarrow> process_session" where
  "publish ev s = send_event ev (push_event ev s)"

text \<open>A receiver is the number of values sent before its next one. Reading waits (\<open>RecvWait\<close>) at the end of the channel.\<close>

datatype received = RecvWait | RecvLagged | RecvValue process_event

definition recv :: "process_event list \<Rightarrow> nat \<Rightarrow> received" where
  "recv sent pos =
     (if pos + BROADCAST_CAPACITY < length sent then RecvLagged
      else if pos < length sent then RecvValue (sent ! pos)
      else RecvWait)"

definition snapshot_and_subscribe :: "process_session \<Rightarrow> process_event list \<times> nat" where
  "snapshot_and_subscribe s = (se_events s, length (se_sent s))"

section \<open>The registry\<close>

record process_registry =
  rg_sessions :: "(string, nat) hashmap"
  rg_heap :: "process_session list"

definition registry_new :: process_registry where
  "registry_new = \<lparr>rg_sessions = [], rg_heap = []\<rparr>"

definition pid_key :: "string \<Rightarrow> u32 \<Rightarrow> string" where
  "pid_key i pid = i @ '':'' @ show_nat (unat pid)"

definition tag_key :: "string \<Rightarrow> string \<Rightarrow> string" where
  "tag_key i tag = i @ '':tag:'' @ tag"

definition registry_create ::
  "string \<Rightarrow> u32 \<Rightarrow> process_config \<Rightarrow> string option \<Rightarrow> string \<Rightarrow> bool \<Rightarrow> process_registry \<Rightarrow> process_registry \<times> nat" where
  "registry_create i pid config tag guest pty rg =
     (let r = length (rg_heap rg);
          s = \<lparr>se_sandbox_id = i, se_pid = pid, se_config = config, se_tag = tag, se_guest_id = guest, se_pty = pty,
               se_events = [], se_sent = []\<rparr>;
          m = hm_insert (pid_key i pid) r (rg_sessions rg);
          m' = (case tag of Some t \<Rightarrow> hm_insert (tag_key i t) r m | None \<Rightarrow> m)
      in (\<lparr>rg_sessions = m', rg_heap = rg_heap rg @ [s]\<rparr>, r))"

definition registry_get :: "string \<Rightarrow> u32 \<Rightarrow> process_registry \<Rightarrow> nat option" where
  "registry_get i pid rg = hm_get (rg_sessions rg) (pid_key i pid)"

definition registry_get_by_tag :: "string \<Rightarrow> string \<Rightarrow> process_registry \<Rightarrow> nat option" where
  "registry_get_by_tag i tag rg = hm_get (rg_sessions rg) (tag_key i tag)"

definition registry_list :: "string \<Rightarrow> process_registry \<Rightarrow> process_session list" where
  "registry_list i rg = filter (\<lambda>s. se_sandbox_id s = i) (map (\<lambda>r. rg_heap rg ! r) (hm_values (rg_sessions rg)))"

definition remove_sandbox :: "string \<Rightarrow> process_registry \<Rightarrow> process_registry" where
  "remove_sandbox i rg = rg\<lparr>rg_sessions := filter (\<lambda>(k, r). se_sandbox_id (rg_heap rg ! r) \<noteq> i) (rg_sessions rg)\<rparr>"

definition publish_at :: "nat \<Rightarrow> process_event \<Rightarrow> process_registry \<Rightarrow> process_registry" where
  "publish_at r ev rg = rg\<lparr>rg_heap := (rg_heap rg)[r := publish ev (rg_heap rg ! r)]\<rparr>"

section \<open>Following a session\<close>

text \<open>The answer is written up to the first terminal event.\<close>

fun upto_terminal :: "process_event list \<Rightarrow> process_event list" where
  "upto_terminal [] = []"
| "upto_terminal (e # es) = e # (if pe_terminal e then [] else upto_terminal es)"

definition ended :: "process_event list \<Rightarrow> bool" where
  "ended es \<longleftrightarrow> list_ex pe_terminal es"

text \<open>\<open>stream_session\<close>: a follower that has not started, has read the history, reads the channel from a
  position, or has ended.\<close>

datatype follower = Fresh | Snapped "process_event list" | Reading nat | Done

record stream =
  sm_session :: process_session
  sm_todo :: "process_event list"
  sm_pushed :: "process_event option"
  sm_follower :: follower
  sm_out :: "process_event list"

text \<open>The two halves of \<open>publish\<close>, the two halves of \<open>snapshot_and_subscribe\<close> (followed by the replay of the history)
  and one read of the channel.\<close>

fun stream_push :: "stream \<Rightarrow> stream" where
  "stream_push st =
     (case (sm_pushed st, sm_todo st) of
        (None, ev # evs) \<Rightarrow> st\<lparr>sm_session := push_event ev (sm_session st), sm_todo := evs, sm_pushed := Some ev\<rparr>
      | _ \<Rightarrow> st)"

fun stream_send :: "stream \<Rightarrow> stream" where
  "stream_send st =
     (case sm_pushed st of
        Some ev \<Rightarrow> st\<lparr>sm_session := send_event ev (sm_session st), sm_pushed := None\<rparr>
      | None \<Rightarrow> st)"

fun stream_snapshot :: "stream \<Rightarrow> stream" where
  "stream_snapshot st = (if sm_follower st = Fresh then st\<lparr>sm_follower := Snapped (se_events (sm_session st))\<rparr> else st)"

fun stream_subscribe :: "stream \<Rightarrow> stream" where
  "stream_subscribe st =
     (case sm_follower st of
        Snapped history \<Rightarrow>
          st\<lparr>sm_out := upto_terminal history,
             sm_follower := (if ended history then Done else Reading (length (se_sent (sm_session st))))\<rparr>
      | _ \<Rightarrow> st)"

fun stream_read :: "stream \<Rightarrow> stream" where
  "stream_read st =
     (case sm_follower st of
        Reading pos \<Rightarrow>
          (case recv (se_sent (sm_session st)) pos of
             RecvWait \<Rightarrow> st
           | RecvLagged \<Rightarrow> st\<lparr>sm_follower := Done\<rparr>
           | RecvValue ev \<Rightarrow>
               st\<lparr>sm_out := sm_out st @ [ev], sm_follower := (if pe_terminal ev then Done else Reading (Suc pos))\<rparr>)
      | _ \<Rightarrow> st)"

inductive stream_step :: "stream \<Rightarrow> stream \<Rightarrow> bool" where
  step_push: "stream_step st (stream_push st)"
| step_send: "stream_step st (stream_send st)"
| step_snapshot: "stream_step st (stream_snapshot st)"
| step_subscribe: "stream_step st (stream_subscribe st)"
| step_read: "stream_step st (stream_read st)"

section \<open>What a follower receives\<close>

lemma upto_terminal_append: "upto_terminal (xs @ ys) = (if ended xs then upto_terminal xs else xs @ upto_terminal ys)"
  by (induction xs) (auto simp: ended_def)

lemma upto_terminal_id: "\<not> ended xs \<Longrightarrow> upto_terminal xs = xs"
  using upto_terminal_append [of xs "[]"] by simp

lemma upto_terminal_prefix: "\<exists>ys. xs = upto_terminal xs @ ys"
  by (induction xs) auto

definition pushed_list :: "stream \<Rightarrow> process_event list" where
  "pushed_list st = (case sm_pushed st of None \<Rightarrow> [] | Some ev \<Rightarrow> [ev])"

text \<open>\<open>old\<close> is the history at the time of the subscription, \<open>n\<close> the number of values sent before it, and
  \<open>new\<close> the events that come after.\<close>

definition follows :: "process_event list \<Rightarrow> nat \<Rightarrow> process_event list \<Rightarrow> stream \<Rightarrow> bool" where
  "follows old n new st \<longleftrightarrow>
     (\<exists>sent. n \<le> length (se_sent (sm_session st)) \<and> drop n (se_sent (sm_session st)) = sent
        \<and> sent @ pushed_list st @ sm_todo st = new
        \<and> (case sm_follower st of
             Reading pos \<Rightarrow> (\<exists>k\<le>length sent. pos = n + k \<and> sm_out st = old @ take k sent \<and> \<not> ended (sm_out st))
           | Done \<Rightarrow> prefix (sm_out st) (upto_terminal (old @ new))
               \<and> (length new \<le> BROADCAST_CAPACITY \<longrightarrow> sm_out st = upto_terminal (old @ new))
           | _ \<Rightarrow> False))"

lemma follows_publish:
  assumes "follows old n new st"
  shows "follows old n new (stream_push st)" and "follows old n new (stream_send st)"
proof -
  show "follows old n new (stream_push st)"
    using assms by (auto simp: follows_def pushed_list_def push_event_def split: option.splits list.splits follower.splits)
  show "follows old n new (stream_send st)"
  proof (cases "sm_pushed st")
    case (Some ev)
    with assms Some show ?thesis
      by (auto simp: follows_def pushed_list_def send_event_def split: follower.splits)
  qed (use assms in simp)
qed

lemma follows_read:
  assumes "follows old n new st"
  shows "follows old n new (stream_read st)"
proof (cases "sm_follower st")
  case (Reading pos)
  let ?sent = "se_sent (sm_session st)"
  obtain k where k: "n \<le> length ?sent" "drop n ?sent @ pushed_list st @ sm_todo st = new" "k \<le> length ?sent - n" "pos = n + k"
      "sm_out st = old @ take k (drop n ?sent)" "\<not> ended (sm_out st)"
    using assms Reading by (auto simp: follows_def)
  have new: "new = take k (drop n ?sent) @ drop pos ?sent @ pushed_list st @ sm_todo st"
    using k(2,4) by (metis append.assoc append_take_drop_id drop_drop add.commute)
  have all: "upto_terminal (old @ new) = sm_out st @ upto_terminal (drop pos ?sent @ pushed_list st @ sm_todo st)"
    using upto_terminal_append [of "sm_out st"] k(5,6) new by simp
  show ?thesis
  proof (cases "recv ?sent pos")
    case RecvWait
    with assms Reading show ?thesis by simp
  next
    case RecvLagged
    then have "BROADCAST_CAPACITY < length new"
      using k(2-4) by (auto simp: recv_def split: if_splits simp flip: k(2))
    with all k(1,2) Reading RecvLagged show ?thesis by (simp add: follows_def pushed_list_def)
  next
    case (RecvValue ev)
    then have ev: "pos < length ?sent" "ev = ?sent ! pos" by (auto simp: recv_def split: if_splits)
    then have d: "drop pos ?sent = ev # drop (Suc pos) ?sent" by (simp add: Cons_nth_drop_Suc)
    have t: "take (Suc k) (drop n ?sent) = take k (drop n ?sent) @ [ev]"
      using ev k(4) by (simp add: take_Suc_conv_app_nth)
    have e: "ended (sm_out st @ [ev]) = pe_terminal ev" using k(6) by (simp add: ended_def)
    show ?thesis
    proof (cases "pe_terminal ev")
      case True
      with all d k(1,2) Reading RecvValue show ?thesis by (simp add: follows_def pushed_list_def)
    next
      case False
      have "Suc k \<le> length ?sent - n" using ev(1) k(4) by simp
      with False e t k Reading RecvValue show ?thesis
        by (auto simp: follows_def pushed_list_def intro!: exI [of _ "Suc k"])
    qed
  qed
qed (use assms in \<open>simp_all add: follows_def\<close>)

lemma follows_step: "stream_step st st' \<Longrightarrow> follows old n new st \<Longrightarrow> follows old n new st'"
proof (induction rule: stream_step.induct)
  case (step_snapshot st)
  then show ?case by (cases "sm_follower st") (auto simp: follows_def)
next
  case (step_subscribe st)
  then show ?case by (cases "sm_follower st") (auto simp: follows_def)
qed (use follows_publish follows_read in blast)+

lemma follows_start:
  assumes "sm_follower st = Fresh" and "sm_pushed st = None"
  shows "follows (se_events (sm_session st)) (length (se_sent (sm_session st))) (sm_todo st) (stream_subscribe (stream_snapshot st))"
  using assms by (auto simp: follows_def pushed_list_def upto_terminal_append upto_terminal_id)

text \<open>A request that starts to follow a process between two publications receives the history and what
  comes after it in order and without gaps: at every moment it has written a prefix of the events up to the first
  terminal one, and once everything is published and read it has written them all, provided that no more than 64 events
  were published after it subscribed.\<close>

lemma follower_receives_all:
  assumes "sm_follower st = Fresh" and "sm_pushed st = None"
    and "stream_step\<^sup>*\<^sup>* (stream_subscribe (stream_snapshot st)) st'"
  shows "prefix (sm_out st') (upto_terminal (se_events (sm_session st) @ sm_todo st))
    \<and> (length (sm_todo st) \<le> BROADCAST_CAPACITY \<and> sm_todo st' = [] \<and> sm_pushed st' = None \<and> stream_read st' = st'
       \<longrightarrow> sm_out st' = upto_terminal (se_events (sm_session st) @ sm_todo st))"
proof -
  let ?old = "se_events (sm_session st)" and ?n = "length (se_sent (sm_session st))" and ?new = "sm_todo st"
  have inv: "follows ?old ?n ?new st'"
    using assms(3) by (induction rule: rtranclp_induct) (use follows_start [OF assms(1,2)] follows_step in blast)+
  show ?thesis
  proof (cases "sm_follower st'")
    case (Reading pos)
    let ?sent = "se_sent (sm_session st')"
    obtain k where k: "?n \<le> length ?sent" "drop ?n ?sent @ pushed_list st' @ sm_todo st' = ?new" "k \<le> length ?sent - ?n" "pos = ?n + k"
        "sm_out st' = ?old @ take k (drop ?n ?sent)" "\<not> ended (sm_out st')"
      using inv Reading by (auto simp: follows_def)
    have new: "?new = take k (drop ?n ?sent) @ drop k (drop ?n ?sent) @ pushed_list st' @ sm_todo st'"
      using k(2) by (metis append.assoc append_take_drop_id)
    then have all: "upto_terminal (?old @ ?new) = sm_out st' @ upto_terminal (drop k (drop ?n ?sent) @ pushed_list st' @ sm_todo st')"
      using upto_terminal_append [of "sm_out st'"] k(5,6) by simp
    have "drop k (drop ?n ?sent) = []"
      if "length ?new \<le> BROADCAST_CAPACITY" "sm_todo st' = []" "sm_pushed st' = None" "stream_read st' = st'"
    proof -
      have "recv ?sent pos \<noteq> RecvLagged"
        using that k(1-4) by (auto simp: recv_def split: if_splits simp flip: k(2))
      moreover have "recv ?sent pos \<noteq> RecvValue ev" for ev
      proof
        assume "recv ?sent pos = RecvValue ev"
        with Reading have "sm_out (stream_read st') \<noteq> sm_out st'" by simp
        with that(4) show False by simp
      qed
      ultimately have "length ?sent \<le> pos" by (auto simp: recv_def split: if_splits)
      then show ?thesis using k(4) by simp
    qed
    with all show ?thesis by (auto simp: pushed_list_def)
  qed (use inv in \<open>auto simp: follows_def\<close>)
qed

definition demo_session :: "process_event list \<Rightarrow> process_session" where
  "demo_session evs = \<lparr>se_sandbox_id = ''a'', se_pid = 1, se_config = \<lparr>pc_cmd = ''sh'', pc_args = [], pc_envs = [], pc_cwd = None,
     pc_tag = None, pc_pty = None, pc_stdin = True\<rparr>, se_tag = None, se_guest_id = ''g'', se_pty = False, se_events = evs, se_sent = evs\<rparr>"

definition demo_stream :: stream where
  "demo_stream = \<lparr>sm_session = demo_session [\<lparr>pe_payload = [1], pe_terminal = False\<rparr>], sm_todo = [\<lparr>pe_payload = [2], pe_terminal = True\<rparr>],
     sm_pushed = None, sm_follower = Fresh, sm_out = []\<rparr>"

lemma follower_receives_all_witness:
  "sm_out (stream_read (stream_send (stream_push (stream_subscribe (stream_snapshot demo_stream)))))
     = [\<lparr>pe_payload = [1], pe_terminal = False\<rparr>, \<lparr>pe_payload = [2], pe_terminal = True\<rparr>]"
proof -
  let ?st = "stream_subscribe (stream_snapshot demo_stream)"
  let ?st' = "stream_read (stream_send (stream_push ?st))"
  have "stream_step\<^sup>*\<^sup>* ?st ?st'"
    by (meson converse_rtranclp_into_rtranclp rtranclp.rtrancl_refl stream_step.intros)
  moreover have "sm_todo ?st' = []" "sm_pushed ?st' = None" "stream_read ?st' = ?st'"
    by (simp_all add: demo_stream_def demo_session_def ended_def push_event_def send_event_def recv_def BROADCAST_CAPACITY_def)
  ultimately show ?thesis
    using follower_receives_all [of demo_stream ?st'] by (simp add: demo_stream_def demo_session_def BROADCAST_CAPACITY_def)
qed

text \<open>Reading the history and subscribing to the channel are two steps. A terminal event that is published between
  them reaches the follower neither way: whenever the publisher has nothing left, the follower waits for ever
  and its answer lacks the last event.\<close>

lemma late_follower_misses_exit:
  assumes "sm_follower st = Fresh" and "sm_pushed st = None" and "sm_todo st = [ev]" and "pe_terminal ev"
    and "\<not> ended (se_events (sm_session st))"
    and "stream_step\<^sup>*\<^sup>* (stream_subscribe (stream_send (stream_push (stream_snapshot st)))) st'"
  shows "sm_out st' = se_events (sm_session st) \<and> \<not> ended (sm_out st') \<and> sm_follower st' \<noteq> Done
    \<and> ended (se_events (sm_session st'))"
proof -
  let ?n = "Suc (length (se_sent (sm_session st)))"
  define stuck :: "stream \<Rightarrow> bool" where "stuck x \<longleftrightarrow> sm_out x = se_events (sm_session st) \<and> sm_follower x = Reading ?n \<and> sm_todo x = [] \<and> sm_pushed x = None
    \<and> length (se_sent (sm_session x)) = ?n \<and> ended (se_events (sm_session x))" for x
  have start: "stuck (stream_subscribe (stream_send (stream_push (stream_snapshot st))))"
    using assms(1-5) by (simp add: stuck_def push_event_def send_event_def upto_terminal_id ended_def)
  have step: "stuck y" if "stream_step x y" "stuck x" for x y
    using that by (induction rule: stream_step.induct) (auto simp: stuck_def recv_def)
  from assms(6) have "stuck st'" by (induction rule: rtranclp_induct) (rule start, rule step)
  then show ?thesis using assms(5) by (simp add: stuck_def)
qed

lemma late_follower_misses_exit_witness:
  "let st = stream_subscribe (stream_send (stream_push (stream_snapshot demo_stream)))
   in sm_out st = [\<lparr>pe_payload = [1], pe_terminal = False\<rparr>] \<and> sm_follower st \<noteq> Done"
  using late_follower_misses_exit [of demo_stream "\<lparr>pe_payload = [2], pe_terminal = True\<rparr>"]
  by (simp add: demo_stream_def demo_session_def ended_def)

section \<open>The registry keeps sandboxes apart\<close>

definition own_key :: "string \<Rightarrow> process_session \<Rightarrow> bool" where
  "own_key k s \<longleftrightarrow> k = pid_key (se_sandbox_id s) (se_pid s) \<or> (\<exists>t. k = tag_key (se_sandbox_id s) t)"

definition registry_ok :: "process_registry \<Rightarrow> bool" where
  "registry_ok rg \<longleftrightarrow> hm_ok (rg_sessions rg) \<and>
     (\<forall>k r. hm_get (rg_sessions rg) k = Some r \<longrightarrow>
        r < length (rg_heap rg) \<and> own_key k (rg_heap rg ! r) \<and> CHR '':'' \<notin> set (se_sandbox_id (rg_heap rg ! r)))"

lemma key_prefix:
  "own_key k s \<Longrightarrow> CHR '':'' \<notin> set (se_sandbox_id s) \<Longrightarrow> split_once (CHR '':'') k = Some (x, y) \<Longrightarrow> x = se_sandbox_id s"
  by (auto simp: own_key_def pid_key_def tag_key_def split_once_append)

lemma hm_get_filter:
  "hm_ok m \<Longrightarrow> hm_get (filter (\<lambda>(k, r). P k r) m) k = (case hm_get m k of Some r \<Rightarrow> if P k r then Some r else None | None \<Rightarrow> None)"
  by (induction m) (auto simp: hm_get_def hm_ok_def map_of_eq_None_iff image_iff split: option.splits)

lemma registry_okD:
  "registry_ok rg \<Longrightarrow> hm_get (rg_sessions rg) k = Some r \<Longrightarrow>
   r < length (rg_heap rg) \<and> own_key k (rg_heap rg ! r) \<and> CHR '':'' \<notin> set (se_sandbox_id (rg_heap rg ! r))"
  by (simp add: registry_ok_def)

lemma registry_key_owner:
  assumes "registry_ok rg" and "hm_get (rg_sessions rg) (i @ CHR '':'' # y) = Some r" and "CHR '':'' \<notin> set i"
  shows "se_sandbox_id (rg_heap rg ! r) = i"
  using registry_okD [OF assms(1,2)] key_prefix [of "i @ CHR '':'' # y" "rg_heap rg ! r" i y] split_once_append [OF assms(3)] by simp

lemma registry_create_ok:
  assumes "registry_ok rg" and "CHR '':'' \<notin> set i"
  shows "registry_ok (fst (registry_create i pid c tag g pty rg))"
  using assms
  by (cases tag) (auto simp: registry_ok_def registry_create_def Let_def nth_append own_key_def less_Suc_eq split: if_splits)

lemma remove_sandbox_get:
  assumes "registry_ok rg"
  shows "hm_get (rg_sessions (remove_sandbox i rg)) k =
    (case hm_get (rg_sessions rg) k of Some r \<Rightarrow> if se_sandbox_id (rg_heap rg ! r) \<noteq> i then Some r else None | None \<Rightarrow> None)"
  using assms hm_get_filter [of "rg_sessions rg" "\<lambda>k r. se_sandbox_id (rg_heap rg ! r) \<noteq> i" k]
  by (simp add: remove_sandbox_def registry_ok_def)

lemma remove_sandbox_ok:
  assumes "registry_ok rg"
  shows "registry_ok (remove_sandbox i rg)"
proof -
  have "hm_ok (rg_sessions (remove_sandbox i rg))"
    using assms by (auto simp: registry_ok_def remove_sandbox_def hm_ok_def distinct_map_filter)
  moreover have "rg_heap (remove_sandbox i rg) = rg_heap rg" by (simp add: remove_sandbox_def)
  ultimately show ?thesis
    unfolding registry_ok_def [of "remove_sandbox i rg"] remove_sandbox_get [OF assms]
    using registry_okD [OF assms] by (auto split: option.splits if_splits)
qed

lemma publish_session [simp]:
  "se_sandbox_id (publish ev s) = se_sandbox_id s" "se_pid (publish ev s) = se_pid s"
  by (simp_all add: publish_def push_event_def send_event_def)

lemma publish_at_ok:
  assumes "registry_ok rg"
  shows "registry_ok (publish_at r ev rg)"
proof -
  have "se_sandbox_id (rg_heap (publish_at r ev rg) ! q) = se_sandbox_id (rg_heap rg ! q)"
    "se_pid (rg_heap (publish_at r ev rg) ! q) = se_pid (rg_heap rg ! q)" if "q < length (rg_heap rg)" for q
    using that by (cases "q = r"; simp add: publish_at_def)+
  moreover have "rg_sessions (publish_at r ev rg) = rg_sessions rg" "length (rg_heap (publish_at r ev rg)) = length (rg_heap rg)"
    by (simp_all add: publish_at_def)
  ultimately show ?thesis using assms by (auto simp: registry_ok_def own_key_def)
qed

text \<open>The registry keeps the processes of different sandboxes apart. Starting a process, publishing an event and removing a
  sandbox keep every key pointing to a session of the sandbox that the key names (sandbox identifiers have no colon); a
  lookup by number or by tag therefore finds only sessions of the sandbox asked for, and removing a sandbox takes away
  exactly the sessions of that sandbox.\<close>

lemma registry_separates:
  assumes "registry_ok rg" and "CHR '':'' \<notin> set i"
  shows "registry_ok (fst (registry_create i pid c tag g pty rg)) \<and> registry_ok (publish_at r ev rg) \<and> registry_ok (remove_sandbox j rg)
    \<and> (registry_get i pid rg = Some q \<or> registry_get_by_tag i t rg = Some q \<longrightarrow> se_sandbox_id (rg_heap rg ! q) = i)
    \<and> registry_get i pid (remove_sandbox i rg) = None \<and> registry_get_by_tag i t (remove_sandbox i rg) = None
    \<and> (j \<noteq> i \<longrightarrow> registry_get i pid (remove_sandbox j rg) = registry_get i pid rg)"
proof -
  have o: "registry_get i pid rg = Some q \<Longrightarrow> se_sandbox_id (rg_heap rg ! q) = i"
      "registry_get_by_tag i t rg = Some q \<Longrightarrow> se_sandbox_id (rg_heap rg ! q) = i" for q
    using registry_key_owner [OF assms(1) _ assms(2), of _ q]
    by (auto simp: registry_get_def registry_get_by_tag_def pid_key_def tag_key_def)
  then have "registry_get i pid (remove_sandbox i rg) = None" "registry_get_by_tag i t (remove_sandbox i rg) = None"
    "j \<noteq> i \<Longrightarrow> registry_get i pid (remove_sandbox j rg) = registry_get i pid rg"
    by (auto simp: registry_get_def registry_get_by_tag_def remove_sandbox_get [OF assms(1)] split: option.splits)
  with o show ?thesis using registry_create_ok [OF assms] publish_at_ok [OF assms(1)] remove_sandbox_ok [OF assms(1)] by blast
qed

lemma registry_separates_witness:
  "let rg = fst (registry_create ''a'' 1 (se_config (demo_session [])) (Some ''t'') ''g'' False registry_new)
   in registry_ok rg \<and> registry_get ''a'' 1 (remove_sandbox ''a'' rg) = None"
proof -
  have "registry_ok registry_new" by (simp add: registry_ok_def registry_new_def)
  then have "registry_ok (fst (registry_create ''a'' 1 (se_config (demo_session [])) (Some ''t'') ''g'' False registry_new))"
    using registry_separates [of registry_new "''a''"] by simp
  then show ?thesis using registry_separates [of _ "''a''" 1] by simp
qed

end
