(* ===== verification/App_State.thy ===== *)
theory App_State
  imports Result_State Admission Warm_Pool Firewall Auth Store_Contract Control_Plane Process_Sessions
begin

text \<open>
  \<open>crates/clouisle-api/src/state.rs\<close>: the state that every handler of the service shares, and the
  operations on it that do not belong to one handler. The components of the state are those
  of the other theories. What lies outside the program is the record \<open>app_env\<close>: the store
  in use, the semaphores, the clock, fresh identifiers, the virtual machine backend and the
  guest agent, whose calls change the world and answer; a call under \<open>tokio::time::timeout\<close> answers
  \<open>None\<close> when the deadline passes. A spawned task is kept in \<open>ap_jobs\<close> until it runs.
\<close>

section \<open>Faults\<close>

text \<open>A handler ends with an error of the program, or its task panics.\<close>

datatype fault = Raised clouisle_error | Panicked

definition show_int :: "int \<Rightarrow> string" where
  "show_int n = (if n < 0 then CHR ''-'' # show_nat (nat (- n)) else show_nat (nat n))"

section \<open>The environment\<close>

text \<open>The methods of the store trait that concern executions and nodes.\<close>

record 's record_ops =
  ro_save_execution :: "execution_record \<Rightarrow> 's \<Rightarrow> 's \<times> (unit, store_error) result"
  ro_get_execution :: "string \<Rightarrow> 's \<Rightarrow> (execution_record, store_error) result"
  ro_list_executions :: "string \<Rightarrow> 's \<Rightarrow> (execution_record list, store_error) result"
  ro_upsert_node :: "registered_node \<Rightarrow> 's \<Rightarrow> 's \<times> (unit, store_error) result"
  ro_list_ready_nodes :: "int \<Rightarrow> 's \<Rightarrow> (registered_node list, store_error) result"

record listed_file =
  lf_name :: string
  lf_size :: u64
  lf_mode :: u32
  lf_mtime :: int
  lf_is_dir :: bool

text \<open>A connection to a guest is a number; \<open>'w\<close> is the world outside the program.\<close>

record ('s, 'q, 'f, 'w) app_env =
  ae_store :: "'s store_ops"
  ae_records :: "'s record_ops"
  ae_sem :: "'q semaphore_ops"
  ae_cp :: "'f cp_env"
  ae_net :: "'w net_env"
  ae_hash64 :: "u16 \<times> u32 \<times> u32 \<times> u32 option \<Rightarrow> u64"
  ae_add_secs :: "time \<Rightarrow> int \<Rightarrow> time option"
  ae_millis :: "time \<Rightarrow> int"
  ae_now :: "'w \<Rightarrow> 'w \<times> time"
  ae_uuid :: "'w \<Rightarrow> 'w \<times> string"
  ae_fresh :: "'w \<Rightarrow> 'w \<times> fresh"
  ae_utf8_lossy :: "byte list \<Rightarrow> string"
  ae_debug_errors :: "field_error list \<Rightarrow> string"
  ae_manage_resources :: bool
  ae_manage_network :: bool
  ae_capabilities :: vmm_capabilities
  ae_detached_warm_pool :: bool
  ae_admin_token :: "string option"
  ae_image_cache_hit :: "sandbox_spec \<Rightarrow> 'w \<Rightarrow> 'w \<times> (bool, clouisle_error) result"
  ae_prefetch_image :: "sandbox_spec \<Rightarrow> 'w \<Rightarrow> 'w \<times> (unit, clouisle_error) result option"
  ae_vm_create :: "string \<Rightarrow> sandbox_spec \<Rightarrow> 'w \<Rightarrow> 'w \<times> (vm_handle, clouisle_error) result option"
  ae_prefetch_unbounded :: "sandbox_spec \<Rightarrow> 'w \<Rightarrow> 'w \<times> (unit, clouisle_error) result"
  ae_vm_create_unbounded :: "string \<Rightarrow> sandbox_spec \<Rightarrow> 'w \<Rightarrow> 'w \<times> (vm_handle, clouisle_error) result"
  ae_vm_create_in_subnet :: "string \<Rightarrow> sandbox_spec \<Rightarrow> u16 \<times> u16 \<Rightarrow> 'w \<Rightarrow> 'w \<times> (vm_handle, clouisle_error) result"
  ae_vm_restore :: "string \<Rightarrow> sandbox_spec \<Rightarrow> snapshot_paths \<Rightarrow> 'w \<Rightarrow> 'w \<times> (vm_handle, clouisle_error) result option"
  ae_vm_start :: "vm_handle \<Rightarrow> 'w \<Rightarrow> 'w \<times> (unit, clouisle_error) result"
  ae_vm_stop :: "vm_handle \<Rightarrow> stop_mode \<Rightarrow> 'w \<Rightarrow> 'w \<times> (unit, clouisle_error) result"
  ae_vm_pause :: "vm_handle \<Rightarrow> 'w \<Rightarrow> 'w \<times> (unit, clouisle_error) result"
  ae_vm_resume :: "vm_handle \<Rightarrow> 'w \<Rightarrow> 'w \<times> (unit, clouisle_error) result"
  ae_vm_probe :: "vm_handle \<Rightarrow> 'w \<Rightarrow> 'w \<times> (bool, clouisle_error) result"
  ae_vm_snapshot :: "vm_handle \<Rightarrow> snapshot_paths \<Rightarrow> 'w \<Rightarrow> 'w \<times> (unit, clouisle_error) result"
  ae_create_dir_all :: "string \<Rightarrow> 'w \<Rightarrow> 'w \<times> (unit, string) result"
  ae_remove_file :: "string \<Rightarrow> 'w \<Rightarrow> 'w \<times> (unit, string) result"
  ae_hello :: "vm_handle \<Rightarrow> string \<Rightarrow> 'w \<Rightarrow> 'w \<times> (nat, clouisle_error) result"
  ae_hello_within :: "nat \<Rightarrow> vm_handle \<Rightarrow> string \<Rightarrow> 'w \<Rightarrow> 'w \<times> (nat, clouisle_error) result option"
  ae_probe_guest :: "vm_handle \<Rightarrow> string \<Rightarrow> 'w \<Rightarrow> 'w \<times> (unit, clouisle_error) result option"
  ae_ping :: "nat \<Rightarrow> 'w \<Rightarrow> 'w \<times> (unit, clouisle_error) result"
  ae_apply_limits :: "nat \<Rightarrow> u32 option \<Rightarrow> 'w \<Rightarrow> 'w \<times> (unit, clouisle_error) result"
  ae_exec :: "nat \<Rightarrow> string list \<Rightarrow> (string, string) hashmap \<Rightarrow> string option \<Rightarrow> u64 \<Rightarrow> 'w
    \<Rightarrow> 'w \<times> (execution_result, clouisle_error) result"
  ae_write_file :: "nat \<Rightarrow> string \<Rightarrow> byte list \<Rightarrow> u32 \<Rightarrow> 'w \<Rightarrow> 'w \<times> (unit, clouisle_error) result"
  ae_read_file :: "nat \<Rightarrow> string \<Rightarrow> 'w \<Rightarrow> 'w \<times> (byte list, clouisle_error) result"
  ae_list_dir :: "nat \<Rightarrow> string \<Rightarrow> 'w \<Rightarrow> 'w \<times> (listed_file list, clouisle_error) result"
  ae_codec :: event_codec
  ae_base64_decode :: "string \<Rightarrow> (byte list, string) result"
  ae_start_process :: "nat \<Rightarrow> string list \<Rightarrow> (string, string) hashmap \<Rightarrow> string option \<Rightarrow> u64 \<Rightarrow> bool \<Rightarrow> pty_config option \<Rightarrow> 'w
    \<Rightarrow> 'w \<times> (string, clouisle_error) result"
  ae_process_events :: "nat \<Rightarrow> string \<Rightarrow> 'w \<Rightarrow> 'w \<times> exec_stream_event list \<times> (unit, clouisle_error) result"
  ae_send_stdin :: "nat \<Rightarrow> string \<Rightarrow> byte list \<Rightarrow> 'w \<Rightarrow> 'w \<times> (unit, clouisle_error) result"
  ae_close_stdin :: "nat \<Rightarrow> string \<Rightarrow> 'w \<Rightarrow> 'w \<times> (unit, clouisle_error) result"
  ae_send_signal :: "nat \<Rightarrow> string \<Rightarrow> process_signal \<Rightarrow> 'w \<Rightarrow> 'w \<times> (unit, clouisle_error) result"
  ae_resize_pty :: "nat \<Rightarrow> string \<Rightarrow> u16 \<Rightarrow> u16 \<Rightarrow> 'w \<Rightarrow> 'w \<times> (unit, clouisle_error) result"

section \<open>The state\<close>

record image_prefetch_job =
  ij_job_id :: string
  ij_image :: image_ref
  ij_tenant_id :: string
  ij_status :: string
  ij_error :: "string option"

record warm_snapshot =
  ws_pool_key :: string
  ws_paths :: snapshot_paths
  ws_subnet :: "u16 \<times> u16"
  ws_owner :: "string option"

text \<open>A spawned task: what a closure passed to \<open>tokio::spawn\<close> has captured.\<close>

datatype job =
    ProvisionJob sandbox "resources option" "pool_slot option"
  | RecoverJob sandbox "resources option"
  | CloneJob sandbox "resources option" snapshot_paths "(u16 \<times> u16) option"
  | BuildJob string build_record
  | PumpJob nat nat string
  | PrefetchJob string image_ref

record ('s, 'q, 'f, 'w) app =
  ap_store :: 's
  ap_e2b :: "'f plane"
  ap_auth :: authenticator
  ap_pool :: "'q resource_pool"
  ap_warm_pool :: pool_inner
  ap_warm_slots :: "(string, pool_slot) hashmap"
  ap_reservations :: "(string, resources) hashmap"
  ap_image_jobs :: "(string, image_prefetch_job) hashmap"
  ap_e2b_tokens :: "(string, string \<times> string) hashmap"
  ap_snapshots :: "warm_snapshot list"
  ap_subnet_next :: "u16 \<times> u16"
  ap_provisioning :: "string list"
  ap_draining :: bool
  ap_firewall :: firewall
  ap_processes :: process_registry
  ap_next_pid :: u32
  ap_jobs :: "job list"
  ap_world :: 'w

type_synonym ('s, 'q, 'f, 'w, 'a) app_comp = "(('s, 'q, 'f, 'w) app, 'a, fault) comp"

section \<open>Calls\<close>

definition raise :: "clouisle_error \<Rightarrow> ('s, 'q, 'f, 'w, 'a) app_comp" where
  "raise e = throw (Raised e)"

definition raised :: "('a, clouisle_error) result \<Rightarrow> ('a, fault) result" where
  "raised r = map_sum Raised id r"

definition world :: "('w \<Rightarrow> 'w \<times> 'a) \<Rightarrow> ('s, 'q, 'f, 'w, 'a) app_comp" where
  "world f st = (case f (ap_world st) of (w', a) \<Rightarrow> (st\<lparr>ap_world := w'\<rparr>, Ok a))"

definition call :: "('w \<Rightarrow> 'w \<times> ('a, clouisle_error) result) \<Rightarrow> ('s, 'q, 'f, 'w, 'a) app_comp" where
  "call f = and_then (world f) (\<lambda>r. lift_result (raised r))"

text \<open>A call under a deadline, and the error made when the deadline passes.\<close>

definition call_within ::
  "string \<Rightarrow> ('w \<Rightarrow> 'w \<times> ('a, clouisle_error) result option) \<Rightarrow> ('s, 'q, 'f, 'w, 'a) app_comp" where
  "call_within msg f =
     and_then (world f) (\<lambda>r. case r of Some x \<Rightarrow> lift_result (raised x) | None \<Rightarrow> raise (timeout_error msg))"

text \<open>\<open>let _ = ...\<close>: the answer of a call is not used.\<close>

definition ignore :: "('s, 'q, 'f, 'w, 'a) app_comp \<Rightarrow> ('s, 'q, 'f, 'w, unit) app_comp" where
  "ignore m st = (fst (m st), Ok ())"

definition store_get :: "('s, 'q, 'f, 'w) app_env \<Rightarrow> string \<Rightarrow> ('s, 'q, 'f, 'w, sandbox) app_comp" where
  "store_get env i =
     and_then (world (ae_now env)) (\<lambda>now st. (st, raised (map_sum from_store_error id (so_get (ae_store env) now i (ap_store st)))))"

definition store_write ::
  "('s \<Rightarrow> 's \<times> ('a, store_error) result) \<Rightarrow> ('s, 'q, 'f, 'w, 'a) app_comp" where
  "store_write f st =
     (case f (ap_store st) of (s', r) \<Rightarrow> (st\<lparr>ap_store := s'\<rparr>, raised (map_sum from_store_error id r)))"

definition store_update ::
  "('s, 'q, 'f, 'w) app_env \<Rightarrow> string \<Rightarrow> sb_update \<Rightarrow> ('s, 'q, 'f, 'w, unit) app_comp" where
  "store_update env i u = and_then (world (ae_now env)) (\<lambda>now. store_write (so_update (ae_store env) now i u))"

definition store_list ::
  "('s, 'q, 'f, 'w) app_env \<Rightarrow> sandbox_status option \<Rightarrow> ('s, 'q, 'f, 'w, sandbox list) app_comp" where
  "store_list env flt =
     and_then (world (ae_now env))
       (\<lambda>now st. (st, raised (map_sum from_store_error id (so_list (ae_store env) now flt (ap_store st)))))"

section \<open>Reservations\<close>

text \<open>A reservation that leaves the map or goes out of scope is dropped, which gives its
  permits back. Inserting over an entry drops the old one.\<close>

definition drop_reservation ::
  "('s, 'q, 'f, 'w) app_env \<Rightarrow> resources option \<Rightarrow> ('s, 'q, 'f, 'w) app \<Rightarrow> ('s, 'q, 'f, 'w) app" where
  "drop_reservation env r st =
     (case r of None \<Rightarrow> st | Some x \<Rightarrow> st\<lparr>ap_pool := reservation_drop (ae_sem env) x (ap_pool st)\<rparr>)"

definition keep_reservation ::
  "('s, 'q, 'f, 'w) app_env \<Rightarrow> string \<Rightarrow> resources \<Rightarrow> ('s, 'q, 'f, 'w) app \<Rightarrow> ('s, 'q, 'f, 'w) app" where
  "keep_reservation env i r st =
     drop_reservation env (hm_get (ap_reservations st) i) (st\<lparr>ap_reservations := hm_insert i r (ap_reservations st)\<rparr>)"

definition remove_reservation ::
  "('s, 'q, 'f, 'w) app_env \<Rightarrow> string \<Rightarrow> ('s, 'q, 'f, 'w) app \<Rightarrow> ('s, 'q, 'f, 'w) app" where
  "remove_reservation env i st =
     drop_reservation env (hm_get (ap_reservations st) i) (st\<lparr>ap_reservations := hm_remove i (ap_reservations st)\<rparr>)"

definition admit_spec ::
  "('s, 'q, 'f, 'w) app_env \<Rightarrow> sandbox_spec \<Rightarrow> ('s, 'q, 'f, 'w, resources) app_comp" where
  "admit_spec env sp st =
     (case admit (ae_sem env) (ap_pool st) sp of (p', r) \<Rightarrow> (st\<lparr>ap_pool := p'\<rparr>, raised r))"

section \<open>Warm slots and snapshots\<close>

definition acquire_slot ::
  "('s, 'q, 'f, 'w) app_env \<Rightarrow> sandbox_spec \<Rightarrow> ('s, 'q, 'f, 'w, pool_slot option) app_comp" where
  "acquire_slot env sp =
     and_then (world (ae_now env)) (\<lambda>now st.
       case acquire now (pool_key (ae_hash64 env) sp) (ap_warm_pool st) of (g', r) \<Rightarrow> (st\<lparr>ap_warm_pool := g'\<rparr>, Ok r))"

definition stop_vm :: "('s, 'q, 'f, 'w) app_env \<Rightarrow> vm_handle \<Rightarrow> ('s, 'q, 'f, 'w, unit) app_comp" where
  "stop_vm env h = ignore (world (ae_vm_stop env h Force))"

definition discard_slot :: "('s, 'q, 'f, 'w) app_env \<Rightarrow> pool_slot \<Rightarrow> ('s, 'q, 'f, 'w, unit) app_comp" where
  "discard_slot env slot st =
     (case discard (ps_id slot) (ap_warm_pool st) of (g', r, stopped) \<Rightarrow>
        fold (\<lambda>h m. and_then (stop_vm env h) (\<lambda>_. m)) stopped (ok ()) (st\<lparr>ap_warm_pool := g'\<rparr>))"

definition release_slot :: "('s, 'q, 'f, 'w) app_env \<Rightarrow> pool_slot \<Rightarrow> ('s, 'q, 'f, 'w, unit) app_comp" where
  "release_slot env slot =
     and_then (world (ae_now env)) (\<lambda>now st.
       case release now (ps_id slot) (ap_warm_pool st) of (g', r) \<Rightarrow> (st\<lparr>ap_warm_pool := g'\<rparr>, Ok ()))"

text \<open>Takes the slot of a sandbox out of the map and discards it.\<close>

definition discard_warm :: "('s, 'q, 'f, 'w) app_env \<Rightarrow> string \<Rightarrow> ('s, 'q, 'f, 'w, unit) app_comp" where
  "discard_warm env i st =
     (case hm_get (ap_warm_slots st) i of
        None \<Rightarrow> (st, Ok ())
      | Some slot \<Rightarrow> discard_slot env slot (st\<lparr>ap_warm_slots := hm_remove i (ap_warm_slots st)\<rparr>))"

definition claim_snapshot ::
  "string \<Rightarrow> string \<Rightarrow> ('s, 'q, 'f, 'w, (snapshot_paths \<times> u16 \<times> u16) option) app_comp" where
  "claim_snapshot key i st =
     (case position (\<lambda>s. ws_pool_key s = key \<and> ws_owner s = None) (ap_snapshots st) of
        None \<Rightarrow> (st, Ok None)
      | Some pos \<Rightarrow>
          (let snap = ap_snapshots st ! pos
           in (st\<lparr>ap_snapshots := (ap_snapshots st)[pos := snap\<lparr>ws_owner := Some i\<rparr>]\<rparr>,
               Ok (Some (ws_paths snap, ws_subnet snap)))))"

definition release_snapshot :: "string \<Rightarrow> ('s, 'q, 'f, 'w) app \<Rightarrow> ('s, 'q, 'f, 'w) app" where
  "release_snapshot i st =
     st\<lparr>ap_snapshots := map (\<lambda>s. if ws_owner s = Some i then s\<lparr>ws_owner := None\<rparr> else s) (ap_snapshots st)\<rparr>"

section \<open>The firewall\<close>

definition net_create ::
  "('s, 'q, 'f, 'w) app_env \<Rightarrow> string \<Rightarrow> (u16 \<times> u16) option \<Rightarrow> ('s, 'q, 'f, 'w, unit) app_comp" where
  "net_create env i subnet =
     (if ae_manage_network env then and_then (call (create_network_in_subnet (ae_net env) i subnet)) (\<lambda>_. ok ()) else ok ())"

definition net_teardown ::
  "('s, 'q, 'f, 'w) app_env \<Rightarrow> string \<Rightarrow> (u16 \<times> u16) option \<Rightarrow> ('s, 'q, 'f, 'w, unit) app_comp" where
  "net_teardown env i subnet st =
     (if ae_manage_network env then
        (case teardown_sandbox_network (ae_net env) i subnet (ap_firewall st) (ap_world st) of (fw', w') \<Rightarrow>
           (st\<lparr>ap_firewall := fw', ap_world := w'\<rparr>, Ok ()))
      else (st, Ok ()))"

definition net_setup ::
  "('s, 'q, 'f, 'w) app_env \<Rightarrow> sandbox \<Rightarrow> (u16 \<times> u16) option \<Rightarrow> ('s, 'q, 'f, 'w, unit) app_comp" where
  "net_setup env sb subnet st =
     (if ae_manage_network env then
        (let net = sp_network (sb_spec sb);
             gateway = (case subnet of Some ab \<Rightarrow> subnet_prefix ab @ ''.1/30''
                                     | None \<Rightarrow> gateway_ip (ae_net env) (sb_id sb) @ ''/30'');
             allow = (if nc_enabled net then nc_allow_egress net else [])
         in case setup_sandbox_network (ae_net env) (sb_id sb) gateway allow (nc_deny_egress net)
                   (bandwidth_mbps (sp_resources (sb_spec sb))) (ap_firewall st) (ap_world st) of
              (fw', w', r) \<Rightarrow> (st\<lparr>ap_firewall := fw', ap_world := w'\<rparr>, raised r))
      else (st, Ok ()))"

section \<open>Access tokens and image jobs\<close>

definition e2b_call ::
  "('f plane \<Rightarrow> 'f plane \<times> ('a, control_plane_error) result)
   \<Rightarrow> ('s, 'q, 'f, 'w, ('a, control_plane_error) result) app_comp" where
  "e2b_call f st = (case f (ap_e2b st) of (p', r) \<Rightarrow> (st\<lparr>ap_e2b := p'\<rparr>, Ok r))"

definition ensure_e2b_access_token ::
  "('s, 'q, 'f, 'w) app_env \<Rightarrow> string \<Rightarrow> string \<Rightarrow> ('s, 'q, 'f, 'w, string) app_comp" where
  "ensure_e2b_access_token env i tenant st =
     (case hm_get (ap_e2b_tokens st) i of
        Some (_, token) \<Rightarrow> (st, Ok token)
      | None \<Rightarrow>
          and_then (world (ae_fresh env)) (\<lambda>fr.
          and_then (e2b_call (create_access_token (ae_cp env) fr tenant (''sandbox-'' @ i))) (\<lambda>r.
          case r of
            Err e \<Rightarrow> raise (internal_error (control_plane_error_text e))
          | Ok c \<Rightarrow>
              and_then (modify (\<lambda>st. st\<lparr>ap_e2b_tokens := hm_insert i (kc_id c, kc_secret c) (ap_e2b_tokens st)\<rparr>))
                (\<lambda>_. ok (kc_secret c)))) st)"

definition remove_e2b_access_token ::
  "('s, 'q, 'f, 'w) app_env \<Rightarrow> string \<Rightarrow> string \<Rightarrow> ('s, 'q, 'f, 'w, unit) app_comp" where
  "remove_e2b_access_token env i tenant st =
     (case hm_get (ap_e2b_tokens st) i of
        None \<Rightarrow> (st, Ok ())
      | Some (tid, _) \<Rightarrow>
          and_then (world (ae_fresh env)) (\<lambda>fr.
            ignore (e2b_call (delete_access_token (ae_cp env) fr tenant tid)))
          (st\<lparr>ap_e2b_tokens := hm_remove i (ap_e2b_tokens st)\<rparr>))"

definition insert_image_job :: "image_prefetch_job \<Rightarrow> ('s, 'q, 'f, 'w) app \<Rightarrow> ('s, 'q, 'f, 'w) app" where
  "insert_image_job j st = st\<lparr>ap_image_jobs := hm_insert (ij_job_id j) j (ap_image_jobs st)\<rparr>"

definition update_image_job ::
  "string \<Rightarrow> string \<Rightarrow> string option \<Rightarrow> ('s, 'q, 'f, 'w) app \<Rightarrow> ('s, 'q, 'f, 'w) app" where
  "update_image_job i status err st =
     (case hm_get (ap_image_jobs st) i of
        None \<Rightarrow> st
      | Some j \<Rightarrow> st\<lparr>ap_image_jobs := hm_insert i (j\<lparr>ij_status := status, ij_error := err\<rparr>) (ap_image_jobs st)\<rparr>)"

definition get_image_job :: "string \<Rightarrow> ('s, 'q, 'f, 'w) app \<Rightarrow> image_prefetch_job option" where
  "get_image_job i st = hm_get (ap_image_jobs st) i"

text \<open>A call of the control plane inside a handler: its error is turned into one of the service.\<close>

fun from_control_error :: "control_plane_error \<Rightarrow> clouisle_error" where
  "from_control_error (CpNotFound m) = not_found m"
| "from_control_error (CpConflict m) = invalid_state m"
| "from_control_error (CpValidation m) = validation_error m"
| "from_control_error (CpPersistence m) = new_error EkStore m"

definition plane_read :: "('f plane \<Rightarrow> ('a, control_plane_error) result) \<Rightarrow> ('s, 'q, 'f, 'w, 'a) app_comp" where
  "plane_read f st = (st, raised (map_sum from_control_error id (f (ap_e2b st))))"

definition plane_call ::
  "('f plane \<Rightarrow> 'f plane \<times> ('a, control_plane_error) result) \<Rightarrow> ('s, 'q, 'f, 'w, 'a) app_comp" where
  "plane_call f = and_then (e2b_call f) (\<lambda>r. lift_result (raised (map_sum from_control_error id r)))"

section \<open>Warming a snapshot\<close>

definition snapshot_files :: "string \<Rightarrow> snapshot_paths" where
  "snapshot_files i = \<lparr>sp_state_path = ''/data/e2b/snapshots/'' @ i @ ''/state.bin'',
     sp_mem_path = ''/data/e2b/snapshots/'' @ i @ ''/mem.bin''\<rparr>"

definition allocate_subnet :: "('s, 'q, 'f, 'w, u16 \<times> u16) app_comp" where
  "allocate_subnet st = (case allocate (ap_subnet_next st) of (n', r) \<Rightarrow> (st\<lparr>ap_subnet_next := n'\<rparr>, Ok r))"

definition create_snapshot_dir :: "('s, 'q, 'f, 'w) app_env \<Rightarrow> string \<Rightarrow> ('s, 'q, 'f, 'w, unit) app_comp" where
  "create_snapshot_dir env i =
     and_then (world (ae_create_dir_all env (''/data/e2b/snapshots/'' @ i)))
       (\<lambda>r. case r of Ok _ \<Rightarrow> ok () | Err e \<Rightarrow> raise (io_error (''create snapshot dir: '' @ e)))"

definition take_snapshot ::
  "('s, 'q, 'f, 'w) app_env \<Rightarrow> string \<Rightarrow> string \<Rightarrow> u16 \<times> u16 \<Rightarrow> vm_handle \<Rightarrow> ('s, 'q, 'f, 'w, unit) app_comp" where
  "take_snapshot env key i subnet h =
     and_then (world (ae_vm_snapshot env h (snapshot_files i))) (\<lambda>r.
     and_then (stop_vm env h) (\<lambda>_.
     and_then (net_teardown env i (vh_subnet h)) (\<lambda>_.
     and_then (lift_result (raised r)) (\<lambda>_.
     modify (\<lambda>st. st\<lparr>ap_snapshots := ap_snapshots st @
       [\<lparr>ws_pool_key = key, ws_paths = snapshot_files i, ws_subnet = subnet, ws_owner = None\<rparr>]\<rparr>)))))"

definition warm_snapshot_for ::
  "('s, 'q, 'f, 'w) app_env \<Rightarrow> sandbox_spec \<Rightarrow> ('s, 'q, 'f, 'w, unit) app_comp" where
  "warm_snapshot_for env sp st =
     (let key = pool_key (ae_hash64 env) sp in
      if \<exists>s\<in>set (ap_snapshots st). ws_pool_key s = key \<and> ws_owner s = None then (st, Ok ())
      else
        and_then allocate_subnet (\<lambda>subnet.
        and_then (world (ae_uuid env)) (\<lambda>i.
        and_then (net_create env i (Some subnet)) (\<lambda>_.
        and_then (call (ae_vm_create_in_subnet env i sp subnet)) (\<lambda>h.
        and_then (call (ae_vm_start env h)) (\<lambda>_.
        and_then (if ae_manage_network env then call (attach_tap (ae_net env) i) else ok ()) (\<lambda>_.
        and_then (call_within ''snapshot warm hello timed out'' (ae_hello_within env 30 h i)) (\<lambda>conn.
        and_then (call (ae_ping env conn)) (\<lambda>_.
        and_then (call (ae_vm_pause env h)) (\<lambda>_.
        and_then (create_snapshot_dir env i) (\<lambda>_.
        take_snapshot env key i subnet h)))))))))) st)"

end
