(* ===== verification/Provisioning.thy ===== *)
theory Provisioning
  imports App_State
begin

text \<open>
  \<open>crates/clouisle-api/src/handlers/sandbox.rs\<close>, the provisioning of a sandbox: from an admitted record in
  the store to a running machine whose agent has answered. Every step that can fail is
  followed by \<open>mark_failed\<close>, as in the source; the reservation travels with the task and is
  dropped when the task ends without keeping it.
\<close>

section \<open>Guest files\<close>

text \<open>On Unix a path has a component \<open>..\<close> when one of its parts between slashes is that text.\<close>

definition validate_path :: "string \<Rightarrow> (unit, clouisle_error) result" where
  "validate_path path =
     (if path = [] then Err (validation_error ''path is required'')
      else if has_dotdot path then Err (validation_error ''path traversal is not allowed'')
      else Ok ())"

fun materialize_secrets ::
  "('s, 'q, 'f, 'w) app_env \<Rightarrow> nat \<Rightarrow> secret_spec list \<Rightarrow> ('s, 'q, 'f, 'w, unit) app_comp" where
  "materialize_secrets env conn [] = ok ()"
| "materialize_secrets env conn (s # ss) =
     and_then (call (ae_write_file env conn (''/run/secrets/'' @ ss_name s) (as_bytes (ss_value s)) 384))
       (\<lambda>_. materialize_secrets env conn ss)"

definition mount_target :: "string \<Rightarrow> string \<Rightarrow> string" where
  "mount_target target path =
     (let relative = trim_start_matches (CHR ''/'') path
      in if relative = [] then target else trim_end_matches (CHR ''/'') target @ ''/'' @ relative)"

fun write_mounted ::
  "('s, 'q, 'f, 'w) app_env \<Rightarrow> nat \<Rightarrow> string \<Rightarrow> (string \<times> volume_file_record) list \<Rightarrow> ('s, 'q, 'f, 'w, unit) app_comp" where
  "write_mounted env conn target [] = ok ()"
| "write_mounted env conn target ((path, file) # fs) =
     and_then (lift_result (raised (validate_path (mount_target target path)))) (\<lambda>_.
     and_then (call (ae_write_file env conn (mount_target target path) (vf_content file) (vf_mode file))) (\<lambda>_.
     write_mounted env conn target fs))"

fun materialize_volume_mounts ::
  "('s, 'q, 'f, 'w) app_env \<Rightarrow> nat \<Rightarrow> string \<Rightarrow> volume_mount_spec list \<Rightarrow> ('s, 'q, 'f, 'w, unit) app_comp" where
  "materialize_volume_mounts env conn tenant [] = ok ()"
| "materialize_volume_mounts env conn tenant (m # ms) =
     and_then (lift_result (raised (validate_path (vm_target m)))) (\<lambda>_.
     and_then (\<lambda>st. (st, case volume_by_name tenant (vm_name m) (ap_e2b st) of
                 Ok v \<Rightarrow> Ok v | Err e \<Rightarrow> Err (Raised (not_found (control_plane_error_text e))))) (\<lambda>v.
     and_then (write_mounted env conn (vm_target m) (vo_files v)) (\<lambda>_.
     materialize_volume_mounts env conn tenant ms)))"

section \<open>Failure\<close>

definition mark_failed ::
  "('s, 'q, 'f, 'w) app_env \<Rightarrow> string \<Rightarrow> clouisle_error \<Rightarrow> vm_handle option \<Rightarrow> ('s, 'q, 'f, 'w) app \<Rightarrow> ('s, 'q, 'f, 'w) app" where
  "mark_failed env i e h st =
     fst (and_then (ignore (store_update env i (UStatusMessage Error (Some (err_message e))))) (\<lambda>_.
          and_then (case h of Some x \<Rightarrow> stop_vm env x | None \<Rightarrow> ok ()) (\<lambda>_.
          net_teardown env i (Option.bind h vh_subnet))) st)"

text \<open>A step whose error is recorded before the task returns it.\<close>

definition or_fail ::
  "('s, 'q, 'f, 'w) app_env \<Rightarrow> string \<Rightarrow> vm_handle option \<Rightarrow> ('s, 'q, 'f, 'w, 'a) app_comp \<Rightarrow> ('s, 'q, 'f, 'w, 'a) app_comp" where
  "or_fail env i h m st =
     (case m st of
        (st', Err (Raised e)) \<Rightarrow> (mark_failed env i e h st', Err (Raised e))
      | r \<Rightarrow> r)"

section \<open>The steps of provisioning\<close>

text \<open>The snapshot and the subnet that the machine starts from.\<close>

definition claim_source ::
  "('s, 'q, 'f, 'w) app_env \<Rightarrow> sandbox \<Rightarrow> pool_slot option \<Rightarrow> snapshot_paths option \<Rightarrow> (u16 \<times> u16) option
   \<Rightarrow> ('s, 'q, 'f, 'w, snapshot_paths option \<times> (u16 \<times> u16) option) app_comp" where
  "claim_source env sb wslot snapshot subnet =
     (if wslot = None \<and> snapshot = None then
        and_then (claim_snapshot (pool_key (ae_hash64 env) (sb_spec sb)) (sb_id sb))
          (\<lambda>c. case c of Some (paths, ab) \<Rightarrow> ok (Some paths, Some ab) | None \<Rightarrow> ok (snapshot, subnet))
      else ok (snapshot, subnet))"

definition obtain_vm ::
  "('s, 'q, 'f, 'w) app_env \<Rightarrow> sandbox \<Rightarrow> pool_slot option \<Rightarrow> snapshot_paths option \<Rightarrow> ('s, 'q, 'f, 'w, vm_handle) app_comp" where
  "obtain_vm env sb wslot snapshot =
     (case wslot of
        Some slot \<Rightarrow> ok (ps_vm_handle slot)
      | None \<Rightarrow> or_fail env (sb_id sb) None
          (case snapshot of
             Some paths \<Rightarrow> call_within ''snapshot restore timed out after 300s'' (ae_vm_restore env (sb_id sb) (sb_spec sb) paths)
           | None \<Rightarrow> call_within ''image and VMM creation timed out after 300s'' (ae_vm_create env (sb_id sb) (sb_spec sb))))"

definition bind_subnet :: "(u16 \<times> u16) option \<Rightarrow> vm_handle \<Rightarrow> vm_handle" where
  "bind_subnet subnet h = (case subnet of Some ab \<Rightarrow> h\<lparr>vh_subnet := Some ab\<rparr> | None \<Rightarrow> h)"

definition bound_extra :: "(u16 \<times> u16) option \<Rightarrow> sandbox \<Rightarrow> (string, string) hashmap" where
  "bound_extra subnet sb =
     (case subnet of
        Some (a, b) \<Rightarrow> hm_insert ''subnet'' (subnet_text a b) (me_extra (sb_vmm_meta sb))
      | None \<Rightarrow> me_extra (sb_vmm_meta sb))"

text \<open>The metadata and the owner of the machine are written before it starts.\<close>

definition record_vm ::
  "('s, 'q, 'f, 'w) app_env \<Rightarrow> string \<Rightarrow> vm_handle \<Rightarrow> vmm_meta \<Rightarrow> ('s, 'q, 'f, 'w, unit) app_comp" where
  "record_vm env i h meta =
     and_then (or_fail env i (Some h) (store_update env i (UVmmMeta meta))) (\<lambda>_.
     case vh_owner_id h of
       Some owner \<Rightarrow> or_fail env i (Some h) (store_update env i (UNode (Some owner)))
     | None \<Rightarrow> ok ())"

definition hello_timeout_text :: "sandbox \<Rightarrow> string" where
  "hello_timeout_text sb = ''sandbox '' @ sb_id sb @ '' agent hello timeout after ''
     @ show_nat (unat (sp_start_timeout_secs (sb_spec sb))) @ ''s''"

definition exit_error :: "('s, 'q, 'f, 'w) app_env \<Rightarrow> execution_result \<Rightarrow> clouisle_error" where
  "exit_error env r =
     (let stderr = ae_utf8_lossy env (er_stderr r)
      in new_error EkVmm (''initialization command exited with code '' @ show_int (er_exit_code r)
           @ (if stderr = [] then [] else '': '' @ str_trim stderr)))"

definition run_init ::
  "('s, 'q, 'f, 'w) app_env \<Rightarrow> sandbox \<Rightarrow> nat \<Rightarrow> ('s, 'q, 'f, 'w, unit) app_comp" where
  "run_init env sb conn =
     (let sp = sb_spec sb in
      if sp_init_command sp = [] then ok ()
      else and_then (call (ae_exec env conn (sp_init_command sp) (hm_extend (sp_env sp) (sp_init_env sp)) (sp_init_cwd sp)
                             (sp_init_timeout_ms sp)))
             (\<lambda>r. if er_exit_code r \<noteq> 0 then raise (exit_error env r) else ok ()))"

text \<open>The guest is prepared: secrets, limits (whose failure is only logged), volumes, the initial command.\<close>

definition prepare_guest ::
  "('s, 'q, 'f, 'w) app_env \<Rightarrow> sandbox \<Rightarrow> vm_handle \<Rightarrow> nat \<Rightarrow> ('s, 'q, 'f, 'w, unit) app_comp" where
  "prepare_guest env sb h conn =
     and_then (or_fail env (sb_id sb) (Some h) (materialize_secrets env conn (sp_secrets (sb_spec sb)))) (\<lambda>_.
     and_then (ignore (world (ae_apply_limits env conn (pids_max (sp_resources (sb_spec sb)))))) (\<lambda>_.
     and_then (or_fail env (sb_id sb) (Some h) (materialize_volume_mounts env conn
                 (case sp_tenant_id (sb_spec sb) of Some t \<Rightarrow> t | None \<Rightarrow> []) (sp_volume_mounts (sb_spec sb)))) (\<lambda>_.
     or_fail env (sb_id sb) (Some h) (run_init env sb conn))))"

definition transition_now ::
  "('s, 'q, 'f, 'w) app_env \<Rightarrow> sandbox \<Rightarrow> sandbox_event \<Rightarrow> ('s, 'q, 'f, 'w, sandbox) app_comp" where
  "transition_now env sb ev =
     and_then (world (ae_now env)) (\<lambda>now.
       case sandbox_transition (ae_add_secs env) now sb ev of
         None \<Rightarrow> throw Panicked
       | Some r \<Rightarrow> lift_result (raised r))"

text \<open>The record becomes running; the counter of recovery attempts is cleared. The two last
  writes return their error as it is.\<close>

definition finish_provision ::
  "('s, 'q, 'f, 'w) app_env \<Rightarrow> sandbox \<Rightarrow> vm_handle \<Rightarrow> vmm_meta \<Rightarrow> ('s, 'q, 'f, 'w, sandbox) app_comp" where
  "finish_provision env sb h meta =
     and_then (transition_now env sb AgentHello) (\<lambda>sb'.
     and_then (or_fail env (sb_id sb) (Some h) (store_update env (sb_id sb) (UStatusMessage Running None))) (\<lambda>_.
     and_then (store_update env (sb_id sb) (UExpiry (sb_expires_at sb'))) (\<lambda>_.
     if hm_get (me_extra meta) ''recovery_attempts'' \<noteq> None then
       (let meta' = meta\<lparr>me_extra := hm_remove ''recovery_attempts'' (me_extra meta)\<rparr>
        in and_then (store_update env (sb_id sb) (UVmmMeta meta')) (\<lambda>_. ok (sb'\<lparr>sb_vmm_meta := meta'\<rparr>)))
     else ok sb')))"

text \<open>From the record in the store to a guest that is ready: the handle and the metadata of its machine.\<close>

definition boot_sandbox ::
  "('s, 'q, 'f, 'w) app_env \<Rightarrow> sandbox \<Rightarrow> pool_slot option \<Rightarrow> snapshot_paths option \<Rightarrow> (u16 \<times> u16) option
   \<Rightarrow> ('s, 'q, 'f, 'w, vm_handle \<times> vmm_meta) app_comp" where
  "boot_sandbox env sb wslot snapshot0 subnet0 =
     and_then (claim_source env sb wslot snapshot0 subnet0) (\<lambda>(snapshot, subnet).
     and_then (or_fail env (sb_id sb) None (net_create env (sb_id sb) subnet)) (\<lambda>_.
     and_then (obtain_vm env sb wslot snapshot) (\<lambda>h0.
     let h = bind_subnet subnet h0; meta = handle_to_meta h (bound_extra subnet sb); sb1 = sb\<lparr>sb_vmm_meta := meta\<rparr> in
     and_then (record_vm env (sb_id sb) h meta) (\<lambda>_.
     and_then (if wslot = None \<and> snapshot = None then or_fail env (sb_id sb) (Some h) (call (ae_vm_start env h)) else ok ()) (\<lambda>_.
     and_then (or_fail env (sb_id sb) (Some h) (net_setup env sb1 subnet)) (\<lambda>_.
     and_then (or_fail env (sb_id sb) (Some h) (call_within (hello_timeout_text sb1)
                 (ae_hello_within env (unat (sp_start_timeout_secs (sb_spec sb1))) h (sb_id sb)))) (\<lambda>conn.
     and_then (prepare_guest env sb1 h conn) (\<lambda>_.
     ok (h, meta)))))))))"

definition provision_steps ::
  "('s, 'q, 'f, 'w) app_env \<Rightarrow> sandbox \<Rightarrow> pool_slot option \<Rightarrow> snapshot_paths option \<Rightarrow> (u16 \<times> u16) option
   \<Rightarrow> ('s, 'q, 'f, 'w, sandbox) app_comp" where
  "provision_steps env sb wslot snapshot subnet =
     and_then (boot_sandbox env sb wslot snapshot subnet)
       (\<lambda>(h, meta). finish_provision env (sb\<lparr>sb_vmm_meta := meta\<rparr>) h meta)"

section \<open>The task\<close>

definition provision_sandbox ::
  "('s, 'q, 'f, 'w) app_env \<Rightarrow> sandbox \<Rightarrow> resources option \<Rightarrow> pool_slot option \<Rightarrow> snapshot_paths option
   \<Rightarrow> (u16 \<times> u16) option \<Rightarrow> ('s, 'q, 'f, 'w, sandbox) app_comp" where
  "provision_sandbox env sb reservation wslot snapshot subnet st =
     (case provision_steps env sb wslot snapshot subnet st of
        (st', Ok sb') \<Rightarrow>
          ((case reservation of Some r \<Rightarrow> keep_reservation env (sb_id sb) r st' | None \<Rightarrow> st'), Ok sb')
      | (st', Err e) \<Rightarrow> (drop_reservation env reservation st', Err e))"

text \<open>A panic leaves the function without the cleanup; the reservation is dropped all the same.\<close>

definition run_provision_with_slot_and_snapshot ::
  "('s, 'q, 'f, 'w) app_env \<Rightarrow> sandbox \<Rightarrow> resources option \<Rightarrow> pool_slot option \<Rightarrow> snapshot_paths option
   \<Rightarrow> (u16 \<times> u16) option \<Rightarrow> ('s, 'q, 'f, 'w, sandbox) app_comp" where
  "run_provision_with_slot_and_snapshot env sb reservation wslot snapshot subnet st =
     (let i = sb_id sb in
      if i \<in> set (ap_provisioning st) then
        and_then (discard_warm env i) (\<lambda>_. and_then (modify (drop_reservation env reservation)) (\<lambda>_.
          raise (invalid_state (''sandbox '' @ i @ '' already has a provisioning job'')))) st
      else
        (case provision_sandbox env sb reservation wslot snapshot subnet
                (st\<lparr>ap_provisioning := i # ap_provisioning st\<rparr>) of
           (st1, Ok sb') \<Rightarrow> (st1\<lparr>ap_provisioning := removeAll i (ap_provisioning st1)\<rparr>, Ok sb')
         | (st1, Err (Raised e)) \<Rightarrow>
             (let st2 = fst (discard_warm env i (remove_reservation env i st1))
              in (st2\<lparr>ap_provisioning := removeAll i (ap_provisioning st2)\<rparr>, Err (Raised e)))
         | (st1, Err Panicked) \<Rightarrow> (st1, Err Panicked)))"

definition run_provision_with_slot ::
  "('s, 'q, 'f, 'w) app_env \<Rightarrow> sandbox \<Rightarrow> resources option \<Rightarrow> pool_slot option \<Rightarrow> ('s, 'q, 'f, 'w, sandbox) app_comp" where
  "run_provision_with_slot env sb reservation wslot =
     run_provision_with_slot_and_snapshot env sb reservation wslot None None"

definition run_provision ::
  "('s, 'q, 'f, 'w) app_env \<Rightarrow> sandbox \<Rightarrow> resources option \<Rightarrow> ('s, 'q, 'f, 'w, sandbox) app_comp" where
  "run_provision env sb reservation = run_provision_with_slot env sb reservation None"

definition run_provision_from_snapshot ::
  "('s, 'q, 'f, 'w) app_env \<Rightarrow> sandbox \<Rightarrow> resources option \<Rightarrow> snapshot_paths \<Rightarrow> (u16 \<times> u16) option
   \<Rightarrow> ('s, 'q, 'f, 'w, sandbox) app_comp" where
  "run_provision_from_snapshot env sb reservation snapshot subnet =
     run_provision_with_slot_and_snapshot env sb reservation None (Some snapshot) subnet"

end
