(* ===== verification/Template_Builds.thy ===== *)
theory Template_Builds
  imports App_State
begin

text \<open>
  \<open>crates/clouisle-api/src/handlers/e2b_cloud.rs\<close>, \<open>build_image_if_possible\<close>: the task that prepares the image of
  a template, with the slot it asks the warm pool for. The task waits for the backend between two changes of the
  build; \<open>build_begin\<close> is the part before and \<open>build_finish\<close> the part from that call on, so that other requests can
  be put in between.
\<close>

definition field_str :: "string \<Rightarrow> json \<Rightarrow> string option" where
  "field_str key js = Option.bind (json_get key js) json_str"

section \<open>A slot of the warm pool\<close>

definition start_created ::
  "('s, 'q, 'f, 'w) app_env \<Rightarrow> (vm_handle, clouisle_error) result \<Rightarrow> ('s, 'q, 'f, 'w, (unit, clouisle_error) result) app_comp" where
  "start_created env created = (case created of Ok h \<Rightarrow> world (ae_vm_start env h) | Err e \<Rightarrow> ok (Err e))"

definition warm_slot :: "('s, 'q, 'f, 'w) app_env \<Rightarrow> sandbox_spec \<Rightarrow> ('s, 'q, 'f, 'w, pool_slot option) app_comp" where
  "warm_slot env sp =
     and_then (world (ae_now env)) (\<lambda>now.
     and_then (world (ae_uuid env)) (\<lambda>u.
     and_then (world (ae_vm_create_unbounded env (slot_id sp (uuid_simple u)) sp)) (\<lambda>created.
     and_then (start_created env created) (\<lambda>started.
     and_then (world (ae_now env)) (\<lambda>now'.
     \<lambda>st. case warm (ae_hash64 env) (ae_detached_warm_pool env) created started now now' (uuid_simple u) sp (ap_warm_pool st) of
        (g', r, stopped) \<Rightarrow>
          fold (\<lambda>h m. and_then (stop_vm env h) (\<lambda>_. m)) stopped (ok r) (st\<lparr>ap_warm_pool := g'\<rparr>))))))"

section \<open>The task\<close>

definition build_image :: "build_record \<Rightarrow> string option" where
  "build_image b =
     or_else (bu_image_reference b) (or_else (field_str ''fromImage'' (bu_request b)) (field_str ''image'' (bu_request b)))"

definition image_spec :: "string \<Rightarrow> sandbox_spec" where
  "image_spec img = default_spec\<lparr>sp_image := (sp_image default_spec)\<lparr>ir_reference := img\<rparr>\<rparr>"

definition set_build ::
  "('s, 'q, 'f, 'w) app_env \<Rightarrow> string \<Rightarrow> string \<Rightarrow> string \<Rightarrow> json option \<Rightarrow> ('s, 'q, 'f, 'w, build_record) app_comp" where
  "set_build env team_id i status entry =
     and_then (world (ae_fresh env)) (\<lambda>fr. plane_call (update_build (ae_cp env) fr team_id i status entry))"

definition message_entry :: "string \<Rightarrow> json" where
  "message_entry m = JObj [(''message'', JStr m)]"

definition cancelled_build :: "string \<Rightarrow> string \<Rightarrow> 'f plane \<Rightarrow> build_record option" where
  "cancelled_build team_id i p =
     (case get_build team_id i p of Ok current \<Rightarrow> if bu_status current = ''cancelled'' then Some current else None | Err _ \<Rightarrow> None)"

text \<open>\<open>Inl\<close>: the task is over; \<open>Inr\<close>: the specification whose image is to be prepared.\<close>

definition build_begin ::
  "('s, 'q, 'f, 'w) app_env \<Rightarrow> string \<Rightarrow> build_record \<Rightarrow> ('s, 'q, 'f, 'w, build_record + sandbox_spec) app_comp" where
  "build_begin env team_id b st =
     (case cancelled_build team_id (bu_build_id b) (ap_e2b st) of
        Some current \<Rightarrow> (st, Ok (Inl current))
      | None \<Rightarrow>
          (case build_image b of
             None \<Rightarrow>
               and_then (set_build env team_id (bu_build_id b) ''failed'' (Some (message_entry
                 ''template build requires an OCI image reference; Dockerfile builder is not configured''))) (\<lambda>b'. ok (Inl b')) st
           | Some img \<Rightarrow>
               and_then (set_build env team_id (bu_build_id b) ''running'' None) (\<lambda>_. ok (Inr (image_spec img))) st))"

definition build_finish ::
  "('s, 'q, 'f, 'w) app_env \<Rightarrow> string \<Rightarrow> build_record \<Rightarrow> sandbox_spec \<Rightarrow> ('s, 'q, 'f, 'w, build_record) app_comp" where
  "build_finish env team_id b sp =
     and_then (world (ae_prefetch_unbounded env sp)) (\<lambda>r.
     case r of
       Ok _ \<Rightarrow>
         and_then (if ae_detached_warm_pool env then and_then (warm_slot env sp) (\<lambda>slot. ok (slot \<noteq> None)) else ok False) (\<lambda>requested.
         set_build env team_id (bu_build_id b) ''succeeded''
           (Some (JObj [(''message'', JStr ''OCI image prepared''), (''warmSlotRequested'', JBool requested)])))
     | Err e \<Rightarrow> set_build env team_id (bu_build_id b) ''failed'' (Some (message_entry (err_message e))))"

definition build_image_if_possible ::
  "('s, 'q, 'f, 'w) app_env \<Rightarrow> string \<Rightarrow> build_record \<Rightarrow> ('s, 'q, 'f, 'w, build_record) app_comp" where
  "build_image_if_possible env team_id b =
     and_then (build_begin env team_id b) (\<lambda>r. case r of Inl b' \<Rightarrow> ok b' | Inr sp \<Rightarrow> build_finish env team_id b sp)"

end
