(* ===== verification/Sandbox_Handlers.thy ===== *)
theory Sandbox_Handlers
  imports Provisioning Template_Builds
begin

text \<open>
  \<open>crates/clouisle-api/src/handlers/sandbox.rs\<close>, \<open>exec.rs\<close>, \<open>files.rs\<close> and \<open>images.rs\<close>: the
  handlers of the service as computations on the shared state. A handler that spawns a task adds it to \<open>ap_jobs\<close>; \<open>run_job\<close> is what the
  task does.
\<close>

section \<open>Answers\<close>

definition REDACTED :: string where
  "REDACTED = ''[REDACTED]''"

definition redact_secrets :: "sandbox \<Rightarrow> sandbox" where
  "redact_secrets sb =
     sb\<lparr>sb_spec := (sb_spec sb)\<lparr>sp_secrets := map (\<lambda>s. s\<lparr>ss_value := REDACTED\<rparr>) (sp_secrets (sb_spec sb))\<rparr>\<rparr>"

record reply =
  re_status :: nat
  re_headers :: "(string \<times> string) list"
  re_body :: sandbox

definition sandbox_handle :: "string \<Rightarrow> sandbox \<Rightarrow> vm_handle" where
  "sandbox_handle i sb =
     \<lparr>vh_id = (case me_vmm_id (sb_vmm_meta sb) of Some v \<Rightarrow> v | None \<Rightarrow> i),
      vh_backend = me_backend (sb_vmm_meta sb), vh_owner_id = me_owner_id (sb_vmm_meta sb),
      vh_pid = me_pid (sb_vmm_meta sb), vh_api_socket = me_api_socket (sb_vmm_meta sb),
      vh_vsock_socket = me_vsock_socket (sb_vmm_meta sb), vh_vsock_cid = me_vsock_cid (sb_vmm_meta sb),
      vh_subnet = None\<rparr>"

definition spawn :: "job \<Rightarrow> ('s, 'q, 'f, 'w) app \<Rightarrow> ('s, 'q, 'f, 'w) app" where
  "spawn j st = st\<lparr>ap_jobs := ap_jobs st @ [j]\<rparr>"

section \<open>Creation\<close>

record create_request =
  cr_spec :: sandbox_spec
  cr_sync :: bool

definition validate_dev_spec :: "sandbox_spec \<Rightarrow> (unit, clouisle_error) result" where
  "validate_dev_spec sp =
     (if nc_allow_egress (sp_network sp) \<noteq> []
      then Err (validation_error ''docker-dev backend cannot enforce egress allowlists; use network.enabled with empty allow_egress'')
      else if iops (sp_resources sp) \<noteq> None \<or> bandwidth_mbps (sp_resources sp) \<noteq> None
      then Err (validation_error ''docker-dev backend does not support iops or bandwidth_mbps limits'')
      else if sp_restart_policy sp \<noteq> Never
      then Err (validation_error ''docker-dev backend supports restart_policy=never only'')
      else Ok ())"

definition check_request :: "('s, 'q, 'f, 'w) app_env \<Rightarrow> sandbox_spec \<Rightarrow> (unit, clouisle_error) result" where
  "check_request env sp =
     (case spec_validate sp of
        Err es \<Rightarrow> Err (validation_error (''invalid spec: '' @ ae_debug_errors env es))
      | Ok _ \<Rightarrow>
          if \<not> cap_vsock (ae_capabilities env) \<and> \<not> cap_snapshot (ae_capabilities env)
          then validate_dev_spec sp else Ok ())"

definition reserve :: "('s, 'q, 'f, 'w) app_env \<Rightarrow> sandbox_spec \<Rightarrow> ('s, 'q, 'f, 'w, resources option) app_comp" where
  "reserve env sp = (if ae_manage_resources env then and_then (admit_spec env sp) (\<lambda>r. ok (Some r)) else ok None)"

text \<open>The reservation is a local of the handler: an error drops it.\<close>

definition holding ::
  "('s, 'q, 'f, 'w) app_env \<Rightarrow> resources option \<Rightarrow> ('s, 'q, 'f, 'w, 'a) app_comp \<Rightarrow> ('s, 'q, 'f, 'w, 'a) app_comp" where
  "holding env r m st = (case m st of (st', Ok a) \<Rightarrow> (st', Ok a) | (st', Err e) \<Rightarrow> (drop_reservation env r st', Err e))"

definition persist_new ::
  "('s, 'q, 'f, 'w) app_env \<Rightarrow> sandbox \<Rightarrow> pool_slot option \<Rightarrow> ('s, 'q, 'f, 'w, unit) app_comp" where
  "persist_new env sb slot st =
     (case store_write (so_create (ae_store env) sb) st of
        (st1, Ok _) \<Rightarrow>
          (case slot of
             None \<Rightarrow> (st1, Ok ())
           | Some s \<Rightarrow> (st1\<lparr>ap_warm_slots := hm_insert (sb_id sb) s (ap_warm_slots st1)\<rparr>, Ok ()))
      | (st1, Err e) \<Rightarrow>
          (case slot of
             None \<Rightarrow> (st1, Err e)
           | Some s \<Rightarrow> (fst (discard_slot env s st1), Err e)))"

definition admit_record ::
  "('s, 'q, 'f, 'w) app_env \<Rightarrow> sandbox_spec \<Rightarrow> ('s, 'q, 'f, 'w, sandbox \<times> pool_slot option) app_comp" where
  "admit_record env sp =
     and_then (world (ae_uuid env)) (\<lambda>i.
     and_then (acquire_slot env sp) (\<lambda>slot.
     and_then (world (ae_now env)) (\<lambda>now.
     and_then (transition_now env (sandbox_new now i sp) Start) (\<lambda>sb.
     and_then (persist_new env sb slot) (\<lambda>_. ok (sb, slot))))))"

definition image_cached ::
  "('s, 'q, 'f, 'w) app_env \<Rightarrow> sandbox_spec \<Rightarrow> pool_slot option \<Rightarrow> ('s, 'q, 'f, 'w, bool) app_comp" where
  "image_cached env sp slot =
     (if slot \<noteq> None then ok True
      else and_then (world (ae_image_cache_hit env sp)) (\<lambda>r. ok (case r of Ok hit \<Rightarrow> hit | Err _ \<Rightarrow> False)))"

definition create_sandbox ::
  "('s, 'q, 'f, 'w) app_env \<Rightarrow> principal \<Rightarrow> create_request \<Rightarrow> ('s, 'q, 'f, 'w, reply) app_comp" where
  "create_sandbox env pr req =
     (let sp = (cr_spec req)\<lparr>sp_tenant_id := Some (pr_tenant_id pr)\<rparr> in
      and_then (lift_result (raised (check_request env sp))) (\<lambda>_.
      and_then (reserve env sp) (\<lambda>r.
      and_then (holding env r (admit_record env sp)) (\<lambda>(sb, slot).
      and_then (image_cached env sp slot) (\<lambda>cached.
      if cr_sync req \<and> cached then
        and_then (run_provision_with_slot env sb r slot) (\<lambda>running.
          ok \<lparr>re_status = 201, re_headers = [], re_body = redact_secrets running\<rparr>)
      else
        and_then (modify (spawn (ProvisionJob sb r slot))) (\<lambda>_.
          ok \<lparr>re_status = 202, re_headers = [(''retry-after'', ''1''), (''location'', ''/api/v1/sandboxes/'' @ sb_id sb)],
              re_body = redact_secrets sb\<rparr>))))))"

section \<open>Reading, listing and deleting\<close>

definition find_owned ::
  "('s, 'q, 'f, 'w) app_env \<Rightarrow> principal \<Rightarrow> string \<Rightarrow> ('s, 'q, 'f, 'w, sandbox) app_comp" where
  "find_owned env pr i =
     and_then (store_get env i) (\<lambda>sb. and_then (lift_result (raised (require_tenant pr sb))) (\<lambda>_. ok sb))"

definition get_sandbox ::
  "('s, 'q, 'f, 'w) app_env \<Rightarrow> principal \<Rightarrow> string \<Rightarrow> ('s, 'q, 'f, 'w, sandbox) app_comp" where
  "get_sandbox env pr i = and_then (find_owned env pr i) (\<lambda>sb. ok (redact_secrets sb))"

definition parse_status_filter :: "string option \<Rightarrow> (sandbox_status option, clouisle_error) result" where
  "parse_status_filter q =
     (case q of
        None \<Rightarrow> Ok None
      | Some s \<Rightarrow>
          if s = ''pending'' then Ok (Some Pending) else if s = ''starting'' then Ok (Some Starting)
          else if s = ''running'' then Ok (Some Running) else if s = ''paused'' then Ok (Some Paused)
          else if s = ''stopping'' then Ok (Some Stopping) else if s = ''stopped'' then Ok (Some Stopped)
          else if s = ''error'' then Ok (Some Error)
          else Err (validation_error (''unknown sandbox status: '' @ s)))"

record list_query =
  lq_status :: "string option"
  lq_limit :: "nat option"
  lq_offset :: "nat option"

record list_response =
  lr_items :: "sandbox list"
  lr_total :: nat

definition list_sandboxes ::
  "('s, 'q, 'f, 'w) app_env \<Rightarrow> principal \<Rightarrow> list_query \<Rightarrow> ('s, 'q, 'f, 'w, list_response) app_comp" where
  "list_sandboxes env pr q =
     and_then (lift_result (raised (parse_status_filter (lq_status q)))) (\<lambda>flt.
     and_then (store_list env flt) (\<lambda>sbs.
       let mine = map redact_secrets (filter (\<lambda>sb. sp_tenant_id (sb_spec sb) = Some (pr_tenant_id pr)) sbs);
           offset = min (case lq_offset q of Some n \<Rightarrow> n | None \<Rightarrow> 0) (length mine);
           limit = max (case lq_limit q of Some n \<Rightarrow> n | None \<Rightarrow> 100) 1
       in ok \<lparr>lr_items = take limit (drop offset mine), lr_total = length mine\<rparr>))"

definition stop_for_delete :: "('s, 'q, 'f, 'w) app_env \<Rightarrow> string \<Rightarrow> sandbox \<Rightarrow> ('s, 'q, 'f, 'w, unit) app_comp" where
  "stop_for_delete env i sb st =
     (case hm_get (ap_warm_slots st) i of
        Some slot \<Rightarrow>
          and_then (if sb_status sb = Paused then ignore (world (ae_vm_resume env (ps_vm_handle slot))) else ok ())
            (\<lambda>_. release_slot env slot) (st\<lparr>ap_warm_slots := hm_remove i (ap_warm_slots st)\<rparr>)
      | None \<Rightarrow>
          if me_vmm_id (sb_vmm_meta sb) \<noteq> None then stop_vm env (sandbox_handle i sb) st else (st, Ok ()))"

definition delete_sandbox ::
  "('s, 'q, 'f, 'w) app_env \<Rightarrow> principal \<Rightarrow> string \<Rightarrow> ('s, 'q, 'f, 'w, unit) app_comp" where
  "delete_sandbox env pr i =
     and_then (find_owned env pr i) (\<lambda>sb.
     and_then (stop_for_delete env i sb) (\<lambda>_.
     and_then (store_write (so_delete (ae_store env) i)) (\<lambda>_.
     and_then (modify (release_snapshot i \<circ> remove_reservation env i)) (\<lambda>_.
     net_teardown env i (inherited_subnet (sb_vmm_meta sb))))))"

section \<open>Recovery\<close>

definition probe_ok :: "('s, 'q, 'f, 'w) app_env \<Rightarrow> vm_handle \<Rightarrow> ('s, 'q, 'f, 'w, bool) app_comp" where
  "probe_ok env h = and_then (world (ae_vm_probe env h)) (\<lambda>r. ok (case r of Ok b \<Rightarrow> b | Err _ \<Rightarrow> False))"

definition still_running :: "('s, 'q, 'f, 'w) app_env \<Rightarrow> string \<Rightarrow> sandbox \<Rightarrow> ('s, 'q, 'f, 'w, bool) app_comp" where
  "still_running env i sb = (if sb_status sb = Running then probe_ok env (sandbox_handle i sb) else ok False)"

definition clear_runtime :: "('s, 'q, 'f, 'w) app_env \<Rightarrow> string \<Rightarrow> sandbox \<Rightarrow> ('s, 'q, 'f, 'w, unit) app_comp" where
  "clear_runtime env i sb =
     and_then (discard_warm env i) (\<lambda>_.
     and_then (net_teardown env i (inherited_subnet (sb_vmm_meta sb))) (\<lambda>_.
     if me_vmm_id (sb_vmm_meta sb) \<noteq> None then stop_vm env (sandbox_handle i sb) else ok ()))"

definition reserve_again ::
  "('s, 'q, 'f, 'w) app_env \<Rightarrow> string \<Rightarrow> sandbox_spec \<Rightarrow> ('s, 'q, 'f, 'w, resources option) app_comp" where
  "reserve_again env i sp st =
     (if ae_manage_resources env \<and> hm_get (ap_reservations st) i = None
      then and_then (admit_spec env sp) (\<lambda>r. ok (Some r)) st else (st, Ok None))"

text \<open>\<open>HashSet::insert\<close> on the set of sandboxes that are being provisioned.\<close>

definition begin_provisioning :: "string \<Rightarrow> clouisle_error \<Rightarrow> ('s, 'q, 'f, 'w, unit) app_comp" where
  "begin_provisioning i e st =
     (if i \<in> set (ap_provisioning st) then (st, Err (Raised e))
      else (st\<lparr>ap_provisioning := i # ap_provisioning st\<rparr>, Ok ()))"

definition restart_record ::
  "('s, 'q, 'f, 'w) app_env \<Rightarrow> string \<Rightarrow> ('s, 'q, 'f, 'w, sandbox) app_comp" where
  "restart_record env i =
     and_then (store_update env i (UVmmMeta default_vmm_meta)) (\<lambda>_.
     and_then (store_update env i (UStatusMessage Starting None)) (\<lambda>_.
     and_then (begin_provisioning i (invalid_state ''sandbox recovery is already running'')) (\<lambda>_.
     store_get env i)))"

definition recover_sandbox ::
  "('s, 'q, 'f, 'w) app_env \<Rightarrow> principal \<Rightarrow> string \<Rightarrow> ('s, 'q, 'f, 'w, reply) app_comp" where
  "recover_sandbox env pr i =
     and_then (find_owned env pr i) (\<lambda>sb.
     and_then (still_running env i sb) (\<lambda>alive.
     if alive then ok \<lparr>re_status = 200, re_headers = [], re_body = redact_secrets sb\<rparr>
     else
       and_then (clear_runtime env i sb) (\<lambda>_.
       and_then (reserve_again env i (sb_spec sb)) (\<lambda>r.
       and_then (holding env r (restart_record env i)) (\<lambda>fresh_sb.
       and_then (modify (spawn (RecoverJob fresh_sb r))) (\<lambda>_.
       and_then (store_get env i) (\<lambda>cur.
       ok \<lparr>re_status = 202, re_headers = [(''retry-after'', ''1'')], re_body = redact_secrets cur\<rparr>)))))))"

section \<open>Executions\<close>

record exec_request =
  xq_argv :: "string list"
  xq_env :: "(string, string) hashmap"
  xq_cwd :: "string option"
  xq_timeout_ms :: u64

record exec_response =
  xs_exec_id :: string
  xs_exit_code :: int
  xs_stdout :: string
  xs_stderr :: string
  xs_duration_ms :: u64
  xs_timed_out :: bool
  xs_stdout_truncated :: bool
  xs_stderr_truncated :: bool

definition not_running :: "string \<Rightarrow> sandbox \<Rightarrow> clouisle_error" where
  "not_running i sb = invalid_state (''sandbox '' @ i @ '' is not running (status='' @ status_str (sb_status sb) @ '')'')"

definition ensure_executable ::
  "('s, 'q, 'f, 'w) app_env \<Rightarrow> string \<Rightarrow> principal \<Rightarrow> ('s, 'q, 'f, 'w, sandbox) app_comp" where
  "ensure_executable env i pr =
     and_then (find_owned env pr i) (\<lambda>sb. if sandbox_is_executable sb then ok sb else raise (not_running i sb))"

definition execution_of :: "exec_request \<Rightarrow> sandbox \<Rightarrow> execution_spec" where
  "execution_of req sb = \<lparr>es_argv = xq_argv req, es_env = hm_extend (sp_env (sb_spec sb)) (xq_env req),
     es_cwd = xq_cwd req, es_timeout_ms = xq_timeout_ms req\<rparr>"

definition exec_record ::
  "string \<Rightarrow> string \<Rightarrow> execution_spec \<Rightarrow> execution_result \<Rightarrow> time \<Rightarrow> time \<Rightarrow> execution_record" where
  "exec_record xid i sp r t1 t2 =
     \<lparr>xr_id = xid, xr_sandbox_id = i, xr_spec = sp, xr_exit_code = er_exit_code r,
      xr_stdout = fst (truncate_output (er_stdout r)), xr_stderr = fst (truncate_output (er_stderr r)),
      xr_started_at = t1, xr_finished_at = t2, xr_timed_out = (er_exit_code r = - 1),
      xr_stdout_truncated = snd (truncate_output (er_stdout r)),
      xr_stderr_truncated = snd (truncate_output (er_stderr r)), xr_node_id = None\<rparr>"

definition exec_sync ::
  "('s, 'q, 'f, 'w) app_env \<Rightarrow> principal \<Rightarrow> string \<Rightarrow> exec_request \<Rightarrow> ('s, 'q, 'f, 'w, exec_response) app_comp" where
  "exec_sync env pr i req =
     and_then (ensure_executable env i pr) (\<lambda>sb.
     let sp = execution_of req sb in
     and_then (lift_result (raised (execution_spec_validate sp))) (\<lambda>_.
     and_then (call (ae_hello env (meta_to_handle (sb_vmm_meta sb) i) i)) (\<lambda>conn.
     and_then (call (ae_exec env conn (es_argv sp) (es_env sp) (es_cwd sp) (es_timeout_ms sp))) (\<lambda>r.
     and_then (world (ae_uuid env)) (\<lambda>xid.
     and_then (world (ae_now env)) (\<lambda>t1.
     and_then (world (ae_now env)) (\<lambda>t2.
     and_then (store_write (ro_save_execution (ae_records env) (exec_record xid i sp r t1 t2))) (\<lambda>_.
     ok \<lparr>xs_exec_id = xid, xs_exit_code = er_exit_code r, xs_stdout = ae_utf8_lossy env (er_stdout r),
         xs_stderr = ae_utf8_lossy env (er_stderr r), xs_duration_ms = er_duration_ms r,
         xs_timed_out = (er_exit_code r = - 1), xs_stdout_truncated = snd (truncate_output (er_stdout r)),
         xs_stderr_truncated = snd (truncate_output (er_stderr r))\<rparr>))))))))"

definition list_executions ::
  "('s, 'q, 'f, 'w) app_env \<Rightarrow> principal \<Rightarrow> string \<Rightarrow> nat option \<Rightarrow> ('s, 'q, 'f, 'w, execution_record list) app_comp" where
  "list_executions env pr i limit =
     and_then (find_owned env pr i) (\<lambda>_.
     and_then (\<lambda>st. (st, raised (map_sum from_store_error id (ro_list_executions (ae_records env) i (ap_store st))))) (\<lambda>xs.
     ok (take (case limit of Some n \<Rightarrow> n | None \<Rightarrow> 100) xs)))"

definition get_execution ::
  "('s, 'q, 'f, 'w) app_env \<Rightarrow> principal \<Rightarrow> string \<Rightarrow> string \<Rightarrow> ('s, 'q, 'f, 'w, execution_record) app_comp" where
  "get_execution env pr i xid =
     and_then (find_owned env pr i) (\<lambda>_.
     and_then (\<lambda>st. (st, raised (map_sum from_store_error id (ro_get_execution (ae_records env) xid (ap_store st))))) (\<lambda>x.
     if xr_sandbox_id x \<noteq> i then raise (not_found (''execution '' @ xid @ '' not in sandbox '' @ i)) else ok x))"

section \<open>Files\<close>

definition MAX_UPLOAD_BYTES :: nat where
  "MAX_UPLOAD_BYTES = 50 * 1024 * 1024"

definition get_conn ::
  "('s, 'q, 'f, 'w) app_env \<Rightarrow> string \<Rightarrow> principal \<Rightarrow> ('s, 'q, 'f, 'w, nat) app_comp" where
  "get_conn env i pr =
     and_then (find_owned env pr i) (\<lambda>sb.
     if \<not> sandbox_is_executable sb then raise (not_running i sb)
     else call (ae_hello env (meta_to_handle (sb_vmm_meta sb) i) i))"

definition upload_file ::
  "('s, 'q, 'f, 'w) app_env \<Rightarrow> principal \<Rightarrow> string \<Rightarrow> string \<Rightarrow> byte list \<Rightarrow> ('s, 'q, 'f, 'w, unit) app_comp" where
  "upload_file env pr i path body =
     and_then (lift_result (raised (validate_path path))) (\<lambda>_.
     if MAX_UPLOAD_BYTES < length body
     then raise (validation_error (''upload exceeds '' @ show_nat MAX_UPLOAD_BYTES @ '' bytes''))
     else and_then (get_conn env i pr) (\<lambda>conn. call (ae_write_file env conn path body 420)))"

definition download_file ::
  "('s, 'q, 'f, 'w) app_env \<Rightarrow> principal \<Rightarrow> string \<Rightarrow> string \<Rightarrow> ('s, 'q, 'f, 'w, (string \<times> string) list \<times> byte list) app_comp" where
  "download_file env pr i path =
     and_then (lift_result (raised (validate_path path))) (\<lambda>_.
     and_then (get_conn env i pr) (\<lambda>conn.
     and_then (call (ae_read_file env conn path)) (\<lambda>data.
     ok ([(''content-type'', ''application/octet-stream''),
          (''content-disposition'', ''attachment; filename=\"'' @ last (split_on (CHR ''/'') path) @ ''\"'')], data))))"

definition list_files ::
  "('s, 'q, 'f, 'w) app_env \<Rightarrow> principal \<Rightarrow> string \<Rightarrow> string \<Rightarrow> ('s, 'q, 'f, 'w, listed_file list) app_comp" where
  "list_files env pr i path =
     and_then (lift_result (raised (validate_path path))) (\<lambda>_.
     and_then (get_conn env i pr) (\<lambda>conn. call (ae_list_dir env conn path)))"

section \<open>Image jobs\<close>

record prefetch_request =
  pq_image :: "image_ref option"
  pq_images :: "image_ref list"

fun queue_images ::
  "('s, 'q, 'f, 'w) app_env \<Rightarrow> string \<Rightarrow> image_ref list \<Rightarrow> ('s, 'q, 'f, 'w, string list) app_comp" where
  "queue_images env tenant [] = ok []"
| "queue_images env tenant (im # ims) =
     (if str_trim (ir_reference im) = [] then raise (validation_error ''image reference is required'')
      else
        and_then (world (ae_uuid env)) (\<lambda>j.
        and_then (modify (spawn (PrefetchJob j im) \<circ> insert_image_job
                     \<lparr>ij_job_id = j, ij_image = im, ij_tenant_id = tenant, ij_status = ''queued'', ij_error = None\<rparr>)) (\<lambda>_.
        and_then (queue_images env tenant ims) (\<lambda>js. ok (j # js)))))"

definition prefetch_images ::
  "('s, 'q, 'f, 'w) app_env \<Rightarrow> principal \<Rightarrow> prefetch_request \<Rightarrow> ('s, 'q, 'f, 'w, string list) app_comp" where
  "prefetch_images env pr req =
     (let images = pq_images req @ (case pq_image req of Some im \<Rightarrow> [im] | None \<Rightarrow> [])
      in if images = [] then raise (validation_error ''image or images is required'')
         else queue_images env (pr_tenant_id pr) images)"

definition get_prefetch_job ::
  "principal \<Rightarrow> string \<Rightarrow> ('s, 'q, 'f, 'w, image_prefetch_job) app_comp" where
  "get_prefetch_job pr j st =
     (st, case get_image_job j st of
            None \<Rightarrow> Err (Raised (not_found (''image job '' @ j @ '' not found'')))
          | Some x \<Rightarrow> if ij_tenant_id x \<noteq> pr_tenant_id pr
                      then Err (Raised (not_found (''image job '' @ j @ '' not found''))) else Ok x)"

definition run_prefetch ::
  "('s, 'q, 'f, 'w) app_env \<Rightarrow> string \<Rightarrow> image_ref \<Rightarrow> ('s, 'q, 'f, 'w) app \<Rightarrow> ('s, 'q, 'f, 'w) app" where
  "run_prefetch env j im st =
     (case call_within ''image prefetch timed out after 300s'' (ae_prefetch_image env (default_spec\<lparr>sp_image := im\<rparr>))
             (update_image_job j ''running'' None st) of
        (st', Ok _) \<Rightarrow> update_image_job j ''succeeded'' None st'
      | (st', Err (Raised e)) \<Rightarrow> update_image_job j ''failed'' (Some (err_message e)) st'
      | (st', Err Panicked) \<Rightarrow> st')"

section \<open>Spawned tasks\<close>

text \<open>The task that \<open>recover_sandbox\<close> spawns entered the set of provisioned sandboxes before.\<close>

definition run_recovery ::
  "('s, 'q, 'f, 'w) app_env \<Rightarrow> sandbox \<Rightarrow> resources option \<Rightarrow> ('s, 'q, 'f, 'w) app \<Rightarrow> ('s, 'q, 'f, 'w) app" where
  "run_recovery env sb r st =
     (case provision_sandbox env sb r None None None st of
        (st1, Ok _) \<Rightarrow> st1\<lparr>ap_provisioning := removeAll (sb_id sb) (ap_provisioning st1)\<rparr>
      | (st1, Err (Raised _)) \<Rightarrow>
          (let st2 = remove_reservation env (sb_id sb) st1
           in st2\<lparr>ap_provisioning := removeAll (sb_id sb) (ap_provisioning st2)\<rparr>)
      | (st1, Err Panicked) \<Rightarrow> st1)"

text \<open>The task that a started process gets: it encodes the events of the guest until the first terminal one and
  publishes them; an error of the connection is published last. An event that cannot be encoded is skipped.\<close>

fun is_terminal :: "exec_stream_event \<Rightarrow> bool" where
  "is_terminal (EvExit n) = True"
| "is_terminal (EvError m) = True"
| "is_terminal ev = False"

definition encoded :: "event_codec \<Rightarrow> bool \<Rightarrow> exec_stream_event \<Rightarrow> process_event list" where
  "encoded cd pty ev = (case encode_process_event cd ev pty of Ok e \<Rightarrow> [e] | Err _ \<Rightarrow> [])"

fun pump_events :: "event_codec \<Rightarrow> bool \<Rightarrow> exec_stream_event list \<Rightarrow> process_event list" where
  "pump_events cd pty [] = []"
| "pump_events cd pty (ev # evs) = encoded cd pty ev @ (if is_terminal ev then [] else pump_events cd pty evs)"

definition run_pump :: "('s, 'q, 'f, 'w) app_env \<Rightarrow> nat \<Rightarrow> nat \<Rightarrow> string \<Rightarrow> ('s, 'q, 'f, 'w) app \<Rightarrow> ('s, 'q, 'f, 'w) app" where
  "run_pump env r conn guest st =
     (case ae_process_events env conn guest (ap_world st) of (w', evs, res) \<Rightarrow>
        (let pty = se_pty (rg_heap (ap_processes st) ! r);
             last = (case res of Ok _ \<Rightarrow> [] | Err e \<Rightarrow> encoded (ae_codec env) pty (EvError (err_message e)))
         in st\<lparr>ap_world := w', ap_processes := fold (publish_at r) (pump_events (ae_codec env) pty evs @ last) (ap_processes st)\<rparr>))"

fun run_job :: "('s, 'q, 'f, 'w) app_env \<Rightarrow> job \<Rightarrow> ('s, 'q, 'f, 'w) app \<Rightarrow> ('s, 'q, 'f, 'w) app" where
  "run_job env (ProvisionJob sb r slot) st = fst (run_provision_with_slot env sb r slot st)"
| "run_job env (RecoverJob sb r) st = run_recovery env sb r st"
| "run_job env (PrefetchJob j im) st = run_prefetch env j im st"
| "run_job env (CloneJob sb r paths subnet) st = fst (run_provision_from_snapshot env sb r paths subnet st)"
| "run_job env (BuildJob team_id b) st = fst (build_image_if_possible env team_id b st)"
| "run_job env (PumpJob r conn guest) st = run_pump env r conn guest st"

end
