(* ===== verification/Fleet.thy ===== *)
theory Fleet
  imports Sandbox_Handlers
begin

text \<open>
  The periodic reconciliation of \<open>crates/clouisle-api/src/state.rs\<close> and the node registry of
  \<open>crates/clouisle-api/src/handlers/nodes.rs\<close>: records of the store against the runtimes and the nodes
  that answer. An update whose result the source discards is wrapped in \<open>ignore\<close>.
\<close>

section \<open>Scheduling\<close>

definition schedule_provision :: "('s, 'q, 'f, 'w) app_env \<Rightarrow> sandbox \<Rightarrow> ('s, 'q, 'f, 'w) app \<Rightarrow> ('s, 'q, 'f, 'w) app" where
  "schedule_provision env sb st =
     (if sb_id sb \<in> set (ap_provisioning st) then st
      else case reserve_again env (sb_id sb) (sb_spec sb) st of
        (st', Ok r) \<Rightarrow> spawn (ProvisionJob sb r None) st'
      | (st', Err _) \<Rightarrow> st')"

section \<open>One record\<close>

definition set_error ::
  "('s, 'q, 'f, 'w) app_env \<Rightarrow> string \<Rightarrow> string \<Rightarrow> ('s, 'q, 'f, 'w) app \<Rightarrow> ('s, 'q, 'f, 'w) app" where
  "set_error env i msg st = fst (store_update env i (UStatusMessage Error (Some msg)) st)"

definition fail_record ::
  "('s, 'q, 'f, 'w) app_env \<Rightarrow> string \<Rightarrow> string \<Rightarrow> ('s, 'q, 'f, 'w) app \<Rightarrow> ('s, 'q, 'f, 'w) app" where
  "fail_record env i msg st = remove_reservation env i (set_error env i msg st)"

definition error_text :: "clouisle_error \<Rightarrow> string" where
  "error_text e = ''['' @ error_kind_str (err_kind e) @ ''] '' @ err_message e"

text \<open>The reservation of a local sandbox that survived a restart. The flag says whether to go on.\<close>

definition restore_reservation ::
  "('s, 'q, 'f, 'w) app_env \<Rightarrow> sandbox \<Rightarrow> ('s, 'q, 'f, 'w) app \<Rightarrow> ('s, 'q, 'f, 'w) app \<times> bool" where
  "restore_reservation env sb st =
     (if ae_manage_resources env \<and> sb_node_id sb = None \<and> status_is_active (sb_status sb)
         \<and> hm_get (ap_reservations st) (sb_id sb) = None then
        (case admit_spec env (sb_spec sb) st of
           (st', Ok r) \<Rightarrow> (keep_reservation env (sb_id sb) r st', True)
         | (st', Err (Raised e)) \<Rightarrow>
             (set_error env (sb_id sb) (''resource reservation restore failed: '' @ error_text e) st', False)
         | (st', Err Panicked) \<Rightarrow> (st', False))
      else (st, True))"

definition lease_expired :: "string list option \<Rightarrow> sandbox \<Rightarrow> bool" where
  "lease_expired ready sb \<longleftrightarrow>
     status_is_active (sb_status sb) \<and>
     (case sb_node_id sb of None \<Rightarrow> False | Some n \<Rightarrow> (case ready of None \<Rightarrow> False | Some ns \<Rightarrow> n \<notin> set ns))"

definition runtime_handle :: "sandbox \<Rightarrow> vm_handle" where
  "runtime_handle sb = (sandbox_handle (sb_id sb) sb)\<lparr>vh_subnet := inherited_subnet (sb_vmm_meta sb)\<rparr>"

text \<open>The guest of a sandbox that should run is asked within five seconds.\<close>

definition check_guest ::
  "('s, 'q, 'f, 'w) app_env \<Rightarrow> sandbox \<Rightarrow> ('s, 'q, 'f, 'w) app \<Rightarrow> ('s, 'q, 'f, 'w) app" where
  "check_guest env sb st =
     (case ae_probe_guest env (runtime_handle sb) (sb_id sb) (ap_world st) of (w', answer) \<Rightarrow>
      (let st1 = st\<lparr>ap_world := w'\<rparr> in
       case answer of
         Some (Ok _) \<Rightarrow>
           if sb_status sb = Starting then fst (store_update env (sb_id sb) (UStatusMessage Running None) st1) else st1
       | Some (Err e) \<Rightarrow>
           if sb_status sb = Running
           then fail_record env (sb_id sb) (''guest probe failed during reconciliation: '' @ error_text e) st1 else st1
       | None \<Rightarrow>
           if sb_status sb = Running
           then fail_record env (sb_id sb) ''guest probe timed out during reconciliation'' st1 else st1))"

definition check_runtime ::
  "('s, 'q, 'f, 'w) app_env \<Rightarrow> sandbox \<Rightarrow> ('s, 'q, 'f, 'w) app \<Rightarrow> ('s, 'q, 'f, 'w) app" where
  "check_runtime env sb st =
     (case ae_vm_probe env (runtime_handle sb) (ap_world st) of (w', answer) \<Rightarrow>
      (let st1 = st\<lparr>ap_world := w'\<rparr> in
       if answer \<noteq> Ok True then fail_record env (sb_id sb) ''persisted sandbox runtime is not reachable'' st1
       else if sb_status sb = Starting \<or> sb_status sb = Running then check_guest env sb st1
       else st1))"

definition recovery_attempts :: "vmm_meta \<Rightarrow> nat" where
  "recovery_attempts m =
     (case hm_get (me_extra m) ''recovery_attempts'' of
        None \<Rightarrow> 0
      | Some v \<Rightarrow> (case parse_uint 255 v of None \<Rightarrow> 0 | Some n \<Rightarrow> n))"

definition count_attempt :: "vmm_meta \<Rightarrow> vmm_meta" where
  "count_attempt m = m\<lparr>me_extra := hm_insert ''recovery_attempts'' (show_nat (recovery_attempts m + 1)) (me_extra m)\<rparr>"

definition retry_failed ::
  "('s, 'q, 'f, 'w) app_env \<Rightarrow> sandbox \<Rightarrow> ('s, 'q, 'f, 'w) app \<Rightarrow> ('s, 'q, 'f, 'w) app" where
  "retry_failed env sb st =
     (if sb_status sb = Error \<and> sp_restart_policy (sb_spec sb) \<noteq> Never \<and> recovery_attempts (sb_vmm_meta sb) < 3 then
        (case and_then (store_update env (sb_id sb) (UVmmMeta (count_attempt (sb_vmm_meta sb))))
                (\<lambda>_. store_update env (sb_id sb) (UStatusMessage Starting None)) st of
           (st1, Err _) \<Rightarrow> st1
         | (st1, Ok _) \<Rightarrow>
             (case store_get env (sb_id sb) st1 of
                (st2, Ok recovered) \<Rightarrow> schedule_provision env recovered st2
              | (st2, Err _) \<Rightarrow> schedule_provision env sb st2))
      else st)"

definition reconcile_record ::
  "('s, 'q, 'f, 'w) app_env \<Rightarrow> string list option \<Rightarrow> sandbox \<Rightarrow> ('s, 'q, 'f, 'w) app \<Rightarrow> ('s, 'q, 'f, 'w) app" where
  "reconcile_record env ready sb st =
     (case restore_reservation env sb st of
        (st1, False) \<Rightarrow> st1
      | (st1, True) \<Rightarrow>
          if lease_expired ready sb then fail_record env (sb_id sb) ''node heartbeat lease expired'' st1
          else if sb_status sb = Starting \<and> me_vmm_id (sb_vmm_meta sb) = None then schedule_provision env sb st1
          else if status_is_active (sb_status sb) \<and> me_vmm_id (sb_vmm_meta sb) \<noteq> None then check_runtime env sb st1
          else retry_failed env sb st1)"

section \<open>All records\<close>

definition ready_nodes ::
  "('s, 'q, 'f, 'w) app_env \<Rightarrow> ('s, 'q, 'f, 'w, string list) app_comp" where
  "ready_nodes env =
     and_then (world (ae_now env)) (\<lambda>now st.
       (st, raised (map_sum from_store_error (map (\<lambda>n. ni_node_id (rn_info n)))
              (ro_list_ready_nodes (ae_records env) (ae_millis env now - 15000) (ap_store st)))))"

definition reconcile_sandboxes ::
  "('s, 'q, 'f, 'w) app_env \<Rightarrow> ('s, 'q, 'f, 'w) app \<Rightarrow> ('s, 'q, 'f, 'w) app" where
  "reconcile_sandboxes env st =
     (case store_list env None st of
        (st1, Err _) \<Rightarrow> st1
      | (st1, Ok sbs) \<Rightarrow>
          (case ready_nodes env st1 of
             (st2, Ok ns) \<Rightarrow> fold (reconcile_record env (Some ns)) sbs st2
           | (st2, Err _) \<Rightarrow> fold (reconcile_record env None) sbs st2))"

section \<open>Nodes\<close>

fun adopt_observed ::
  "('s, 'q, 'f, 'w) app_env \<Rightarrow> string \<Rightarrow> string list \<Rightarrow> ('s, 'q, 'f, 'w, unit) app_comp" where
  "adopt_observed env node [] = ok ()"
| "adopt_observed env node (i # is) =
     (\<lambda>st. case store_get env i st of
        (st1, Ok sb) \<Rightarrow>
          if sb_node_id sb \<noteq> Some node
          then and_then (store_update env i (UNode (Some node))) (\<lambda>_. adopt_observed env node is) st1
          else adopt_observed env node is st1
      | (st1, Err _) \<Rightarrow> adopt_observed env node is st1)"

fun fail_unobserved ::
  "('s, 'q, 'f, 'w) app_env \<Rightarrow> string \<Rightarrow> string list \<Rightarrow> sandbox list \<Rightarrow> ('s, 'q, 'f, 'w, unit) app_comp" where
  "fail_unobserved env node observed [] = ok ()"
| "fail_unobserved env node observed (sb # sbs) =
     (if sb_node_id sb = Some node \<and> status_is_active (sb_status sb) \<and> sb_id sb \<notin> set observed then
        and_then (store_update env (sb_id sb)
                    (UStatusMessage Error (Some ''node heartbeat no longer reports this sandbox''))) (\<lambda>_.
        and_then (modify (remove_reservation env (sb_id sb))) (\<lambda>_.
        fail_unobserved env node observed sbs))
      else fail_unobserved env node observed sbs)"

definition upsert_node ::
  "('s, 'q, 'f, 'w) app_env \<Rightarrow> registered_node \<Rightarrow> ('s, 'q, 'f, 'w, unit) app_comp" where
  "upsert_node env n =
     (if rn_endpoint n = [] then raise (validation_error ''node endpoint is required'')
      else
        and_then (store_write (ro_upsert_node (ae_records env) n)) (\<lambda>_.
        and_then (adopt_observed env (ni_node_id (rn_info n)) (rn_sandbox_ids n)) (\<lambda>_.
        and_then (store_list env None) (\<lambda>sbs.
        fail_unobserved env (ni_node_id (rn_info n)) (rn_sandbox_ids n) sbs))))"

definition list_ready_nodes_handler ::
  "('s, 'q, 'f, 'w) app_env \<Rightarrow> ('s, 'q, 'f, 'w, registered_node list) app_comp" where
  "list_ready_nodes_handler env =
     and_then (world (ae_now env)) (\<lambda>now st.
       (st, raised (map_sum from_store_error id
              (ro_list_ready_nodes (ae_records env) (ae_millis env now - 15000) (ap_store st)))))"

end
