(* ===== verification/Provision_Frame.thy ===== *)
theory Provision_Frame
  imports Provisioning
begin

text \<open>
  What provisioning one sandbox may change. The locale \<open>effect_frame\<close> fixes a preorder on the states of
  the service that allows changes of the world, the firewall, the snapshots and the warm
  pool: what the calls to machines and guests change. \<open>app_frame\<close> also allows updates of one record in the
  store; every step of provisioning that record, and so the whole task, stays within such a
  preorder. The instances say which parts of the state a task leaves alone.
\<close>

named_theorems frame_intros

locale effect_frame = state_preorder R for R :: "('s, 'q, 'f, 'w) app \<Rightarrow> ('s, 'q, 'f, 'w) app \<Rightarrow> bool" +
  fixes env :: "('s, 'q, 'f, 'w) app_env"
  assumes world_ok: "R st (st\<lparr>ap_world := w\<rparr>)"
    and firewall_ok: "R st (st\<lparr>ap_firewall := fw\<rparr>)"
    and snapshots_ok: "R st (st\<lparr>ap_snapshots := sn\<rparr>)"
    and warm_pool_ok: "R st (st\<lparr>ap_warm_pool := g\<rparr>)"
begin

lemmas [frame_intros] = confined_and_then confined_pure confined_if

lemma f_world [frame_intros]: "confined R (world f)"
  by (simp add: confined_def world_def world_ok split: prod.split)

lemma f_raise [frame_intros]: "confined R (raise e)"
  unfolding raise_def by (rule confined_pure)

lemma f_read [frame_intros]: "confined R (\<lambda>st. (st, g st))"
  by (rule confined_const) simp

lemma f_option [frame_intros]:
  "confined R m \<Longrightarrow> (\<And>x. confined R (f x)) \<Longrightarrow> confined R (case v of None \<Rightarrow> m | Some x \<Rightarrow> f x)"
  by (cases v) simp_all

lemma f_ignore [frame_intros]: "confined R m \<Longrightarrow> confined R (ignore m)"
  by (simp add: confined_def ignore_def)

lemma f_call [frame_intros]: "confined R (call f)" "confined R (call_within msg g)"
  unfolding call_def call_within_def by (intro frame_intros)+

lemma f_get [frame_intros]: "confined R (store_get env j)"
  unfolding store_get_def by (intro frame_intros)

lemma f_list [frame_intros]: "confined R (store_list env flt)"
  unfolding store_list_def by (intro frame_intros)

lemma f_claim [frame_intros]: "confined R (claim_snapshot k j)"
  by (auto simp: confined_def claim_snapshot_def Let_def refl snapshots_ok split: option.split)

lemma f_acquire [frame_intros]: "confined R (acquire_slot env sp)"
proof -
  have "confined R (\<lambda>st. case acquire now key (ap_warm_pool st) of (g', r) \<Rightarrow> (st\<lparr>ap_warm_pool := g'\<rparr>, Ok r))" for now key
    by (simp add: confined_def warm_pool_ok split: prod.split)
  then show ?thesis unfolding acquire_slot_def by (intro frame_intros)
qed

lemma f_release [frame_intros]: "confined R (release_slot env slot)"
proof -
  have "confined R (\<lambda>st. case release now sid (ap_warm_pool st) of (g', r) \<Rightarrow> (st\<lparr>ap_warm_pool := g'\<rparr>, Ok ()))" for now sid
    by (simp add: confined_def warm_pool_ok split: prod.split)
  then show ?thesis unfolding release_slot_def by (intro frame_intros)
qed

lemma f_firewall: "R st (st\<lparr>ap_firewall := fw, ap_world := w\<rparr>)"
  using trans [OF firewall_ok [of st fw] world_ok] by simp

lemma f_teardown [frame_intros]: "confined R (net_teardown env j sn)"
  by (auto simp: confined_def net_teardown_def refl f_firewall split: prod.split)

lemma f_setup [frame_intros]: "confined R (net_setup env sb sn)"
  by (auto simp: confined_def net_setup_def Let_def refl f_firewall split: prod.split)

lemma f_net_create [frame_intros]: "confined R (net_create env j sn)"
  unfolding net_create_def by (intro frame_intros)

lemma f_stop [frame_intros]: "confined R (stop_vm env h)"
  unfolding stop_vm_def by (intro frame_intros)

lemma f_discard [frame_intros]: "confined R (discard_slot env slot)"
proof -
  have stops: "confined R (fold (\<lambda>h m. and_then (stop_vm env h) (\<lambda>_. m)) hs m)" if "confined R m" for hs m
    using that by (induction hs arbitrary: m) (simp_all add: frame_intros)
  have "R st (fst (discard_slot env slot st))" for st
  proof -
    obtain g r hs where d: "discard (ps_id slot) (ap_warm_pool st) = (g, r, hs)"
      by (cases "discard (ps_id slot) (ap_warm_pool st)") auto
    have "R (st\<lparr>ap_warm_pool := g\<rparr>) (fst (discard_slot env slot st))"
      using confined_at [OF stops [OF confined_pure(1)]] by (simp add: discard_slot_def d)
    then show ?thesis using trans warm_pool_ok by blast
  qed
  then show ?thesis by (simp add: confined_def)
qed

lemma f_secrets [frame_intros]: "confined R (materialize_secrets env conn ss)"
  by (induction ss) (simp_all add: frame_intros)

lemma f_mounted [frame_intros]: "confined R (write_mounted env conn target fs)"
proof (induction fs)
  case (Cons f fs)
  then show ?case by (cases f) (simp add: frame_intros)
qed (simp add: frame_intros)

lemma f_volumes [frame_intros]: "confined R (materialize_volume_mounts env conn tenant ms)"
proof (induction ms)
  case (Cons m ms)
  then show ?case unfolding materialize_volume_mounts.simps by (intro frame_intros)
qed (simp add: frame_intros)

lemma f_transition [frame_intros]: "confined R (transition_now env sb ev)"
  unfolding transition_now_def by (intro frame_intros)

lemma f_claim_source [frame_intros]: "confined R (claim_source env sb slot sn ab)"
  unfolding claim_source_def by (auto intro!: frame_intros split: option.split)

lemma f_run_init [frame_intros]: "confined R (run_init env sb conn)"
  unfolding run_init_def Let_def by (intro frame_intros)

end

text \<open>\<open>U\<close> says which updates of the record are allowed: those of its status, message and node always are.\<close>

locale app_frame = effect_frame R env for R :: "('s, 'q, 'f, 'w) app \<Rightarrow> ('s, 'q, 'f, 'w) app \<Rightarrow> bool"
    and env :: "('s, 'q, 'f, 'w) app_env" +
  fixes i :: string and U :: "sb_update \<Rightarrow> bool"
  assumes update_ok: "U u \<Longrightarrow> R st (fst (store_update env i u st))"
    and message_allowed: "U (UStatusMessage s m)" and node_allowed: "U (UNode n)"
begin

lemma f_update: "U u \<Longrightarrow> confined R (store_update env i u)"
  by (simp add: confined_def update_ok)

lemma f_update_status [frame_intros]: "confined R (store_update env i (UStatusMessage s m))"
  by (rule f_update [OF message_allowed])

lemma f_update_node [frame_intros]: "confined R (store_update env i (UNode n))"
  by (rule f_update [OF node_allowed])

lemma f_mark_failed: "R st (mark_failed env i e h st)"
  unfolding mark_failed_def by (rule confined_at) (intro frame_intros)

lemma f_or_fail [frame_intros]:
  assumes "confined R m"
  shows "confined R (or_fail env i h m)"
  unfolding confined_def
proof
  fix st
  show "R st (fst (or_fail env i h m st))"
  proof (cases "m st")
    case (Pair st' r)
    have "R st st'" by (rule confinedD [OF assms Pair])
    then show ?thesis using trans f_mark_failed by (auto simp: or_fail_def Pair split: sum.splits fault.splits)
  qed
qed

lemma f_obtain [frame_intros]: "sb_id sb = i \<Longrightarrow> confined R (obtain_vm env sb slot sn)"
  unfolding obtain_vm_def by (simp only:) (intro frame_intros)

lemma f_record [frame_intros]: "U (UVmmMeta m) \<Longrightarrow> confined R (record_vm env i h m)"
  unfolding record_vm_def by (intro frame_intros f_update)

lemma f_prepare [frame_intros]: "sb_id sb = i \<Longrightarrow> confined R (prepare_guest env sb h conn)"
  unfolding prepare_guest_def by (simp only:) (intro frame_intros)

lemma f_boot:
  assumes "sb_id sb = i" and "\<And>h ab. U (UVmmMeta (handle_to_meta h (bound_extra ab sb)))"
  shows "confined R (boot_sandbox env sb slot sn ab)"
  unfolding boot_sandbox_def Let_def case_prod_beta assms(1)
  by (intro frame_intros assms(2)) (simp_all add: assms(1))

lemma f_finish:
  assumes "sb_id sb = i" and "\<And>m. U (UVmmMeta m)" and "\<And>e. U (UExpiry e)"
  shows "confined R (finish_provision env sb h m)"
  unfolding finish_provision_def Let_def assms(1) by (intro frame_intros f_update assms)

lemma f_provision:
  assumes "sb_id sb = i" and "\<And>m. U (UVmmMeta m)" and "\<And>e. U (UExpiry e)"
  shows "confined R (provision_steps env sb slot sn ab)"
  unfolding provision_steps_def case_prod_beta
  by (intro frame_intros f_boot f_finish assms) (simp_all add: assms)

end

end
