(* ===== verification/Lifecycle_Safety.thy ===== *)
theory Lifecycle_Safety
  imports Fleet Provision_Frame
begin

text \<open>
  What the handlers leave alone and what they keep. \<open>calm\<close> computations touch neither the resource
  pool nor the reservations nor the spawned tasks; every step of provisioning is calm, so
  that the handlers change the balance of permits only where they admit, keep, drop or hand over a
  reservation. \<open>balanced\<close> is that balance, with the reservation a handler holds in its hand.
\<close>

section \<open>Calm computations\<close>

definition ledger :: "('s, 'q, 'f, 'w) app \<Rightarrow> 'q resource_pool \<times> (string, resources) hashmap \<times> job list" where
  "ledger st = (ap_pool st, ap_reservations st, ap_jobs st)"

definition same_ledger :: "('s, 'q, 'f, 'w) app \<Rightarrow> ('s, 'q, 'f, 'w) app \<Rightarrow> bool" where
  "same_ledger st st' \<longleftrightarrow> ledger st' = ledger st"

lemma same_ledger_write: "same_ledger st (fst (store_write f st))"
  by (simp add: same_ledger_def ledger_def store_write_def split: prod.split)

interpretation calm: app_frame same_ledger env i "\<lambda>_. True" for env i
proof
  show "same_ledger st (fst (store_update env i u st))" for st u
    by (simp add: same_ledger_def ledger_def store_update_def store_write_def world_def and_then_def split: prod.split)
qed (auto simp: same_ledger_def ledger_def)

abbreviation calm_comp :: "('s, 'q, 'f, 'w, 'a) app_comp \<Rightarrow> bool" where
  "calm_comp m \<equiv> confined same_ledger m"

lemma calm_at: "calm_comp m \<Longrightarrow> m st = (st', r) \<Longrightarrow> ledger st' = ledger st"
  unfolding same_ledger_def [symmetric] by (rule confinedD)

lemma calm_write [frame_intros]: "calm_comp (store_write g)"
  by (simp add: confined_def same_ledger_write)

lemma calm_basic [frame_intros]: "calm_comp allocate_subnet" "calm_comp (e2b_call h)"
  by (simp_all add: confined_def same_ledger_def ledger_def allocate_subnet_def e2b_call_def split: prod.split)

lemma calm_provision: "calm_comp (provision_steps env sb slot sn ab)"
  by (rule calm.f_provision) simp_all

lemma calm_update [frame_intros]: "calm_comp (store_update env i u)"
  by (rule calm.f_update) simp

text \<open>Discarding a slot never fails: the answers of the backend are not used.\<close>

lemma stop_vm_Ok [simp]: "stop_vm env h st = (st\<lparr>ap_world := fst (ae_vm_stop env h Force (ap_world st))\<rparr>, Ok ())"
  by (simp add: stop_vm_def ignore_def world_def split: prod.split)

lemma stop_all_Ok:
  "(\<And>st. snd (m st) = Ok ()) \<Longrightarrow> snd (fold (\<lambda>h m. and_then (stop_vm env h) (\<lambda>_. m)) hs m st) = Ok ()"
  by (induction hs arbitrary: m) (simp_all add: and_then_def)

lemma discard_slot_Ok: "snd (discard_slot env slot st) = Ok ()"
  by (simp add: discard_slot_def stop_all_Ok ok_def split: prod.split)

lemma discard_warm_Ok: "snd (discard_warm env i st) = Ok ()"
  by (simp add: discard_warm_def discard_slot_Ok split: option.split)

lemma calm_discard_warm [frame_intros]: "calm_comp (discard_warm env i)"
proof -
  have "same_ledger st (fst (discard_warm env i st))" for st :: "('a, 'b, 'c, 'd) app"
  proof (cases "hm_get (ap_warm_slots st) i")
    case (Some slot)
    have "same_ledger (st\<lparr>ap_warm_slots := hm_remove i (ap_warm_slots st)\<rparr>) (fst (discard_warm env i st))"
      using calm.f_discard [of env slot] by (simp add: discard_warm_def Some confined_def)
    then show ?thesis by (simp add: same_ledger_def ledger_def)
  qed (simp add: discard_warm_def calm.refl)
  then show ?thesis by (simp add: confined_def)
qed

section \<open>The balance of permits\<close>

fun job_reservation :: "job \<Rightarrow> resources option" where
  "job_reservation (ProvisionJob sb r slot) = r"
| "job_reservation (RecoverJob sb r) = r"
| "job_reservation (PrefetchJob j im) = None"
| "job_reservation (CloneJob sb r paths subnet) = r"
| "job_reservation (BuildJob t b) = None"
| "job_reservation (PumpJob s c g) = None"

definition units :: "dim \<Rightarrow> resources \<Rightarrow> nat" where
  "units d r = need r d"

definition claimed :: "dim \<Rightarrow> (string, resources) hashmap \<Rightarrow> job list \<Rightarrow> nat" where
  "claimed d m js = hm_total (units d) m + sum_list (map (\<lambda>j. opt_total (units d) (job_reservation j)) js)"

text \<open>\<open>cap\<close> is the capacity of each dimension and \<open>fl\<close> the reservation in the hand of the running handler.\<close>

definition balanced ::
  "('s, 'q, 'f, 'w) app_env \<Rightarrow> (dim \<Rightarrow> nat) \<Rightarrow> resources option \<Rightarrow> ('s, 'q, 'f, 'w) app \<Rightarrow> bool" where
  "balanced env cap fl st \<longleftrightarrow> hm_ok (ap_reservations st) \<and>
     (\<forall>d. cap d \<le> MAX_PERMITS \<and>
        sem_available (ae_sem env) (get_sem (ap_pool st) d) + claimed d (ap_reservations st) (ap_jobs st)
          + opt_total (units d) fl = cap d)"

lemma balanced_ledger: "ledger st' = ledger st \<Longrightarrow> balanced env cap fl st' = balanced env cap fl st"
  by (simp add: balanced_def ledger_def)

lemma balanced_calm: "calm_comp m \<Longrightarrow> m st = (st', r) \<Longrightarrow> balanced env cap fl st \<Longrightarrow> balanced env cap fl st'"
  by (simp add: balanced_ledger [OF calm_at])

lemma balanced_calm_fst: "calm_comp m \<Longrightarrow> balanced env cap fl st \<Longrightarrow> balanced env cap fl (fst (m st))"
  by (cases "m st") (simp add: balanced_calm)

lemma get_sem_drop: "get_sem (reservation_drop ops r p) d = sem_release ops (need r d) (get_sem p d)"
  by (cases d) (simp_all add: reservation_drop_def)

lemma available_drop:
  "semaphore_laws ops \<Longrightarrow> sem_available ops (get_sem p d) + need r d \<le> MAX_PERMITS \<Longrightarrow>
   sem_available ops (get_sem (reservation_drop ops r p) d) = sem_available ops (get_sem p d) + need r d"
  by (simp add: get_sem_drop semaphore_laws_def)

lemma balancedD:
  assumes "balanced env cap fl st"
  shows "sem_available (ae_sem env) (get_sem (ap_pool st) d) + claimed d (ap_reservations st) (ap_jobs st)
      + opt_total (units d) fl = cap d" and "cap d \<le> MAX_PERMITS"
  using assms by (simp_all add: balanced_def)

lemma balanced_drop:
  assumes "semaphore_laws (ae_sem env)" and "balanced env cap r st"
  shows "balanced env cap None (drop_reservation env r st)"
proof (cases r)
  case None
  with assms(2) show ?thesis by (simp add: drop_reservation_def)
next
  case (Some x)
  have "sem_available (ae_sem env) (get_sem (reservation_drop (ae_sem env) x (ap_pool st)) d)
      = sem_available (ae_sem env) (get_sem (ap_pool st) d) + need x d" for d
    using balancedD [OF assms(2), of d] Some by (intro available_drop [OF assms(1)]) (simp add: units_def)
  with assms(2) Some show ?thesis by (simp add: drop_reservation_def balanced_def units_def ac_simps)
qed

lemma balanced_keep:
  assumes laws: "semaphore_laws (ae_sem env)" and bal: "balanced env cap (Some r) st"
  shows "balanced env cap None (keep_reservation env i r st)"
proof -
  let ?st = "st\<lparr>ap_reservations := hm_insert i r (ap_reservations st)\<rparr>"
  have "balanced env cap (hm_get (ap_reservations st) i) ?st"
    unfolding balanced_def
  proof (intro conjI allI)
    fix d
    show "sem_available (ae_sem env) (get_sem (ap_pool ?st) d) + claimed d (ap_reservations ?st) (ap_jobs ?st)
        + opt_total (units d) (hm_get (ap_reservations st) i) = cap d"
      using balancedD(1) [OF bal, of d] hm_total_insert [of "units d" i r "ap_reservations st"]
      by (simp add: claimed_def)
  qed (use bal in \<open>simp_all add: balanced_def\<close>)
  from balanced_drop [OF laws this] show ?thesis by (simp add: keep_reservation_def)
qed

lemma balanced_remove:
  assumes laws: "semaphore_laws (ae_sem env)" and bal: "balanced env cap None st"
  shows "balanced env cap None (remove_reservation env i st)"
proof -
  let ?st = "st\<lparr>ap_reservations := hm_remove i (ap_reservations st)\<rparr>"
  have ok: "hm_ok (ap_reservations st)" using bal by (simp add: balanced_def)
  have "balanced env cap (hm_get (ap_reservations st) i) ?st"
    unfolding balanced_def
  proof (intro conjI allI)
    fix d
    show "sem_available (ae_sem env) (get_sem (ap_pool ?st) d) + claimed d (ap_reservations ?st) (ap_jobs ?st)
        + opt_total (units d) (hm_get (ap_reservations st) i) = cap d"
      using balancedD(1) [OF bal, of d] hm_total_remove [OF ok, of "units d" i]
      by (simp add: claimed_def)
  qed (use bal in \<open>simp_all add: balanced_def\<close>)
  from balanced_drop [OF laws this] show ?thesis by (simp add: remove_reservation_def)
qed

lemma balanced_admit:
  assumes laws: "semaphore_laws (ae_sem env)" and bal: "balanced env cap None st" and adm: "admit_spec env sp st = (st', r)"
  shows "balanced env cap (case r of Ok x \<Rightarrow> Some x | Err _ \<Rightarrow> None) st'"
proof -
  obtain p' q where a: "admit (ae_sem env) (ap_pool st) sp = (p', q)" by (cases "admit (ae_sem env) (ap_pool st) sp")
  have st': "st' = st\<lparr>ap_pool := p'\<rparr>" and r: "r = raised q" using adm a by (simp_all add: admit_spec_def)
  show ?thesis
  proof (cases q)
    case (Inl e)
    have "sem_available (ae_sem env) (get_sem (ap_pool st) d) \<le> MAX_PERMITS" for d
      using balancedD [OF bal, of d] by simp
    from admit_Err_unchanged(1) [OF laws, of "ap_pool st" sp p' e] a Inl this bal show ?thesis
      by (simp add: balanced_def st' r raised_def)
  next
    case (Inr x)
    have "need x d \<le> sem_available (ae_sem env) (get_sem (ap_pool st) d)"
      "sem_available (ae_sem env) (get_sem p' d) = sem_available (ae_sem env) (get_sem (ap_pool st) d) - need x d" for d
      using admit_Ok_effect(3,4) [OF laws, of "ap_pool st" sp p' x] a Inr by auto
    then have e: "sem_available (ae_sem env) (get_sem p' d) + need x d = sem_available (ae_sem env) (get_sem (ap_pool st) d)" for d
      by (metis le_add_diff_inverse2)
    have "sem_available (ae_sem env) (get_sem p' d) + claimed d (ap_reservations st) (ap_jobs st) + need x d = cap d" for d
      using balancedD(1) [OF bal, of d] e [of d] by simp
    with bal show ?thesis by (simp add: balanced_def st' r raised_def Inr units_def)
  qed
qed

lemma balanced_spawn: "balanced env cap (job_reservation j) st \<Longrightarrow> balanced env cap None (spawn j st)"
  by (simp add: balanced_def spawn_def claimed_def ac_simps)

text \<open>A task leaves the queue with its reservation in its hand.\<close>

lemma balanced_pop:
  assumes "balanced env cap None st" and "ap_jobs st = js @ j # js'"
  shows "balanced env cap (job_reservation j) (st\<lparr>ap_jobs := js @ js'\<rparr>)"
  using assms by (simp add: balanced_def claimed_def ac_simps)
section \<open>Every handler keeps the balance\<close>

lemma balanced_fields [simp]:
  "balanced env cap fl (st\<lparr>ap_provisioning := x\<rparr>) = balanced env cap fl st"
  "balanced env cap fl (st\<lparr>ap_image_jobs := ij\<rparr>) = balanced env cap fl st"
  "balanced env cap fl (st\<lparr>ap_world := w\<rparr>) = balanced env cap fl st"
  "balanced env cap fl (st\<lparr>ap_warm_slots := ws\<rparr>) = balanced env cap fl st"
  "balanced env cap fl (st\<lparr>ap_snapshots := sn\<rparr>) = balanced env cap fl st"
  "balanced env cap fl (st\<lparr>ap_processes := rg\<rparr>) = balanced env cap fl st"
  "balanced env cap fl (st\<lparr>ap_next_pid := n\<rparr>) = balanced env cap fl st"
  by (simp_all add: balanced_def)

lemma balanced_provision:
  assumes "semaphore_laws (ae_sem env)" and "balanced env cap r st"
  shows "balanced env cap None (fst (provision_sandbox env sb r slot sn ab st))"
proof (cases "provision_steps env sb slot sn ab st")
  case (Pair st' q)
  have b: "balanced env cap r st'" by (rule balanced_calm [OF calm_provision Pair assms(2)])
  show ?thesis
  proof (cases q)
    case (Inl e)
    then show ?thesis using balanced_drop [OF assms(1) b] by (simp add: provision_sandbox_def Pair)
  next
    case (Inr sb')
    then show ?thesis using b balanced_keep [OF assms(1)] by (cases r) (simp_all add: provision_sandbox_def Pair)
  qed
qed

lemma balanced_run_provision:
  assumes laws: "semaphore_laws (ae_sem env)" and bal: "balanced env cap r st"
  shows "balanced env cap None (fst (run_provision_with_slot_and_snapshot env sb r slot sn ab st))"
proof (cases "sb_id sb \<in> set (ap_provisioning st)")
  case True
  obtain st1 q where w: "discard_warm env (sb_id sb) st = (st1, q)" by (cases "discard_warm env (sb_id sb) st")
  have "balanced env cap r st1" by (rule balanced_calm [OF calm_discard_warm w bal])
  then have "balanced env cap None (drop_reservation env r st1)" "balanced env cap r st1"
    by (simp_all add: balanced_drop [OF laws])
  moreover have "q = Ok ()"
    using w discard_warm_Ok [of env "sb_id sb" st] by simp
  ultimately show ?thesis
    using True w by (simp add: run_provision_with_slot_and_snapshot_def and_then_def modify_def raise_def throw_def)
next
  case False
  let ?st = "st\<lparr>ap_provisioning := sb_id sb # ap_provisioning st\<rparr>"
  obtain st1 q where p: "provision_sandbox env sb r slot sn ab ?st = (st1, q)" by (cases "provision_sandbox env sb r slot sn ab ?st")
  have b: "balanced env cap None st1" using balanced_provision [OF laws, of cap r ?st sb slot sn ab] bal p by simp
  have "balanced env cap None (fst (discard_warm env (sb_id sb) (remove_reservation env (sb_id sb) st1)))"
    by (rule balanced_calm_fst [OF calm_discard_warm balanced_remove [OF laws b]])
  with b False p show ?thesis
    by (auto simp: run_provision_with_slot_and_snapshot_def Let_def split: sum.splits fault.splits)
qed

lemma balanced_recovery:
  assumes "semaphore_laws (ae_sem env)" and "balanced env cap r st"
  shows "balanced env cap None (run_recovery env sb r st)"
proof (cases "provision_sandbox env sb r None None None st")
  case (Pair st1 q)
  then have b: "balanced env cap None st1" using balanced_provision [OF assms, of sb None None None] by simp
  with balanced_remove [OF assms(1) b] Pair show ?thesis
    by (auto simp: run_recovery_def Let_def split: sum.splits fault.splits)
qed

lemma balanced_image_job: "balanced env cap fl (update_image_job j s e st) = balanced env cap fl st"
  by (simp add: update_image_job_def split: option.split)

lemma calm_plane [frame_intros]: "calm_comp (plane_read f)" "calm_comp (plane_call g)"
  unfolding plane_read_def plane_call_def by (intro frame_intros)+

lemma calm_build: "calm_comp (build_image_if_possible env t b)"
proof -
  have s: "calm_comp (set_build env t i status entry)" for i status entry
    unfolding set_build_def by (intro frame_intros)
  have f: "calm_comp m \<Longrightarrow> calm_comp (fold (\<lambda>h m. and_then (stop_vm env h) (\<lambda>_. m)) hs m)"
    for hs and m :: "('a, 'b, 'c, 'd, pool_slot option) app_comp"
    by (induction hs arbitrary: m) (simp_all add: frame_intros)
  have p: "calm_comp (\<lambda>st. case warm hash64 dt created started now now' uid sp (ap_warm_pool st) of
      (g', r, stopped) \<Rightarrow> fold (\<lambda>h m. and_then (stop_vm env h) (\<lambda>_. m)) stopped (ok r) (st\<lparr>ap_warm_pool := g'\<rparr>))"
    for hash64 dt created started now now' uid sp
    unfolding confined_def
  proof
    fix st :: "('a, 'b, 'c, 'd) app"
    obtain g' r stopped where w: "warm hash64 dt created started now now' uid sp (ap_warm_pool st) = (g', r, stopped)"
      by (cases "warm hash64 dt created started now now' uid sp (ap_warm_pool st)")
    have "same_ledger (st\<lparr>ap_warm_pool := g'\<rparr>)
        (fst (fold (\<lambda>h m. and_then (stop_vm env h) (\<lambda>_. m)) stopped (ok r) (st\<lparr>ap_warm_pool := g'\<rparr>)))"
      by (rule confined_at, rule f) (intro frame_intros)
    then show "same_ledger st (fst (case warm hash64 dt created started now now' uid sp (ap_warm_pool st) of
      (g', r, stopped) \<Rightarrow> fold (\<lambda>h m. and_then (stop_vm env h) (\<lambda>_. m)) stopped (ok r) (st\<lparr>ap_warm_pool := g'\<rparr>)))"
      by (simp add: w same_ledger_def ledger_def)
  qed
  have w: "calm_comp (warm_slot env sp)" for sp
    unfolding warm_slot_def start_created_def by (intro frame_intros p) (auto intro: frame_intros split: sum.split)
  have "same_ledger st (fst (build_begin env t b st))" for st :: "('a, 'b, 'c, 'd) app"
  proof -
    have "same_ledger st (fst (and_then (set_build env t i status entry) (\<lambda>x. ok (h x)) st))" for i status entry and h :: "build_record \<Rightarrow> build_record + sandbox_spec"
      by (rule confined_at) (intro frame_intros s)
    then show ?thesis by (simp add: build_begin_def calm.refl split: option.split)
  qed
  then have b: "calm_comp (build_begin env t b)" by (simp add: confined_def)
  have "calm_comp (build_finish env t b sp)" for sp
    unfolding build_finish_def by (auto intro!: frame_intros s w split: sum.split)
  then show ?thesis
    unfolding build_image_if_possible_def by (auto intro!: frame_intros b split: sum.split)
qed

lemma balanced_run_job:
  assumes "semaphore_laws (ae_sem env)" and "balanced env cap (job_reservation j) st"
  shows "balanced env cap None (run_job env j st)"
proof (cases j)
  case (ProvisionJob sb r slot)
  with assms(2) show ?thesis by (simp add: run_provision_with_slot_def balanced_run_provision [OF assms(1)])
next
  case (RecoverJob sb r)
  with assms(2) show ?thesis by (simp add: balanced_recovery [OF assms(1)])
next
  case (CloneJob sb r paths subnet)
  with assms(2) show ?thesis by (simp add: run_provision_from_snapshot_def balanced_run_provision [OF assms(1)])
next
  case (PumpJob r conn guest)
  with assms(2) show ?thesis by (simp add: run_pump_def Let_def split: prod.split)
next
  case (BuildJob t b)
  with assms(2) show ?thesis by (simp add: balanced_calm_fst [OF calm_build])
next
  case (PrefetchJob i im)
  obtain st' q where c: "call_within ''image prefetch timed out after 300s'' (ae_prefetch_image env (default_spec\<lparr>sp_image := im\<rparr>))
      (update_image_job i ''running'' None st) = (st', q)"
    by (cases "call_within ''image prefetch timed out after 300s'' (ae_prefetch_image env (default_spec\<lparr>sp_image := im\<rparr>))
      (update_image_job i ''running'' None st)")
  have "balanced env cap None st'"
    using balanced_calm [OF calm.f_call(2) c] assms(2) PrefetchJob by (simp add: balanced_image_job)
  then show ?thesis using PrefetchJob c
    by (auto simp: run_prefetch_def balanced_image_job split: sum.splits fault.splits)
qed
text \<open>A computation keeps the balance when it does so in both outcomes.\<close>

definition keeps :: "('s, 'q, 'f, 'w) app_env \<Rightarrow> ('s, 'q, 'f, 'w, 'a) app_comp \<Rightarrow> bool" where
  "keeps env m \<longleftrightarrow> (\<forall>cap st. balanced env cap None st \<longrightarrow> balanced env cap None (fst (m st)))"

lemma keepsD: "keeps env m \<Longrightarrow> balanced env cap None st \<Longrightarrow> balanced env cap None (fst (m st))"
  by (simp add: keeps_def)

lemma keeps_calm: "calm_comp m \<Longrightarrow> keeps env m"
  by (simp add: keeps_def balanced_calm_fst)

lemma keeps_and_then:
  assumes "keeps env m" and "\<And>a. keeps env (f a)"
  shows "keeps env (and_then m f)"
  unfolding keeps_def
proof (intro allI impI)
  fix cap st
  assume b: "balanced env cap None st"
  obtain st' q where m: "m st = (st', q)" by (cases "m st")
  then have b': "balanced env cap None st'" using assms(1) b by (metis keeps_def fst_conv)
  show "balanced env cap None (fst (and_then m f st))"
    using assms(2) b' by (cases q) (simp_all add: and_then_def m keeps_def)
qed

lemma keeps_modify: "(\<And>cap st. balanced env cap None st \<Longrightarrow> balanced env cap None (g st)) \<Longrightarrow> keeps env (modify g)"
  by (simp add: keeps_def modify_def)

text \<open>A reservation taken first and used by the rest of the handler.\<close>

lemma keeps_reserving:
  assumes "\<And>cap st st' q. balanced env cap None st \<Longrightarrow> m st = (st', q) \<Longrightarrow>
      balanced env cap (case q of Ok r \<Rightarrow> r | Err _ \<Rightarrow> None) st'"
    and "\<And>cap r st. balanced env cap r st \<Longrightarrow> balanced env cap None (fst (f r st))"
  shows "keeps env (and_then m f)"
  unfolding keeps_def
proof (intro allI impI)
  fix cap st
  assume b: "balanced env cap None st"
  obtain st' q where m: "m st = (st', q)" by (cases "m st")
  show "balanced env cap None (fst (and_then m f st))"
    using assms(1) [OF b m] assms(2) by (cases q) (simp_all add: and_then_def m)
qed

lemma reserve_balanced:
  assumes "semaphore_laws (ae_sem env)" and "balanced env cap None st" and "reserve env sp st = (st', q)"
  shows "balanced env cap (case q of Ok r \<Rightarrow> r | Err _ \<Rightarrow> None) st'"
proof (cases "ae_manage_resources env")
  case True
  obtain st1 p where a: "admit_spec env sp st = (st1, p)" by (cases "admit_spec env sp st")
  show ?thesis using balanced_admit [OF assms(1,2) a] assms(3) True
    by (cases p) (auto simp: reserve_def and_then_def a ok_def)
qed (use assms in \<open>auto simp: reserve_def ok_def\<close>)

lemma reserve_again_balanced:
  assumes "semaphore_laws (ae_sem env)" and "balanced env cap None st" and "reserve_again env i sp st = (st', q)"
  shows "balanced env cap (case q of Ok r \<Rightarrow> r | Err _ \<Rightarrow> None) st'"
proof (cases "ae_manage_resources env \<and> hm_get (ap_reservations st) i = None")
  case True
  obtain st1 p where a: "admit_spec env sp st = (st1, p)" by (cases "admit_spec env sp st")
  show ?thesis using balanced_admit [OF assms(1,2) a] assms(3) True
    by (cases p) (auto simp: reserve_again_def and_then_def a ok_def)
qed (use assms in \<open>auto simp: reserve_again_def\<close>)

text \<open>The rest of a handler after a calm part that holds the reservation.\<close>

lemma holding_balanced:
  assumes laws: "semaphore_laws (ae_sem env)" and "calm_comp m" and bal: "balanced env cap r st"
    and f: "\<And>a st'. balanced env cap r st' \<Longrightarrow> balanced env cap None (fst (f a st'))"
  shows "balanced env cap None (fst (and_then (holding env r m) f st))"
proof -
  obtain st' q where m: "m st = (st', q)" by (cases "m st")
  have "balanced env cap r st'" by (rule balanced_calm [OF assms(2) m bal])
  then show ?thesis using f balanced_drop [OF laws] by (cases q) (auto simp: and_then_def holding_def m)
qed
lemma calm_persist_new [frame_intros]: "calm_comp (persist_new env sb slot)"
proof -
  have "same_ledger st (fst (persist_new env sb slot st))" for st :: "('a, 'b, 'c, 'd) app"
  proof (cases "store_write (so_create (ae_store env) sb) st")
    case (Pair st1 q)
    have st1: "same_ledger st st1" using confinedD [OF calm_write Pair] .
    then have "same_ledger st (fst (discard_slot env s st1))" for s
      using calm.trans [OF st1] calm.f_discard [of env s] by (simp add: confined_def)
    with st1 show ?thesis
      by (auto simp: persist_new_def Pair same_ledger_def ledger_def split: sum.splits option.splits)
  qed
  then show ?thesis by (simp add: confined_def)
qed

lemma calm_admit_record [frame_intros]: "calm_comp (admit_record env sp)"
  unfolding admit_record_def by (intro frame_intros)

lemma calm_image_cached [frame_intros]: "calm_comp (image_cached env sp slot)"
  unfolding image_cached_def by (intro frame_intros)

lemma image_cached_Ok: "\<exists>b. snd (image_cached env sp slot st) = Ok b"
  by (auto simp: image_cached_def ok_def and_then_def world_def split: prod.split)

lemma create_tail_balanced:
  assumes laws: "semaphore_laws (ae_sem env)" and bal: "balanced env cap r st"
  shows "balanced env cap None (fst (and_then (image_cached env sp slot) (\<lambda>cached.
      if sync \<and> cached then and_then (run_provision_with_slot env sb r slot) (\<lambda>x. ok (f x))
      else and_then (modify (spawn (ProvisionJob sb r slot))) (\<lambda>_. ok g)) st))"
proof -
  obtain st1 b where c: "image_cached env sp slot st = (st1, Ok b)"
    using image_cached_Ok [of env sp slot st] by (metis prod.collapse)
  have b1: "balanced env cap r st1" by (rule balanced_calm [OF calm_image_cached c bal])
  have "balanced env cap None (fst (and_then (run_provision_with_slot env sb r slot) (\<lambda>x. ok (f x)) st1))"
    using balanced_run_provision [OF laws b1, of sb slot None None]
    by (auto simp: and_then_def run_provision_with_slot_def ok_def split: prod.splits sum.splits)
  moreover have "balanced env cap None (spawn (ProvisionJob sb r slot) st1)" using b1 by (simp add: balanced_spawn)
  ultimately show ?thesis by (simp add: and_then_run(1) [of "image_cached env sp slot", OF c]) (simp add: and_then_def modify_def ok_def)
qed

lemma keeps_create:
  assumes laws: "semaphore_laws (ae_sem env)"
  shows "keeps env (create_sandbox env pr rq)"
  unfolding create_sandbox_def Let_def
proof (rule keeps_and_then [OF keeps_calm [OF calm.confined_pure(3)]], rule keeps_reserving)
  fix cap st st' q
  assume "balanced env cap None st" and "reserve env ((cr_spec rq)\<lparr>sp_tenant_id := Some (pr_tenant_id pr)\<rparr>) st = (st', q)"
  then show "balanced env cap (case q of Ok r \<Rightarrow> r | Err _ \<Rightarrow> None) st'" by (rule reserve_balanced [OF laws])
qed (auto intro!: holding_balanced [OF laws calm_admit_record] create_tail_balanced [OF laws] simp: case_prod_beta)

lemma keeps_delete:
  assumes laws: "semaphore_laws (ae_sem env)"
  shows "keeps env (delete_sandbox env pr i)"
proof -
  have "keeps env (modify (release_snapshot i \<circ> remove_reservation env i))"
    by (rule keeps_modify) (simp add: release_snapshot_def balanced_remove [OF laws])
  moreover have "calm_comp (find_owned env pr i)" unfolding find_owned_def by (intro frame_intros)
  moreover have "calm_comp (stop_for_delete env i sb)" for sb
  proof -
    have "same_ledger st (fst (stop_for_delete env i sb st))" for st
    proof (cases "hm_get (ap_warm_slots st) i")
      case (Some slot)
      have "calm_comp (and_then (if sb_status sb = Paused then ignore (world (ae_vm_resume env (ps_vm_handle slot))) else ok ())
          (\<lambda>_. release_slot env slot))" by (intro frame_intros)
      then have "same_ledger (st\<lparr>ap_warm_slots := hm_remove i (ap_warm_slots st)\<rparr>) (fst (stop_for_delete env i sb st))"
        by (simp add: stop_for_delete_def Some confined_def)
      then show ?thesis by (simp add: same_ledger_def ledger_def)
    qed (simp add: stop_for_delete_def same_ledger_def ledger_def)
    then show ?thesis by (simp add: confined_def)
  qed
  ultimately show ?thesis
    unfolding delete_sandbox_def by (intro keeps_and_then) (auto intro: keeps_calm frame_intros)
qed

lemma calm_begin [frame_intros]: "calm_comp (begin_provisioning i e)"
  by (simp add: confined_def begin_provisioning_def same_ledger_def ledger_def)

lemma keeps_recover:
  assumes laws: "semaphore_laws (ae_sem env)"
  shows "keeps env (recover_sandbox env pr i)"
proof -
  have find: "calm_comp (find_owned env pr i)" unfolding find_owned_def by (intro frame_intros)
  have run: "calm_comp (still_running env i sb)" for sb
    unfolding still_running_def probe_ok_def by (intro frame_intros)
  have clear: "calm_comp (clear_runtime env i sb)" for sb
    unfolding clear_runtime_def by (intro frame_intros)
  have restart: "calm_comp (restart_record env i)" unfolding restart_record_def by (intro frame_intros)
  have tail: "keeps env (and_then (reserve_again env i sp) (\<lambda>r.
      and_then (holding env r (restart_record env i)) (\<lambda>fresh_sb.
      and_then (modify (spawn (RecoverJob fresh_sb r))) (\<lambda>_.
      and_then (store_get env i) (\<lambda>cur. ok (g cur))))))" for sp and g :: "sandbox \<Rightarrow> reply"
  proof (rule keeps_reserving)
    fix cap r st
    assume b: "balanced env cap r st"
    show "balanced env cap None (fst (and_then (holding env r (restart_record env i)) (\<lambda>fresh_sb.
        and_then (modify (spawn (RecoverJob fresh_sb r))) (\<lambda>_. and_then (store_get env i) (\<lambda>cur. ok (g cur)))) st))"
    proof (rule holding_balanced [OF laws restart b])
      fix a st' assume "balanced env cap r st'"
      then have s: "balanced env cap None (spawn (RecoverJob a r) st')" by (simp add: balanced_spawn)
      have "calm_comp (and_then (store_get env i) (\<lambda>cur. ok (g cur)))" by (intro frame_intros)
      from balanced_calm_fst [OF this s]
      show "balanced env cap None (fst (and_then (modify (spawn (RecoverJob a r))) (\<lambda>_. and_then (store_get env i) (\<lambda>cur. ok (g cur))) st'))"
        by (simp add: and_then_run(1) [of "modify (spawn (RecoverJob a r))"] modify_def)
    qed
  qed (rule reserve_again_balanced [OF laws])
  show ?thesis
    unfolding recover_sandbox_def
    by (intro keeps_and_then keeps_calm [OF find] keeps_calm [OF run])
      (auto intro!: keeps_and_then keeps_calm [OF clear] tail intro: keeps_calm frame_intros)
qed
section \<open>Reconciliation keeps the balance\<close>

lemma balanced_schedule:
  assumes "semaphore_laws (ae_sem env)" and "balanced env cap None st"
  shows "balanced env cap None (schedule_provision env sb st)"
proof (cases "reserve_again env (sb_id sb) (sb_spec sb) st")
  case (Pair st' q)
  from reserve_again_balanced [OF assms Pair] show ?thesis
    using assms(2) by (cases q) (auto simp: schedule_provision_def Pair balanced_spawn)
qed

lemma balanced_update: "balanced env cap None st \<Longrightarrow> balanced env cap None (fst (store_update env i u st))"
  by (rule balanced_calm_fst [OF calm_update])

lemma balanced_fail_record:
  assumes "semaphore_laws (ae_sem env)" and "balanced env cap None st"
  shows "balanced env cap None (fail_record env i msg st)"
  unfolding fail_record_def set_error_def by (intro balanced_remove balanced_update assms)

lemma balanced_restore:
  assumes laws: "semaphore_laws (ae_sem env)" and bal: "balanced env cap None st"
  shows "balanced env cap None (fst (restore_reservation env sb st))"
proof (cases "admit_spec env (sb_spec sb) st")
  case (Pair st' q)
  from balanced_admit [OF laws bal Pair] show ?thesis
    using bal balanced_keep [OF laws]
    by (auto simp: restore_reservation_def Pair set_error_def balanced_update split: sum.splits fault.splits)
qed

lemma balanced_check_runtime:
  assumes "semaphore_laws (ae_sem env)" and "balanced env cap None st"
  shows "balanced env cap None (check_runtime env sb st)"
  unfolding check_runtime_def check_guest_def Let_def
  using assms by (simp add: balanced_fail_record balanced_update split: prod.split option.split sum.split)

lemma balanced_retry:
  assumes laws: "semaphore_laws (ae_sem env)" and bal: "balanced env cap None st"
  shows "balanced env cap None (retry_failed env sb st)"
proof -
  let ?m = "and_then (store_update env (sb_id sb) (UVmmMeta (count_attempt (sb_vmm_meta sb))))
      (\<lambda>_. store_update env (sb_id sb) (UStatusMessage Starting None))"
  obtain st1 q where m: "?m st = (st1, q)" by (cases "?m st")
  have "calm_comp ?m" by (intro frame_intros)
  then have b1: "balanced env cap None st1" using m bal by (rule balanced_calm)
  obtain st2 p where g: "store_get env (sb_id sb) st1 = (st2, p)" by (cases "store_get env (sb_id sb) st1")
  have "balanced env cap None st2" by (rule balanced_calm [OF calm.f_get g b1])
  with b1 bal show ?thesis
    by (simp add: retry_failed_def m g balanced_schedule [OF laws] split: sum.split)
qed

lemma balanced_reconcile_record:
  assumes "semaphore_laws (ae_sem env)" and "balanced env cap None st"
  shows "balanced env cap None (reconcile_record env ready sb st)"
proof (cases "restore_reservation env sb st")
  case (Pair st1 b)
  with balanced_restore [OF assms] have "balanced env cap None st1" by (metis fst_conv)
  then show ?thesis
    by (simp add: reconcile_record_def Pair balanced_fail_record balanced_schedule balanced_check_runtime balanced_retry assms(1)
        split: bool.split)
qed

lemma balanced_reconcile:
  assumes laws: "semaphore_laws (ae_sem env)" and bal: "balanced env cap None st"
  shows "balanced env cap None (reconcile_sandboxes env st)"
proof -
  have f: "balanced env cap None (fold (reconcile_record env ready) sbs st0)" if "balanced env cap None st0" for ready sbs st0
    using that by (induction sbs arbitrary: st0) (simp_all add: balanced_reconcile_record [OF laws])
  obtain st1 q where l: "store_list env None st = (st1, q)" by (cases "store_list env None st")
  have b1: "balanced env cap None st1" by (rule balanced_calm [OF calm.f_list l bal])
  obtain st2 p where r: "ready_nodes env st1 = (st2, p)" by (cases "ready_nodes env st1")
  have "calm_comp (ready_nodes env)" unfolding ready_nodes_def by (intro frame_intros)
  then have "balanced env cap None st2" using r b1 by (rule balanced_calm)
  with b1 f show ?thesis by (simp add: reconcile_sandboxes_def l r split: sum.split)
qed

lemma keeps_adopt: "keeps env (adopt_observed env n is)"
proof (induction "is")
  case (Cons i "is")
  show ?case
    unfolding keeps_def
  proof (intro allI impI)
    fix cap st
    assume b: "balanced env cap None st"
    obtain st1 q where g: "store_get env i st = (st1, q)" by (cases "store_get env i st")
    have b1: "balanced env cap None st1" by (rule balanced_calm [OF calm.f_get g b])
    have "keeps env (and_then (store_update env i (UNode (Some n))) (\<lambda>_. adopt_observed env n is))"
      by (intro keeps_and_then keeps_calm frame_intros Cons.IH)
    with b1 Cons.IH show "balanced env cap None (fst (adopt_observed env n (i # is) st))"
      by (simp add: g keeps_def split: sum.split)
  qed
qed (simp add: keeps_calm frame_intros)

lemma keeps_unobserved:
  assumes "semaphore_laws (ae_sem env)"
  shows "keeps env (fail_unobserved env n ids sbs)"
proof (induction sbs)
  case (Cons sb sbs)
  have "keeps env (modify (remove_reservation env (sb_id sb)))" by (intro keeps_modify balanced_remove assms)
  then have "keeps env (and_then (store_update env (sb_id sb) u) (\<lambda>_.
      and_then (modify (remove_reservation env (sb_id sb))) (\<lambda>_. fail_unobserved env n ids sbs)))" for u
    by (intro keeps_and_then Cons.IH) (auto intro: keeps_calm frame_intros)
  with Cons.IH show ?case by simp
qed (simp add: keeps_calm frame_intros)

lemma keeps_upsert:
  assumes "semaphore_laws (ae_sem env)"
  shows "keeps env (upsert_node env n)"
proof -
  have "keeps env (and_then (store_write (ro_upsert_node (ae_records env) n)) (\<lambda>_.
      and_then (adopt_observed env (ni_node_id (rn_info n)) (rn_sandbox_ids n)) (\<lambda>_.
      and_then (store_list env None) (\<lambda>sbs. fail_unobserved env (ni_node_id (rn_info n)) (rn_sandbox_ids n) sbs))))"
    by (intro keeps_and_then keeps_adopt keeps_unobserved assms keeps_calm frame_intros)
  then show ?thesis by (simp add: upsert_node_def keeps_calm frame_intros)
qed

lemma keeps_queue_images: "keeps env (queue_images env t ims)"
proof (induction ims)
  case (Cons im ims)
  have "keeps env (modify (spawn (PrefetchJob j im) \<circ> insert_image_job x))" for j x
    by (intro keeps_modify) (simp add: balanced_spawn insert_image_job_def)
  then have "keeps env (and_then (world (ae_uuid env)) (\<lambda>j.
        and_then (modify (spawn (PrefetchJob j im) \<circ> insert_image_job (x j))) (\<lambda>_.
        and_then (queue_images env t ims) (\<lambda>js. ok (j # js)))))" for x
    by (intro keeps_and_then Cons.IH) (auto intro: keeps_calm frame_intros)
  then show ?case by (simp add: keeps_calm frame_intros)
qed (simp add: keeps_calm frame_intros)

end
