(* ===== verification/Lifecycle_Outcome.thy ===== *)
theory Lifecycle_Outcome
  imports Lifecycle_Safety Store_Sqlite
begin

text \<open>
  What the store holds after a handler, for every store that fulfils its contract. Provisioning
  writes only the record of its sandbox; when it fails, that record carries the error; when
  it succeeds, the record is running and names the machine.
\<close>

section \<open>The store under the handlers\<close>

definition store_frame ::
  "('s \<Rightarrow> bool) \<Rightarrow> ('s \<Rightarrow> string \<Rightarrow> sb_view option) \<Rightarrow> string
   \<Rightarrow> ('s, 'q, 'f, 'w) app \<Rightarrow> ('s, 'q, 'f, 'w) app \<Rightarrow> bool" where
  "store_frame I lookup i st st' \<longleftrightarrow>
     (I (ap_store st) \<longrightarrow>
        I (ap_store st') \<and> (\<forall>j. j \<noteq> i \<longrightarrow> lookup (ap_store st') j = lookup (ap_store st) j) \<and>
        (\<forall>v. lookup (ap_store st) i = Some v \<longrightarrow>
           (\<exists>v'. lookup (ap_store st') i = Some v' \<and> v_id v' = v_id v \<and> v_spec v' = v_spec v)) \<and>
        (lookup (ap_store st) i = None \<longrightarrow> lookup (ap_store st') i = None))"

text \<open>Provisioning never writes the specification.\<close>

fun not_spec :: "sb_update \<Rightarrow> bool" where
  "not_spec (USpec sp) = False"
| "not_spec u = True"

definition same_store :: "('s, 'q, 'f, 'w) app \<Rightarrow> ('s, 'q, 'f, 'w) app \<Rightarrow> bool" where
  "same_store st st' \<longleftrightarrow> ap_store st' = ap_store st"

interpretation still: effect_frame same_store env for env
  by unfold_locales (auto simp: same_store_def)

text \<open>A computation leaves the store alone when it succeeds.\<close>

definition quiet :: "('s, 'q, 'f, 'w, 'a) app_comp \<Rightarrow> bool" where
  "quiet m \<longleftrightarrow> (\<forall>st st' a. m st = (st', Ok a) \<longrightarrow> ap_store st' = ap_store st)"

lemma quiet_still: "confined same_store m \<Longrightarrow> quiet m"
  by (auto simp: quiet_def same_store_def dest: confinedD)

lemma quiet_and_then: "quiet m \<Longrightarrow> (\<And>a. quiet (f a)) \<Longrightarrow> quiet (and_then m f)"
  unfolding quiet_def by (auto simp: and_then_Ok) metis

lemma quiet_or_fail: "quiet m \<Longrightarrow> quiet (or_fail env i h m)"
  by (auto simp: quiet_def or_fail_def split: prod.splits sum.splits fault.splits)

text \<open>A computation whose errors are recorded in the store when it returns them.\<close>

definition marked ::
  "('s \<Rightarrow> bool) \<Rightarrow> ('s \<Rightarrow> string \<Rightarrow> sb_view option) \<Rightarrow> string \<Rightarrow> ('s, 'q, 'f, 'w, 'a) app_comp \<Rightarrow> bool" where
  "marked I lookup i m \<longleftrightarrow>
     (\<forall>st st' e. I (ap_store st) \<longrightarrow> lookup (ap_store st) i \<noteq> None \<longrightarrow> m st = (st', Err (Raised e)) \<longrightarrow>
        (\<exists>v. lookup (ap_store st') i = Some v \<and> v_status v = Error \<and> v_message v = Some (err_message e)))"

lemma markedD:
  "marked I lookup i m \<Longrightarrow> I (ap_store st) \<Longrightarrow> lookup (ap_store st) i \<noteq> None \<Longrightarrow> m st = (st', Err (Raised e)) \<Longrightarrow>
   \<exists>v. lookup (ap_store st') i = Some v \<and> v_status v = Error \<and> v_message v = Some (err_message e)"
  by (simp add: marked_def)

lemma marked_and_then:
  assumes "confined (store_frame I lookup i) m" and "marked I lookup i m" and "\<And>a. marked I lookup i (f a)"
  shows "marked I lookup i (and_then m f)"
  unfolding marked_def
proof (intro allI impI)
  fix st st' e
  assume st: "I (ap_store st)" "lookup (ap_store st) i \<noteq> None" and run: "and_then m f st = (st', Err (Raised e))"
  from run show "\<exists>v. lookup (ap_store st') i = Some v \<and> v_status v = Error \<and> v_message v = Some (err_message e)"
  proof (cases rule: and_then_cases)
    case (first e' s1)
    then show ?thesis using assms(2) st by (auto simp: marked_def)
  next
    case (second s1 a)
    have "I (ap_store s1)" "lookup (ap_store s1) i \<noteq> None"
      using confinedD [OF assms(1) second(1)] st by (auto simp: store_frame_def)
    then show ?thesis using assms(3) second(2) by (auto simp: marked_def)
  qed
qed

lemma marked_silent: "(\<And>st st' e. m st \<noteq> (st', Err (Raised e))) \<Longrightarrow> marked I lookup i m"
  by (simp add: marked_def)

text \<open>Both together, closed under sequencing.\<close>

definition recorded ::
  "('s \<Rightarrow> bool) \<Rightarrow> ('s \<Rightarrow> string \<Rightarrow> sb_view option) \<Rightarrow> string \<Rightarrow> ('s, 'q, 'f, 'w, 'a) app_comp \<Rightarrow> bool" where
  "recorded I lookup i m \<longleftrightarrow> confined (store_frame I lookup i) m \<and> marked I lookup i m"

lemma store_frame_preorder: "state_preorder (store_frame I lookup i)"
proof
  fix s s' s'' :: "('a, 'b, 'c, 'd) app"
  show "store_frame I lookup i s s''" if "store_frame I lookup i s s'" "store_frame I lookup i s' s''"
  proof (cases "I (ap_store s)")
    case True
    with that show ?thesis by (cases "lookup (ap_store s) i") (fastforce simp: store_frame_def)+
  qed (simp add: store_frame_def)
qed (simp add: store_frame_def)

lemma recorded_and_then:
  "recorded I lookup i m \<Longrightarrow> (\<And>a. recorded I lookup i (f a)) \<Longrightarrow> recorded I lookup i (and_then m f)"
  by (simp add: recorded_def marked_and_then state_preorder.confined_and_then [OF store_frame_preorder])

lemma recorded_still:
  "confined same_store m \<Longrightarrow> (\<And>st st' e. m st \<noteq> (st', Err (Raised e))) \<Longrightarrow> recorded I lookup i m"
  by (auto simp: recorded_def marked_silent confined_def same_store_def store_frame_def)

lemma recorded_ok: "recorded I lookup i (ok a)"
  by (rule recorded_still) (simp_all add: confined_def same_store_def ok_def)

lemma recorded_if: "recorded I lookup i m \<Longrightarrow> recorded I lookup i n \<Longrightarrow> recorded I lookup i (if b then m else n)"
  by simp

lemma recorded_option:
  "recorded I lookup i m \<Longrightarrow> (\<And>x. recorded I lookup i (f x)) \<Longrightarrow>
   recorded I lookup i (case v of None \<Rightarrow> m | Some x \<Rightarrow> f x)"
  by (cases v) simp_all

text \<open>The end of a provisioning that succeeds: the record runs, names its machine as the returned
  record does, and no longer counts attempts.\<close>

definition settled :: "('s \<Rightarrow> string \<Rightarrow> sb_view option) \<Rightarrow> sandbox \<Rightarrow> 's \<Rightarrow> bool" where
  "settled lk sb s \<longleftrightarrow> (\<exists>v. lk s (sb_id sb) = Some v \<and> v_status v = Running \<and> v_message v = None
     \<and> v_meta v = sb_vmm_meta sb \<and> me_vmm_id (v_meta v) \<noteq> None
     \<and> hm_get (me_extra (v_meta v)) ''recovery_attempts'' = None) \<and> sb_status sb = Running"

context sandbox_store
begin

lemma update_run:
  assumes "ae_store env = ops" and "inv (ap_store st)" and "lookup (ap_store st) i = Some v"
  shows "\<exists>st'. store_update env i u st = (st', Ok ()) \<and> inv (ap_store st')
    \<and> lookup (ap_store st') = (lookup (ap_store st))(i \<mapsto> apply_update u v)"
proof -
  obtain w now where w: "ae_now env (ap_world st) = (w, now)" by (cases "ae_now env (ap_world st)")
  show ?thesis
    using update_some [OF assms(2,3), of now u] assms(1) w
    by (auto simp: store_update_def and_then_def world_def store_write_def raised_def)
qed

lemma update_absent:
  assumes "ae_store env = ops" and "inv (ap_store st)" and "lookup (ap_store st) i = None"
  shows "ap_store (fst (store_update env i u st)) = ap_store st"
proof -
  obtain w now where w: "ae_now env (ap_world st) = (w, now)" by (cases "ae_now env (ap_world st)")
  show ?thesis
    using update_none [OF assms(2,3), of now u] assms(1) w
    by (auto simp: store_update_def and_then_def world_def store_write_def)
qed

lemma frame_update:
  assumes "ae_store env = ops" and "not_spec u"
  shows "store_frame inv lookup i st (fst (store_update env i u st))"
proof (cases "inv (ap_store st)")
  case inv: True
  show ?thesis
  proof (cases "lookup (ap_store st) i")
    case None
    then show ?thesis using update_absent [OF assms(1) inv None] by (simp add: store_frame_def)
  next
    case (Some v)
    have "v_id (apply_update u v) = v_id v" "v_spec (apply_update u v) = v_spec v" using assms(2) by (cases u; simp)+
    then show ?thesis
      using update_run [OF assms(1) inv Some, of u] Some by (auto simp: store_frame_def)
  qed
qed (simp add: store_frame_def)

lemma app_frame_store: "ae_store env = ops \<Longrightarrow> app_frame (store_frame inv lookup i) env i not_spec"
  by unfold_locales (auto simp: frame_update, auto simp: store_frame_def)

lemma still_frame: "confined same_store m \<Longrightarrow> confined (store_frame inv lookup i) m"
  by (auto simp: confined_def same_store_def store_frame_def)

lemma mark_failed_run:
  assumes "ae_store env = ops" and "inv (ap_store st)" and "lookup (ap_store st) i = Some v"
  shows "inv (ap_store (mark_failed env i e h st)) \<and> lookup (ap_store (mark_failed env i e h st))
    = (lookup (ap_store st))(i \<mapsto> v\<lparr>v_status := Error, v_message := Some (err_message e)\<rparr>)"
proof -
  obtain st1 where u: "store_update env i (UStatusMessage Error (Some (err_message e))) st = (st1, Ok ())"
    and l: "inv (ap_store st1)" "lookup (ap_store st1) = (lookup (ap_store st))(i \<mapsto> v\<lparr>v_status := Error, v_message := Some (err_message e)\<rparr>)"
    using update_run [OF assms, of "UStatusMessage Error (Some (err_message e))"] by auto
  have "same_store st1 (fst (and_then (case h of Some x \<Rightarrow> stop_vm env x | None \<Rightarrow> ok ()) (\<lambda>_.
      net_teardown env i (Option.bind h vh_subnet)) st1))"
    by (rule confined_at) (intro frame_intros)
  then show ?thesis using u l by (simp add: mark_failed_def and_then_def [of "ignore _"] ignore_def same_store_def)
qed

lemma marked_or_fail:
  assumes "ae_store env = ops" and "confined (store_frame inv lookup i) m"
  shows "marked inv lookup i (or_fail env i h m)"
  unfolding marked_def
proof (intro allI impI)
  fix st st' e
  assume st: "inv (ap_store st)" "lookup (ap_store st) i \<noteq> None" and run: "or_fail env i h m st = (st', Err (Raised e))"
  obtain st1 r where m: "m st = (st1, r)" by (cases "m st")
  have "r = Err (Raised e)" and st': "st' = mark_failed env i e h st1"
    using run by (auto simp: or_fail_def m split: sum.splits fault.splits)
  moreover obtain v where "inv (ap_store st1)" "lookup (ap_store st1) i = Some v"
    using confinedD [OF assms(2) m] st by (fastforce simp: store_frame_def)
  ultimately show "\<exists>v. lookup (ap_store st') i = Some v \<and> v_status v = Error \<and> v_message v = Some (err_message e)"
    using mark_failed_run [OF assms(1)] by auto
qed

lemma marked_update:
  assumes "ae_store env = ops"
  shows "marked inv lookup i (store_update env i u)"
  unfolding marked_def
proof (intro allI impI)
  fix st st' e
  assume "inv (ap_store st)" "lookup (ap_store st) i \<noteq> None" and run: "store_update env i u st = (st', Err (Raised e))"
  then show "\<exists>v. lookup (ap_store st') i = Some v \<and> v_status v = Error \<and> v_message v = Some (err_message e)"
    using update_run [OF assms, of st i _ u] by auto
qed

lemma recorded_or_fail:
  assumes "ae_store env = ops" and "confined (store_frame inv lookup i) m"
  shows "recorded inv lookup i (or_fail env i h m)"
  using marked_or_fail [OF assms] app_frame.f_or_fail [OF app_frame_store [OF assms(1)] assms(2)]
  by (simp add: recorded_def)

lemma recorded_call: "ae_store env = ops \<Longrightarrow> confined same_store m \<Longrightarrow> recorded inv lookup i (or_fail env i h m)"
  by (rule recorded_or_fail [OF _ still_frame])

lemma frame_step: "ae_store env = ops \<Longrightarrow> not_spec u \<Longrightarrow> confined (store_frame inv lookup i) (store_update env i u)"
  by (rule app_frame.f_update [OF app_frame_store])

lemma recorded_update: "ae_store env = ops \<Longrightarrow> not_spec u \<Longrightarrow> recorded inv lookup i (store_update env i u)"
  by (auto simp: recorded_def intro: marked_update app_frame.f_update [OF app_frame_store])

lemma recorded_finish:
  assumes ops: "ae_store env = ops" and start: "sb_status sb = Starting" and id: "sb_id sb = i"
  shows "recorded inv lookup i (finish_provision env sb h m)"
proof -
  have "snd (transition_now env sb AgentHello st) \<noteq> Err (Raised e)" for st e
    by (auto simp: transition_now_def and_then_def world_def sandbox_transition_def start transition_defs Let_def throw_def
        lift_result_def raised_def split: prod.splits option.splits)
  then have t: "recorded inv lookup i (transition_now env sb AgentHello)"
    by (intro recorded_still frame_intros) (metis snd_conv)
  show ?thesis
    unfolding finish_provision_def Let_def id
    by (intro recorded_and_then t recorded_if recorded_ok recorded_update recorded_or_fail frame_step ops) simp_all
qed

lemma recorded_prepare:
  assumes ops: "ae_store env = ops" and id: "sb_id sb = i"
  shows "recorded inv lookup i (prepare_guest env sb h conn)"
proof -
  have lim: "recorded inv lookup i (ignore (world f))" for f
    by (intro recorded_still frame_intros) (simp add: ignore_def)
  show ?thesis
    unfolding prepare_guest_def id by (intro recorded_and_then recorded_call lim ops frame_intros)
qed

lemma recorded_boot:
  assumes ops: "ae_store env = ops" and id: "sb_id sb = i"
  shows "recorded inv lookup i (boot_sandbox env sb slot sn ab)"
proof -
  have claim: "recorded inv lookup i (claim_source env sb slot sn ab)"
    by (intro recorded_still frame_intros)
      (auto simp: claim_source_def claim_snapshot_def and_then_def ok_def Let_def split: option.splits)
  have get: "recorded inv lookup i (obtain_vm env sb slot sn')" for sn'
    unfolding obtain_vm_def id
    by (auto split: option.split intro!: recorded_ok recorded_call ops frame_intros)
  have rec: "recorded inv lookup i (record_vm env i h m)" for h m
    unfolding record_vm_def
    by (intro recorded_and_then recorded_option recorded_ok recorded_or_fail frame_step ops) simp_all
  show ?thesis
    unfolding boot_sandbox_def Let_def case_prod_beta id
    by (intro recorded_and_then claim get rec recorded_if recorded_ok recorded_call recorded_prepare ops
        frame_intros) (simp add: id)
qed

lemma recorded_provision:
  assumes "ae_store env = ops" and "sb_id sb = i" and "sb_status sb = Starting"
  shows "recorded inv lookup i (provision_steps env sb slot sn ab)"
  unfolding provision_steps_def case_prod_beta
  by (intro recorded_and_then recorded_boot recorded_finish assms) (simp_all add: assms)

lemma transition_Ok:
  assumes "transition_now env sb AgentHello st = (st', Ok sb')"
  shows "ap_store st' = ap_store st \<and> sb_status sb' = Running \<and> sb_vmm_meta sb' = sb_vmm_meta sb \<and> sb_id sb' = sb_id sb
    \<and> sb_spec sb' = sb_spec sb"
proof -
  have "sb_status sb' = Running" "sb_vmm_meta sb' = sb_vmm_meta sb" "sb_id sb' = sb_id sb" "sb_spec sb' = sb_spec sb"
    using assms by (cases "sb_status sb"; auto simp: transition_now_def and_then_def world_def sandbox_transition_def transition_defs
        Let_def throw_def lift_result_def raised_def split: prod.splits option.splits)+
  moreover have "confined same_store (transition_now env sb AgentHello)" by (intro frame_intros)
  then have "ap_store st' = ap_store st" using confinedD assms by (fastforce simp: same_store_def)
  ultimately show ?thesis by simp
qed

lemma or_fail_Ok: "or_fail env i h m st = (st', Ok a) \<longleftrightarrow> m st = (st', Ok a)"
  by (auto simp: or_fail_def split: prod.splits sum.splits fault.splits)

lemma finish_Ok:
  assumes ops: "ae_store env = ops" and st: "inv (ap_store st)" "lookup (ap_store st) (sb_id sb) = Some v"
    and m: "v_meta v = m" "sb_vmm_meta sb = m" "me_vmm_id m \<noteq> None"
    and run: "finish_provision env sb h m st = (st', Ok sb')"
  shows "settled lookup sb' (ap_store st') \<and> sb_id sb' = sb_id sb"
proof -
  let ?i = "sb_id sb"
  obtain s1 s2 s3 sb1 where t: "transition_now env sb AgentHello st = (s1, Ok sb1)"
    and u1: "store_update env ?i (UStatusMessage Running None) s1 = (s2, Ok ())"
    and u2: "store_update env ?i (UExpiry (sb_expires_at sb1)) s2 = (s3, Ok ())"
    and rest: "(if hm_get (me_extra m) ''recovery_attempts'' \<noteq> None then
        and_then (store_update env ?i (UVmmMeta (m\<lparr>me_extra := hm_remove ''recovery_attempts'' (me_extra m)\<rparr>)))
          (\<lambda>_. ok (sb1\<lparr>sb_vmm_meta := m\<lparr>me_extra := hm_remove ''recovery_attempts'' (me_extra m)\<rparr>\<rparr>))
      else ok sb1) s3 = (st', Ok sb')"
    using run unfolding finish_provision_def Let_def by (auto simp: and_then_Ok or_fail_Ok)
  note t' = transition_Ok [OF t]
  have s1: "inv (ap_store s1)" "lookup (ap_store s1) ?i = Some v" using st t' by simp_all
  let ?v = "v\<lparr>v_status := Running, v_message := None\<rparr>"
  have s2: "inv (ap_store s2)" "lookup (ap_store s2) ?i = Some ?v"
    using update_run [OF ops s1, of "UStatusMessage Running None"] u1 by auto
  have s3: "inv (ap_store s3)" "lookup (ap_store s3) ?i = Some ?v"
    using update_run [OF ops s2, of "UExpiry (sb_expires_at sb1)"] u2 by auto
  show ?thesis
  proof (cases "hm_get (me_extra m) ''recovery_attempts''")
    case None
    then show ?thesis using rest s3 t' m by (auto simp: ok_def settled_def)
  next
    case (Some x)
    let ?m = "m\<lparr>me_extra := hm_remove ''recovery_attempts'' (me_extra m)\<rparr>"
    have "lookup (ap_store st') ?i = Some (?v\<lparr>v_meta := ?m\<rparr>)" "sb' = sb1\<lparr>sb_vmm_meta := ?m\<rparr>"
      using rest Some update_run [OF ops s3, of "UVmmMeta ?m"] by (auto simp: and_then_Ok ok_def)
    then show ?thesis using t' m by (auto simp: settled_def)
  qed
qed

lemma record_Ok:
  assumes ops: "ae_store env = ops" and st: "inv (ap_store st)" "lookup (ap_store st) i = Some v"
    and run: "record_vm env i h m st = (st', Ok ())"
  shows "\<exists>v. inv (ap_store st') \<and> lookup (ap_store st') i = Some v \<and> v_meta v = m"
proof -
  obtain s1 where u: "store_update env i (UVmmMeta m) st = (s1, Ok ())"
    and rest: "(case vh_owner_id h of Some owner \<Rightarrow> or_fail env i (Some h) (store_update env i (UNode (Some owner)))
        | None \<Rightarrow> ok ()) s1 = (st', Ok ())"
    using run unfolding record_vm_def by (auto simp: and_then_Ok or_fail_Ok)
  have s1: "inv (ap_store s1)" "lookup (ap_store s1) i = Some (v\<lparr>v_meta := m\<rparr>)"
    using update_run [OF ops st, of "UVmmMeta m"] u by auto
  show ?thesis
  proof (cases "vh_owner_id h")
    case (Some owner)
    then show ?thesis using rest update_run [OF ops s1, of "UNode (Some owner)"] by (auto simp: or_fail_Ok)
  qed (use rest s1 in \<open>auto simp: ok_def\<close>)
qed

lemma boot_Ok:
  assumes ops: "ae_store env = ops" and st: "inv (ap_store st)" "lookup (ap_store st) (sb_id sb) = Some v"
    and run: "boot_sandbox env sb slot sn ab st = (st', Ok (h, meta))"
  shows "inv (ap_store st') \<and> (\<exists>v. lookup (ap_store st') (sb_id sb) = Some v \<and> v_meta v = meta) \<and> me_vmm_id meta \<noteq> None"
proof -
  let ?i = "sb_id sb" and ?sb1 = "sb\<lparr>sb_vmm_meta := meta\<rparr>"
  obtain s1 s2 s3 s4 s5 s6 s7 sn' ab' h0 conn where c: "claim_source env sb slot sn ab st = (s1, Ok (sn', ab'))"
    and n: "or_fail env ?i None (net_create env ?i ab') s1 = (s2, Ok ())"
    and g: "obtain_vm env sb slot sn' s2 = (s3, Ok h0)"
    and meta: "meta = handle_to_meta h (bound_extra ab' sb)"
    and r: "record_vm env ?i h meta s3 = (s4, Ok ())"
    and a: "(if slot = None \<and> sn' = None then or_fail env ?i (Some h) (call (ae_vm_start env h)) else ok ()) s4 = (s5, Ok ())"
    and b: "or_fail env ?i (Some h) (net_setup env ?sb1 ab') s5 = (s6, Ok ())"
    and d: "or_fail env ?i (Some h) (call_within (hello_timeout_text ?sb1)
                   (ae_hello_within env (unat (sp_start_timeout_secs (sb_spec ?sb1))) h ?i)) s6 = (s7, Ok conn)"
    and e: "prepare_guest env ?sb1 h conn s7 = (st', Ok ())"
    using run unfolding boot_sandbox_def Let_def by (auto simp: and_then_Ok ok_def [of "(_, _)"])
  have q: "quiet (claim_source env sb slot sn ab)" "quiet (or_fail env ?i None (net_create env ?i ab'))"
    by (intro quiet_or_fail quiet_still frame_intros)+
  have "quiet (obtain_vm env sb slot sn')"
    unfolding obtain_vm_def
    by (cases slot; cases sn'; simp) (intro quiet_or_fail quiet_still frame_intros)+
  then have s3: "ap_store s3 = ap_store st" using q c n g unfolding quiet_def by metis
  obtain v4 where s4: "inv (ap_store s4)" "lookup (ap_store s4) ?i = Some v4" "v_meta v4 = meta"
    using record_Ok [OF ops _ _ r] st s3 by auto
  have qs: "quiet (if slot = None \<and> sn' = None then or_fail env ?i (Some h) (call (ae_vm_start env h)) else ok ())"
    "quiet (or_fail env ?i (Some h) (net_setup env ?sb1 ab'))"
    "quiet (or_fail env ?i (Some h) (call_within (hello_timeout_text ?sb1)
       (ae_hello_within env (unat (sp_start_timeout_secs (sb_spec ?sb1))) h ?i)))"
    by (simp_all, (intro quiet_or_fail quiet_still frame_intros impI conjI)+)
  have "quiet (prepare_guest env ?sb1 h conn)"
    unfolding prepare_guest_def by (intro quiet_and_then quiet_or_fail quiet_still frame_intros)
  then have "ap_store st' = ap_store s4" using qs a b d e unfolding quiet_def by metis
  then show ?thesis using s4 meta by (simp add: handle_to_meta_def)
qed

lemma provision_Ok:
  assumes ops: "ae_store env = ops" and st: "inv (ap_store st)" "lookup (ap_store st) (sb_id sb) = Some v"
    and run: "provision_steps env sb slot sn ab st = (st', Ok sb')"
  shows "settled lookup sb' (ap_store st') \<and> sb_id sb' = sb_id sb"
proof -
  obtain s1 h meta where b: "boot_sandbox env sb slot sn ab st = (s1, Ok (h, meta))"
    and f: "finish_provision env (sb\<lparr>sb_vmm_meta := meta\<rparr>) h meta s1 = (st', Ok sb')"
    using run unfolding provision_steps_def by (auto simp: and_then_Ok)
  from boot_Ok [OF ops st b] finish_Ok [OF ops _ _ _ _ _ f] show ?thesis by auto
qed

end

section \<open>The desk\<close>

text \<open>The set of sandboxes in provisioning and the slots lent to sandboxes; no step of a
  provisioning touches them.\<close>

definition same_desk :: "('s, 'q, 'f, 'w) app \<Rightarrow> ('s, 'q, 'f, 'w) app \<Rightarrow> bool" where
  "same_desk st st' \<longleftrightarrow> ap_provisioning st' = ap_provisioning st \<and> ap_warm_slots st' = ap_warm_slots st"

interpretation desk: app_frame same_desk env i "\<lambda>_. True" for env i
proof
  show "same_desk st (fst (store_update env i u st))" for st u
    by (simp add: same_desk_def store_update_def store_write_def world_def and_then_def split: prod.split)
qed (auto simp: same_desk_def)

lemma drop_fields [simp]:
  "ap_store (drop_reservation env r st) = ap_store st" "ap_reservations (drop_reservation env r st) = ap_reservations st"
  "ap_provisioning (drop_reservation env r st) = ap_provisioning st" "ap_warm_slots (drop_reservation env r st) = ap_warm_slots st"
  "ap_snapshots (drop_reservation env r st) = ap_snapshots st" "ap_jobs (drop_reservation env r st) = ap_jobs st" "ap_world (drop_reservation env r st) = ap_world st"
  by (simp_all add: drop_reservation_def split: option.split)

lemma keep_fields [simp]:
  "ap_store (keep_reservation env i r st) = ap_store st"
  "ap_reservations (keep_reservation env i r st) = hm_insert i r (ap_reservations st)"
  "ap_provisioning (keep_reservation env i r st) = ap_provisioning st"
  "ap_warm_slots (keep_reservation env i r st) = ap_warm_slots st"
  by (simp_all add: keep_reservation_def)

lemma remove_fields [simp]:
  "ap_store (remove_reservation env i st) = ap_store st"
  "ap_reservations (remove_reservation env i st) = hm_remove i (ap_reservations st)"
  "ap_provisioning (remove_reservation env i st) = ap_provisioning st"
  "ap_warm_slots (remove_reservation env i st) = ap_warm_slots st"
  "ap_snapshots (remove_reservation env i st) = ap_snapshots st" "ap_jobs (remove_reservation env i st) = ap_jobs st"
  by (simp_all add: remove_reservation_def)

text \<open>Discarding the slot of a sandbox changes only the warm pool, the map of slots and the world.\<close>

lemma discard_warm_fields [simp]:
  "ap_store (fst (discard_warm env i st)) = ap_store st"
  "ap_provisioning (fst (discard_warm env i st)) = ap_provisioning st"
  "ap_warm_slots (fst (discard_warm env i st)) = (if hm_get (ap_warm_slots st) i = None then ap_warm_slots st else hm_remove i (ap_warm_slots st))"
  "ap_reservations (fst (discard_warm env i st)) = ap_reservations st" "ap_jobs (fst (discard_warm env i st)) = ap_jobs st"
proof -
  have "same_store st0 (fst (discard_slot env slot st0))" "same_desk st0 (fst (discard_slot env slot st0))" for slot st0
    by (rule confined_at, intro frame_intros)+
  then show "ap_store (fst (discard_warm env i st)) = ap_store st"
    "ap_provisioning (fst (discard_warm env i st)) = ap_provisioning st"
    "ap_warm_slots (fst (discard_warm env i st)) = (if hm_get (ap_warm_slots st) i = None then ap_warm_slots st else hm_remove i (ap_warm_slots st))"
    by (auto simp: discard_warm_def same_store_def same_desk_def split: option.split)
  show "ap_reservations (fst (discard_warm env i st)) = ap_reservations st" "ap_jobs (fst (discard_warm env i st)) = ap_jobs st"
    using confined_at [OF calm_discard_warm [of env i], of st] by (simp_all add: same_ledger_def ledger_def)
qed

lemma discard_warm_gone: "hm_get (ap_warm_slots (fst (discard_warm env i st))) i = None"
  by simp

section \<open>Provisioning, in the end\<close>

text \<open>What the end of the task shows, in its three outcomes.\<close>

definition provision_end ::
  "('s \<Rightarrow> string \<Rightarrow> sb_view option) \<Rightarrow> sandbox \<Rightarrow> resources option \<Rightarrow> ('s, 'q, 'f, 'w) app
   \<Rightarrow> (sandbox, fault) result \<Rightarrow> bool" where
  "provision_end lookup sb r st' res \<longleftrightarrow>
     (case res of
        Ok sb' \<Rightarrow> settled lookup sb' (ap_store st') \<and> sb_id sb' = sb_id sb \<and> sb_id sb \<notin> set (ap_provisioning st')
          \<and> (\<forall>x. r = Some x \<longrightarrow> hm_get (ap_reservations st') (sb_id sb) = Some x)
      | Err (Raised e) \<Rightarrow>
          (\<exists>v. lookup (ap_store st') (sb_id sb) = Some v \<and> v_status v = Error \<and> v_message v = Some (err_message e))
          \<and> hm_get (ap_reservations st') (sb_id sb) = None \<and> hm_get (ap_warm_slots st') (sb_id sb) = None
          \<and> sb_id sb \<notin> set (ap_provisioning st')
      | Err Panicked \<Rightarrow> sb_id sb \<in> set (ap_provisioning st'))"

lemma provision_end_run:
  assumes store: "sandbox_store (ae_store env) I lookup" and st: "I (ap_store st)" "lookup (ap_store st) (sb_id sb) = Some v"
    and start: "sb_status sb = Starting" and free: "sb_id sb \<notin> set (ap_provisioning st)"
    and run: "run_provision_with_slot_and_snapshot env sb r slot sn ab st = (st', res)"
  shows "provision_end lookup sb r st' res \<and> (\<forall>j. j \<noteq> sb_id sb \<longrightarrow> lookup (ap_store st') j = lookup (ap_store st) j)"
proof -
  let ?i = "sb_id sb"
  let ?st = "st\<lparr>ap_provisioning := ?i # ap_provisioning st\<rparr>"
  obtain st1 q where p: "provision_steps env sb slot sn ab ?st = (st1, q)" by (cases "provision_steps env sb slot sn ab ?st")
  have rec: "recorded I lookup ?i (provision_steps env sb slot sn ab)"
    by (rule sandbox_store.recorded_provision [OF store HOL.refl HOL.refl start])
  have fr: "store_frame I lookup ?i ?st st1" using rec p by (auto simp: recorded_def dest: confinedD)
  then have others: "lookup (ap_store st1) j = lookup (ap_store st) j" if "j \<noteq> ?i" for j
    using st(1) that by (simp add: store_frame_def)
  have desk: "ap_provisioning st1 = ?i # ap_provisioning st"
    using confinedD [OF desk.f_provision [OF HOL.refl TrueI TrueI] p] by (simp add: same_desk_def)
  have free1: "?i \<notin> set (removeAll ?i xs)" for xs by simp
  show ?thesis
  proof (cases q)
    case (Inr sb')
    have "settled lookup sb' (ap_store st1) \<and> sb_id sb' = ?i"
      using sandbox_store.provision_Ok [OF store HOL.refl, of ?st sb v slot sn ab st1 sb'] st p Inr by simp
    then show ?thesis using run free p Inr others
      by (auto simp: run_provision_with_slot_and_snapshot_def provision_sandbox_def provision_end_def Let_def split: option.splits)
  next
    case (Inl f)
    show ?thesis
    proof (cases f)
      case (Raised e)
      have "\<exists>v. lookup (ap_store st1) ?i = Some v \<and> v_status v = Error \<and> v_message v = Some (err_message e)"
        using markedD [of I lookup ?i "provision_steps env sb slot sn ab" ?st st1 e] rec st p Inl Raised by (simp add: recorded_def)
      then show ?thesis using run free p Inl Raised others discard_warm_gone
        by (auto simp: run_provision_with_slot_and_snapshot_def provision_sandbox_def provision_end_def Let_def)
    next
      case Panicked
      then show ?thesis using run free p Inl desk others
        by (auto simp: run_provision_with_slot_and_snapshot_def provision_sandbox_def provision_end_def Let_def)
    qed
  qed
qed
end
