(* ===== verification/Lifecycle_Retry.thy ===== *)
theory Lifecycle_Retry
  imports Lifecycle_Outcome
begin

text \<open>
  The restarts of a failed sandbox. The number of attempts is kept in the metadata of the record:
  reconciliation counts one up before it starts the sandbox again, a provisioning that
  fails keeps the count and one that succeeds clears it. So a sandbox that keeps failing is
  started again at most three times.
\<close>

section \<open>A failing provisioning keeps the count\<close>

definition attempts_frame ::
  "('s \<Rightarrow> bool) \<Rightarrow> ('s \<Rightarrow> string \<Rightarrow> sb_view option) \<Rightarrow> string \<Rightarrow> nat
   \<Rightarrow> ('s, 'q, 'f, 'w) app \<Rightarrow> ('s, 'q, 'f, 'w) app \<Rightarrow> bool" where
  "attempts_frame I lookup i n st st' \<longleftrightarrow>
     (I (ap_store st) \<and> (\<exists>v. lookup (ap_store st) i = Some v \<and> recovery_attempts (v_meta v) = n) \<longrightarrow>
      I (ap_store st') \<and> (\<exists>v. lookup (ap_store st') i = Some v \<and> recovery_attempts (v_meta v) = n))"

fun keeps_count :: "nat \<Rightarrow> sb_update \<Rightarrow> bool" where
  "keeps_count n (UVmmMeta m) = (recovery_attempts m = n)"
| "keeps_count n u = True"

lemma attempts_bound [simp]: "recovery_attempts (handle_to_meta h (bound_extra ab sb)) = recovery_attempts (sb_vmm_meta sb)"
  by (simp add: recovery_attempts_def handle_to_meta_def bound_extra_def split: option.split)

lemma attempts_counted [simp]: "recovery_attempts m < 255 \<Longrightarrow> recovery_attempts (count_attempt m) = Suc (recovery_attempts m)"
  unfolding recovery_attempts_def [of "count_attempt m"] by (simp add: count_attempt_def)

context sandbox_store
begin

lemma app_frame_attempts:
  assumes ops: "ae_store env = ops"
  shows "app_frame (attempts_frame inv lookup i n) env i (keeps_count n)"
proof
  fix st and u
  assume u: "keeps_count n u"
  show "attempts_frame inv lookup i n st (fst (store_update env i u st))"
    unfolding attempts_frame_def
  proof
    assume "inv (ap_store st) \<and> (\<exists>v. lookup (ap_store st) i = Some v \<and> recovery_attempts (v_meta v) = n)"
    then obtain v where v: "inv (ap_store st)" "lookup (ap_store st) i = Some v" "recovery_attempts (v_meta v) = n" by blast
    have "recovery_attempts (v_meta (apply_update u v)) = n" using u v(3) by (cases u) simp_all
    then show "inv (ap_store (fst (store_update env i u st)))
        \<and> (\<exists>v. lookup (ap_store (fst (store_update env i u st))) i = Some v \<and> recovery_attempts (v_meta v) = n)"
      using update_run [OF ops v(1,2), of u] by auto
  qed
qed (auto simp: attempts_frame_def)

lemma finish_not_raised:
  assumes ops: "ae_store env = ops" and st: "inv (ap_store st)" "lookup (ap_store st) (sb_id sb) = Some v"
    and start: "sb_status sb = Starting"
  shows "finish_provision env sb h m st \<noteq> (st', Err (Raised e))"
proof
  let ?i = "sb_id sb"
  assume run: "finish_provision env sb h m st = (st', Err (Raised e))"
  have no: "transition_now env sb AgentHello st \<noteq> (s, Err (Raised e))" for s
    by (auto simp: transition_now_def and_then_def world_def sandbox_transition_def start transition_defs Let_def throw_def
        lift_result_def raised_def split: prod.splits option.splits)
  then obtain s1 sb1 where t: "transition_now env sb AgentHello st = (s1, Ok sb1)"
    using run unfolding finish_provision_def
    by (cases "transition_now env sb AgentHello st"; cases "snd (transition_now env sb AgentHello st)") (auto simp: and_then_def)
  have s1: "inv (ap_store s1)" "lookup (ap_store s1) ?i = Some v" using st transition_Ok [OF t] by simp_all
  obtain s2 where u1: "store_update env ?i (UStatusMessage Running None) s1 = (s2, Ok ())" "inv (ap_store s2)"
      "lookup (ap_store s2) ?i \<noteq> None"
    using update_run [OF ops s1, of "UStatusMessage Running None"] by auto
  then obtain s3 where u2: "store_update env ?i (UExpiry (sb_expires_at sb1)) s2 = (s3, Ok ())" "inv (ap_store s3)"
      "lookup (ap_store s3) ?i \<noteq> None"
    using update_run [OF ops, of s2 ?i _ "UExpiry (sb_expires_at sb1)"] by fastforce
  then obtain w where w: "lookup (ap_store s3) ?i = Some w" by blast
  have f1: "or_fail env ?i (Some h) (store_update env ?i (UStatusMessage Running None)) s1 = (s2, Ok ())"
    using u1(1) by (simp add: or_fail_def)
  let ?m = "m\<lparr>me_extra := hm_remove ''recovery_attempts'' (me_extra m)\<rparr>"
  obtain s4 where u3: "store_update env ?i (UVmmMeta ?m) s3 = (s4, Ok ())"
    using update_run [OF ops u2(2) w, of "UVmmMeta ?m"] by blast
  have "snd (finish_provision env sb h m st) \<noteq> Err (Raised e)"
    unfolding finish_provision_def Let_def and_then_run(1) [of "transition_now env sb AgentHello", OF t]
      and_then_run(1) [of "or_fail env ?i (Some h) (store_update env ?i (UStatusMessage Running None))", OF f1]
      and_then_run(1) [of "store_update env ?i (UExpiry (sb_expires_at sb1))", OF u2(1)]
    by (simp add: and_then_run(1) [of "store_update env ?i (UVmmMeta ?m)", OF u3] ok_def)
  with run show False by simp
qed

lemma failed_keeps_attempts:
  assumes ops: "ae_store env = ops" and st: "inv (ap_store st)" "lookup (ap_store st) (sb_id sb) = Some v"
    and start: "sb_status sb = Starting" and n: "v_meta v = sb_vmm_meta sb"
    and run: "provision_steps env sb slot sn ab st = (st', Err (Raised e))"
  shows "\<exists>v'. lookup (ap_store st') (sb_id sb) = Some v' \<and> recovery_attempts (v_meta v') = recovery_attempts (sb_vmm_meta sb)"
proof -
  let ?n = "recovery_attempts (sb_vmm_meta sb)"
  have boot: "confined (attempts_frame inv lookup (sb_id sb) ?n) (boot_sandbox env sb slot sn ab)"
    by (rule app_frame.f_boot [OF app_frame_attempts [OF ops]]) simp_all
  from run show ?thesis unfolding provision_steps_def
  proof (cases rule: and_then_cases)
    case (first e' s1)
    from confinedD [OF boot first(1)] st n first(2) show ?thesis by (auto simp: attempts_frame_def)
  next
    case (second s1 a)
    obtain h meta where a: "a = (h, meta)" by (cases a)
    from boot_Ok [OF ops st] second(1) a obtain v1 where "inv (ap_store s1)" "lookup (ap_store s1) (sb_id sb) = Some v1" by blast
    then have "finish_provision env (sb\<lparr>sb_vmm_meta := meta\<rparr>) h meta s1 \<noteq> (st', Err (Raised e))"
      using finish_not_raised [OF ops, of s1 "sb\<lparr>sb_vmm_meta := meta\<rparr>" v1] start by simp
    with second(2) a show ?thesis by simp
  qed
qed

end
section \<open>Rounds\<close>

text \<open>One round: reconciliation looks at the record, and a task it spawned runs. The number counts
  the tasks.\<close>

definition retry_round ::
  "('s, 'q, 'f, 'w) app_env \<Rightarrow> string \<Rightarrow> ('s, 'q, 'f, 'w) app \<Rightarrow> ('s, 'q, 'f, 'w) app \<times> nat" where
  "retry_round env i st =
     (case store_get env i st of
        (st1, Err _) \<Rightarrow> (st1, 0)
      | (st1, Ok sb) \<Rightarrow>
          (let st2 = reconcile_record env None sb st1 in
           case ap_jobs st2 of
             [] \<Rightarrow> (st2, 0)
           | j # js \<Rightarrow> (run_job env j (st2\<lparr>ap_jobs := js\<rparr>), 1)))"

fun retry_rounds ::
  "('s, 'q, 'f, 'w) app_env \<Rightarrow> string \<Rightarrow> nat \<Rightarrow> ('s, 'q, 'f, 'w) app \<Rightarrow> ('s, 'q, 'f, 'w) app \<times> nat" where
  "retry_rounds env i 0 st = (st, 0)"
| "retry_rounds env i (Suc n) st =
     (let (st1, k) = retry_round env i st; (st2, l) = retry_rounds env i n st1 in (st2, k + l))"

text \<open>A failed record with \<open>n\<close> attempts, and no task of its own.\<close>

definition idle_failed ::
  "('s \<Rightarrow> bool) \<Rightarrow> ('s \<Rightarrow> string \<Rightarrow> sb_view option) \<Rightarrow> string \<Rightarrow> nat \<Rightarrow> ('s, 'q, 'f, 'w) app \<Rightarrow> bool" where
  "idle_failed I lookup i n st \<longleftrightarrow> I (ap_store st) \<and> i \<notin> set (ap_provisioning st) \<and> ap_jobs st = []
     \<and> (\<exists>v. lookup (ap_store st) i = Some v \<and> v_status v = Error \<and> sp_restart_policy (v_spec v) \<noteq> Never
          \<and> recovery_attempts (v_meta v) = n)"

lemma reconcile_failed:
  "sb_status sb = Error \<Longrightarrow> reconcile_record env ready sb st = retry_failed env sb st"
  by (simp add: reconcile_record_def restore_reservation_def lease_expired_def status_is_active_def)

lemma view_sel: "v_status (view_of sb) = sb_status sb" "v_spec (view_of sb) = sb_spec sb" "v_meta (view_of sb) = sb_vmm_meta sb"
  by (simp_all add: view_of_def)

text \<open>Reading the store changes only the world.\<close>

lemma store_get_fields:
  "store_get env i st = (st', r) \<Longrightarrow> ap_store st' = ap_store st \<and> ap_provisioning st' = ap_provisioning st \<and> ap_jobs st' = ap_jobs st"
  by (auto simp: store_get_def and_then_def world_def split: prod.splits)

lemma store_update_fields:
  "store_update env i u st = (st', r) \<Longrightarrow> ap_provisioning st' = ap_provisioning st \<and> ap_jobs st' = ap_jobs st"
  by (auto simp: store_update_def store_write_def and_then_def world_def split: prod.splits)

context keyed_store
begin

lemma get_run:
  assumes "ae_store env = ops" and "inv (ap_store st)" and "lookup (ap_store st) i = Some v"
  shows "\<exists>st' sb. store_get env i st = (st', Ok sb) \<and> view_of sb = v \<and> sb_id sb = i"
proof -
  obtain w now where w: "ae_now env (ap_world st) = (w, now)" by (cases "ae_now env (ap_world st)")
  obtain sb where "so_get ops now i (ap_store st) = Ok sb" "view_of sb = v" using get_some [OF assms(2,3)] by blast
  moreover have "sb_id sb = i" using lookup_id [OF assms(2,3)] \<open>view_of sb = v\<close> by (auto simp: view_of_def)
  ultimately show ?thesis using w assms(1) by (auto simp: store_get_def and_then_def world_def raised_def)
qed

lemma job_fails:
  assumes ops: "ae_store env = ops" and st: "inv (ap_store st)" "lookup (ap_store st) i = Some (view_of sb)" and id: "sb_id sb = i"
    and start: "sb_status sb = Starting" and pol: "sp_restart_policy (sb_spec sb) \<noteq> Never"
    and free: "i \<notin> set (ap_provisioning st)" "ap_jobs st = []"
    and fails: "\<And>st. \<exists>st' e. provision_steps env sb None None None st = (st', Err (Raised e))"
  shows "idle_failed inv lookup i (recovery_attempts (sb_vmm_meta sb)) (run_job env (ProvisionJob sb None None) st)"
proof -
  let ?st = "st\<lparr>ap_provisioning := i # ap_provisioning st\<rparr>"
  obtain st1 e where p: "provision_steps env sb None None None ?st = (st1, Err (Raised e))" using fails by blast
  have v: "v_meta (view_of sb) = sb_vmm_meta sb" "v_spec (view_of sb) = sb_spec sb" by (simp_all add: view_sel)
  have rec: "recorded inv lookup i (provision_steps env sb None None None)" by (rule recorded_provision [OF ops id start])
  then have "store_frame inv lookup i ?st st1" using p by (auto simp: recorded_def dest: confinedD)
  then obtain v1 where v1: "inv (ap_store st1)" "lookup (ap_store st1) i = Some v1" "v_spec v1 = sb_spec sb"
    using st v(2) by (auto simp: store_frame_def)
  moreover have "v_status v1 = Error"
    using markedD [of inv lookup i "provision_steps env sb None None None" ?st st1 e] rec p st v1(2) by (auto simp: recorded_def)
  moreover have "recovery_attempts (v_meta v1) = recovery_attempts (sb_vmm_meta sb)"
    using failed_keeps_attempts [OF ops _ _ start _ p, of "view_of sb"] st v(1) v1(2) id by auto
  moreover have "ap_jobs st1 = []" using calm_at [OF calm_provision p] free(2) by (simp add: ledger_def)
  ultimately show ?thesis
    using p pol free(1) id
    by (auto simp: idle_failed_def run_provision_with_slot_def run_provision_with_slot_and_snapshot_def provision_sandbox_def Let_def
        drop_reservation_def)
qed

lemma round_retries:
  assumes ops: "ae_store env = ops" and local: "\<not> ae_manage_resources env" and idle: "idle_failed inv lookup i n st" and n: "n < 3"
    and fails: "\<And>sb st. sb_id sb = i \<Longrightarrow> \<exists>st' e. provision_steps env sb None None None st = (st', Err (Raised e))"
  shows "\<exists>st'. retry_round env i st = (st', 1) \<and> idle_failed inv lookup i (Suc n) st'"
proof -
  obtain v where st: "inv (ap_store st)" "i \<notin> set (ap_provisioning st)" "ap_jobs st = []"
    and v: "lookup (ap_store st) i = Some v" "v_status v = Error" "sp_restart_policy (v_spec v) \<noteq> Never" "recovery_attempts (v_meta v) = n"
    using idle by (auto simp: idle_failed_def)
  obtain st1 sb where g: "store_get env i st = (st1, Ok sb)" and sb: "view_of sb = v" "sb_id sb = i"
    using get_run [OF ops st(1) v(1)] by blast
  note f1 = store_get_fields [OF g]
  have sbv: "sb_status sb = Error" "sp_restart_policy (sb_spec sb) \<noteq> Never" "recovery_attempts (sb_vmm_meta sb) = n"
      "sb_vmm_meta sb = v_meta v"
    using sb(1) v by (auto simp: view_of_def)
  let ?m = "count_attempt (sb_vmm_meta sb)"
  obtain st2 where u: "store_update env i (UVmmMeta ?m) st1 = (st2, Ok ())" "inv (ap_store st2)"
      "lookup (ap_store st2) i = Some (v\<lparr>v_meta := ?m\<rparr>)"
    using update_run [OF ops, of st1 i v "UVmmMeta ?m"] st(1) v(1) f1 by auto
  obtain st3 where w: "store_update env i (UStatusMessage Starting None) st2 = (st3, Ok ())" "inv (ap_store st3)"
      "lookup (ap_store st3) i = Some (v\<lparr>v_meta := ?m, v_status := Starting, v_message := None\<rparr>)"
    using update_run [OF ops u(2,3), of "UStatusMessage Starting None"] by auto
  obtain st4 sb4 where g4: "store_get env i st3 = (st4, Ok sb4)" and sb4: "sb_id sb4 = i"
      "view_of sb4 = v\<lparr>v_meta := ?m, v_status := Starting, v_message := None\<rparr>"
    using get_run [OF ops w(2,3)] by blast
  have f4: "ap_store st4 = ap_store st3" "ap_provisioning st4 = ap_provisioning st" "ap_jobs st4 = []"
    using store_get_fields [OF g4] store_update_fields [OF w(1)] store_update_fields [OF u(1)] f1 st(3) by simp_all
  have sb4v: "sb_status sb4 = Starting" "sb_spec sb4 = v_spec v" "sb_vmm_meta sb4 = ?m" using arg_cong [OF sb4(2), of v_status] arg_cong [OF sb4(2), of v_spec] arg_cong [OF sb4(2), of v_meta] by (simp_all add: view_sel)
  have "reconcile_record env None sb st1 = st4\<lparr>ap_jobs := [ProvisionJob sb4 None None]\<rparr>"
    using n sb(2) local st(2) sb4(1) f4
    by (simp add: reconcile_failed sbv(1) retry_failed_def sbv(2,3) and_then_run(1) [of "store_update env i (UVmmMeta ?m)", OF u(1)] w(1) g4
        schedule_provision_def reserve_again_def spawn_def)
  then have round: "retry_round env i st = (run_job env (ProvisionJob sb4 None None) (st4\<lparr>ap_jobs := []\<rparr>), 1)"
    by (simp add: retry_round_def g)
  have "idle_failed inv lookup i (recovery_attempts (sb_vmm_meta sb4)) (run_job env (ProvisionJob sb4 None None) (st4\<lparr>ap_jobs := []\<rparr>))"
    using fails [OF sb4(1)] sb4 sb4v f4 st(2) v(3) w by (intro job_fails [OF ops]) simp_all
  moreover have "recovery_attempts (sb_vmm_meta sb4) = Suc n" using n sbv(3) by (simp add: sb4v(3))
  ultimately show ?thesis using round by auto
qed

lemma round_rests:
  assumes ops: "ae_store env = ops" and idle: "idle_failed inv lookup i n st" and n: "\<not> n < 3"
  shows "\<exists>st'. retry_round env i st = (st', 0) \<and> idle_failed inv lookup i n st'"
proof -
  obtain v where st: "inv (ap_store st)" and v: "lookup (ap_store st) i = Some v" "v_status v = Error" "recovery_attempts (v_meta v) = n"
    using idle by (auto simp: idle_failed_def)
  obtain st1 sb where g: "store_get env i st = (st1, Ok sb)" and sb: "view_of sb = v"
    using get_run [OF ops st v(1)] by blast
  have "sb_status sb = Error" "recovery_attempts (sb_vmm_meta sb) = n" using sb v by (auto simp: view_of_def)
  then have "reconcile_record env None sb st1 = st1" using n by (simp add: reconcile_failed retry_failed_def)
  then show ?thesis using idle store_get_fields [OF g] by (auto simp: retry_round_def g idle_failed_def)
qed

lemma rounds_bounded:
  assumes ops: "ae_store env = ops" and local: "\<not> ae_manage_resources env" and idle: "idle_failed inv lookup i n st"
    and fails: "\<And>sb st. sb_id sb = i \<Longrightarrow> \<exists>st' e. provision_steps env sb None None None st = (st', Err (Raised e))"
  shows "snd (retry_rounds env i k st) = min k (3 - n) \<and> idle_failed inv lookup i (n + min k (3 - n)) (fst (retry_rounds env i k st))"
  using idle
proof (induction k arbitrary: n st)
  case (Suc k)
  show ?case
  proof (cases "n < 3")
    case True
    obtain st' where r: "retry_round env i st = (st', 1)" "idle_failed inv lookup i (Suc n) st'"
      using round_retries [OF ops local Suc.prems True fails] by blast
    from Suc.IH [OF r(2)] True show ?thesis
      by (cases "retry_rounds env i k st'") (simp add: r(1) Suc_diff_Suc [OF True, symmetric])
  next
    case False
    obtain st' where r: "retry_round env i st = (st', 0)" "idle_failed inv lookup i n st'"
      using round_rests [OF ops Suc.prems False] by blast
    from Suc.IH [OF r(2)] False show ?thesis by (cases "retry_rounds env i k st'") (simp add: r(1))
  qed
qed simp

end

end
