(* ===== verification/E2b_Requests.thy ===== *)
theory E2b_Requests
  imports Sandbox_Spec
begin

text \<open>
  \<open>crates/clouisle-api/src/e2b.rs\<close>: the requests and answers of the E2B compatible interface, their translation into a
  specification (\<open>to_spec\<close>) and the view of a sandbox they give (\<open>from_sandbox\<close>). The addition of a duration to a
  time is the parameter \<open>add_secs\<close>, whose \<open>None\<close> is the panic of \<open>chrono\<close>.
\<close>

section \<open>Requests\<close>

datatype e2b_init_command =
    Argv "string list"
  | Shell string
  | Process string "string list" "(string, string) hashmap" "string option"

fun into_parts :: "e2b_init_command \<Rightarrow> string list \<times> (string, string) hashmap \<times> string option" where
  "into_parts (Argv argv) = (argv, [], None)"
| "into_parts (Shell command) = ([''/bin/sh'', ''-lc'', command], [], None)"
| "into_parts (Process cmd args envs cwd) = (cmd # args, envs, cwd)"

record e2b_volume_mount =
  ev_name :: string
  ev_path :: string

datatype e2b_auto_resume = ResumeBool bool | ResumeConfig bool

fun resume_enabled :: "e2b_auto_resume \<Rightarrow> bool" where
  "resume_enabled (ResumeBool b) = b"
| "resume_enabled (ResumeConfig b) = b"

record e2b_network =
  en_allow_out :: "string list"
  en_deny_out :: "string list"
  en_allow_public_traffic :: bool

record e2b_create_request =
  ec_template_id :: string
  ec_timeout :: "u64 option"
  ec_auto_pause :: bool
  ec_auto_pause_memory :: bool
  ec_auto_resume :: "e2b_auto_resume option"
  ec_allow_internet_access :: "bool option"
  ec_network :: "e2b_network option"
  ec_metadata :: "(string, string) hashmap option"
  ec_env_vars :: "(string, string) hashmap option"
  ec_init_command :: "e2b_init_command option"
  ec_init_timeout_ms :: "u64 option"
  ec_snapshot_id :: "string option"
  ec_volume_mounts :: "e2b_volume_mount list"
  ec_secure :: bool

section \<open>From a request to a specification\<close>

definition unwrap_or :: "'a option \<Rightarrow> 'a \<Rightarrow> 'a" where
  "unwrap_or v d = (case v of Some x \<Rightarrow> x | None \<Rightarrow> d)"

lemma unwrap_or_simps [simp]: "unwrap_or None d = d" "unwrap_or (Some x) d = x"
  by (simp_all add: unwrap_or_def)

definition wants_resume :: "e2b_create_request \<Rightarrow> bool" where
  "wants_resume rq = (case ec_auto_resume rq of Some a \<Rightarrow> resume_enabled a | None \<Rightarrow> False)"

definition to_spec :: "e2b_create_request \<Rightarrow> string \<Rightarrow> (sandbox_spec, string) result" where
  "to_spec rq tenant =
     (if str_trim (ec_template_id rq) = [] then Err ''templateID is required''
      else
        (let auto_resume = wants_resume rq;
             auto_pause = (ec_auto_pause rq \<or> auto_resume) in
         if auto_resume \<and> \<not> auto_pause then Err ''autoResume requires autoPause''
         else
           (let network = unwrap_or (ec_network rq) \<lparr>en_allow_out = [], en_deny_out = [], en_allow_public_traffic = False\<rparr>;
                enabled = unwrap_or (ec_allow_internet_access rq) True;
                (init_command, init_env, init_cwd) =
                  (case ec_init_command rq of Some c \<Rightarrow> into_parts c | None \<Rightarrow> ([], [], None))
            in Ok (default_spec\<lparr>
                 sp_image := image_ref_new (ec_template_id rq),
                 sp_resources := default_resources,
                 sp_network := \<lparr>nc_enabled = enabled, nc_allow_egress = en_allow_out network, nc_deny_egress = en_deny_out network\<rparr>,
                 sp_env := unwrap_or (ec_env_vars rq) [],
                 sp_metadata := unwrap_or (ec_metadata rq) [],
                 sp_volume_mounts := map (\<lambda>m. \<lparr>vm_name = ev_name m, vm_target = ev_path m\<rparr>) (ec_volume_mounts rq),
                 sp_init_command := init_command,
                 sp_init_env := init_env,
                 sp_init_cwd := init_cwd,
                 sp_init_timeout_ms := unwrap_or (ec_init_timeout_ms rq) 30000,
                 sp_restart_policy := OnFailure,
                 sp_auto_pause := auto_pause,
                 sp_auto_pause_memory := ec_auto_pause_memory rq,
                 sp_auto_resume := auto_resume,
                 sp_ttl_secs := Some (unwrap_or (ec_timeout rq) 15),
                 sp_tenant_id := Some tenant\<rparr>))))"

section \<open>From a sandbox to an answer\<close>

record e2b_sandbox =
  eb_template_id :: string
  eb_sandbox_id :: string
  eb_client_id :: string
  eb_allow_internet_access :: "bool option"
  eb_network :: e2b_network
  eb_auto_resume :: bool
  eb_on_timeout :: string
  eb_volume_mounts :: "e2b_volume_mount list"
  eb_envd_access_token :: "string option"
  eb_traffic_access_token :: "string option"
  eb_domain :: "string option"
  eb_started_at :: "time option"
  eb_end_at :: "time option"
  eb_metadata :: "(string, string) hashmap"
  eb_state :: string
  eb_cpu_count :: u16
  eb_memory_mb :: u32
  eb_disk_size_mb :: u32

fun e2b_state :: "sandbox_status \<Rightarrow> string" where
  "e2b_state Pending = ''starting''"
| "e2b_state Starting = ''starting''"
| "e2b_state Running = ''running''"
| "e2b_state Paused = ''paused''"
| "e2b_state Stopping = ''stopping''"
| "e2b_state Stopped = ''killed''"
| "e2b_state Error = ''error''"

text \<open>The outer \<open>None\<close> is a panic.\<close>

definition e2b_end_at :: "(time \<Rightarrow> int \<Rightarrow> time option) \<Rightarrow> sandbox \<Rightarrow> time option option" where
  "e2b_end_at add_secs sb =
     (let started = unwrap_or (sb_ready_at sb) (sb_created_at sb) in
      case sb_expires_at sb of
        Some t \<Rightarrow> Some (Some t)
      | None \<Rightarrow>
          (case sp_ttl_secs (sb_spec sb) of
             None \<Rightarrow> Some None
           | Some ttl \<Rightarrow> (case add_secs started (sint ttl) of None \<Rightarrow> None | Some t \<Rightarrow> Some (Some t))))"

definition from_sandbox :: "(time \<Rightarrow> int \<Rightarrow> time option) \<Rightarrow> sandbox \<Rightarrow> e2b_sandbox option" where
  "from_sandbox add_secs sb =
     (case e2b_end_at add_secs sb of
        None \<Rightarrow> None
      | Some end_at \<Rightarrow> Some
          \<lparr>eb_template_id = ir_reference (sp_image (sb_spec sb)), eb_sandbox_id = sb_id sb,
           eb_client_id = unwrap_or (sp_tenant_id (sb_spec sb)) ''clouisle'',
           eb_allow_internet_access = Some (nc_enabled (sp_network (sb_spec sb))),
           eb_network = \<lparr>en_allow_out = nc_allow_egress (sp_network (sb_spec sb)),
             en_deny_out = nc_deny_egress (sp_network (sb_spec sb)), en_allow_public_traffic = True\<rparr>,
           eb_auto_resume = sp_auto_resume (sb_spec sb),
           eb_on_timeout = (if sp_auto_pause (sb_spec sb) then ''pause'' else ''kill''),
           eb_volume_mounts = map (\<lambda>m. \<lparr>ev_name = vm_name m, ev_path = vm_target m\<rparr>) (sp_volume_mounts (sb_spec sb)),
           eb_envd_access_token = None, eb_traffic_access_token = None, eb_domain = None,
           eb_started_at = Some (unwrap_or (sb_ready_at sb) (sb_created_at sb)), eb_end_at = end_at,
           eb_metadata = sp_metadata (sb_spec sb), eb_state = e2b_state (sb_status sb),
           eb_cpu_count = vcpu (sp_resources (sb_spec sb)), eb_memory_mb = memory_mb (sp_resources (sb_spec sb)),
           eb_disk_size_mb = disk_mb (sp_resources (sb_spec sb))\<rparr>)"

text \<open>\<open>Utc::now() + Duration::seconds(timeout as i64)\<close>, with the panic as \<open>None\<close>.\<close>

definition expiry_from_now :: "(time \<Rightarrow> int \<Rightarrow> time option) \<Rightarrow> time \<Rightarrow> u64 \<Rightarrow> time option" where
  "expiry_from_now add_secs now timeout = add_secs now (sint timeout)"

section \<open>The translation and the view agree\<close>

lemma to_spec_Ok_iff: "(\<exists>sp. to_spec rq tenant = Ok sp) \<longleftrightarrow> str_trim (ec_template_id rq) \<noteq> []"
  by (auto simp: to_spec_def Let_def split: prod.split)

lemma to_spec_shows:
  assumes "to_spec rq tenant = Ok sp"
  shows "ir_reference (sp_image sp) = ec_template_id rq" "sp_tenant_id sp = Some tenant"
    "nc_enabled (sp_network sp) = unwrap_or (ec_allow_internet_access rq) True"
    "nc_allow_egress (sp_network sp) = (case ec_network rq of Some n \<Rightarrow> en_allow_out n | None \<Rightarrow> [])"
    "nc_deny_egress (sp_network sp) = (case ec_network rq of Some n \<Rightarrow> en_deny_out n | None \<Rightarrow> [])"
    "sp_volume_mounts sp = map (\<lambda>m. \<lparr>vm_name = ev_name m, vm_target = ev_path m\<rparr>) (ec_volume_mounts rq)"
    "sp_metadata sp = unwrap_or (ec_metadata rq) []" "sp_auto_resume sp = wants_resume rq"
    "sp_auto_pause sp = (ec_auto_pause rq \<or> wants_resume rq)" "sp_ttl_secs sp = Some (unwrap_or (ec_timeout rq) 15)"
  using assms
  by (cases "ec_network rq"; auto simp: to_spec_def Let_def image_ref_new_def split: prod.splits if_splits)+

lemma end_at_ttl: "e2b_end_at add_secs sb = Some e \<Longrightarrow> sp_ttl_secs (sb_spec sb) \<noteq> None \<Longrightarrow> e \<noteq> None"
  by (auto simp: e2b_end_at_def Let_def split: option.splits) metis+

text \<open>What a client asked for is what it is shown: a sandbox made from a request is answered with the template, the
  network lists, the internet flag, the volumes and the metadata of that request, it belongs to the caller's tenant, it
  expires, and a sandbox that resumes by itself also pauses by itself. The check that refuses the contrary is never taken.\<close>

lemma request_is_shown:
  assumes "to_spec rq tenant = Ok sp" and "sb_spec sb = sp" and "from_sandbox add_secs sb = Some eb"
  shows "eb_template_id eb = ec_template_id rq \<and> eb_client_id eb = tenant
    \<and> eb_allow_internet_access eb = Some (unwrap_or (ec_allow_internet_access rq) True)
    \<and> en_allow_out (eb_network eb) = (case ec_network rq of Some n \<Rightarrow> en_allow_out n | None \<Rightarrow> [])
    \<and> en_deny_out (eb_network eb) = (case ec_network rq of Some n \<Rightarrow> en_deny_out n | None \<Rightarrow> [])
    \<and> eb_volume_mounts eb = ec_volume_mounts rq
    \<and> eb_metadata eb = unwrap_or (ec_metadata rq) []
    \<and> eb_auto_resume eb = wants_resume rq \<and> (eb_on_timeout eb = ''pause'' \<longleftrightarrow> ec_auto_pause rq \<or> wants_resume rq)
    \<and> eb_end_at eb \<noteq> None"
proof -
  obtain e where e: "e2b_end_at add_secs sb = Some e" using assms(3) by (auto simp: from_sandbox_def split: option.splits)
  then have "e \<noteq> None" using end_at_ttl [OF e] to_spec_shows(10) [OF assms(1)] assms(2) by simp
  with assms(2,3) e show ?thesis
    by (auto simp: from_sandbox_def to_spec_shows [OF assms(1)] intro!: map_idI split: if_splits)
qed

definition demo_request :: e2b_create_request where
  "demo_request = \<lparr>ec_template_id = ''ubuntu'', ec_timeout = Some 60, ec_auto_pause = False, ec_auto_pause_memory = True,
     ec_auto_resume = Some (ResumeConfig True), ec_allow_internet_access = Some False, ec_network = None,
     ec_metadata = Some [(''k'', ''v'')], ec_env_vars = None, ec_init_command = Some (Shell ''true''), ec_init_timeout_ms = None,
     ec_snapshot_id = None, ec_volume_mounts = [], ec_secure = False\<rparr>"

lemma request_is_shown_witness:
  "\<exists>sp eb. to_spec demo_request ''acme'' = Ok sp \<and> from_sandbox plus_secs (sandbox_new 1 ''a'' sp) = Some eb
     \<and> eb_client_id eb = ''acme'' \<and> eb_on_timeout eb = ''pause'' \<and> eb_end_at eb \<noteq> None"
proof -
  have "str_trim (ec_template_id demo_request) \<noteq> []" by code_simp
  then obtain sp where sp: "to_spec demo_request ''acme'' = Ok sp" using to_spec_Ok_iff by blast
  obtain eb where eb: "from_sandbox plus_secs (sandbox_new 1 ''a'' sp) = Some eb"
    by (cases "sp_ttl_secs sp") (simp_all add: from_sandbox_def e2b_end_at_def plus_secs_def sandbox_new_def)
  have "sb_spec (sandbox_new 1 ''a'' sp) = sp" by (simp add: sandbox_new_def)
  from request_is_shown [OF sp this eb] sp eb show ?thesis by (auto simp: demo_request_def wants_resume_def)
qed

end
