(* ===== verification/E2b_Handlers.thy ===== *)
theory E2b_Handlers
  imports Fleet E2b_Requests
begin

text \<open>
  \<open>crates/clouisle-api/src/handlers/e2b.rs\<close>: the E2B compatible handlers over the shared state. They create sandboxes from
  templates and snapshots, pause and resume them, move their expiry, change their network policy, reach their files
  and drive their processes. The answer of \<open>create_sandbox\<close>, which the source encodes and decodes again, is passed on as
  the value it stands for. A stream of process events is represented by the session it follows.
\<close>

section \<open>Common parts\<close>

definition handle_for :: "sandbox \<Rightarrow> vm_handle" where
  "handle_for sb = sandbox_handle (sb_id sb) sb"

definition get_owned :: "('s, 'q, 'f, 'w) app_env \<Rightarrow> principal \<Rightarrow> string \<Rightarrow> ('s, 'q, 'f, 'w, sandbox) app_comp" where
  "get_owned env pr i = find_owned env pr i"

definition shown :: "('s, 'q, 'f, 'w) app_env \<Rightarrow> sandbox \<Rightarrow> ('s, 'q, 'f, 'w, e2b_sandbox) app_comp" where
  "shown env sb = (case from_sandbox (ae_add_secs env) sb of None \<Rightarrow> throw Panicked | Some eb \<Rightarrow> ok eb)"

definition e2b_response :: "('s, 'q, 'f, 'w) app_env \<Rightarrow> sandbox \<Rightarrow> ('s, 'q, 'f, 'w, e2b_sandbox) app_comp" where
  "e2b_response env sb =
     and_then (shown env sb) (\<lambda>eb.
     and_then (ensure_e2b_access_token env (sb_id sb) (unwrap_or (sp_tenant_id (sb_spec sb)) [])) (\<lambda>token.
     ok (eb\<lparr>eb_envd_access_token := Some token\<rparr>)))"

section \<open>Creation\<close>

definition template_image ::
  "('s, 'q, 'f, 'w) app_env \<Rightarrow> principal \<Rightarrow> string \<Rightarrow> sandbox_spec \<Rightarrow> ('s, 'q, 'f, 'w, sandbox_spec) app_comp" where
  "template_image env pr tid sp st =
     (case get_template (pr_tenant_id pr) tid (ap_e2b st) of
        Ok t \<Rightarrow>
          (case te_image_reference t of
             None \<Rightarrow> raise (validation_error ''template has no OCI image reference'') st
           | Some img \<Rightarrow> ok (sp\<lparr>sp_image := (sp_image sp)\<lparr>ir_reference := img\<rparr>\<rparr>) st)
      | Err e \<Rightarrow>
          (case e of
             CpNotFound m \<Rightarrow>
               if CHR '':'' \<in> set tid \<or> CHR ''/'' \<in> set tid \<or> CHR ''@'' \<in> set tid then ok sp st else raise (from_control_error e) st
           | _ \<Rightarrow> raise (from_control_error e) st))"

definition clone_record :: "('s, 'q, 'f, 'w) app_env \<Rightarrow> sandbox_spec \<Rightarrow> ('s, 'q, 'f, 'w, sandbox) app_comp" where
  "clone_record env sp =
     and_then (world (ae_uuid env)) (\<lambda>i.
     and_then (world (ae_now env)) (\<lambda>now.
     and_then (transition_now env (sandbox_new now i sp) Start) (\<lambda>sb.
     and_then (store_write (so_create (ae_store env) sb)) (\<lambda>_. ok sb))))"

definition e2b_clone ::
  "('s, 'q, 'f, 'w) app_env \<Rightarrow> principal \<Rightarrow> string \<Rightarrow> sandbox_spec \<Rightarrow> ('s, 'q, 'f, 'w, nat \<times> e2b_sandbox) app_comp" where
  "e2b_clone env pr sid sp =
     (if \<not> cap_snapshot (ae_capabilities env) then raise (invalid_state ''snapshot restore is unavailable'')
      else
        and_then (plane_read (get_snapshot (pr_tenant_id pr) sid)) (\<lambda>snap.
        and_then (reserve env sp) (\<lambda>r.
        and_then (holding env r (clone_record env sp)) (\<lambda>sb.
        and_then (modify (spawn (CloneJob sb r \<lparr>sp_state_path = sn_state_path snap, sp_mem_path = sn_memory_path snap\<rparr> None))) (\<lambda>_.
        and_then (e2b_response env sb) (\<lambda>eb. ok (202, eb)))))))"

definition e2b_create ::
  "('s, 'q, 'f, 'w) app_env \<Rightarrow> principal \<Rightarrow> e2b_create_request \<Rightarrow> ('s, 'q, 'f, 'w, nat \<times> e2b_sandbox) app_comp" where
  "e2b_create env pr rq =
     and_then (lift_result (raised (map_sum validation_error id (to_spec rq (pr_tenant_id pr))))) (\<lambda>sp0.
     and_then (template_image env pr (ec_template_id rq) sp0) (\<lambda>sp.
     case ec_snapshot_id rq of
       Some sid \<Rightarrow> e2b_clone env pr sid sp
     | None \<Rightarrow>
         and_then (create_sandbox env pr \<lparr>cr_spec = sp, cr_sync = True\<rparr>) (\<lambda>rep.
         and_then (e2b_response env (re_body rep)) (\<lambda>eb. ok (re_status rep, eb)))))"

section \<open>Listing\<close>

record e2b_pagination =
  pg_next_token :: "nat option"
  pg_limit :: "nat option"
  pg_metadata :: "string option"
  pg_state :: "string option"

definition metadata_matches :: "string \<Rightarrow> sandbox \<Rightarrow> bool" where
  "metadata_matches flt sb =
     list_all (\<lambda>pair. case split_once (CHR ''='') pair of
         None \<Rightarrow> False
       | Some (key, val) \<Rightarrow> hm_get (sp_metadata (sb_spec sb)) key = Some val)
       (filter (\<lambda>pair. pair \<noteq> []) (split_on (CHR ''&'') flt))"

definition wanted_states :: "e2b_pagination \<Rightarrow> string list option" where
  "wanted_states q = map_option (\<lambda>v. map to_ascii_lowercase (split_on (CHR '','') v)) (pg_state q)"

definition list_selects :: "principal \<Rightarrow> e2b_pagination \<Rightarrow> bool \<Rightarrow> sandbox \<Rightarrow> bool" where
  "list_selects pr q running_only sb \<longleftrightarrow>
     sp_tenant_id (sb_spec sb) = Some (pr_tenant_id pr) \<and> sb_status sb \<noteq> Stopped
     \<and> (\<not> running_only \<or> sb_status sb = Running)
     \<and> (case wanted_states q of None \<Rightarrow> True | Some states \<Rightarrow> e2b_state (sb_status sb) \<in> set states)
     \<and> (case pg_metadata q of None \<Rightarrow> True | Some flt \<Rightarrow> metadata_matches flt sb)"

fun show_all :: "('s, 'q, 'f, 'w) app_env \<Rightarrow> sandbox list \<Rightarrow> ('s, 'q, 'f, 'w, e2b_sandbox list) app_comp" where
  "show_all env [] = ok []"
| "show_all env (sb # sbs) = and_then (shown env sb) (\<lambda>eb. and_then (show_all env sbs) (\<lambda>ebs. ok (eb # ebs)))"

record e2b_page =
  pa_items :: "e2b_sandbox list"
  pa_next :: "nat option"
  pa_total_running :: "nat option"

definition page_of :: "e2b_pagination \<Rightarrow> bool \<Rightarrow> e2b_sandbox list \<Rightarrow> e2b_page" where
  "page_of q running_requested every =
     (let offset = min (unwrap_or (pg_next_token q) 0) (length every);
          limit = min (max (unwrap_or (pg_limit q) 100) 1) 100;
          fin = min (offset + limit) (length every)
      in \<lparr>pa_items = take (fin - offset) (drop offset every),
          pa_next = (if fin < length every then Some fin else None),
          pa_total_running = (if running_requested then Some (length (filter (\<lambda>eb. eb_state eb = ''running'') every)) else None)\<rparr>)"

definition list_inner ::
  "('s, 'q, 'f, 'w) app_env \<Rightarrow> principal \<Rightarrow> e2b_pagination \<Rightarrow> bool \<Rightarrow> ('s, 'q, 'f, 'w, e2b_page) app_comp" where
  "list_inner env pr q running_only =
     and_then (store_list env None) (\<lambda>sbs.
     and_then (show_all env (filter (list_selects pr q running_only) sbs)) (\<lambda>every.
     ok (page_of q (running_only \<or> (case wanted_states q of None \<Rightarrow> False | Some states \<Rightarrow> ''running'' \<in> set states)) every)))"

definition e2b_list :: "('s, 'q, 'f, 'w) app_env \<Rightarrow> principal \<Rightarrow> e2b_pagination \<Rightarrow> ('s, 'q, 'f, 'w, e2b_page) app_comp" where
  "e2b_list env pr q = list_inner env pr q True"

definition v2_list :: "('s, 'q, 'f, 'w) app_env \<Rightarrow> principal \<Rightarrow> e2b_pagination \<Rightarrow> ('s, 'q, 'f, 'w, e2b_page) app_comp" where
  "v2_list env pr q = list_inner env pr q False"

section \<open>Lifecycle\<close>

definition e2b_get :: "('s, 'q, 'f, 'w) app_env \<Rightarrow> principal \<Rightarrow> string \<Rightarrow> ('s, 'q, 'f, 'w, e2b_sandbox) app_comp" where
  "e2b_get env pr i = and_then (get_owned env pr i) (e2b_response env)"

definition e2b_delete :: "('s, 'q, 'f, 'w) app_env \<Rightarrow> principal \<Rightarrow> string \<Rightarrow> ('s, 'q, 'f, 'w, unit) app_comp" where
  "e2b_delete env pr i =
     and_then (get_owned env pr i) (\<lambda>sb.
     and_then (delete_sandbox env pr i) (\<lambda>_.
     and_then (remove_e2b_access_token env i (unwrap_or (sp_tenant_id (sb_spec sb)) [])) (\<lambda>_.
     modify (\<lambda>st. st\<lparr>ap_processes := remove_sandbox i (ap_processes st)\<rparr>))))"

definition e2b_pause :: "('s, 'q, 'f, 'w) app_env \<Rightarrow> principal \<Rightarrow> string \<Rightarrow> ('s, 'q, 'f, 'w, unit) app_comp" where
  "e2b_pause env pr i =
     and_then (get_owned env pr i) (\<lambda>sb.
     if sb_status sb = Paused then ok ()
     else if sb_status sb \<noteq> Running then raise (invalid_state (''sandbox '' @ i @ '' is not running''))
     else and_then (call (ae_vm_pause env (handle_for sb))) (\<lambda>_. store_update env i (UStatusMessage Paused None)))"

text \<open>The machine runs again, the guest answers and the record is running.\<close>

definition resume_vm :: "('s, 'q, 'f, 'w) app_env \<Rightarrow> sandbox \<Rightarrow> ('s, 'q, 'f, 'w, unit) app_comp" where
  "resume_vm env sb =
     and_then (call (ae_vm_resume env (handle_for sb))) (\<lambda>_.
     and_then (store_update env (sb_id sb) (UStatusMessage Starting None)) (\<lambda>_.
     and_then (call_within ''sandbox resume agent hello timed out''
                 (ae_hello_within env (unat (sp_start_timeout_secs (sb_spec sb))) (handle_for sb) (sb_id sb))) (\<lambda>conn.
     and_then (call (ae_ping env conn)) (\<lambda>_.
     store_update env (sb_id sb) (UStatusMessage Running None)))))"

definition resume_paused :: "('s, 'q, 'f, 'w) app_env \<Rightarrow> sandbox \<Rightarrow> ('s, 'q, 'f, 'w, unit) app_comp" where
  "resume_paused env sb =
     and_then (reserve_again env (sb_id sb) (sb_spec sb)) (\<lambda>r.
     and_then (holding env r (resume_vm env sb)) (\<lambda>_.
     case r of Some x \<Rightarrow> modify (keep_reservation env (sb_id sb) x) | None \<Rightarrow> ok ()))"

definition set_expiry :: "('s, 'q, 'f, 'w) app_env \<Rightarrow> string \<Rightarrow> u64 \<Rightarrow> ('s, 'q, 'f, 'w, unit) app_comp" where
  "set_expiry env i timeout =
     and_then (world (ae_now env)) (\<lambda>now.
       case expiry_from_now (ae_add_secs env) now timeout of
         None \<Rightarrow> throw Panicked
       | Some t \<Rightarrow> store_update env i (UExpiry (Some t)))"

definition resume_if_needed :: "('s, 'q, 'f, 'w) app_env \<Rightarrow> sandbox \<Rightarrow> u64 \<Rightarrow> ('s, 'q, 'f, 'w, sandbox) app_comp" where
  "resume_if_needed env sb timeout =
     and_then (if sb_status sb = Paused then resume_paused env sb
               else if sb_status sb \<noteq> Running
               then raise (invalid_state (''sandbox '' @ sb_id sb @ '' cannot resume from '' @ status_str (sb_status sb)))
               else ok ()) (\<lambda>_.
     and_then (set_expiry env (sb_id sb) timeout) (\<lambda>_.
     store_get env (sb_id sb)))"

definition e2b_connect ::
  "('s, 'q, 'f, 'w) app_env \<Rightarrow> principal \<Rightarrow> string \<Rightarrow> u64 option \<Rightarrow> ('s, 'q, 'f, 'w, nat \<times> e2b_sandbox) app_comp" where
  "e2b_connect env pr i timeout =
     and_then (get_owned env pr i) (\<lambda>sb.
     and_then (resume_if_needed env sb (unwrap_or timeout 15)) (\<lambda>sb'.
     and_then (e2b_response env sb') (\<lambda>eb. ok (if sb_status sb = Paused then 201 else 200, eb))))"

definition e2b_resume ::
  "('s, 'q, 'f, 'w) app_env \<Rightarrow> principal \<Rightarrow> string \<Rightarrow> u64 option \<Rightarrow> ('s, 'q, 'f, 'w, nat \<times> e2b_sandbox) app_comp" where
  "e2b_resume env pr i timeout =
     and_then (get_owned env pr i) (\<lambda>sb.
     and_then (resume_if_needed env sb (unwrap_or timeout 15)) (\<lambda>sb'.
     and_then (e2b_response env sb') (\<lambda>eb. ok (201, eb))))"

definition set_timeout ::
  "('s, 'q, 'f, 'w) app_env \<Rightarrow> principal \<Rightarrow> string \<Rightarrow> u64 \<Rightarrow> ('s, 'q, 'f, 'w, unit) app_comp" where
  "set_timeout env pr i timeout =
     and_then (get_owned env pr i) (\<lambda>sb.
     if sb_status sb \<noteq> Running \<and> sb_status sb \<noteq> Paused then raise (invalid_state (''sandbox '' @ i @ '' is not active''))
     else set_expiry env i timeout)"

record e2b_network_update =
  nu_allow_out :: "string list"
  nu_allow_internet_access :: "bool option"
  nu_deny_out :: "string list"
  nu_rules :: "json option"

definition with_network :: "e2b_network_update \<Rightarrow> sandbox_spec \<Rightarrow> sandbox_spec" where
  "with_network rq sp =
     sp\<lparr>sp_network := \<lparr>nc_enabled = unwrap_or (nu_allow_internet_access rq) (nc_enabled (sp_network sp)),
         nc_allow_egress = nu_allow_out rq, nc_deny_egress = nu_deny_out rq\<rparr>\<rparr>"

definition net_update :: "('s, 'q, 'f, 'w) app_env \<Rightarrow> string \<Rightarrow> network_config \<Rightarrow> ('s, 'q, 'f, 'w, unit) app_comp" where
  "net_update env i net st =
     (if ae_manage_network env then
        (case update_sandbox_network (ae_net env) i (nc_enabled net) (nc_allow_egress net) (nc_deny_egress net)
                (ap_firewall st) (ap_world st) of
           (fw', w', r) \<Rightarrow> (st\<lparr>ap_firewall := fw', ap_world := w'\<rparr>, raised r))
      else (st, Ok ()))"

definition update_network ::
  "('s, 'q, 'f, 'w) app_env \<Rightarrow> principal \<Rightarrow> string \<Rightarrow> e2b_network_update \<Rightarrow> ('s, 'q, 'f, 'w, unit) app_comp" where
  "update_network env pr i rq =
     and_then (get_owned env pr i) (\<lambda>sb.
     if sb_status sb \<noteq> Running then raise (invalid_state (''sandbox '' @ i @ '' is not running''))
     else if (case nu_rules rq of Some rules \<Rightarrow> rules \<noteq> JNull | None \<Rightarrow> False)
     then raise (validation_error ''network transform rules are not supported by the local firewall'')
     else
       (let sp = with_network rq (sb_spec sb)
        in and_then (store_update env i (USpec sp)) (\<lambda>_. net_update env i (sp_network sp))))"

end
