(* ===== verification/E2b_Envd.thy ===== *)
theory E2b_Envd
  imports E2b_Handlers
begin

text \<open>
  The second half of \<open>crates/clouisle-api/src/handlers/e2b.rs\<close>: files, directories, watchers and processes inside a sandbox. The
  sandbox is named by a header; a paused sandbox that resumes by itself is resumed first.
\<close>

section \<open>Reaching the guest\<close>

definition sandbox_id_from_headers :: "string option \<Rightarrow> (string, clouisle_error) result" where
  "sandbox_id_from_headers h =
     (case h of
        Some v \<Rightarrow> if v = [] then Err (validation_error ''E2b-Sandbox-Id is required'') else Ok v
      | None \<Rightarrow> Err (validation_error ''E2b-Sandbox-Id is required''))"

definition resume_for_io :: "('s, 'q, 'f, 'w) app_env \<Rightarrow> principal \<Rightarrow> string \<Rightarrow> ('s, 'q, 'f, 'w, unit) app_comp" where
  "resume_for_io env pr i =
     and_then (get_owned env pr i) (\<lambda>sb.
     if sb_status sb = Paused \<and> sp_auto_resume (sb_spec sb) then and_then (resume_if_needed env sb 15) (\<lambda>_. ok ()) else ok ())"

text \<open>The header, the resumption and the connection, which most of the handlers begin with.\<close>

definition guest_io ::
  "('s, 'q, 'f, 'w) app_env \<Rightarrow> principal \<Rightarrow> string option \<Rightarrow> ('s, 'q, 'f, 'w, string \<times> nat) app_comp" where
  "guest_io env pr h =
     and_then (lift_result (raised (sandbox_id_from_headers h))) (\<lambda>i.
     and_then (resume_for_io env pr i) (\<lambda>_.
     and_then (get_conn env i pr) (\<lambda>conn. ok (i, conn))))"

section \<open>Files\<close>

record e2b_entry_info =
  ei_name :: string
  ei_type :: string
  ei_path :: string
  ei_size :: nat
  ei_mode :: u32

definition base_name :: "string \<Rightarrow> string" where
  "base_name path = last (split_on (CHR ''/'') path)"

definition e2b_upload_file ::
  "('s, 'q, 'f, 'w) app_env \<Rightarrow> principal \<Rightarrow> string option \<Rightarrow> string \<Rightarrow> byte list \<Rightarrow> ('s, 'q, 'f, 'w, e2b_entry_info list) app_comp" where
  "e2b_upload_file env pr h path body =
     and_then (lift_result (raised (validate_path path))) (\<lambda>_.
     if MAX_UPLOAD_BYTES < length body then raise (validation_error ''file is too large'')
     else
       and_then (guest_io env pr h) (\<lambda>(i, conn).
       and_then (call (ae_write_file env conn path body 420)) (\<lambda>_.
       ok [\<lparr>ei_name = base_name path, ei_type = ''file'', ei_path = path, ei_size = length body, ei_mode = 420\<rparr>])))"

definition e2b_download_file ::
  "('s, 'q, 'f, 'w) app_env \<Rightarrow> principal \<Rightarrow> string option \<Rightarrow> string \<Rightarrow> ('s, 'q, 'f, 'w, byte list) app_comp" where
  "e2b_download_file env pr h path =
     and_then (lift_result (raised (validate_path path))) (\<lambda>_.
     and_then (guest_io env pr h) (\<lambda>(i, conn). call (ae_read_file env conn path)))"

definition listed_path :: "string \<Rightarrow> string \<Rightarrow> string" where
  "listed_path dir name = (if dir = ''/'' then ''/'' @ name else trim_end_matches (CHR ''/'') dir @ ''/'' @ name)"

definition list_dir ::
  "('s, 'q, 'f, 'w) app_env \<Rightarrow> principal \<Rightarrow> string option \<Rightarrow> string \<Rightarrow> ('s, 'q, 'f, 'w, e2b_entry_info list) app_comp" where
  "list_dir env pr h path =
     and_then (lift_result (raised (validate_path path))) (\<lambda>_.
     and_then (guest_io env pr h) (\<lambda>(i, conn).
     and_then (call (ae_list_dir env conn path)) (\<lambda>entries.
     ok (map (\<lambda>e. \<lparr>ei_name = lf_name e, ei_type = (if lf_is_dir e then ''directory'' else ''file''), ei_path = listed_path path (lf_name e),
                   ei_size = unat (lf_size e), ei_mode = lf_mode e\<rparr>) entries))))"

definition exec_filesystem ::
  "('s, 'q, 'f, 'w) app_env \<Rightarrow> principal \<Rightarrow> string option \<Rightarrow> string list \<Rightarrow> ('s, 'q, 'f, 'w, execution_result) app_comp" where
  "exec_filesystem env pr h argv =
     and_then (guest_io env pr h) (\<lambda>(i, conn). call (ae_exec env conn argv [(''LC_ALL'', ''C'')] None 30000))"

record fs_entry =
  fn_name :: string
  fn_type :: string
  fn_path :: string
  fn_size :: nat
  fn_mode :: nat
  fn_permissions :: string

fun show_radix8 :: "nat \<Rightarrow> string" where
  "show_radix8 n = (if n < 8 then [char_of (48 + n)] else show_radix8 (n div 8) @ [char_of (48 + n mod 8)])"

declare show_radix8.simps [simp del]

fun octal_value :: "nat \<Rightarrow> string \<Rightarrow> nat option" where
  "octal_value acc [] = Some acc"
| "octal_value acc (c # cs) =
     (if 48 \<le> code c \<and> code c < 56 \<and> acc * 8 + (code c - 48) < 2 ^ 32 then octal_value (acc * 8 + (code c - 48)) cs else None)"

text \<open>\<open>u32::from_str_radix(s, 8)\<close>.\<close>

definition parse_octal :: "string \<Rightarrow> nat option" where
  "parse_octal s =
     (case s of [] \<Rightarrow> None | c # cs \<Rightarrow> if c = CHR ''+'' then (if cs = [] then None else octal_value 0 cs) else octal_value 0 s)"

definition filesystem_entry :: "string \<Rightarrow> string \<Rightarrow> nat \<Rightarrow> nat \<Rightarrow> fs_entry" where
  "filesystem_entry path kind sz mode =
     \<lparr>fn_name = (if base_name path = [] then ''/'' else base_name path), fn_type = kind, fn_path = path, fn_size = sz,
      fn_mode = mode, fn_permissions = show_radix8 mode\<rparr>"

definition nth_field :: "nat \<Rightarrow> string list \<Rightarrow> string option" where
  "nth_field n xs = (if n < length xs then Some (xs ! n) else None)"

definition is_infix :: "string \<Rightarrow> string \<Rightarrow> bool" where
  "is_infix p s \<longleftrightarrow> list_ex (\<lambda>t. starts_with p t) (suffixes s)"

text \<open>The line that \<open>stat -c %F|%s|%a\<close> prints.\<close>

definition parse_stat :: "string \<Rightarrow> string \<Rightarrow> fs_entry" where
  "parse_stat path out =
     (let fs = split_on (CHR ''|'') (str_trim out);
          kind = (if is_infix ''directory'' (unwrap_or (nth_field 0 fs) []) then ''FILE_TYPE_DIRECTORY'' else ''FILE_TYPE_FILE'');
          sz = unwrap_or (Option.bind (nth_field 1 fs) (parse_uint (2 ^ 64 - 1))) 0;
          mode = unwrap_or (parse_octal (unwrap_or (nth_field 2 fs) ''644'')) 420
      in filesystem_entry path kind sz mode)"

definition filesystem_stat ::
  "('s, 'q, 'f, 'w) app_env \<Rightarrow> principal \<Rightarrow> string option \<Rightarrow> string \<Rightarrow> ('s, 'q, 'f, 'w, fs_entry) app_comp" where
  "filesystem_stat env pr h path =
     and_then (lift_result (raised (validate_path path))) (\<lambda>_.
     and_then (exec_filesystem env pr h [''stat'', ''-c'', ''%F|%s|%a'', path]) (\<lambda>r.
     if er_exit_code r \<noteq> 0 then raise (not_found (''path not found: '' @ path))
     else ok (parse_stat path (ae_utf8_lossy env (er_stdout r)))))"

definition fs_failed :: "('s, 'q, 'f, 'w) app_env \<Rightarrow> execution_result \<Rightarrow> clouisle_error" where
  "fs_failed env r = internal_error (str_trim (ae_utf8_lossy env (er_stderr r)))"

definition filesystem_make_dir ::
  "('s, 'q, 'f, 'w) app_env \<Rightarrow> principal \<Rightarrow> string option \<Rightarrow> string \<Rightarrow> ('s, 'q, 'f, 'w, fs_entry) app_comp" where
  "filesystem_make_dir env pr h path =
     and_then (lift_result (raised (validate_path path))) (\<lambda>_.
     and_then (exec_filesystem env pr h [''mkdir'', ''-p'', path]) (\<lambda>r.
     if er_exit_code r \<noteq> 0 then raise (fs_failed env r) else ok (filesystem_entry path ''FILE_TYPE_DIRECTORY'' 0 493)))"

definition filesystem_move ::
  "('s, 'q, 'f, 'w) app_env \<Rightarrow> principal \<Rightarrow> string option \<Rightarrow> string \<Rightarrow> string \<Rightarrow> ('s, 'q, 'f, 'w, fs_entry) app_comp" where
  "filesystem_move env pr h source destination =
     and_then (lift_result (raised (validate_path source))) (\<lambda>_.
     and_then (lift_result (raised (validate_path destination))) (\<lambda>_.
     and_then (exec_filesystem env pr h [''mv'', source, destination]) (\<lambda>r.
     if er_exit_code r \<noteq> 0 then raise (fs_failed env r) else ok (filesystem_entry destination ''FILE_TYPE_FILE'' 0 420))))"

definition filesystem_remove ::
  "('s, 'q, 'f, 'w) app_env \<Rightarrow> principal \<Rightarrow> string option \<Rightarrow> string \<Rightarrow> ('s, 'q, 'f, 'w, unit) app_comp" where
  "filesystem_remove env pr h path =
     and_then (lift_result (raised (validate_path path))) (\<lambda>_.
     and_then (exec_filesystem env pr h [''rm'', ''-rf'', path]) (\<lambda>r.
     if er_exit_code r \<noteq> 0 then raise (fs_failed env r) else ok ()))"

section \<open>Watchers\<close>

record e2b_watcher_request =
  wq_path :: string
  wq_recursive :: bool
  wq_include_entry :: bool

definition filesystem_create_watcher ::
  "('s, 'q, 'f, 'w) app_env \<Rightarrow> principal \<Rightarrow> string option \<Rightarrow> e2b_watcher_request \<Rightarrow> ('s, 'q, 'f, 'w, string) app_comp" where
  "filesystem_create_watcher env pr h rq =
     and_then (lift_result (raised (validate_path (wq_path rq)))) (\<lambda>_.
     and_then (lift_result (raised (sandbox_id_from_headers h))) (\<lambda>i.
     and_then (get_owned env pr i) (\<lambda>_.
     and_then (world (ae_fresh env)) (\<lambda>fr.
     and_then (plane_call (create_watcher (ae_cp env) fr (pr_tenant_id pr) i (wq_path rq) (wq_recursive rq) (wq_include_entry rq))) (\<lambda>w.
     ok (wa_watcher_id w))))))"

definition filesystem_get_watcher_events :: "principal \<Rightarrow> string \<Rightarrow> ('s, 'q, 'f, 'w, json list) app_comp" where
  "filesystem_get_watcher_events pr wid = plane_read (watcher_events (pr_tenant_id pr) wid)"

definition filesystem_remove_watcher ::
  "('s, 'q, 'f, 'w) app_env \<Rightarrow> principal \<Rightarrow> string \<Rightarrow> ('s, 'q, 'f, 'w, unit) app_comp" where
  "filesystem_remove_watcher env pr wid = plane_call (remove_watcher (ae_cp env) (pr_tenant_id pr) wid)"

section \<open>Processes\<close>

record e2b_process_start =
  px_cmd :: string
  px_args :: "string list"
  px_envs :: "(string, string) hashmap"
  px_cwd :: "string option"
  px_timeout :: "u64 option"
  px_tag :: "string option"
  px_pty :: "pty_config option"
  px_stdin :: bool

record process_selector =
  sel_pid :: "u32 option"
  sel_tag :: "string option"

definition launch_config :: "e2b_process_start \<Rightarrow> process_config" where
  "launch_config rq = \<lparr>pc_cmd = px_cmd rq, pc_args = px_args rq, pc_envs = px_envs rq, pc_cwd = px_cwd rq, pc_tag = px_tag rq,
     pc_pty = px_pty rq, pc_stdin = px_stdin rq\<rparr>"

text \<open>\<open>NEXT_PROCESS_ID\<close> is a counter of 32 bits that wraps around.\<close>

definition next_pid :: "('s, 'q, 'f, 'w, u32) app_comp" where
  "next_pid st = (st\<lparr>ap_next_pid := ap_next_pid st + 1\<rparr>, Ok (ap_next_pid st))"

definition register_process ::
  "string \<Rightarrow> u32 \<Rightarrow> e2b_process_start \<Rightarrow> string \<Rightarrow> ('s, 'q, 'f, 'w, nat) app_comp" where
  "register_process i pid rq guest st =
     (case registry_create i pid (launch_config rq) (px_tag rq) guest (px_pty rq \<noteq> None) (ap_processes st) of
        (rg', r) \<Rightarrow> (st\<lparr>ap_processes := rg'\<rparr>, Ok r))"

definition publish_start :: "('s, 'q, 'f, 'w) app_env \<Rightarrow> nat \<Rightarrow> u32 \<Rightarrow> ('s, 'q, 'f, 'w, unit) app_comp" where
  "publish_start env r pid =
     (case ec_json (ae_codec env) (PStart pid) of
        Err e \<Rightarrow> raise (internal_error (''encode process start: '' @ e))
      | Ok payload \<Rightarrow>
          modify (\<lambda>st. st\<lparr>ap_processes := publish_at r \<lparr>pe_payload = payload @ [10], pe_terminal = False\<rparr> (ap_processes st)\<rparr>))"

definition stream_process ::
  "('s, 'q, 'f, 'w) app_env \<Rightarrow> string \<Rightarrow> nat \<Rightarrow> e2b_process_start \<Rightarrow> ('s, 'q, 'f, 'w, nat) app_comp" where
  "stream_process env i conn rq =
     and_then next_pid (\<lambda>pid.
     and_then (call (ae_start_process env conn (px_cmd rq # px_args rq) (px_envs rq) (px_cwd rq) (unwrap_or (px_timeout rq) 30000)
                 (px_stdin rq) (px_pty rq))) (\<lambda>guest.
     and_then (register_process i pid rq guest) (\<lambda>r.
     and_then (publish_start env r pid) (\<lambda>_.
     and_then (modify (spawn (PumpJob r conn guest))) (\<lambda>_. ok r)))))"

definition process_start ::
  "('s, 'q, 'f, 'w) app_env \<Rightarrow> principal \<Rightarrow> string option \<Rightarrow> e2b_process_start \<Rightarrow> ('s, 'q, 'f, 'w, nat) app_comp" where
  "process_start env pr h rq =
     and_then (lift_result (raised (sandbox_id_from_headers h))) (\<lambda>i.
     and_then (resume_for_io env pr i) (\<lambda>_.
     if str_trim (px_cmd rq) = [] then raise (validation_error ''process.cmd is required'')
     else and_then (get_conn env i pr) (\<lambda>conn. stream_process env i conn rq)))"

definition process_list ::
  "('s, 'q, 'f, 'w) app_env \<Rightarrow> principal \<Rightarrow> string option \<Rightarrow> ('s, 'q, 'f, 'w, (process_config \<times> u32) list) app_comp" where
  "process_list env pr h =
     and_then (lift_result (raised (sandbox_id_from_headers h))) (\<lambda>i.
     and_then (get_owned env pr i) (\<lambda>_ st.
     (st, Ok (map (\<lambda>s. (se_config s, se_pid s)) (registry_list i (ap_processes st))))))"

definition select_session :: "string \<Rightarrow> process_selector \<Rightarrow> process_registry \<Rightarrow> nat option" where
  "select_session i sel rg =
     (case sel_pid sel of
        Some pid \<Rightarrow> registry_get i pid rg
      | None \<Rightarrow> (case sel_tag sel of Some tag \<Rightarrow> registry_get_by_tag i tag rg | None \<Rightarrow> None))"

definition find_session :: "string \<Rightarrow> process_selector \<Rightarrow> ('s, 'q, 'f, 'w, nat) app_comp" where
  "find_session i sel st =
     (st, case select_session i sel (ap_processes st) of
            Some r \<Rightarrow> Ok r
          | None \<Rightarrow> Err (Raised (not_found (''process not found in sandbox '' @ i))))"

definition process_connect ::
  "('s, 'q, 'f, 'w) app_env \<Rightarrow> principal \<Rightarrow> string option \<Rightarrow> process_selector \<Rightarrow> ('s, 'q, 'f, 'w, nat) app_comp" where
  "process_connect env pr h sel =
     and_then (lift_result (raised (sandbox_id_from_headers h))) (\<lambda>i.
     and_then (resume_for_io env pr i) (\<lambda>_.
     find_session i sel))"

definition resolve_process_session ::
  "('s, 'q, 'f, 'w) app_env \<Rightarrow> principal \<Rightarrow> string \<Rightarrow> process_selector \<Rightarrow> ('s, 'q, 'f, 'w, process_session) app_comp" where
  "resolve_process_session env pr i sel =
     and_then (get_owned env pr i) (\<lambda>_.
     and_then (find_session i sel) (\<lambda>r st. (st, Ok (rg_heap (ap_processes st) ! r))))"

text \<open>The session a control request is about, once the sandbox has been resumed.\<close>

definition session_for ::
  "('s, 'q, 'f, 'w) app_env \<Rightarrow> principal \<Rightarrow> string option \<Rightarrow> process_selector \<Rightarrow> ('s, 'q, 'f, 'w, string \<times> process_session) app_comp" where
  "session_for env pr h sel =
     and_then (lift_result (raised (sandbox_id_from_headers h))) (\<lambda>i.
     and_then (resume_for_io env pr i) (\<lambda>_.
     and_then (resolve_process_session env pr i sel) (\<lambda>s. ok (i, s))))"

definition send_chunk ::
  "('s, 'q, 'f, 'w) app_env \<Rightarrow> principal \<Rightarrow> string \<Rightarrow> process_session \<Rightarrow> string \<Rightarrow> ('s, 'q, 'f, 'w, unit) app_comp" where
  "send_chunk env pr i s input =
     (case ae_base64_decode env input of
        Err e \<Rightarrow> raise (validation_error (''input must be base64: '' @ e))
      | Ok chunk \<Rightarrow> and_then (get_conn env i pr) (\<lambda>conn. call (ae_send_stdin env conn (se_guest_id s) chunk)))"

definition process_send_input ::
  "('s, 'q, 'f, 'w) app_env \<Rightarrow> principal \<Rightarrow> string option \<Rightarrow> process_selector \<Rightarrow> string option \<Rightarrow> string option \<Rightarrow> ('s, 'q, 'f, 'w, unit) app_comp" where
  "process_send_input env pr h sel stdin pty =
     and_then (session_for env pr h sel) (\<lambda>(i, s).
     case (case stdin of Some x \<Rightarrow> Some x | None \<Rightarrow> pty) of
       None \<Rightarrow> raise (validation_error ''input.stdin or input.pty is required'')
     | Some input \<Rightarrow> send_chunk env pr i s input)"

text \<open>One message \<open>{"event":{"data":{"input":...}}}\<close>; a process number that is no number of 32 bits counts as absent.\<close>

fun json_u64 :: "json \<Rightarrow> nat option" where
  "json_u64 (JNum t) = parse_digits (2 ^ 64 - 1) t"
| "json_u64 _ = None"

definition json_path :: "string list \<Rightarrow> json \<Rightarrow> json option" where
  "json_path ks j = fold (\<lambda>k v. Option.bind v (json_get k)) ks (Some j)"

definition message_selector :: "json \<Rightarrow> process_selector" where
  "message_selector input =
     \<lparr>sel_pid = Option.bind (Option.bind (json_path [''process'', ''pid''] input) json_u64)
        (\<lambda>n. if n < 2 ^ 32 then Some (of_nat n) else None),
      sel_tag = Option.bind (json_path [''process'', ''tag''] input) json_str\<rparr>"

definition message_chunk :: "json \<Rightarrow> string option" where
  "message_chunk input =
     Option.bind (case json_path [''input'', ''stdin''] input of Some x \<Rightarrow> Some x | None \<Rightarrow> json_path [''input'', ''pty''] input) json_str"

definition process_stream_input ::
  "('s, 'q, 'f, 'w) app_env \<Rightarrow> principal \<Rightarrow> string option \<Rightarrow> json \<Rightarrow> ('s, 'q, 'f, 'w, unit) app_comp" where
  "process_stream_input env pr h rq =
     (case json_path [''event'', ''data'', ''input''] rq of
        None \<Rightarrow> raise (validation_error ''expected event.data.input message'')
      | Some input \<Rightarrow>
          and_then (session_for env pr h (message_selector input)) (\<lambda>(i, s).
          case message_chunk input of
            None \<Rightarrow> raise (validation_error ''input.stdin is required'')
          | Some chunk \<Rightarrow> send_chunk env pr i s chunk))"

datatype e2b_signal = SigName string | SigNum u8

definition into_signal :: "e2b_signal \<Rightarrow> (process_signal, clouisle_error) result" where
  "into_signal sig =
     (case sig of
        SigNum n \<Rightarrow>
          if n = 9 then Ok Sigkill else if n = 15 then Ok Sigterm else if n = 2 then Ok Sigint
          else Err (validation_error ''unsupported signal number'')
      | SigName name \<Rightarrow>
          if name = ''SIGNAL_SIGKILL'' then Ok Sigkill else if name = ''SIGNAL_SIGTERM'' then Ok Sigterm
          else if name = ''SIGNAL_SIGINT'' then Ok Sigint
          else Err (validation_error (''unsupported signal: '' @ name)))"

definition process_send_signal ::
  "('s, 'q, 'f, 'w) app_env \<Rightarrow> principal \<Rightarrow> string option \<Rightarrow> process_selector \<Rightarrow> e2b_signal \<Rightarrow> ('s, 'q, 'f, 'w, unit) app_comp" where
  "process_send_signal env pr h sel sig =
     and_then (session_for env pr h sel) (\<lambda>(i, s).
     and_then (lift_result (raised (into_signal sig))) (\<lambda>signal.
     and_then (get_conn env i pr) (\<lambda>conn. call (ae_send_signal env conn (se_guest_id s) signal))))"

definition process_close_stdin ::
  "('s, 'q, 'f, 'w) app_env \<Rightarrow> principal \<Rightarrow> string option \<Rightarrow> process_selector \<Rightarrow> ('s, 'q, 'f, 'w, unit) app_comp" where
  "process_close_stdin env pr h sel =
     and_then (session_for env pr h sel) (\<lambda>(i, s).
     and_then (get_conn env i pr) (\<lambda>conn. call (ae_close_stdin env conn (se_guest_id s))))"

definition process_update ::
  "('s, 'q, 'f, 'w) app_env \<Rightarrow> principal \<Rightarrow> string option \<Rightarrow> process_selector \<Rightarrow> (u16 \<times> u16) option \<Rightarrow> ('s, 'q, 'f, 'w, unit) app_comp" where
  "process_update env pr h sel wh =
     and_then (session_for env pr h sel) (\<lambda>(i, s).
     if \<not> se_pty s then raise (validation_error (''process '' @ show_nat (unat (se_pid s)) @ '' is not a PTY session''))
     else case wh of
       None \<Rightarrow> raise (validation_error ''pty size is required for update'')
     | Some (cols, rows) \<Rightarrow>
         and_then (get_conn env i pr) (\<lambda>conn. call (ae_resize_pty env conn (se_guest_id s) cols rows)))"

section \<open>Environment and composition\<close>

definition string_vars :: "json \<Rightarrow> (string, string) hashmap option" where
  "string_vars body =
     (case json_get ''envVars'' body of
        Some (JObj m) \<Rightarrow> Some (List.map_filter (\<lambda>(k, v). map_option (Pair k) (json_str v)) m)
      | _ \<Rightarrow> None)"

definition envd_init ::
  "('s, 'q, 'f, 'w) app_env \<Rightarrow> principal \<Rightarrow> string option \<Rightarrow> json \<Rightarrow> ('s, 'q, 'f, 'w, unit) app_comp" where
  "envd_init env pr h body =
     and_then (lift_result (raised (sandbox_id_from_headers h))) (\<lambda>i.
     and_then (get_owned env pr i) (\<lambda>sb.
     case string_vars body of
       None \<Rightarrow> ok ()
     | Some vars \<Rightarrow> store_update env i (USpec ((sb_spec sb)\<lparr>sp_env := vars\<rparr>))))"

definition envd_envs ::
  "('s, 'q, 'f, 'w) app_env \<Rightarrow> principal \<Rightarrow> string option \<Rightarrow> ('s, 'q, 'f, 'w, (string, string) hashmap) app_comp" where
  "envd_envs env pr h =
     and_then (lift_result (raised (sandbox_id_from_headers h))) (\<lambda>i.
     and_then (get_owned env pr i) (\<lambda>sb. ok (sp_env (sb_spec sb))))"

fun validate_paths :: "string list \<Rightarrow> (unit, clouisle_error) result" where
  "validate_paths [] = Ok ()"
| "validate_paths (p # ps) = (case validate_path p of Err e \<Rightarrow> Err e | Ok _ \<Rightarrow> validate_paths ps)"

fun read_all :: "('s, 'q, 'f, 'w) app_env \<Rightarrow> nat \<Rightarrow> string list \<Rightarrow> ('s, 'q, 'f, 'w, byte list) app_comp" where
  "read_all env conn [] = ok []"
| "read_all env conn (p # ps) =
     and_then (call (ae_read_file env conn p)) (\<lambda>data. and_then (read_all env conn ps) (\<lambda>rest. ok (data @ rest)))"

fun remove_all :: "('s, 'q, 'f, 'w) app_env \<Rightarrow> nat \<Rightarrow> string list \<Rightarrow> ('s, 'q, 'f, 'w, unit) app_comp" where
  "remove_all env conn [] = ok ()"
| "remove_all env conn (p # ps) =
     and_then (ignore (world (ae_exec env conn [''rm'', ''-f'', p] [] None 30000))) (\<lambda>_. remove_all env conn ps)"

definition envd_compose ::
  "('s, 'q, 'f, 'w) app_env \<Rightarrow> principal \<Rightarrow> string option \<Rightarrow> string list \<Rightarrow> string \<Rightarrow> ('s, 'q, 'f, 'w, string \<times> string) app_comp" where
  "envd_compose env pr h sources destination =
     (if sources = [] \<or> destination = [] then raise (validation_error ''source_paths and destination are required'')
      else
        and_then (lift_result (raised (validate_path destination))) (\<lambda>_.
        and_then (lift_result (raised (validate_paths sources))) (\<lambda>_.
        and_then (guest_io env pr h) (\<lambda>(i, conn).
        and_then (read_all env conn sources) (\<lambda>content.
        and_then (call (ae_write_file env conn destination content 420)) (\<lambda>_.
        and_then (remove_all env conn sources) (\<lambda>_.
        ok (destination, base_name destination))))))))"

end
