(* ===== verification/Service_Ledger.thy ===== *)
theory Service_Ledger
  imports Lifecycle_Safety E2b_Envd
begin

text \<open>
  The handlers on sandboxes, files, executions and images and those of the E2B interface keep the balance of
  permits of \<open>Lifecycle_Safety\<close>: \<open>keeps\<close> is proved of every one of them, by the rules of \<open>keeps_intros\<close> for the
  parts they are made of.
\<close>

section \<open>Handlers that leave the ledger alone\<close>

lemma calm_reads:
  "calm_comp (find_owned env pr i)" "calm_comp (get_sandbox env pr i)" "calm_comp (list_sandboxes env pr q)"
  "calm_comp (exec_sync env pr i xq)" "calm_comp (get_conn env i pr)"
  unfolding find_owned_def get_sandbox_def list_sandboxes_def exec_sync_def ensure_executable_def get_conn_def Let_def
  by (intro frame_intros)+

lemma calm_files:
  "calm_comp (upload_file env pr i path body)" "calm_comp (download_file env pr i path)" "calm_comp (list_files env pr i path)"
  unfolding upload_file_def download_file_def list_files_def by (intro frame_intros calm_reads)+

lemma calm_take_snapshot [frame_intros]: "calm_comp (take_snapshot env key i ab h)"
proof -
  have "calm_comp (modify (\<lambda>st. st\<lparr>ap_snapshots := g st\<rparr>))" for g
    by (simp add: confined_def modify_def same_ledger_def ledger_def)
  then show ?thesis unfolding take_snapshot_def by (intro frame_intros)
qed

lemma calm_warm_snapshot: "calm_comp (warm_snapshot_for env sp)"
proof -
  have dir: "calm_comp (create_snapshot_dir env i)" for i
    unfolding create_snapshot_dir_def by (auto intro!: frame_intros split: sum.split)
  have "same_ledger st (fst (warm_snapshot_for env sp st))" for st :: "('a, 'b, 'c, 'd) app"
  proof -
    have "calm_comp (and_then allocate_subnet (\<lambda>subnet.
        and_then (world (ae_uuid env)) (\<lambda>i.
        and_then (net_create env i (Some subnet)) (\<lambda>_.
        and_then (call (ae_vm_create_in_subnet env i sp subnet)) (\<lambda>h.
        and_then (call (ae_vm_start env h)) (\<lambda>_.
        and_then (if ae_manage_network env then call (attach_tap (ae_net env) i) else ok ()) (\<lambda>_.
        and_then (call_within ''snapshot warm hello timed out'' (ae_hello_within env 30 h i)) (\<lambda>conn.
        and_then (call (ae_ping env conn)) (\<lambda>_.
        and_then (call (ae_vm_pause env h)) (\<lambda>_.
        and_then (create_snapshot_dir env i) (\<lambda>_.
        take_snapshot env (pool_key (ae_hash64 env) sp) i subnet h)))))))))))"
      by (intro frame_intros dir)
    then show ?thesis by (simp add: warm_snapshot_for_def Let_def confined_def calm.refl)
  qed
  then show ?thesis by (simp add: confined_def)
qed

lemma calm_tokens:
  fixes env :: "('a, 'b, 'c, 'd) app_env"
  shows "calm_comp (ensure_e2b_access_token env i t)" and "calm_comp (remove_e2b_access_token env i t)"
proof -
  have m: "calm_comp (modify (\<lambda>st. st\<lparr>ap_e2b_tokens := g st\<rparr>))" for g
    by (simp add: confined_def modify_def same_ledger_def ledger_def)
  have sum: "calm_comp (case r of Ok a \<Rightarrow> f a | Err e \<Rightarrow> h e)" if "\<And>a. calm_comp (f a)" "\<And>e. calm_comp (h e)" for r f h
    using that by (simp split: sum.split)
  show "calm_comp (ensure_e2b_access_token env i t)"
    unfolding confined_def
  proof
    fix st :: "('a, 'b, 'c, 'd) app"
    have "same_ledger st (fst (and_then (world (ae_fresh env)) (\<lambda>fr.
          and_then (e2b_call (create_access_token (ae_cp env) fr t (''sandbox-'' @ i))) (\<lambda>r.
          case r of
            Err e \<Rightarrow> raise (internal_error (control_plane_error_text e))
          | Ok c \<Rightarrow>
              and_then (modify (\<lambda>st. st\<lparr>ap_e2b_tokens := hm_insert i (kc_id c, kc_secret c) (ap_e2b_tokens st)\<rparr>))
                (\<lambda>_. ok (kc_secret c)))) st))"
      by (rule confined_at) (intro frame_intros sum m)
    then show "same_ledger st (fst (ensure_e2b_access_token env i t st))"
      by (simp add: ensure_e2b_access_token_def calm.refl split: option.split)
  qed
  show "calm_comp (remove_e2b_access_token env i t)"
    unfolding confined_def
  proof
    fix st :: "('a, 'b, 'c, 'd) app"
    have c: "same_ledger st' (fst (and_then (world (ae_fresh env)) (\<lambda>fr. ignore (e2b_call (delete_access_token (ae_cp env) fr t tid))) st'))"
      for tid and st' :: "('a, 'b, 'c, 'd) app"
      by (rule confined_at) (intro frame_intros)
    have "same_ledger (st\<lparr>ap_e2b_tokens := hm_remove i (ap_e2b_tokens st)\<rparr>) (fst (remove_e2b_access_token env i t st))"
      if "hm_get (ap_e2b_tokens st) i \<noteq> None"
      using that c by (auto simp: remove_e2b_access_token_def)
    then show "same_ledger st (fst (remove_e2b_access_token env i t st))"
      by (cases "hm_get (ap_e2b_tokens st) i") (simp_all add: remove_e2b_access_token_def same_ledger_def ledger_def)
  qed
qed

lemma keeps_prefetch: "keeps env (prefetch_images env pr pq)"
  unfolding prefetch_images_def Let_def by (simp add: keeps_queue_images keeps_calm frame_intros)

section \<open>The E2B handlers\<close>

lemma calm_modify_processes [frame_intros]: "calm_comp (modify (\<lambda>st. st\<lparr>ap_processes := g st\<rparr>))"
  by (simp add: confined_def modify_def same_ledger_def ledger_def)

lemma calm_owned [frame_intros]: "calm_comp (get_owned env pr i)" "calm_comp (get_conn env i pr)"
  unfolding get_owned_def by (rule calm_reads)+

lemma calm_response [frame_intros]: "calm_comp (shown env sb)" "calm_comp (e2b_response env sb)"
proof -
  show c: "calm_comp (shown env sb)" unfolding shown_def by (intro frame_intros)
  show "calm_comp (e2b_response env sb)" unfolding e2b_response_def by (intro frame_intros c calm_tokens)
qed

named_theorems keeps_intros

lemma keeps_atoms [keeps_intros]:
  "keeps env (ok a)" "keeps env (raise e)" "keeps env (throw x)" "keeps env (lift_result r)" "keeps env (world f)" "keeps env (call g)"
  "keeps env (call_within msg k)" "keeps env (store_get env i)" "keeps env (store_update env i u)" "keeps env (store_list env flt)"
  "keeps env (get_owned env pr i)" "keeps env (get_conn env i pr)" "keeps env (plane_read p)" "keeps env (plane_call c)"
  "keeps env (e2b_response env sb)" "keeps env (modify (\<lambda>st. st\<lparr>ap_processes := h st\<rparr>))" "keeps env (\<lambda>st. (st, d st))"
  "keeps env (ignore (world j))"
  by (intro keeps_calm frame_intros)+

lemma keeps_cases [keeps_intros]:
  "keeps env m \<Longrightarrow> keeps env n \<Longrightarrow> keeps env (if b then m else n)"
  "keeps env m \<Longrightarrow> (\<And>x. keeps env (f x)) \<Longrightarrow> keeps env (case v of None \<Rightarrow> m | Some x \<Rightarrow> f x)"
  "(\<And>x y. keeps env (g x y)) \<Longrightarrow> keeps env (case p of (x, y) \<Rightarrow> g x y)"
  "(\<And>x. keeps env (k x)) \<Longrightarrow> (\<And>e. keeps env (l e)) \<Longrightarrow> keeps env (case r of Ok x \<Rightarrow> k x | Err e \<Rightarrow> l e)"
  by (auto split: option.split prod.split sum.split)

lemmas [keeps_intros] = keeps_and_then

lemma keeps_tokens [keeps_intros]:
  "keeps env (ensure_e2b_access_token env i t)" "keeps env (remove_e2b_access_token env i t)"
  by (intro keeps_calm calm_tokens)+

lemma calm_resume_vm: "calm_comp (resume_vm env sb)"
  unfolding resume_vm_def by (intro frame_intros)

lemma keeps_resume_paused:
  assumes laws: "semaphore_laws (ae_sem env)"
  shows "keeps env (resume_paused env sb)"
  unfolding resume_paused_def
proof (rule keeps_reserving)
  fix cap r st
  assume b: "balanced env cap r st"
  show "balanced env cap None (fst (and_then (holding env r (resume_vm env sb))
      (\<lambda>_. case r of Some x \<Rightarrow> modify (keep_reservation env (sb_id sb) x) | None \<Rightarrow> ok ()) st))"
    by (rule holding_balanced [OF laws calm_resume_vm b])
      (auto simp: modify_def ok_def balanced_keep [OF laws] split: option.split)
qed (rule reserve_again_balanced [OF laws])

lemma keeps_resume:
  assumes "semaphore_laws (ae_sem env)"
  shows "keeps env (resume_if_needed env sb t)" and "keeps env (resume_for_io env pr i)" and "keeps env (guest_io env pr h)"
proof -
  show r: "keeps env (resume_if_needed env sb t)" for sb t
    unfolding resume_if_needed_def set_expiry_def by (intro keeps_intros keeps_resume_paused [OF assms])
  show io: "keeps env (resume_for_io env pr i)" for i unfolding resume_for_io_def by (intro keeps_intros r)
  show "keeps env (guest_io env pr h)" unfolding guest_io_def by (intro keeps_intros io)
qed

lemma calm_clone_record: "calm_comp (clone_record env sp)"
  unfolding clone_record_def by (intro frame_intros)

lemma keeps_clone:
  assumes laws: "semaphore_laws (ae_sem env)"
  shows "keeps env (e2b_clone env pr sid sp)"
proof -
  have tail: "keeps env (and_then (reserve env sp) (\<lambda>r.
        and_then (holding env r (clone_record env sp)) (\<lambda>sb.
        and_then (modify (spawn (CloneJob sb r paths None))) (\<lambda>_.
        and_then (e2b_response env sb) (\<lambda>eb. ok (202 :: nat, eb))))))" for paths
  proof (rule keeps_reserving)
    fix cap r st
    assume b: "balanced env cap r st"
    show "balanced env cap None (fst (and_then (holding env r (clone_record env sp)) (\<lambda>sb.
        and_then (modify (spawn (CloneJob sb r paths None))) (\<lambda>_. and_then (e2b_response env sb) (\<lambda>eb. ok (202 :: nat, eb)))) st))"
    proof (rule holding_balanced [OF laws calm_clone_record b])
      fix sb st' assume "balanced env cap r st'"
      then have s: "balanced env cap None (spawn (CloneJob sb r paths None) st')" by (simp add: balanced_spawn)
      have "calm_comp (and_then (e2b_response env sb) (\<lambda>eb. ok (202 :: nat, eb)))" by (intro frame_intros)
      from balanced_calm_fst [OF this s]
      show "balanced env cap None (fst (and_then (modify (spawn (CloneJob sb r paths None)))
          (\<lambda>_. and_then (e2b_response env sb) (\<lambda>eb. ok (202 :: nat, eb))) st'))"
        by (simp add: and_then_def modify_def)
    qed
  qed (rule reserve_balanced [OF laws])
  show ?thesis unfolding e2b_clone_def
    by (intro keeps_cases(1) keeps_atoms(2) keeps_and_then [OF keeps_atoms(13)] tail)
qed

lemma keeps_e2b_create:
  assumes laws: "semaphore_laws (ae_sem env)"
  shows "keeps env (e2b_create env pr rq)"
proof -
  have "fst (template_image env pr tid sp st) = st" for tid sp st
    by (simp add: template_image_def raise_def throw_def ok_def split: sum.split option.split control_plane_error.split)
  then have t: "keeps env (template_image env pr tid sp)" for tid sp
    by (intro keeps_calm calm.confined_const)
  show ?thesis
    unfolding e2b_create_def by (intro keeps_intros t keeps_clone [OF laws] keeps_create [OF laws])
qed

lemma keeps_show_all: "keeps env (show_all env sbs)"
  by (induction sbs) (auto intro!: keeps_intros keeps_calm [OF calm_response(1)])

lemma keeps_e2b:
  assumes "semaphore_laws (ae_sem env)"
  shows "keeps env (list_inner env pr q b)" and "keeps env (e2b_get env pr i)" and "keeps env (e2b_delete env pr i)"
    and "keeps env (e2b_pause env pr i)" and "keeps env (e2b_connect env pr i t)" and "keeps env (e2b_resume env pr i t)"
    and "keeps env (set_timeout env pr i n)" and "keeps env (update_network env pr i rq)"
proof -
  have u: "keeps env (net_update env i net)" for net
    by (rule keeps_calm) (auto simp: confined_def net_update_def same_ledger_def ledger_def split: prod.split)
  show "keeps env (update_network env pr i rq)"
    unfolding update_network_def Let_def by (intro keeps_intros u)
  show "keeps env (set_timeout env pr i n)" unfolding set_timeout_def set_expiry_def by (intro keeps_intros)
  show "keeps env (e2b_delete env pr i)" unfolding e2b_delete_def by (intro keeps_intros keeps_delete [OF assms])
  show "keeps env (list_inner env pr q b)" unfolding list_inner_def by (intro keeps_intros keeps_show_all)
qed (unfold e2b_get_def e2b_pause_def e2b_connect_def e2b_resume_def, (intro keeps_intros keeps_resume [OF assms])+)

lemma keeps_envd_files:
  assumes "semaphore_laws (ae_sem env)"
  shows "keeps env (e2b_upload_file env pr h path body)" and "keeps env (e2b_download_file env pr h path)"
    and "keeps env (list_dir env pr h path)" and "keeps env (filesystem_stat env pr h path)" and "keeps env (filesystem_make_dir env pr h path)"
    and "keeps env (filesystem_move env pr h path dst)" and "keeps env (filesystem_remove env pr h path)"
    and "keeps env (filesystem_create_watcher env pr h wq)" and "keeps env (filesystem_remove_watcher env pr wid)"
    and "keeps env (envd_init env pr h body')" and "keeps env (envd_compose env pr h srcs dst)"
proof -
  have e: "keeps env (exec_filesystem env pr h argv)" for argv
    unfolding exec_filesystem_def by (intro keeps_intros keeps_resume [OF assms])
  have r: "keeps env (read_all env conn ps)" and d: "keeps env (remove_all env conn ps)" for conn ps
    by (induction ps) (auto intro!: keeps_intros)
  show "keeps env (envd_compose env pr h srcs dst)"
    unfolding envd_compose_def by (intro keeps_intros keeps_resume [OF assms] r d)
  show "keeps env (filesystem_stat env pr h path)" "keeps env (filesystem_make_dir env pr h path)"
    "keeps env (filesystem_move env pr h path dst)" "keeps env (filesystem_remove env pr h path)"
    unfolding filesystem_stat_def filesystem_make_dir_def filesystem_move_def filesystem_remove_def by (intro keeps_intros e)+
qed (unfold e2b_upload_file_def e2b_download_file_def list_dir_def filesystem_create_watcher_def filesystem_remove_watcher_def envd_init_def,
    (intro keeps_intros keeps_resume [OF assms])+)

lemma keeps_registry [keeps_intros]:
  "keeps env next_pid" "keeps env (register_process i pid rq guest)" "keeps env (find_session i sel)"
  by (rule keeps_calm, simp add: confined_def next_pid_def register_process_def find_session_def same_ledger_def ledger_def split: prod.split)+

lemma keeps_processes:
  assumes "semaphore_laws (ae_sem env)"
  shows "keeps env (process_start env pr h rq)" and "keeps env (process_connect env pr h sel)"
    and "keeps env (process_send_input env pr h sel a b)" and "keeps env (process_stream_input env pr h js)"
    and "keeps env (process_send_signal env pr h sel sig)" and "keeps env (process_close_stdin env pr h sel)"
    and "keeps env (process_update env pr h sel wh)"
proof -
  have p: "keeps env (modify (spawn (PumpJob r conn g)))" for r conn g
    by (rule keeps_modify) (simp add: balanced_spawn)
  have "keeps env (stream_process env i conn rq)" for i conn
    unfolding stream_process_def publish_start_def by (intro keeps_intros p)
  then show "keeps env (process_start env pr h rq)"
    unfolding process_start_def by (intro keeps_intros keeps_resume [OF assms])
  have s: "keeps env (session_for env pr h sel)" for sel
    unfolding session_for_def resolve_process_session_def by (intro keeps_intros keeps_resume [OF assms])
  have c: "keeps env (send_chunk env pr i s x)" for i s x
    unfolding send_chunk_def by (intro keeps_intros)
  show "keeps env (process_send_input env pr h sel a b)" "keeps env (process_stream_input env pr h js)"
    unfolding process_send_input_def process_stream_input_def by (intro keeps_intros s c)+
  show "keeps env (process_send_signal env pr h sel sig)" "keeps env (process_close_stdin env pr h sel)"
    "keeps env (process_update env pr h sel wh)"
    unfolding process_send_signal_def process_close_stdin_def process_update_def by (intro keeps_intros s)+
qed (unfold process_connect_def, intro keeps_intros keeps_resume [OF assms])

end
