(* ===== verification/Cloud_Handlers.thy ===== *)
theory Cloud_Handlers
  imports E2b_Handlers
begin

text \<open>
  \<open>crates/clouisle-api/src/handlers/e2b_cloud.rs\<close>: the handlers of the E2B cloud interface. They check the
  credential of the request, call the control plane and keep the authenticator in step with it; they take snapshots
  of machines, fork sandboxes and carry out the orders of an administrator. A JSON body is a value of \<open>json\<close>,
  an answer is the record of the fields it has; the time stamps of metrics are left out of the answers.
\<close>

section \<open>Credentials of a request\<close>

type_synonym headers = "(string, string option) hashmap"

definition team_header :: "headers \<Rightarrow> principal \<Rightarrow> (string, clouisle_error) result" where
  "team_header hs pr =
     (if pr_volume_id pr \<noteq> None then Err (new_error EkForbidden ''volume credential cannot manage team resources'')
      else case hm_get hs ''x-team-id'' of
        None \<Rightarrow> Ok (pr_tenant_id pr)
      | Some None \<Rightarrow> Err (validation_error ''invalid X-Team-ID'')
      | Some (Some requested) \<Rightarrow>
          if requested \<noteq> pr_tenant_id pr then Err (not_found ''team not found'') else Ok (pr_tenant_id pr))"

definition require_volume_access :: "principal \<Rightarrow> string \<Rightarrow> (unit, clouisle_error) result" where
  "require_volume_access pr volume_id =
     (case pr_volume_id pr of
        Some allowed \<Rightarrow> if allowed \<noteq> volume_id then Err (not_found ''volume not found'') else Ok ()
      | None \<Rightarrow> Ok ())"

definition require_admin :: "string option \<Rightarrow> headers \<Rightarrow> (unit, clouisle_error) result" where
  "require_admin configured hs =
     (let supplied = map_option (\<lambda>v. unwrap_or (strip_prefix ''Bearer '' v) v)
            (Option.bind (or_else (hm_get hs ''x-admin-token'') (hm_get hs ''authorization'')) (\<lambda>v. v))
      in case configured of
           Some token \<Rightarrow> if Some token = supplied then Ok () else Err (new_error EkForbidden ''admin authentication required'')
         | None \<Rightarrow> Err (new_error EkForbidden ''admin authentication required''))"

definition checked :: "('a, clouisle_error) result \<Rightarrow> ('s, 'q, 'f, 'w, 'a) app_comp" where
  "checked r = lift_result (raised r)"

definition required_str :: "string \<Rightarrow> json \<Rightarrow> (string, clouisle_error) result" where
  "required_str key body = ok_or (validation_error (key @ '' is required'')) (field_str key body)"

fun json_u64 :: "json \<Rightarrow> nat option" where
  "json_u64 (JNum s) = parse_digits (2 ^ 64 - 1) s"
| "json_u64 _ = None"

text \<open>A control plane call that draws identifiers and clock readings.\<close>

definition plane_op ::
  "('s, 'q, 'f, 'w) app_env \<Rightarrow> ('f cp_env \<Rightarrow> fresh \<Rightarrow> ('f, 'a) cp_comp) \<Rightarrow> ('s, 'q, 'f, 'w, 'a) app_comp" where
  "plane_op env f = and_then (world (ae_fresh env)) (\<lambda>fr. plane_call (f (ae_cp env) fr))"

section \<open>Pages\<close>

definition cloud_page :: "'a list \<Rightarrow> (string, string) hashmap \<Rightarrow> 'a list \<times> string option" where
  "cloud_page items query =
     (let usize = (\<lambda>key. Option.bind (hm_get query key) (parse_uint (2 ^ 64 - 1)));
          limit = min (max (unwrap_or (usize ''limit'') 100) 1) 100;
          offset = min (unwrap_or (usize ''nextToken'') 0) (length items);
          fin = min (offset + limit) (length items)
      in (take (fin - offset) (drop offset items), if fin < length items then Some (show_nat fin) else None))"

section \<open>Teams\<close>

record team_shown =
  ts_team_id :: string
  ts_name :: string
  ts_api_key :: string
  ts_is_default :: bool

text \<open>Slicing a string at a position that is not the start of a character panics.\<close>

definition is_char_boundary :: "string \<Rightarrow> nat \<Rightarrow> bool" where
  "is_char_boundary s n \<longleftrightarrow> n = length s \<or> (n < length s \<and> \<not> (128 \<le> code (s ! n) \<and> code (s ! n) < 192))"

definition team_json :: "team_record \<Rightarrow> ('s, 'q, 'f, 'w, team_shown) app_comp" where
  "team_json t =
     (let n = min (length (tm_team_id t)) 8 in
      if is_char_boundary (tm_team_id t) n
      then ok \<lparr>ts_team_id = tm_team_id t, ts_name = tm_name t, ts_api_key = ''team_'' @ take n (tm_team_id t),
               ts_is_default = tm_is_default t\<rparr>
      else throw Panicked)"

fun teams_json :: "team_record list \<Rightarrow> ('s, 'q, 'f, 'w, team_shown list) app_comp" where
  "teams_json [] = ok []"
| "teams_json (t # ts) = and_then (team_json t) (\<lambda>x. and_then (teams_json ts) (\<lambda>xs. ok (x # xs)))"

definition cloud_list_teams ::
  "('s, 'q, 'f, 'w) app_env \<Rightarrow> principal \<Rightarrow> headers \<Rightarrow> ('s, 'q, 'f, 'w, team_shown list) app_comp" where
  "cloud_list_teams env pr hs =
     and_then (checked (team_header hs pr)) (\<lambda>team_id.
     and_then (plane_op env (\<lambda>cp fr. list_teams cp fr team_id)) teams_json)"

definition cloud_create_team ::
  "('s, 'q, 'f, 'w) app_env \<Rightarrow> principal \<Rightarrow> json \<Rightarrow> ('s, 'q, 'f, 'w, team_shown) app_comp" where
  "cloud_create_team env pr body =
     and_then (checked (required_str ''name'' body)) (\<lambda>name.
     and_then (plane_op env (\<lambda>cp fr. ensure_team cp fr (pr_tenant_id pr) (Some name))) team_json)"

definition same_team :: "headers \<Rightarrow> principal \<Rightarrow> string \<Rightarrow> (unit, clouisle_error) result" where
  "same_team hs pr team_id =
     (case team_header hs pr of
        Err e \<Rightarrow> Err e
      | Ok current \<Rightarrow> if current \<noteq> team_id then Err (not_found ''team not found'') else Ok ())"

definition cloud_team_members ::
  "('s, 'q, 'f, 'w) app_env \<Rightarrow> principal \<Rightarrow> headers \<Rightarrow> string \<Rightarrow> ('s, 'q, 'f, 'w, team_member_record list) app_comp" where
  "cloud_team_members env pr hs team_id =
     and_then (checked (same_team hs pr team_id)) (\<lambda>_. plane_op env (\<lambda>cp fr. team_members cp fr team_id))"

definition active_of :: "string \<Rightarrow> sandbox list \<Rightarrow> nat" where
  "active_of team_id sbs =
     length (filter (\<lambda>sb. sp_tenant_id (sb_spec sb) = Some team_id \<and> status_is_active (sb_status sb)) sbs)"

definition cloud_team_metrics ::
  "('s, 'q, 'f, 'w) app_env \<Rightarrow> principal \<Rightarrow> headers \<Rightarrow> string \<Rightarrow> ('s, 'q, 'f, 'w, nat) app_comp" where
  "cloud_team_metrics env pr hs team_id =
     and_then (checked (same_team hs pr team_id)) (\<lambda>_.
     and_then (store_list env None) (\<lambda>sbs. ok (active_of team_id sbs)))"

definition cloud_team_metrics_max ::
  "('s, 'q, 'f, 'w) app_env \<Rightarrow> principal \<Rightarrow> headers \<Rightarrow> string \<Rightarrow> (string, string) hashmap \<Rightarrow> ('s, 'q, 'f, 'w, nat) app_comp" where
  "cloud_team_metrics_max env pr hs team_id query =
     and_then (checked (same_team hs pr team_id)) (\<lambda>_.
     case hm_get query ''metric'' of
       None \<Rightarrow> raise (validation_error ''metric is required'')
     | Some metric \<Rightarrow>
         if metric = ''concurrent_sandboxes'' then and_then (store_list env None) (\<lambda>sbs. ok (active_of team_id sbs))
         else if metric = ''sandbox_start_rate'' then ok 0
         else raise (validation_error ''unknown metric''))"

section \<open>Keys and tokens\<close>

definition register_key :: "string \<Rightarrow> string \<Rightarrow> string \<Rightarrow> scope \<Rightarrow> ('s, 'q, 'f, 'w) app \<Rightarrow> ('s, 'q, 'f, 'w) app" where
  "register_key i raw team_id sc st = st\<lparr>ap_auth := register_with_id i raw team_id sc (ap_auth st)\<rparr>"

definition revoke_key :: "string \<Rightarrow> ('s, 'q, 'f, 'w) app \<Rightarrow> ('s, 'q, 'f, 'w) app" where
  "revoke_key i st = st\<lparr>ap_auth := revoke_id i (ap_auth st)\<rparr>"

definition cloud_list_api_keys ::
  "('s, 'q, 'f, 'w) app_env \<Rightarrow> principal \<Rightarrow> headers \<Rightarrow> ('s, 'q, 'f, 'w, api_key_shown list) app_comp" where
  "cloud_list_api_keys env pr hs =
     and_then (checked (team_header hs pr)) (\<lambda>team_id. plane_op env (\<lambda>cp fr. list_api_keys cp fr team_id))"

definition requested_scope :: "json \<Rightarrow> scope_record" where
  "requested_scope body =
     (let v = field_str ''scope'' body in if v = Some ''read'' then SrRead else if v = Some ''admin'' then SrAdmin else SrFull)"

text \<open>The key enters the control plane and then the authenticator.\<close>

definition issue_key ::
  "('s, 'q, 'f, 'w) app_env \<Rightarrow> string \<Rightarrow> string \<Rightarrow> scope_record \<Rightarrow> ('s, 'q, 'f, 'w, secret_created) app_comp" where
  "issue_key env team_id name sc =
     and_then (plane_op env (\<lambda>cp fr. create_api_key cp fr team_id name sc)) (\<lambda>c.
     and_then (modify (register_key (kc_id c) (kc_secret c) team_id (into_scope sc))) (\<lambda>_. ok c))"

definition withdraw_key :: "('s, 'q, 'f, 'w) app_env \<Rightarrow> string \<Rightarrow> string \<Rightarrow> ('s, 'q, 'f, 'w, unit) app_comp" where
  "withdraw_key env team_id i =
     and_then (plane_op env (\<lambda>cp fr. delete_api_key cp fr team_id i)) (\<lambda>_. modify (revoke_key i))"

definition cloud_create_api_key ::
  "('s, 'q, 'f, 'w) app_env \<Rightarrow> principal \<Rightarrow> headers \<Rightarrow> json \<Rightarrow> ('s, 'q, 'f, 'w, secret_created) app_comp" where
  "cloud_create_api_key env pr hs body =
     and_then (checked (team_header hs pr)) (\<lambda>team_id.
     and_then (checked (required_str ''name'' body)) (\<lambda>name. issue_key env team_id name (requested_scope body)))"

definition cloud_update_api_key ::
  "('s, 'q, 'f, 'w) app_env \<Rightarrow> principal \<Rightarrow> headers \<Rightarrow> string \<Rightarrow> json \<Rightarrow> ('s, 'q, 'f, 'w, unit) app_comp" where
  "cloud_update_api_key env pr hs i body =
     and_then (checked (team_header hs pr)) (\<lambda>team_id.
     and_then (checked (required_str ''name'' body)) (\<lambda>name. plane_op env (\<lambda>cp fr. update_api_key cp fr team_id i name)))"

definition cloud_delete_api_key ::
  "('s, 'q, 'f, 'w) app_env \<Rightarrow> principal \<Rightarrow> headers \<Rightarrow> string \<Rightarrow> ('s, 'q, 'f, 'w, unit) app_comp" where
  "cloud_delete_api_key env pr hs i =
     and_then (checked (team_header hs pr)) (\<lambda>team_id. withdraw_key env team_id i)"

definition cloud_create_access_token ::
  "('s, 'q, 'f, 'w) app_env \<Rightarrow> principal \<Rightarrow> json \<Rightarrow> ('s, 'q, 'f, 'w, secret_created) app_comp" where
  "cloud_create_access_token env pr body =
     and_then (checked (required_str ''name'' body)) (\<lambda>name.
     and_then (plane_op env (\<lambda>cp fr. create_access_token cp fr (pr_tenant_id pr) name)) (\<lambda>c.
     and_then (modify (register_key (kc_id c) (kc_secret c) (pr_tenant_id pr) ScopeFull)) (\<lambda>_. ok c)))"

definition cloud_delete_access_token ::
  "('s, 'q, 'f, 'w) app_env \<Rightarrow> principal \<Rightarrow> string \<Rightarrow> ('s, 'q, 'f, 'w, unit) app_comp" where
  "cloud_delete_access_token env pr i =
     and_then (plane_op env (\<lambda>cp fr. delete_access_token cp fr (pr_tenant_id pr) i)) (\<lambda>_. modify (revoke_key i))"

section \<open>Volumes\<close>

definition cloud_list_volumes ::
  "('s, 'q, 'f, 'w) app_env \<Rightarrow> principal \<Rightarrow> headers \<Rightarrow> ('s, 'q, 'f, 'w, (string \<times> string) list) app_comp" where
  "cloud_list_volumes env pr hs =
     and_then (checked (team_header hs pr)) (\<lambda>team_id. plane_op env (\<lambda>cp fr. list_volumes cp fr team_id))"

definition cloud_create_volume ::
  "('s, 'q, 'f, 'w) app_env \<Rightarrow> principal \<Rightarrow> headers \<Rightarrow> json \<Rightarrow> ('s, 'q, 'f, 'w, volume_created) app_comp" where
  "cloud_create_volume env pr hs body =
     and_then (checked (team_header hs pr)) (\<lambda>team_id.
     and_then (checked (required_str ''name'' body)) (\<lambda>name. plane_op env (\<lambda>cp fr. create_volume cp fr team_id name)))"

definition cloud_get_volume ::
  "('s, 'q, 'f, 'w) app_env \<Rightarrow> principal \<Rightarrow> headers \<Rightarrow> string \<Rightarrow> ('s, 'q, 'f, 'w, volume_created) app_comp" where
  "cloud_get_volume env pr hs i =
     and_then (checked (team_header hs pr)) (\<lambda>team_id. plane_read (get_volume team_id i))"

definition cloud_delete_volume ::
  "('s, 'q, 'f, 'w) app_env \<Rightarrow> principal \<Rightarrow> headers \<Rightarrow> string \<Rightarrow> ('s, 'q, 'f, 'w, unit) app_comp" where
  "cloud_delete_volume env pr hs i =
     and_then (checked (team_header hs pr)) (\<lambda>team_id. plane_op env (\<lambda>cp fr. delete_volume cp fr team_id i))"

definition query_path :: "(string, string) hashmap \<Rightarrow> string" where
  "query_path query = unwrap_or (hm_get query ''path'') ''/''"

definition trim_slashes :: "string \<Rightarrow> string" where
  "trim_slashes s = rev (dropWhile (\<lambda>c. c = CHR ''/'') (rev (dropWhile (\<lambda>c. c = CHR ''/'') s)))"

record volume_entry =
  ve_name :: string
  ve_path :: string
  ve_type :: string
  ve_size :: nat
  ve_mode :: u32
  ve_modified :: "time option"
  ve_metadata :: "(string, string) hashmap"

definition volume_dir_entry :: "string \<Rightarrow> volume_entry" where
  "volume_dir_entry path = \<lparr>ve_name = file_name (trim_slashes path), ve_path = path, ve_type = ''directory'', ve_size = 0,
     ve_mode = 493, ve_modified = None, ve_metadata = []\<rparr>"

definition volume_file_entry :: "string \<Rightarrow> volume_file_record \<Rightarrow> volume_entry" where
  "volume_file_entry path f = \<lparr>ve_name = file_name path, ve_path = path, ve_type = ''file'', ve_size = length (vf_content f),
     ve_mode = vf_mode f, ve_modified = Some (vf_modified_at f), ve_metadata = vf_metadata f\<rparr>"

definition cloud_volume_path ::
  "('s, 'q, 'f, 'w) app_env \<Rightarrow> principal \<Rightarrow> string \<Rightarrow> (string, string) hashmap \<Rightarrow> ('s, 'q, 'f, 'w, volume_entry) app_comp" where
  "cloud_volume_path env pr volume_id query =
     and_then (checked (require_volume_access pr volume_id)) (\<lambda>_ st.
       let path = query_path query in
       case get_volume_file (pr_tenant_id pr) volume_id path (ap_e2b st) of
         Ok f \<Rightarrow> (st, Ok (volume_file_entry path f))
       | Err (CpNotFound _) \<Rightarrow> (st, Ok (volume_dir_entry path))
       | Err e \<Rightarrow> (st, Err (Raised (from_control_error e))))"

text \<open>The answer of a listing is the name and the path of each entry, all of them called files.\<close>

definition cloud_volume_dir ::
  "('s, 'q, 'f, 'w) app_env \<Rightarrow> principal \<Rightarrow> string \<Rightarrow> (string, string) hashmap \<Rightarrow> ('s, 'q, 'f, 'w, (string \<times> string) list) app_comp" where
  "cloud_volume_dir env pr volume_id query =
     and_then (checked (require_volume_access pr volume_id)) (\<lambda>_.
     and_then (plane_read (list_volume_files (pr_tenant_id pr) volume_id (query_path query))) (\<lambda>ps.
     ok (map (\<lambda>p. (file_name p, p)) ps)))"

datatype volume_answer = FileContent "byte list" | FileWritten string string

definition header_metadata :: "headers \<Rightarrow> (string, string) hashmap" where
  "header_metadata hs =
     fold (\<lambda>(k, v) m. case (strip_prefix ''x-metadata-'' k, v) of (Some name, Some text) \<Rightarrow> hm_insert name text m | _ \<Rightarrow> m) hs []"

definition cloud_volume_file ::
  "('s, 'q, 'f, 'w) app_env \<Rightarrow> principal \<Rightarrow> headers \<Rightarrow> string \<Rightarrow> (string, string) hashmap \<Rightarrow> http_method \<Rightarrow> byte list
   \<Rightarrow> ('s, 'q, 'f, 'w, volume_answer) app_comp" where
  "cloud_volume_file env pr hs volume_id query verb body =
     and_then (checked (require_volume_access pr volume_id)) (\<lambda>_.
     if verb = GET then
       and_then (plane_read (get_volume_file (pr_tenant_id pr) volume_id (query_path query))) (\<lambda>f. ok (FileContent (vf_content f)))
     else
       and_then (plane_op env (\<lambda>cp fr. put_volume_file cp fr (pr_tenant_id pr) volume_id (query_path query) body (header_metadata hs)))
         (\<lambda>_. ok (FileWritten (query_path query) (file_name (query_path query)))))"

section \<open>Templates and builds\<close>

record template_shown =
  tj_template_id :: string
  tj_build_id :: string
  tj_cpu_count :: nat
  tj_memory_mb :: nat
  tj_disk_size_mb :: nat
  tj_public :: bool
  tj_aliases :: "string list"
  tj_names :: "string list"
  tj_tags :: "string list"
  tj_created_at :: time
  tj_updated_at :: time
  tj_spawn_count :: nat
  tj_build_count :: nat
  tj_build_status :: string

definition template_json :: "template_record \<Rightarrow> build_record option \<Rightarrow> template_shown" where
  "template_json t b =
     \<lparr>tj_template_id = te_template_id t, tj_build_id = unwrap_or (or_else (te_latest_build_id t) (map_option bu_build_id b)) [],
      tj_cpu_count = 1, tj_memory_mb = 128, tj_disk_size_mb = 1024, tj_public = te_public t, tj_aliases = te_aliases t,
      tj_names = te_names t, tj_tags = te_tags t, tj_created_at = te_created_at t, tj_updated_at = te_updated_at t,
      tj_spawn_count = 0, tj_build_count = length (te_build_ids t),
      tj_build_status = unwrap_or (map_option bu_status b) ''unknown''\<rparr>"

definition cloud_list_templates ::
  "('s, 'q, 'f, 'w) app_env \<Rightarrow> principal \<Rightarrow> (string, string) hashmap \<Rightarrow> ('s, 'q, 'f, 'w, template_shown list \<times> string option) app_comp" where
  "cloud_list_templates env pr query st =
     (st, Ok (cloud_page (map (\<lambda>t. template_json t None) (list_templates (pr_tenant_id pr) (ap_e2b st))) query))"

record template_accepted =
  ta_template_id :: string
  ta_build_id :: string
  ta_public :: bool
  ta_aliases :: "string list"
  ta_names :: "string list"
  ta_tags :: "string list"

definition new_template ::
  "('s, 'q, 'f, 'w) app_env \<Rightarrow> principal \<Rightarrow> json \<Rightarrow> ('s, 'q, 'f, 'w, template_record) app_comp" where
  "new_template env pr body =
     and_then (plane_op env (\<lambda>cp fr. create_template cp fr (pr_tenant_id pr)
         (or_else (field_str ''name'' body) (field_str ''alias'' body)) (field_str ''alias'' body)
         (unwrap_or (Option.bind (json_get ''public'' body) json_bool) False)
         (Option.bind (or_else (json_get ''image'' body) (json_get ''fromImage'' body)) json_str))) (\<lambda>t.
     if json_get ''tags'' body \<noteq> None
     then plane_op env (\<lambda>cp fr. update_template cp fr (pr_tenant_id pr) (te_template_id t) body) else ok t)"

definition create_template_v3 ::
  "('s, 'q, 'f, 'w) app_env \<Rightarrow> principal \<Rightarrow> json \<Rightarrow> ('s, 'q, 'f, 'w, template_accepted) app_comp" where
  "create_template_v3 env pr body =
     and_then (new_template env pr body) (\<lambda>t.
     and_then (plane_op env (\<lambda>cp fr. create_build cp fr (pr_tenant_id pr) (te_template_id t) body (te_image_reference t))) (\<lambda>b.
     and_then (modify (spawn (BuildJob (pr_tenant_id pr) b))) (\<lambda>_.
     ok \<lparr>ta_template_id = te_template_id t, ta_build_id = bu_build_id b, ta_public = te_public t, ta_aliases = te_aliases t,
         ta_names = te_names t, ta_tags = te_tags t\<rparr>)))"

definition cloud_get_template ::
  "('s, 'q, 'f, 'w) app_env \<Rightarrow> principal \<Rightarrow> string \<Rightarrow> ('s, 'q, 'f, 'w, template_shown) app_comp" where
  "cloud_get_template env pr i =
     and_then (plane_read (get_template (pr_tenant_id pr) i)) (\<lambda>t st.
       (st, Ok (template_json t (Option.bind (te_latest_build_id t) (\<lambda>b.
          case get_build (pr_tenant_id pr) b (ap_e2b st) of Ok x \<Rightarrow> Some x | Err _ \<Rightarrow> None)))))"

record build_shown =
  bs_build_id :: string
  bs_template_id :: string
  bs_status :: string
  bs_created_at :: time
  bs_updated_at :: time

definition build_json :: "build_record \<Rightarrow> build_shown" where
  "build_json b = \<lparr>bs_build_id = bu_build_id b, bs_template_id = bu_template_id b, bs_status = bu_status b,
     bs_created_at = bu_created_at b, bs_updated_at = bu_updated_at b\<rparr>"

definition list_template_builds ::
  "('s, 'q, 'f, 'w) app_env \<Rightarrow> principal \<Rightarrow> string \<Rightarrow> ('s, 'q, 'f, 'w, build_shown list) app_comp" where
  "list_template_builds env pr i =
     and_then (plane_read (get_template (pr_tenant_id pr) i)) (\<lambda>t st.
       (st, Ok (List.map_filter (\<lambda>b. case get_build (pr_tenant_id pr) b (ap_e2b st) of Ok x \<Rightarrow> Some (build_json x) | Err _ \<Rightarrow> None)
          (te_build_ids t))))"

definition start_template_build ::
  "('s, 'q, 'f, 'w) app_env \<Rightarrow> principal \<Rightarrow> string \<Rightarrow> string \<Rightarrow> ('s, 'q, 'f, 'w, unit) app_comp" where
  "start_template_build env pr template_id i =
     and_then (plane_read (get_build (pr_tenant_id pr) i)) (\<lambda>b.
     if bu_template_id b \<noteq> template_id then raise (not_found ''build not found'')
     else modify (spawn (BuildJob (pr_tenant_id pr) b)))"

definition get_build_status ::
  "('s, 'q, 'f, 'w) app_env \<Rightarrow> principal \<Rightarrow> string \<Rightarrow> ('s, 'q, 'f, 'w, build_shown) app_comp" where
  "get_build_status env pr i = and_then (plane_read (get_build (pr_tenant_id pr) i)) (\<lambda>b. ok (build_json b))"

definition get_build_logs ::
  "('s, 'q, 'f, 'w) app_env \<Rightarrow> principal \<Rightarrow> string \<Rightarrow> ('s, 'q, 'f, 'w, json list) app_comp" where
  "get_build_logs env pr i = and_then (plane_read (get_build (pr_tenant_id pr) i)) (\<lambda>b. ok (bu_logs b))"

definition admin_cancel_builds ::
  "('s, 'q, 'f, 'w) app_env \<Rightarrow> headers \<Rightarrow> string \<Rightarrow> ('s, 'q, 'f, 'w, nat \<times> nat) app_comp" where
  "admin_cancel_builds env hs team_id =
     and_then (checked (require_admin (ae_admin_token env) hs)) (\<lambda>_. plane_op env (\<lambda>cp fr. cancel_builds cp fr team_id))"

definition cloud_update_template ::
  "('s, 'q, 'f, 'w) app_env \<Rightarrow> principal \<Rightarrow> string \<Rightarrow> json \<Rightarrow> ('s, 'q, 'f, 'w, template_shown) app_comp" where
  "cloud_update_template env pr i body =
     and_then (plane_op env (\<lambda>cp fr. update_template cp fr (pr_tenant_id pr) i body)) (\<lambda>t. ok (template_json t None))"

fun add_tags ::
  "('s, 'q, 'f, 'w) app_env \<Rightarrow> principal \<Rightarrow> string \<Rightarrow> string list \<Rightarrow> template_record \<Rightarrow> ('s, 'q, 'f, 'w, template_record) app_comp" where
  "add_tags env pr i [] t = ok t"
| "add_tags env pr i (tag # tags) t =
     and_then (plane_op env (\<lambda>cp fr. add_template_tag cp fr (pr_tenant_id pr) i tag)) (\<lambda>t'. add_tags env pr i tags t')"

definition assign_template_tags ::
  "('s, 'q, 'f, 'w) app_env \<Rightarrow> principal \<Rightarrow> json \<Rightarrow> ('s, 'q, 'f, 'w, string list) app_comp" where
  "assign_template_tags env pr body =
     and_then (checked (required_str ''templateID'' body)) (\<lambda>i.
     and_then (checked (ok_or (validation_error ''tags is required'') (Option.bind (json_get ''tags'' body) json_array))) (\<lambda>tags.
     and_then (plane_read (get_template (pr_tenant_id pr) i)) (\<lambda>t.
     and_then (add_tags env pr i (List.map_filter json_str tags) t) (\<lambda>t'. ok (te_tags t')))))"

definition list_template_tags ::
  "('s, 'q, 'f, 'w) app_env \<Rightarrow> principal \<Rightarrow> string \<Rightarrow> ('s, 'q, 'f, 'w, string list) app_comp" where
  "list_template_tags env pr i = and_then (plane_read (get_template (pr_tenant_id pr) i)) (\<lambda>t. ok (te_tags t))"

definition resolve_template_alias ::
  "('s, 'q, 'f, 'w) app_env \<Rightarrow> principal \<Rightarrow> string \<Rightarrow> ('s, 'q, 'f, 'w, string \<times> bool) app_comp" where
  "resolve_template_alias env pr al st =
     (case find (\<lambda>t. al \<in> set (te_aliases t) \<or> al \<in> set (te_names t)) (list_templates (pr_tenant_id pr) (ap_e2b st)) of
        Some t \<Rightarrow> (st, Ok (te_template_id t, te_public t))
      | None \<Rightarrow> (st, Err (Raised (not_found ''template alias not found''))))"

definition template_tag_response ::
  "('s, 'q, 'f, 'w) app_env \<Rightarrow> principal \<Rightarrow> ('s, 'q, 'f, 'w, string \<times> bool) app_comp" where
  "template_tag_response env pr =
     and_then (plane_op env (\<lambda>cp fr. ensure_team cp fr (pr_tenant_id pr) None)) (\<lambda>_. ok ([], False))"

definition template_build_upload :: "byte list \<Rightarrow> ('s, 'q, 'f, 'w, unit) app_comp" where
  "template_build_upload body =
     (if 1024 * 1024 * 1024 < length body then raise (validation_error ''template upload too large'') else ok ())"

section \<open>Logs and metrics of sandboxes\<close>

definition cloud_owned :: "('s, 'q, 'f, 'w) app_env \<Rightarrow> principal \<Rightarrow> string \<Rightarrow> ('s, 'q, 'f, 'w, sandbox) app_comp" where
  "cloud_owned env pr i =
     and_then (store_get env i) (\<lambda>sb.
     if sp_tenant_id (sb_spec sb) \<noteq> Some (pr_tenant_id pr) then raise (not_found ''sandbox not found'') else ok sb)"

record log_entry =
  le_timestamp :: time
  le_level :: string
  le_message :: string
  le_execution_id :: string
  le_exit_code :: string

definition execution_logs :: "(byte list \<Rightarrow> string) \<Rightarrow> execution_record \<Rightarrow> log_entry list" where
  "execution_logs utf8_lossy x =
     map (\<lambda>(level, bytes). \<lparr>le_timestamp = xr_finished_at x, le_level = level, le_message = utf8_lossy bytes,
            le_execution_id = xr_id x, le_exit_code = show_int (xr_exit_code x)\<rparr>)
       (filter (\<lambda>(_, bytes). bytes \<noteq> []) [(''info'', xr_stdout x), (''error'', xr_stderr x)])"

definition sandbox_logs ::
  "('s, 'q, 'f, 'w) app_env \<Rightarrow> principal \<Rightarrow> string \<Rightarrow> ('s, 'q, 'f, 'w, log_entry list) app_comp" where
  "sandbox_logs env pr i =
     and_then (cloud_owned env pr i) (\<lambda>_.
     and_then (\<lambda>st. (st, raised (map_sum from_store_error id (ro_list_executions (ae_records env) i (ap_store st))))) (\<lambda>xs.
     ok (concat (map (execution_logs (ae_utf8_lossy env)) xs))))"

record metric_shown =
  ms_cpu_count :: u16
  ms_mem_total :: u64
  ms_disk_total :: u64

definition metric_of :: "sandbox \<Rightarrow> metric_shown" where
  "metric_of sb = (let r = sp_resources (sb_spec sb) in
     \<lparr>ms_cpu_count = vcpu r, ms_mem_total = ucast (memory_mb r) * 1024 * 1024, ms_disk_total = ucast (disk_mb r) * 1024 * 1024\<rparr>)"

fun metrics_of ::
  "('s, 'q, 'f, 'w) app_env \<Rightarrow> principal \<Rightarrow> string list \<Rightarrow> (string, metric_shown) hashmap
   \<Rightarrow> ('s, 'q, 'f, 'w, (string, metric_shown) hashmap) app_comp" where
  "metrics_of env pr [] m = ok m"
| "metrics_of env pr (i # is) m =
     (\<lambda>st. case store_get env i st of
        (st', Ok sb) \<Rightarrow>
          metrics_of env pr is
            (if sp_tenant_id (sb_spec sb) = Some (pr_tenant_id pr) then hm_insert i (metric_of sb) m else m) st'
      | (st', Err _) \<Rightarrow> metrics_of env pr is m st')"

definition list_sandbox_metrics ::
  "('s, 'q, 'f, 'w) app_env \<Rightarrow> principal \<Rightarrow> (string, string) hashmap \<Rightarrow> ('s, 'q, 'f, 'w, (string, metric_shown) hashmap) app_comp" where
  "list_sandbox_metrics env pr query =
     metrics_of env pr
       (filter (\<lambda>i. i \<noteq> []) (split_on (CHR '','') (unwrap_or (or_else (hm_get query ''sandboxIDs'') (hm_get query ''sandboxIds'')) [])))
       []"

section \<open>Snapshots\<close>

definition make_snapshot_root :: "('s, 'q, 'f, 'w) app_env \<Rightarrow> ('s, 'q, 'f, 'w, unit) app_comp" where
  "make_snapshot_root env =
     and_then (world (ae_create_dir_all env ''/data/e2b/snapshots'')) (\<lambda>r.
     case r of Ok _ \<Rightarrow> ok () | Err e \<Rightarrow> raise (internal_error (''create snapshot directory: '' @ e)))"

definition snapshot_paths_of :: "string \<Rightarrow> snapshot_paths" where
  "snapshot_paths_of i = \<lparr>sp_state_path = ''/data/e2b/snapshots/'' @ i @ ''.state'', sp_mem_path = ''/data/e2b/snapshots/'' @ i @ ''.mem''\<rparr>"

text \<open>The machine is paused, its socket file removed, its state written and the machine resumed, whatever became of the
  writing.\<close>

definition snapshot_machine ::
  "('s, 'q, 'f, 'w) app_env \<Rightarrow> vm_handle \<Rightarrow> snapshot_paths \<Rightarrow> ('s, 'q, 'f, 'w, unit) app_comp" where
  "snapshot_machine env h paths =
     and_then (call (ae_vm_pause env h)) (\<lambda>_.
     and_then (case vh_vsock_socket h of None \<Rightarrow> ok () | Some f \<Rightarrow> ignore (world (ae_remove_file env f))) (\<lambda>_.
     and_then (world (ae_vm_snapshot env h paths)) (\<lambda>r.
     and_then (ignore (world (ae_vm_resume env h))) (\<lambda>_. checked r))))"

definition can_snapshot :: "('s, 'q, 'f, 'w) app_env \<Rightarrow> sandbox \<Rightarrow> bool" where
  "can_snapshot env sb \<longleftrightarrow> cap_snapshot (ae_capabilities env) \<and> me_vmm_id (sb_vmm_meta sb) \<noteq> None"

record snapshot_shown =
  sj_snapshot_id :: string
  sj_sandbox_id :: string
  sj_names :: "string list"
  sj_created_at :: time

definition snapshot_json :: "snapshot_record \<Rightarrow> snapshot_shown" where
  "snapshot_json s = \<lparr>sj_snapshot_id = sn_snapshot_id s, sj_sandbox_id = sn_sandbox_id s,
     sj_names = (case sn_name s of Some n \<Rightarrow> [n] | None \<Rightarrow> []), sj_created_at = sn_created_at s\<rparr>"

definition cloud_create_snapshot ::
  "('s, 'q, 'f, 'w) app_env \<Rightarrow> principal \<Rightarrow> string \<Rightarrow> json \<Rightarrow> ('s, 'q, 'f, 'w, snapshot_shown) app_comp" where
  "cloud_create_snapshot env pr i body =
     and_then (cloud_owned env pr i) (\<lambda>sb.
     if \<not> can_snapshot env sb then raise (invalid_state ''snapshot is unavailable for this runtime'')
     else
       and_then (world (ae_uuid env)) (\<lambda>u.
       and_then (make_snapshot_root env) (\<lambda>_.
       and_then (snapshot_machine env (handle_for sb) (snapshot_paths_of u)) (\<lambda>_.
       and_then (plane_op env (\<lambda>cp fr. create_snapshot cp fr (pr_tenant_id pr) i (field_str ''name'' body)
          (sp_state_path (snapshot_paths_of u)) (sp_mem_path (snapshot_paths_of u)))) (\<lambda>s. ok (snapshot_json s))))))"

definition cloud_list_snapshots ::
  "('s, 'q, 'f, 'w) app_env \<Rightarrow> principal \<Rightarrow> (string, string) hashmap \<Rightarrow> ('s, 'q, 'f, 'w, snapshot_shown list \<times> string option) app_comp" where
  "cloud_list_snapshots env pr query st =
     (let every = map snapshot_json (list_snapshots (pr_tenant_id pr) (ap_e2b st));
          kept = (case hm_get query ''sandboxID'' of None \<Rightarrow> every | Some src \<Rightarrow> filter (\<lambda>s. sj_sandbox_id s = src) every)
      in (st, Ok (cloud_page kept query)))"

section \<open>Forks\<close>

definition fork_paths ::
  "('s, 'q, 'f, 'w) app_env \<Rightarrow> principal \<Rightarrow> sandbox \<Rightarrow> json \<Rightarrow> ('s, 'q, 'f, 'w, snapshot_paths) app_comp" where
  "fork_paths env pr source body =
     (case field_str ''snapshotID'' body of
        Some sid \<Rightarrow>
          and_then (plane_read (get_snapshot (pr_tenant_id pr) sid)) (\<lambda>s.
          ok \<lparr>sp_state_path = sn_state_path s, sp_mem_path = sn_memory_path s\<rparr>)
      | None \<Rightarrow>
          and_then (world (ae_uuid env)) (\<lambda>u.
          and_then (make_snapshot_root env) (\<lambda>_.
          and_then (snapshot_machine env (handle_for source) (snapshot_paths_of u)) (\<lambda>_.
          and_then (plane_op env (\<lambda>cp fr. create_snapshot cp fr (pr_tenant_id pr) (sb_id source) (Some (''fork-'' @ u))
             (sp_state_path (snapshot_paths_of u)) (sp_mem_path (snapshot_paths_of u)))) (\<lambda>_. ok (snapshot_paths_of u))))))"

text \<open>The second and the third part of a subnet written as \<open>10.a.b.0/30\<close>.\<close>

definition subnet_parts :: "string \<Rightarrow> (u16 \<times> u16) option" where
  "subnet_parts net =
     (case split_on (CHR ''.'') net of
        _ # a # b # _ \<Rightarrow> (case (parse_u16 a, parse_u16 b) of (Some x, Some y) \<Rightarrow> Some (x, y) | _ \<Rightarrow> None)
      | _ \<Rightarrow> None)"

definition fork_record :: "sandbox \<Rightarrow> u64 \<Rightarrow> time \<Rightarrow> string \<Rightarrow> sandbox" where
  "fork_record source timeout now i = (sandbox_new now i ((sb_spec source)\<lparr>sp_ttl_secs := Some timeout\<rparr>))\<lparr>sb_status := Starting\<rparr>"

definition fork_store ::
  "('s, 'q, 'f, 'w) app_env \<Rightarrow> snapshot_paths \<Rightarrow> (u16 \<times> u16) option \<Rightarrow> sandbox \<Rightarrow> resources option
   \<Rightarrow> ('s, 'q, 'f, 'w, string + e2b_sandbox) app_comp" where
  "fork_store env paths subnet fk r st =
     (case so_create (ae_store env) fk (ap_store st) of
        (s', Ok _) \<Rightarrow>
          and_then (modify (spawn (CloneJob fk r paths subnet))) (\<lambda>_.
          and_then (shown env fk) (\<lambda>eb. ok (Inr eb))) (st\<lparr>ap_store := s'\<rparr>)
      | (s', Err e) \<Rightarrow> (drop_reservation env r (st\<lparr>ap_store := s'\<rparr>), Ok (Inl (store_error_text e))))"

definition fork_one ::
  "('s, 'q, 'f, 'w) app_env \<Rightarrow> sandbox \<Rightarrow> u64 \<Rightarrow> snapshot_paths \<Rightarrow> (u16 \<times> u16) option
   \<Rightarrow> ('s, 'q, 'f, 'w, string + e2b_sandbox) app_comp" where
  "fork_one env source timeout paths subnet =
     and_then (world (ae_uuid env)) (\<lambda>i.
     and_then (world (ae_now env)) (\<lambda>now.
     and_then (reserve env (sb_spec (fork_record source timeout now i))) (\<lambda>r.
     fork_store env paths subnet (fork_record source timeout now i) r)))"

fun fork_loop ::
  "('s, 'q, 'f, 'w) app_env \<Rightarrow> sandbox \<Rightarrow> u64 \<Rightarrow> snapshot_paths \<Rightarrow> (u16 \<times> u16) option \<Rightarrow> nat
   \<Rightarrow> ('s, 'q, 'f, 'w, (string + e2b_sandbox) list) app_comp" where
  "fork_loop env source timeout paths subnet 0 = ok []"
| "fork_loop env source timeout paths subnet (Suc n) =
     and_then (fork_one env source timeout paths subnet) (\<lambda>x.
     and_then (fork_loop env source timeout paths subnet n) (\<lambda>xs. ok (x # xs)))"

definition fork_count :: "json \<Rightarrow> nat" where
  "fork_count body = min (max (unwrap_or (Option.bind (json_get ''count'' body) json_u64) 1) 1) 100"

definition fork_timeout :: "json \<Rightarrow> u64" where
  "fork_timeout body = of_nat (unwrap_or (Option.bind (json_get ''timeout'' body) json_u64) 15)"

definition fork_sandbox ::
  "('s, 'q, 'f, 'w) app_env \<Rightarrow> principal \<Rightarrow> string \<Rightarrow> json \<Rightarrow> ('s, 'q, 'f, 'w, (string + e2b_sandbox) list) app_comp" where
  "fork_sandbox env pr i body =
     and_then (cloud_owned env pr i) (\<lambda>source.
     if \<not> can_snapshot env source then raise (invalid_state ''fork requires an active snapshot-capable runtime'')
     else
       and_then (fork_paths env pr source body) (\<lambda>paths.
       fork_loop env source (fork_timeout body) paths (subnet_parts (subnet_of (ae_net env) (sb_id source))) (fork_count body)))"

section \<open>Administration\<close>

definition kill_stop :: "('s, 'q, 'f, 'w) app_env \<Rightarrow> sandbox \<Rightarrow> ('s, 'q, 'f, 'w, unit) app_comp" where
  "kill_stop env sb st =
     (case hm_get (ap_warm_slots st) (sb_id sb) of
        Some slot \<Rightarrow> discard_slot env slot (st\<lparr>ap_warm_slots := hm_remove (sb_id sb) (ap_warm_slots st)\<rparr>)
      | None \<Rightarrow> if me_vmm_id (sb_vmm_meta sb) \<noteq> None then stop_vm env (handle_for sb) st else (st, Ok ()))"

definition kill_delete :: "('s, 'q, 'f, 'w) app_env \<Rightarrow> string \<Rightarrow> ('s, 'q, 'f, 'w, bool) app_comp" where
  "kill_delete env i st =
     (case so_delete (ae_store env) i (ap_store st) of
        (s', Ok _) \<Rightarrow> (remove_reservation env i (st\<lparr>ap_store := s'\<rparr>), Ok True)
      | (s', Err _) \<Rightarrow> (st\<lparr>ap_store := s'\<rparr>, Ok False))"

definition kill_one :: "('s, 'q, 'f, 'w) app_env \<Rightarrow> sandbox \<Rightarrow> ('s, 'q, 'f, 'w, bool) app_comp" where
  "kill_one env sb =
     and_then (kill_stop env sb) (\<lambda>_.
     and_then (net_teardown env (sb_id sb) (inherited_subnet (sb_vmm_meta sb))) (\<lambda>_.
     kill_delete env (sb_id sb)))"

fun kill_all :: "('s, 'q, 'f, 'w) app_env \<Rightarrow> string \<Rightarrow> sandbox list \<Rightarrow> nat \<times> nat \<Rightarrow> ('s, 'q, 'f, 'w, nat \<times> nat) app_comp" where
  "kill_all env team_id [] n = ok n"
| "kill_all env team_id (sb # sbs) (killed, failed) =
     (if sp_tenant_id (sb_spec sb) = Some team_id
      then and_then (kill_one env sb) (\<lambda>done.
             kill_all env team_id sbs (if done then (Suc killed, failed) else (killed, Suc failed)))
      else kill_all env team_id sbs (killed, failed))"

definition admin_kill_team ::
  "('s, 'q, 'f, 'w) app_env \<Rightarrow> headers \<Rightarrow> string \<Rightarrow> ('s, 'q, 'f, 'w, nat \<times> nat) app_comp" where
  "admin_kill_team env hs team_id =
     and_then (checked (require_admin (ae_admin_token env) hs)) (\<lambda>_.
     and_then (store_list env None) (\<lambda>sbs. kill_all env team_id sbs (0, 0)))"

definition admin_create_key ::
  "('s, 'q, 'f, 'w) app_env \<Rightarrow> headers \<Rightarrow> string \<Rightarrow> json \<Rightarrow> ('s, 'q, 'f, 'w, secret_created) app_comp" where
  "admin_create_key env hs team_id body =
     and_then (checked (require_admin (ae_admin_token env) hs)) (\<lambda>_.
     issue_key env team_id (unwrap_or (field_str ''name'' body) ''admin-key'') SrFull)"

definition admin_delete_key ::
  "('s, 'q, 'f, 'w) app_env \<Rightarrow> headers \<Rightarrow> string \<Rightarrow> string \<Rightarrow> ('s, 'q, 'f, 'w, unit) app_comp" where
  "admin_delete_key env hs team_id i =
     and_then (checked (require_admin (ae_admin_token env) hs)) (\<lambda>_. withdraw_key env team_id i)"

section \<open>Nodes\<close>

definition cloud_nodes :: "('s, 'q, 'f, 'w) app_env \<Rightarrow> ('s, 'q, 'f, 'w, registered_node list) app_comp" where
  "cloud_nodes env =
     and_then (world (ae_now env)) (\<lambda>now st.
       (st, raised (map_sum from_store_error id (ro_list_ready_nodes (ae_records env) (ae_millis env now) (ap_store st)))))"

record node_shown =
  nj_node_id :: string
  nj_status :: node_status
  nj_endpoint :: string
  nj_info :: node_info

definition node_json :: "registered_node \<Rightarrow> node_shown" where
  "node_json n = \<lparr>nj_node_id = ni_node_id (rn_info n), nj_status = rn_status n, nj_endpoint = rn_endpoint n, nj_info = rn_info n\<rparr>"

definition cloud_list_nodes :: "('s, 'q, 'f, 'w) app_env \<Rightarrow> ('s, 'q, 'f, 'w, node_shown list) app_comp" where
  "cloud_list_nodes env = and_then (cloud_nodes env) (\<lambda>ns. ok (map node_json ns))"

definition cloud_get_node :: "('s, 'q, 'f, 'w) app_env \<Rightarrow> string \<Rightarrow> ('s, 'q, 'f, 'w, node_shown) app_comp" where
  "cloud_get_node env i =
     and_then (cloud_nodes env) (\<lambda>ns.
     case find (\<lambda>n. ni_node_id (rn_info n) = i) ns of
       Some n \<Rightarrow> ok (node_json n)
     | None \<Rightarrow> raise (not_found ''node not found''))"

end
