(* ===== verification/Cloud_Ledger.thy ===== *)
theory Cloud_Ledger
  imports Service_Ledger Cloud_Handlers
begin

text \<open>
  The handlers of the cloud interface keep the balance of permits: a fork hands its reservation to the task it
  spawns or drops it, killing a team gives the reservations of its sandboxes back, and the others touch no reservation.
\<close>

lemma calm_auth [frame_intros]: "calm_comp (modify (register_key i raw t sc))" "calm_comp (modify (revoke_key i))"
  by (simp_all add: confined_def modify_def register_key_def revoke_key_def same_ledger_def ledger_def)

lemma keeps_cloud_atoms [keeps_intros]:
  "keeps env (checked r)" "keeps env (plane_op env f)" "keeps env (modify (register_key i raw t sc))" "keeps env (modify (revoke_key i))"
  "keeps env (team_json tm)" "keeps env (shown env sb)"
proof -
  show "keeps env (team_json tm)" unfolding team_json_def Let_def by (intro keeps_intros)
  show "keeps env (plane_op env f)" unfolding plane_op_def by (intro keeps_intros)
  show "keeps env (shown env sb)" by (intro keeps_calm calm_response)
qed (unfold checked_def, (intro keeps_intros keeps_calm calm_auth)+)

lemma keeps_build_job [keeps_intros]: "keeps env (modify (spawn (BuildJob t b)))"
  by (rule keeps_modify) (simp add: balanced_spawn)

lemma keeps_teams_json [keeps_intros]: "keeps env (teams_json ts)"
  by (induction ts) (auto intro!: keeps_intros)

lemma keeps_keys [keeps_intros]: "keeps env (issue_key env t name sc)" "keeps env (withdraw_key env t i)"
  unfolding issue_key_def withdraw_key_def by (intro keeps_intros)+

section \<open>Teams, keys, volumes and templates\<close>

lemma keeps_cloud_teams:
  "keeps env (cloud_list_teams env pr hs)" "keeps env (cloud_create_team env pr body)" "keeps env (cloud_team_members env pr hs t)"
  "keeps env (cloud_list_api_keys env pr hs)" "keeps env (cloud_create_api_key env pr hs body)"
  "keeps env (cloud_update_api_key env pr hs i body)" "keeps env (cloud_delete_api_key env pr hs i)"
  "keeps env (cloud_create_access_token env pr body)" "keeps env (cloud_delete_access_token env pr i)"
  unfolding cloud_list_teams_def cloud_create_team_def cloud_team_members_def cloud_list_api_keys_def cloud_create_api_key_def
    cloud_update_api_key_def cloud_delete_api_key_def cloud_create_access_token_def cloud_delete_access_token_def
  by (intro keeps_intros)+

lemma keeps_cloud_volumes:
  "keeps env (cloud_list_volumes env pr hs)" "keeps env (cloud_create_volume env pr hs body)"
  "keeps env (cloud_delete_volume env pr hs i)" "keeps env (cloud_volume_file env pr hs i q verb bytes)"
  unfolding cloud_list_volumes_def cloud_create_volume_def cloud_delete_volume_def cloud_volume_file_def
  by (intro keeps_intros)+

lemma keeps_add_tags [keeps_intros]: "keeps env (add_tags env pr i tags t)"
  by (induction tags arbitrary: t) (auto intro!: keeps_intros)

lemma keeps_cloud_templates:
  "keeps env (create_template_v3 env pr body)" "keeps env (start_template_build env pr tid i)" "keeps env (admin_cancel_builds env hs t)"
  "keeps env (cloud_update_template env pr i body)" "keeps env (assign_template_tags env pr body)" "keeps env (template_tag_response env pr)"
  unfolding create_template_v3_def new_template_def start_template_build_def admin_cancel_builds_def cloud_update_template_def
    assign_template_tags_def template_tag_response_def
  by (intro keeps_intros)+

section \<open>Snapshots and forks\<close>

lemma keeps_cloud_owned [keeps_intros]: "keeps env (cloud_owned env pr i)"
  unfolding cloud_owned_def by (intro keeps_intros)

lemma keeps_snapshot_machine [keeps_intros]: "keeps env (snapshot_machine env h paths)" "keeps env (make_snapshot_root env)"
  unfolding snapshot_machine_def make_snapshot_root_def by (intro keeps_intros)+

lemma keeps_cloud_snapshot: "keeps env (cloud_create_snapshot env pr i body)"
  unfolding cloud_create_snapshot_def by (intro keeps_intros)

lemma balanced_store [simp]: "balanced env cap fl (st\<lparr>ap_store := s\<rparr>) = balanced env cap fl st"
  by (simp add: balanced_def)

lemma keeps_fork_one:
  assumes laws: "semaphore_laws (ae_sem env)"
  shows "keeps env (fork_one env source timeout paths subnet)"
proof -
  have "keeps env (and_then (reserve env sp) (\<lambda>r. fork_store env paths subnet fk r))" for sp fk
  proof (rule keeps_reserving)
    fix cap r st
    assume b: "balanced env cap r st"
    obtain s' q where c: "so_create (ae_store env) fk (ap_store st) = (s', q)" by (cases "so_create (ae_store env) fk (ap_store st)")
    show "balanced env cap None (fst (fork_store env paths subnet fk r st))"
    proof (cases q)
      case (Inl e)
      then show ?thesis using b balanced_drop [OF laws, of cap r "st\<lparr>ap_store := s'\<rparr>"] by (simp add: fork_store_def c)
    next
      case (Inr u)
      have "balanced env cap None (spawn (CloneJob fk r paths subnet) (st\<lparr>ap_store := s'\<rparr>))"
        using b by (intro balanced_spawn) simp
      from keepsD [OF _ this, of "and_then (shown env fk) (\<lambda>eb. ok (Inr eb))"] show ?thesis
        by (simp add: fork_store_def c Inr and_then_def modify_def keeps_intros)
    qed
  qed (rule reserve_balanced [OF laws])
  then show ?thesis unfolding fork_one_def by (intro keeps_and_then [OF keeps_atoms(5)])
qed

lemma keeps_fork:
  assumes laws: "semaphore_laws (ae_sem env)"
  shows "keeps env (fork_sandbox env pr i body)"
proof -
  have l: "keeps env (fork_loop env source timeout paths subnet n)" for source timeout paths subnet n
    by (induction n) (auto intro!: keeps_intros keeps_fork_one [OF laws])
  have "keeps env (fork_paths env pr source body)" for source
    unfolding fork_paths_def by (intro keeps_intros)
  then show ?thesis unfolding fork_sandbox_def by (intro keeps_intros l)
qed

section \<open>Administration\<close>

lemma calm_kill_stop: "calm_comp (kill_stop env sb)"
proof -
  have "same_ledger st (fst (kill_stop env sb st))" for st :: "('a, 'b, 'c, 'd) app"
  proof (cases "hm_get (ap_warm_slots st) (sb_id sb)")
    case (Some slot)
    have "same_ledger (st\<lparr>ap_warm_slots := hm_remove (sb_id sb) (ap_warm_slots st)\<rparr>) (fst (kill_stop env sb st))"
      using calm.f_discard [of env slot] by (simp add: kill_stop_def Some confined_def)
    then show ?thesis by (simp add: same_ledger_def ledger_def)
  qed (simp add: kill_stop_def calm.refl same_ledger_def ledger_def)
  then show ?thesis by (simp add: confined_def)
qed

lemma keeps_kill:
  assumes laws: "semaphore_laws (ae_sem env)"
  shows "keeps env (admin_kill_team env hs t)"
proof -
  have d: "keeps env (kill_delete env i)" for i
    by (auto simp: keeps_def kill_delete_def balanced_remove [OF laws] split: prod.split sum.split)
  have "keeps env (kill_one env sb)" for sb
    unfolding kill_one_def by (intro keeps_intros d keeps_calm [OF calm_kill_stop] keeps_calm [OF calm.f_teardown])
  then have "keeps env (kill_all env t sbs n)" for sbs n
    by (induction sbs arbitrary: n) (auto intro!: keeps_intros)
  then show ?thesis unfolding admin_kill_team_def by (intro keeps_intros)
qed

lemma keeps_admin_keys: "keeps env (admin_create_key env hs t body)" "keeps env (admin_delete_key env hs t i)"
  unfolding admin_create_key_def admin_delete_key_def by (intro keeps_intros)+

end
