(* ===== verification/Service_Steps.thy ===== *)
theory Service_Steps
  imports Cloud_Ledger
begin

text \<open>
  The whole service as a step relation: every handler of \<open>crates/clouisle-api/src/handlers/\<close> on sandboxes, files, executions, images, nodes
  and of the E2B and cloud interfaces, the spawned tasks and the periodic reconciliation, in any order. Every
  step keeps the balance of permits of \<open>Lifecycle_Safety\<close>.
\<close>

section \<open>The service as a step relation\<close>

text \<open>The handlers run one after another in any order, with the spawned tasks and the reconciliation in between.\<close>

inductive api_step :: "('s, 'q, 'f, 'w) app_env \<Rightarrow> ('s, 'q, 'f, 'w) app \<Rightarrow> ('s, 'q, 'f, 'w) app \<Rightarrow> bool" for env where
  step_create: "api_step env st (fst (create_sandbox env pr rq st))"
| step_get: "api_step env st (fst (get_sandbox env pr i st))"
| step_list: "api_step env st (fst (list_sandboxes env pr q st))"
| step_delete: "api_step env st (fst (delete_sandbox env pr i st))"
| step_recover: "api_step env st (fst (recover_sandbox env pr i st))"
| step_exec: "api_step env st (fst (exec_sync env pr i xq st))"
| step_upload: "api_step env st (fst (upload_file env pr i path body st))"
| step_download: "api_step env st (fst (download_file env pr i path st))"
| step_files: "api_step env st (fst (list_files env pr i path st))"
| step_prefetch: "api_step env st (fst (prefetch_images env pr pq st))"
| step_warm: "api_step env st (fst (warm_snapshot_for env sp st))"
| step_token: "api_step env st (fst (ensure_e2b_access_token env i t st))"
| step_untoken: "api_step env st (fst (remove_e2b_access_token env i t st))"
| step_node: "api_step env st (fst (upsert_node env n st))"
| step_e2b_create: "api_step env st (fst (e2b_create env pr er st))"
| step_e2b_list: "api_step env st (fst (list_inner env pr pg b st))"
| step_e2b_get: "api_step env st (fst (e2b_get env pr i st))"
| step_e2b_delete: "api_step env st (fst (e2b_delete env pr i st))"
| step_e2b_pause: "api_step env st (fst (e2b_pause env pr i st))"
| step_e2b_connect: "api_step env st (fst (e2b_connect env pr i t st))"
| step_e2b_resume: "api_step env st (fst (e2b_resume env pr i t st))"
| step_timeout: "api_step env st (fst (set_timeout env pr i k st))"
| step_network: "api_step env st (fst (update_network env pr i nu st))"
| step_envd_upload: "api_step env st (fst (e2b_upload_file env pr h path body st))"
| step_envd_download: "api_step env st (fst (e2b_download_file env pr h path st))"
| step_envd_list: "api_step env st (fst (list_dir env pr h path st))"
| step_stat: "api_step env st (fst (filesystem_stat env pr h path st))"
| step_make_dir: "api_step env st (fst (filesystem_make_dir env pr h path st))"
| step_move: "api_step env st (fst (filesystem_move env pr h path dst st))"
| step_remove: "api_step env st (fst (filesystem_remove env pr h path st))"
| step_watch: "api_step env st (fst (filesystem_create_watcher env pr h wq st))"
| step_unwatch: "api_step env st (fst (filesystem_remove_watcher env pr wid st))"
| step_init: "api_step env st (fst (envd_init env pr h js st))"
| step_compose: "api_step env st (fst (envd_compose env pr h srcs dst st))"
| step_process_start: "api_step env st (fst (process_start env pr h px st))"
| step_process_connect: "api_step env st (fst (process_connect env pr h sel st))"
| step_process_input: "api_step env st (fst (process_send_input env pr h sel a a' st))"
| step_process_stream: "api_step env st (fst (process_stream_input env pr h js st))"
| step_process_signal: "api_step env st (fst (process_send_signal env pr h sel sig st))"
| step_process_close: "api_step env st (fst (process_close_stdin env pr h sel st))"
| step_process_update: "api_step env st (fst (process_update env pr h sel wh st))"
| step_teams: "api_step env st (fst (cloud_list_teams env pr hs st))"
| step_team_create: "api_step env st (fst (cloud_create_team env pr js st))"
| step_members: "api_step env st (fst (cloud_team_members env pr hs t st))"
| step_keys: "api_step env st (fst (cloud_list_api_keys env pr hs st))"
| step_key_create: "api_step env st (fst (cloud_create_api_key env pr hs js st))"
| step_key_update: "api_step env st (fst (cloud_update_api_key env pr hs i js st))"
| step_key_delete: "api_step env st (fst (cloud_delete_api_key env pr hs i st))"
| step_access_create: "api_step env st (fst (cloud_create_access_token env pr js st))"
| step_access_delete: "api_step env st (fst (cloud_delete_access_token env pr i st))"
| step_volumes: "api_step env st (fst (cloud_list_volumes env pr hs st))"
| step_volume_create: "api_step env st (fst (cloud_create_volume env pr hs js st))"
| step_volume_delete: "api_step env st (fst (cloud_delete_volume env pr hs i st))"
| step_volume_file: "api_step env st (fst (cloud_volume_file env pr hs i qy verb body st))"
| step_template_create: "api_step env st (fst (create_template_v3 env pr js st))"
| step_build_start: "api_step env st (fst (start_template_build env pr tid i st))"
| step_builds_cancel: "api_step env st (fst (admin_cancel_builds env hs t st))"
| step_template_update: "api_step env st (fst (cloud_update_template env pr i js st))"
| step_tags: "api_step env st (fst (assign_template_tags env pr js st))"
| step_tag: "api_step env st (fst (template_tag_response env pr st))"
| step_snapshot: "api_step env st (fst (cloud_create_snapshot env pr i js st))"
| step_fork: "api_step env st (fst (fork_sandbox env pr i js st))"
| step_kill: "api_step env st (fst (admin_kill_team env hs t st))"
| step_admin_key: "api_step env st (fst (admin_create_key env hs t js st))"
| step_admin_unkey: "api_step env st (fst (admin_delete_key env hs t i st))"
| step_reconcile: "api_step env st (reconcile_sandboxes env st)"
| step_job: "ap_jobs st = js @ j # js' \<Longrightarrow> api_step env st (run_job env j (st\<lparr>ap_jobs := js @ js'\<rparr>))"

definition api_reach :: "('s, 'q, 'f, 'w) app_env \<Rightarrow> ('s, 'q, 'f, 'w) app \<Rightarrow> ('s, 'q, 'f, 'w) app \<Rightarrow> bool" where
  "api_reach env = (api_step env)\<^sup>*\<^sup>*"

lemma api_step_balanced:
  assumes "api_step env st st'" and "semaphore_laws (ae_sem env)" and "balanced env cap None st"
  shows "balanced env cap None st'"
  using assms(1)
proof cases
  case (step_job js j js')
  then show ?thesis using balanced_run_job [OF assms(2) balanced_pop [OF assms(3)]] by simp
qed (use assms(3) in \<open>auto intro: keepsD keeps_create [OF assms(2)] keeps_delete [OF assms(2)] keeps_recover [OF assms(2)]
    keeps_prefetch keeps_upsert [OF assms(2)] balanced_reconcile [OF assms(2)] balanced_calm_fst calm_reads calm_files
    calm_warm_snapshot calm_tokens keeps_e2b_create [OF assms(2)] keeps_e2b [OF assms(2)] keeps_envd_files [OF assms(2)]
    keeps_processes [OF assms(2)] keeps_cloud_teams keeps_cloud_volumes keeps_cloud_templates keeps_cloud_snapshot
    keeps_fork [OF assms(2)] keeps_kill [OF assms(2)] keeps_admin_keys\<close>)

lemma api_reach_balanced:
  assumes "api_reach env st st'" and "semaphore_laws (ae_sem env)" and "balanced env cap None st"
  shows "balanced env cap None st'"
  using assms(1) unfolding api_reach_def
  by (induction rule: rtranclp_induct) (auto intro: assms(3) api_step_balanced [OF _ assms(2)])

end
