(* ===== verification/Lifecycle_Properties.thy ===== *)
theory Lifecycle_Properties
  imports Lifecycle_Retry Service_Steps
begin

text \<open>
  The properties of the service as a whole: capacity is conserved over every sequence of
  handlers, a provisioning ends in one of three states, tenants do not reach each other's
  sandboxes, answers carry no secrets, a deletion leaves nothing behind, and failed
  sandboxes are retried a bounded number of times.
\<close>

section \<open>A concrete service\<close>

text \<open>The memory store, counting semaphores, and a world that is a clock; machines and guests
  answer at once. The witnesses below run on it.\<close>

definition svc_handle :: "string \<Rightarrow> vm_handle" where
  "svc_handle i = empty_handle\<lparr>vh_id := i, vh_backend := ''demo''\<rparr>"

definition mem_records :: "mem_store record_ops" where
  "mem_records = \<lparr>ro_save_execution = (\<lambda>x s. (mem_save_execution x s, Ok ())), ro_get_execution = mem_get_execution,
     ro_list_executions = (\<lambda>i s. Ok (mem_list_executions i s)), ro_upsert_node = (\<lambda>n s. (mem_upsert_node n s, Ok ())),
     ro_list_ready_nodes = (\<lambda>t s. Ok (mem_list_ready_nodes t s))\<rparr>"

definition svc_cp :: "unit cp_env" where
  "svc_cp = \<lparr>ce_sha256_hex = (\<lambda>_. []), ce_to_json = (\<lambda>_. Err []), ce_from_json = (\<lambda>_. Err []), ce_pid = 1,
     ce_try_exists = (\<lambda>_ _. False), ce_read = (\<lambda>_ _. Err []), ce_create_dir_all = (\<lambda>_ w. (w, Ok ())),
     ce_write = (\<lambda>_ _ w. (w, Ok ())), ce_rename = (\<lambda>_ _ w. (w, Ok ()))\<rparr>"

definition svc_net :: "nat net_env" where
  "svc_net = \<lparr>sha256 = (\<lambda>b. b), hex_encode = (\<lambda>_. []), exec = (\<lambda>_ _ w. (w, CmdOk []))\<rparr>"

definition svc_env :: "(mem_store, nat, unit, nat) app_env" where
  "svc_env = \<lparr>ae_store = mem_ops, ae_records = mem_records, ae_sem = counter_ops, ae_cp = svc_cp, ae_net = svc_net,
     ae_hash64 = (\<lambda>_. 0), ae_add_secs = plus_secs, ae_millis = (\<lambda>t. t div 1000000), ae_now = (\<lambda>w. (Suc w, int w)),
     ae_uuid = (\<lambda>w. (Suc w, show_nat w)), ae_fresh = (\<lambda>w. (Suc w, \<lparr>fr_uuid = show_nat, fr_now = int\<rparr>)),
     ae_utf8_lossy = (\<lambda>_. []), ae_debug_errors = (\<lambda>_. []), ae_manage_resources = True, ae_manage_network = False,
     ae_capabilities = \<lparr>cap_snapshot = True, cap_vsock = True, cap_balloon = False\<rparr>, ae_detached_warm_pool = False, ae_admin_token = Some ''root'',
     ae_image_cache_hit = (\<lambda>_ w. (w, Ok True)), ae_prefetch_image = (\<lambda>_ w. (w, Some (Ok ()))),
     ae_vm_create = (\<lambda>i _ w. (w, Some (Ok (svc_handle i)))),
     ae_prefetch_unbounded = (\<lambda>_ w. (w, Ok ())), ae_vm_create_unbounded = (\<lambda>i _ w. (w, Ok (svc_handle i))),
     ae_vm_create_in_subnet = (\<lambda>i _ _ w. (w, Ok (svc_handle i))),
     ae_vm_restore = (\<lambda>i _ _ w. (w, Some (Ok (svc_handle i)))), ae_vm_start = (\<lambda>_ w. (w, Ok ())),
     ae_vm_stop = (\<lambda>_ _ w. (w, Ok ())), ae_vm_pause = (\<lambda>_ w. (w, Ok ())), ae_vm_resume = (\<lambda>_ w. (w, Ok ())),
     ae_vm_probe = (\<lambda>_ w. (w, Ok True)), ae_vm_snapshot = (\<lambda>_ _ w. (w, Ok ())), ae_create_dir_all = (\<lambda>_ w. (w, Ok ())),
     ae_remove_file = (\<lambda>_ w. (w, Ok ())), ae_hello = (\<lambda>_ _ w. (w, Ok 0)), ae_hello_within = (\<lambda>_ _ _ w. (w, Some (Ok 0))),
     ae_probe_guest = (\<lambda>_ _ w. (w, Some (Ok ()))), ae_ping = (\<lambda>_ w. (w, Ok ())), ae_apply_limits = (\<lambda>_ _ w. (w, Ok ())),
     ae_exec = (\<lambda>_ _ _ _ _ w. (w, Ok \<lparr>er_exit_code = 0, er_stdout = [], er_stderr = [], er_duration_ms = 1\<rparr>)),
     ae_write_file = (\<lambda>_ _ _ _ w. (w, Ok ())), ae_read_file = (\<lambda>_ _ w. (w, Ok [])), ae_list_dir = (\<lambda>_ _ w. (w, Ok [])),
     ae_codec = \<lparr>ec_json = (\<lambda>_. Ok []), ec_base64 = (\<lambda>_. [])\<rparr>, ae_base64_decode = (\<lambda>_. Ok []),
     ae_start_process = (\<lambda>_ _ _ _ _ _ _ w. (Suc w, Ok (show_nat w))), ae_process_events = (\<lambda>_ _ w. (w, [EvExit 0], Ok ())),
     ae_send_stdin = (\<lambda>_ _ _ w. (w, Ok ())), ae_close_stdin = (\<lambda>_ _ w. (w, Ok ())), ae_send_signal = (\<lambda>_ _ _ w. (w, Ok ())),
     ae_resize_pty = (\<lambda>_ _ _ _ w. (w, Ok ()))\<rparr>"

definition svc_app :: "(mem_store, nat, unit, nat) app" where
  "svc_app = \<lparr>ap_store = mem_new, ap_e2b = plane_new (), ap_auth = authenticator_new_production,
     ap_pool = resource_pool_new counter_ops (default_resources\<lparr>vcpu := 8, memory_mb := 4096, disk_mb := 8192\<rparr>) 4,
     ap_warm_pool = pool_new 1 60, ap_warm_slots = [], ap_reservations = [], ap_image_jobs = [], ap_e2b_tokens = [],
     ap_snapshots = [], ap_subnet_next = allocator_new, ap_provisioning = [], ap_draining = False, ap_firewall = firewall_new,
     ap_processes = registry_new, ap_next_pid = 1, ap_jobs = [], ap_world = 1\<rparr>"

definition svc_principal :: "string \<Rightarrow> principal" where
  "svc_principal t = \<lparr>pr_tenant_id = t, pr_scope = ScopeFull, pr_volume_id = None\<rparr>"
lemma svc_simps [simp]:
  "ae_store svc_env = mem_ops" "ae_records svc_env = mem_records" "ae_sem svc_env = counter_ops"
  "ae_hash64 svc_env = (\<lambda>_. 0)" "ae_add_secs svc_env = plus_secs"
  "ae_now svc_env = (\<lambda>w. (Suc w, int w))" "ae_uuid svc_env = (\<lambda>w. (Suc w, show_nat w))"
  "ae_manage_resources svc_env" "\<not> ae_manage_network svc_env"
  "ae_capabilities svc_env = \<lparr>cap_snapshot = True, cap_vsock = True, cap_balloon = False\<rparr>"
  "ae_image_cache_hit svc_env = (\<lambda>_ w. (w, Ok True))"
  "ae_vm_create svc_env = (\<lambda>i _ w. (w, Some (Ok (svc_handle i))))" "ae_vm_start svc_env = (\<lambda>_ w. (w, Ok ()))"
  "ae_vm_stop svc_env = (\<lambda>_ _ w. (w, Ok ()))" "ae_vm_probe svc_env = (\<lambda>_ w. (w, Ok True))"
  "ae_hello_within svc_env = (\<lambda>_ _ _ w. (w, Some (Ok 0)))" "ae_apply_limits svc_env = (\<lambda>_ _ w. (w, Ok ()))"
  "ae_vm_resume svc_env = (\<lambda>_ w. (w, Ok ()))" "ae_ping svc_env = (\<lambda>_ w. (w, Ok ()))"
  by (simp_all add: svc_env_def)

lemma svc_app_fields [simp]:
  "ap_store svc_app = mem_new" "ap_warm_pool svc_app = pool_new 1 60" "ap_warm_slots svc_app = []" "ap_reservations svc_app = []"
  "ap_snapshots svc_app = []" "ap_provisioning svc_app = []" "ap_jobs svc_app = []" "ap_world svc_app = 1"
  "ap_pool svc_app = resource_pool_new counter_ops (default_resources\<lparr>vcpu := 8, memory_mb := 4096, disk_mb := 8192\<rparr>) 4"
  by (simp_all add: svc_app_def)

lemmas run_defs = and_then_def world_def store_update_def store_write_def call_def call_within_def lift_result_def raised_def
  ok_def or_fail_def ignore_def store_get_def

definition svc_request :: create_request where
  "svc_request = \<lparr>cr_spec = default_spec, cr_sync = False\<rparr>"

section \<open>Capacity\<close>

text \<open>C3: Over every sequence of requests, spawned tasks and reconciliations, in every dimension, what is free in
  the resource pool, what running sandboxes have reserved and what waiting tasks carry add up to the configured capacity: no
  permit is lost and none is handed out twice.\<close>

theorem capacity_conserved:
  assumes "semaphore_laws (ae_sem env)" and "mx \<le> MAX_PERMITS"
    and "ap_pool st0 = resource_pool_new (ae_sem env) cap mx" and "ap_reservations st0 = []" and "ap_jobs st0 = []"
    and "api_reach env st0 st"
  shows "sem_available (ae_sem env) (get_sem (ap_pool st) d)
      + sum_list (map (\<lambda>(i, r). need r d) (ap_reservations st))
      + sum_list (map (\<lambda>j. case job_reservation j of None \<Rightarrow> 0 | Some r \<Rightarrow> need r d) (ap_jobs st))
    = total cap mx d"
proof -
  have "sem_available (ae_sem env) (get_sem (ap_pool st0) d) = total cap mx d" for d
    using assms(1) total_le_max [OF assms(2), of cap d]
    by (cases d) (simp_all add: assms(3) resource_pool_new_def semaphore_laws_def)
  then have "balanced env (total cap mx) None st0"
    by (simp add: balanced_def assms(4,5) claimed_def total_le_max [OF assms(2)])
  from balancedD(1) [OF api_reach_balanced [OF assms(6,1) this], of d] show ?thesis
    by (simp add: claimed_def hm_total_def hm_values_def units_def [abs_def] opt_total_def split_def comp_def add.assoc)
qed

lemma show_one: "show_nat (Suc 0) = ''1''"
  by code_simp

lemma svc_request_ok:
  "spec_validate (default_spec\<lparr>sp_tenant_id := t\<rparr>) = Ok ()"
  "check_request svc_env (default_spec\<lparr>sp_tenant_id := t\<rparr>) = Ok ()"
proof -
  show "spec_validate (default_spec\<lparr>sp_tenant_id := t\<rparr>) = Ok ()" by (cases t) code_simp+
  then show "check_request svc_env (default_spec\<lparr>sp_tenant_id := t\<rparr>) = Ok ()" by (simp add: check_request_def)
qed

lemma svc_admit:
  "\<exists>p. admit_spec svc_env (default_spec\<lparr>sp_tenant_id := t\<rparr>) svc_app = (svc_app\<lparr>ap_pool := p\<rparr>, Ok default_resources)"
  by (simp add: admit_spec_def admit_def Let_def resource_pool_new_def counter_ops_def default_spec_def default_resources_def raised_def)
    (rule exI, rule HOL.refl)

lemma svc_created:
  "\<exists>sb. ap_jobs (fst (create_sandbox svc_env (svc_principal t) svc_request svc_app)) = [ProvisionJob sb (Some default_resources) None]
    \<and> view_of sb = (view_of (sandbox_new 0 ''1'' (default_spec\<lparr>sp_tenant_id := Some t\<rparr>)))\<lparr>v_status := Starting\<rparr>"
proof -
  obtain p where p: "admit_spec svc_env (default_spec\<lparr>sp_tenant_id := Some t\<rparr>) svc_app = (svc_app\<lparr>ap_pool := p\<rparr>, Ok default_resources)"
    using svc_admit by blast
  then show ?thesis
    by (simp add: create_sandbox_def svc_request_def Let_def svc_request_ok reserve_def holding_def admit_record_def image_cached_def run_defs
    svc_principal_def p acquire_slot_def acquire_def pool_new_def ensure_background_def transition_now_def sandbox_transition_def transition_defs 
    sandbox_new_def mem_ops_def mem_create_sandbox_def mem_new_def persist_new_def spawn_def modify_def view_of_def show_one)
qed

theorem capacity_conserved_witness:
  "let st = fst (create_sandbox svc_env (svc_principal ''acme'') svc_request svc_app)
   in sem_available counter_ops (get_sem (ap_pool st) DMem) + sum_list (map (\<lambda>(i, r). need r DMem) (ap_reservations st)) + 256 = 4096"
proof -
  let ?st = "fst (create_sandbox svc_env (svc_principal ''acme'') svc_request svc_app)"
  have "api_reach svc_env svc_app ?st" unfolding api_reach_def by (rule r_into_rtranclp) (rule step_create)
  from capacity_conserved [OF _ _ _ _ _ this, of 4 "default_resources\<lparr>vcpu := 8, memory_mb := 4096, disk_mb := 8192\<rparr>" DMem]
    svc_created [of "''acme''"]
  show ?thesis by (auto simp: counter_ops_laws MAX_PERMITS_def default_resources_def)
qed

section \<open>Provisioning\<close>

text \<open>C4: The provisioning of a recorded sandbox ends in one of three ways and touches no other record. It
  succeeds: the record is running and names its machine, and the reservation is kept. It returns an error: the record
  carries the error, and neither reservation nor warm slot nor provisioning mark is left. It panics: the mark stays.\<close>

theorem provision_outcome:
  assumes "sandbox_store (ae_store env) I lookup" and "I (ap_store st)" and "lookup (ap_store st) (sb_id sb) = Some v"
    and "sb_status sb = Starting" and "sb_id sb \<notin> set (ap_provisioning st)"
    and "run_provision_with_slot_and_snapshot env sb r slot sn ab st = (st', res)"
  shows "(case res of
        Ok sb' \<Rightarrow> settled lookup sb' (ap_store st') \<and> sb_id sb' = sb_id sb \<and> sb_id sb \<notin> set (ap_provisioning st')
          \<and> (\<forall>x. r = Some x \<longrightarrow> hm_get (ap_reservations st') (sb_id sb) = Some x)
      | Err (Raised e) \<Rightarrow>
          (\<exists>v. lookup (ap_store st') (sb_id sb) = Some v \<and> v_status v = Error \<and> v_message v = Some (err_message e))
          \<and> hm_get (ap_reservations st') (sb_id sb) = None \<and> hm_get (ap_warm_slots st') (sb_id sb) = None
          \<and> sb_id sb \<notin> set (ap_provisioning st')
      | Err Panicked \<Rightarrow> sb_id sb \<in> set (ap_provisioning st'))
    \<and> (\<forall>j. j \<noteq> sb_id sb \<longrightarrow> lookup (ap_store st') j = lookup (ap_store st) j)"
  using provision_end_run [OF assms] unfolding provision_end_def .

definition svc_sandbox :: "string \<Rightarrow> u64 option \<Rightarrow> sandbox" where
  "svc_sandbox t ttl = (sandbox_new 1 ''1'' (default_spec\<lparr>sp_tenant_id := Some t, sp_ttl_secs := ttl\<rparr>))\<lparr>sb_status := Starting\<rparr>"

definition svc_stored :: "sandbox \<Rightarrow> (mem_store, nat, unit, nat) app" where
  "svc_stored sb = svc_app\<lparr>ap_store := mem_new\<lparr>m_sandboxes := [(sb_id sb, sb)]\<rparr>\<rparr>"

lemma svc_stored_ok:
  "mem_inv (ap_store (svc_stored sb))" "mem_lookup (ap_store (svc_stored sb)) (sb_id sb) = Some (view_of sb)"
  "ap_provisioning (svc_stored sb) = []" "ap_snapshots (svc_stored sb) = []"
  "hm_get (m_sandboxes (ap_store (svc_stored sb))) (sb_id sb) = Some sb"
  by (auto simp: svc_stored_def mem_inv_def mem_lookup_def hm_ok_def hm_get_def split: if_splits)

lemmas boot_defs = boot_sandbox_def claim_source_def claim_snapshot_def net_create_def obtain_vm_def Let_def record_vm_def
  svc_handle_def empty_handle_def bind_subnet_def handle_to_meta_def net_setup_def prepare_guest_def run_init_def bound_extra_def

lemmas mem_run_defs = mem_ops_def mem_update_defs mem_modify_def

lemma svc_boot:
  assumes "ap_snapshots st = []" and "hm_get (m_sandboxes (ap_store st)) ''1'' = Some x"
  shows "\<exists>st' hm. boot_sandbox (svc_env\<lparr>ae_add_secs := f\<rparr>) (svc_sandbox t ttl) None None None st = (st', Ok hm)"
  using assms by (simp add: boot_defs run_defs mem_run_defs svc_sandbox_def sandbox_new_def default_spec_def default_vmm_meta_def)

lemma svc_provision:
  assumes "ap_snapshots st = []" and "hm_get (m_sandboxes (ap_store st)) ''1'' = Some x"
  shows "\<exists>st' sb'. provision_steps svc_env (svc_sandbox t None) None None None st = (st', Ok sb')"
  using assms by (simp add: provision_steps_def finish_provision_def transition_now_def sandbox_transition_def transition_defs boot_defs
      run_defs mem_run_defs svc_sandbox_def sandbox_new_def default_spec_def default_vmm_meta_def)

theorem provision_outcome_witness:
  "let sb = svc_sandbox ''acme'' None; st = svc_stored sb;
       (st', res) = run_provision_with_slot_and_snapshot svc_env sb (Some default_resources) None None None st
   in \<exists>sb'. res = Ok sb' \<and> settled mem_lookup sb' (ap_store st') \<and> hm_get (ap_reservations st') ''1'' = Some default_resources"
proof -
  let ?sb = "svc_sandbox ''acme'' None"
  obtain st' res where run: "run_provision_with_slot_and_snapshot svc_env ?sb (Some default_resources) None None None (svc_stored ?sb) = (st', res)"
    by fastforce
  have i: "sb_id ?sb = ''1''" "sb_status ?sb = Starting" by (simp_all add: svc_sandbox_def sandbox_new_def)
  note ok = svc_stored_ok [of ?sb, unfolded i]
  obtain st1 sb' where "provision_steps svc_env ?sb None None None ((svc_stored ?sb)\<lparr>ap_provisioning := [''1'']\<rparr>) = (st1, Ok sb')"
    using svc_provision [of "(svc_stored ?sb)\<lparr>ap_provisioning := [''1'']\<rparr>" ?sb "''acme''"] ok by auto
  then have res: "\<exists>sb'. res = Ok sb'"
    using run by (auto simp: run_provision_with_slot_and_snapshot_def provision_sandbox_def ok i Let_def)
  from provision_outcome [of svc_env mem_inv mem_lookup "svc_stored ?sb" ?sb, OF _ _ _ _ _ run] mem.sandbox_store_axioms ok i res
  show ?thesis by (auto simp: run)
qed

text \<open>A time to live that the clock's addition cannot represent panics the provisioning task after the
  guest has answered; the identifier then stays among those in provisioning, so every later provisioning of that sandbox is
  refused and reconciliation schedules none.\<close>

lemma ttl_overflow_wedges:
  assumes "sb_status sb = Starting" and "sp_ttl_secs (sb_spec sb) = Some ttl" and "\<And>now. ae_add_secs env now (sint ttl) = None"
    and "sb_id sb \<notin> set (ap_provisioning st)"
    and "boot_sandbox env sb slot sn ab (st\<lparr>ap_provisioning := sb_id sb # ap_provisioning st\<rparr>) = (s1, Ok hm)"
  shows "\<exists>st'. run_provision_with_slot_and_snapshot env sb r slot sn ab st = (st', Err Panicked)
    \<and> (\<forall>r2 slot2 sn2 ab2. \<exists>st''. run_provision_with_slot_and_snapshot env sb r2 slot2 sn2 ab2 st'
          = (st'', Err (Raised (invalid_state (''sandbox '' @ sb_id sb @ '' already has a provisioning job'')))))
    \<and> schedule_provision env sb st' = st'"
proof -
  let ?i = "sb_id sb"
  obtain h meta where hm: "hm = (h, meta)" by (cases hm)
  have "\<exists>s2. transition_now env (sb\<lparr>sb_vmm_meta := meta\<rparr>) AgentHello s1 = (s2, Err Panicked)"
    using assms(1-3) by (simp add: transition_now_def run_defs sandbox_transition_def transition_defs Let_def throw_def split: prod.split)
  then obtain s2 where "provision_steps env sb slot sn ab (st\<lparr>ap_provisioning := ?i # ap_provisioning st\<rparr>) = (s2, Err Panicked)"
    using assms(5) hm by (auto simp: provision_steps_def finish_provision_def and_then_def)
  moreover from this have "ap_provisioning s2 = ?i # ap_provisioning st"
    using confinedD [OF desk.f_provision [OF HOL.refl TrueI TrueI]] by (fastforce simp: same_desk_def)
  moreover have "\<exists>st''. and_then (discard_warm env ?i) (\<lambda>_. and_then (modify (drop_reservation env r2)) (\<lambda>_. raise e)) st' = (st'', Err (Raised e))"
    for r2 e st'
    using discard_warm_Ok [of env ?i st'] by (cases "discard_warm env ?i st'") (simp add: and_then_def modify_def raise_def throw_def)
  ultimately show ?thesis using assms(4)
    by (auto simp: run_provision_with_slot_and_snapshot_def provision_sandbox_def schedule_provision_def Let_def)
qed

definition bounded_secs :: "time \<Rightarrow> int \<Rightarrow> time option" where
  "bounded_secs t s = (if s < 10 ^ 12 then Some (t + 1000000000 * s) else None)"

lemma ttl_overflow_wedges_witness:
  "let sb = svc_sandbox ''acme'' (Some (2 ^ 62))
   in \<exists>st'. run_provision_with_slot_and_snapshot (svc_env\<lparr>ae_add_secs := bounded_secs\<rparr>) sb None None None None (svc_stored sb)
      = (st', Err Panicked)"
proof -
  let ?sb = "svc_sandbox ''acme'' (Some (2 ^ 62))"
  have i: "sb_id ?sb = ''1''" "sb_status ?sb = Starting" "sp_ttl_secs (sb_spec ?sb) = Some (2 ^ 62)"
    by (simp_all add: svc_sandbox_def sandbox_new_def)
  note ok = svc_stored_ok [of ?sb, unfolded i(1)]
  have "bounded_secs now (sint (2 ^ 62 :: 64 word)) = None" for now by (simp add: bounded_secs_def)
  moreover obtain s1 hm where "boot_sandbox (svc_env\<lparr>ae_add_secs := bounded_secs\<rparr>) ?sb None None None ((svc_stored ?sb)\<lparr>ap_provisioning := [''1'']\<rparr>) = (s1, Ok hm)"
    using svc_boot [of "(svc_stored ?sb)\<lparr>ap_provisioning := [''1'']\<rparr>" ?sb bounded_secs "''acme''" "Some (2 ^ 62)"] ok by auto
  ultimately show ?thesis
    using ttl_overflow_wedges [of ?sb "2 ^ 62" "svc_env\<lparr>ae_add_secs := bounded_secs\<rparr>" "svc_stored ?sb" None None None s1 hm None] ok i by auto
qed

section \<open>Tenants\<close>

lemma foreign_find:
  assumes store: "sandbox_store (ae_store env) I lookup" and st: "I (ap_store st)" "lookup (ap_store st) i = Some v"
    and foreign: "sp_tenant_id (v_spec v) \<noteq> Some (pr_tenant_id pr)"
  shows "\<exists>w m. find_owned env pr i st = (st\<lparr>ap_world := w\<rparr>, Err (Raised (new_error EkNotFound m)))"
proof -
  obtain w now where n: "ae_now env (ap_world st) = (w, now)" by (cases "ae_now env (ap_world st)")
  obtain sb where g: "so_get (ae_store env) now i (ap_store st) = Ok sb" and sb: "view_of sb = v"
    using sandbox_store.get_some [OF store st] by blast
  have "sp_tenant_id (sb_spec sb) \<noteq> Some (pr_tenant_id pr)" using foreign sb by (auto simp: view_of_def)
  then show ?thesis using n g by (simp add: find_owned_def run_defs require_tenant_def) blast
qed

lemma own_listed:
  "case list_sandboxes env pr q st of
     (_, Ok resp) \<Rightarrow> list_all (\<lambda>sb. sp_tenant_id (sb_spec sb) = Some (pr_tenant_id pr)) (lr_items resp)
   | (_, Err _) \<Rightarrow> True"
  by (auto simp: list_sandboxes_def and_then_def Let_def ok_def list_all_iff redact_secrets_def
      dest!: in_set_takeD in_set_dropD split: prod.splits sum.splits)



definition no_secrets :: "sandbox \<Rightarrow> bool" where
  "no_secrets sb \<longleftrightarrow> list_all (\<lambda>s. ss_value s = REDACTED) (sp_secrets (sb_spec sb))"

lemma redact_no_secrets [simp]: "no_secrets (redact_secrets sb)"
  by (simp add: no_secrets_def redact_secrets_def list_all_iff)

text \<open>C30: No answer of the sandbox handlers carries the value of a secret: in every sandbox they return each
  secret value is the placeholder.\<close>

theorem answers_redacted:
  "(case get_sandbox env pr i st of (_, Ok sb) \<Rightarrow> no_secrets sb | _ \<Rightarrow> True)
   \<and> (case create_sandbox env pr req st of (_, Ok rep) \<Rightarrow> no_secrets (re_body rep) | _ \<Rightarrow> True)
   \<and> (case recover_sandbox env pr i st of (_, Ok rep) \<Rightarrow> no_secrets (re_body rep) | _ \<Rightarrow> True)
   \<and> (case list_sandboxes env pr q st of (_, Ok resp) \<Rightarrow> list_all no_secrets (lr_items resp) | _ \<Rightarrow> True)"
proof (intro conjI)
  show "case create_sandbox env pr req st of (_, Ok rep) \<Rightarrow> no_secrets (re_body rep) | _ \<Rightarrow> True"
    by (auto simp: create_sandbox_def Let_def and_then_Ok ok_def split: prod.splits sum.splits if_splits)
  show "case recover_sandbox env pr i st of (_, Ok rep) \<Rightarrow> no_secrets (re_body rep) | _ \<Rightarrow> True"
    by (auto simp: recover_sandbox_def and_then_Ok ok_def split: prod.splits sum.splits if_splits)
  show "case list_sandboxes env pr q st of (_, Ok resp) \<Rightarrow> list_all no_secrets (lr_items resp) | _ \<Rightarrow> True"
    by (auto simp: list_sandboxes_def and_then_Ok Let_def ok_def list_all_iff dest!: in_set_takeD in_set_dropD
        split: prod.splits sum.splits)
qed (auto simp: get_sandbox_def and_then_Ok ok_def split: prod.splits sum.splits)

section \<open>Deletion\<close>

lemma release_fields [simp]:
  "ap_store (fst (release_slot env slot st)) = ap_store st" "ap_warm_slots (fst (release_slot env slot st)) = ap_warm_slots st"
  "snd (release_slot env slot st) = Ok ()"
  by (auto simp: release_slot_def and_then_def world_def split: prod.split)

lemma stop_for_delete_fields:
  "ap_store (fst (stop_for_delete env i sb st)) = ap_store st" "hm_get (ap_warm_slots (fst (stop_for_delete env i sb st))) i = None"
  "snd (stop_for_delete env i sb st) = Ok ()"
  by (auto simp: stop_for_delete_def and_then_def ignore_def world_def ok_def split: option.split prod.splits)

lemma net_teardown_fields:
  "ap_store (fst (net_teardown env i s st)) = ap_store st" "ap_warm_slots (fst (net_teardown env i s st)) = ap_warm_slots st"
  "ap_reservations (fst (net_teardown env i s st)) = ap_reservations st" "ap_snapshots (fst (net_teardown env i s st)) = ap_snapshots st"
  "snd (net_teardown env i s st) = Ok ()"
  by (auto simp: net_teardown_def split: prod.split)

text \<open>C26: Deleting a sandbox of one's own always succeeds and leaves nothing of it: no record, no reservation, no warm
  slot and no claim on a snapshot; the other records stay as they are and reading it afterwards answers ``not found''.\<close>

theorem delete_leaves_nothing:
  assumes "sandbox_store (ae_store env) I lookup" and "I (ap_store st)" and "lookup (ap_store st) i = Some v"
    and "sp_tenant_id (v_spec v) = Some (pr_tenant_id pr)"
  shows "\<exists>st'. delete_sandbox env pr i st = (st', Ok ())
    \<and> lookup (ap_store st') = (lookup (ap_store st))(i := None)
    \<and> hm_get (ap_reservations st') i = None \<and> hm_get (ap_warm_slots st') i = None
    \<and> list_all (\<lambda>s. ws_owner s \<noteq> Some i) (ap_snapshots st')
    \<and> (\<exists>st'' m. get_sandbox env pr2 i st' = (st'', Err (Raised (not_found m))))"
proof -
  obtain w now where n: "ae_now env (ap_world st) = (w, now)" by (cases "ae_now env (ap_world st)")
  obtain sb where g: "so_get (ae_store env) now i (ap_store st) = Ok sb" and sb: "view_of sb = v"
    using sandbox_store.get_some [OF assms(1-3)] by blast
  have "sp_tenant_id (sb_spec sb) = Some (pr_tenant_id pr)" using assms(4) sb by (auto simp: view_of_def)
  then have f: "find_owned env pr i st = (st\<lparr>ap_world := w\<rparr>, Ok sb)" using n g by (simp add: find_owned_def run_defs require_tenant_def)
  obtain st1 where s1: "stop_for_delete env i sb (st\<lparr>ap_world := w\<rparr>) = (st1, Ok ())"
    using stop_for_delete_fields(3) by (metis prod.collapse)
  have f1: "ap_store st1 = ap_store st" "hm_get (ap_warm_slots st1) i = None"
    using stop_for_delete_fields(1,2) [of env i sb "st\<lparr>ap_world := w\<rparr>"] s1 by simp_all
  obtain s' where d: "so_delete (ae_store env) i (ap_store st1) = (s', Ok ())" "I s'" "lookup s' = (lookup (ap_store st))(i := None)"
    using sandbox_store.delete_some [OF assms(1), of "ap_store st1" i v] assms(2,3) f1 by auto
  let ?st2 = "release_snapshot i (remove_reservation env i (st1\<lparr>ap_store := s'\<rparr>))"
  obtain st' where t: "net_teardown env i (inherited_subnet (sb_vmm_meta sb)) ?st2 = (st', Ok ())"
    using net_teardown_fields(5) by (metis prod.collapse)
  have st': "ap_store st' = s'" "hm_get (ap_reservations st') i = None" "hm_get (ap_warm_slots st') i = None"
      "list_all (\<lambda>s. ws_owner s \<noteq> Some i) (ap_snapshots st')"
    using net_teardown_fields(1-4) [of env i "inherited_subnet (sb_vmm_meta sb)" ?st2] t f1
    by (auto simp: release_snapshot_def list_all_iff)
  have "delete_sandbox env pr i st = (st', Ok ())"
    using f s1 d t by (simp add: delete_sandbox_def run_defs modify_def)
  moreover have "\<exists>st'' m. get_sandbox env pr2 i st' = (st'', Err (Raised (not_found m)))"
  proof -
    obtain w2 now2 where n2: "ae_now env (ap_world st') = (w2, now2)" by (cases "ae_now env (ap_world st')")
    obtain m where "so_get (ae_store env) now2 i (ap_store st') = Err (SNotFound m)"
      using sandbox_store.get_none [OF assms(1), of "ap_store st'" i now2] st'(1) d by auto
    then show ?thesis using n2 by (simp add: get_sandbox_def find_owned_def run_defs from_store_error_def) blast
  qed
  ultimately show ?thesis using st' d(3) by auto
qed

theorem delete_leaves_nothing_witness:
  "\<exists>st'. delete_sandbox svc_env (svc_principal ''acme'') ''1'' (svc_stored (svc_sandbox ''acme'' None)) = (st', Ok ())
     \<and> mem_lookup (ap_store st') ''1'' = None"
proof -
  let ?sb = "svc_sandbox ''acme'' None"
  have i: "sb_id ?sb = ''1''" "sp_tenant_id (v_spec (view_of ?sb)) = Some ''acme''"
    by (simp_all add: svc_sandbox_def sandbox_new_def view_of_def)
  show ?thesis
    using delete_leaves_nothing [of svc_env mem_inv mem_lookup "svc_stored ?sb" "''1''" "view_of ?sb" "svc_principal ''acme''" "svc_principal ''acme''"]
      mem.sandbox_store_axioms svc_stored_ok [of ?sb, unfolded i(1)] i
    by (auto simp: svc_principal_def)
qed

section \<open>Restarts\<close>


definition svc_broken :: "(mem_store, nat, unit, nat) app_env" where
  "svc_broken = svc_env\<lparr>ae_manage_resources := False, ae_vm_create := (\<lambda>_ _ w. (w, Some (Err (internal_error ''no machine'')))),
     ae_vm_restore := (\<lambda>_ _ _ w. (w, None))\<rparr>"

lemma svc_broken_fails: "\<exists>st' e. provision_steps svc_broken sb None None None st = (st', Err (Raised e))"
  by (auto simp: svc_broken_def provision_steps_def boot_defs run_defs raise_def throw_def split: option.split prod.splits)


section \<open>Machines of the warm pool\<close>

lemma acquire_only:
  assumes "k < length (pi_slots g)" and "ps_pool_key (pi_slots g ! k) = key" and "ps_state (pi_slots g ! k) = Ready"
    and "\<And>j. j < length (pi_slots g) \<Longrightarrow> ps_pool_key (pi_slots g ! j) = key \<Longrightarrow> ps_state (pi_slots g ! j) = Ready \<Longrightarrow> j = k"
  shows "\<exists>g'. acquire now key g = (g', Some ((pi_slots g ! k)\<lparr>ps_state := Acquired, ps_last_used_at := now\<rparr>))"
proof -
  let ?c = "filter (\<lambda>i. ps_pool_key (pi_slots g ! i) = key \<and> ps_state (pi_slots g ! i) = Ready) [0..<length (pi_slots g)]"
  have "k \<in> set ?c" using assms(1-3) by simp
  then have "?c \<noteq> []" by (metis empty_iff empty_set)
  then obtain y where y: "min_by_key (\<lambda>i. ps_last_used_at (pi_slots g ! i)) ?c = Some y" by fastforce
  then have "y = k" using min_by_key_SomeD [OF y] assms(4) by auto
  with y show ?thesis by (simp add: acquire_def Let_def ensure_background_def)
qed

lemma stop_for_delete_pool:
  assumes "hm_get (ap_warm_slots st) i = Some slot"
  shows "\<exists>now. ap_warm_pool (fst (stop_for_delete env i sb st)) = fst (release now (ps_id slot) (ap_warm_pool st))"
  using assms by (auto simp: stop_for_delete_def release_slot_def and_then_def ignore_def world_def ok_def split: prod.splits)
    (metis fst_conv)+

text \<open>Deleting a sandbox that runs on a slot of the warm pool does not stop its machine: the next request for the
  same image and size, of whatever tenant, is served with that machine.\<close>

lemma released_machine_reused:
  assumes "hm_get (ap_warm_slots st) i = Some slot" and "delete_sandbox env pr i st = (st', Ok ())"
    and "k < length (pi_slots (ap_warm_pool st))" and "position (\<lambda>s. ps_id s = ps_id slot) (pi_slots (ap_warm_pool st)) = Some k"
    and "ps_state (pi_slots (ap_warm_pool st) ! k) = Acquired"
    and "ps_pool_key (pi_slots (ap_warm_pool st) ! k) = pool_key (ae_hash64 env) sp"
    and "list_all (\<lambda>s. ps_pool_key s = pool_key (ae_hash64 env) sp \<longrightarrow> ps_state s \<noteq> Ready) (pi_slots (ap_warm_pool st))"
  shows "\<exists>st'' slot'. acquire_slot env sp st' = (st'', Ok (Some slot'))
    \<and> ps_vm_handle slot' = ps_vm_handle (pi_slots (ap_warm_pool st) ! k)"
proof -
  let ?key = "pool_key (ae_hash64 env) sp" and ?s = "pi_slots (ap_warm_pool st)"
  obtain s1 sb s2 s3 s4 where d: "find_owned env pr i st = (s1, Ok sb)" "stop_for_delete env i sb s1 = (s2, Ok ())"
      "store_write (so_delete (ae_store env) i) s2 = (s3, Ok ())" "s4 = release_snapshot i (remove_reservation env i s3)"
      "net_teardown env i (inherited_subnet (sb_vmm_meta sb)) s4 = (st', Ok ())"
    using assms(2) by (auto simp: delete_sandbox_def and_then_Ok modify_def)
  have "ap_warm_slots s1 = ap_warm_slots st" "ap_warm_pool s1 = ap_warm_pool st"
    using d(1) by (auto simp: find_owned_def store_get_def and_then_Ok world_def ok_def lift_result_def split: prod.splits)
  then obtain now where "ap_warm_pool s2 = fst (release now (ps_id slot) (ap_warm_pool st))"
    using stop_for_delete_pool [of s1 i slot env sb] assms(1) d(2) by auto
  moreover have "ap_warm_pool st' = ap_warm_pool s2"
    using d(3-5) by (auto simp: store_write_def release_snapshot_def remove_reservation_def drop_reservation_def net_teardown_def
        split: prod.splits if_splits option.splits)
  ultimately have p: "pi_slots (ap_warm_pool st') = ?s[k := (?s ! k)\<lparr>ps_state := Ready, ps_last_used_at := now\<rparr>]"
    using assms(4,5) by (simp add: release_def Let_def ensure_background_def)
  obtain w t where n: "ae_now env (ap_world st') = (w, t)" by (cases "ae_now env (ap_world st')")
  have "\<exists>g'. acquire t ?key (ap_warm_pool st')
      = (g', Some ((pi_slots (ap_warm_pool st') ! k)\<lparr>ps_state := Acquired, ps_last_used_at := t\<rparr>))"
    using assms(3,6,7) by (intro acquire_only) (auto simp: p nth_list_update list_all_length split: if_splits)
  then show ?thesis using assms(3) n by (auto simp: acquire_slot_def and_then_def world_def p)
qed

definition svc_slot :: pool_slot where
  "svc_slot = \<lparr>ps_id = ''s'', ps_pool_key = pool_key (\<lambda>_. 0) default_spec, ps_vm_handle = svc_handle ''vm'', ps_state = Acquired,
     ps_created_at = 0, ps_last_used_at = 1\<rparr>"

lemma released_machine_reused_witness:
  "\<exists>st' st'' slot'. delete_sandbox svc_env (svc_principal ''acme'') ''1'' ((svc_stored (svc_sandbox ''acme'' None))\<lparr>
        ap_warm_slots := [(''1'', svc_slot)], ap_warm_pool := (pool_new 1 60)\<lparr>pi_slots := [svc_slot]\<rparr>\<rparr>) = (st', Ok ())
     \<and> acquire_slot svc_env (default_spec\<lparr>sp_tenant_id := Some ''other''\<rparr>) st' = (st'', Ok (Some slot'))
     \<and> ps_vm_handle slot' = svc_handle ''vm''"
proof -
  let ?sb = "svc_sandbox ''acme'' None"
  let ?st = "(svc_stored ?sb)\<lparr>ap_warm_slots := [(''1'', svc_slot)], ap_warm_pool := (pool_new 1 60)\<lparr>pi_slots := [svc_slot]\<rparr>\<rparr>"
  have i: "sb_id ?sb = ''1''" by (simp add: svc_sandbox_def sandbox_new_def)
  note ok = svc_stored_ok [of ?sb, unfolded i]
  obtain st' where d: "delete_sandbox svc_env (svc_principal ''acme'') ''1'' ?st = (st', Ok ())"
    using ok by (simp add: delete_sandbox_def find_owned_def run_defs mem_run_defs mem_get_sandbox_def mem_delete_sandbox_def require_tenant_def
        svc_principal_def svc_sandbox_def sandbox_new_def modify_def net_teardown_def stop_for_delete_def release_slot_def release_def
        ensure_background_def hm_get_def Let_def svc_slot_def)
  have "pool_key (\<lambda>_. 0) (default_spec\<lparr>sp_tenant_id := Some ''other''\<rparr>) = pool_key (\<lambda>_. 0) default_spec"
    by (simp add: pool_key_def resources_hash_def)
  then show ?thesis
    using released_machine_reused [OF _ d, of svc_slot 0 "default_spec\<lparr>sp_tenant_id := Some ''other''\<rparr>"] d
    by (auto simp: svc_slot_def hm_get_def)
qed

end
