(* ===== verification/E2b_Properties.thy ===== *)
theory E2b_Properties
  imports Lifecycle_Properties
begin

text \<open>
  Properties of the E2B interface: pages cover a listing, a foreign sandbox stays hidden behind every handler, pausing and
  resuming move the record and the reservation together, and the stream of a process ends.
\<close>

section \<open>Pages\<close>

lemma page_next:
  assumes "pa_next (page_of q b every) = Some k"
  shows "unwrap_or (pg_next_token q) 0 < k" and "k < length every"
  using assms by (auto simp: page_of_def Let_def min_def max_def split: if_splits)

text \<open>A client that asks for one page after another with the token of the last one.\<close>

function all_pages :: "e2b_pagination \<Rightarrow> bool \<Rightarrow> e2b_sandbox list \<Rightarrow> e2b_page list" where
  "all_pages q b every =
     page_of q b every #
       (case pa_next (page_of q b every) of None \<Rightarrow> [] | Some k \<Rightarrow> all_pages (q\<lparr>pg_next_token := Some k\<rparr>) b every)"
  by pat_completeness auto

termination
proof (relation "measure (\<lambda>(q, b, every). length every - unwrap_or (pg_next_token q) 0)")
  fix q b every k
  assume "pa_next (page_of q b every) = Some k"
  from page_next [OF this] show "((q\<lparr>pg_next_token := Some k\<rparr>, b, every), q, b, every) \<in> measure (\<lambda>(q, b, every). length every - unwrap_or (pg_next_token q) 0)"
    by simp
qed simp

declare all_pages.simps [simp del]

lemma page_items:
  "pa_items (page_of q b every) =
     (case pa_next (page_of q b every) of
        Some k \<Rightarrow> take (k - unwrap_or (pg_next_token q) 0) (drop (unwrap_or (pg_next_token q) 0) every)
      | None \<Rightarrow> drop (unwrap_or (pg_next_token q) 0) every)"
  by (auto simp: page_of_def Let_def min_def)

lemma all_pages_concat: "concat (map pa_items (all_pages q b every)) = drop (unwrap_or (pg_next_token q) 0) every"
proof (induction q b every rule: all_pages.induct)
  case (1 q b every)
  show ?case
  proof (cases "pa_next (page_of q b every)")
    case None
    then show ?thesis by (simp add: all_pages.simps [of q] page_items)
  next
    case (Some k)
    let ?o = "unwrap_or (pg_next_token q) 0"
    have "drop ?o every = take (k - ?o) (drop ?o every) @ drop k every"
      using page_next [OF Some] by (metis append_take_drop_id drop_drop le_add_diff_inverse2 less_imp_le)
    with 1 [OF Some] Some show ?thesis by (simp add: all_pages.simps [of q] page_items)
  qed
qed

lemma page_bounded: "length (pa_items (page_of q b every)) \<le> 100"
  by (simp add: page_of_def Let_def)



section \<open>Tenants\<close>

lemma refused_io:
  assumes "find_owned env pr i st = (st', Err (Raised e))" and "i \<noteq> []"
  shows "get_owned env pr i st = (st', Err (Raised e))" "resume_for_io env pr i st = (st', Err (Raised e))"
    "guest_io env pr (Some i) st = (st', Err (Raised e))" "session_for env pr (Some i) sel st = (st', Err (Raised e))"
  using assms by (simp_all add: get_owned_def resume_for_io_def guest_io_def session_for_def sandbox_id_from_headers_def and_then_def
      lift_result_def raised_def)



section \<open>Pausing and resuming\<close>

lemma call_store: "call f st = (st', r) \<Longrightarrow> ap_store st' = ap_store st" "call_within msg g st = (st', r') \<Longrightarrow> ap_store st' = ap_store st"
  using confinedD [OF still.f_call(1)] confinedD [OF still.f_call(2)] by (fastforce simp: same_store_def)+

lemma raised_no_panic [simp]: "raised r \<noteq> Err Panicked"
  by (cases r) (simp_all add: raised_def)

lemma call_no_panic: "call f st \<noteq> (st', Err Panicked)" "call_within msg g st \<noteq> (st', Err Panicked)"
  by (auto simp: call_def call_within_def and_then_def world_def lift_result_def raise_def throw_def
      split: prod.splits option.splits sum.splits)

definition resumed_as ::
  "('s \<Rightarrow> string \<Rightarrow> sb_view option) \<Rightarrow> string \<Rightarrow> sb_view \<Rightarrow> ('s, 'q, 'f, 'w) app \<Rightarrow> ('s, 'q, 'f, 'w) app \<Rightarrow> sandbox_status \<Rightarrow> bool" where
  "resumed_as lookup i v st st' status \<longleftrightarrow>
     lookup (ap_store st') = (lookup (ap_store st))(i \<mapsto> v\<lparr>v_status := status, v_message := None\<rparr>)"

lemma resume_vm_run:
  assumes store: "sandbox_store (ae_store env) I lookup" and st: "I (ap_store st)" "lookup (ap_store st) (sb_id sb) = Some v"
    and run: "resume_vm env sb st = (st', res)"
  shows "I (ap_store st') \<and> (case res of
      Ok _ \<Rightarrow> resumed_as lookup (sb_id sb) v st st' Running
    | Err (Raised _) \<Rightarrow> lookup (ap_store st') = lookup (ap_store st) \<or> resumed_as lookup (sb_id sb) v st st' Starting
    | Err Panicked \<Rightarrow> False)"
proof -
  let ?i = "sb_id sb"
  from run show ?thesis unfolding resume_vm_def
  proof (cases rule: and_then_cases)
    case (first e s1)
    then show ?thesis using st(1) call_store(1) [OF first(1)] call_no_panic(1) by (cases e) auto
  next
    case (second s1 a)
    have s1: "I (ap_store s1)" "lookup (ap_store s1) ?i = Some v" "ap_store s1 = ap_store st"
      using st call_store(1) [OF second(1)] by simp_all
    obtain s2 where u: "store_update env ?i (UStatusMessage Starting None) s1 = (s2, Ok ())" "I (ap_store s2)"
        "lookup (ap_store s2) = (lookup (ap_store st))(?i \<mapsto> v\<lparr>v_status := Starting, v_message := None\<rparr>)"
      using sandbox_store.update_run [OF store HOL.refl s1(1,2), of "UStatusMessage Starting None"] s1(3) by auto
    note rest = second(2) [unfolded and_then_run(1) [of "store_update env ?i (UStatusMessage Starting None)", OF u(1)]]
    from rest show ?thesis
    proof (cases rule: and_then_cases)
      case (first e s3)
      then show ?thesis using u call_store(2) [OF first(1)] call_no_panic(2) by (cases e) (auto simp: resumed_as_def)
    next
      case (second s3 conn)
      have s3: "ap_store s3 = ap_store s2" using call_store(2) [OF second(1)] .
      from second(2) show ?thesis
      proof (cases rule: and_then_cases)
        case (first e s4)
        then show ?thesis using u s3 call_store(1) [OF first(1)] call_no_panic(1) by (cases e) (auto simp: resumed_as_def)
      next
        case (second s4 b)
        have "I (ap_store s4)" "lookup (ap_store s4) ?i = Some (v\<lparr>v_status := Starting, v_message := None\<rparr>)" "ap_store s4 = ap_store s2"
          using u s3 call_store(1) [OF second(1)] by simp_all
        with sandbox_store.update_run [OF store HOL.refl this(1,2), of "UStatusMessage Running None"] second(2) u(3)
        show ?thesis by (auto simp: resumed_as_def)
      qed
    qed
  qed
qed

lemma reserve_again_run:
  assumes "reserve_again env i sp st = (st', res)"
  shows "ap_store st' = ap_store st" "ap_reservations st' = ap_reservations st" "res \<noteq> Err Panicked"
    and "res = Ok r \<Longrightarrow> ae_manage_resources env \<Longrightarrow> r = None \<Longrightarrow> hm_get (ap_reservations st) i \<noteq> None"
  using assms
  by (auto simp: reserve_again_def admit_spec_def and_then_def ok_def split: if_splits prod.splits sum.splits)

lemma resume_paused_run:
  assumes store: "sandbox_store (ae_store env) I lookup" and st: "I (ap_store st)" "lookup (ap_store st) (sb_id sb) = Some v"
    and run: "resume_paused env sb st = (st', res)"
  shows "I (ap_store st') \<and> (case res of
      Ok _ \<Rightarrow> resumed_as lookup (sb_id sb) v st st' Running \<and> (ae_manage_resources env \<longrightarrow> hm_get (ap_reservations st') (sb_id sb) \<noteq> None)
    | Err (Raised _) \<Rightarrow> ap_reservations st' = ap_reservations st
        \<and> (lookup (ap_store st') = lookup (ap_store st) \<or> resumed_as lookup (sb_id sb) v st st' Starting)
    | Err Panicked \<Rightarrow> False)"
proof -
  let ?i = "sb_id sb"
  from run show ?thesis unfolding resume_paused_def
  proof (cases rule: and_then_cases)
    case (first e s1)
    then show ?thesis using st reserve_again_run(1-3) [OF first(1)] by (cases e) auto
  next
    case (second s1 r)
    note r1 = reserve_again_run [OF second(1)]
    obtain s2 q where m: "resume_vm env sb s1 = (s2, q)" by (cases "resume_vm env sb s1")
    have s2: "ap_reservations s2 = ap_reservations st"
      using calm_at [OF calm_resume_vm m] r1(2) by (simp add: ledger_def)
    have q: "I (ap_store s2) \<and> (case q of
        Ok _ \<Rightarrow> resumed_as lookup ?i v st s2 Running
      | Err (Raised _) \<Rightarrow> lookup (ap_store s2) = lookup (ap_store st) \<or> resumed_as lookup ?i v st s2 Starting
      | Err Panicked \<Rightarrow> False)"
      using resume_vm_run [OF store _ _ m, of v] st r1(1) by (auto simp: resumed_as_def split: sum.splits fault.splits)
    show ?thesis
    proof (cases q)
      case (Inl f)
      then show ?thesis using second(2) q s2 m by (cases f) (auto simp: and_then_def holding_def resumed_as_def)
    next
      case (Inr x)
      then show ?thesis using second(2) q s2 m r1(4)
        by (cases r) (auto simp: and_then_def holding_def resumed_as_def modify_def ok_def)
    qed
  qed
qed

text \<open>C22: Resuming a paused sandbox. When it succeeds the record is running and, where the service manages resources, the sandbox holds
  a reservation. When it fails, no reservation is left behind and the record is as before or starting, so that the next
  reconciliation looks at it again; a time to live that cannot be added panics only after the record is running. No other
  record changes.\<close>

theorem resume_outcome:
  assumes "keyed_store (ae_store env) I lookup" and "I (ap_store st)" and "lookup (ap_store st) (sb_id sb) = Some v"
    and "sb_status sb = Paused" and "resume_if_needed env sb timeout st = (st', res)"
  shows "case res of
      Ok sb' \<Rightarrow> view_of sb' = v\<lparr>v_status := Running, v_message := None\<rparr> \<and> resumed_as lookup (sb_id sb) v st st' Running
        \<and> (ae_manage_resources env \<longrightarrow> hm_get (ap_reservations st') (sb_id sb) \<noteq> None)
    | Err (Raised _) \<Rightarrow> ap_reservations st' = ap_reservations st
        \<and> (lookup (ap_store st') = lookup (ap_store st) \<or> resumed_as lookup (sb_id sb) v st st' Starting)
    | Err Panicked \<Rightarrow> resumed_as lookup (sb_id sb) v st st' Running"
proof -
  let ?i = "sb_id sb"
  have store: "sandbox_store (ae_store env) I lookup" using assms(1) by (simp add: keyed_store_def)
  from assms(4,5) have "and_then (resume_paused env sb) (\<lambda>_. and_then (set_expiry env ?i timeout) (\<lambda>_. store_get env ?i)) st = (st', res)"
    by (simp add: resume_if_needed_def)
  then show ?thesis
  proof (cases rule: and_then_cases)
    case (first e s1)
    then show ?thesis using resume_paused_run [OF store assms(2,3) first(1)] by (cases e) auto
  next
    case (second s1 a)
    let ?v = "v\<lparr>v_status := Running, v_message := None\<rparr>"
    have s1: "I (ap_store s1)" "resumed_as lookup ?i v st s1 Running" "ae_manage_resources env \<longrightarrow> hm_get (ap_reservations s1) ?i \<noteq> None"
      using resume_paused_run [OF store assms(2,3) second(1)] by auto
    obtain w now where n: "ae_now env (ap_world s1) = (w, now)" by (cases "ae_now env (ap_world s1)")
    show ?thesis
    proof (cases "expiry_from_now (ae_add_secs env) now timeout")
      case None
      then have "res = Err Panicked" "ap_store st' = ap_store s1"
        using second(2) n by (auto simp: and_then_def set_expiry_def world_def throw_def)
      then show ?thesis using s1(2) by (simp add: resumed_as_def)
    next
      case (Some t)
      let ?s = "s1\<lparr>ap_world := w\<rparr>"
      have l: "lookup (ap_store ?s) ?i = Some ?v" using s1(2) by (simp add: resumed_as_def)
      obtain s2 where u: "store_update env ?i (UExpiry (Some t)) ?s = (s2, Ok ())" "I (ap_store s2)"
          "lookup (ap_store s2) = (lookup (ap_store s1))(?i \<mapsto> ?v)"
        using sandbox_store.update_run [OF store HOL.refl _ l, of "UExpiry (Some t)"] s1(1) by auto
      obtain s3 sb' where g: "store_get env ?i s2 = (s3, Ok sb')" "view_of sb' = ?v"
        using keyed_store.get_run [OF assms(1) HOL.refl u(2), of ?i ?v] u(3) by auto
      have "st' = s3" "res = Ok sb'"
        using second(2) n Some u(1) g(1) by (simp_all add: and_then_def set_expiry_def world_def)
      moreover have "ap_store s3 = ap_store s2" using store_get_fields [OF g(1)] by simp
      moreover have "ap_reservations s3 = ap_reservations s1"
        using calm_at [OF calm_update u(1)] calm_at [OF calm.f_get g(1)] by (simp add: ledger_def)
      ultimately show ?thesis using g(2) u(3) s1(2,3) by (simp add: resumed_as_def)
    qed
  qed
qed

theorem resume_outcome_witness:
  "let sb = (svc_sandbox ''acme'' None)\<lparr>sb_status := Paused\<rparr>
   in \<exists>st' sb'. resume_if_needed svc_env sb 60 (svc_stored sb) = (st', Ok sb') \<and> sb_status sb' = Running
      \<and> hm_get (ap_reservations st') ''1'' \<noteq> None"
proof -
  let ?sb = "(svc_sandbox ''acme'' None)\<lparr>sb_status := Paused\<rparr>"
  have i: "sb_id ?sb = ''1''" by (simp add: svc_sandbox_def sandbox_new_def)
  note ok = svc_stored_ok [of ?sb, unfolded i]
  have "\<exists>p. admit_spec svc_env (sb_spec ?sb) (svc_stored ?sb) = ((svc_stored ?sb)\<lparr>ap_pool := p\<rparr>, Ok default_resources)"
    by (simp add: admit_spec_def admit_def Let_def svc_stored_def resource_pool_new_def counter_ops_def default_spec_def default_resources_def
        raised_def svc_sandbox_def sandbox_new_def) (rule exI, rule HOL.refl)
  then obtain p where p: "admit_spec svc_env (sb_spec ?sb) (svc_stored ?sb) = ((svc_stored ?sb)\<lparr>ap_pool := p\<rparr>, Ok default_resources)" by blast
  have "ap_reservations (svc_stored ?sb) = []" by (simp add: svc_stored_def)
  then have "\<exists>st' sb'. resume_if_needed svc_env ?sb 60 (svc_stored ?sb) = (st', Ok sb')"
    using p ok i by (simp add: resume_if_needed_def resume_paused_def reserve_again_def resume_vm_def set_expiry_def expiry_from_now_def plus_secs_def
        run_defs mem_run_defs holding_def modify_def mem_get_sandbox_def keep_reservation_def drop_reservation_def)
  then obtain st' sb' where run: "resume_if_needed svc_env ?sb 60 (svc_stored ?sb) = (st', Ok sb')" by blast
  from resume_outcome [of svc_env mem_inv mem_lookup "svc_stored ?sb" ?sb "view_of ?sb", OF _ _ _ _ run] memk.keyed_store_axioms ok i
  have "view_of sb' = (view_of ?sb)\<lparr>v_status := Running, v_message := None\<rparr>" "hm_get (ap_reservations st') ''1'' \<noteq> None" by simp_all
  then show ?thesis using run by (simp add: view_of_def)
qed

section \<open>The stream of a process ends\<close>

lemma encode_terminal: "encode_process_event cd ev pty = Ok e \<Longrightarrow> pe_terminal e = is_terminal ev"
  by (cases ev) (auto simp: encode_process_event_def split: sum.splits)

lemma fold_publish:
  "r < length (rg_heap rg) \<Longrightarrow> se_events (rg_heap (fold (publish_at r) evs rg) ! r) = se_events (rg_heap rg ! r) @ evs"
  by (induction evs arbitrary: rg) (simp_all add: publish_at_def publish_def push_event_def send_event_def)

lemma pump_ended:
  assumes "\<And>b. \<exists>p. ec_json cd b = Ok p"
  shows "ended (pump_events cd pty evs) = list_ex is_terminal evs"
proof -
  have e: "\<exists>e. encoded cd pty ev = [e] \<and> pe_terminal e = is_terminal ev" for ev
  proof -
    obtain p where "ec_json cd (fst (event_body cd pty ev)) = Ok p" using assms by blast
    then have "\<exists>e. encode_process_event cd ev pty = Ok e" by (auto simp: encode_process_event_def split: prod.split)
    then show ?thesis using encode_terminal by (fastforce simp: encoded_def)
  qed
  show ?thesis
  proof (induction evs)
    case (Cons ev evs)
    obtain x where "encoded cd pty ev = [x]" "pe_terminal x = is_terminal ev" using e by blast
    with Cons show ?case by (simp add: ended_def)
  qed (simp add: ended_def)
qed



end
