(* ===== verification/Cloud_Properties.thy ===== *)
theory Cloud_Properties
  imports E2b_Properties Control_Properties
begin

text \<open>
  Properties of the cloud interface that span the control plane, the authenticator, the middleware and the service: the
  life of an API key, builds of templates, snapshots and forks of running machines, and the orders of an
  administrator.
\<close>

section \<open>Keys\<close>

lemma plane_op_Ok:
  assumes "plane_op env f st = (st', Ok c)"
  obtains fr w p' where "ae_fresh env (ap_world st) = (w, fr)" and "f (ae_cp env) fr (ap_e2b st) = (p', Ok c)"
    and "st' = st\<lparr>ap_world := w, ap_e2b := p'\<rparr>"
proof -
  obtain w fr where f: "ae_fresh env (ap_world st) = (w, fr)" by (cases "ae_fresh env (ap_world st)")
  obtain p' r where g: "f (ae_cp env) fr (ap_e2b st) = (p', r)" by (cases "f (ae_cp env) fr (ap_e2b st)")
  have "r = Ok c" "st' = st\<lparr>ap_world := w, ap_e2b := p'\<rparr>"
    using assms f g by (cases r, auto simp: plane_op_def world_def plane_call_def e2b_call_def and_then_def lift_result_def raised_def)+
  then show thesis using that f g by blast
qed

lemma checked_run: "checked (Ok a) st = (st, Ok a)" "checked (Err e) st = (st, Err (Raised e))"
  by (simp_all add: checked_def lift_result_def raised_def)

lemma checked_Ok: "checked r st = (st', Ok a) \<longleftrightarrow> st' = st \<and> r = Ok a"
  by (cases r) (auto simp: checked_run)

lemma issue_key_Ok:
  assumes "issue_key env t name sc st = (st1, Ok c)"
  obtains fr w p1 where "create_api_key (ae_cp env) fr t name sc (ap_e2b st) = (p1, Ok c)" and "ap_e2b st1 = p1"
    and "ap_auth st1 = register_with_id (kc_id c) (kc_secret c) t (into_scope sc) (ap_auth st)" 
    and "ae_fresh env (ap_world st) = (w, fr)"
  using assms unfolding issue_key_def and_then_Ok
  by (auto simp: modify_def ok_def register_key_def elim!: plane_op_Ok)

lemma withdraw_key_Ok:
  assumes "withdraw_key env t i st = (st1, Ok ())"
  obtains fr p1 where "delete_api_key (ae_cp env) fr t i (ap_e2b st) = (p1, Ok ())" and "ap_e2b st1 = p1"
    and "ap_auth st1 = revoke_id i (ap_auth st)"
  using assms unfolding withdraw_key_def and_then_Ok
  by (auto simp: modify_def revoke_key_def elim!: plane_op_Ok)

text \<open>How the middleware treats a request that carries a bearer credential.\<close>

lemma middleware_bearer:
  assumes "auth_header rq = Some (''Bearer '' @ cred)" and "\<not> probe_path (rq_path rq)" and "\<not> admin_presented adm rq"
  shows "auth_middleware adm a f rq =
    (case hm_get (au_keys a) cred of
       Some p \<Rightarrow> admit_principal rq p
     | None \<Rightarrow> (case f cred of Some p \<Rightarrow> admit_principal rq p
               | None \<Rightarrow> Refuse (into_error_response (new_error EkUnauthenticated ''invalid API key''))))"
proof -
  have n: "\<not> anonymous_dev a rq"
    using assms(1) by (auto simp: anonymous_dev_def auth_header_def or_else_def split: option.splits)
  have s: "strip_prefix ''Bearer '' (''Bearer '' @ cred) = Some cred" by (rule bearer_strip)
  show ?thesis
    unfolding auth_middleware_def authenticate_def assms(1) option.case s
    using assms(2,3) n s by (auto split: option.split simp del: append.simps)
qed

lemma issued_admits:
  assumes "au = register_with_id i raw t sc au0"
  shows "hm_get (au_keys au) raw = Some \<lparr>pr_tenant_id = t, pr_scope = sc, pr_volume_id = None\<rparr>" and "hm_get (au_key_ids au) i = Some raw"
  by (simp_all add: assms register_with_id_def register_inner_def Let_def)

text \<open>C8: The life of an API key, from the handler that creates it to the middleware. The request that carries the secret of a
  key passes the middleware at once as the team of its creator with the scope asked for, or is refused with 403
  when the key is read-only and the request changes state; after a successful deletion the same
  request is refused with 401, by the authenticator and by the control plane. The secret must not be accepted by a
  credential of the control plane stored earlier, and the identifier of the key must be new.\<close>

theorem issued_key_life:
  assumes "cloud_create_api_key env pr hs body st = (st1, Ok c)" and "cloud_delete_api_key env pr hs' (kc_id c) st1 = (st2, Ok ())"
    and "hm_get (cd_api_keys (pl_data (ap_e2b st))) (kc_id c) = None" and "\<not> accepted (ae_cp env) (kc_secret c) (pl_data (ap_e2b st))"
    and "auth_header rq = Some (''Bearer '' @ kc_secret c)" and "\<not> probe_path (rq_path rq)" and "\<not> admin_presented adm rq"
  shows "auth_middleware adm (ap_auth st1) f rq =
      (if mutating (rq_method rq) \<and> requested_scope body = SrRead
       then Refuse (into_error_response (new_error EkForbidden ''read-only token cannot perform this operation''))
       else Next (Some \<lparr>pr_tenant_id = pr_tenant_id pr, pr_scope = into_scope (requested_scope body), pr_volume_id = None\<rparr>))
    \<and> (\<exists>e. auth_middleware adm (ap_auth st2) (\<lambda>cred. snd (cp_authenticate (ae_cp env) fr cred (ap_e2b st2))) rq = Refuse e \<and> fst e = 401)"
proof -
  obtain t name where t: "team_header hs pr = Ok t" and i: "issue_key env t name (requested_scope body) st = (st1, Ok c)"
    using assms(1) unfolding cloud_create_api_key_def and_then_Ok checked_Ok by auto
  obtain t' where "team_header hs' pr = Ok t'" and w: "withdraw_key env t' (kc_id c) st1 = (st2, Ok ())"
    using assms(2) unfolding cloud_delete_api_key_def and_then_Ok checked_Ok by auto
  have tt: "t = pr_tenant_id pr" using t by (auto simp: team_header_def split: if_splits option.splits)
  obtain fr0 w0 p1 where k: "create_api_key (ae_cp env) fr0 t name (requested_scope body) (ap_e2b st) = (p1, Ok c)" "ap_e2b st1 = p1"
      "ap_auth st1 = register_with_id (kc_id c) (kc_secret c) t (into_scope (requested_scope body)) (ap_auth st)"
    using issue_key_Ok [OF i] by blast
  obtain fr1 p2 where d: "delete_api_key (ae_cp env) fr1 t' (kc_id c) (ap_e2b st1) = (p2, Ok ())" "ap_e2b st2 = p2"
      "ap_auth st2 = revoke_id (kc_id c) (ap_auth st1)"
    using withdraw_key_Ok [OF w] by blast
  note a = issued_admits [OF k(3)]
  have gone: "hm_get (au_keys (ap_auth st2)) (kc_secret c) = None" using a(2) by (simp add: d(3) revoke_id_def)
  have "cd_api_keys (pl_data p2) = cd_api_keys (pl_data (ap_e2b st))"
    using delete_api_key_data [OF d(1)] create_api_key_Ok [OF k(1)] k(2) hm_remove_fresh assms(3) by metis
  then have "\<not> accepted (ae_cp env) (kc_secret c) (pl_data p2)"
    using assms(4) delete_api_key_data [OF d(1)] create_api_key_Ok [OF k(1)] k(2) by (simp add: accepted_def)
  then have no: "snd (cp_authenticate (ae_cp env) fr (kc_secret c) (ap_e2b st2)) = None" 
    using d(2) by (simp only: authenticate_None_iff) simp
  note m = middleware_bearer [OF assms(5-7)]
  show ?thesis unfolding m a(1) gone no
    by (cases "requested_scope body") (simp_all add: admit_principal_def require_write_def into_error_response_def error_status_def
        new_error_def Let_def tt)
qed

lemma plane_op_run:
  assumes "ae_fresh env (ap_world st) = (w, fr)" and "f (ae_cp env) fr (ap_e2b st) = (p', r)"
  shows "plane_op env f st = (st\<lparr>ap_world := w, ap_e2b := p'\<rparr>, raised (map_sum from_control_error id r))"
  using assms by (simp add: plane_op_def world_def plane_call_def e2b_call_def and_then_def lift_result_def)

definition svc_fresh :: fresh where
  "svc_fresh = \<lparr>fr_uuid = show_nat, fr_now = int\<rparr>"

lemma svc_fresh: "ae_fresh svc_env w = (Suc w, svc_fresh)" "ae_cp svc_env = svc_cp"
  by (simp_all add: svc_env_def svc_fresh_def)

lemma team_header_own: "pr_volume_id pr = None \<Longrightarrow> team_header [] pr = Ok (pr_tenant_id pr)"
  by (simp add: team_header_def hm_get_def)

definition svc_named :: "string \<Rightarrow> json" where
  "svc_named name = JObj [(''name'', JStr name)]"

lemma svc_named: "required_str ''name'' (svc_named name) = Ok name" "requested_scope (svc_named name) = SrFull"
  by (simp_all add: svc_named_def required_str_def field_str_def hm_get_def requested_scope_def Let_def)

lemma issue_key_run:
  assumes "ae_fresh env (ap_world st) = (w, fr)" and "create_api_key (ae_cp env) fr t name sc (ap_e2b st) = (p1, Ok c)"
  shows "issue_key env t name sc st = (st\<lparr>ap_world := w, ap_e2b := p1,
    ap_auth := register_with_id (kc_id c) (kc_secret c) t (into_scope sc) (ap_auth st)\<rparr>, Ok c)"
proof -
  have "plane_op env (\<lambda>cp fr. create_api_key cp fr t name sc) st = (st\<lparr>ap_world := w, ap_e2b := p1\<rparr>, Ok c)"
    using plane_op_run [where f = "\<lambda>cp fr. create_api_key cp fr t name sc", OF assms] by (simp add: raised_def)
  then show ?thesis by (simp add: issue_key_def and_then_def modify_def ok_def register_key_def)
qed

lemma withdraw_key_run:
  assumes "ae_fresh env (ap_world st) = (w, fr)" and "delete_api_key (ae_cp env) fr t i (ap_e2b st) = (p1, r)"
  shows "withdraw_key env t i st = (case r of
      Ok _ \<Rightarrow> (st\<lparr>ap_world := w, ap_e2b := p1, ap_auth := revoke_id i (ap_auth st)\<rparr>, Ok ())
    | Err e \<Rightarrow> (st\<lparr>ap_world := w, ap_e2b := p1\<rparr>, Err (Raised (from_control_error e))))"
  unfolding withdraw_key_def and_then_def plane_op_run [where f = "\<lambda>cp fr. delete_api_key cp fr t i", OF assms]
  by (cases r) (simp_all add: raised_def modify_def revoke_key_def)

theorem issued_key_life_witness:
  "\<exists>st1 st2 c e. cloud_create_api_key svc_env (svc_principal ''acme'') [] (svc_named ''ci'') svc_app = (st1, Ok c)
     \<and> cloud_delete_api_key svc_env (svc_principal ''acme'') [] (kc_id c) st1 = (st2, Ok ())
     \<and> auth_middleware None (ap_auth st1) (\<lambda>_. None) (demo_key_request ''e2b_1'')
         = Next (Some \<lparr>pr_tenant_id = ''acme'', pr_scope = ScopeFull, pr_volume_id = None\<rparr>)
     \<and> auth_middleware None (ap_auth st2) (\<lambda>cred. snd (cp_authenticate svc_cp svc_fresh cred (ap_e2b st2))) (demo_key_request ''e2b_1'') = Refuse e
     \<and> fst e = 401"
proof -
  let ?p = "create_api_key svc_cp svc_fresh ''acme'' ''ci'' SrFull (plane_new ())"
  have "map_sum id (\<lambda>c. (kc_id c, kc_secret c)) (snd ?p) = Ok (''0'', ''e2b_1'')"
    and del: "snd (delete_api_key svc_cp svc_fresh ''acme'' ''0'' (fst ?p)) = Ok ()" by code_simp+
  then obtain p1 c where p: "?p = (p1, Ok c)" and c: "kc_id c = ''0''" "kc_secret c = ''e2b_1''"
    by (cases ?p; cases "snd ?p") auto
  obtain p2 where d: "delete_api_key svc_cp svc_fresh ''acme'' ''0'' p1 = (p2, Ok ())"
    using del p by (cases "delete_api_key svc_cp svc_fresh ''acme'' ''0'' p1") simp
  have t: "team_header [] (svc_principal ''acme'') = Ok ''acme''" by (simp add: team_header_own svc_principal_def)
  have e: "ap_e2b svc_app = plane_new ()" by (simp add: svc_app_def)
  obtain st1 where s1: "cloud_create_api_key svc_env (svc_principal ''acme'') [] (svc_named ''ci'') svc_app = (st1, Ok c)" "ap_e2b st1 = p1"
    unfolding cloud_create_api_key_def t svc_named
    using issue_key_run [of svc_env svc_app _ svc_fresh "''acme''" "''ci''" SrFull p1 c] p by (simp add: svc_fresh e and_then_def checked_run)
  obtain st2 where s2: "cloud_delete_api_key svc_env (svc_principal ''acme'') [] (kc_id c) st1 = (st2, Ok ())"
    unfolding cloud_delete_api_key_def t
    using withdraw_key_run [of svc_env st1 _ svc_fresh "''acme''" "''0''" p2 "Ok ()"] d s1(2) by (simp add: svc_fresh and_then_def checked_run c)
  have h: "auth_header (demo_key_request ''e2b_1'') = Some (''Bearer '' @ kc_secret c)" unfolding c by code_simp
  have "\<not> accepted svc_cp (kc_secret c) (pl_data (plane_new ()))" "hm_get (cd_api_keys (pl_data (plane_new ()))) (kc_id c) = None"
    by (simp_all add: accepted_def plane_new_def default_control_data_def hm_values_def hm_get_def)
  then have "auth_middleware None (ap_auth st1) (\<lambda>_. None) (demo_key_request ''e2b_1'')
         = Next (Some \<lparr>pr_tenant_id = ''acme'', pr_scope = ScopeFull, pr_volume_id = None\<rparr>)
     \<and> (\<exists>e. auth_middleware None (ap_auth st2) (\<lambda>cred. snd (cp_authenticate svc_cp svc_fresh cred (ap_e2b st2))) (demo_key_request ''e2b_1'') = Refuse e
     \<and> fst e = 401)"
    using issued_key_life [OF s1(1) s2 _ _ h, of None "\<lambda>_. None" svc_fresh]
    by (simp add: svc_fresh e svc_named demo_key_request_def probe_path_def admin_presented_def svc_principal_def)
  with s1(1) s2 show ?thesis by blast
qed

text \<open>A key that another team has tried to delete can no longer be withdrawn. The attempt is answered with
  ``not found'', but it removes the key from the control plane; from then on the deletion by the owner and the one by the
  administrator are answered with ``not found'' as well, and the authenticator keeps admitting the key.\<close>

lemma stranded_key:
  assumes "hm_get (cd_api_keys (pl_data (ap_e2b st))) i = Some k" and "ak_team_id k \<noteq> pr_tenant_id pr"
    and "team_header hs pr = Ok (pr_tenant_id pr)" and "team_header hs' owner = Ok (ak_team_id k)"
    and "require_admin (ae_admin_token env) hs'' = Ok ()" and "hm_get (au_keys (ap_auth st)) raw = Some p"
  shows "\<exists>st1 st2 st3 m. cloud_delete_api_key env pr hs i st = (st1, Err (Raised (not_found m)))
    \<and> cloud_delete_api_key env owner hs' i st1 = (st2, Err (Raised (not_found m)))
    \<and> admin_delete_key env hs'' (ak_team_id k) i st2 = (st3, Err (Raised (not_found m)))
    \<and> authenticate (ap_auth st3) (Some (''Bearer '' @ raw)) = Ok p"
proof -
  have step: "\<exists>st'. withdraw_key env t i s = (st', Err (Raised (not_found (''API key '' @ i)))) \<and> ap_auth st' = ap_auth s
      \<and> hm_get (cd_api_keys (pl_data (ap_e2b st'))) i = None"
    if "opt_filter (\<lambda>k. ak_team_id k = t) (hm_get (cd_api_keys (pl_data (ap_e2b s))) i) = None" for t s
  proof -
    obtain w fr where f: "ae_fresh env (ap_world s) = (w, fr)" by (cases "ae_fresh env (ap_world s)")
    have "delete_api_key (ae_cp env) fr t i (ap_e2b s)
        = (with_data (cd_api_keys_update (hm_remove i)) (ap_e2b s), Err (CpNotFound (''API key '' @ i)))"
      using that by (simp add: delete_api_key_def)
    from withdraw_key_run [OF f this] show ?thesis by simp
  qed
  obtain st1 where 1: "withdraw_key env (pr_tenant_id pr) i st = (st1, Err (Raised (not_found (''API key '' @ i))))"
      "ap_auth st1 = ap_auth st" "hm_get (cd_api_keys (pl_data (ap_e2b st1))) i = None"
    using step [of "pr_tenant_id pr" st] assms(1,2) by (auto simp: opt_filter_def)
  obtain st2 where 2: "withdraw_key env (ak_team_id k) i st1 = (st2, Err (Raised (not_found (''API key '' @ i))))"
      "ap_auth st2 = ap_auth st1" "hm_get (cd_api_keys (pl_data (ap_e2b st2))) i = None"
    using step [of "ak_team_id k" st1] 1(3) by (auto simp: opt_filter_def)
  obtain st3 where 3: "withdraw_key env (ak_team_id k) i st2 = (st3, Err (Raised (not_found (''API key '' @ i))))" "ap_auth st3 = ap_auth st2"
    using step [of "ak_team_id k" st2] 2(3) by (auto simp: opt_filter_def)
  have "authenticate (ap_auth st3) (Some (''Bearer '' @ raw)) = Ok p"
    unfolding authenticate_def option.case bearer_strip using assms(6) 1(2) 2(2) 3(2) by simp
  then show ?thesis
    using 1(1) 2(1) 3(1) by (auto simp: cloud_delete_api_key_def admin_delete_key_def and_then_def assms(3-5) checked_run)
qed

definition svc_keyed :: "(mem_store, nat, unit, nat) app" where
  "svc_keyed = svc_app\<lparr>ap_e2b := with_data (cd_api_keys_update (hm_insert ''k'' (key_of_call svc_cp svc_fresh ''acme'' ''ci'' SrFull ''raw''))) (plane_new ()),
     ap_auth := register_with_id ''k'' ''raw'' ''acme'' ScopeFull authenticator_new_production\<rparr>"

lemma stranded_key_witness:
  "\<exists>st1 st2 st3 m. cloud_delete_api_key svc_env (svc_principal ''other'') [] ''k'' svc_keyed = (st1, Err (Raised (not_found m)))
    \<and> cloud_delete_api_key svc_env (svc_principal ''acme'') [] ''k'' st1 = (st2, Err (Raised (not_found m)))
    \<and> admin_delete_key svc_env [(''x-admin-token'', Some ''root'')] ''acme'' ''k'' st2 = (st3, Err (Raised (not_found m)))
    \<and> authenticate (ap_auth st3) (Some (''Bearer '' @ ''raw'')) = Ok \<lparr>pr_tenant_id = ''acme'', pr_scope = ScopeFull, pr_volume_id = None\<rparr>"
proof -
  have k: "hm_get (cd_api_keys (pl_data (ap_e2b svc_keyed))) ''k'' = Some (key_of_call svc_cp svc_fresh ''acme'' ''ci'' SrFull ''raw'')"
    "ak_team_id (key_of_call svc_cp svc_fresh ''acme'' ''ci'' SrFull ''raw'') = ''acme''"
    by (simp_all add: svc_keyed_def key_of_call_def)
  have "require_admin (ae_admin_token svc_env) [(''x-admin-token'', Some ''root'')] = Ok ()"
    by (simp add: svc_env_def require_admin_def hm_get_def or_else_def strip_prefix_def starts_with_def unwrap_or_def)
  then show ?thesis
    using stranded_key [OF k(1), of "svc_principal ''other''" "[]" "[]" "svc_principal ''acme''" svc_env "[(''x-admin-token'', Some ''root'')]" "''raw''"
        "\<lparr>pr_tenant_id = ''acme'', pr_scope = ScopeFull, pr_volume_id = None\<rparr>", unfolded k(2)]
    by (simp add: svc_principal_def team_header_own svc_keyed_def issued_admits)
qed

section \<open>Orders of an administrator\<close>

lemma kill_stop_fields:
  "ap_store (fst (kill_stop env sb st)) = ap_store st" "snd (kill_stop env sb st) = Ok ()"
proof -
  have s: "ap_store (fst (discard_slot env slot st')) = ap_store st'" for slot and st' :: "('a, 'b, 'c, 'd) app"
  proof -
    have "(\<And>s. ap_store (fst (m s)) = ap_store s) \<Longrightarrow>
        ap_store (fst (fold (\<lambda>h m. and_then (stop_vm env h) (\<lambda>_. m)) hs m s)) = ap_store s"
      for hs and m :: "('a, 'b, 'c, 'd, unit) app_comp" and s :: "('a, 'b, 'c, 'd) app"
      by (induction hs arbitrary: m s) (simp_all add: and_then_def)
    then show ?thesis by (simp add: discard_slot_def ok_def split: prod.split)
  qed
  show "ap_store (fst (kill_stop env sb st)) = ap_store st" by (simp add: kill_stop_def s split: option.split)
  show "snd (kill_stop env sb st) = Ok ()" by (simp add: kill_stop_def discard_slot_Ok split: option.split)
qed

definition of_team :: "string \<Rightarrow> sandbox \<Rightarrow> bool" where
  "of_team t sb \<longleftrightarrow> sp_tenant_id (sb_spec sb) = Some t"

context keyed_store
begin

lemma kill_one_removes:
  assumes "ae_store env = ops" and "inv (ap_store st)" and "lookup (ap_store st) (sb_id sb) = Some v"
  obtains st' where "kill_one env sb st = (st', Ok True)" and "inv (ap_store st')"
    and "lookup (ap_store st') = (lookup (ap_store st))(sb_id sb := None)"
    and "ap_reservations st' = hm_remove (sb_id sb) (ap_reservations st)"
proof -
  obtain st1 where 1: "kill_stop env sb st = (st1, Ok ())" using kill_stop_fields(2) by (metis prod.collapse)
  obtain st2 where 2: "net_teardown env (sb_id sb) (inherited_subnet (sb_vmm_meta sb)) st1 = (st2, Ok ())"
    using net_teardown_fields(5) by (metis prod.collapse)
  have s: "ap_store st2 = ap_store st"
    using kill_stop_fields(1) [of env sb st] net_teardown_fields(1) [of env "sb_id sb" "inherited_subnet (sb_vmm_meta sb)" st1] 1 2 by simp
  have r: "ap_reservations st2 = ap_reservations st"
    using calm_at [OF calm_kill_stop 1] net_teardown_fields(3) [of env "sb_id sb" "inherited_subnet (sb_vmm_meta sb)" st1] 2
    by (simp add: ledger_def)
  obtain s' where d: "so_delete ops (sb_id sb) (ap_store st) = (s', Ok ())" "inv s'" "lookup s' = (lookup (ap_store st))(sb_id sb := None)"
    using delete_some [OF assms(2,3)] by blast
  let ?st = "remove_reservation env (sb_id sb) (st2\<lparr>ap_store := s'\<rparr>)"
  have "kill_one env sb st = (?st, Ok True)"
    using 1 2 s d assms(1) by (simp add: kill_one_def and_then_def kill_delete_def)
  then show thesis using that [of ?st] d(2,3) r
    by (simp add: remove_reservation_def drop_reservation_def split: option.splits)
qed

lemma kill_all_removes:
  assumes "ae_store env = ops" and "inv (ap_store st)" and "distinct (map sb_id sbs)"
    and "\<And>sb. sb \<in> set sbs \<Longrightarrow> lookup (ap_store st) (sb_id sb) \<noteq> None"
  shows "\<exists>st'. kill_all env t sbs (k, f) st = (st', Ok (k + length (filter (of_team t) sbs), f)) \<and> inv (ap_store st')
    \<and> lookup (ap_store st') = (\<lambda>i. if i \<in> sb_id ` set (filter (of_team t) sbs) then None else lookup (ap_store st) i)
    \<and> (\<forall>i. hm_get (ap_reservations st') i = (if i \<in> sb_id ` set (filter (of_team t) sbs) then None else hm_get (ap_reservations st) i))"
  using assms(2-4)
proof (induction sbs arbitrary: k st)
  case (Cons sb sbs)
  show ?case
  proof (cases "of_team t sb")
    case True
    obtain v where "lookup (ap_store st) (sb_id sb) = Some v" using Cons.prems(3) by fastforce
    then obtain st1 where 1: "kill_one env sb st = (st1, Ok True)" "inv (ap_store st1)"
        "lookup (ap_store st1) = (lookup (ap_store st))(sb_id sb := None)" "ap_reservations st1 = hm_remove (sb_id sb) (ap_reservations st)"
      using kill_one_removes [OF assms(1) Cons.prems(1)] by blast
    have "lookup (ap_store st1) (sb_id x) \<noteq> None" if "x \<in> set sbs" for x
    proof -
      have "sb_id x \<noteq> sb_id sb" using Cons.prems(2) that by (metis distinct.simps(2) image_eqI list.set_map list.simps(9))
      then show ?thesis using Cons.prems(3) [of x] that 1(3) by simp
    qed
    from Cons.IH [OF 1(2) _ this, of "Suc k"] Cons.prems(2) 1 True show ?thesis
      by (auto simp: and_then_def of_team_def fun_eq_iff)
  next
    case False
    from Cons.IH [OF Cons.prems(1), of k] Cons.prems(2,3) False show ?thesis by (simp add: of_team_def)
  qed
qed (use assms in \<open>simp add: ok_def\<close>)

end

lemma require_admin_refuses: "require_admin tok hs = Err e \<Longrightarrow> err_kind e = EkForbidden"
  by (auto simp: require_admin_def new_error_def Let_def split: option.splits if_splits)

text \<open>C23: Killing a team removes exactly its sandboxes. Over any store that keeps its contract, an administrator's order to
  kill a team succeeds for every sandbox of the team: their records and their reservations are gone, those of the other teams
  are as before, and the answer counts them. Without the credential of the administrator the order is
  refused with 403 and nothing changes.\<close>

theorem kill_team_exact:
  assumes "keyed_store (ae_store env) I lookup" and "I (ap_store st)"
  shows "case require_admin (ae_admin_token env) hs of
      Err e \<Rightarrow> admin_kill_team env hs t st = (st, Err (Raised e)) \<and> error_status e = 403
    | Ok _ \<Rightarrow>
        let dead = {i. \<exists>v. lookup (ap_store st) i = Some v \<and> sp_tenant_id (v_spec v) = Some t}
        in \<exists>st'. admin_kill_team env hs t st = (st', Ok (card dead, 0))
          \<and> lookup (ap_store st') = (\<lambda>i. if i \<in> dead then None else lookup (ap_store st) i)
          \<and> (\<forall>i. hm_get (ap_reservations st') i = (if i \<in> dead then None else hm_get (ap_reservations st) i))"
proof (cases "require_admin (ae_admin_token env) hs")
  case (Inl e)
  then show ?thesis using require_admin_refuses [OF Inl] by (simp add: admin_kill_team_def and_then_def checked_run error_status_def)
next
  case (Inr u)
  let ?dead = "{i. \<exists>v. lookup (ap_store st) i = Some v \<and> sp_tenant_id (v_spec v) = Some t}"
  obtain w now where n: "ae_now env (ap_world st) = (w, now)" by (cases "ae_now env (ap_world st)")
  obtain sbs where l: "so_list (ae_store env) now None (ap_store st) = Ok sbs"
    using sandbox_store.list_all [OF keyed_store.axioms(1) [OF assms(1)] assms(2)] by blast
  note keyed = keyed_store.list_keyed [OF assms(1) assms(2) l]
  have dead: "sb_id ` set (filter (of_team t) sbs) = ?dead"
  proof (intro subset_antisym subsetI)
    fix i assume "i \<in> sb_id ` set (filter (of_team t) sbs)"
    then obtain sb where "sb \<in> set sbs" "of_team t sb" "sb_id sb = i" by auto
    then show "i \<in> ?dead" using keyed(2) [of sb] by (auto simp: of_team_def view_of_def)
  next
    fix i assume "i \<in> ?dead"
    then obtain v where v: "lookup (ap_store st) i = Some v" "sp_tenant_id (v_spec v) = Some t" by blast
    from keyed(3) [OF v(1)] obtain sb where "sb \<in> set sbs" "sb_id sb = i" "view_of sb = v" by blast
    then show "i \<in> sb_id ` set (filter (of_team t) sbs)" using v(2) by (auto simp: of_team_def view_of_def)
  qed
  have c: "length (filter (of_team t) sbs) = card ?dead"
    unfolding dead [symmetric] using keyed(1) by (metis distinct_card distinct_map_filter length_map list.set_map)
  have eq: "ap_store (st\<lparr>ap_world := w\<rparr>) = ap_store st" "ap_reservations (st\<lparr>ap_world := w\<rparr>) = ap_reservations st" by simp_all
  obtain st' where k: "kill_all env t sbs (0, 0) (st\<lparr>ap_world := w\<rparr>) = (st', Ok (length (filter (of_team t) sbs), 0))"
      "lookup (ap_store st') = (\<lambda>i. if i \<in> ?dead then None else lookup (ap_store st) i)"
      "\<forall>i. hm_get (ap_reservations st') i = (if i \<in> ?dead then None else hm_get (ap_reservations st) i)"
    using keyed_store.kill_all_removes [OF assms(1) HOL.refl, of "st\<lparr>ap_world := w\<rparr>" sbs t 0 0] assms(2) keyed(1,2) unfolding dead eq by auto
  have "admin_kill_team env hs t st = (st', Ok (card ?dead, 0))"
    using Inr n l k(1) c by (simp add: admin_kill_team_def and_then_def checked_run store_list_def world_def raised_def)
  then show ?thesis using k(2,3) Inr by (simp add: Let_def)
qed

theorem kill_team_exact_witness:
  "\<exists>st'. admin_kill_team svc_env [(''x-admin-token'', Some ''root'')] ''acme'' (svc_stored (svc_sandbox ''acme'' None)) = (st', Ok (1, 0))
     \<and> mem_lookup (ap_store st') ''1'' = None"
proof -
  let ?sb = "svc_sandbox ''acme'' None"
  have i: "sb_id ?sb = ''1''" "sp_tenant_id (v_spec (view_of ?sb)) = Some ''acme''"
    by (simp_all add: svc_sandbox_def sandbox_new_def view_of_def)
  have a: "require_admin (ae_admin_token svc_env) [(''x-admin-token'', Some ''root'')] = Ok ()"
    by (simp add: svc_env_def require_admin_def hm_get_def or_else_def strip_prefix_def starts_with_def unwrap_or_def)
  have only: "mem_lookup (ap_store (svc_stored ?sb)) = [''1'' \<mapsto> view_of ?sb]"
    by (rule ext) (simp add: svc_stored_def mem_lookup_def hm_get_def i(1))
  have s: "{i. \<exists>v. mem_lookup (ap_store (svc_stored ?sb)) i = Some v \<and> sp_tenant_id (v_spec v) = Some ''acme''} = {''1''}"
    unfolding only using i(2) by (simp split: if_splits)
  have m: "ae_store svc_env = mem_ops" by (simp add: svc_env_def)
  show ?thesis
    using kill_team_exact [of svc_env mem_inv mem_lookup "svc_stored ?sb" "[(''x-admin-token'', Some ''root'')]" "''acme''",
        unfolded a sum.case Let_def s m, OF memk.keyed_store_axioms svc_stored_ok(1)]
    by fastforce
qed

section \<open>Snapshots and forks of running machines\<close>

text \<open>What the calls of a snapshot do to a machine: resuming leaves it running, a pause that fails leaves it as it was, and clocks, identifiers
  and directories do not touch it. \<open>up\<close> says of the world that the machine runs.\<close>

definition machine_laws :: "('s, 'q, 'f, 'w) app_env \<Rightarrow> ('w \<Rightarrow> bool) \<Rightarrow> vm_handle \<Rightarrow> bool" where
  "machine_laws env up h \<longleftrightarrow> (\<forall>w. up (fst (ae_vm_resume env h w)))
     \<and> (\<forall>w w' e. ae_vm_pause env h w = (w', Err e) \<longrightarrow> up w \<longrightarrow> up w')
     \<and> (\<forall>w. up w \<longrightarrow> up (fst (ae_now env w)) \<and> up (fst (ae_uuid env w)) \<and> up (fst (ae_fresh env w)))
     \<and> (\<forall>d w. up w \<longrightarrow> up (fst (ae_create_dir_all env d w)))"

abbreviation steady :: "('w \<Rightarrow> bool) \<Rightarrow> ('s, 'q, 'f, 'w, 'a) app_comp \<Rightarrow> bool" where
  "steady up m \<equiv> confined (\<lambda>st st'. up (ap_world st) \<longrightarrow> up (ap_world st')) m"

lemmas steady_then = state_preorder.confined_and_then [OF invariant_preorder]

lemma steady_world: "(\<And>w. up w \<Longrightarrow> up (fst (f w))) \<Longrightarrow> steady up (world f)"
  by (auto simp: confined_def world_def split: prod.splits) (metis fst_conv)

lemma steady_same: "(\<And>st. ap_world (fst (m st)) = ap_world st) \<Longrightarrow> steady up m"
  by (simp add: confined_def)

lemma steadyD: "steady up m \<Longrightarrow> up (ap_world st) \<Longrightarrow> up (ap_world (fst (m st)))"
  by (simp add: confined_def)

lemma steady_pure: "steady up (ok a)" "steady up (raise e)" "steady up (throw x)" "steady up (checked c)" "steady up (plane_read f)"
  "steady up (modify (spawn j))" "steady up (shown env sb)" "steady up (reserve env sp)"
  by (rule steady_same; simp add: ok_def raise_def throw_def checked_def lift_result_def plane_read_def modify_def spawn_def shown_def
      reserve_def admit_spec_def and_then_def split: option.split prod.split sum.split)+

lemma steady_plane:
  assumes "\<And>w. up w \<Longrightarrow> up (fst (ae_fresh env w))"
  shows "steady up (plane_op env f)"
proof -
  have "steady up (plane_call g)" for g
    by (rule steady_same) (simp add: plane_call_def e2b_call_def and_then_def lift_result_def split: prod.split)
  then show ?thesis unfolding plane_op_def by (intro steady_then steady_world assms)
qed

lemma snapshot_machine_steady:
  assumes "machine_laws env up h"
  shows "steady up (snapshot_machine env h paths)"
  unfolding confined_def
proof (intro allI impI)
  fix st :: "('a, 'b, 'c, 'd) app"
  assume u: "up (ap_world st)"
  obtain w q where p: "ae_vm_pause env h (ap_world st) = (w, q)" by (cases "ae_vm_pause env h (ap_world st)")
  show "up (ap_world (fst (snapshot_machine env h paths st)))"
  proof (cases q)
    case (Inl e)
    then have "up w" using assms p u by (auto simp: machine_laws_def)
    then show ?thesis by (simp add: snapshot_machine_def call_def world_def and_then_def p Inl lift_result_def raised_def)
  next
    case (Inr x)
    have "ae_vm_resume env h v = (v', y) \<Longrightarrow> up v'" for v v' y
      using assms unfolding machine_laws_def by (metis fst_conv)
    then show ?thesis using Inr
      by (auto simp: snapshot_machine_def call_def world_def and_then_def p lift_result_def raised_def ignore_def checked_def ok_def
          split: option.split prod.split)
  qed
qed

lemma fork_loop_steady:
  assumes "machine_laws env up h"
  shows "steady up (fork_loop env source timeout paths subnet n)"
proof (induction n)
  case (Suc n)
  have "steady up (fork_store env paths subnet fk r)" for fk r
    by (rule steady_same) (simp add: fork_store_def and_then_def modify_def spawn_def shown_def ok_def throw_def drop_reservation_def
        split: prod.split sum.split option.split)
  then show ?case unfolding fork_loop.simps fork_one_def using assms Suc
    by (intro steady_then steady_world steady_pure) (auto simp: machine_laws_def)
qed (simp add: steady_pure)

text \<open>A machine that runs is running again after a snapshot or a fork of it, whatever became of the snapshot: when the pause
  fails, when the state cannot be written, when the record cannot be stored, and when a fork is not admitted.\<close>

lemma snapshot_leaves_running:
  assumes "cloud_owned env pr i st = (st0, Ok sb)" and "machine_laws env up (handle_for sb)" and "up (ap_world st)"
  shows "up (ap_world (fst (cloud_create_snapshot env pr i body st))) \<and> up (ap_world (fst (fork_sandbox env pr i body st)))"
proof -
  have w: "\<And>w. up w \<Longrightarrow> up (fst (ae_now env w))" "\<And>w. up w \<Longrightarrow> up (fst (ae_uuid env w))" "\<And>w. up w \<Longrightarrow> up (fst (ae_fresh env w))"
    "\<And>d w. up w \<Longrightarrow> up (fst (ae_create_dir_all env d w))"
    using assms(2) by (auto simp: machine_laws_def)
  have "steady up (cloud_owned env pr i)"
    unfolding cloud_owned_def store_get_def
    by (intro steady_then steady_world w(1)) (auto intro: steady_pure steady_same)
  then have u: "up (ap_world st0)" using assms(1,3) by (metis confinedD)
  have r: "steady up (make_snapshot_root env)"
    unfolding make_snapshot_root_def by (intro steady_then steady_world w(4)) (auto intro: steady_pure split: sum.split)
  have "steady up (if \<not> can_snapshot env sb then raise x else and_then (world (ae_uuid env)) (\<lambda>u.
       and_then (make_snapshot_root env) (\<lambda>_.
       and_then (snapshot_machine env (handle_for sb) (snapshot_paths_of u)) (\<lambda>_.
       and_then (plane_op env (f u)) (\<lambda>s. ok (g s))))))" for x f g
    by (auto intro!: steady_then steady_world w steady_pure r snapshot_machine_steady assms(2) steady_plane)
  then have s: "up (ap_world (fst (cloud_create_snapshot env pr i body st)))"
    unfolding cloud_create_snapshot_def and_then_run(1) [where m = "cloud_owned env pr i", OF assms(1)] by (rule steadyD [where up = up and st = st0, OF _ u])
  have "steady up (fork_paths env pr sb body)"
    unfolding fork_paths_def
    by (auto intro!: steady_then steady_world w steady_pure r snapshot_machine_steady assms(2) steady_plane split: option.split)
  then have "steady up (if \<not> can_snapshot env sb then raise x else and_then (fork_paths env pr sb body) (\<lambda>paths.
       fork_loop env sb (fork_timeout body) paths n k))" for x n k
    by (auto intro!: steady_then steady_pure fork_loop_steady [OF assms(2)])
  then have "up (ap_world (fst (fork_sandbox env pr i body st)))"
    unfolding fork_sandbox_def and_then_run(1) [where m = "cloud_owned env pr i", OF assms(1)] by (rule steadyD [where up = up and st = st0, OF _ u])
  with s show ?thesis by blast
qed

definition svc_fragile :: "(mem_store, nat, unit, nat) app_env" where
  "svc_fragile = svc_env\<lparr>ae_now := (\<lambda>w. (w, 0)), ae_uuid := (\<lambda>w. (w, ''u'')), ae_fresh := (\<lambda>w. (w, svc_fresh)),
     ae_vm_pause := (\<lambda>_ w. (0, Ok ())), ae_vm_resume := (\<lambda>_ w. (1, Ok ())),
     ae_vm_snapshot := (\<lambda>_ _ w. (w, Err (internal_error ''disk full'')))\<rparr>"

definition svc_running :: sandbox where
  "svc_running = (svc_sandbox ''acme'' None)\<lparr>sb_vmm_meta := default_vmm_meta\<lparr>me_vmm_id := Some ''vm''\<rparr>\<rparr>"

lemma svc_running_owned:
  assumes "ae_store env = mem_ops" and "ae_now env = (\<lambda>w. (w, 0))"
  shows "cloud_owned env (svc_principal ''acme'') ''1'' (svc_stored svc_running) = (svc_stored svc_running, Ok svc_running)"
  using assms
  by (simp add: cloud_owned_def store_get_def run_defs mem_ops_def mem_get_sandbox_def svc_stored_def svc_app_def svc_running_def svc_sandbox_def sandbox_new_def
      svc_principal_def hm_get_def ok_def ok_or_def)

lemma snapshot_leaves_running_witness:
  "ap_world (fst (cloud_create_snapshot svc_fragile (svc_principal ''acme'') ''1'' (JObj []) (svc_stored svc_running))) = 1
   \<and> ap_world (fst (fork_sandbox svc_fragile (svc_principal ''acme'') ''1'' (JObj []) (svc_stored svc_running))) = 1"
proof -
  have "machine_laws svc_fragile (\<lambda>w. w = 1) (handle_for svc_running)"
    by (simp add: machine_laws_def svc_fragile_def svc_env_def)
  then show ?thesis
    using snapshot_leaves_running [OF svc_running_owned, of svc_fragile "\<lambda>w. w = 1" "JObj []"]
    by (simp add: svc_fragile_def svc_env_def svc_stored_def svc_app_def)
qed

text \<open>The task of one fork: it starts with the specification of its source and the lifetime asked for, holds a reservation when the
  service manages resources, and inherits the subnet of the source.\<close>

fun fork_job :: "('s, 'q, 'f, 'w) app_env \<Rightarrow> sandbox \<Rightarrow> json \<Rightarrow> job \<Rightarrow> bool" where
  "fork_job env source body (CloneJob fk r paths subnet) \<longleftrightarrow>
     sb_status fk = Starting \<and> sb_spec fk = (sb_spec source)\<lparr>sp_ttl_secs := Some (fork_timeout body)\<rparr>
     \<and> (r \<noteq> None \<longleftrightarrow> ae_manage_resources env) \<and> subnet = Some (sandbox_subnet (ae_net env) (sb_id source))"
| "fork_job env source body _ \<longleftrightarrow> False"

lemma split_dot: "CHR ''.'' \<notin> set a \<Longrightarrow> split_on (CHR ''.'') (a @ CHR ''.'' # t) = a # split_on (CHR ''.'') t"
  by (induction a) auto

lemma subnet_parts_of: "subnet_parts (subnet_of net i) = Some (sandbox_subnet net i)"
proof -
  obtain a b where ab: "sandbox_subnet net i = (a, b)" by (cases "sandbox_subnet net i")
  have n: "unat v \<le> 65535" for v :: u16
  proof -
    have "unat v < 2 ^ LENGTH(16)" by (rule unsigned_less)
    then show ?thesis by simp
  qed
  have "subnet_of net i = ''10'' @ CHR ''.'' # show_nat (unat a) @ CHR ''.'' # show_nat (unat b) @ CHR ''.'' # ''0/30''"
    by (simp add: subnet_of_def subnet_prefix_def ab)
  then have "split_on (CHR ''.'') (subnet_of net i) = ''10'' # show_nat (unat a) # show_nat (unat b) # split_on (CHR ''.'') ''0/30''"
    by (simp only: split_dot show_nat_no_dot) (simp add: split_dot show_nat_no_dot)
  then show ?thesis using n [of a] n [of b] by (simp add: subnet_parts_def ab parse_u16_def)
qed

lemma fork_store_jobs:
  assumes "fork_store env paths subnet fk r st = (st', q)"
  shows "\<exists>js. ap_jobs st' = ap_jobs st @ js \<and> (js = [] \<or> js = [CloneJob fk r paths subnet])
    \<and> (\<forall>x. q = Ok x \<longrightarrow> length js = (case x of Inr _ \<Rightarrow> 1 | Inl _ \<Rightarrow> 0))"
  using assms
  by (auto simp: fork_store_def and_then_def modify_def spawn_def shown_def ok_def throw_def drop_reservation_def
      split: prod.splits sum.splits option.splits)

lemma fork_one_jobs:
  assumes "fork_one env source (fork_timeout body) paths (subnet_parts (subnet_of (ae_net env) (sb_id source))) st = (st', q)"
  shows "\<exists>js. ap_jobs st' = ap_jobs st @ js \<and> length js \<le> 1 \<and> list_all (fork_job env source body) js
    \<and> (\<forall>x. q = Ok x \<longrightarrow> length js = (case x of Inr _ \<Rightarrow> 1 | Inl _ \<Rightarrow> 0))"
proof -
  obtain w i where u: "ae_uuid env (ap_world st) = (w, i)" by (cases "ae_uuid env (ap_world st)")
  obtain w' now where n: "ae_now env w = (w', now)" by (cases "ae_now env w")
  let ?fk = "fork_record source (fork_timeout body) now i" and ?st = "st\<lparr>ap_world := w'\<rparr>"
  obtain st1 r where r: "reserve env (sb_spec ?fk) ?st = (st1, r)" by (cases "reserve env (sb_spec ?fk) ?st")
  have j: "ap_jobs st1 = ap_jobs st" "r = Ok x \<Longrightarrow> x \<noteq> None \<longleftrightarrow> ae_manage_resources env" for x
    using r by (auto simp: reserve_def admit_spec_def and_then_def ok_def raised_def split: if_splits prod.splits sum.splits)
  have f: "fork_one env source (fork_timeout body) paths sn st = (case r of Ok x \<Rightarrow> fork_store env paths sn ?fk x st1 | Err e \<Rightarrow> (st1, Err e))" for sn
    using u n r by (cases r) (simp_all add: fork_one_def and_then_def world_def)
  show ?thesis
  proof (cases r)
    case (Inl e)
    then show ?thesis using assms f j by auto
  next
    case (Inr x)
    have s: "fork_store env paths (subnet_parts (subnet_of (ae_net env) (sb_id source))) ?fk x st1 = (st', q)" using assms Inr by (simp add: f)
    have "fork_job env source body (CloneJob ?fk x paths (subnet_parts (subnet_of (ae_net env) (sb_id source))))"
      using j(2) [OF Inr] by (simp add: fork_record_def sandbox_new_def subnet_parts_of)
    then show ?thesis using fork_store_jobs [OF s] j(1) by auto
  qed
qed

lemma fork_loop_jobs:
  assumes "fork_loop env source (fork_timeout body) paths (subnet_parts (subnet_of (ae_net env) (sb_id source))) n st = (st', q)"
  shows "\<exists>js. ap_jobs st' = ap_jobs st @ js \<and> length js \<le> n \<and> list_all (fork_job env source body) js
    \<and> (\<forall>xs. q = Ok xs \<longrightarrow> length xs = n \<and> length js = length (filter (\<lambda>x. case x of Inr _ \<Rightarrow> True | Inl _ \<Rightarrow> False) xs))"
  using assms
proof (induction n arbitrary: st st' q)
  case (Suc n)
  show ?case
    using Suc.prems [unfolded fork_loop.simps]
  proof (cases rule: and_then_cases)
    case (first e s1)
    then show ?thesis using fork_one_jobs [OF first(1)] by fastforce
  next
    case (second s1 x)
    obtain js where js: "ap_jobs s1 = ap_jobs st @ js" "length js \<le> 1" "list_all (fork_job env source body) js"
        "length js = (case x of Inr _ \<Rightarrow> 1 | Inl _ \<Rightarrow> 0)"
      using fork_one_jobs [OF second(1)] by auto
    show ?thesis using second(2)
    proof (cases rule: and_then_cases)
      case (first e s2)
      from Suc.IH [OF first(1)] obtain js' where "ap_jobs s2 = ap_jobs s1 @ js'" "length js' \<le> n" "list_all (fork_job env source body) js'"
        by auto
      then show ?thesis using js first by (intro exI [of _ "js @ js'"]) simp
    next
      case (second s2 xs)
      from Suc.IH [OF second(1)] obtain js' where "ap_jobs s2 = ap_jobs s1 @ js'" "length js' \<le> n" "list_all (fork_job env source body) js'"
          "length xs = n" "length js' = length (filter (\<lambda>x. case x of Inr _ \<Rightarrow> True | Inl _ \<Rightarrow> False) xs)"
        by auto
      then show ?thesis using js second by (intro exI [of _ "js @ js'"]) (auto simp: ok_def split: sum.splits)
    qed
  qed
qed (auto simp: ok_def)

lemma calm_sum [frame_intros]:
  "(\<And>x. calm_comp (f x)) \<Longrightarrow> (\<And>e. calm_comp (g e)) \<Longrightarrow> calm_comp (case r of Ok x \<Rightarrow> f x | Err e \<Rightarrow> g e)"
  by (cases r) simp_all

lemma calm_fork_paths: "calm_comp (cloud_owned env pr i)" "calm_comp (fork_paths env pr source body)"
proof -
  show "calm_comp (cloud_owned env pr i)" unfolding cloud_owned_def by (intro frame_intros)
  show "calm_comp (fork_paths env pr source body)"
    unfolding fork_paths_def make_snapshot_root_def snapshot_machine_def checked_def plane_op_def by (intro frame_intros)
qed


definition svc_still :: "(mem_store, nat, unit, nat) app_env" where
  "svc_still = svc_env\<lparr>ae_now := (\<lambda>w. (w, 0)), ae_uuid := (\<lambda>w. (w, ''u'')), ae_fresh := (\<lambda>w. (w, svc_fresh)), ae_manage_resources := False\<rparr>"


section \<open>Builds of templates\<close>

definition built :: "fresh \<Rightarrow> string \<Rightarrow> json option \<Rightarrow> build_record \<Rightarrow> build_record" where
  "built fr status entry b = b\<lparr>bu_status := status, bu_updated_at := fr_now fr 0,
     bu_logs := bu_logs b @ (case entry of Some l \<Rightarrow> [l] | None \<Rightarrow> [])\<rparr>"

lemma update_build_data:
  assumes "team_build t i (pl_data p) = Some b" and "update_build env fr t i status entry p = (p', r)"
  shows "pl_data p' = (if status = ''succeeded'' then publish_build (built fr status entry b) else id)
      (cd_builds_update (hm_insert i (built fr status entry b)) (pl_data p))"
    and "r = Ok x \<Longrightarrow> x = built fr status entry b"
proof -
  have u: "update_build env fr t i status entry p = and_then (modify (with_data ((if status = ''succeeded'' then publish_build (built fr status entry b) else id)
      \<circ> cd_builds_update (hm_insert i (built fr status entry b))))) (\<lambda>_. and_then (persist env) (\<lambda>_. ok (built fr status entry b))) p"
    using assms(1) by (simp add: update_build_def built_def Let_def)
  show "pl_data p' = (if status = ''succeeded'' then publish_build (built fr status entry b) else id)
      (cd_builds_update (hm_insert i (built fr status entry b)) (pl_data p))"
    using assms(2) unfolding u by (auto simp: and_then_def modify_def ok_def split: prod.splits sum.splits dest!: persist_Ok_data)
  show "x = built fr status entry b" if "r = Ok x"
    using assms(2) that unfolding u by (auto simp: and_then_def modify_def ok_def split: prod.splits sum.splits)
qed

lemma publish_build_frame [simp]: "cd_builds (publish_build b d) = cd_builds d"
  by (simp add: publish_build_def Let_def split: option.split)

lemma set_build_Ok:
  assumes "set_build env t i status entry st = (st', Ok b')" and "team_build t i (pl_data (ap_e2b st)) = Some b"
  obtains w fr where "ae_fresh env (ap_world st) = (w, fr)" and "b' = built fr status entry b" and "ap_world st' = w"
    and "pl_data (ap_e2b st') = (if status = ''succeeded'' then publish_build b' else id)
      (cd_builds_update (hm_insert i b') (pl_data (ap_e2b st)))"
proof -
  have "plane_op env (\<lambda>cp fr. update_build cp fr t i status entry) st = (st', Ok b')"
    using assms(1) by (simp add: set_build_def plane_op_def)
  then obtain w fr p where f: "ae_fresh env (ap_world st) = (w, fr)"
      and u: "update_build (ae_cp env) fr t i status entry (ap_e2b st) = (p, Ok b')" and st': "st' = st\<lparr>ap_world := w, ap_e2b := p\<rparr>"
    by (rule plane_op_Ok)
  have b': "b' = built fr status entry b" by (rule update_build_data(2) [OF assms(2) u HOL.refl])
  show thesis using that [OF f b'] update_build_data(1) [OF assms(2) u] by (simp add: st' b')
qed

lemma set_build_found:
  assumes "set_build env t i status entry st = (st', Ok b')" and "team_build t i (pl_data (ap_e2b st)) = Some b"
  shows "team_build t i (pl_data (ap_e2b st')) = Some b'" and "bu_status b' = status"
    and "bu_logs b' = bu_logs b @ (case entry of Some l \<Rightarrow> [l] | None \<Rightarrow> [])" and "bu_template_id b' = bu_template_id b"
    and "bu_build_id b' = bu_build_id b" and "bu_image_reference b' = bu_image_reference b"
    and "status = ''succeeded'' \<Longrightarrow> hm_get (cd_templates (pl_data (ap_e2b st))) (bu_template_id b) = Some tpl \<Longrightarrow>
      \<exists>tpl'. hm_get (cd_templates (pl_data (ap_e2b st'))) (bu_template_id b) = Some tpl' \<and> te_latest_build_id tpl' = Some (bu_build_id b)
        \<and> te_image_reference tpl' = or_else (bu_image_reference b) (te_image_reference tpl)"
    and "status \<noteq> ''succeeded'' \<Longrightarrow> cd_templates (pl_data (ap_e2b st')) = cd_templates (pl_data (ap_e2b st))"
proof -
  obtain fr where b': "b' = built fr status entry b" and d: "pl_data (ap_e2b st') = (if status = ''succeeded'' then publish_build b' else id)
      (cd_builds_update (hm_insert i b') (pl_data (ap_e2b st)))"
    using set_build_Ok [OF assms] by metis
  show "bu_status b' = status" "bu_logs b' = bu_logs b @ (case entry of Some l \<Rightarrow> [l] | None \<Rightarrow> [])" "bu_template_id b' = bu_template_id b"
    "bu_build_id b' = bu_build_id b" "bu_image_reference b' = bu_image_reference b"
    by (simp_all add: b' built_def)
  have "bu_team_id b' = t" using assms(2) by (simp add: b' built_def team_build_def)
  then show "team_build t i (pl_data (ap_e2b st')) = Some b'" by (simp add: d team_build_def)
  show "\<exists>tpl'. hm_get (cd_templates (pl_data (ap_e2b st'))) (bu_template_id b) = Some tpl' \<and> te_latest_build_id tpl' = Some (bu_build_id b)
        \<and> te_image_reference tpl' = or_else (bu_image_reference b) (te_image_reference tpl)"
    if "status = ''succeeded''" "hm_get (cd_templates (pl_data (ap_e2b st))) (bu_template_id b) = Some tpl"
    using that by (simp add: d b' built_def publish_build_def Let_def or_else_def split: option.split)
  show "cd_templates (pl_data (ap_e2b st')) = cd_templates (pl_data (ap_e2b st))" if "status \<noteq> ''succeeded''"
    using that by (simp add: d)
qed

text \<open>Warming a slot always answers and leaves the control plane alone.\<close>

definition aside :: "('s, 'q, 'f, 'w, 'a) app_comp \<Rightarrow> bool" where
  "aside m \<longleftrightarrow> (\<forall>st. ap_e2b (fst (m st)) = ap_e2b st \<and> (\<exists>x. snd (m st) = Ok x))"

lemma aside_intros:
  "aside (ok a)" "aside (world g)" "aside (stop_vm env h)" "aside m \<Longrightarrow> (\<And>a. aside (f a)) \<Longrightarrow> aside (and_then m f)"
proof -
  show "aside (and_then m f)" if m: "aside m" and f: "\<And>a. aside (f a)"
    unfolding aside_def
  proof
    fix st
    obtain st' x where "m st = (st', Ok x)" "ap_e2b st' = ap_e2b st" using m unfolding aside_def by (metis prod.collapse)
    then show "ap_e2b (fst (and_then m f st)) = ap_e2b st \<and> (\<exists>x. snd (and_then m f st) = Ok x)"
      using f [of x] by (simp add: and_then_def aside_def)
  qed
qed (simp_all add: aside_def ok_def world_def split: prod.split)

lemma asideD: "aside m \<Longrightarrow> \<exists>st' x. m st = (st', Ok x) \<and> ap_e2b st' = ap_e2b st"
  unfolding aside_def by (metis prod.collapse)

lemma aside_warm_slot:
  fixes env :: "('a, 'b, 'c, 'd) app_env"
  shows "aside (warm_slot env sp)"
proof -
  have f: "aside m \<Longrightarrow> aside (fold (\<lambda>h m. and_then (stop_vm env h) (\<lambda>_. m)) hs m)"
    for hs and m :: "('a, 'b, 'c, 'd, pool_slot option) app_comp"
  proof (induction hs arbitrary: m)
    case (Cons h hs)
    have "aside (and_then (stop_vm env h) (\<lambda>_. m))" using Cons.prems by (intro aside_intros)
    from Cons.IH [OF this] show ?case by (simp only: fold_simps)
  qed simp
  have s: "aside (start_created env c)" for c by (auto simp: start_created_def intro: aside_intros split: sum.split)
  have "aside (\<lambda>st. case warm hash64 dt created started now now' uid sp (ap_warm_pool st) of (g', r, stopped) \<Rightarrow>
      fold (\<lambda>h m. and_then (stop_vm env h) (\<lambda>_. m)) stopped (ok r) (st\<lparr>ap_warm_pool := g'\<rparr>))" for hash64 dt created started now now' uid
    unfolding aside_def
  proof
    fix st :: "('a, 'b, 'c, 'd) app"
    obtain g' r stopped where w: "warm hash64 dt created started now now' uid sp (ap_warm_pool st) = (g', r, stopped)"
      by (cases "warm hash64 dt created started now now' uid sp (ap_warm_pool st)")
    show "ap_e2b (fst (case warm hash64 dt created started now now' uid sp (ap_warm_pool st) of (g', r, stopped) \<Rightarrow>
        fold (\<lambda>h m. and_then (stop_vm env h) (\<lambda>_. m)) stopped (ok r) (st\<lparr>ap_warm_pool := g'\<rparr>))) = ap_e2b st
      \<and> (\<exists>x. snd (case warm hash64 dt created started now now' uid sp (ap_warm_pool st) of (g', r, stopped) \<Rightarrow>
        fold (\<lambda>h m. and_then (stop_vm env h) (\<lambda>_. m)) stopped (ok r) (st\<lparr>ap_warm_pool := g'\<rparr>)) = Ok x)"
      using f [OF aside_intros(1) [of r], of stopped] unfolding w prod.case aside_def by simp
  qed
  then show ?thesis unfolding warm_slot_def by (intro aside_intros s)
qed

text \<open>What the second half of the task does to a build that is still the team's.\<close>

lemma build_finish_outcome:
  assumes "build_finish env t b sp st = (st', Ok b')" and "team_build t (bu_build_id b) (pl_data (ap_e2b st)) = Some b0"
  shows "team_build t (bu_build_id b) (pl_data (ap_e2b st')) = Some b'
    \<and> (case snd (ae_prefetch_unbounded env sp (ap_world st)) of
         Ok _ \<Rightarrow> bu_status b' = ''succeeded'' \<and> (\<forall>tpl. hm_get (cd_templates (pl_data (ap_e2b st))) (bu_template_id b0) = Some tpl \<longrightarrow>
            (\<exists>tpl'. hm_get (cd_templates (pl_data (ap_e2b st'))) (bu_template_id b0) = Some tpl' \<and> te_latest_build_id tpl' = Some (bu_build_id b0)
              \<and> te_image_reference tpl' = or_else (bu_image_reference b0) (te_image_reference tpl)))
       | Err e \<Rightarrow> bu_status b' = ''failed'' \<and> last (bu_logs b') = message_entry (err_message e)
            \<and> cd_templates (pl_data (ap_e2b st')) = cd_templates (pl_data (ap_e2b st)))"
proof -
  obtain w r where p: "ae_prefetch_unbounded env sp (ap_world st) = (w, r)" by (cases "ae_prefetch_unbounded env sp (ap_world st)")
  let ?st = "st\<lparr>ap_world := w\<rparr>"
  show ?thesis
  proof (cases r)
    case (Inl e)
    then have s: "set_build env t (bu_build_id b) ''failed'' (Some (message_entry (err_message e))) ?st = (st', Ok b')"
      using assms(1) p by (simp add: build_finish_def and_then_def world_def)
    from set_build_found [OF s, of b0] assms(2) show ?thesis by (simp add: p Inl)
  next
    case (Inr u)
    obtain st1 q where o: "(if ae_detached_warm_pool env then and_then (warm_slot env sp) (\<lambda>slot. ok (slot \<noteq> None)) else ok False) ?st = (st1, Ok q)"
      and st1: "ap_e2b st1 = ap_e2b st"
    proof -
      have "aside (if ae_detached_warm_pool env then and_then (warm_slot env sp) (\<lambda>slot. ok (slot \<noteq> None)) else ok False)"
        by (auto intro: aside_intros aside_warm_slot)
      from asideD [OF this, of ?st] that show thesis by auto
    qed
    have s: "set_build env t (bu_build_id b) ''succeeded''
        (Some (JObj [(''message'', JStr ''OCI image prepared''), (''warmSlotRequested'', JBool q)])) st1 = (st', Ok b')"
      using assms(1) p Inr o unfolding build_finish_def and_then_def world_def by simp
    from set_build_found [OF s, of b0] assms(2) show ?thesis by (simp add: p Inr st1)
  qed
qed

lemma build_begin_run:
  assumes "team_build t (bu_build_id b) (pl_data (ap_e2b st)) = Some b0"
  shows "build_begin env t b st =
    (if bu_status b0 = ''cancelled'' then (st, Ok (Inl b0))
     else case build_image b of
       None \<Rightarrow> and_then (set_build env t (bu_build_id b) ''failed'' (Some (message_entry
         ''template build requires an OCI image reference; Dockerfile builder is not configured''))) (\<lambda>b'. ok (Inl b')) st
     | Some img \<Rightarrow> and_then (set_build env t (bu_build_id b) ''running'' None) (\<lambda>_. ok (Inr (image_spec img))) st)"
  using assms by (simp add: build_begin_def cancelled_build_def get_build_def)

text \<open>The task of a template build that ends without an error has settled the build. A build cancelled before is left alone. One without an image
  fails. Otherwise the build is ``succeeded'' when the backend could prepare the image, and then its template
  names it as the latest build and takes over its image; it is ``failed'' with the backend's message when not, and then no
  template has changed. What the task answers is what the control plane holds.\<close>

lemma build_outcome:
  assumes "build_image_if_possible env t b st = (st', Ok b')" and "team_build t (bu_build_id b) (pl_data (ap_e2b st)) = Some b0"
  shows "team_build t (bu_build_id b) (pl_data (ap_e2b st')) = Some b'
    \<and> (if bu_status b0 = ''cancelled'' then b' = b0 \<and> st' = st
       else case build_image b of
         None \<Rightarrow> bu_status b' = ''failed''
       | Some img \<Rightarrow>
           (case snd (ae_prefetch_unbounded env (image_spec img) (fst (ae_fresh env (ap_world st)))) of
              Ok _ \<Rightarrow> bu_status b' = ''succeeded'' \<and> (\<forall>tpl. hm_get (cd_templates (pl_data (ap_e2b st))) (bu_template_id b0) = Some tpl \<longrightarrow>
                (\<exists>tpl'. hm_get (cd_templates (pl_data (ap_e2b st'))) (bu_template_id b0) = Some tpl' \<and> te_latest_build_id tpl' = Some (bu_build_id b0)
                  \<and> te_image_reference tpl' = or_else (bu_image_reference b0) (te_image_reference tpl)))
            | Err e \<Rightarrow> bu_status b' = ''failed'' \<and> last (bu_logs b') = message_entry (err_message e)
                \<and> cd_templates (pl_data (ap_e2b st')) = cd_templates (pl_data (ap_e2b st))))"
proof -
  have run: "and_then (build_begin env t b) (\<lambda>r. case r of Inl x \<Rightarrow> ok x | Inr sp \<Rightarrow> build_finish env t b sp) st = (st', Ok b')"
    using assms(1) by (simp only: build_image_if_possible_def)
  then obtain s1 r where start: "build_begin env t b st = (s1, Ok r)"
      and rest: "(case r of Inl x \<Rightarrow> ok x | Inr sp \<Rightarrow> build_finish env t b sp) s1 = (st', Ok b')"
    unfolding and_then_Ok by blast
  note b = start [unfolded build_begin_run [OF assms(2)]]
  show ?thesis
  proof (cases "bu_status b0 = ''cancelled''")
    case True
    then show ?thesis using b rest assms(2) by (auto simp: ok_def)
  next
    case live: False
    show ?thesis
    proof (cases "build_image b")
      case None
      then obtain x where s: "set_build env t (bu_build_id b) ''failed'' (Some (message_entry
          ''template build requires an OCI image reference; Dockerfile builder is not configured'')) st = (s1, Ok x)" and "r = Inl x"
        using b live by (auto simp: and_then_Ok ok_def)
      then show ?thesis using rest set_build_found [OF s assms(2)] live None by (simp add: ok_def)
    next
      case (Some img)
      then obtain x where s: "set_build env t (bu_build_id b) ''running'' None st = (s1, Ok x)" and r: "r = Inr (image_spec img)"
        using b live by (auto simp: and_then_Ok ok_def)
      have w: "ap_world s1 = fst (ae_fresh env (ap_world st))" using set_build_Ok [OF s assms(2)] by (metis fst_conv)
      have f: "build_finish env t b (image_spec img) s1 = (st', Ok b')" using rest r by simp
      note x = set_build_found [OF s assms(2)]
      have t: "cd_templates (pl_data (ap_e2b s1)) = cd_templates (pl_data (ap_e2b st))" by (rule x(8)) simp
      from build_finish_outcome [OF f x(1)] show ?thesis unfolding w t x(4-6) using live Some by simp
    qed
  qed
qed

definition svc_b :: build_record where
  "svc_b = \<lparr>bu_build_id = ''b'', bu_template_id = ''base'', bu_team_id = ''acme'', bu_status = ''queued'', bu_image_reference = Some ''alpine'',
     bu_request = JObj [], bu_logs = [], bu_created_at = 0, bu_updated_at = 0\<rparr>"

definition svc_building :: "(mem_store, nat, unit, nat) app" where
  "svc_building = svc_app\<lparr>ap_e2b := with_data (cd_builds_update (hm_insert ''b'' svc_b)) (plane_new ())\<rparr>"

lemma svc_building:
  "team_build ''acme'' (bu_build_id svc_b) (pl_data (ap_e2b svc_building)) = Some svc_b" "build_image svc_b = Some ''alpine''"
  "bu_status svc_b \<noteq> ''cancelled''" "pl_path (ap_e2b svc_building) = None"
  by (simp_all add: svc_building_def svc_b_def team_build_def build_image_def or_else_def plane_new_def)

text \<open>Without a file behind it the control plane always takes the change.\<close>

lemma set_build_unfiled:
  assumes "pl_path (ap_e2b st) = None" and "team_build t i (pl_data (ap_e2b st)) = Some b"
  shows "\<exists>st' b'. set_build env t i status entry st = (st', Ok b') \<and> pl_path (ap_e2b st') = None"
proof -
  obtain w fr where f: "ae_fresh env (ap_world st) = (w, fr)" by (cases "ae_fresh env (ap_world st)")
  show ?thesis using assms
    by (auto simp: set_build_def plane_call_def e2b_call_def world_def and_then_def f update_build_def Let_def modify_def persist_def with_data_def
        lift_result_def raised_def ok_def)
qed

lemma svc_begin:
  "\<exists>st1. build_begin svc_env ''acme'' svc_b svc_building = (st1, Ok (Inr (image_spec ''alpine''))) \<and> pl_path (ap_e2b st1) = None
     \<and> (\<exists>b1. team_build ''acme'' (bu_build_id svc_b) (pl_data (ap_e2b st1)) = Some b1)"
proof -
  obtain st1 b1 where s: "set_build svc_env ''acme'' (bu_build_id svc_b) ''running'' None svc_building = (st1, Ok b1)" "pl_path (ap_e2b st1) = None"
    using set_build_unfiled [OF svc_building(4,1)] by blast
  then show ?thesis using set_build_found(1) [OF s(1) svc_building(1)] svc_building(2,3)
    by (simp add: build_begin_run [OF svc_building(1)] and_then_def ok_def)
qed

lemma svc_finish:
  assumes "pl_path (ap_e2b st) = None" and "team_build ''acme'' (bu_build_id svc_b) (pl_data (ap_e2b st)) = Some b1"
  shows "\<exists>st' b'. build_finish svc_env ''acme'' svc_b sp st = (st', Ok b')"
proof -
  have e: "\<not> ae_detached_warm_pool svc_env" "ae_prefetch_unbounded svc_env sp w = (w, Ok ())" for w by (simp_all add: svc_env_def)
  obtain st' b' where "set_build svc_env ''acme'' (bu_build_id svc_b) ''succeeded''
      (Some (JObj [(''message'', JStr ''OCI image prepared''), (''warmSlotRequested'', JBool False)])) st = (st', Ok b')"
    using set_build_unfiled [OF assms] by blast
  then show ?thesis by (simp add: build_finish_def and_then_def world_def e ok_def)
qed

lemma build_outcome_witness:
  "\<exists>st' b'. build_image_if_possible svc_env ''acme'' svc_b svc_building = (st', Ok b') \<and> bu_status b' = ''succeeded''"
proof -
  obtain st1 b1 where s: "build_begin svc_env ''acme'' svc_b svc_building = (st1, Ok (Inr (image_spec ''alpine'')))" "pl_path (ap_e2b st1) = None"
      "team_build ''acme'' (bu_build_id svc_b) (pl_data (ap_e2b st1)) = Some b1"
    using svc_begin by blast
  obtain st' b' where "build_finish svc_env ''acme'' svc_b (image_spec ''alpine'') st1 = (st', Ok b')" using svc_finish [OF s(2,3)] by blast
  then have r: "build_image_if_possible svc_env ''acme'' svc_b svc_building = (st', Ok b')"
    using s(1) by (simp add: build_image_if_possible_def and_then_def)
  have e: "ae_prefetch_unbounded svc_env sp w = (w, Ok ())" for sp w by (simp add: svc_env_def)
  from build_outcome [OF r svc_building(1)] svc_building(2,3) r show ?thesis by (simp add: e)
qed

text \<open>Cancelling builds does not reach one whose image is being prepared. Between the two halves of the task an administrator cancels the
  builds of the team, and the build is ``cancelled''; when the backend then reports the image prepared, the task makes it
  ``succeeded'' all the same and publishes it on its template.\<close>

lemma cancelled_build_published:
  assumes "build_begin env t b st = (st1, Ok (Inr sp))" and "team_build t (bu_build_id b) (pl_data (ap_e2b st)) = Some b0"
    and "cancel_builds (ae_cp env) fr t (ap_e2b st1) = (p, Ok counts)"
    and "build_finish env t b sp (st1\<lparr>ap_e2b := p\<rparr>) = (st2, Ok b')" and "snd (ae_prefetch_unbounded env sp (ap_world st1)) = Ok ()"
  shows "map_option bu_status (team_build t (bu_build_id b) (pl_data p)) = Some ''cancelled''
    \<and> map_option bu_status (team_build t (bu_build_id b) (pl_data (ap_e2b st2))) = Some ''succeeded''"
proof -
  obtain x where s: "set_build env t (bu_build_id b) ''running'' None st = (st1, Ok x)"
    using assms(1) unfolding build_begin_run [OF assms(2)] by (auto simp: and_then_Ok ok_def split: if_splits option.splits)
  note x = set_build_found [OF s assms(2)]
  have d: "pl_data p = cd_builds_update (hm_map_values (cancel_build fr t)) (pl_data (ap_e2b st1))"
    using assms(3) by (auto simp: cancel_builds_def Let_def and_then_def modify_def ok_def split: prod.splits sum.splits dest!: persist_Ok_data)
  have "cancellable t x" using x(1,2) by (simp add: cancellable_def team_build_def)
  then have c: "team_build t (bu_build_id b) (pl_data p) = Some (cancel_build fr t x)" "bu_status (cancel_build fr t x) = ''cancelled''"
    using x(1) by (auto simp: d team_build_def cancel_build_def cancellable_def)
  have "team_build t (bu_build_id b) (pl_data (ap_e2b (st1\<lparr>ap_e2b := p\<rparr>))) = Some (cancel_build fr t x)" using c(1) by simp
  from build_finish_outcome [OF assms(4) this] assms(5) c show ?thesis by simp
qed

lemma cancelled_build_published_witness:
  "\<exists>st1 p counts st2 b'. build_begin svc_env ''acme'' svc_b svc_building = (st1, Ok (Inr (image_spec ''alpine'')))
     \<and> cancel_builds svc_cp svc_fresh ''acme'' (ap_e2b st1) = (p, Ok counts)
     \<and> build_finish svc_env ''acme'' svc_b (image_spec ''alpine'') (st1\<lparr>ap_e2b := p\<rparr>) = (st2, Ok b')
     \<and> map_option bu_status (team_build ''acme'' ''b'' (pl_data p)) = Some ''cancelled''
     \<and> map_option bu_status (team_build ''acme'' ''b'' (pl_data (ap_e2b st2))) = Some ''succeeded''"
proof -
  obtain st1 b1 where s: "build_begin svc_env ''acme'' svc_b svc_building = (st1, Ok (Inr (image_spec ''alpine'')))" "pl_path (ap_e2b st1) = None"
      "team_build ''acme'' (bu_build_id svc_b) (pl_data (ap_e2b st1)) = Some b1"
    using svc_begin by blast
  have "\<exists>p counts. cancel_builds svc_cp svc_fresh ''acme'' (ap_e2b st1) = (p, Ok counts) \<and> pl_path p = None
      \<and> (\<exists>b2. team_build ''acme'' (bu_build_id svc_b) (pl_data p) = Some b2)"
    using s(2,3) by (auto simp: cancel_builds_def Let_def and_then_def modify_def persist_def with_data_def ok_def team_build_def cancel_build_def)
  then obtain p counts b2 where c: "cancel_builds svc_cp svc_fresh ''acme'' (ap_e2b st1) = (p, Ok counts)" "pl_path p = None"
      "team_build ''acme'' (bu_build_id svc_b) (pl_data p) = Some b2"
    by blast
  obtain st2 b' where f: "build_finish svc_env ''acme'' svc_b (image_spec ''alpine'') (st1\<lparr>ap_e2b := p\<rparr>) = (st2, Ok b')"
    using svc_finish [of "st1\<lparr>ap_e2b := p\<rparr>" b2 "image_spec ''alpine''"] c(2,3) by auto
  have e: "snd (ae_prefetch_unbounded svc_env (image_spec ''alpine'') (ap_world st1)) = Ok ()" "bu_build_id svc_b = ''b''"
    by (simp_all add: svc_env_def svc_b_def)
  from cancelled_build_published [OF s(1) svc_building(1) _ f e(1), of svc_fresh counts] c(1) s(1) f e(2) show ?thesis
    by (auto simp: svc_fresh)
qed

section \<open>Nodes\<close>

text \<open>The cloud interface asks the store for nodes that have reported since this very moment, where the other listing allows them
  fifteen seconds. A node whose last report lies in the past is never shown.\<close>

lemma cloud_nodes_miss_the_past:
  assumes "ae_records env = mem_records" and "ae_now env (ap_world st) = (w, now)"
    and "list_all (\<lambda>n. rn_last_heartbeat_ms n < ae_millis env now) (hm_values (m_nodes (ap_store st)))"
  shows "snd (cloud_list_nodes env st) = Ok []"
  using assms
  by (auto simp: cloud_list_nodes_def cloud_nodes_def run_defs mem_records_def mem_list_ready_nodes_def ok_def list_all_iff filter_empty_conv)

end
