(* ===== verification/Guest_Files.thy ===== *)
theory Guest_Files
  imports Frame_Codec
begin

text \<open>
  The file operations of the guest agent, \<open>crates/clouisle-agent/src/serve.rs\<close> (\<open>guest_path\<close>,
  \<open>write_file\<close>, \<open>read_file\<close>, \<open>list_dir\<close>) and \<open>limits.rs\<close>, over the part of \<open>std::path\<close> and
  \<open>std::fs\<close> that they use. A path is a string; its components are those of \<open>Path::components\<close> on
  Unix. The file system is a tree, kept as a map from the component lists below the root to files
  and directories, without symbolic links; every call can also be refused by the kernel, with the
  error it chooses (\<open>guest_kernel\<close>). The lemmas show that a write that succeeds is read back
  whatever it replaced, that it changes no other file, that a path with a parent component is
  refused before anything is touched, and that every operation keeps the tree well formed.
\<close>

section \<open>Paths\<close>

datatype component = RootDir | CurDir | ParentDir | Normal string

definition component_of :: "string \<Rightarrow> component" where
  "component_of s = (if s = ''..'' then ParentDir else Normal s)"

text \<open>\<open>Path::components\<close>: repeated separators and \<open>.\<close> disappear, except a \<open>.\<close> that begins a
  relative path.\<close>

definition components :: "string \<Rightarrow> component list" where
  "components p =
     (let parts = split_on (CHR ''/'') p in
      (if starts_with ''/'' p then [RootDir] else if hd parts = ''.'' then [CurDir] else []) @
      map component_of (filter (\<lambda>s. s \<noteq> [] \<and> s \<noteq> ''.'') parts))"

definition guest_path :: "string \<Rightarrow> (string, string) result" where
  "guest_path path =
     (if path = [] then Err ''path is required''
      else if ParentDir \<in> set (components path) then Err (''path traversal is not allowed: '' @ path)
      else Ok path)"

section \<open>The file system\<close>

datatype fs_node = FsFile u32 "byte list" int | FsDir u32 int

type_synonym fs_path = "string list"
type_synonym guest_fs = "(fs_path, fs_node) hashmap"

datatype mount_end = Mounted | MountBusy | MountFailed string

text \<open>What the kernel decides: the directory relative paths start from, the umask, and the errors
  it raises on its own account (no space, a name too long, a read-only mount). A write can fail
  after some of its bytes.\<close>

record guest_kernel =
  gk_cwd :: fs_path
  gk_umask :: u32
  gk_dir_size :: u64
  gk_refuse :: "fs_path \<Rightarrow> string option"
  gk_write_fault :: "fs_path \<Rightarrow> byte list \<Rightarrow> (nat \<times> string) option"
  gk_chmod_fault :: "fs_path \<Rightarrow> string option"
  gk_read_fault :: "fs_path \<Rightarrow> string option"
  gk_entry_fault :: "fs_path \<Rightarrow> string option"
  gk_stat_fault :: "fs_path \<Rightarrow> string option"
  gk_mount :: "string \<Rightarrow> string \<Rightarrow> guest_fs \<Rightarrow> guest_fs \<times> mount_end"

definition enoent :: string where "enoent = ''No such file or directory (os error 2)''"
definition enotdir :: string where "enotdir = ''Not a directory (os error 20)''"
definition eisdir :: string where "eisdir = ''Is a directory (os error 21)''"
definition eexist :: string where "eexist = ''File exists (os error 17)''"
definition einval_nul :: string where "einval_nul = ''file name contained an unexpected NUL byte''"

fun walk :: "fs_path \<Rightarrow> component list \<Rightarrow> fs_path" where
  "walk q [] = q"
| "walk q (RootDir # cs) = walk [] cs"
| "walk q (CurDir # cs) = walk q cs"
| "walk q (ParentDir # cs) = walk (butlast q) cs"
| "walk q (Normal s # cs) = walk (q @ [s]) cs"

definition resolve :: "guest_kernel \<Rightarrow> component list \<Rightarrow> fs_path" where
  "resolve k cs = walk (gk_cwd k) cs"

text \<open>A path that ends in a separator or in \<open>.\<close> can only name a directory.\<close>

definition names_dir :: "string \<Rightarrow> bool" where
  "names_dir p \<longleftrightarrow> last (split_on (CHR ''/'') p) \<in> {[], ''.''}"

fun dir_error :: "guest_fs \<Rightarrow> fs_path \<Rightarrow> string list \<Rightarrow> string option" where
  "dir_error fs pre [] = None"
| "dir_error fs pre (c # cs) =
     (case hm_get fs (pre @ [c]) of
        None \<Rightarrow> Some enoent
      | Some (FsFile _ _ _) \<Rightarrow> Some enotdir
      | Some (FsDir _ _) \<Rightarrow> dir_error fs (pre @ [c]) cs)"

definition touch :: "int \<Rightarrow> fs_path \<Rightarrow> guest_fs \<Rightarrow> guest_fs" where
  "touch now q fs =
     (case hm_get fs q of Some (FsDir m _) \<Rightarrow> hm_insert q (FsDir m now) fs | _ \<Rightarrow> fs)"

definition create_node :: "int \<Rightarrow> fs_path \<Rightarrow> fs_node \<Rightarrow> guest_fs \<Rightarrow> guest_fs" where
  "create_node now q n fs = hm_insert q n (touch now (butlast q) fs)"

definition file_mode :: "guest_kernel \<Rightarrow> u32" where
  "file_mode k = 438 AND NOT (gk_umask k)"

definition dir_mode :: "guest_kernel \<Rightarrow> u32" where
  "dir_mode k = 511 AND NOT (gk_umask k)"

text \<open>\<open>std::fs::create_dir_all\<close>: the missing directories from the top; those made before an error stay.\<close>

fun mkdirs :: "guest_kernel \<Rightarrow> int \<Rightarrow> guest_fs \<Rightarrow> fs_path \<Rightarrow> string list \<Rightarrow> guest_fs \<times> (unit, string) result" where
  "mkdirs k now fs pre [] = (fs, Ok ())"
| "mkdirs k now fs pre (c # cs) =
     (let q = pre @ [c] in
      case hm_get fs q of
        Some (FsDir _ _) \<Rightarrow> mkdirs k now fs q cs
      | Some (FsFile _ _ _) \<Rightarrow> (fs, Err (if cs = [] then eexist else enotdir))
      | None \<Rightarrow>
          (case gk_refuse k q of
             Some e \<Rightarrow> (fs, Err e)
           | None \<Rightarrow> mkdirs k now (create_node now q (FsDir (dir_mode k) now) fs) q cs))"

definition has_nul :: "component list \<Rightarrow> bool" where
  "has_nul cs \<longleftrightarrow> list_ex (\<lambda>c. case c of Normal s \<Rightarrow> nul \<in> set s | _ \<Rightarrow> False) cs"

definition create_dir_all ::
  "guest_kernel \<Rightarrow> int \<Rightarrow> component list \<Rightarrow> guest_fs \<Rightarrow> guest_fs \<times> (unit, string) result" where
  "create_dir_all k now cs fs = (if has_nul cs then (fs, Err einval_nul) else mkdirs k now fs [] (resolve k cs))"

text \<open>\<open>std::fs::write\<close>: open with create and truncate, then write all.\<close>

definition write_open :: "guest_kernel \<Rightarrow> string \<Rightarrow> guest_fs \<Rightarrow> (u32 \<times> bool, string) result" where
  "write_open k p fs =
     (let q = resolve k (components p) in
      if nul \<in> set p then Err einval_nul
      else case dir_error fs [] (butlast q) of
        Some e \<Rightarrow> Err e
      | None \<Rightarrow>
          (case hm_get fs q of
             Some (FsDir _ _) \<Rightarrow> Err eisdir
           | Some (FsFile m _ _) \<Rightarrow>
               if names_dir p then Err enotdir
               else (case gk_refuse k q of Some e \<Rightarrow> Err e | None \<Rightarrow> Ok (m, False))
           | None \<Rightarrow>
               if names_dir p then Err (if last (split_on (CHR ''/'') p) = [] then eisdir else enoent)
               else (case gk_refuse k q of Some e \<Rightarrow> Err e | None \<Rightarrow> Ok (file_mode k, True))))"

definition fs_write :: "guest_kernel \<Rightarrow> int \<Rightarrow> string \<Rightarrow> byte list \<Rightarrow> guest_fs \<Rightarrow> guest_fs \<times> (unit, string) result" where
  "fs_write k now p content fs =
     (let q = resolve k (components p) in
      case write_open k p fs of
        Err e \<Rightarrow> (fs, Err e)
      | Ok (m, new) \<Rightarrow>
          (let put = (\<lambda>bs. if new then create_node now q (FsFile m bs now) fs else hm_insert q (FsFile m bs now) fs) in
           case gk_write_fault k q content of
             Some (n, e) \<Rightarrow> (put (take n content), Err e)
           | None \<Rightarrow> (put content, Ok ())))"

definition set_permissions :: "guest_kernel \<Rightarrow> string \<Rightarrow> u32 \<Rightarrow> guest_fs \<Rightarrow> guest_fs \<times> (unit, string) result" where
  "set_permissions k p mode fs =
     (let q = resolve k (components p) in
      case hm_get fs q of
        None \<Rightarrow> (fs, Err enoent)
      | Some n \<Rightarrow>
          (case gk_chmod_fault k q of
             Some e \<Rightarrow> (fs, Err e)
           | None \<Rightarrow>
               (hm_insert q (case n of FsFile _ bs t \<Rightarrow> FsFile (mode AND 4095) bs t | FsDir _ t \<Rightarrow> FsDir (mode AND 4095) t) fs,
                Ok ())))"

definition fs_read :: "guest_kernel \<Rightarrow> string \<Rightarrow> guest_fs \<Rightarrow> (byte list, string) result" where
  "fs_read k p fs =
     (let q = resolve k (components p) in
      if nul \<in> set p then Err einval_nul
      else case dir_error fs [] (butlast q) of
        Some e \<Rightarrow> Err e
      | None \<Rightarrow>
          (case hm_get fs q of
             None \<Rightarrow> Err enoent
           | Some (FsDir _ _) \<Rightarrow> Err eisdir
           | Some (FsFile _ bs _) \<Rightarrow>
               if names_dir p then Err enotdir
               else (case gk_read_fault k q of Some e \<Rightarrow> Err e | None \<Rightarrow> Ok bs)))"

definition read_dir :: "guest_kernel \<Rightarrow> string \<Rightarrow> guest_fs \<Rightarrow> ((fs_path \<times> fs_node) list, string) result" where
  "read_dir k p fs =
     (let q = resolve k (components p) in
      if nul \<in> set p then Err einval_nul
      else case dir_error fs [] (butlast q) of
        Some e \<Rightarrow> Err e
      | None \<Rightarrow>
          (case hm_get fs q of
             None \<Rightarrow> Err enoent
           | Some (FsFile _ _ _) \<Rightarrow> Err enotdir
           | Some (FsDir _ _) \<Rightarrow>
               (case gk_read_fault k q of Some e \<Rightarrow> Err e
                | None \<Rightarrow> Ok (filter (\<lambda>(r, _). r \<noteq> [] \<and> butlast r = q) fs))))"

section \<open>The operations of the agent\<close>

definition parent :: "string \<Rightarrow> component list option" where
  "parent p = (let cs = components p in if cs = [] \<or> cs = [RootDir] then None else Some (butlast cs))"

definition write_file ::
  "guest_kernel \<Rightarrow> int \<Rightarrow> string \<Rightarrow> u32 \<Rightarrow> byte list \<Rightarrow> guest_fs \<Rightarrow> guest_fs \<times> (frame, string) result" where
  "write_file k now path mode content fs =
     (case guest_path path of
        Err e \<Rightarrow> (fs, Err e)
      | Ok target \<Rightarrow>
          (case (case parent target of
                   None \<Rightarrow> (fs, Ok ())
                 | Some cs \<Rightarrow> create_dir_all k now cs fs) of
             (fs1, Err e) \<Rightarrow> (fs1, Err (''create parent directory: '' @ e))
           | (fs1, Ok _) \<Rightarrow>
               (case fs_write k now target content fs1 of
                  (fs2, Err e) \<Rightarrow> (fs2, Err (''write '' @ path @ '': '' @ e))
                | (fs2, Ok _) \<Rightarrow>
                    (case set_permissions k target mode fs2 of
                       (fs3, Err e) \<Rightarrow> (fs3, Err (''chmod '' @ path @ '': '' @ e))
                     | (fs3, Ok _) \<Rightarrow> (fs3, Ok (WriteFileResult path))))))"

text \<open>On the 64-bit guests the casts between \<open>u64\<close> and \<open>usize\<close> always succeed.\<close>

definition read_file :: "guest_kernel \<Rightarrow> string \<Rightarrow> u64 \<Rightarrow> u64 \<Rightarrow> guest_fs \<Rightarrow> (frame, string) result" where
  "read_file k path offset len fs =
     (case guest_path path of
        Err e \<Rightarrow> Err e
      | Ok target \<Rightarrow>
          (case fs_read k target fs of
             Err e \<Rightarrow> Err (''read '' @ path @ '': '' @ e)
           | Ok content \<Rightarrow>
               (let start = unat offset in
                if length content < start then Err (''offset beyond end of file: '' @ path)
                else
                  (let stop = min (min (start + unat len) (2 ^ 64 - 1)) (length content)
                   in Ok (ReadFileResult path (drop start (take stop content)))))))"

fun st_mode :: "fs_node \<Rightarrow> u32" where
  "st_mode (FsFile m _ _) = 32768 OR m"
| "st_mode (FsDir m _) = 16384 OR m"

fun st_size :: "guest_kernel \<Rightarrow> fs_node \<Rightarrow> u64" where
  "st_size k (FsFile _ bs _) = of_nat (length bs)"
| "st_size k (FsDir _ _) = gk_dir_size k"

fun st_mtime :: "fs_node \<Rightarrow> int" where
  "st_mtime (FsFile _ _ t) = t"
| "st_mtime (FsDir _ t) = t"

fun is_dir :: "fs_node \<Rightarrow> bool" where
  "is_dir (FsFile _ _ _) = False"
| "is_dir (FsDir _ _) = True"

text \<open>A time before the epoch is shown as zero.\<close>

definition dir_entry_of :: "guest_kernel \<Rightarrow> fs_path \<Rightarrow> fs_node \<Rightarrow> dir_entry" where
  "dir_entry_of k q n = \<lparr>de_name = last q, de_size = st_size k n, de_mode = st_mode n,
     de_mtime = (if st_mtime n < 0 then 0 else of_int (st_mtime n)), de_is_dir = is_dir n\<rparr>"

fun list_entries :: "guest_kernel \<Rightarrow> (fs_path \<times> fs_node) list \<Rightarrow> (dir_entry list, string) result" where
  "list_entries k [] = Ok []"
| "list_entries k ((q, n) # rest) =
     (case gk_entry_fault k q of
        Some e \<Rightarrow> Err (''read directory entry: '' @ e)
      | None \<Rightarrow>
          (case gk_stat_fault k q of
             Some e \<Rightarrow> Err (''stat entry: '' @ e)
           | None \<Rightarrow> map_sum id (\<lambda>es. dir_entry_of k q n # es) (list_entries k rest)))"

definition guest_list_dir :: "guest_kernel \<Rightarrow> string \<Rightarrow> guest_fs \<Rightarrow> (frame, string) result" where
  "guest_list_dir k path fs =
     (case guest_path path of
        Err e \<Rightarrow> Err e
      | Ok target \<Rightarrow>
          (case read_dir k target fs of
             Err e \<Rightarrow> Err (''list '' @ path @ '': '' @ e)
           | Ok entries \<Rightarrow> map_sum id ListDirResult (list_entries k entries)))"
section \<open>Limits\<close>

text \<open>\<open>limits.rs\<close>. The lines of \<open>/proc/self/cgroup\<close>, the mount of the control group hierarchy and the
  four writes that move the agent, the ancestor of every process of the guest, under the limit.\<close>

definition ensure_cgroup2 ::
  "guest_kernel \<Rightarrow> (byte list \<Rightarrow> (string, string) result) \<Rightarrow> int \<Rightarrow> guest_fs \<Rightarrow> guest_fs \<times> (unit, string) result" where
  "ensure_cgroup2 k utf8_of now fs =
     (case (case fs_read k ''/proc/self/cgroup'' fs of Err e \<Rightarrow> Err e | Ok bs \<Rightarrow> utf8_of bs) of
        Err e \<Rightarrow> (fs, Err (''read cgroup: '' @ e))
      | Ok text \<Rightarrow>
          if list_ex (starts_with ''0::'') (split_on (CHR 0x0A) text) then (fs, Ok ())
          else (case create_dir_all k now (components ''/sys/fs/cgroup'') fs of
                  (fs1, Err e) \<Rightarrow> (fs1, Err (''create /sys/fs/cgroup: '' @ e))
                | (fs1, Ok _) \<Rightarrow>
                    (case gk_mount k ''cgroup2'' ''/sys/fs/cgroup'' fs1 of
                       (fs2, MountFailed e) \<Rightarrow> (fs2, Err (''mount cgroup2: '' @ e))
                     | (fs2, _) \<Rightarrow> (fs2, Ok ()))))"

definition apply_pids_max ::
  "guest_kernel \<Rightarrow> (byte list \<Rightarrow> (string, string) result) \<Rightarrow> nat \<Rightarrow> int \<Rightarrow> u32 option \<Rightarrow> guest_fs \<Rightarrow> guest_fs \<times> (unit, string) result" where
  "apply_pids_max k utf8_of own_pid now limit fs =
     (case limit of
        None \<Rightarrow> (fs, Ok ())
      | Some mx \<Rightarrow>
          (case ensure_cgroup2 k utf8_of now fs of
             (fs1, Err e) \<Rightarrow> (fs1, Err e)
           | (fs1, Ok _) \<Rightarrow>
          (case fs_write k now ''/sys/fs/cgroup/cgroup.subtree_control'' (as_bytes ''+pids'') fs1 of
             (fs2, Err e) \<Rightarrow> (fs2, Err (''enable pids controller: '' @ e))
           | (fs2, Ok _) \<Rightarrow>
          (case create_dir_all k now (components ''/sys/fs/cgroup/clouisle'') fs2 of
             (fs3, Err e) \<Rightarrow> (fs3, Err (''create /sys/fs/cgroup/clouisle: '' @ e))
           | (fs3, Ok _) \<Rightarrow>
          (case fs_write k now ''/sys/fs/cgroup/clouisle/pids.max'' (as_bytes (show_nat (unat mx))) fs3 of
             (fs4, Err e) \<Rightarrow> (fs4, Err (''write pids.max: '' @ e))
           | (fs4, Ok _) \<Rightarrow>
          (case fs_write k now ''/sys/fs/cgroup/clouisle/cgroup.procs'' (as_bytes (show_nat own_pid)) fs4 of
             (fs5, Err e) \<Rightarrow> (fs5, Err (''move agent into cgroup: '' @ e))
           | (fs5, Ok _) \<Rightarrow> (fs5, Ok ())))))))"

section \<open>A well-formed tree\<close>

definition dir_at :: "guest_fs \<Rightarrow> fs_path \<Rightarrow> bool" where
  "dir_at fs q \<longleftrightarrow> (\<exists>m t. hm_get fs q = Some (FsDir m t))"

definition fs_ok :: "guest_fs \<Rightarrow> bool" where
  "fs_ok fs \<longleftrightarrow> hm_ok fs \<and> dir_at fs [] \<and> (\<forall>q. q \<noteq> [] \<and> hm_get fs q \<noteq> None \<longrightarrow> dir_at fs (butlast q))"

definition same_files :: "fs_path set \<Rightarrow> guest_fs \<Rightarrow> guest_fs \<Rightarrow> bool" where
  "same_files Q fs fs' \<longleftrightarrow>
     (\<forall>q m bs t. q \<notin> Q \<longrightarrow> (hm_get fs' q = Some (FsFile m bs t) \<longleftrightarrow> hm_get fs q = Some (FsFile m bs t)))"

lemma same_files_refl [simp]: "same_files Q fs fs"
  by (simp add: same_files_def)

lemma same_files_trans: "same_files Q fs fs' \<Longrightarrow> same_files Q fs' fs'' \<Longrightarrow> same_files Q fs fs''"
  by (simp add: same_files_def)

lemma dir_error_None:
  "dir_error fs pre cs = None \<longleftrightarrow> (\<forall>i. 0 < i \<and> i \<le> length cs \<longrightarrow> dir_at fs (pre @ take i cs))"
proof (induction cs arbitrary: pre)
  case (Cons c cs)
  have "(\<forall>i. 0 < i \<and> i \<le> length (c # cs) \<longrightarrow> dir_at fs (pre @ take i (c # cs))) \<longleftrightarrow>
    dir_at fs (pre @ [c]) \<and> (\<forall>i. 0 < i \<and> i \<le> length cs \<longrightarrow> dir_at fs ((pre @ [c]) @ take i cs))"
    (is "?A \<longleftrightarrow> ?B")
  proof
    assume A: ?A
    have "dir_at fs (pre @ [c])" using A [rule_format, of 1] by simp
    moreover have "dir_at fs ((pre @ [c]) @ take i cs)" if "0 < i \<and> i \<le> length cs" for i
      using A [rule_format, of "Suc i"] that by simp
    ultimately show ?B by blast
  next
    assume B: ?B
    show ?A
    proof (intro allI impI)
      fix i assume i: "0 < i \<and> i \<le> length (c # cs)"
      then obtain j where "i = Suc j" by (cases i) auto
      then show "dir_at fs (pre @ take i (c # cs))" using B i by (cases j) auto
    qed
  qed
  then show ?case
    by (auto simp: Cons.IH [of "pre @ [c]"] dir_at_def split: option.splits fs_node.splits)
qed simp

lemma dir_at_touch [simp]: "dir_at (touch now q fs) r \<longleftrightarrow> dir_at fs r"
  by (auto simp: dir_at_def touch_def split: option.split fs_node.split)

lemma touch_None [simp]: "hm_get (touch now q fs) r = None \<longleftrightarrow> hm_get fs r = None"
  by (auto simp: touch_def split: option.split fs_node.split)

lemma touch_ok [simp]: "fs_ok fs \<Longrightarrow> fs_ok (touch now q fs)"
  by (simp add: fs_ok_def) (simp add: touch_def split: option.split fs_node.split)

lemma same_files_touch [simp]: "same_files Q fs (touch now q fs)"
  by (auto simp: same_files_def touch_def split: option.split fs_node.split)

lemma fs_ok_create:
  assumes "fs_ok fs" and "hm_get fs q = None" and "q \<noteq> []" and "dir_at fs (butlast q)"
  shows "fs_ok (create_node now q n fs)"
proof -
  have t: "fs_ok (touch now (butlast q) fs)" using assms(1) by simp
  have neq: "dir_at fs r \<Longrightarrow> r \<noteq> q" for r using assms(2) by (auto simp: dir_at_def)
  have keep: "dir_at (create_node now q n fs) r" if "dir_at fs r" for r
    using that neq [OF that] dir_at_touch [of now "butlast q" fs r]
    by (simp add: create_node_def dir_at_def)
  have "dir_at (create_node now q n fs) (butlast r)" if r: "r \<noteq> []" "hm_get (create_node now q n fs) r \<noteq> None" for r
  proof (cases "r = q")
    case False
    then have "hm_get fs r \<noteq> None" using r touch_None [of now "butlast q" fs r] by (simp add: create_node_def)
    then show ?thesis using r assms(1) keep by (simp add: fs_ok_def)
  qed (use assms keep in simp)
  then show ?thesis using t assms keep by (simp add: fs_ok_def) (simp add: create_node_def)
qed

lemma same_files_create:
  "hm_get fs q = None \<Longrightarrow> q \<in> Q \<or> is_dir n \<Longrightarrow> same_files Q fs (create_node now q n fs)"
  using same_files_touch [of Q fs now "butlast q"] by (cases n) (auto simp: same_files_def create_node_def)

lemma dir_at_create: "dir_at fs r \<Longrightarrow> hm_get fs q = None \<Longrightarrow> dir_at (create_node now q n fs) r"
  using dir_at_touch [of now "butlast q" fs r] by (auto simp: dir_at_def create_node_def)
text \<open>What an operation on one path may do: it keeps the tree, every directory, and every file but
  the one named.\<close>

definition keeps_tree :: "fs_path set \<Rightarrow> guest_fs \<Rightarrow> guest_fs \<Rightarrow> bool" where
  "keeps_tree Q fs fs' \<longleftrightarrow> fs_ok fs' \<and> same_files Q fs fs' \<and> (\<forall>q. dir_at fs q \<longrightarrow> dir_at fs' q)"

lemma keeps_tree_refl: "fs_ok fs \<Longrightarrow> keeps_tree Q fs fs"
  by (simp add: keeps_tree_def)

lemma keeps_tree_trans: "keeps_tree Q fs fs' \<Longrightarrow> keeps_tree Q fs' fs'' \<Longrightarrow> keeps_tree Q fs fs''"
  using same_files_trans by (auto simp: keeps_tree_def)

lemma keeps_tree_mono: "keeps_tree P fs fs' \<Longrightarrow> P \<subseteq> Q \<Longrightarrow> keeps_tree Q fs fs'"
  by (auto simp: keeps_tree_def same_files_def)

lemma keeps_tree_create:
  assumes "fs_ok fs" and "hm_get fs q = None" and "q \<noteq> []" and "dir_at fs (butlast q)" and "q \<in> Q \<or> is_dir n"
  shows "keeps_tree Q fs (create_node now q n fs)"
  using assms fs_ok_create same_files_create dir_at_create by (simp add: keeps_tree_def)

lemma keeps_tree_replace:
  assumes "fs_ok fs" and old: "hm_get fs q = Some n" and "is_dir n' = is_dir n" and "q \<in> Q \<or> is_dir n"
  shows "keeps_tree Q fs (hm_insert q n' fs)"
proof -
  have same: "dir_at (hm_insert q n' fs) r \<longleftrightarrow> dir_at fs r" for r
    using old assms(3) by (cases n; cases n') (auto simp: dir_at_def)
  have "fs_ok (hm_insert q n' fs)" using assms(1) old by (auto simp: fs_ok_def same split: if_splits)
  moreover have "same_files Q fs (hm_insert q n' fs)"
    using assms by (cases n; cases n') (auto simp: same_files_def)
  ultimately show ?thesis by (simp add: keeps_tree_def same)
qed

lemma mkdirs_keeps:
  assumes "fs_ok fs" and "dir_at fs pre" and "mkdirs k now fs pre cs = (fs', r)"
  shows "keeps_tree {} fs fs' \<and> (r = Ok () \<longrightarrow> (\<forall>i\<le>length cs. dir_at fs' (pre @ take i cs)))"
  using assms
proof (induction k now fs pre cs rule: mkdirs.induct)
  case (1 k now fs pre)
  then show ?case by (auto simp: keeps_tree_refl)
next
  case (2 k now fs pre c cs)
  have step: "?case" if fs1: "keeps_tree {} fs fs1" "dir_at fs1 (pre @ [c])"
    and ih: "keeps_tree {} fs1 fs' \<and> (r = Ok () \<longrightarrow> (\<forall>i\<le>length cs. dir_at fs' ((pre @ [c]) @ take i cs)))" for fs1
  proof -
    have "dir_at fs' pre" using "2.prems"(2) fs1 ih by (simp add: keeps_tree_def)
    then have "dir_at fs' (pre @ take i (c # cs))" if "i \<le> length (c # cs)" "r = Ok ()" for i
      using ih that by (cases i) auto
    then show ?thesis using keeps_tree_trans [OF fs1(1)] ih by blast
  qed
  show ?case
  proof (cases "hm_get fs (pre @ [c])")
    case None
    show ?thesis
    proof (cases "gk_refuse k (pre @ [c])")
      case (Some e)
      then show ?thesis using "2.prems" None by (auto simp: Let_def keeps_tree_refl)
    next
      case ok: None
      let ?n = "FsDir (dir_mode k) now"
      have kept: "keeps_tree {} fs (create_node now (pre @ [c]) ?n fs)"
        using keeps_tree_create [OF "2.prems"(1) None] "2.prems"(2) by simp
      have at: "dir_at (create_node now (pre @ [c]) ?n fs) (pre @ [c])"
        by (simp add: dir_at_def create_node_def)
      have run: "mkdirs k now (create_node now (pre @ [c]) ?n fs) (pre @ [c]) cs = (fs', r)"
        using "2.prems"(3) None ok by (simp add: Let_def)
      have "fs_ok (create_node now (pre @ [c]) ?n fs)" using kept by (simp add: keeps_tree_def)
      from "2.IH"(1) [OF refl None ok this at run] show ?thesis by (rule step [OF kept at])
    qed
  next
    case (Some n)
    show ?thesis
    proof (cases n)
      case (FsFile m bs t)
      then show ?thesis using "2.prems" Some by (auto simp: Let_def keeps_tree_refl)
    next
      case (FsDir m t)
      have at: "dir_at fs (pre @ [c])" using Some FsDir by (simp add: dir_at_def)
      have run: "mkdirs k now fs (pre @ [c]) cs = (fs', r)" using "2.prems"(3) Some FsDir by (simp add: Let_def)
      from "2.IH"(2) [OF refl Some FsDir "2.prems"(1) at run] show ?thesis
        by (rule step [OF keeps_tree_refl [OF "2.prems"(1)] at])
    qed
  qed
qed

lemma create_dir_all_keeps:
  assumes "fs_ok fs" and "create_dir_all k now cs fs = (fs', r)"
  shows "keeps_tree {} fs fs'"
proof (cases "has_nul cs")
  case True
  then show ?thesis using assms by (auto simp: create_dir_all_def keeps_tree_refl)
next
  case False
  then show ?thesis
    using assms mkdirs_keeps [OF assms(1), of "[]" k now "resolve k cs" fs' r]
    by (simp add: create_dir_all_def fs_ok_def [of fs])
qed

lemma parent_is_dir:
  assumes "fs_ok fs" and "dir_error fs [] (butlast q) = None"
  shows "dir_at fs (butlast q)"
proof (cases "butlast q = []")
  case False
  then have "0 < length (butlast q)" by blast
  then show ?thesis using assms(2) [unfolded dir_error_None, rule_format, of "length (butlast q)"] by (simp del: length_butlast)
qed (use assms in \<open>simp add: fs_ok_def\<close>)

lemma write_open_cases:
  assumes "write_open k p fs = Ok (m, new)" and "q = resolve k (components p)"
  shows "dir_error fs [] (butlast q) = None" "\<not> names_dir p" "nul \<notin> set p"
    and "new \<Longrightarrow> hm_get fs q = None" and "\<not> new \<Longrightarrow> \<exists>bs t. hm_get fs q = Some (FsFile m bs t)"
  using assms by (auto simp: write_open_def Let_def split: if_splits option.splits fs_node.splits)

lemma fs_write_keeps:
  assumes ok: "fs_ok fs" and run: "fs_write k now p content fs = (fs', r)" and q: "q = resolve k (components p)"
  shows "keeps_tree {q} fs fs'"
    and "r = Ok () \<Longrightarrow> \<exists>m. hm_get fs' q = Some (FsFile m content now)"
    and "r = Ok () \<Longrightarrow> dir_error fs' [] (butlast q) = None \<and> \<not> names_dir p \<and> nul \<notin> set p"
proof -
  have main: "keeps_tree {q} fs fs' \<and> (r = Ok () \<longrightarrow> (\<exists>m. hm_get fs' q = Some (FsFile m content now)) \<and>
      dir_error fs [] (butlast q) = None \<and> \<not> names_dir p \<and> nul \<notin> set p)"
  proof (cases "write_open k p fs")
    case (Inl e)
    then show ?thesis using run ok by (auto simp: fs_write_def Let_def keeps_tree_refl)
  next
    case (Inr x)
    obtain m new where x: "x = (m, new)" by (cases x)
    note c = write_open_cases [OF Inr [unfolded x] q]
    have ne: "q \<noteq> []" if new using c(4) [OF that] ok by (auto simp: fs_ok_def dir_at_def)
    have put: "keeps_tree {q} fs (if new then create_node now q (FsFile m bs now) fs else hm_insert q (FsFile m bs now) fs)" for bs
    proof (cases new)
      case True
      then show ?thesis
        using keeps_tree_create [OF ok c(4) ne parent_is_dir [OF ok c(1)], of "{q}" "FsFile m bs now" now] by simp
    next
      case False
      then obtain bs' t where "hm_get fs q = Some (FsFile m bs' t)" using c(5) by blast
      from keeps_tree_replace [OF ok this, of "FsFile m bs now" "{q}"] show ?thesis using False by simp
    qed
    have "(fs', r) = (case gk_write_fault k q content of
        Some (n, e) \<Rightarrow> ((if new then create_node now q (FsFile m (take n content) now) fs
           else hm_insert q (FsFile m (take n content) now) fs), Err e)
      | None \<Rightarrow> ((if new then create_node now q (FsFile m content now) fs
           else hm_insert q (FsFile m content now) fs), Ok ()))"
      using run Inr x unfolding q by (auto simp: fs_write_def Let_def split: option.splits)
    then show ?thesis using put c(1,2,3) by (auto simp: create_node_def split: option.splits)
  qed
  then show k: "keeps_tree {q} fs fs'" and "r = Ok () \<Longrightarrow> \<exists>m. hm_get fs' q = Some (FsFile m content now)" by auto
  assume "r = Ok ()"
  with main k show "dir_error fs' [] (butlast q) = None \<and> \<not> names_dir p \<and> nul \<notin> set p"
    by (auto simp: dir_error_None keeps_tree_def)
qed

lemma set_permissions_keeps:
  assumes "fs_ok fs" and "set_permissions k p mode fs = (fs', r)" and q: "q = resolve k (components p)"
  shows "keeps_tree {q} fs fs'"
    and "r = Ok () \<Longrightarrow> hm_get fs q = Some (FsFile m bs t) \<Longrightarrow> hm_get fs' q = Some (FsFile (mode AND 4095) bs t)"
proof -
  show "keeps_tree {q} fs fs'"
    using assms keeps_tree_replace [OF assms(1)]
    by (auto simp: set_permissions_def Let_def keeps_tree_refl split: option.splits fs_node.splits)
  show "r = Ok () \<Longrightarrow> hm_get fs q = Some (FsFile m bs t) \<Longrightarrow> hm_get fs' q = Some (FsFile (mode AND 4095) bs t)"
    using assms by (auto simp: set_permissions_def Let_def split: option.splits)
qed

lemma guest_path_Ok: "guest_path p = Ok p' \<longleftrightarrow> p' = p \<and> p \<noteq> [] \<and> ParentDir \<notin> set (components p)"
  by (auto simp: guest_path_def)

lemma write_file_keeps:
  assumes ok: "fs_ok fs" and run: "write_file k now path mode content fs = (fs', r)"
    and q: "q = resolve k (components path)"
  shows "keeps_tree {q} fs fs' \<and>
    (\<forall>f. r = Ok f \<longrightarrow> f = WriteFileResult path \<and> guest_path path = Ok path
       \<and> hm_get fs' q = Some (FsFile (mode AND 4095) content now)
       \<and> dir_error fs' [] (butlast q) = None \<and> \<not> names_dir path \<and> nul \<notin> set path)"
proof (cases "guest_path path")
  case (Inl e)
  then show ?thesis using run ok by (auto simp: write_file_def keeps_tree_refl)
next
  case (Inr target)
  then have t: "target = path" "guest_path path = Ok path" by (auto simp: guest_path_Ok)
  obtain fs1 r1 where d: "(case parent path of None \<Rightarrow> (fs, Ok ()) | Some cs \<Rightarrow> create_dir_all k now cs fs) = (fs1, r1)"
    by fastforce
  have k1: "keeps_tree {q} fs fs1"
    using d ok create_dir_all_keeps keeps_tree_mono by (auto simp: keeps_tree_refl split: option.splits) blast
  show ?thesis
  proof (cases r1)
    case (Inl e)
    then show ?thesis using run t d k1 by (auto simp: write_file_def)
  next
    case o1: (Inr u)
    obtain fs2 r2 where w: "fs_write k now path content fs1 = (fs2, r2)" by fastforce
    have ok1: "fs_ok fs1" using k1 by (simp add: keeps_tree_def)
    note W = fs_write_keeps [OF ok1 w q]
    show ?thesis
    proof (cases r2)
      case (Inl e)
      then show ?thesis using run t d o1 w keeps_tree_trans [OF k1 W(1)] by (auto simp: write_file_def)
    next
      case o2: (Inr u2)
      obtain fs3 r3 where p: "set_permissions k path mode fs2 = (fs3, r3)" by fastforce
      have ok2: "fs_ok fs2" using W(1) by (simp add: keeps_tree_def)
      note P = set_permissions_keeps [OF ok2 p q]
      have k3: "keeps_tree {q} fs fs3" using k1 W(1) P(1) keeps_tree_trans by blast
      have "fs' = fs3" and "r = (case r3 of Err e \<Rightarrow> Err (''chmod '' @ path @ '': '' @ e) | Ok _ \<Rightarrow> Ok (WriteFileResult path))"
        using run t d o1 w o2 p by (auto simp: write_file_def split: sum.splits)
      moreover have "dir_error fs3 [] (butlast q) = None"
        using W(3) P(1) o2 by (simp add: dir_error_None keeps_tree_def)
      ultimately show ?thesis using k3 W(2,3) P(2) o2 t by (auto split: sum.splits)
    qed
  qed
qed
section \<open>Reading back\<close>

lemma read_file_content:
  assumes "guest_path path = Ok path" and q: "q = resolve k (components path)"
    and "hm_get fs q = Some (FsFile m content t)" and "dir_error fs [] (butlast q) = None"
    and "\<not> names_dir path" and "nul \<notin> set path" and "gk_read_fault k q = None"
    and len: "length content < 2 ^ 64"
  shows "read_file k path offset n fs =
    (if length content < unat offset then Err (''offset beyond end of file: '' @ path)
     else Ok (ReadFileResult path (take (unat n) (drop (unat offset) content))))"
proof -
  have "fs_read k path fs = Ok content" using assms by (simp add: fs_read_def Let_def)
  moreover have "drop s (take (min (min (s + l) (2 ^ 64 - 1)) (length content)) content) = take l (drop s content)"
    if "s \<le> length content" for s l
  proof -
    have "min (min (s + l) (2 ^ 64 - 1)) (length content) = min (s + l) (length content)" using len by auto
    then show ?thesis by (simp add: drop_take min_def add.commute)
  qed
  ultimately show ?thesis using assms(1) by (simp add: read_file_def Let_def)
qed

lemma write_then_read:
  assumes "fs_ok fs" and "write_file k now path mode content fs = (fs', Ok f)"
    and "length content < 2 ^ 64" and "gk_read_fault k (resolve k (components path)) = None"
  shows "read_file k path offset n fs' =
    (if length content < unat offset then Err (''offset beyond end of file: '' @ path)
     else Ok (ReadFileResult path (take (unat n) (drop (unat offset) content))))"
  using write_file_keeps [OF assms(1,2) refl] assms(3,4)
  by (intro read_file_content [OF _ refl]) auto

lemma traversal_refused:
  assumes "ParentDir \<in> set (components path)"
  shows "write_file k now path mode content fs = (fs, Err (''path traversal is not allowed: '' @ path))"
    and "read_file k path offset n fs = Err (''path traversal is not allowed: '' @ path)"
    and "guest_list_dir k path fs = Err (''path traversal is not allowed: '' @ path)"
proof -
  have "path \<noteq> []" using assms by (auto simp: components_def starts_with_def component_of_def Let_def)
  then have "guest_path path = Err (''path traversal is not allowed: '' @ path)"
    using assms by (simp add: guest_path_def)
  then show "write_file k now path mode content fs = (fs, Err (''path traversal is not allowed: '' @ path))"
    "read_file k path offset n fs = Err (''path traversal is not allowed: '' @ path)"
    "guest_list_dir k path fs = Err (''path traversal is not allowed: '' @ path)"
    by (simp_all add: write_file_def read_file_def guest_list_dir_def)
qed

text \<open>A path is refused exactly when one of its parts between separators is the parent: a name that
  merely contains two dots is not.\<close>

lemma parent_component_iff: "ParentDir \<in> set (components p) \<longleftrightarrow> ''..'' \<in> set (split_on (CHR ''/'') p)"
  by (auto simp: components_def component_of_def Let_def image_iff)

lemma map_sum_Ok_iff: "map_sum f g r = Ok y \<longleftrightarrow> (\<exists>x. r = Ok x \<and> y = g x)"
  by (cases r) auto

lemma list_entries_Ok:
  "list_entries k xs = Ok es \<Longrightarrow> es = map (\<lambda>(q, n). dir_entry_of k q n) xs"
  by (induction k xs arbitrary: es rule: list_entries.induct) (auto simp: map_sum_Ok_iff split: option.splits)

text \<open>A listing has one entry for each file and directory just below the one named, and no other.\<close>

lemma guest_list_dir_exact:
  assumes "fs_ok fs" and "guest_list_dir k path fs = Ok f" and q: "q = resolve k (components path)"
  obtains es where "f = ListDirResult es" "distinct (map de_name es)"
    "\<And>e. e \<in> set es \<longleftrightarrow> (\<exists>s n. hm_get fs (q @ [s]) = Some n \<and> e = dir_entry_of k (q @ [s]) n)"
proof -
  define xs where "xs = filter (\<lambda>(r, _). r \<noteq> [] \<and> butlast r = q) fs"
  obtain es where es: "f = ListDirResult es" "list_entries k xs = Ok es"
    using assms(2) q
    by (auto simp: guest_list_dir_def read_dir_def Let_def xs_def guest_path_Ok map_sum_Ok_iff split: sum.splits if_splits option.splits fs_node.splits)
  have map: "es = map (\<lambda>(q, n). dir_entry_of k q n) xs" by (rule list_entries_Ok [OF es(2)])
  have d: "distinct (map fst fs)" using assms(1) by (simp add: fs_ok_def hm_ok_def)
  have mem: "(r, n) \<in> set xs \<longleftrightarrow> hm_get fs r = Some n \<and> (\<exists>s. r = q @ [s])" for r n
    using d by (auto simp: xs_def hm_get_def) (metis append_butlast_last_id)
  have "distinct (map fst xs)" using d unfolding xs_def by (rule distinct_map_filter)
  moreover have "inj_on last (fst ` set xs)"
  proof (rule inj_onI)
    fix x y assume "x \<in> fst ` set xs" "y \<in> fst ` set xs" "last x = last y"
    then show "x = y" using mem by (force simp: image_iff)
  qed
  ultimately have "distinct (map last (map fst xs))" by (simp add: distinct_map comp_inj_on)
  moreover have "map de_name es = map last (map fst xs)" by (simp add: map dir_entry_of_def case_prod_beta)
  ultimately have "distinct (map de_name es)" by simp
  moreover have "e \<in> set es \<longleftrightarrow> (\<exists>s n. hm_get fs (q @ [s]) = Some n \<and> e = dir_entry_of k (q @ [s]) n)" for e
  proof
    assume "e \<in> set es"
    then obtain r n where "(r, n) \<in> set xs" "e = dir_entry_of k r n" by (auto simp: map)
    then show "\<exists>s n. hm_get fs (q @ [s]) = Some n \<and> e = dir_entry_of k (q @ [s]) n" using mem [of r n] by blast
  next
    assume "\<exists>s n. hm_get fs (q @ [s]) = Some n \<and> e = dir_entry_of k (q @ [s]) n"
    then obtain s n where sn: "(q @ [s], n) \<in> set xs" "e = dir_entry_of k (q @ [s]) n" using mem [of "q @ [s]" for s] by auto
    show "e \<in> set es" using imageI [OF sn(1), of "\<lambda>(q, n). dir_entry_of k q n"] sn(2) by (simp add: map)
  qed
  ultimately show thesis using that es(1) by blast
qed

end
