(* ===== verification/Guest_Agent.thy ===== *)
theory Guest_Agent
  imports Guest_Files Result_State
begin

text \<open>
  The agent inside the guest, \<open>crates/clouisle-agent/src/serve.rs\<close>: one-shot commands (\<open>run_exec\<close>),
  long-lived processes with their registry, control frames and output pumps, the loop that serves
  one connection (\<open>serve_loop\<close>) and the command line and network set-up of \<open>main.rs\<close> and \<open>init.rs\<close>.

  The processes, pipes and terminals of the guest kernel are a parameter \<open>process_os\<close> over a state
  \<open>'k\<close>; every call may fail and a call that may never return answers \<open>None\<close> then. A task passed to
  \<open>tokio::spawn\<close> is an element of \<open>gs_tasks\<close> that any later step may advance, so every interleaving of
  the pumps with each other and with the frames served is a run of \<open>guest_step\<close>. A connection is a number,
  and what was written to it a list of frames; the bytes are those of \<open>Frame_Codec\<close>.
\<close>

section \<open>Processes\<close>

datatype stdio = OutputPiped | AllPiped | InputNull | OnPty nat nat nat

record command =
  cm_program :: string
  cm_args :: "string list"
  cm_env :: "(string, string) hashmap"
  cm_cwd :: "string option"
  cm_stdio :: stdio
  cm_own_group :: bool

datatype wait_end = Status "u32 option" | WaitFailed string

text \<open>How a read ends: with bytes, none of them at the end of the stream; with an error; not yet, because the
  source is not ready; or with nothing although the source was reported ready. The last is what
  \<open>AsyncFd\<close> reports after the bytes of a terminal have been read.\<close>

datatype read_end = Chunk "byte list" | ReadFailed | Pending | WouldBlock

record 'k process_os =
  po_spawn :: "command \<Rightarrow> 'k \<Rightarrow> 'k \<times> (nat \<times> u32 option, string) result"
  po_wait :: "nat \<Rightarrow> 'k \<Rightarrow> 'k \<times> wait_end option"
  po_wait_for :: "u64 \<Rightarrow> nat \<Rightarrow> 'k \<Rightarrow> 'k \<times> wait_end option"
  po_read_to_end :: "nat \<Rightarrow> bool \<Rightarrow> 'k \<Rightarrow> ('k \<times> byte list) option"
  po_read :: "nat \<Rightarrow> bool \<Rightarrow> nat \<Rightarrow> 'k \<Rightarrow> 'k \<times> read_end"
  po_read_pty :: "nat \<Rightarrow> nat \<Rightarrow> 'k \<Rightarrow> 'k \<times> read_end"
  po_kill :: "int \<Rightarrow> u32 \<Rightarrow> 'k \<Rightarrow> 'k \<times> nat option"
  po_kill_child :: "nat \<Rightarrow> 'k \<Rightarrow> 'k"
  po_strerror :: "nat \<Rightarrow> string"
  po_open_pty :: "u16 \<Rightarrow> u16 \<Rightarrow> 'k \<Rightarrow> 'k \<times> (nat \<times> nat, string) result"
  po_getfl :: "nat \<Rightarrow> 'k \<Rightarrow> 'k \<times> int"
  po_setfl :: "nat \<Rightarrow> int \<Rightarrow> 'k \<Rightarrow> 'k \<times> int"
  po_dup :: "nat \<Rightarrow> 'k \<Rightarrow> 'k \<times> (nat, string) result"
  po_async_fd :: "nat \<Rightarrow> 'k \<Rightarrow> 'k \<times> bool"
  po_winsize :: "nat \<Rightarrow> u16 \<Rightarrow> u16 \<Rightarrow> 'k \<Rightarrow> 'k \<times> nat option"
  po_write_stdin :: "nat \<Rightarrow> byte list \<Rightarrow> 'k \<Rightarrow> ('k \<times> (unit, string) result) option"
  po_close_stdin :: "nat \<Rightarrow> 'k \<Rightarrow> 'k"

record running_process =
  gp_pid :: u32
  gp_child :: nat
  gp_stdin :: "bool option"
  gp_pty :: "nat option"

datatype guest_task =
    PtyPump nat string nat nat
  | OutPump nat string nat
  | ErrPump nat string nat
  | ExitWatch nat string nat
  | KillTimer u32

record 'k agent_env =
  av_postcard :: postcard_ops
  av_kernel :: guest_kernel
  av_os :: "'k process_os"
  av_utf8 :: "byte list \<Rightarrow> (string, string) result"
  av_own_pid :: nat
  av_clock :: "'k \<Rightarrow> int"
  av_debug :: "frame \<Rightarrow> string"
  av_version :: string

record 'k guest =
  gs_fs :: guest_fs
  gs_procs :: "(string, running_process) hashmap"
  gs_poisoned :: bool
  gs_os :: 'k
  gs_sent :: "nat \<Rightarrow> frame list"
  gs_closed :: "nat list"
  gs_tasks :: "guest_task list"

definition exit_code :: "u32 option \<Rightarrow> u32" where
  "exit_code c = (case c of Some n \<Rightarrow> n | None \<Rightarrow> - 1)"

section \<open>One-shot commands\<close>

definition output_frames :: "string \<Rightarrow> u32 \<Rightarrow> byte list \<Rightarrow> byte list \<Rightarrow> frame list" where
  "output_frames i c out err =
     (if out \<noteq> [] then [Stdout i out] else []) @ (if err \<noteq> [] then [Stderr i err] else []) @ [Exited i c]"

definition exec_command :: "string list \<Rightarrow> (string, string) hashmap \<Rightarrow> string option \<Rightarrow> command" where
  "exec_command argv en cwd = \<lparr>cm_program = hd argv, cm_args = tl argv, cm_env = en, cm_cwd = cwd,
     cm_stdio = OutputPiped, cm_own_group = True\<rparr>"

definition group_of :: "u32 \<Rightarrow> int" where
  "group_of pid = - sint pid"

text \<open>The wait with its timeout, and the kill of the whole group when the time is over. \<open>Inl\<close> is the
  error of the wait.\<close>

definition exec_wait ::
  "'k process_os \<Rightarrow> u64 \<Rightarrow> nat \<Rightarrow> u32 option \<Rightarrow> 'k \<Rightarrow> 'k \<times> (u32, string) result" where
  "exec_wait os timeout_ms child pid k =
     (case po_wait_for os timeout_ms child k of
        (k1, Some (Status c)) \<Rightarrow> (k1, Ok (exit_code c))
      | (k1, Some (WaitFailed e)) \<Rightarrow> (k1, Err e)
      | (k1, None) \<Rightarrow>
          (let k2 = (case pid of Some p \<Rightarrow> fst (po_kill os (group_of p) 9 k1) | None \<Rightarrow> k1);
               k3 = po_kill_child os child k2
           in (fst (po_wait os child k3), Ok (- 1))))"

definition run_exec ::
  "'k process_os \<Rightarrow> string \<Rightarrow> string list \<Rightarrow> (string, string) hashmap \<Rightarrow> string option \<Rightarrow> u64 \<Rightarrow> 'k
   \<Rightarrow> ('k \<times> frame list) option" where
  "run_exec os i argv en cwd timeout_ms k =
     (if argv = [] then Some (k, [Exited i (- 1)])
      else case po_spawn os (exec_command argv en cwd) k of
        (k1, Err e) \<Rightarrow> Some (k1, [ErrorFrame (''spawn failed: '' @ e) 3])
      | (k1, Ok (child, pid)) \<Rightarrow>
          (case exec_wait os timeout_ms child pid k1 of
             (k2, Err e) \<Rightarrow> Some (k2, [ErrorFrame (''wait failed: '' @ e) 3])
           | (k2, Ok c) \<Rightarrow>
               Option.bind (po_read_to_end os child False k2) (\<lambda>(k3, out).
               map_option (\<lambda>(k4, err). (k4, output_frames i c out err)) (po_read_to_end os child True k3))))"

section \<open>Long-lived processes\<close>

definition set_nonblocking :: "'k process_os \<Rightarrow> nat \<Rightarrow> ('k, unit, string) comp" where
  "set_nonblocking os fd k =
     (case po_getfl os fd k of
        (k1, fl) \<Rightarrow>
          if fl < 0 then (k1, Err ''fcntl F_GETFL failed'')
          else (case po_setfl os fd (fl OR 2048) k1 of
                  (k2, r) \<Rightarrow> if r < 0 then (k2, Err ''fcntl F_SETFL O_NONBLOCK failed'') else (k2, Ok ())))"

definition dup_slave :: "'k process_os \<Rightarrow> nat \<Rightarrow> ('k, nat, string) comp" where
  "dup_slave os fd k = (case po_dup os fd k of (k1, r) \<Rightarrow> (k1, map_sum (\<lambda>e. ''clone pty slave: '' @ e) id r))"

text \<open>The three ends of the terminal, or the pipes, of the command to start; \<open>Some master\<close> with a terminal.\<close>

definition interactive_io ::
  "'k process_os \<Rightarrow> bool \<Rightarrow> pty_config option \<Rightarrow> ('k, stdio \<times> nat option, string) comp" where
  "interactive_io os stdin_open pty =
     (case pty of
        Some cfg \<Rightarrow>
          and_then (\<lambda>k. po_open_pty os (pc_cols cfg) (pc_rows cfg) k) (\<lambda>(master, slave).
          and_then (set_nonblocking os master) (\<lambda>_.
          and_then (dup_slave os slave) (\<lambda>slave_in.
          and_then (dup_slave os slave) (\<lambda>slave_out.
          ok (OnPty slave_in slave_out slave, Some master)))))
      | None \<Rightarrow> ok (if stdin_open then AllPiped else InputNull, None))"

definition spawn_interactive ::
  "'k process_os \<Rightarrow> string list \<Rightarrow> (string, string) hashmap \<Rightarrow> string option \<Rightarrow> bool \<Rightarrow> pty_config option
   \<Rightarrow> ('k, running_process, string) comp" where
  "spawn_interactive os argv en cwd stdin_open pty =
     (if argv = [] then throw ''argv is required''
      else
        and_then (interactive_io os stdin_open pty) (\<lambda>(io, master).
        and_then (\<lambda>k. case po_spawn os \<lparr>cm_program = hd argv, cm_args = tl argv, cm_env = en, cm_cwd = cwd,
                         cm_stdio = io, cm_own_group = (pty = None)\<rparr> k of
                        (k1, r) \<Rightarrow> (k1, map_sum (\<lambda>e. ''spawn '' @ hd argv @ '': '' @ e) id r)) (\<lambda>(child, pid).
        ok \<lparr>gp_pid = (case pid of Some p \<Rightarrow> p | None \<Rightarrow> 0), gp_child = child,
            gp_stdin = (if pty = None \<and> stdin_open then Some True else None), gp_pty = master\<rparr>)))"

definition lookup_process :: "'k guest \<Rightarrow> string \<Rightarrow> running_process option" where
  "lookup_process g i = (if gs_poisoned g then None else hm_get (gs_procs g) i)"

definition no_process :: "string \<Rightarrow> string" where
  "no_process i = ''process '' @ i @ '' not found''"

text \<open>The control operations. \<open>None\<close> is a write to a full pipe that nobody reads.\<close>

definition send_stdin ::
  "'k process_os \<Rightarrow> string \<Rightarrow> byte list \<Rightarrow> 'k guest \<Rightarrow> ('k guest \<times> (unit, string) result) option" where
  "send_stdin os i chunk g =
     (case lookup_process g i of
        None \<Rightarrow> Some (g, Err (no_process i))
      | Some p \<Rightarrow>
          (case gp_stdin p of
             None \<Rightarrow> Some (g, Err (''process '' @ i @ '' has no open stdin''))
           | Some False \<Rightarrow> Some (g, Err (''process '' @ i @ '' stdin is closed''))
           | Some True \<Rightarrow>
               map_option (\<lambda>(k, r). (g\<lparr>gs_os := k\<rparr>, map_sum (\<lambda>e. ''write stdin '' @ i @ '': '' @ e) id r))
                 (po_write_stdin os (gp_child p) chunk (gs_os g))))"

definition close_stdin :: "'k process_os \<Rightarrow> string \<Rightarrow> 'k guest \<Rightarrow> 'k guest \<times> (unit, string) result" where
  "close_stdin os i g =
     (case lookup_process g i of
        None \<Rightarrow> (g, Err (no_process i))
      | Some p \<Rightarrow>
          (case gp_stdin p of
             None \<Rightarrow> (g, Ok ())
           | Some False \<Rightarrow> (g, Ok ())
           | Some True \<Rightarrow>
               (g\<lparr>gs_procs := hm_insert i (p\<lparr>gp_stdin := Some False\<rparr>) (gs_procs g),
                  gs_os := po_close_stdin os (gp_child p) (gs_os g)\<rparr>, Ok ())))"

text \<open>Only \<open>ENOENT\<close> has the kind \<open>NotFound\<close>; \<open>kill\<close> answers \<open>ESRCH\<close> for a group that is gone.\<close>

definition send_signal ::
  "'k process_os \<Rightarrow> string \<Rightarrow> process_signal \<Rightarrow> 'k guest \<Rightarrow> 'k guest \<times> (unit, string) result" where
  "send_signal os i sig g =
     (case lookup_process g i of
        None \<Rightarrow> (g, Err (no_process i))
      | Some p \<Rightarrow>
          (case po_kill os (group_of (gp_pid p)) (signal_as_i32 sig) (gs_os g) of
             (k, r) \<Rightarrow>
               (g\<lparr>gs_os := k\<rparr>,
                case r of
                  None \<Rightarrow> Ok ()
                | Some errno \<Rightarrow>
                    if errno = 2 then Ok ()
                    else Err (''kill '' @ show_nat (unat (gp_pid p)) @ '': '' @ po_strerror os errno))))"

definition resize_pty ::
  "'k process_os \<Rightarrow> string \<Rightarrow> u16 \<Rightarrow> u16 \<Rightarrow> 'k guest \<Rightarrow> 'k guest \<times> (unit, string) result" where
  "resize_pty os i cols rows g =
     (case lookup_process g i of
        None \<Rightarrow> (g, Err (no_process i))
      | Some p \<Rightarrow>
          (case gp_pty p of
             None \<Rightarrow> (g, Err (''process '' @ i @ '' has no pty''))
           | Some master \<Rightarrow>
               (case po_winsize os master cols rows (gs_os g) of
                  (k, r) \<Rightarrow>
                    (g\<lparr>gs_os := k\<rparr>,
                     case r of None \<Rightarrow> Ok () | Some errno \<Rightarrow> Err (''TIOCSWINSZ failed: '' @ po_strerror os errno)))))"

section \<open>Writing to a connection\<close>

definition guest_write ::
  "'k agent_env \<Rightarrow> nat \<Rightarrow> frame \<Rightarrow> ('k guest, unit, codec_error) comp" where
  "guest_write env c f g =
     (case encode_frame (av_postcard env) f of
        Err e \<Rightarrow> (g, Err e)
      | Ok b \<Rightarrow>
          if c \<in> set (gs_closed g) then (g, Err (CodecIo ''Broken pipe (os error 32)''))
          else (g\<lparr>gs_sent := (gs_sent g)(c := gs_sent g c @ [f])\<rparr>, Ok ()))"

fun guest_write_all :: "'k agent_env \<Rightarrow> nat \<Rightarrow> frame list \<Rightarrow> ('k guest, unit, codec_error) comp" where
  "guest_write_all env c [] = ok ()"
| "guest_write_all env c (f # fs) = and_then (guest_write env c f) (\<lambda>_. guest_write_all env c fs)"

section \<open>The pumps\<close>

text \<open>What \<open>pump_process\<close> does before its first await: with a terminal it reads the master and waits for
  the exit afterwards; with pipes it spawns a task for each and waits for the exit at once. A failed
  duplication of the master ends it there.\<close>

definition pump_start ::
  "'k process_os \<Rightarrow> nat \<Rightarrow> string \<Rightarrow> running_process \<Rightarrow> 'k \<Rightarrow> 'k \<times> guest_task list" where
  "pump_start os c i p k =
     (case gp_pty p of
        None \<Rightarrow> (k, [OutPump c i (gp_child p), ErrPump c i (gp_child p), ExitWatch c i (gp_child p)])
      | Some master \<Rightarrow>
          (case po_dup os master k of
             (k1, Err _) \<Rightarrow> (k1, [])
           | (k1, Ok fd) \<Rightarrow>
               (case po_async_fd os fd (fst (set_nonblocking os fd k1)) of
                  (k2, True) \<Rightarrow> (k2, [PtyPump c i fd (gp_child p)])
                | (k2, False) \<Rightarrow> (k2, [ExitWatch c i (gp_child p)]))))"

text \<open>One read of a pump and the frame it writes; the answer says whether the loop goes on. A read that
  would block comes back from \<open>try_io\<close> as its own error and ends the loop; the branch of the source for it inside
  the result is never taken.\<close>

definition pump_chunk ::
  "'k agent_env \<Rightarrow> nat \<Rightarrow> (byte list \<Rightarrow> frame) \<Rightarrow> read_end \<Rightarrow> 'k guest \<Rightarrow> 'k guest \<times> bool" where
  "pump_chunk env c wrap r g =
     (case r of
        Pending \<Rightarrow> (g, True)
      | ReadFailed \<Rightarrow> (g, False)
      | WouldBlock \<Rightarrow> (g, False)
      | Chunk bs \<Rightarrow>
          if bs = [] then (g, False)
          else (case guest_write env c (wrap bs) g of (g', Ok _) \<Rightarrow> (g', True) | (g', Err _) \<Rightarrow> (g', False)))"

fun run_guest_task :: "'k agent_env \<Rightarrow> guest_task \<Rightarrow> 'k guest \<Rightarrow> 'k guest \<times> guest_task list" where
  "run_guest_task env (PtyPump c i fd child) g =
     (case po_read_pty (av_os env) fd 8192 (gs_os g) of
        (k, r) \<Rightarrow>
          (case pump_chunk env c (Stdout i) r (g\<lparr>gs_os := k\<rparr>) of
             (g', True) \<Rightarrow> (g', [PtyPump c i fd child])
           | (g', False) \<Rightarrow> (g', [ExitWatch c i child])))"
| "run_guest_task env (OutPump c i child) g =
     (case po_read (av_os env) child False 8192 (gs_os g) of
        (k, r) \<Rightarrow>
          (case pump_chunk env c (Stdout i) r (g\<lparr>gs_os := k\<rparr>) of
             (g', True) \<Rightarrow> (g', [OutPump c i child])
           | (g', False) \<Rightarrow> (g', [])))"
| "run_guest_task env (ErrPump c i child) g =
     (case po_read (av_os env) child True 8192 (gs_os g) of
        (k, r) \<Rightarrow>
          (case pump_chunk env c (Stderr i) r (g\<lparr>gs_os := k\<rparr>) of
             (g', True) \<Rightarrow> (g', [ErrPump c i child])
           | (g', False) \<Rightarrow> (g', [])))"
| "run_guest_task env (ExitWatch c i child) g =
     (case po_wait (av_os env) child (gs_os g) of
        (k, None) \<Rightarrow> (g\<lparr>gs_os := k\<rparr>, [ExitWatch c i child])
      | (k, Some e) \<Rightarrow>
          (let status = (case e of Status x \<Rightarrow> exit_code x | WaitFailed _ \<Rightarrow> - 1);
               g1 = g\<lparr>gs_os := k, gs_procs := (if gs_poisoned g then gs_procs g else hm_remove i (gs_procs g))\<rparr>
           in (fst (guest_write env c (Exited i status) g1), [])))"
| "run_guest_task env (KillTimer pid) g =
     (g\<lparr>gs_os := fst (po_kill (av_os env) (group_of pid) 9 (gs_os g))\<rparr>, [])"

definition step_task :: "'k agent_env \<Rightarrow> nat \<Rightarrow> 'k guest \<Rightarrow> 'k guest" where
  "step_task env n g =
     (let ts = gs_tasks g in
      case run_guest_task env (ts ! n) g of
        (g', ts') \<Rightarrow> g'\<lparr>gs_tasks := take n ts @ ts' @ drop (Suc n) ts\<rparr>)"

section \<open>The serve loop\<close>

text \<open>The body of the loop on one frame. A failed write ends the loop with its error; \<open>None\<close> is a frame
  whose handling never ends.\<close>

definition control_response :: "(unit, string) result \<Rightarrow> frame" where
  "control_response r = (case r of Ok _ \<Rightarrow> ControlOk | Err e \<Rightarrow> ErrorFrame e 3)"

definition file_response :: "(frame, string) result \<Rightarrow> frame" where
  "file_response r = (case r of Ok f \<Rightarrow> f | Err e \<Rightarrow> ErrorFrame e 3)"

definition start_process ::
  "'k agent_env \<Rightarrow> nat \<Rightarrow> string \<Rightarrow> u64 \<Rightarrow> running_process \<Rightarrow> ('k guest, unit, codec_error) comp" where
  "start_process env c i timeout_ms p g =
     (if gs_poisoned g then guest_write env c (ErrorFrame ''process registry poisoned'' 3) g
      else and_then (guest_write env c (ProcessStarted i (gp_pid p))) (\<lambda>_ g1.
             case pump_start (av_os env) c i p (gs_os g1) of
               (k, ts) \<Rightarrow>
                 (g1\<lparr>gs_os := k,
                     gs_tasks := gs_tasks g1 @ (if 0 < timeout_ms then [KillTimer (gp_pid p)] else []) @ ts\<rparr>, Ok ()))
             (g\<lparr>gs_procs := hm_insert i p (gs_procs g)\<rparr>))"

definition serve_start ::
  "'k agent_env \<Rightarrow> nat \<Rightarrow> string \<Rightarrow> string list \<Rightarrow> (string, string) hashmap \<Rightarrow> string option \<Rightarrow> u64 \<Rightarrow> bool
   \<Rightarrow> pty_config option \<Rightarrow> ('k guest, unit, codec_error) comp" where
  "serve_start env c i argv en cwd timeout_ms stdin pty g =
     (case spawn_interactive (av_os env) argv en cwd stdin pty (gs_os g) of
        (k, Err e) \<Rightarrow> guest_write env c (ErrorFrame e 3) (g\<lparr>gs_os := k\<rparr>)
      | (k, Ok p) \<Rightarrow> start_process env c i timeout_ms p (g\<lparr>gs_os := k\<rparr>))"

definition answer_control ::
  "'k agent_env \<Rightarrow> nat \<Rightarrow> 'k guest \<times> (unit, string) result \<Rightarrow> 'k guest \<times> (unit, codec_error) result" where
  "answer_control env c x = guest_write env c (control_response (snd x)) (fst x)"

fun serve_frame ::
  "'k agent_env \<Rightarrow> nat \<Rightarrow> frame \<Rightarrow> 'k guest \<Rightarrow> ('k guest \<times> (unit, codec_error) result) option" where
  "serve_frame env c (ApplyLimits pids bw) g =
     (case apply_pids_max (av_kernel env) (av_utf8 env) (av_own_pid env) (av_clock env (gs_os g)) pids (gs_fs g) of
        (fs, r) \<Rightarrow> Some (answer_control env c (g\<lparr>gs_fs := fs\<rparr>, r)))"
| "serve_frame env c (ExecReq i argv en cwd timeout_ms) g =
     map_option (\<lambda>(k, fs). guest_write_all env c fs (g\<lparr>gs_os := k\<rparr>))
       (run_exec (av_os env) i argv en cwd timeout_ms (gs_os g))"
| "serve_frame env c (ProcessStart i argv en cwd timeout_ms stdin pty) g =
     Some (serve_start env c i argv en cwd timeout_ms stdin pty g)"
| "serve_frame env c (Stdin i chunk) g =
     map_option (answer_control env c) (send_stdin (av_os env) i chunk g)"
| "serve_frame env c (StdinEof i) g = Some (answer_control env c (close_stdin (av_os env) i g))"
| "serve_frame env c (Signal i sig) g = Some (answer_control env c (send_signal (av_os env) i sig g))"
| "serve_frame env c (Resize i cols rows) g = Some (answer_control env c (resize_pty (av_os env) i cols rows g))"
| "serve_frame env c (WriteFile path mode content) g =
     (case write_file (av_kernel env) (av_clock env (gs_os g)) path mode content (gs_fs g) of
        (fs, r) \<Rightarrow> Some (guest_write env c (file_response r) (g\<lparr>gs_fs := fs\<rparr>)))"
| "serve_frame env c (ReadFile path offset len) g =
     Some (guest_write env c (file_response (read_file (av_kernel env) path offset len (gs_fs g))) g)"
| "serve_frame env c (ListDir path) g =
     Some (guest_write env c (file_response (guest_list_dir (av_kernel env) path (gs_fs g))) g)"
| "serve_frame env c Ping g = Some (guest_write env c Pong g)"
| "serve_frame env c (Hello _) g = Some (guest_write env c (Hello (av_version env)) g)"
| "serve_frame env c f g =
     Some (guest_write env c (ErrorFrame (''unsupported frame: '' @ av_debug env f) 4) g)"

lemma read_frame_shorter: "read_frame ops r = (r1, Ok f) \<Longrightarrow> length r1 < length r"
  by (auto simp: read_frame_def read_exact_def FRAME_HEADER_LEN_def Let_def split: if_splits sum.splits option.splits)

text \<open>The loop over the bytes a connection delivers. It ends with the first error of the codec, at the
  latest the end of the stream, unless it is stuck in a frame; the guest is then the one before that frame.\<close>

datatype loop_end = Ended codec_error | Stuck

function serve_loop ::
  "'k agent_env \<Rightarrow> nat \<Rightarrow> byte list \<Rightarrow> 'k guest \<Rightarrow> 'k guest \<times> loop_end" where
  "serve_loop env c r g =
     (case read_frame (av_postcard env) r of
        (r1, Err e) \<Rightarrow> (g, Ended e)
      | (r1, Ok f) \<Rightarrow>
          (case serve_frame env c f g of
             None \<Rightarrow> (g, Stuck)
           | Some (g1, Err e) \<Rightarrow> (g1, Ended e)
           | Some (g1, Ok _) \<Rightarrow> serve_loop env c r1 g1))"
  by pat_completeness auto
termination
  by (relation "measure (\<lambda>(env, c, r, g). length r)") (auto dest: read_frame_shorter [OF sym])

declare serve_loop.simps [simp del]

section \<open>Steps of the guest\<close>

text \<open>A step serves a frame, advances a task or loses a connection.\<close>

definition close_conn :: "nat \<Rightarrow> 'k guest \<Rightarrow> 'k guest" where
  "close_conn c g = g\<lparr>gs_closed := c # gs_closed g\<rparr>"

datatype guest_label = Served nat frame | Advanced nat | Lost nat

inductive guest_step :: "'k agent_env \<Rightarrow> 'k guest \<Rightarrow> guest_label \<Rightarrow> 'k guest \<Rightarrow> bool" for env where
  Serve: "serve_frame env c f g = Some (g', r) \<Longrightarrow> guest_step env g (Served c f) g'"
| Advance: "n < length (gs_tasks g) \<Longrightarrow> guest_step env g (Advanced n) (step_task env n g)"
| Lose: "guest_step env g (Lost c) (close_conn c g)"

inductive guest_run :: "'k agent_env \<Rightarrow> 'k guest \<Rightarrow> guest_label list \<Rightarrow> 'k guest \<Rightarrow> bool" for env where
  Stop: "guest_run env g [] g"
| More: "guest_run env g ls g1 \<Longrightarrow> guest_step env g1 l g2 \<Longrightarrow> guest_run env g (ls @ [l]) g2"

inductive_cases guest_stepE: "guest_step env g l g'"

section \<open>What a frame can send and start\<close>

fun of_process :: "string \<Rightarrow> frame \<Rightarrow> bool" where
  "of_process i (Stdout j _) = (j = i)"
| "of_process i (Stderr j _) = (j = i)"
| "of_process i (Exited j _) = (j = i)"
| "of_process i _ = False"

fun task_of :: "string \<Rightarrow> guest_task \<Rightarrow> bool" where
  "task_of i (PtyPump _ j _ _) = (j = i)"
| "task_of i (OutPump _ j _) = (j = i)"
| "task_of i (ErrPump _ j _) = (j = i)"
| "task_of i (ExitWatch _ j _) = (j = i)"
| "task_of i (KillTimer _) = False"

fun names_process :: "string \<Rightarrow> frame \<Rightarrow> bool" where
  "names_process i (ExecReq j _ _ _ _) = (j = i)"
| "names_process i (ProcessStart j _ _ _ _ _ _) = (j = i)"
| "names_process i _ = False"

text \<open>\<open>extends i c g g'\<close>: nothing of process \<open>i\<close> was sent on any connection, nothing was taken back, and
  no task of \<open>i\<close> was added, removed or moved.\<close>

definition extends :: "string \<Rightarrow> 'k guest \<Rightarrow> 'k guest \<Rightarrow> bool" where
  "extends i g g' \<longleftrightarrow>
     (\<forall>c. \<exists>fs. gs_sent g' c = gs_sent g c @ fs \<and> (\<forall>f\<in>set fs. \<not> of_process i f)) \<and>
     filter (task_of i) (gs_tasks g') = filter (task_of i) (gs_tasks g)"

lemma extends_refl: "gs_sent g' = gs_sent g \<Longrightarrow> gs_tasks g' = gs_tasks g \<Longrightarrow> extends i g g'"
  by (auto simp: extends_def)

lemma extends_trans: "extends i g g' \<Longrightarrow> extends i g' g'' \<Longrightarrow> extends i g g''"
  unfolding extends_def by (auto, metis append.assoc UnE set_append)

interpretation extends_order: state_preorder "extends i"
  by unfold_locales (auto intro: extends_refl extends_trans)

lemma extends_write: "\<not> of_process i f \<Longrightarrow> extends i g (fst (guest_write env c f g))"
  by (auto simp: guest_write_def extends_def split: sum.split)

lemma extends_write_all: "(\<And>f. f \<in> set fs \<Longrightarrow> \<not> of_process i f) \<Longrightarrow> extends i g (fst (guest_write_all env c fs g))"
proof (induction fs arbitrary: g)
  case (Cons f fs)
  then show ?case using extends_write [of i f]
    by (auto intro!: extends_order.and_then_at)
qed (simp add: ok_def extends_refl)

lemma extends_write_after:
  "extends i g g1 \<Longrightarrow> \<not> of_process i f \<Longrightarrow> extends i g (fst (guest_write env c f g1))"
  using extends_trans extends_write by blast

lemma output_frames_silent: "[Exited i c] = output_frames i c [] []"
  by (simp add: output_frames_def)

lemma run_exec_frames:
  assumes "run_exec os i argv en cwd t k = Some (k', fs)"
  shows "(\<exists>c out err. fs = output_frames i c out err) \<or> (\<exists>e. fs = [ErrorFrame e 3])"
proof (cases "argv = []")
  case True
  then show ?thesis using assms output_frames_silent by (auto simp: run_exec_def)
next
  case False
  then show ?thesis using assms
    by (auto simp: run_exec_def split: prod.splits sum.splits bind_splits)
qed

lemma output_frames_of: "f \<in> set (output_frames j c out err) \<Longrightarrow> of_process i f \<Longrightarrow> j = i"
  by (auto simp: output_frames_def split: if_splits)

lemma pump_start_tasks: "t \<in> set (snd (pump_start os c j p k)) \<Longrightarrow> task_of i t \<Longrightarrow> j = i"
  by (auto simp: pump_start_def split: option.splits prod.splits sum.splits bool.splits)

lemma control_response_of [simp]: "\<not> of_process i (control_response r)"
  by (cases r) (simp_all add: control_response_def)

lemma file_response_of:
  "\<not> of_process i (file_response (read_file k path offset n fs))"
  "\<not> of_process i (file_response (guest_list_dir k path fs))"
  "\<not> of_process i (file_response (snd (write_file k now path mode content fs)))"
  by (auto simp: file_response_def read_file_def guest_list_dir_def write_file_def Let_def map_sum_Ok_iff
      split: sum.splits prod.splits option.splits if_splits)

lemma extends_start_process:
  assumes "j \<noteq> i"
  shows "extends i g (fst (start_process env c j t p g))"
proof -
  have "extends i g1 (fst (case pump_start (av_os env) c j p (gs_os g1) of (k, ts) \<Rightarrow>
      (g1\<lparr>gs_os := k, gs_tasks := gs_tasks g1 @ (if 0 < t then [KillTimer (gp_pid p)] else []) @ ts\<rparr>, Ok ())))" for g1
    using pump_start_tasks [of _ "av_os env" c j p "gs_os g1" i] assms
    by (auto simp: extends_def filter_empty_conv split: prod.split)
  then have "extends i (g\<lparr>gs_procs := q\<rparr>) (fst (and_then (guest_write env c (ProcessStarted j (gp_pid p))) (\<lambda>_ g1.
      case pump_start (av_os env) c j p (gs_os g1) of (k, ts) \<Rightarrow>
        (g1\<lparr>gs_os := k, gs_tasks := gs_tasks g1 @ (if 0 < t then [KillTimer (gp_pid p)] else []) @ ts\<rparr>, Ok ()))
      (g\<lparr>gs_procs := q\<rparr>)))" for q
    by (intro extends_order.and_then_at extends_write) auto
  then have "extends i g (fst (and_then (guest_write env c (ProcessStarted j (gp_pid p))) (\<lambda>_ g1.
      case pump_start (av_os env) c j p (gs_os g1) of (k, ts) \<Rightarrow>
        (g1\<lparr>gs_os := k, gs_tasks := gs_tasks g1 @ (if 0 < t then [KillTimer (gp_pid p)] else []) @ ts\<rparr>, Ok ()))
      (g\<lparr>gs_procs := q\<rparr>)))" for q
    using extends_trans [OF extends_refl [of "g\<lparr>gs_procs := q\<rparr>" g i]] by simp
  then show ?thesis unfolding start_process_def by (simp add: extends_write)
qed

lemma extends_control:
  "gs_sent (fst x) = gs_sent g \<Longrightarrow> gs_tasks (fst x) = gs_tasks g \<Longrightarrow> extends i g (fst (answer_control env c x))"
  unfolding answer_control_def by (rule extends_write_after) (auto intro: extends_refl)

lemma extends_os_write: "\<not> of_process i f \<Longrightarrow> extends i g (fst (guest_write env c f (g\<lparr>gs_os := k\<rparr>)))"
  by (rule extends_write_after) (auto intro: extends_refl)

lemma extends_writeE:
  "guest_write env c f g1 = (g', r) \<Longrightarrow> extends i g g1 \<Longrightarrow> \<not> of_process i f \<Longrightarrow> extends i g g'"
  by (metis extends_write_after fst_conv)

lemma extends_controlE:
  "answer_control env c x = (g', r) \<Longrightarrow> gs_sent (fst x) = gs_sent g \<Longrightarrow> gs_tasks (fst x) = gs_tasks g \<Longrightarrow> extends i g g'"
  by (metis extends_control fst_conv)

lemma send_stdin_frame:
  "send_stdin os j chunk g = Some (g', r) \<Longrightarrow> gs_sent g' = gs_sent g \<and> gs_tasks g' = gs_tasks g"
  by (auto simp: send_stdin_def split: option.splits bool.splits)

lemma control_frame:
  "gs_sent (fst (close_stdin os j g)) = gs_sent g" "gs_tasks (fst (close_stdin os j g)) = gs_tasks g"
  "gs_sent (fst (send_signal os j sig g)) = gs_sent g" "gs_tasks (fst (send_signal os j sig g)) = gs_tasks g"
  "gs_sent (fst (resize_pty os j cols rows g)) = gs_sent g" "gs_tasks (fst (resize_pty os j cols rows g)) = gs_tasks g"
  by (auto simp: close_stdin_def send_signal_def resize_pty_def split: option.split bool.split prod.split)

lemma serve_frame_extends:
  assumes "serve_frame env c f g = Some (g', r)" and "\<not> names_process i f"
  shows "extends i g g'"
proof (cases f)
  case (ExecReq j argv en cwd t)
  then obtain k fs where ex: "run_exec (av_os env) j argv en cwd t (gs_os g) = Some (k, fs)"
    and g': "(g', r) = guest_write_all env c fs (g\<lparr>gs_os := k\<rparr>)"
    using assms(1) by auto
  have "\<not> of_process i h" if "h \<in> set fs" for h
    using run_exec_frames [OF ex] that output_frames_of assms(2) ExecReq by fastforce
  then have "extends i (g\<lparr>gs_os := k\<rparr>) (fst (guest_write_all env c fs (g\<lparr>gs_os := k\<rparr>)))" by (rule extends_write_all)
  then have "extends i (g\<lparr>gs_os := k\<rparr>) g'" using g' by (metis fst_conv)
  then show ?thesis using extends_trans [OF extends_refl [of "g\<lparr>gs_os := k\<rparr>" g i]] by simp
next
  case (ProcessStart j argv en cwd t stdin pty)
  then have "j \<noteq> i" using assms(2) by simp
  moreover have "g' = fst (serve_start env c j argv en cwd t stdin pty g)" using assms(1) ProcessStart by simp
  moreover have "extends i g (fst (start_process env c j t p (g\<lparr>gs_os := k\<rparr>)))" if "j \<noteq> i" for p k
    by (rule extends_trans [OF _ extends_start_process [OF that]]) (simp add: extends_refl)
  ultimately show ?thesis by (auto simp: serve_start_def extends_os_write split: prod.split sum.split)
next
  case (WriteFile path mode content)
  then show ?thesis
    using assms(1) file_response_of(3) by (auto simp: extends_refl split: prod.splits elim!: extends_writeE) (metis snd_conv)
next
  case (Stdin j chunk)
  then show ?thesis using assms(1) by (auto dest: send_stdin_frame elim!: extends_controlE)
next
  case (ApplyLimits pids bw)
  then show ?thesis using assms(1) by (auto split: prod.splits elim!: extends_controlE)
qed (use assms file_response_of in \<open>auto simp: extends_refl control_frame elim!: extends_writeE extends_controlE\<close>)

end
