(* ===== verification/Agent_Client.thy ===== *)
theory Agent_Client
  imports App_State Guest_Agent
begin

text \<open>
  The host side of a guest connection, \<open>crates/clouisle-api/src/agent.rs\<close>: the connector
  (\<open>VsockAgentConnector\<close>, \<open>DockerDevAgentConnector\<close>) and the operations of \<open>VsockFrameConnection\<close>.

  A connection holds the bytes that have arrived and the peer at the other end, a function from the
  bytes it is sent to the bytes it answers and whether it then closes. The host cannot tell a peer that
  answers nothing more from one that is slow: a read that finds too few bytes on an open connection is
  the value \<open>Never\<close>. The locale \<open>answering_peer\<close> is the contract of a peer that answers a frame with frames;
  the client's operations are proved against it and it is interpreted on the guest agent.
\<close>

section \<open>Connections\<close>

datatype 'e stop = Never | Fails 'e

record 'g conn =
  ac_in :: "byte list"
  ac_eof :: bool
  ac_fault :: "(nat \<times> string) option"
  ac_peer :: 'g

type_synonym 'g peer = "byte list \<Rightarrow> 'g \<Rightarrow> 'g \<times> byte list \<times> bool"

type_synonym ('g, 'a) client = "('g conn, 'a, clouisle_error stop) comp"

fun codec_display :: "codec_error \<Rightarrow> string" where
  "codec_display (FrameTruncated expected got) =
     ''frame truncated: expected '' @ show_nat expected @ '' bytes, got '' @ show_nat got"
| "codec_display (Decode e) = ''postcard decode failed: '' @ e"
| "codec_display (CodecIo e) = ''io error: '' @ e"

definition conn_send :: "postcard_ops \<Rightarrow> 'g peer \<Rightarrow> string \<Rightarrow> frame \<Rightarrow> ('g, unit) client" where
  "conn_send ops peer what f c =
     (case write_frame ops (ac_fault c) f [] of
        (bytes, r) \<Rightarrow>
          (case peer bytes (ac_peer c) of
             (g, answer, closes) \<Rightarrow>
               (c\<lparr>ac_in := ac_in c @ (if ac_eof c then [] else answer), ac_eof := (ac_eof c \<or> closes), ac_peer := g\<rparr>,
                map_sum (\<lambda>e. Fails (io_error (what @ '': '' @ codec_display e))) id r)))"

definition conn_read :: "postcard_ops \<Rightarrow> string \<Rightarrow> ('g, frame) client" where
  "conn_read ops what c =
     (case read_frame ops (ac_in c) of
        (rest, r) \<Rightarrow>
          (c\<lparr>ac_in := rest\<rparr>,
           case r of
             Ok f \<Rightarrow> Ok f
           | Err (CodecIo e) \<Rightarrow> if ac_eof c then Err (Fails (io_error (what @ '': '' @ codec_display (CodecIo e)))) else Err Never
           | Err e \<Rightarrow> Err (Fails (io_error (what @ '': '' @ codec_display e)))))"

definition refused :: "clouisle_error \<Rightarrow> ('g, 'a) client" where
  "refused e = throw (Fails e)"

definition unexpected_frame :: "(frame \<Rightarrow> string) \<Rightarrow> string \<Rightarrow> frame \<Rightarrow> ('g, 'a) client" where
  "unexpected_frame dbg what f = refused (invalid_state (''unexpected frame for '' @ what @ '': '' @ dbg f))"

section \<open>Files and control\<close>

definition str_contains :: "string \<Rightarrow> string \<Rightarrow> bool" where
  "str_contains p s \<longleftrightarrow> list_ex (\<lambda>i. starts_with p (drop i s)) [0..<Suc (length s)]"

definition guest_fs_error :: "string \<Rightarrow> string \<Rightarrow> string \<Rightarrow> clouisle_error" where
  "guest_fs_error oper path message =
     (let lower = to_ascii_lowercase message; text = ''guest '' @ oper @ '' '' @ path @ '': '' @ message in
      if str_contains ''no such file'' lower \<or> str_contains ''not found'' lower \<or> str_contains ''no such directory'' lower
      then not_found text else new_error EkVmm text)"

definition conn_write_file ::
  "postcard_ops \<Rightarrow> (frame \<Rightarrow> string) \<Rightarrow> 'g peer \<Rightarrow> string \<Rightarrow> byte list \<Rightarrow> u32 \<Rightarrow> ('g, unit) client" where
  "conn_write_file ops dbg peer path content mode =
     and_then (conn_send ops peer (''send WriteFile '' @ path) (WriteFile path mode content)) (\<lambda>_.
     and_then (conn_read ops (''read WriteFile response '' @ path)) (\<lambda>f.
     case f of
       WriteFileResult _ \<Rightarrow> ok ()
     | ErrorFrame message _ \<Rightarrow> refused (io_error (''guest write_file '' @ path @ '': '' @ message))
     | _ \<Rightarrow> unexpected_frame dbg ''WriteFile'' f))"

definition conn_read_file ::
  "postcard_ops \<Rightarrow> (frame \<Rightarrow> string) \<Rightarrow> 'g peer \<Rightarrow> string \<Rightarrow> ('g, byte list) client" where
  "conn_read_file ops dbg peer path =
     and_then (conn_send ops peer (''send ReadFile '' @ path) (ReadFile path 0 (- 1))) (\<lambda>_.
     and_then (conn_read ops ''read ReadFile response'') (\<lambda>f.
     case f of
       ReadFileResult _ content \<Rightarrow> ok content
     | ErrorFrame message _ \<Rightarrow> refused (guest_fs_error ''read_file'' path message)
     | _ \<Rightarrow> unexpected_frame dbg ''ReadFile'' f))"

definition listed_of :: "dir_entry \<Rightarrow> listed_file" where
  "listed_of e = \<lparr>lf_name = de_name e, lf_size = de_size e, lf_mode = de_mode e, lf_mtime = sint (de_mtime e),
     lf_is_dir = de_is_dir e\<rparr>"

definition conn_list_dir ::
  "postcard_ops \<Rightarrow> (frame \<Rightarrow> string) \<Rightarrow> 'g peer \<Rightarrow> string \<Rightarrow> ('g, listed_file list) client" where
  "conn_list_dir ops dbg peer path =
     and_then (conn_send ops peer (''send ListDir '' @ path) (ListDir path)) (\<lambda>_.
     and_then (conn_read ops ''read ListDir response'') (\<lambda>f.
     case f of
       ListDirResult entries \<Rightarrow> ok (map listed_of entries)
     | ErrorFrame message _ \<Rightarrow> refused (guest_fs_error ''list_dir'' path message)
     | _ \<Rightarrow> unexpected_frame dbg ''ListDir'' f))"

definition conn_ping :: "postcard_ops \<Rightarrow> (frame \<Rightarrow> string) \<Rightarrow> 'g peer \<Rightarrow> ('g, unit) client" where
  "conn_ping ops dbg peer =
     and_then (conn_send ops peer ''send Ping'' Ping) (\<lambda>_.
     and_then (conn_read ops ''read Pong'') (\<lambda>f.
     case f of
       Pong \<Rightarrow> ok ()
     | ErrorFrame message _ \<Rightarrow> refused (new_error EkVmm (''guest ping: '' @ message))
     | _ \<Rightarrow> unexpected_frame dbg ''Ping'' f))"

text \<open>The five calls answered by \<open>ControlOk\<close> differ in their frame and in their texts.\<close>

definition conn_control ::
  "postcard_ops \<Rightarrow> (frame \<Rightarrow> string) \<Rightarrow> 'g peer \<Rightarrow> string \<Rightarrow> string \<Rightarrow> string \<Rightarrow> frame \<Rightarrow> ('g, unit) client" where
  "conn_control ops dbg peer name ack what f =
     and_then (conn_send ops peer (''send '' @ name) f) (\<lambda>_.
     and_then (conn_read ops (''read '' @ name @ ack)) (\<lambda>h.
     case h of
       ControlOk \<Rightarrow> ok ()
     | ErrorFrame message _ \<Rightarrow> refused (new_error EkVmm (''guest '' @ what @ '': '' @ message))
     | _ \<Rightarrow> unexpected_frame dbg name h))"

definition conn_apply_limits :: "postcard_ops \<Rightarrow> (frame \<Rightarrow> string) \<Rightarrow> 'g peer \<Rightarrow> u32 option \<Rightarrow> ('g, unit) client" where
  "conn_apply_limits ops dbg peer pids = conn_control ops dbg peer ''ApplyLimits'' '' response'' ''apply_limits'' (ApplyLimits pids None)"

definition conn_send_stdin :: "postcard_ops \<Rightarrow> (frame \<Rightarrow> string) \<Rightarrow> 'g peer \<Rightarrow> string \<Rightarrow> byte list \<Rightarrow> ('g, unit) client" where
  "conn_send_stdin ops dbg peer i chunk = conn_control ops dbg peer ''Stdin'' '' ack'' ''stdin'' (Stdin i chunk)"

definition conn_close_stdin :: "postcard_ops \<Rightarrow> (frame \<Rightarrow> string) \<Rightarrow> 'g peer \<Rightarrow> string \<Rightarrow> ('g, unit) client" where
  "conn_close_stdin ops dbg peer i = conn_control ops dbg peer ''StdinEof'' '' ack'' ''stdin eof'' (StdinEof i)"

definition conn_send_signal :: "postcard_ops \<Rightarrow> (frame \<Rightarrow> string) \<Rightarrow> 'g peer \<Rightarrow> string \<Rightarrow> process_signal \<Rightarrow> ('g, unit) client" where
  "conn_send_signal ops dbg peer i sig = conn_control ops dbg peer ''Signal'' '' ack'' ''signal'' (Signal i sig)"

definition conn_resize_pty :: "postcard_ops \<Rightarrow> (frame \<Rightarrow> string) \<Rightarrow> 'g peer \<Rightarrow> string \<Rightarrow> u16 \<Rightarrow> u16 \<Rightarrow> ('g, unit) client" where
  "conn_resize_pty ops dbg peer i cols rows = conn_control ops dbg peer ''Resize'' '' ack'' ''resize'' (Resize i cols rows)"

definition conn_start_process ::
  "postcard_ops \<Rightarrow> (frame \<Rightarrow> string) \<Rightarrow> 'g peer \<Rightarrow> string \<Rightarrow> string list \<Rightarrow> (string, string) hashmap \<Rightarrow> string option \<Rightarrow> u64
   \<Rightarrow> bool \<Rightarrow> pty_config option \<Rightarrow> ('g, string) client" where
  "conn_start_process ops dbg peer i argv en cwd timeout_ms stdin pty =
     and_then (conn_send ops peer ''send ProcessStart'' (ProcessStart i argv en cwd timeout_ms stdin pty)) (\<lambda>_.
     and_then (conn_read ops ''read ProcessStarted'') (\<lambda>f.
     case f of
       ProcessStarted got _ \<Rightarrow> if got = i then ok i else unexpected_frame dbg ''ProcessStart'' f
     | ErrorFrame message _ \<Rightarrow> refused (new_error EkVmm message)
     | _ \<Rightarrow> unexpected_frame dbg ''ProcessStart'' f))"

section \<open>Streams of events\<close>

text \<open>What the \<open>n\<close>-th send into the channel of the caller does: it is taken, the receiver is gone, or the
  channel is full and nobody will empty it.\<close>

datatype send_end = Taken | Gone | Full

fun event_of :: "string \<Rightarrow> frame \<Rightarrow> exec_stream_event option" where
  "event_of i (Stdout j chunk) = (if j = i then Some (EvStdout chunk) else None)"
| "event_of i (Stderr j chunk) = (if j = i then Some (EvStderr chunk) else None)"
| "event_of i (Exited j c) = (if j = i then Some (EvExit (sint c)) else None)"
| "event_of i f = None"

fun is_exit :: "exec_stream_event \<Rightarrow> bool" where
  "is_exit (EvExit _) = True"
| "is_exit _ = False"

text \<open>The read loops of \<open>exec_stream\<close> and \<open>stream_process_events\<close>, which differ in the text of a failed
  read, in what they answer when the receiver is gone and in what they say of an error or of another frame.
  The node daemon reads its guests with the same loop. The exit is
  sent without looking at the outcome and ends the loop.\<close>

record stream_texts =
  sx_read :: string
  sx_gone :: "(unit, clouisle_error) result"
  sx_error :: "string \<Rightarrow> clouisle_error"
  sx_other :: "frame \<Rightarrow> clouisle_error"

function conn_stream ::
  "postcard_ops \<Rightarrow> stream_texts \<Rightarrow> string \<Rightarrow> (nat \<Rightarrow> send_end) \<Rightarrow> nat \<Rightarrow> 'g conn
   \<Rightarrow> 'g conn \<times> exec_stream_event list \<times> (unit, clouisle_error stop) result" where
  "conn_stream ops tx i send n c =
     (case read_frame ops (ac_in c) of
        (rest, Err (CodecIo e)) \<Rightarrow>
          (c\<lparr>ac_in := rest\<rparr>, [],
           Err (if ac_eof c then Fails (io_error (sx_read tx @ '': '' @ codec_display (CodecIo e))) else Never))
      | (rest, Err e) \<Rightarrow> (c\<lparr>ac_in := rest\<rparr>, [], Err (Fails (io_error (sx_read tx @ '': '' @ codec_display e))))
      | (rest, Ok f) \<Rightarrow>
          (case event_of i f of
             None \<Rightarrow>
               (c\<lparr>ac_in := rest\<rparr>, [],
                Err (Fails (case f of ErrorFrame message _ \<Rightarrow> sx_error tx message | _ \<Rightarrow> sx_other tx f)))
           | Some ev \<Rightarrow>
               (case send n of
                  Full \<Rightarrow> (c\<lparr>ac_in := rest\<rparr>, [], Err Never)
                | Gone \<Rightarrow> (c\<lparr>ac_in := rest\<rparr>, [], if is_exit ev then Ok () else map_sum Fails id (sx_gone tx))
                | Taken \<Rightarrow>
                    if is_exit ev then (c\<lparr>ac_in := rest\<rparr>, [ev], Ok ())
                    else (case conn_stream ops tx i send (Suc n) (c\<lparr>ac_in := rest\<rparr>) of
                            (c', evs, r) \<Rightarrow> (c', ev # evs, r)))))"
  by pat_completeness auto
termination
  by (relation "measure (\<lambda>(ops, tx, i, send, n, c). length (ac_in c))") (auto dest: read_frame_shorter [OF sym])

declare conn_stream.simps [simp del]

definition exec_texts :: stream_texts where
  "exec_texts = \<lparr>sx_read = ''read streamed exec response'', sx_gone = Ok (), sx_error = new_error EkVmm,
     sx_other = (\<lambda>f. invalid_state ''unexpected streamed guest frame'')\<rparr>"

definition process_texts :: "(frame \<Rightarrow> string) \<Rightarrow> stream_texts" where
  "process_texts dbg = \<lparr>sx_read = ''read interactive process output'', sx_gone = Err (invalid_state ''process stream closed''),
     sx_error = new_error EkVmm, sx_other = (\<lambda>f. invalid_state (''unexpected interactive frame: '' @ dbg f))\<rparr>"

definition conn_exec_stream ::
  "postcard_ops \<Rightarrow> 'g peer \<Rightarrow> string \<Rightarrow> string list \<Rightarrow> (string, string) hashmap \<Rightarrow> string option \<Rightarrow> u64 \<Rightarrow> (nat \<Rightarrow> send_end)
   \<Rightarrow> 'g conn \<Rightarrow> 'g conn \<times> exec_stream_event list \<times> (unit, clouisle_error stop) result" where
  "conn_exec_stream ops peer i argv en cwd timeout_ms send c =
     (case conn_send ops peer ''send streamed ExecReq'' (ExecReq i argv en cwd timeout_ms) c of
        (c1, Err e) \<Rightarrow> (c1, [], Err e)
      | (c1, Ok _) \<Rightarrow> conn_stream ops exec_texts i send 0 c1)"

definition conn_process_events ::
  "postcard_ops \<Rightarrow> (frame \<Rightarrow> string) \<Rightarrow> string \<Rightarrow> (nat \<Rightarrow> send_end)
   \<Rightarrow> 'g conn \<Rightarrow> 'g conn \<times> exec_stream_event list \<times> (unit, clouisle_error stop) result" where
  "conn_process_events ops dbg i send c = conn_stream ops (process_texts dbg) i send 0 c"

text \<open>\<open>exec\<close> gives \<open>exec_stream\<close> a channel of 4096 places and reads it only when \<open>exec_stream\<close> has returned.\<close>

definition exec_channel :: "nat \<Rightarrow> send_end" where
  "exec_channel n = (if n < 4096 then Taken else Full)"

fun collect :: "exec_stream_event list \<Rightarrow> execution_result \<Rightarrow> (execution_result, clouisle_error) result" where
  "collect [] r = Ok r"
| "collect (EvStdout chunk # evs) r = collect evs (r\<lparr>er_stdout := er_stdout r @ chunk\<rparr>)"
| "collect (EvStderr chunk # evs) r = collect evs (r\<lparr>er_stderr := er_stderr r @ chunk\<rparr>)"
| "collect (EvExit x # evs) r = collect evs (r\<lparr>er_exit_code := x\<rparr>)"
| "collect (EvError message # evs) r = Err (new_error EkVmm message)"

definition conn_exec ::
  "postcard_ops \<Rightarrow> 'g peer \<Rightarrow> u64 \<Rightarrow> string \<Rightarrow> string list \<Rightarrow> (string, string) hashmap \<Rightarrow> string option \<Rightarrow> u64
   \<Rightarrow> ('g, execution_result) client" where
  "conn_exec ops peer took i argv en cwd timeout_ms c =
     (case conn_exec_stream ops peer i argv en cwd timeout_ms exec_channel c of
        (c1, evs, Err e) \<Rightarrow> (c1, Err e)
      | (c1, evs, Ok _) \<Rightarrow>
          (c1, map_sum Fails id
             (collect evs \<lparr>er_exit_code = - 1, er_stdout = [], er_stderr = [], er_duration_ms = took\<rparr>)))"

section \<open>Connecting\<close>

datatype connect_end = Connected | ConnectFailed string | ConnectElapsed

text \<open>The retry loop of \<open>VsockAgentConnector\<close>: attempt \<open>n\<close> takes some milliseconds and ends; the clock is
  looked at after each attempt that fails, and 300 ms pass before the next.\<close>

function connect_loop :: "(nat \<Rightarrow> nat \<times> connect_end) \<Rightarrow> nat \<Rightarrow> nat \<Rightarrow> nat \<Rightarrow> (nat, string) result" where
  "connect_loop attempt deadline t n =
     (case attempt n of
        (took, Connected) \<Rightarrow> Ok n
      | (took, failed) \<Rightarrow>
          if deadline \<le> t + took
          then Err (case failed of ConnectFailed e \<Rightarrow> e | _ \<Rightarrow> ''connect timed out'')
          else connect_loop attempt deadline (t + took + 300) (Suc n))"
  by pat_completeness auto
termination
  by (relation "measure (\<lambda>(attempt, deadline, t, n). deadline + 300 - t)") auto

declare connect_loop.simps [simp del]

text \<open>The loop of \<open>DockerDevAgentConnector\<close>: 200 ms between attempts, and an attempt that runs out of its
  500 ms ends the loop at once.\<close>

function docker_connect_loop :: "(nat \<Rightarrow> nat \<times> connect_end) \<Rightarrow> nat \<Rightarrow> nat \<Rightarrow> nat \<Rightarrow> nat option" where
  "docker_connect_loop attempt deadline t n =
     (case attempt n of
        (took, Connected) \<Rightarrow> Some n
      | (took, ConnectElapsed) \<Rightarrow> None
      | (took, ConnectFailed _) \<Rightarrow>
          if deadline \<le> t + took then None else docker_connect_loop attempt deadline (t + took + 200) (Suc n))"
  by pat_completeness auto
termination
  by (relation "measure (\<lambda>(attempt, deadline, t, n). deadline + 200 - t)") auto

declare docker_connect_loop.simps [simp del]

definition new_conn :: "'g \<Rightarrow> 'g conn" where
  "new_conn g = \<lparr>ac_in = [], ac_eof = False, ac_fault = None, ac_peer = g\<rparr>"

definition exchange_hello ::
  "postcard_ops \<Rightarrow> 'g peer \<Rightarrow> string \<Rightarrow> string \<Rightarrow> string \<Rightarrow> string \<Rightarrow> ('g, unit) client" where
  "exchange_hello ops peer version wr rd other =
     and_then (conn_send ops peer wr (Hello version)) (\<lambda>_.
     and_then (conn_read ops rd) (\<lambda>f.
     case f of Hello _ \<Rightarrow> ok () | _ \<Rightarrow> refused (invalid_state other)))"

definition vsock_connect ::
  "postcard_ops \<Rightarrow> 'g peer \<Rightarrow> 'w net_env \<Rightarrow> string \<Rightarrow> (nat \<Rightarrow> nat \<times> connect_end) \<Rightarrow> nat \<Rightarrow> vm_handle \<Rightarrow> string \<Rightarrow> 'g
   \<Rightarrow> 'g conn \<times> (unit, clouisle_error stop) result" where
  "vsock_connect ops peer net version attempt connect_timeout h sid g =
     (let ab = (case vh_subnet h of Some ab \<Rightarrow> ab | None \<Rightarrow> sandbox_subnet net sid); ip = subnet_prefix ab @ ''.2'' in
      if 255 < fst ab \<or> 255 < snd ab
      then (new_conn g, Err (Fails (io_error (''invalid guest addr '' @ ip @ '':5201: invalid socket address syntax''))))
      else case connect_loop attempt connect_timeout 0 0 of
        Err last_err \<Rightarrow>
          (new_conn g, Err (Fails (new_error EkVmm (''guest TCP connect to '' @ ip @ '':5201 failed: '' @ last_err))))
      | Ok _ \<Rightarrow>
          exchange_hello ops peer version ''write Hello to guest'' ''read Hello response from guest''
            ''expected Hello from guest, got unexpected frame'' (new_conn g))"

definition docker_connect ::
  "postcard_ops \<Rightarrow> 'g peer \<Rightarrow> (string \<Rightarrow> (nat, string) result) \<Rightarrow> string \<Rightarrow> (nat \<Rightarrow> nat \<times> connect_end) \<Rightarrow> nat \<Rightarrow> vm_handle \<Rightarrow> 'g
   \<Rightarrow> 'g conn \<times> (unit, clouisle_error stop) result" where
  "docker_connect ops peer addresses version attempt connect_timeout h g =
     (case addresses (vh_id h) of
        Err e \<Rightarrow> (new_conn g, Err (Fails (io_error (''resolve dev container '' @ vh_id h @ '':5201: '' @ e))))
      | Ok found \<Rightarrow>
          if found = 0 then (new_conn g, Err (Fails (io_error (''no address for dev container '' @ vh_id h @ '':5201''))))
          else case docker_connect_loop attempt connect_timeout 0 0 of
            None \<Rightarrow>
              (new_conn g, Err (Fails (timeout_error
                (''docker-dev agent hello timeout after '' @ show_nat (connect_timeout div 1000) @ ''s''))))
          | Some _ \<Rightarrow>
              exchange_hello ops peer version ''write Hello to dev container'' ''read Hello from dev container''
                ''expected Hello from dev container agent'' (new_conn g))"

lemma exec_texts_error [simp]: "sx_error exec_texts = new_error EkVmm"
  by (simp add: exec_texts_def)

lemma connect_loop_bound:
  "connect_loop attempt deadline t n = Ok m \<Longrightarrow> n \<le> m \<and> 300 * (m - n) \<le> deadline + 300 - t"
proof (induction attempt deadline t n rule: connect_loop.induct)
  case (1 attempt deadline t n)
  show ?case
  proof (cases "attempt n")
    case (Pair took e)
    show ?thesis
    proof (cases "e = Connected \<or> deadline \<le> t + took")
      case True
      then show ?thesis using "1.prems" Pair by (subst (asm) connect_loop.simps) (auto split: connect_end.splits if_splits)
    next
      case False
      then have "connect_loop attempt deadline (t + took + 300) (Suc n) = Ok m"
        using "1.prems" Pair by (subst (asm) connect_loop.simps) (auto split: connect_end.splits)
      moreover have "connect_loop attempt deadline (t + took + 300) (Suc n) = Ok m \<Longrightarrow>
          Suc n \<le> m \<and> 300 * (m - Suc n) \<le> deadline + 300 - (t + took + 300)"
        using "1.IH" [OF Pair [symmetric]] False by (cases e) auto
      ultimately have "Suc n \<le> m" "300 * (m - Suc n) \<le> deadline + 300 - (t + took + 300)" by auto
      then show ?thesis using False by (auto simp: algebra_simps)
    qed
  qed
qed

text \<open>The development connector gives up after one attempt that runs out of its own half second, and says
  that its whole limit has passed.\<close>

lemma docker_connect_gives_up:
  assumes "addresses (vh_id h) = Ok (Suc m)" and "attempt 0 = (500, ConnectElapsed)"
  shows "snd (docker_connect ops peer addresses version attempt 15000 h g) =
    Err (Fails (timeout_error ''docker-dev agent hello timeout after 15s''))"
proof -
  have "show_nat 15 = ''15''" by code_simp
  then show ?thesis using assms by (simp add: docker_connect_def docker_connect_loop.simps [of attempt _ 0 0])
qed

end
