(* ===== verification/Guest_Properties.thy ===== *)
theory Guest_Properties
  imports Guest_Agent
begin

text \<open>
  Safety of the guest agent over every interleaving of its tasks with the frames it serves. With a
  terminal the exit of a process is the last frame sent for it; with pipes it is not, and the output
  still in a pipe follows the exit. A timeout bounds the wait for the process and not the reads of its
  pipes. A concrete codec over a table of frames and a scripted kernel give the witnesses.
\<close>

section \<open>Stages of a process on a terminal\<close>

definition process_frames :: "string \<Rightarrow> nat \<Rightarrow> 'k guest \<Rightarrow> frame list" where
  "process_frames i c g = filter (of_process i) (gs_sent g c)"

definition process_tasks :: "string \<Rightarrow> 'k guest \<Rightarrow> guest_task list" where
  "process_tasks i g = filter (task_of i) (gs_tasks g)"

lemma extends_frames:
  assumes "extends i g g'"
  shows "process_frames i c g' = process_frames i c g" and "process_tasks i g' = process_tasks i g"
proof -
  from assms obtain fs where "gs_sent g' c = gs_sent g c @ fs" "\<forall>f\<in>set fs. \<not> of_process i f"
    unfolding extends_def by blast
  then show "process_frames i c g' = process_frames i c g" by (simp add: process_frames_def)
  show "process_tasks i g' = process_tasks i g" using assms by (simp add: extends_def process_tasks_def)
qed

definition no_exit :: "string \<Rightarrow> frame list \<Rightarrow> bool" where
  "no_exit i fs \<longleftrightarrow> (\<forall>x. Exited i x \<notin> set fs)"

definition exit_last :: "string \<Rightarrow> frame list \<Rightarrow> bool" where
  "exit_last i fs \<longleftrightarrow> no_exit i (butlast fs)"

lemma exit_last_end: "exit_last i (a @ Exited i x # b) \<longleftrightarrow> no_exit i a \<and> b = []"
  by (cases b rule: rev_cases) (auto simp: exit_last_def no_exit_def butlast_append)

definition pty_stage :: "string \<Rightarrow> nat \<Rightarrow> 'k guest \<Rightarrow> bool" where
  "pty_stage i c g \<longleftrightarrow>
     (\<exists>child. (\<exists>fd. process_tasks i g = [PtyPump c i fd child]) \<or> process_tasks i g = [ExitWatch c i child])
       \<and> no_exit i (process_frames i c g)
     \<or> process_tasks i g = [] \<and> exit_last i (process_frames i c g)"

lemma pty_stage_cong:
  "process_frames i c g' = process_frames i c g \<Longrightarrow> process_tasks i g' = process_tasks i g \<Longrightarrow>
   pty_stage i c g' \<longleftrightarrow> pty_stage i c g"
  by (simp add: pty_stage_def)

section \<open>Tasks\<close>

lemma pump_chunk_extends:
  assumes "pump_chunk env c wrap r g1 = (g', again)" and "extends i g g1" and "\<And>bs. \<not> of_process i (wrap bs)"
  shows "extends i g g'"
  using assms extends_writeE [OF _ assms(2,3)]
  by (auto simp: pump_chunk_def split: read_end.splits if_splits prod.splits sum.splits)

lemma run_task_other:
  assumes "\<not> task_of i t" and "run_guest_task env t g = (g', ts)"
  shows "extends i g g' \<and> filter (task_of i) ts = []"
proof (cases t)
  case (ExitWatch c j child)
  have "extends i g (fst (guest_write env c (Exited j x) (g\<lparr>gs_os := k, gs_procs := p\<rparr>)))" for x k p
    using ExitWatch assms(1) by (intro extends_write_after extends_refl) auto
  then show ?thesis using assms ExitWatch by (auto simp: extends_refl Let_def split: prod.splits option.splits)
qed (use assms in \<open>auto simp: extends_refl split: prod.splits bool.splits dest!: pump_chunk_extends [where i = i and g = g]\<close>)

lemma run_task_tasks: "run_guest_task env t g = (g', ts) \<Longrightarrow> gs_tasks g' = gs_tasks g"
  by (cases t) (auto simp: pump_chunk_def guest_write_def Let_def
      split: prod.splits bool.splits read_end.splits if_splits sum.splits option.splits)

lemma filter_single_at:
  assumes "n < length ts" and "P (ts ! n)" and "filter P ts = [x]"
  shows "ts ! n = x \<and> filter P (take n ts) = [] \<and> filter P (drop (Suc n) ts) = []"
proof -
  have "filter P ts = filter P (take n ts) @ filter P (ts ! n # drop (Suc n) ts)"
    using id_take_nth_drop [OF assms(1)] by (metis filter_append)
  then show ?thesis using assms(2,3) by (cases "filter P (take n ts)") auto
qed

lemma process_tasks_step:
  "run_guest_task env (gs_tasks g ! n) g = (g', ts) \<Longrightarrow>
   process_tasks i (step_task env n g) =
     filter (task_of i) (take n (gs_tasks g)) @ filter (task_of i) ts @ filter (task_of i) (drop (Suc n) (gs_tasks g))"
  by (simp add: process_tasks_def step_task_def Let_def)

lemma process_frames_step:
  "run_guest_task env (gs_tasks g ! n) g = (g', ts) \<Longrightarrow> process_frames i c (step_task env n g) = process_frames i c g'"
  by (simp add: process_frames_def step_task_def Let_def)

lemma pump_chunk_frames:
  assumes "pump_chunk env c (Stdout i) r g = (g', again)"
  shows "process_frames i c g' = process_frames i c g \<or> (\<exists>bs. process_frames i c g' = process_frames i c g @ [Stdout i bs])"
  using assms by (auto simp: pump_chunk_def guest_write_def process_frames_def
      split: read_end.splits if_splits prod.splits sum.splits)

lemma write_frames:
  "process_frames i c (fst (guest_write env c f g)) = process_frames i c g \<or>
   process_frames i c (fst (guest_write env c f g)) = process_frames i c g @ filter (of_process i) [f]"
  by (cases "encode_frame (av_postcard env) f"; cases "c \<in> set (gs_closed g)")
    (simp_all add: guest_write_def process_frames_def)

lemma other_task_step:
  assumes n: "n < length (gs_tasks g)" and other: "\<not> task_of i (gs_tasks g ! n)"
  shows "process_tasks i (step_task env n g) = process_tasks i g"
    and "process_frames i c (step_task env n g) = process_frames i c g"
proof -
  obtain g' ts where run: "run_guest_task env (gs_tasks g ! n) g = (g', ts)" by fastforce
  have "filter (task_of i) (gs_tasks g) =
      filter (task_of i) (take n (gs_tasks g)) @ filter (task_of i) (gs_tasks g ! n # drop (Suc n) (gs_tasks g))"
    using id_take_nth_drop [OF n] by (metis filter_append)
  then show "process_tasks i (step_task env n g) = process_tasks i g"
    using process_tasks_step [OF run, of i] run_task_other [OF other run] other by (simp add: process_tasks_def)
  show "process_frames i c (step_task env n g) = process_frames i c g"
    using process_frames_step [OF run] extends_frames(1) run_task_other [OF other run] by metis
qed

text \<open>The only task of a process: its step replaces it by what \<open>run_guest_task\<close> answers.\<close>

lemma own_task_step:
  assumes "n < length (gs_tasks g)" and "task_of i (gs_tasks g ! n)" and "process_tasks i g = [t]"
    and "run_guest_task env t g = (g', ts)"
  shows "process_tasks i (step_task env n g) = filter (task_of i) ts"
    and "process_frames i c (step_task env n g) = process_frames i c g'"
proof -
  note at = filter_single_at [OF assms(1,2) assms(3) [unfolded process_tasks_def]]
  then have run: "run_guest_task env (gs_tasks g ! n) g = (g', ts)" using assms(4) by simp
  show "process_tasks i (step_task env n g) = filter (task_of i) ts" using process_tasks_step [OF run, of i] at by simp
  show "process_frames i c (step_task env n g) = process_frames i c g'" by (rule process_frames_step [OF run])
qed

lemma exit_watch_step:
  assumes "n < length (gs_tasks g)" and "task_of i (gs_tasks g ! n)" and "process_tasks i g = [ExitWatch c i child]"
  shows "process_tasks i (step_task env n g) = [ExitWatch c i child] \<and> process_frames i c (step_task env n g) = process_frames i c g
    \<or> process_tasks i (step_task env n g) = [] \<and>
      (process_frames i c (step_task env n g) = process_frames i c g \<or>
       (\<exists>x. process_frames i c (step_task env n g) = process_frames i c g @ [Exited i x]))"
proof -
  obtain g' ts where run: "run_guest_task env (ExitWatch c i child) g = (g', ts)" by fastforce
  obtain k r where w: "po_wait (av_os env) child (gs_os g) = (k, r)" by fastforce
  show ?thesis
  proof (cases r)
    case None
    then have "g' = g\<lparr>gs_os := k\<rparr>" "ts = [ExitWatch c i child]" using run w by auto
    then show ?thesis using own_task_step [OF assms run] by (auto simp: process_frames_def)
  next
    case (Some e)
    then have "ts = []" and "\<exists>s p. g' = fst (guest_write env c (Exited i s) (g\<lparr>gs_os := k, gs_procs := p\<rparr>))"
      using run w by (auto simp: Let_def)
    moreover from this have "process_frames i c g' = process_frames i c g \<or> (\<exists>s. process_frames i c g' = process_frames i c g @ [Exited i s])"
      using write_frames [of i c env "Exited i s" "g\<lparr>gs_os := k, gs_procs := p\<rparr>" for s p] by (fastforce simp: process_frames_def)
    ultimately show ?thesis using own_task_step [OF assms run] by auto
  qed
qed

lemma pty_stage_own:
  assumes "pty_stage i c g" and n: "n < length (gs_tasks g)" and own: "task_of i (gs_tasks g ! n)"
  shows "pty_stage i c (step_task env n g)"
proof -
  have "process_tasks i g \<noteq> []" using n own by (force simp: process_tasks_def filter_empty_conv)
  then obtain x child where x: "process_tasks i g = [x]" and none: "no_exit i (process_frames i c g)"
    and kind: "(\<exists>fd. x = PtyPump c i fd child) \<or> x = ExitWatch c i child"
    using assms(1) by (auto simp: pty_stage_def)
  from kind show ?thesis
  proof
    assume "\<exists>fd. x = PtyPump c i fd child"
    then obtain fd k r g' ts where t: "x = PtyPump c i fd child" and rd: "po_read_pty (av_os env) fd 8192 (gs_os g) = (k, r)"
      and run: "run_guest_task env x g = (g', ts)" by fastforce
    obtain again where p: "pump_chunk env c (Stdout i) r (g\<lparr>gs_os := k\<rparr>) = (g', again)"
      and ts: "ts = (if again then [PtyPump c i fd child] else [ExitWatch c i child])"
      using run t rd by (auto split: prod.splits bool.splits)
    have "process_frames i c (g\<lparr>gs_os := k\<rparr>) = process_frames i c g" by (simp add: process_frames_def)
    then have "no_exit i (process_frames i c g')"
      using pump_chunk_frames [OF p] none by (auto simp: no_exit_def)
    then show ?thesis using own_task_step [OF n own x run] ts by (auto simp: pty_stage_def)
  next
    assume "x = ExitWatch c i child"
    from exit_watch_step [OF n own x [unfolded this], of env] show ?thesis
      using none by (auto simp: pty_stage_def exit_last_def no_exit_def dest: in_set_butlastD)
  qed
qed

text \<open>What holds of the frames and tasks of a process and survives its own tasks survives every run that does
  not name the process again.\<close>

lemma process_run_induct:
  assumes "guest_run env g ls g'" and "P g" and "\<And>d f. Served d f \<in> set ls \<Longrightarrow> \<not> names_process i f"
    and cong: "\<And>g1 g2. P g1 \<Longrightarrow> process_frames i c g2 = process_frames i c g1 \<Longrightarrow> process_tasks i g2 = process_tasks i g1 \<Longrightarrow> P g2"
    and own: "\<And>g1 n. P g1 \<Longrightarrow> n < length (gs_tasks g1) \<Longrightarrow> task_of i (gs_tasks g1 ! n) \<Longrightarrow> P (step_task env n g1)"
  shows "P g'"
  using assms(1-3)
proof (induction rule: guest_run.induct)
  case (More g ls g1 l g2)
  have g1: "P g1" using More.prems by (intro More.IH) auto
  from More.hyps(2) show ?case
  proof (cases rule: guest_step.cases)
    case (Serve d f r)
    then have "\<not> names_process i f" using More.prems(2) [of d f] by simp
    from extends_frames [OF serve_frame_extends [OF Serve(2) this]] show ?thesis by (intro cong [OF g1])
  next
    case (Advance n)
    then show ?thesis using own [OF g1] cong [OF g1] other_task_step by metis
  next
    case (Lose d)
    then show ?thesis by (intro cong [OF g1]) (simp_all add: close_conn_def process_frames_def process_tasks_def)
  qed
qed simp

section \<open>Starting on a terminal\<close>

lemma spawn_pty:
  "spawn_interactive os argv en cwd stdin (Some cfg) k = (k', Ok p) \<Longrightarrow> \<exists>m. gp_pty p = Some m"
  by (auto simp: spawn_interactive_def interactive_io_def comp_defs and_then_Ok split: if_splits)

definition untouched :: "string \<Rightarrow> nat \<Rightarrow> 'k guest \<Rightarrow> bool" where
  "untouched i c g \<longleftrightarrow> process_tasks i g = [] \<and> process_frames i c g = []"

lemma untouched_stage: "untouched i c g \<Longrightarrow> pty_stage i c g"
  by (simp add: untouched_def pty_stage_def exit_last_def no_exit_def)

lemma untouched_write:
  "untouched i c g \<Longrightarrow> \<not> of_process i f \<Longrightarrow> guest_write env d f g = (g', r) \<Longrightarrow> untouched i c g'"
  using extends_frames [OF extends_writeE [of env d f g g' r i g]] by (simp add: untouched_def extends_refl)

lemma pump_start_pty:
  assumes "gp_pty p = Some m" and "pump_start os c i p k = (k', ts)"
  shows "ts = [] \<or> (\<exists>fd child. ts = [PtyPump c i fd child]) \<or> (\<exists>child. ts = [ExitWatch c i child])"
  using assms by (auto simp: pump_start_def split: prod.splits sum.splits bool.splits)

lemma start_pty_stage:
  assumes "untouched i c g0" and "serve_frame env c (ProcessStart i argv en cwd t stdin (Some cfg)) g0 = Some (g, r)"
  shows "pty_stage i c g"
proof -
  obtain k s where sp: "spawn_interactive (av_os env) argv en cwd stdin (Some cfg) (gs_os g0) = (k, s)" by fastforce
  have u: "untouched i c (g0\<lparr>gs_os := k\<rparr>)" using assms(1) by (simp add: untouched_def process_tasks_def process_frames_def)
  show ?thesis
  proof (cases s)
    case (Inl e)
    then have "guest_write env c (ErrorFrame e 3) (g0\<lparr>gs_os := k\<rparr>) = (g, r)" using assms(2) sp by (simp add: serve_start_def)
    then show ?thesis using untouched_write [OF u] untouched_stage by (metis of_process.simps(4-))
  next
    case (Inr p)
    then obtain m where m: "gp_pty p = Some m" using spawn_pty sp by metis
    have run: "start_process env c i t p (g0\<lparr>gs_os := k\<rparr>) = (g, r)" using assms(2) sp Inr by (simp add: serve_start_def)
    let ?g1 = "g0\<lparr>gs_os := k, gs_procs := hm_insert i p (gs_procs g0)\<rparr>"
    have u1: "untouched i c ?g1" using u by (simp add: untouched_def process_tasks_def process_frames_def)
    show ?thesis
    proof (cases "gs_poisoned g0")
      case True
      then have "guest_write env c (ErrorFrame ''process registry poisoned'' 3) (g0\<lparr>gs_os := k\<rparr>) = (g, r)"
        using run by (simp add: start_process_def)
      then show ?thesis using untouched_write [OF u] untouched_stage by (metis of_process.simps(4-))
    next
      case False
      obtain g2 w where w: "guest_write env c (ProcessStarted i (gp_pid p)) ?g1 = (g2, w)" by fastforce
      have u2: "untouched i c g2" using untouched_write [OF u1 _ w] by simp
      show ?thesis
      proof (cases w)
        case (Inl e)
        then have "g = g2" using run False w by (simp add: start_process_def and_then_def)
        then show ?thesis using u2 untouched_stage by simp
      next
        case (Inr x)
        obtain k2 ts where ps: "pump_start (av_os env) c i p (gs_os g2) = (k2, ts)" by fastforce
        have "g = g2\<lparr>gs_os := k2, gs_tasks := gs_tasks g2 @ (if 0 < t then [KillTimer (gp_pid p)] else []) @ ts\<rparr>"
          using run False w Inr ps by (simp add: start_process_def and_then_def)
        then have "process_tasks i g = filter (task_of i) ts" "process_frames i c g = []"
          using u2 by (simp_all add: untouched_def process_tasks_def process_frames_def)
        then show ?thesis using pump_start_pty [OF m ps] by (auto simp: pty_stage_def no_exit_def exit_last_def)
      qed
    qed
  qed
qed

lemma pty_stage_run:
  assumes "guest_run env g ls g'" and "pty_stage i c g" and "\<And>d f. Served d f \<in> set ls \<Longrightarrow> \<not> names_process i f"
  shows "pty_stage i c g'"
  by (rule process_run_induct [where P = "pty_stage i c" and i = i and c = c, OF assms])
    (auto simp: pty_stage_own dest: pty_stage_cong)

section \<open>Properties\<close>


text \<open>The output of a terminal stops at its first pause. When the read of a terminal would block, as it
  does whenever everything written so far has been read, the pump of the process ends: whatever the process
  writes afterwards, in every later run, nothing of it is sent but the exit.\<close>

lemma pty_output_stops:
  assumes "process_tasks i g = [PtyPump c i fd child]" and "n < length (gs_tasks g)" and "task_of i (gs_tasks g ! n)"
    and "snd (po_read_pty (av_os env) fd 8192 (gs_os g)) = WouldBlock"
    and "guest_run env (step_task env n g) ls g'" and "\<forall>d f. Served d f \<in> set ls \<longrightarrow> \<not> names_process i f"
  shows "process_frames i c g' = process_frames i c g \<or> (\<exists>x. process_frames i c g' = process_frames i c g @ [Exited i x])"
proof -
  define P where "P h \<longleftrightarrow> process_tasks i h = [ExitWatch c i child] \<and> process_frames i c h = process_frames i c g
    \<or> process_tasks i h = [] \<and> (process_frames i c h = process_frames i c g \<or> (\<exists>x. process_frames i c h = process_frames i c g @ [Exited i x]))"
    for h :: "'a guest"
  obtain k where rd: "po_read_pty (av_os env) fd 8192 (gs_os g) = (k, WouldBlock)" using assms(4) by (metis prod.collapse)
  then have run: "run_guest_task env (PtyPump c i fd child) g = (g\<lparr>gs_os := k\<rparr>, [ExitWatch c i child])"
    by (simp add: pump_chunk_def)
  have "P (step_task env n g)"
    using own_task_step [OF assms(2,3,1) run] by (simp add: P_def process_frames_def)
  moreover have "P (step_task env m h)" if "P h" "m < length (gs_tasks h)" "task_of i (gs_tasks h ! m)" for h m
  proof -
    have "process_tasks i h \<noteq> []" using that(2,3) by (force simp: process_tasks_def filter_empty_conv)
    then have "process_tasks i h = [ExitWatch c i child]" "process_frames i c h = process_frames i c g"
      using that(1) by (auto simp: P_def)
    then show ?thesis using exit_watch_step [OF that(2,3), of c child env] by (auto simp: P_def)
  qed
  ultimately have "P g'"
    by (intro process_run_induct [OF assms(5), where P = P and i = i and c = c]) (use assms(6) in \<open>auto simp: P_def\<close>)
  then show ?thesis by (auto simp: P_def)
qed

section \<open>A scripted guest\<close>

text \<open>A codec that knows a table of frames and encodes each as its position.\<close>

fun frame_position :: "frame \<Rightarrow> frame list \<Rightarrow> nat option" where
  "frame_position f [] = None"
| "frame_position f (h # hs) = (if f = h then Some 0 else map_option Suc (frame_position f hs))"

lemma frame_position_nth: "frame_position f fs = Some n \<Longrightarrow> n < length fs \<and> fs ! n = f"
  by (induction fs arbitrary: n) (auto split: if_splits)

definition table_postcard :: "frame list \<Rightarrow> postcard_ops" where
  "table_postcard fs = \<lparr>
     to_allocvec = (\<lambda>f. case frame_position f (take 256 fs) of Some n \<Rightarrow> Ok [of_nat n] | None \<Rightarrow> Err ''unknown frame''),
     from_bytes = (\<lambda>b. if length b = 1 \<and> unat (hd b) < length (take 256 fs) then Ok (fs ! unat (hd b)) else Err ''unknown frame'')\<rparr>"

lemma table_roundtrip: "postcard_roundtrip (table_postcard fs)"
proof -
  have "n < 256 \<and> n < length fs \<and> fs ! n = f" if "frame_position f (take 256 fs) = Some n" for f n
    using frame_position_nth [OF that] by auto
  then show ?thesis
    by (auto simp: postcard_roundtrip_def table_postcard_def unat_of_nat split: option.splits)
qed

lemma table_fits:
  "frame_position f (take 256 fs) = Some n \<Longrightarrow> encode_frame (table_postcard fs) f = Ok [0, 0, 0, 1, of_nat n]"
  by (simp add: encode_frame_def table_postcard_def to_be_bytes_def eval_nat_numeral)

text \<open>A kernel with one process: what it has written and nobody has read yet, its pipes left open by a
  descendant or not.\<close>

record script =
  sc_out :: "byte list"
  sc_open :: bool

definition script_os :: "script process_os" where
  "script_os = \<lparr>po_spawn = (\<lambda>cmd k. (k, Ok (0, Some 7))), po_wait = (\<lambda>child k. (k, Some (Status (Some 0)))),
     po_wait_for = (\<lambda>t child k. (k, Some (Status (Some 0)))),
     po_read_to_end = (\<lambda>child err k. if sc_open k then None else if err then Some (k, []) else Some (k\<lparr>sc_out := []\<rparr>, sc_out k)),
     po_read = (\<lambda>child err n k. if err then (k, Chunk []) else (k\<lparr>sc_out := drop n (sc_out k)\<rparr>, Chunk (take n (sc_out k)))),
     po_read_pty = (\<lambda>fd n k. if sc_out k = [] \<and> sc_open k then (k, WouldBlock)
       else (k\<lparr>sc_out := drop n (sc_out k)\<rparr>, Chunk (take n (sc_out k)))),
     po_kill = (\<lambda>group sig k. (k, None)), po_kill_child = (\<lambda>child k. k), po_strerror = (\<lambda>n. ''error''),
     po_open_pty = (\<lambda>cols rows k. (k, Ok (4, 5))), po_getfl = (\<lambda>fd k. (k, 0)), po_setfl = (\<lambda>fd fl k. (k, 0)),
     po_dup = (\<lambda>fd k. (k, Ok 6)), po_async_fd = (\<lambda>fd k. (k, True)), po_winsize = (\<lambda>fd cols rows k. (k, None)),
     po_write_stdin = (\<lambda>child bs k. Some (k, Ok ())), po_close_stdin = (\<lambda>child k. k)\<rparr>"

definition plain_kernel :: guest_kernel where
  "plain_kernel = \<lparr>gk_cwd = [], gk_umask = 18, gk_dir_size = 4096, gk_refuse = (\<lambda>q. None), gk_write_fault = (\<lambda>q bs. None),
     gk_chmod_fault = (\<lambda>q. None), gk_read_fault = (\<lambda>q. None), gk_entry_fault = (\<lambda>q. None), gk_stat_fault = (\<lambda>q. None),
     gk_mount = (\<lambda>t p fs. (fs, Mounted))\<rparr>"

definition script_env :: "frame list \<Rightarrow> script agent_env" where
  "script_env fs = \<lparr>av_postcard = table_postcard fs, av_kernel = plain_kernel, av_os = script_os,
     av_utf8 = (\<lambda>b. Ok []), av_own_pid = 1, av_clock = (\<lambda>k. 0), av_debug = (\<lambda>f. []), av_version = ''0''\<rparr>"

definition script_guest :: "byte list \<Rightarrow> bool \<Rightarrow> script guest" where
  "script_guest out left_open = \<lparr>gs_fs = [([], FsDir 493 0)], gs_procs = [], gs_poisoned = False,
     gs_os = \<lparr>sc_out = out, sc_open = left_open\<rparr>, gs_sent = (\<lambda>c. []), gs_closed = [], gs_tasks = []\<rparr>"

lemmas script_defs = script_env_def script_guest_def script_os_def plain_kernel_def

definition pty_start :: frame where
  "pty_start = ProcessStart ''p'' [''sh''] [] None 0 False (Some \<lparr>pc_cols = 80, pc_rows = 24\<rparr>)"

definition pipe_start :: frame where
  "pipe_start = ProcessStart ''p'' [''sh''] [] None 0 False None"

definition script_frames :: "frame list" where
  "script_frames = [ProcessStarted ''p'' 7, Stdout ''p'' [104, 105], Exited ''p'' 0]"

lemma script_encodes:
  "encode_frame (table_postcard script_frames) (ProcessStarted ''p'' 7) = Ok [0, 0, 0, 1, 0]"
  "encode_frame (table_postcard script_frames) (Stdout ''p'' [104, 105]) = Ok [0, 0, 0, 1, 1]"
  "encode_frame (table_postcard script_frames) (Exited ''p'' 0) = Ok [0, 0, 0, 1, 2]"
  using table_fits [of _ script_frames] by (simp_all add: script_frames_def)

lemma guest_run_Cons: "guest_step env g l g1 \<Longrightarrow> guest_run env g1 ls g2 \<Longrightarrow> guest_run env g (l # ls) g2"
proof (rotate_tac, induction rule: guest_run.induct)
  case (Stop g1)
  then show ?case using guest_run.More [OF guest_run.Stop] by fastforce
next
  case (More g1 ls g2 l' g3)
  then show ?case using guest_run.More [of env g "l # ls"] by fastforce
qed

fun advance_all :: "'k agent_env \<Rightarrow> nat list \<Rightarrow> 'k guest \<Rightarrow> 'k guest" where
  "advance_all env [] g = g"
| "advance_all env (n # ns) g = advance_all env ns (step_task env n g)"

fun schedulable :: "'k agent_env \<Rightarrow> nat list \<Rightarrow> 'k guest \<Rightarrow> bool" where
  "schedulable env [] g = True"
| "schedulable env (n # ns) g = (n < length (gs_tasks g) \<and> schedulable env ns (step_task env n g))"

lemma advance_run: "schedulable env ns g \<Longrightarrow> guest_run env g (map Advanced ns) (advance_all env ns g)"
  by (induction ns arbitrary: g) (auto intro: guest_run.Stop guest_run_Cons guest_step.Advance)


lemma pty_output_stops_witness:
  "\<exists>g g'. process_tasks ''p'' g = [PtyPump 1 ''p'' 6 0] \<and> process_frames ''p'' 1 g = [Stdout ''p'' [104, 105]]
     \<and> guest_run (script_env script_frames) (step_task (script_env script_frames) 0 g) [Advanced 0] g'
     \<and> (process_frames ''p'' 1 g' = process_frames ''p'' 1 g \<or> (\<exists>x. process_frames ''p'' 1 g' = process_frames ''p'' 1 g @ [Exited ''p'' x]))"
proof -
  let ?env = "script_env script_frames"
  define g where "g = (script_guest [] True)\<lparr>gs_sent := (\<lambda>c. if c = 1 then [Stdout ''p'' [104, 105]] else []),
    gs_tasks := [PtyPump 1 ''p'' 6 0]\<rparr>"
  have tasks: "process_tasks ''p'' g = [PtyPump 1 ''p'' 6 0]" and frames: "process_frames ''p'' 1 g = [Stdout ''p'' [104, 105]]"
    by (simp_all add: g_def process_tasks_def process_frames_def)
  have "schedulable ?env [0] (step_task ?env 0 g)"
    by (simp add: g_def step_task_def pump_chunk_def script_defs)
  from advance_run [OF this] have run: "guest_run ?env (step_task ?env 0 g) [Advanced 0] (advance_all ?env [0] (step_task ?env 0 g))"
    by simp
  have "process_frames ''p'' 1 (advance_all ?env [0] (step_task ?env 0 g)) = process_frames ''p'' 1 g \<or>
      (\<exists>x. process_frames ''p'' 1 (advance_all ?env [0] (step_task ?env 0 g)) = process_frames ''p'' 1 g @ [Exited ''p'' x])"
    by (rule pty_output_stops [OF tasks _ _ _ run]) (simp_all add: g_def script_defs)
  then show ?thesis using tasks frames run by blast
qed

text \<open>With pipes the exit overtakes the output. A process started without a terminal exits with output
  still in its pipe; the task that waits for the exit runs first, the agent sends the exit, and the output
  follows it. A reader that stops at the exit never sees the output.\<close>

lemma pipe_exit_overtakes:
  "\<exists>g g'. serve_frame (script_env script_frames) 1 pipe_start (script_guest [104, 105] False) = Some (g, Ok ())
     \<and> guest_run (script_env script_frames) g [Advanced 2, Advanced 0] g'
     \<and> gs_sent g' 1 = [ProcessStarted ''p'' 7, Exited ''p'' 0, Stdout ''p'' [104, 105]]"
proof -
  let ?env = "script_env script_frames" and ?g0 = "script_guest [104, 105] False"
  define g where "g = ?g0\<lparr>gs_procs := [(''p'', \<lparr>gp_pid = 7, gp_child = 0, gp_stdin = None, gp_pty = None\<rparr>)],
    gs_sent := (gs_sent ?g0)(1 := [ProcessStarted ''p'' 7]), gs_tasks := [OutPump 1 ''p'' 0, ErrPump 1 ''p'' 0, ExitWatch 1 ''p'' 0]\<rparr>"
  have "serve_frame ?env 1 pipe_start ?g0 = Some (g, Ok ())"
    by (simp add: g_def pipe_start_def serve_start_def spawn_interactive_def interactive_io_def
        start_process_def pump_start_def guest_write_def and_then_def comp_defs script_defs
        script_encodes hm_insert_def)
  moreover note steps = g_def step_task_def pump_chunk_def guest_write_def Let_def script_defs script_encodes exit_code_def
  have "schedulable ?env [2, 0] g"
    by (simp add: steps)
  from advance_run [OF this] have "guest_run ?env g [Advanced 2, Advanced 0] (advance_all ?env [2, 0] g)" by simp
  moreover have "gs_sent (advance_all ?env [2, 0] g) 1 = [ProcessStarted ''p'' 7, Exited ''p'' 0, Stdout ''p'' [104, 105]]"
    by (simp add: steps)
  ultimately show ?thesis by blast
qed

section \<open>The time limit of a command\<close>

text \<open>A command answers when both its pipes reach their end, whatever its time limit: the limit covers the
  wait for the process only. A process that has exited while a descendant holds its pipe open is never answered.\<close>

lemma run_exec_answers:
  assumes "argv \<noteq> []" and "po_spawn os (exec_command argv en cwd) k = (k1, Ok (child, pid))"
    and "exec_wait os t child pid k1 = (k2, Ok x)"
  shows "run_exec os i argv en cwd t k = None \<longleftrightarrow>
    po_read_to_end os child False k2 = None \<or>
    (\<exists>k3 out. po_read_to_end os child False k2 = Some (k3, out) \<and> po_read_to_end os child True k3 = None)"
  using assms by (auto simp: run_exec_def split: bind_splits)

lemma exec_limit_misses_pipes:
  "run_exec script_os ''x'' [''sh''] [] None 1 \<lparr>sc_out = [104], sc_open = True\<rparr> = None"
  by (simp add: run_exec_def script_os_def exec_wait_def exit_code_def)

text \<open>A process on a terminal takes no input: its registry entry has no pipe to write to, and the master of
  the terminal is used for its size only.\<close>

lemma pty_refuses_input:
  assumes "spawn_interactive os argv en cwd stdin (Some cfg) k = (k', Ok p)" and "lookup_process g i = Some p"
  shows "send_stdin os i chunk g = Some (g, Err (''process '' @ i @ '' has no open stdin''))"
proof -
  have "gp_stdin p = None"
    using assms(1) by (auto simp: spawn_interactive_def interactive_io_def comp_defs and_then_Ok split: if_splits)
  then show ?thesis using assms(2) by (simp add: send_stdin_def)
qed

end
