(* ===== verification/Guest_Link.thy ===== *)
theory Guest_Link
  imports Agent_Client Guest_Properties
begin

text \<open>
  The host's guest connection against the guest agent. \<open>answering_peer\<close> is what the client relies on: a
  peer that answers the encoding of a frame with the encodings of frames. Inside the locale every operation
  of the client is reduced to the frames of the answer; \<open>guest_peer\<close>, the serve loop of the agent run on the
  bytes it is sent, is shown to be such a peer. The properties compose the two: what a command printed and
  returned inside the guest is what \<open>exec\<close> returns on the host, and a file written through a connection is
  read back through it.
\<close>

section \<open>Frames on the wire\<close>

definition encode_all :: "postcard_ops \<Rightarrow> frame list \<Rightarrow> byte list" where
  "encode_all ops fs = concat (map (\<lambda>f. case encode_frame ops f of Ok b \<Rightarrow> b | Err _ \<Rightarrow> []) fs)"

definition fits :: "postcard_ops \<Rightarrow> frame \<Rightarrow> bool" where
  "fits ops f \<longleftrightarrow> (case encode_frame ops f of Ok b \<Rightarrow> length b < 2 ^ 32 + 4 | Err _ \<Rightarrow> False)"

lemma fits_frame_fits: "fits ops f \<longleftrightarrow> (\<exists>b. frame_fits ops f b)"
  by (auto simp: fits_def frame_fits_def split: sum.splits)

lemma encode_all_Nil [simp]: "encode_all ops [] = []"
  by (simp add: encode_all_def)

lemma encode_all_Cons: "frame_fits ops f b \<Longrightarrow> encode_all ops (f # fs) = b @ encode_all ops fs"
  by (simp add: encode_all_def frame_fits_def)

lemma read_frame_encoded:
  assumes "postcard_roundtrip ops" and "frame_fits ops f b"
  shows "read_frame ops (b @ rest) = (rest, Ok f)"
  using read_write_frame [OF assms] by blast

lemma read_frame_encode_all:
  "postcard_roundtrip ops \<Longrightarrow> fits ops f \<Longrightarrow> read_frame ops (encode_all ops (f # fs)) = (encode_all ops fs, Ok f)"
  using read_frame_encoded encode_all_Cons unfolding fits_frame_fits by fastforce

lemma read_frame_empty: "read_frame ops [] = ([], Err (CodecIo ''early eof''))"
  by (simp add: read_frame_def read_exact_def FRAME_HEADER_LEN_def)

section \<open>A peer that answers\<close>

locale answering_peer =
  fixes ops :: postcard_ops and peer :: "'g peer"
    and answer :: "frame \<Rightarrow> 'g \<Rightarrow> ('g \<times> frame list) option" and stuck :: "frame \<Rightarrow> 'g \<Rightarrow> bool"
  assumes answers: "postcard_roundtrip ops \<Longrightarrow> frame_fits ops f b \<Longrightarrow> answer f g = Some (g', fs) \<Longrightarrow> peer b g = (g', encode_all ops fs, False)"
    and silent: "postcard_roundtrip ops \<Longrightarrow> frame_fits ops f b \<Longrightarrow> stuck f g \<Longrightarrow> peer b g = (g, [], False)"
begin

lemma send_answered:
  assumes "postcard_roundtrip ops" and "fits ops f" and "answer f g = Some (g', fs)"
  shows "conn_send ops peer what f (new_conn g) = ((new_conn g')\<lparr>ac_in := encode_all ops fs\<rparr>, Ok ())"
proof -
  obtain b where b: "frame_fits ops f b" using assms(2) fits_frame_fits by blast
  then show ?thesis using answers [OF assms(1) b assms(3)]
    by (simp add: conn_send_def write_frame_def new_conn_def frame_fits_def)
qed

lemma send_unanswered:
  assumes "postcard_roundtrip ops" and "fits ops f" and "stuck f g"
  shows "conn_send ops peer what f (new_conn g) = (new_conn g, Ok ())"
proof -
  obtain b where b: "frame_fits ops f b" using assms(2) fits_frame_fits by blast
  then show ?thesis using silent [OF assms(1) b assms(3)]
    by (simp add: conn_send_def write_frame_def new_conn_def frame_fits_def)
qed

lemma read_answer:
  "postcard_roundtrip ops \<Longrightarrow> fits ops f \<Longrightarrow> conn_read ops what (c\<lparr>ac_in := encode_all ops (f # fs)\<rparr>) = (c\<lparr>ac_in := encode_all ops fs\<rparr>, Ok f)"
  using read_frame_encode_all [of ops f fs] by (simp add: conn_read_def)

text \<open>A request with an answer of one frame leaves the connection idle.\<close>

lemma request_reply:
  assumes "postcard_roundtrip ops" and "fits ops f" and "answer f g = Some (g', [h])" and "fits ops h"
  shows "and_then (conn_send ops peer what f) (\<lambda>_. and_then (conn_read ops what') k) (new_conn g) = k h (new_conn g')"
  using read_answer [OF assms(1,4), where what = what' and c = "new_conn g'" and fs = "[]"]
  by (simp add: and_then_def send_answered [OF assms(1-3)]) (simp add: new_conn_def)

lemma write_file_reply:
  assumes "postcard_roundtrip ops" and "fits ops (WriteFile path mode content)"
    and "answer (WriteFile path mode content) g = Some (g', [h])" and "fits ops h"
  shows "conn_write_file ops dbg peer path content mode (new_conn g) =
    (case h of
       WriteFileResult _ \<Rightarrow> ok ()
     | ErrorFrame message _ \<Rightarrow> refused (io_error (''guest write_file '' @ path @ '': '' @ message))
     | _ \<Rightarrow> unexpected_frame dbg ''WriteFile'' h) (new_conn g')"
  unfolding conn_write_file_def by (rule request_reply [OF assms])

lemma read_file_reply:
  assumes "postcard_roundtrip ops" and "fits ops (ReadFile path 0 (- 1))"
    and "answer (ReadFile path 0 (- 1)) g = Some (g', [h])" and "fits ops h"
  shows "conn_read_file ops dbg peer path (new_conn g) =
    (case h of
       ReadFileResult _ content \<Rightarrow> ok content
     | ErrorFrame message _ \<Rightarrow> refused (guest_fs_error ''read_file'' path message)
     | _ \<Rightarrow> unexpected_frame dbg ''ReadFile'' h) (new_conn g')"
  unfolding conn_read_file_def by (rule request_reply [OF assms])

lemma list_dir_reply:
  assumes "postcard_roundtrip ops" and "fits ops (ListDir path)"
    and "answer (ListDir path) g = Some (g', [h])" and "fits ops h"
  shows "conn_list_dir ops dbg peer path (new_conn g) =
    (case h of
       ListDirResult entries \<Rightarrow> ok (map listed_of entries)
     | ErrorFrame message _ \<Rightarrow> refused (guest_fs_error ''list_dir'' path message)
     | _ \<Rightarrow> unexpected_frame dbg ''ListDir'' h) (new_conn g')"
  unfolding conn_list_dir_def by (rule request_reply [OF assms])

lemma control_reply:
  assumes "postcard_roundtrip ops" and "fits ops f" and "answer f g = Some (g', [h])" and "fits ops h"
  shows "conn_control ops dbg peer name ack what f (new_conn g) =
    (case h of
       ControlOk \<Rightarrow> ok ()
     | ErrorFrame message _ \<Rightarrow> refused (new_error EkVmm (''guest '' @ what @ '': '' @ message))
     | _ \<Rightarrow> unexpected_frame dbg name h) (new_conn g')"
  unfolding conn_control_def by (rule request_reply [OF assms])

lemma stream_unanswered: "conn_stream ops tx i send n (new_conn g) = (new_conn g, [], Err Never)"
  by (subst conn_stream.simps) (simp add: new_conn_def read_frame_empty)

text \<open>A stream whose frames are all of the process and end with its exit is passed on whole.\<close>

lemma stream_answer:
  assumes roundtrip: "postcard_roundtrip ops" and "list_all (fits ops) fs" and "fits ops (Exited i x)" and "list_all (\<lambda>f. event_of i f \<noteq> None \<and> (\<forall>y. f \<noteq> Exited i y)) fs"
    and "\<And>m. n \<le> m \<Longrightarrow> m \<le> n + length fs \<Longrightarrow> send m = Taken"
  shows "conn_stream ops tx i send n (c\<lparr>ac_in := encode_all ops (fs @ [Exited i x])\<rparr>) =
    (c\<lparr>ac_in := []\<rparr>, map (\<lambda>f. the (event_of i f)) fs @ [EvExit (sint x)], Ok ())"
  using assms
proof (induction fs arbitrary: n)
  case Nil
  then show ?case
    using read_frame_encode_all [OF roundtrip Nil.prems(3), of "[]"] Nil.prems(5) [of n]
    by (subst conn_stream.simps) simp
next
  case (Cons f fs)
  obtain ev where ev: "event_of i f = Some ev" using Cons.prems(4) by auto
  have ne: "\<not> is_exit ev" using ev Cons.prems(4) by (cases f) (auto split: if_splits)
  have IH: "conn_stream ops tx i send (Suc n) (c\<lparr>ac_in := encode_all ops (fs @ [Exited i x])\<rparr>) =
      (c\<lparr>ac_in := []\<rparr>, map (\<lambda>f. the (event_of i f)) fs @ [EvExit (sint x)], Ok ())"
    using Cons.prems by (intro Cons.IH) auto
  show ?case
    using read_frame_encode_all [OF roundtrip, of f "fs @ [Exited i x]"] Cons.prems(2) Cons.prems(5) [of n] ev ne
    by (subst conn_stream.simps) (simp add: IH)
qed

lemma stream_error:
  assumes "postcard_roundtrip ops" and "fits ops (ErrorFrame e m)"
  shows "conn_stream ops tx i send n (c\<lparr>ac_in := encode_all ops [ErrorFrame e m]\<rparr>) =
    (c\<lparr>ac_in := []\<rparr>, [], Err (Fails (sx_error tx e)))"
  using read_frame_encode_all [OF assms, of "[]"] by (subst conn_stream.simps) simp

end
section \<open>The guest agent is such a peer\<close>

definition guest_peer :: "'k agent_env \<Rightarrow> nat \<Rightarrow> 'k guest peer" where
  "guest_peer env c bytes g =
     (case serve_loop env c bytes g of
        (g', e) \<Rightarrow> (g', encode_all (av_postcard env) (drop (length (gs_sent g c)) (gs_sent g' c)),
                    e \<noteq> Stuck \<and> e \<noteq> Ended (CodecIo ''early eof'')))"

definition guest_answer :: "'k agent_env \<Rightarrow> nat \<Rightarrow> frame \<Rightarrow> 'k guest \<Rightarrow> ('k guest \<times> frame list) option" where
  "guest_answer env c f g =
     (case serve_frame env c f g of
        Some (g', Ok _) \<Rightarrow> Some (g', drop (length (gs_sent g c)) (gs_sent g' c))
      | _ \<Rightarrow> None)"

definition guest_stuck :: "'k agent_env \<Rightarrow> nat \<Rightarrow> frame \<Rightarrow> 'k guest \<Rightarrow> bool" where
  "guest_stuck env c f g \<longleftrightarrow> serve_frame env c f g = None"

lemma serve_loop_frame:
  assumes "postcard_roundtrip (av_postcard env)" and "frame_fits (av_postcard env) f b"
  shows "serve_loop env c b g =
    (case serve_frame env c f g of
       None \<Rightarrow> (g, Stuck) | Some (g', Err e) \<Rightarrow> (g', Ended e) | Some (g', Ok _) \<Rightarrow> (g', Ended (CodecIo ''early eof'')))"
proof -
  have "read_frame (av_postcard env) b = ([], Ok f)" using read_frame_encoded [OF assms, of "[]"] by simp
  moreover have "serve_loop env c [] g' = (g', Ended (CodecIo ''early eof''))" for g'
    by (subst serve_loop.simps) (simp add: read_frame_empty)
  ultimately show ?thesis
    by (subst serve_loop.simps) (auto split: option.split sum.split)
qed

interpretation gp: answering_peer "av_postcard env" "guest_peer env c" "guest_answer env c" "guest_stuck env c"
proof
  fix f b g g' fs
  assume ops: "postcard_roundtrip (av_postcard env)" and fit: "frame_fits (av_postcard env) f b"
  show "guest_peer env c b g = (g', encode_all (av_postcard env) fs, False)" if "guest_answer env c f g = Some (g', fs)"
    using that serve_loop_frame [OF ops fit, of c g]
    by (auto simp: guest_peer_def guest_answer_def split: option.splits prod.splits sum.splits)
  show "guest_peer env c b g = (g, [], False)" if "guest_stuck env c f g"
    using that serve_loop_frame [OF ops fit, of c g] by (simp add: guest_peer_def guest_stuck_def)
qed

section \<open>What the agent answers\<close>

lemma write_answer:
  assumes "c \<notin> set (gs_closed g1)" and "fits (av_postcard env) h" and "gs_sent g1 = gs_sent g"
    and "serve_frame env c f g = Some (guest_write env c h g1)"
  shows "guest_answer env c f g = Some (g1\<lparr>gs_sent := (gs_sent g)(c := gs_sent g c @ [h])\<rparr>, [h])"
  using assms by (auto simp: guest_answer_def guest_write_def fits_def split: sum.splits)

lemma write_all_answer:
  assumes "c \<notin> set (gs_closed g)" and "list_all (fits (av_postcard env)) fs"
  shows "guest_write_all env c fs g = (g\<lparr>gs_sent := (gs_sent g)(c := gs_sent g c @ fs)\<rparr>, Ok ())"
  using assms
proof (induction fs arbitrary: g)
  case (Cons f fs)
  let ?g1 = "g\<lparr>gs_sent := (gs_sent g)(c := gs_sent g c @ [f])\<rparr>"
  have "guest_write env c f g = (?g1, Ok ())"
    using Cons.prems by (auto simp: guest_write_def fits_def split: sum.splits)
  then show ?case using Cons.IH [of ?g1] Cons.prems by (simp add: and_then_def cong: if_cong)
qed (simp add: ok_def)

lemma exec_answer:
  assumes "c \<notin> set (gs_closed g)" and "run_exec (av_os env) i argv en cwd t (gs_os g) = Some (k, fs)"
    and "list_all (fits (av_postcard env)) fs"
  shows "guest_answer env c (ExecReq i argv en cwd t) g =
    Some (g\<lparr>gs_os := k, gs_sent := (gs_sent g)(c := gs_sent g c @ fs)\<rparr>, fs)"
  using assms write_all_answer [of c "g\<lparr>gs_os := k\<rparr>" env fs] by (simp add: guest_answer_def)

section \<open>Properties\<close>

lemma stream_output:
  fixes env :: "'k agent_env" and g :: "'k guest"
  assumes "postcard_roundtrip (av_postcard env)" and "list_all (fits (av_postcard env)) (output_frames i x out err)"
  shows "conn_stream (av_postcard env) exec_texts i exec_channel 0
      ((new_conn g)\<lparr>ac_in := encode_all (av_postcard env) (output_frames i x out err)\<rparr>) =
    (new_conn g, (if out = [] then [] else [EvStdout out]) @ (if err = [] then [] else [EvStderr err]) @ [EvExit (sint x)], Ok ())"
proof -
  define fs where "fs = (if out \<noteq> [] then [Stdout i out] else []) @ (if err \<noteq> [] then [Stderr i err] else [])"
  have split: "output_frames i x out err = fs @ [Exited i x]" by (simp add: output_frames_def fs_def)
  have "conn_stream (av_postcard env) exec_texts i exec_channel 0
      ((new_conn g)\<lparr>ac_in := encode_all (av_postcard env) (fs @ [Exited i x])\<rparr>) =
      ((new_conn g)\<lparr>ac_in := []\<rparr>, map (\<lambda>f. the (event_of i f)) fs @ [EvExit (sint x)], Ok ())"
    using assms by (intro gp.stream_answer) (auto simp: split fs_def exec_channel_def split: if_splits)
  then show ?thesis by (simp add: split) (simp add: fs_def new_conn_def)
qed


definition exec_frames :: "frame list" where
  "exec_frames = [ExecReq ''x'' [''sh''] [] None 5, Stdout ''x'' [104, 105], Exited ''x'' 0]"

lemma table_fits_nth: "frame_position f (take 256 fs) \<noteq> None \<Longrightarrow> fits (table_postcard fs) f"
  using table_fits [of f fs] by (auto simp: fits_def)

lemma script_postcard: "av_postcard (script_env fs) = table_postcard fs"
  by (simp add: script_env_def)


lemma write_file_answer:
  assumes "c \<notin> set (gs_closed g)" and "write_file (av_kernel env) (av_clock env (gs_os g)) path mode content (gs_fs g) = (fs', r)"
    and "fits (av_postcard env) (file_response r)"
  shows "guest_answer env c (WriteFile path mode content) g =
    Some (g\<lparr>gs_fs := fs', gs_sent := (gs_sent g)(c := gs_sent g c @ [file_response r])\<rparr>, [file_response r])"
  using write_answer [of c "g\<lparr>gs_fs := fs'\<rparr>" env "file_response r" g "WriteFile path mode content"] assms by simp

lemma read_file_answer:
  assumes "c \<notin> set (gs_closed g)" and "fits (av_postcard env) (file_response (read_file (av_kernel env) path offset n (gs_fs g)))"
  shows "guest_answer env c (ReadFile path offset n) g =
    Some (g\<lparr>gs_sent := (gs_sent g)(c := gs_sent g c @ [file_response (read_file (av_kernel env) path offset n (gs_fs g))])\<rparr>,
          [file_response (read_file (av_kernel env) path offset n (gs_fs g))])"
  using write_answer [OF assms refl] by simp

lemma list_dir_answer:
  assumes "c \<notin> set (gs_closed g)" and "fits (av_postcard env) (file_response (guest_list_dir (av_kernel env) path (gs_fs g)))"
  shows "guest_answer env c (ListDir path) g =
    Some (g\<lparr>gs_sent := (gs_sent g)(c := gs_sent g c @ [file_response (guest_list_dir (av_kernel env) path (gs_fs g))])\<rparr>,
          [file_response (guest_list_dir (av_kernel env) path (gs_fs g))])"
  using write_answer [OF assms refl] by simp

text \<open>C10: a file written through a connection is read back through it. When the agent has written the file,
  \<open>write_file\<close> returns on the host, a \<open>read_file\<close> of the path on the same connection returns the bytes written
  whatever the path held before, no other file of the guest has changed and its tree is still well formed.\<close>

theorem file_roundtrip:
  fixes env :: "'k agent_env"
  defines "ops \<equiv> av_postcard env"
  assumes "postcard_roundtrip ops" and "c \<notin> set (gs_closed g)" and "fs_ok (gs_fs g)"
    and "write_file (av_kernel env) (av_clock env (gs_os g)) path mode content (gs_fs g) = (fs', Ok f)"
    and "gk_read_fault (av_kernel env) (resolve (av_kernel env) (components path)) = None" and "length content < 2 ^ 64"
    and "\<forall>h\<in>{WriteFile path mode content, WriteFileResult path, ReadFile path 0 (- 1), ReadFileResult path content}. fits ops h"
  shows "\<exists>g1 g2. conn_write_file ops dbg (guest_peer env c) path content mode (new_conn g) = (new_conn g1, Ok ())
     \<and> conn_read_file ops dbg (guest_peer env c) path (new_conn g1) = (new_conn g2, Ok content)
     \<and> gs_fs g2 = fs' \<and> fs_ok fs' \<and> same_files {resolve (av_kernel env) (components path)} (gs_fs g) fs'"
proof -
  let ?k = "av_kernel env"
  note kept = write_file_keeps [OF assms(4,5) refl]
  have f: "f = WriteFileResult path" using kept by simp
  have fit: "fits ops (file_response (Ok f))" using assms(8) by (simp add: file_response_def f)
  let ?g1 = "g\<lparr>gs_fs := fs', gs_sent := (gs_sent g)(c := gs_sent g c @ [file_response (Ok f)])\<rparr>"
  note a1 = write_file_answer [OF assms(3,5) fit [unfolded ops_def]]
  have w: "conn_write_file ops dbg (guest_peer env c) path content mode (new_conn g) = (new_conn ?g1, Ok ())"
    using gp.write_file_reply [OF assms(2) [unfolded ops_def] _ a1 fit [unfolded ops_def]] assms(8)
    by (simp add: ops_def file_response_def f ok_def)
  have "unat (- 1 :: u64) = 2 ^ 64 - 1" by (simp add: unsigned_minus_1_eq_mask mask_eq_exp_minus_1)
  then have "take (unat (- 1 :: u64)) content = content" using assms(7) by simp
  then have "read_file ?k path 0 (- 1) fs' = Ok (ReadFileResult path content)"
    using write_then_read [OF assms(4,5,7,6), of 0 "- 1"] by simp
  then have r: "file_response (read_file ?k path 0 (- 1) (gs_fs ?g1)) = ReadFileResult path content"
    by (simp add: file_response_def)
  have "fits ops (file_response (read_file ?k path 0 (- 1) (gs_fs ?g1)))" unfolding r using assms(8) by simp
  note a2 = read_file_answer [OF _ this [unfolded ops_def], of c]
  obtain g2 where "conn_read_file ops dbg (guest_peer env c) path (new_conn ?g1) = (new_conn g2, Ok content)" "gs_fs g2 = fs'"
  proof -
    let ?g2 = "?g1\<lparr>gs_sent := (gs_sent ?g1)(c := gs_sent ?g1 c @ [ReadFileResult path content])\<rparr>"
    have "conn_read_file ops dbg (guest_peer env c) path (new_conn ?g1) = (new_conn ?g2, Ok content)"
      using gp.read_file_reply [OF assms(2) [unfolded ops_def] _ a2 [unfolded r]] assms(3,8)
      by (simp add: ops_def ok_def)
    then show thesis by (rule that) simp
  qed
  then show ?thesis using w kept by (auto simp: keeps_tree_def)
qed

definition note_frames :: "frame list" where
  "note_frames = [WriteFile ''/n/a'' 420 [104], WriteFileResult ''/n/a'', ReadFile ''/n/a'' 0 (- 1), ReadFileResult ''/n/a'' [104]]"

theorem file_roundtrip_witness:
  "\<exists>g1 g2. conn_write_file (table_postcard note_frames) (\<lambda>f. []) (guest_peer (script_env note_frames) 1) ''/n/a'' [104] 420
        (new_conn (script_guest [] False)) = (new_conn g1, Ok ())
     \<and> conn_read_file (table_postcard note_frames) (\<lambda>f. []) (guest_peer (script_env note_frames) 1) ''/n/a'' (new_conn g1) =
        (new_conn g2, Ok [104])"
proof -
  let ?env = "script_env note_frames" and ?g = "script_guest [] False"
  have comps: "components ''/n/a'' = [RootDir, Normal ''n'', Normal ''a'']" by code_simp
  have dir: "\<not> names_dir ''/n/a''" by code_simp
  have run: "write_file (av_kernel ?env) (av_clock ?env (gs_os ?g)) ''/n/a'' 420 [104] (gs_fs ?g) =
      ([([], FsDir 493 0), ([''n''], FsDir 493 0), ([''n'', ''a''], FsFile 420 [104] 0)], Ok (WriteFileResult ''/n/a''))"
    using dir by (simp add: script_defs write_file_def guest_path_def comps parent_def create_dir_all_def has_nul_def resolve_def
        create_node_def touch_def fs_write_def write_open_def set_permissions_def file_mode_def dir_mode_def nul_def
        hm_get_def hm_insert_def Let_def)
  have tree: "fs_ok (gs_fs ?g)" by (auto simp: script_guest_def fs_ok_def dir_at_def hm_ok_def hm_get_def split: if_splits)
  have rt: "postcard_roundtrip (av_postcard ?env)" by (simp add: script_postcard table_roundtrip)
  have closed: "1 \<notin> set (gs_closed ?g)" by (simp add: script_guest_def)
  have fault: "gk_read_fault (av_kernel ?env) (resolve (av_kernel ?env) (components ''/n/a'')) = None"
    by (simp add: script_env_def plain_kernel_def)
  have "\<forall>h\<in>set note_frames. fits (av_postcard ?env) h"
    by (simp add: script_postcard, intro ballI table_fits_nth) (auto simp: note_frames_def)
  then have fit: "\<forall>h\<in>{WriteFile ''/n/a'' 420 [104], WriteFileResult ''/n/a'', ReadFile ''/n/a'' 0 (- 1), ReadFileResult ''/n/a'' [104]}.
      fits (av_postcard ?env) h"
    by (simp add: note_frames_def)
  have "length [104 :: byte] < 2 ^ 64" by simp
  from file_roundtrip [OF rt closed tree run fault this fit] show ?thesis unfolding script_postcard by blast
qed

text \<open>C20: a path that leaves its root is refused end to end. A path with a parent component is refused by the
  agent for writing, reading and listing; the host gets an error of the call, the files of the guest are as they
  were and the connection is idle again.\<close>

theorem escape_refused:
  fixes env :: "'k agent_env"
  defines "ops \<equiv> av_postcard env" and "message path \<equiv> ''path traversal is not allowed: '' @ path"
  assumes "postcard_roundtrip ops" and "c \<notin> set (gs_closed g)" and "''..'' \<in> set (split_on (CHR ''/'') path)"
    and "\<forall>h\<in>{WriteFile path mode content, ReadFile path 0 (- 1), ListDir path, ErrorFrame (message path) 3}. fits ops h"
  shows "\<exists>g'. gs_fs g' = gs_fs g
     \<and> conn_write_file ops dbg (guest_peer env c) path content mode (new_conn g) =
         (new_conn g', Err (Fails (io_error (''guest write_file '' @ path @ '': '' @ message path))))
     \<and> conn_read_file ops dbg (guest_peer env c) path (new_conn g) =
         (new_conn g', Err (Fails (guest_fs_error ''read_file'' path (message path))))
     \<and> conn_list_dir ops dbg (guest_peer env c) path (new_conn g) =
         (new_conn g', Err (Fails (guest_fs_error ''list_dir'' path (message path))))"
proof -
  let ?k = "av_kernel env" and ?e = "ErrorFrame (message path) 3"
  let ?g' = "g\<lparr>gs_sent := (gs_sent g)(c := gs_sent g c @ [?e])\<rparr>"
  note refused = traversal_refused [OF iffD2 [OF parent_component_iff assms(5)], folded message_def]
  have fit: "fits (av_postcard env) ?e" using assms(6) by (simp add: ops_def)
  have e: "file_response (Err (message path)) = ?e" by (simp add: file_response_def)
  have a: "guest_answer env c (WriteFile path mode content) g = Some (?g', [?e])"
    "guest_answer env c (ReadFile path 0 (- 1)) g = Some (?g', [?e])"
    "guest_answer env c (ListDir path) g = Some (?g', [?e])"
    using write_file_answer [OF assms(4) refused(1)] read_file_answer [OF assms(4), of env path 0 "- 1"]
      list_dir_answer [OF assms(4), of env path] fit
    by (simp_all add: refused(2,3) e)
  note rt = assms(3) [unfolded ops_def]
  have "conn_write_file ops dbg (guest_peer env c) path content mode (new_conn g) =
      (new_conn ?g', Err (Fails (io_error (''guest write_file '' @ path @ '': '' @ message path))))"
    using gp.write_file_reply [OF rt _ a(1) fit] assms(6) by (simp add: ops_def refused_def throw_def)
  moreover have "conn_read_file ops dbg (guest_peer env c) path (new_conn g) =
      (new_conn ?g', Err (Fails (guest_fs_error ''read_file'' path (message path))))"
    using gp.read_file_reply [OF rt _ a(2) fit] assms(6) by (simp add: ops_def refused_def throw_def)
  moreover have "conn_list_dir ops dbg (guest_peer env c) path (new_conn g) =
      (new_conn ?g', Err (Fails (guest_fs_error ''list_dir'' path (message path))))"
    using gp.list_dir_reply [OF rt _ a(3) fit] assms(6) by (simp add: ops_def refused_def throw_def)
  ultimately show ?thesis by (intro exI [of _ ?g']) simp
qed

definition escape_frames :: "frame list" where
  "escape_frames = [WriteFile ''/../x'' 420 [104], ReadFile ''/../x'' 0 (- 1), ListDir ''/../x'',
     ErrorFrame ''path traversal is not allowed: /../x'' 3]"

theorem escape_refused_witness:
  "snd (conn_write_file (table_postcard escape_frames) (\<lambda>f. []) (guest_peer (script_env escape_frames) 1) ''/../x'' [104] 420
      (new_conn (script_guest [] False))) =
   Err (Fails (io_error ''guest write_file /../x: path traversal is not allowed: /../x''))"
proof -
  let ?env = "script_env escape_frames" and ?g = "script_guest [] False"
  have rt: "postcard_roundtrip (av_postcard ?env)" by (simp add: script_postcard table_roundtrip)
  have closed: "1 \<notin> set (gs_closed ?g)" by (simp add: script_guest_def)
  have dots: "''..'' \<in> set (split_on (CHR ''/'') ''/../x'')" by code_simp
  have "\<forall>h\<in>set escape_frames. fits (av_postcard ?env) h"
    by (simp add: script_postcard, intro ballI table_fits_nth) (auto simp: escape_frames_def)
  then have fit: "\<forall>h\<in>{WriteFile ''/../x'' 420 [104], ReadFile ''/../x'' 0 (- 1), ListDir ''/../x'',
      ErrorFrame (''path traversal is not allowed: '' @ ''/../x'') 3}. fits (av_postcard ?env) h"
    by (simp add: escape_frames_def)
  show ?thesis using escape_refused [OF rt closed dots fit, of "\<lambda>f. []"] unfolding script_postcard by auto
qed

text \<open>The agent's text names the path, and the host takes the kind of the error from the text: a path whose
  name says \<open>not found\<close> turns a refusal into a file that does not exist.\<close>

lemma refusal_misread:
  "err_kind (guest_fs_error ''read_file'' ''/../x'' ''path traversal is not allowed: /../x'') = EkVmm"
  "err_kind (guest_fs_error ''read_file'' ''/../not found'' ''path traversal is not allowed: /../not found'') = EkNotFound"
  by code_simp+

section \<open>What a reader of a process misses\<close>

lemma exit_ends_stream:
  assumes "postcard_roundtrip ops" and "fits ops (Exited i x)" and "send n = Taken"
  shows "conn_stream ops tx i send n (c\<lparr>ac_in := encode_all ops (Exited i x # fs)\<rparr>) =
    (c\<lparr>ac_in := encode_all ops fs\<rparr>, [EvExit (sint x)], Ok ())"
  using read_frame_encode_all [OF assms(1,2), of fs] assms(3) by (subst conn_stream.simps) simp

text \<open>The output of a process without a terminal can be lost. There is a run of the agent in which a
  process writes two bytes and exits, and in which the host, reading every byte the agent sends, reports a
  successful exit and no output.\<close>

lemma piped_output_lost:
  "\<exists>g g'. serve_frame (script_env script_frames) 1 pipe_start (script_guest [104, 105] False) = Some (g, Ok ())
     \<and> guest_run (script_env script_frames) g [Advanced 2, Advanced 0] g'
     \<and> (\<exists>rest. conn_process_events (table_postcard script_frames) (\<lambda>f. []) ''p'' (\<lambda>n. Taken)
          ((new_conn g')\<lparr>ac_in := encode_all (table_postcard script_frames) (tl (gs_sent g' 1))\<rparr>) = (rest, [EvExit 0], Ok ()))"
proof -
  obtain g g' where start: "serve_frame (script_env script_frames) 1 pipe_start (script_guest [104, 105] False) = Some (g, Ok ())"
    and run: "guest_run (script_env script_frames) g [Advanced 2, Advanced 0] g'"
    and sent: "gs_sent g' 1 = [ProcessStarted ''p'' 7, Exited ''p'' 0, Stdout ''p'' [104, 105]]"
    using pipe_exit_overtakes by blast
  have fit: "fits (table_postcard script_frames) (Exited ''p'' 0)"
    by (rule table_fits_nth) (simp add: script_frames_def)
  have "\<exists>rest. conn_process_events (table_postcard script_frames) (\<lambda>f. []) ''p'' (\<lambda>n. Taken)
      ((new_conn g')\<lparr>ac_in := encode_all (table_postcard script_frames) (tl (gs_sent g' 1))\<rparr>) = (rest, [EvExit 0], Ok ())"
    unfolding conn_process_events_def sent list.sel by (simp add: exit_ends_stream [OF table_roundtrip fit])
  then show ?thesis using start run by blast
qed

end
