(* ===== verification/Guest_Init.thy ===== *)
theory Guest_Init
  imports Guest_Agent Firewall
begin

text \<open>
  How the agent starts: the command line of \<open>crates/clouisle-agent/src/main.rs\<close>, the boot parameters, mounts
  and network set-up of \<open>init.rs\<close> and the choice of \<open>run_serve_with\<close>. The netlink requests are calls of a
  parameter, in the order the code makes them; the files are those of \<open>Guest_Files\<close>. The lemmas show which
  boot parameters are needed, that a later parameter of the same name wins, and that the network is set up
  with exactly the address and the gateway of the command line.
\<close>

section \<open>Boot parameters\<close>

fun words_of :: "string \<Rightarrow> string \<Rightarrow> string list" where
  "words_of w [] = (if w = [] then [] else [w])"
| "words_of w (c # cs) =
     (if is_whitespace c then (if w = [] then words_of [] cs else w # words_of [] cs) else words_of (w @ [c]) cs)"

definition split_whitespace :: "string \<Rightarrow> string list" where
  "split_whitespace s = words_of [] s"

definition cmdline_token :: "string \<Rightarrow> (string \<times> string) option" where
  "cmdline_token token =
     map_option (\<lambda>rest. case split_once (CHR ''='') rest of Some kv \<Rightarrow> kv | None \<Rightarrow> (rest, ''true''))
       (strip_prefix ''clouisle.'' token)"

definition parse_cmdline :: "string \<Rightarrow> (string, string) hashmap" where
  "parse_cmdline s =
     foldl (\<lambda>m token. case cmdline_token token of Some (k, v) \<Rightarrow> hm_insert k v m | None \<Rightarrow> m) [] (split_whitespace s)"

definition init_boot :: "string \<Rightarrow> (unit, string) result" where
  "init_boot s =
     (if hm_get (parse_cmdline s) ''fail_at'' = Some ''overlay''
      then Err ''clouisle-init: overlay mount failed (injected)'' else Ok ())"

section \<open>Mounts\<close>

type_synonym 'a boot = "(guest_fs, 'a, string) comp"

definition ensure_mounted :: "guest_kernel \<Rightarrow> int \<Rightarrow> string \<Rightarrow> string \<Rightarrow> string \<Rightarrow> unit boot" where
  "ensure_mounted k now fstype target what fs =
     (case gk_mount k fstype target fs of
        (fs1, MountFailed e) \<Rightarrow> (fs1, Err (''mount '' @ what @ '': '' @ e))
      | (fs1, _) \<Rightarrow> (fs1, Ok ()))"

definition ensure_dir :: "guest_kernel \<Rightarrow> int \<Rightarrow> string \<Rightarrow> unit boot" where
  "ensure_dir k now path fs =
     (case create_dir_all k now (components path) fs of
        (fs1, Err e) \<Rightarrow> (fs1, Err (''create '' @ path @ '': '' @ e)) | (fs1, Ok _) \<Rightarrow> (fs1, Ok ()))"

definition ensure_dev_mounted :: "guest_kernel \<Rightarrow> int \<Rightarrow> unit boot" where
  "ensure_dev_mounted k now =
     and_then (ensure_dir k now ''/dev/pts'') (\<lambda>_.
     and_then (ensure_mounted k now ''devtmpfs'' ''/dev'' ''devtmpfs'') (\<lambda>_.
     ensure_mounted k now ''devpts'' ''/dev/pts'' ''devpts''))"

definition ensure_proc_mounted :: "guest_kernel \<Rightarrow> int \<Rightarrow> unit boot" where
  "ensure_proc_mounted k now =
     and_then (ensure_dir k now ''/proc'') (\<lambda>_. ensure_mounted k now ''proc'' ''/proc'' ''/proc'')"

definition ensure_sys_mounted :: "guest_kernel \<Rightarrow> int \<Rightarrow> unit boot" where
  "ensure_sys_mounted k now =
     and_then (ensure_dir k now ''/sys'') (\<lambda>_. ensure_mounted k now ''sysfs'' ''/sys'' ''sysfs'')"

section \<open>The network\<close>

text \<open>The requests to netlink, with the answers of the kernel: the index of a link, and whether a request
  was carried out.\<close>

datatype netlink_request = LinkUp nat | AddressReplace nat string nat | RouteReplace nat string

record netlink =
  nl_open :: "string option"
  nl_find :: "string \<Rightarrow> (nat option, string) result"
  nl_apply :: "netlink_request \<Rightarrow> string option"

definition boot_param :: "(string, string) hashmap \<Rightarrow> string \<Rightarrow> (string, string) result" where
  "boot_param params name =
     (case hm_get params name of
        None \<Rightarrow> Err (''clouisle.'' @ name @ '' not set in cmdline'')
      | Some v \<Rightarrow> if is_ipv4_addr v then Ok v else Err (''invalid clouisle.'' @ name @ '': invalid IPv4 address syntax''))"

fun send_requests :: "netlink \<Rightarrow> (netlink_request \<times> string) list \<Rightarrow> netlink_request list \<times> (unit, string) result" where
  "send_requests sock [] = ([], Ok ())"
| "send_requests sock ((r, what) # rest) =
     (case nl_apply sock r of
        Some e \<Rightarrow> ([r], Err (what @ '': '' @ e))
      | None \<Rightarrow> (case send_requests sock rest of (done, x) \<Rightarrow> (r # done, x)))"

definition setup_link :: "netlink \<Rightarrow> string \<Rightarrow> string \<Rightarrow> netlink_request list \<times> (unit, string) result" where
  "setup_link sock ip gw =
     (case nl_open sock of
        Some e \<Rightarrow> ([], Err (''open netlink: '' @ e))
      | None \<Rightarrow>
          (case nl_find sock ''eth0'' of
             Err e \<Rightarrow> ([], Err (''find eth0: '' @ e))
           | Ok None \<Rightarrow> ([], Err ''eth0 not found'')
           | Ok (Some index) \<Rightarrow>
               send_requests sock
                 [(LinkUp index, ''bring eth0 up''),
                  (AddressReplace index ip 30, ''assign guest address''),
                  (RouteReplace index gw, ''install guest default route'')]))"

definition read_cmdline :: "guest_kernel \<Rightarrow> (byte list \<Rightarrow> (string, string) result) \<Rightarrow> guest_fs \<Rightarrow> string" where
  "read_cmdline k utf8_of fs =
     (case fs_read k ''/proc/cmdline'' fs of
        Err _ \<Rightarrow> [] | Ok bs \<Rightarrow> (case utf8_of bs of Ok s \<Rightarrow> s | Err _ \<Rightarrow> []))"

text \<open>\<open>remove_file\<close>: the node goes when it is a file; its outcome is ignored.\<close>

definition remove_file :: "guest_kernel \<Rightarrow> string \<Rightarrow> guest_fs \<Rightarrow> guest_fs" where
  "remove_file k p fs =
     (let q = resolve k (components p) in
      case hm_get fs q of
        Some (FsFile _ _ _) \<Rightarrow> if gk_refuse k q = None then hm_remove q fs else fs
      | _ \<Rightarrow> fs)"

definition configure_network ::
  "guest_kernel \<Rightarrow> (byte list \<Rightarrow> (string, string) result) \<Rightarrow> netlink \<Rightarrow> int \<Rightarrow> guest_fs
   \<Rightarrow> guest_fs \<times> netlink_request list \<times> (unit, string) result" where
  "configure_network k utf8_of sock now fs =
     (case and_then (ensure_dev_mounted k now) (\<lambda>_.
           and_then (ensure_proc_mounted k now) (\<lambda>_. ensure_sys_mounted k now)) fs of
        (fs1, Err e) \<Rightarrow> (fs1, [], Err e)
      | (fs1, Ok _) \<Rightarrow>
          (let params = parse_cmdline (read_cmdline k utf8_of fs1) in
           case boot_param params ''guest_ip'' of
             Err e \<Rightarrow> (fs1, [], Err e)
           | Ok ip \<Rightarrow>
               (case boot_param params ''gateway'' of
                  Err e \<Rightarrow> (fs1, [], Err e)
                | Ok gw \<Rightarrow>
                    (let fs2 = fst (fs_write k now ''/etc/resolv.conf'' (as_bytes (''nameserver '' @ gw @ [CHR 0x0A]))
                                     (remove_file k ''/etc/resolv.conf'' fs1))
                     in (fs2, setup_link sock ip gw)))))"

section \<open>Starting\<close>

record serve_config =
  sv_skip_network_config :: bool

fun serve_flags :: "string list \<Rightarrow> serve_config \<Rightarrow> (serve_config, string) result" where
  "serve_flags [] config = Ok config"
| "serve_flags (flag # flags) config =
     (if flag = ''--skip-network-config'' then serve_flags flags (config\<lparr>sv_skip_network_config := True\<rparr>)
      else Err (''unknown serve flag: '' @ flag))"

definition parse_mode :: "string list \<Rightarrow> (serve_config, string) result" where
  "parse_mode args =
     (case args of
        [] \<Rightarrow> Ok \<lparr>sv_skip_network_config = False\<rparr>
      | command # flags \<Rightarrow>
          if command \<noteq> ''serve''
          then Err (''usage: clouisle-agent [serve [--skip-network-config]]; got `'' @ command @ ''`'')
          else serve_flags flags \<lparr>sv_skip_network_config = False\<rparr>)"

text \<open>\<open>run_serve_with\<close> up to its accept loop: the network unless told otherwise, then the listener.\<close>

definition run_serve_with ::
  "guest_kernel \<Rightarrow> (byte list \<Rightarrow> (string, string) result) \<Rightarrow> netlink \<Rightarrow> int \<Rightarrow> string option \<Rightarrow> serve_config \<Rightarrow> guest_fs
   \<Rightarrow> guest_fs \<times> netlink_request list \<times> (unit, string) result" where
  "run_serve_with k utf8_of sock now bind_error config fs =
     (let listen = (case bind_error of Some e \<Rightarrow> Err (''io error: '' @ e) | None \<Rightarrow> Ok ()) in
      if sv_skip_network_config config then (fs, [], listen)
      else (case configure_network k utf8_of sock now fs of
              (fs1, reqs, Err e) \<Rightarrow> (fs1, reqs, Err (''command failed: '' @ e))
            | (fs1, reqs, Ok _) \<Rightarrow> (fs1, reqs, listen)))"
section \<open>What the parameters decide\<close>

definition last_value :: "string \<Rightarrow> (string \<times> string) list \<Rightarrow> string option" where
  "last_value key kvs = map_of (rev kvs) key"

lemma parse_tokens:
  "hm_get (foldl (\<lambda>m token. case cmdline_token token of Some (k, v) \<Rightarrow> hm_insert k v m | None \<Rightarrow> m) m ts) key =
    (case last_value key (List.map_filter cmdline_token ts) of Some v \<Rightarrow> Some v | None \<Rightarrow> hm_get m key)"
proof (induction ts arbitrary: m)
  case (Cons t ts)
  show ?case
    by (cases "cmdline_token t")
      (auto simp: Cons.IH last_value_def map_filter_simps map_add_def split: option.split)
qed (simp add: last_value_def map_filter_simps)

lemma parse_cmdline_last:
  "hm_get (parse_cmdline s) key = last_value key (List.map_filter cmdline_token (split_whitespace s))"
  by (simp add: parse_cmdline_def parse_tokens split: option.split)

lemma send_requests_Ok: "send_requests sock rs = (sent, Ok ()) \<Longrightarrow> sent = map fst rs"
  by (induction rs arbitrary: sent) (auto split: option.splits prod.splits)

text \<open>A guest that reports a configured network has sent netlink exactly three requests: the link up, the
  address of the command line with a prefix of 30 bits, and the gateway of the command line as default route.\<close>

lemma configured_as_told:
  assumes "configure_network k utf8_of sock now fs = (fs', reqs, Ok ())"
  obtains cmdline index ip gw where
    "last_value ''guest_ip'' (List.map_filter cmdline_token (split_whitespace cmdline)) = Some ip"
    "last_value ''gateway'' (List.map_filter cmdline_token (split_whitespace cmdline)) = Some gw"
    "is_ipv4_addr ip" "is_ipv4_addr gw" "nl_find sock ''eth0'' = Ok (Some index)"
    "reqs = [LinkUp index, AddressReplace index ip 30, RouteReplace index gw]"
proof -
  have linked: "\<exists>index. nl_find sock ''eth0'' = Ok (Some index) \<and>
      reqs = [LinkUp index, AddressReplace index ip 30, RouteReplace index gw]"
    if "setup_link sock ip gw = (reqs, Ok ())" for ip gw
    using that by (auto simp: setup_link_def split: option.splits sum.splits dest: send_requests_Ok)
  from assms obtain fs1 ip gw where "setup_link sock ip gw = (reqs, Ok ())"
    and "boot_param (parse_cmdline (read_cmdline k utf8_of fs1)) ''guest_ip'' = Ok ip"
    and "boot_param (parse_cmdline (read_cmdline k utf8_of fs1)) ''gateway'' = Ok gw"
    by (auto simp: configure_network_def Let_def split: prod.splits sum.splits)
  then show thesis
    using linked that by (auto simp: boot_param_def parse_cmdline_last split: option.splits if_splits) blast
qed

end
