(* ===== verification/Node_Agent.thy ===== *)
theory Node_Agent
  imports Agent_Client
begin

text \<open>
  \<open>crates/clouisled/src/agent.rs\<close>: the node agent, which owns the machines of one host. Its state are
  the resource pool, the sandboxes of the host, their reservations and the firewall, together with the store
  of the daemon and the world outside. What lies outside the program is \<open>node_env\<close>. A call of the agent
  ends with an answer, an error of the program or a panic of its task, or waits for a guest that never
  answers (\<open>Never\<close>): the agent reads from a guest without a deadline. The calls are run one after
  the other.
\<close>

section \<open>Configuration, environment and state\<close>

record node_config =
  ng_node_id :: string
  ng_hostname :: string
  ng_total_vcpu :: u16
  ng_total_memory_mb :: u64
  ng_total_disk_mb :: u64
  ng_kvm_available :: bool
  ng_kernel_version :: string
  ng_firecracker_version :: string
  ng_labels :: "(string, string) hashmap"
  ng_manage_network :: bool
  ng_heartbeat_secs :: u64

definition config_node_info :: "node_config \<Rightarrow> node_info" where
  "config_node_info cf = \<lparr>ni_node_id = ng_node_id cf, ni_hostname = ng_hostname cf, ni_total_vcpu = ng_total_vcpu cf,
     ni_total_memory_mb = ng_total_memory_mb cf, ni_total_disk_mb = ng_total_disk_mb cf,
     ni_kvm_available = ng_kvm_available cf, ni_kernel_version = ng_kernel_version cf,
     ni_firecracker_version = ng_firecracker_version cf, ni_labels = ng_labels cf\<rparr>"

text \<open>\<open>ne_connect\<close> is the attempt to connect to an address within five seconds, \<open>ne_peer\<close> what answers there and
  \<open>ne_write_fault\<close> the failure of the host's socket, if it has one.\<close>

record ('s, 'q, 'w) node_env =
  ne_config :: node_config
  ne_store :: "'s store_ops"
  ne_sem :: "'q semaphore_ops"
  ne_net :: "'w net_env"
  ne_postcard :: postcard_ops
  ne_version :: string
  ne_add_secs :: "time \<Rightarrow> int \<Rightarrow> time option"
  ne_now :: "'w \<Rightarrow> 'w \<times> time"
  ne_uuid :: "'w \<Rightarrow> 'w \<times> string"
  ne_elapsed_ms :: "'w \<Rightarrow> u64"
  ne_debug_errors :: "field_error list \<Rightarrow> string"
  ne_debug_frame :: "frame \<Rightarrow> string"
  ne_requires_guest_agent :: bool
  ne_connect :: "string \<Rightarrow> 'w \<Rightarrow> 'w \<times> connect_end"
  ne_write_fault :: "string \<Rightarrow> 'w \<Rightarrow> (nat \<times> string) option"
  ne_peer :: "string \<Rightarrow> 'w peer"
  ne_vm_create :: "string \<Rightarrow> sandbox_spec \<Rightarrow> 'w \<Rightarrow> 'w \<times> (vm_handle, clouisle_error) result"
  ne_vm_start :: "vm_handle \<Rightarrow> 'w \<Rightarrow> 'w \<times> (unit, clouisle_error) result"
  ne_vm_stop :: "vm_handle \<Rightarrow> stop_mode \<Rightarrow> 'w \<Rightarrow> 'w \<times> (unit, clouisle_error) result"
  ne_vm_probe :: "vm_handle \<Rightarrow> 'w \<Rightarrow> 'w \<times> (bool, clouisle_error) result"
  ne_vm_discover :: "'w \<Rightarrow> 'w \<times> (vm_handle list, clouisle_error) result"

record ('s, 'q, 'w) node =
  nd_pool :: "'q resource_pool"
  nd_sandboxes :: "(string, sandbox) hashmap"
  nd_reservations :: "(string, resources) hashmap"
  nd_firewall :: firewall
  nd_store :: 's
  nd_world :: 'w

type_synonym ('s, 'q, 'w, 'a) node_comp = "(('s, 'q, 'w) node, 'a, fault stop) comp"

text \<open>The capacity of the pool: the memory and the disk of the host are cut to 32 bits.\<close>

definition node_capacity :: "node_config \<Rightarrow> resources" where
  "node_capacity cf = \<lparr>vcpu = ng_total_vcpu cf, memory_mb = ucast (ng_total_memory_mb cf),
     disk_mb = ucast (ng_total_disk_mb cf), bandwidth_mbps = None, iops = None, pids_max = None\<rparr>"

definition node_agent_new :: "('s, 'q, 'w) node_env \<Rightarrow> 's \<Rightarrow> 'w \<Rightarrow> ('s, 'q, 'w) node" where
  "node_agent_new env s w = \<lparr>
     nd_pool = resource_pool_new (ne_sem env) (node_capacity (ne_config env)) 200,
     nd_sandboxes = [], nd_reservations = [], nd_firewall = firewall_new, nd_store = s, nd_world = w\<rparr>"

record heartbeat_report =
  hr_node_id :: string
  hr_allocated_vcpu :: u16
  hr_allocated_memory_mb :: u64
  hr_running_sandboxes :: "string list"

definition node_heartbeat :: "('s, 'q, 'w) node_env \<Rightarrow> ('s, 'q, 'w) node \<Rightarrow> heartbeat_report" where
  "node_heartbeat env nd =
     (let sbs = hm_values (nd_sandboxes nd) in
      \<lparr>hr_node_id = ng_node_id (ne_config env),
       hr_allocated_vcpu = sum_list (map (\<lambda>sb. vcpu (sp_resources (sb_spec sb))) sbs),
       hr_allocated_memory_mb = sum_list (map (\<lambda>sb. ucast (memory_mb (sp_resources (sb_spec sb)))) sbs),
       hr_running_sandboxes = map sb_id (filter (\<lambda>sb. status_is_active (sb_status sb)) sbs)\<rparr>)"

section \<open>Calls\<close>

definition node_raise :: "clouisle_error \<Rightarrow> ('s, 'q, 'w, 'a) node_comp" where
  "node_raise e = throw (Fails (Raised e))"

definition node_raised :: "('a, clouisle_error) result \<Rightarrow> ('a, fault stop) result" where
  "node_raised r = map_sum (\<lambda>e. Fails (Raised e)) id r"

definition node_world :: "('w \<Rightarrow> 'w \<times> 'a) \<Rightarrow> ('s, 'q, 'w, 'a) node_comp" where
  "node_world f nd = (case f (nd_world nd) of (w', a) \<Rightarrow> (nd\<lparr>nd_world := w'\<rparr>, Ok a))"

definition node_call :: "('w \<Rightarrow> 'w \<times> ('a, clouisle_error) result) \<Rightarrow> ('s, 'q, 'w, 'a) node_comp" where
  "node_call f = and_then (node_world f) (\<lambda>r. lift_result (node_raised r))"

definition node_write :: "('s \<Rightarrow> 's \<times> (unit, store_error) result) \<Rightarrow> ('s, 'q, 'w, unit) node_comp" where
  "node_write f nd =
     (case f (nd_store nd) of (s', r) \<Rightarrow> (nd\<lparr>nd_store := s'\<rparr>, node_raised (map_sum from_store_error id r)))"

definition node_update :: "('s, 'q, 'w) node_env \<Rightarrow> string \<Rightarrow> sb_update \<Rightarrow> ('s, 'q, 'w, unit) node_comp" where
  "node_update env i u = and_then (node_world (ne_now env)) (\<lambda>now. node_write (so_update (ne_store env) now i u))"

text \<open>The error of a call as a value. A panic and a wait are not caught.\<close>

definition node_try :: "('s, 'q, 'w, 'a) node_comp \<Rightarrow> ('s, 'q, 'w, ('a, clouisle_error) result) node_comp" where
  "node_try m nd =
     (case m nd of
        (nd', Ok a) \<Rightarrow> (nd', Ok (Ok a))
      | (nd', Err (Fails (Raised e))) \<Rightarrow> (nd', Ok (Err e))
      | (nd', Err x) \<Rightarrow> (nd', Err x))"

definition node_ignore :: "('s, 'q, 'w, 'a) node_comp \<Rightarrow> ('s, 'q, 'w, unit) node_comp" where
  "node_ignore m = and_then (node_try m) (\<lambda>_. ok ())"

text \<open>A reservation that leaves the map is dropped and gives its permits back.\<close>

definition node_drop ::
  "('s, 'q, 'w) node_env \<Rightarrow> resources option \<Rightarrow> ('s, 'q, 'w) node \<Rightarrow> ('s, 'q, 'w) node" where
  "node_drop env r nd =
     (case r of None \<Rightarrow> nd | Some x \<Rightarrow> nd\<lparr>nd_pool := reservation_drop (ne_sem env) x (nd_pool nd)\<rparr>)"

definition node_keep ::
  "('s, 'q, 'w) node_env \<Rightarrow> string \<Rightarrow> resources \<Rightarrow> ('s, 'q, 'w) node \<Rightarrow> ('s, 'q, 'w) node" where
  "node_keep env i r nd =
     node_drop env (hm_get (nd_reservations nd) i) (nd\<lparr>nd_reservations := hm_insert i r (nd_reservations nd)\<rparr>)"

definition node_forget :: "('s, 'q, 'w) node_env \<Rightarrow> string \<Rightarrow> ('s, 'q, 'w) node \<Rightarrow> ('s, 'q, 'w) node" where
  "node_forget env i nd =
     node_drop env (hm_get (nd_reservations nd) i)
       (nd\<lparr>nd_sandboxes := hm_remove i (nd_sandboxes nd), nd_reservations := hm_remove i (nd_reservations nd)\<rparr>)"

definition node_insert :: "string \<Rightarrow> sandbox \<Rightarrow> ('s, 'q, 'w) node \<Rightarrow> ('s, 'q, 'w) node" where
  "node_insert i sb nd = nd\<lparr>nd_sandboxes := hm_insert i sb (nd_sandboxes nd)\<rparr>"

definition node_admit :: "('s, 'q, 'w) node_env \<Rightarrow> sandbox_spec \<Rightarrow> ('s, 'q, 'w, resources) node_comp" where
  "node_admit env sp nd =
     (case admit (ne_sem env) (nd_pool nd) sp of (p', r) \<Rightarrow> (nd\<lparr>nd_pool := p'\<rparr>, node_raised r))"

text \<open>A reservation in the hand of the running call is dropped when the call ends with an error.\<close>

definition node_holding ::
  "('s, 'q, 'w) node_env \<Rightarrow> resources \<Rightarrow> ('s, 'q, 'w, 'a) node_comp \<Rightarrow> ('s, 'q, 'w, 'a) node_comp" where
  "node_holding env r m nd =
     (case m nd of
        (nd', Err (Fails x)) \<Rightarrow> (node_drop env (Some r) nd', Err (Fails x))
      | q \<Rightarrow> q)"

section \<open>The guest\<close>

definition shown_error :: "clouisle_error \<Rightarrow> string" where
  "shown_error e = ''['' @ error_kind_str (err_kind e) @ ''] '' @ err_message e"

text \<open>Only a sandbox of this node that is running is connected to; the streamed execution says less when it
  refuses.\<close>

definition node_executable ::
  "bool \<Rightarrow> string \<Rightarrow> ('s, 'q, 'w, unit) node_comp" where
  "node_executable brief i nd =
     (nd, case hm_get (nd_sandboxes nd) i of
            None \<Rightarrow> node_raised (Err (not_found (''sandbox '' @ i @ '' not on this node'')))
          | Some sb \<Rightarrow>
              if sandbox_is_executable sb then Ok ()
              else node_raised (Err (invalid_state (''sandbox '' @ i @ '' is not running'' @
                (if brief then [] else '' (status='' @ status_str (sb_status sb) @ '')'')))))"

definition guest_client :: "('w, 'a) client \<Rightarrow> 'w conn \<Rightarrow> ('s, 'q, 'w, 'a \<times> 'w conn) node_comp" where
  "guest_client m c nd =
     (case m c of
        (c', r) \<Rightarrow>
          (nd\<lparr>nd_world := ac_peer c'\<rparr>, case r of Ok a \<Rightarrow> Ok (a, c') | Err x \<Rightarrow> Err (map_stop Raised x)))"

definition node_connect :: "('s, 'q, 'w) node_env \<Rightarrow> string \<Rightarrow> ('s, 'q, 'w, 'w conn) node_comp" where
  "node_connect env ip =
     and_then (node_world (ne_connect env (ip @ '':5201''))) (\<lambda>r.
     case r of
       ConnectElapsed \<Rightarrow> node_raise (timeout_error ''guest agent connect timed out'')
     | ConnectFailed e \<Rightarrow> node_raise (io_error (''connect guest agent: '' @ e))
     | Connected \<Rightarrow> (\<lambda>nd. (nd, Ok ((new_conn (nd_world nd))\<lparr>ac_fault := ne_write_fault env (ip @ '':5201'') (nd_world nd)\<rparr>))))"

text \<open>The connection with the greeting, and one exchange over it. The four operations of the agent contain
  the same text.\<close>

definition guest_session ::
  "('s, 'q, 'w) node_env \<Rightarrow> bool \<Rightarrow> string \<Rightarrow> ('w peer \<Rightarrow> ('w, 'a) client) \<Rightarrow> ('s, 'q, 'w, 'a \<times> 'w conn) node_comp" where
  "guest_session env brief i m =
     and_then (node_executable brief i) (\<lambda>_.
     let ip = guest_ip (ne_net env) i; peer = ne_peer env (ip @ '':5201'') in
     if \<not> is_ipv4_addr ip then node_raise (io_error ''invalid guest address: invalid socket address syntax'')
     else
       and_then (node_connect env ip) (\<lambda>c.
       guest_client
         (and_then (exchange_hello (ne_postcard env) peer (ne_version env) ''send guest hello'' ''read guest hello''
            ''guest did not return Hello'') (\<lambda>_. m peer)) c))"

definition guest_frame_connection :: "('s, 'q, 'w) node_env \<Rightarrow> string \<Rightarrow> ('s, 'q, 'w, 'w conn) node_comp" where
  "guest_frame_connection env i = and_then (guest_session env False i (\<lambda>_. ok ())) (\<lambda>(_, c). ok c)"

definition node_file_op :: "('s, 'q, 'w) node_env \<Rightarrow> string \<Rightarrow> frame \<Rightarrow> ('s, 'q, 'w, frame) node_comp" where
  "node_file_op env i request =
     and_then (guest_session env False i (\<lambda>peer.
       and_then (conn_send (ne_postcard env) peer ''send guest file request'' request) (\<lambda>_.
       and_then (conn_read (ne_postcard env) ''read guest file response'') (\<lambda>f.
       case f of
         ErrorFrame message _ \<Rightarrow> refused (new_error EkVmm (''guest file operation: '' @ message))
       | _ \<Rightarrow> ok f)))) (\<lambda>(f, _). ok f)"

section \<open>Execution\<close>

definition node_exec_texts :: stream_texts where
  "node_exec_texts = \<lparr>sx_read = ''read guest exec output'', sx_gone = Ok (),
     sx_error = (\<lambda>m. new_error EkVmm (''guest exec: '' @ m)), sx_other = (\<lambda>_. invalid_state ''unexpected guest exec frame'')\<rparr>"

text \<open>The request and the loop over the frames of its output. The events are those of \<open>NodeExecEvent\<close>.\<close>

definition peer_world :: "('w \<Rightarrow> 'w \<times> 'a) \<Rightarrow> ('w, 'a) client" where
  "peer_world f c = (case f (ac_peer c) of (w', a) \<Rightarrow> (c\<lparr>ac_peer := w'\<rparr>, Ok a))"

definition exec_exchange ::
  "('s, 'q, 'w) node_env \<Rightarrow> string list \<Rightarrow> (string, string) hashmap \<Rightarrow> string option \<Rightarrow> u64 \<Rightarrow> (nat \<Rightarrow> send_end)
   \<Rightarrow> 'w peer \<Rightarrow> ('w, exec_stream_event list \<times> (unit, clouisle_error stop) result) client" where
  "exec_exchange env argv en cwd timeout_ms send peer =
     and_then (peer_world (ne_uuid env)) (\<lambda>x.
     and_then (conn_send (ne_postcard env) peer ''send guest ExecReq'' (ExecReq x argv en cwd timeout_ms)) (\<lambda>_ c.
       case conn_stream (ne_postcard env) node_exec_texts x send 0 c of (c', evs, r) \<Rightarrow> (c', Ok (evs, r))))"

definition node_exec_events ::
  "('s, 'q, 'w) node_env \<Rightarrow> bool \<Rightarrow> string \<Rightarrow> string list \<Rightarrow> (string, string) hashmap \<Rightarrow> string option \<Rightarrow> u64 \<Rightarrow> (nat \<Rightarrow> send_end)
   \<Rightarrow> ('s, 'q, 'w, exec_stream_event list \<times> (unit, clouisle_error stop) result) node_comp" where
  "node_exec_events env brief i argv en cwd timeout_ms send =
     (if argv = [] then node_raise (validation_error ''argv empty'')
      else and_then (guest_session env brief i (exec_exchange env argv en cwd timeout_ms send)) (\<lambda>(q, _). ok q))"

definition node_exec_command ::
  "('s, 'q, 'w) node_env \<Rightarrow> string \<Rightarrow> string list \<Rightarrow> (string, string) hashmap \<Rightarrow> string option \<Rightarrow> u64
   \<Rightarrow> ('s, 'q, 'w, execution_result) node_comp" where
  "node_exec_command env i argv en cwd timeout_ms =
     and_then (node_exec_events env False i argv en cwd timeout_ms (\<lambda>_. Taken)) (\<lambda>(evs, r) nd.
     (nd, case r of
            Err x \<Rightarrow> Err (map_stop Raised x)
          | Ok _ \<Rightarrow> node_raised (collect evs
              \<lparr>er_exit_code = 0, er_stdout = [], er_stderr = [], er_duration_ms = ne_elapsed_ms env (nd_world nd)\<rparr>)))"

text \<open>The streamed execution: the events that its receiver has taken, and how the call ends.\<close>

definition node_exec_command_stream ::
  "('s, 'q, 'w) node_env \<Rightarrow> string \<Rightarrow> string list \<Rightarrow> (string, string) hashmap \<Rightarrow> string option \<Rightarrow> u64 \<Rightarrow> (nat \<Rightarrow> send_end)
   \<Rightarrow> ('s, 'q, 'w, exec_stream_event list \<times> (unit, clouisle_error stop) result) node_comp" where
  "node_exec_command_stream env i argv en cwd timeout_ms send = node_exec_events env True i argv en cwd timeout_ms send"

section \<open>Interactive processes\<close>

text \<open>A process is started over a connection of its own, which a spawned task then reads.\<close>

definition node_process_start ::
  "('s, 'q, 'w) node_env \<Rightarrow> string \<Rightarrow> string \<Rightarrow> string list \<Rightarrow> (string, string) hashmap \<Rightarrow> string option \<Rightarrow> u64 \<Rightarrow> bool
   \<Rightarrow> pty_config option \<Rightarrow> ('s, 'q, 'w, u32 \<times> 'w conn) node_comp" where
  "node_process_start env i fid argv en cwd timeout_ms stdin pty =
     (if argv = [] then node_raise (validation_error ''argv empty'')
      else guest_session env False i (\<lambda>peer.
        and_then (conn_send (ne_postcard env) peer ''send guest ProcessStart'' (ProcessStart fid argv en cwd timeout_ms stdin pty)) (\<lambda>_.
        and_then (conn_read (ne_postcard env) ''read guest ProcessStarted'') (\<lambda>f.
        case f of
          ProcessStarted got pid \<Rightarrow> if got = fid then ok pid else unexpected_frame (ne_debug_frame env) ''ProcessStart'' f
        | ErrorFrame message _ \<Rightarrow> refused (new_error EkVmm message)
        | _ \<Rightarrow> unexpected_frame (ne_debug_frame env) ''ProcessStart'' f))))"

text \<open>The spawned task, on the bytes that arrive: the events that enter the channel, an error of the guest as
  the message of a status, and whether the task has ended. It ends without a word on any other frame and on
  a failure of the connection.\<close>

function node_pump ::
  "postcard_ops \<Rightarrow> string \<Rightarrow> (nat \<Rightarrow> send_end) \<Rightarrow> nat \<Rightarrow> byte list \<Rightarrow> bool \<Rightarrow> (exec_stream_event, string) result list \<times> bool" where
  "node_pump ops i send n bytes eof =
     (case read_frame ops bytes of
        (rest, Err (CodecIo e)) \<Rightarrow> ([], eof)
      | (rest, Err e) \<Rightarrow> ([], True)
      | (rest, Ok f) \<Rightarrow>
          (case event_of i f of
             None \<Rightarrow>
               (case f of
                  ErrorFrame message _ \<Rightarrow> (if send n = Taken then [Err message] else [], send n \<noteq> Full)
                | _ \<Rightarrow> ([], True))
           | Some ev \<Rightarrow>
               (case send n of
                  Full \<Rightarrow> ([], False)
                | Gone \<Rightarrow> ([], True)
                | Taken \<Rightarrow>
                    if is_exit ev then ([Ok ev], True)
                    else (case node_pump ops i send (Suc n) rest eof of (evs, done) \<Rightarrow> (Ok ev # evs, done)))))"
  by pat_completeness auto
termination
  by (relation "measure (\<lambda>(ops, i, send, n, bytes, eof). length bytes)") (auto dest: read_frame_shorter [OF sym])

declare node_pump.simps [simp del]

datatype process_control_op =
    OpStdin "byte list"
  | OpStdinEof
  | OpSignal process_signal
  | OpResize u16 u16

fun control_frame :: "string \<Rightarrow> process_control_op \<Rightarrow> frame" where
  "control_frame fid (OpStdin chunk) = Stdin fid chunk"
| "control_frame fid OpStdinEof = StdinEof fid"
| "control_frame fid (OpSignal sig) = Signal fid sig"
| "control_frame fid (OpResize cols rows) = Resize fid cols rows"

definition node_process_control ::
  "('s, 'q, 'w) node_env \<Rightarrow> string \<Rightarrow> string \<Rightarrow> process_control_op \<Rightarrow> ('s, 'q, 'w, unit) node_comp" where
  "node_process_control env i fid oper =
     and_then (guest_session env False i (\<lambda>peer.
       and_then (conn_send (ne_postcard env) peer ''send guest control frame'' (control_frame fid oper)) (\<lambda>_.
       and_then (conn_read (ne_postcard env) ''read guest control ack'') (\<lambda>f.
       case f of
         ControlOk \<Rightarrow> ok ()
       | ErrorFrame message _ \<Rightarrow> refused (new_error EkVmm message)
       | _ \<Rightarrow> unexpected_frame (ne_debug_frame env) ''process control'' f)))) (\<lambda>_. ok ())"

section \<open>Creation\<close>

definition node_net_create :: "('s, 'q, 'w) node_env \<Rightarrow> string \<Rightarrow> ('s, 'q, 'w, unit) node_comp" where
  "node_net_create env i =
     (if ng_manage_network (ne_config env)
      then and_then (node_call (create_network_in_subnet (ne_net env) i None)) (\<lambda>_. ok ()) else ok ())"

definition node_net_setup :: "('s, 'q, 'w) node_env \<Rightarrow> string \<Rightarrow> sandbox_spec \<Rightarrow> ('s, 'q, 'w, unit) node_comp" where
  "node_net_setup env i sp nd =
     (if ng_manage_network (ne_config env) then
        (let net = sp_network sp;
             gateway = gateway_ip (ne_net env) i @ ''/30'';
             allow = (if nc_enabled net then nc_allow_egress net else [])
         in case setup_sandbox_network (ne_net env) i gateway allow (nc_deny_egress net)
                   (bandwidth_mbps (sp_resources sp)) (nd_firewall nd) (nd_world nd) of
              (fw', w', r) \<Rightarrow> (nd\<lparr>nd_firewall := fw', nd_world := w'\<rparr>, node_raised r))
      else (nd, Ok ()))"

definition node_net_teardown :: "('s, 'q, 'w) node_env \<Rightarrow> string \<Rightarrow> ('s, 'q, 'w, unit) node_comp" where
  "node_net_teardown env i nd =
     (if ng_manage_network (ne_config env) then
        (case teardown_sandbox_network (ne_net env) i None (nd_firewall nd) (nd_world nd) of (fw', w') \<Rightarrow>
           (nd\<lparr>nd_firewall := fw', nd_world := w'\<rparr>, Ok ()))
      else (nd, Ok ()))"

definition fail_creation ::
  "('s, 'q, 'w) node_env \<Rightarrow> string \<Rightarrow> clouisle_error \<Rightarrow> vm_handle option \<Rightarrow> ('s, 'q, 'w, unit) node_comp" where
  "fail_creation env i e h =
     and_then (node_ignore (node_update env i (UStatusMessage Error (Some (err_message e))))) (\<lambda>_.
     and_then (case h of Some x \<Rightarrow> node_ignore (node_call (ne_vm_stop env x Force)) | None \<Rightarrow> ok ()) (\<lambda>_.
     and_then (node_net_teardown env i) (\<lambda>_.
     modify (node_forget env i))))"

definition failing ::
  "('s, 'q, 'w) node_env \<Rightarrow> string \<Rightarrow> vm_handle option \<Rightarrow> ('s, 'q, 'w, 'a) node_comp \<Rightarrow> ('s, 'q, 'w, 'a) node_comp" where
  "failing env i h m =
     and_then (node_try m) (\<lambda>r.
     case r of Ok a \<Rightarrow> ok a | Err e \<Rightarrow> and_then (fail_creation env i e h) (\<lambda>_. node_raise e))"

definition node_transition ::
  "('s, 'q, 'w) node_env \<Rightarrow> sandbox \<Rightarrow> sandbox_event \<Rightarrow> ('s, 'q, 'w, sandbox) node_comp" where
  "node_transition env sb ev =
     and_then (node_world (ne_now env)) (\<lambda>now.
     case sandbox_transition (ne_add_secs env) now sb ev of
       None \<Rightarrow> throw (Fails Panicked)
     | Some r \<Rightarrow> lift_result (node_raised r))"

text \<open>Up to the running machine with its network; the machine is recorded before it starts.\<close>

definition create_started ::
  "('s, 'q, 'w) node_env \<Rightarrow> string \<Rightarrow> sandbox_spec \<Rightarrow> ('s, 'q, 'w, sandbox \<times> vm_handle) node_comp" where
  "create_started env i sp =
     and_then (node_world (ne_now env)) (\<lambda>now.
     and_then (node_transition env ((sandbox_new now i sp)\<lparr>sb_node_id := Some (ng_node_id (ne_config env))\<rparr>) Start) (\<lambda>sb.
     and_then (node_write (so_create (ne_store env) sb)) (\<lambda>_.
     and_then (failing env i None (node_net_create env i)) (\<lambda>_.
     and_then (failing env i None (node_call (ne_vm_create env i sp))) (\<lambda>h.
     let sb' = sb\<lparr>sb_vmm_meta := handle_to_meta h []\<rparr> in
     and_then (failing env i (Some h) (node_update env i (UVmmMeta (sb_vmm_meta sb')))) (\<lambda>_.
     and_then (failing env i (Some h) (node_call (ne_vm_start env h))) (\<lambda>_.
     and_then (failing env i (Some h) (node_net_setup env i sp)) (\<lambda>_.
     ok (sb', h)))))))))"

definition node_ping :: "('s, 'q, 'w) node_env \<Rightarrow> string \<Rightarrow> ('s, 'q, 'w, unit) node_comp" where
  "node_ping env i =
     and_then (node_file_op env i Ping) (\<lambda>f.
     if f = Pong then ok () else node_raise (invalid_state ''guest ping returned an unexpected frame''))"

fun node_secrets :: "('s, 'q, 'w) node_env \<Rightarrow> string \<Rightarrow> secret_spec list \<Rightarrow> ('s, 'q, 'w, unit) node_comp" where
  "node_secrets env i [] = ok ()"
| "node_secrets env i (s # ss) =
     and_then (node_file_op env i (WriteFile (''/run/secrets/'' @ ss_name s) 384 (as_bytes (ss_value s)))) (\<lambda>_.
     node_secrets env i ss)"

definition node_init_command :: "('s, 'q, 'w) node_env \<Rightarrow> string \<Rightarrow> sandbox_spec \<Rightarrow> ('s, 'q, 'w, unit) node_comp" where
  "node_init_command env i sp =
     (if sp_init_command sp = [] then ok ()
      else and_then (node_exec_command env i (sp_init_command sp) (hm_extend (sp_env sp) (sp_init_env sp)) (sp_init_cwd sp)
             (sp_init_timeout_ms sp)) (\<lambda>x.
        if er_exit_code x = 0 then ok ()
        else node_raise (new_error EkVmm (''initialization command exited with code '' @ show_int (er_exit_code x)))))"

definition guest_setup :: "('s, 'q, 'w) node_env \<Rightarrow> string \<Rightarrow> sandbox_spec \<Rightarrow> ('s, 'q, 'w, unit) node_comp" where
  "guest_setup env i sp =
     (if ne_requires_guest_agent env
      then and_then (node_ping env i) (\<lambda>_.
           and_then (node_secrets env i (sp_secrets sp)) (\<lambda>_.
           node_init_command env i sp))
      else ok ())"

text \<open>The sandbox is registered as running before its guest has answered, so that the agent talks to it.\<close>

definition create_registered ::
  "('s, 'q, 'w) node_env \<Rightarrow> string \<Rightarrow> sandbox \<Rightarrow> vm_handle \<Rightarrow> ('s, 'q, 'w, sandbox) node_comp" where
  "create_registered env i sb h =
     and_then (failing env i (Some h) (guest_setup env i (sb_spec sb))) (\<lambda>_.
     and_then (node_transition env sb AgentHello) (\<lambda>sb'.
     and_then (failing env i (Some h) (node_update env i (UStatusMessage Running None))) (\<lambda>_.
     and_then (failing env i (Some h) (node_update env i (UExpiry (sb_expires_at sb')))) (\<lambda>_.
     and_then (modify (node_insert i sb')) (\<lambda>_.
     ok sb')))))"

definition create_sandbox_with_id ::
  "('s, 'q, 'w) node_env \<Rightarrow> string \<Rightarrow> sandbox_spec \<Rightarrow> ('s, 'q, 'w, sandbox) node_comp" where
  "create_sandbox_with_id env i sp =
     (if i = [] then node_raise (validation_error ''sandbox id is required'')
      else case spec_validate sp of
        Err errs \<Rightarrow> node_raise (validation_error (''invalid sandbox spec: '' @ ne_debug_errors env errs))
      | Ok _ \<Rightarrow>
          and_then (node_admit env sp) (\<lambda>r.
          and_then (node_holding env r (create_started env i sp)) (\<lambda>(sb, h).
          and_then (modify (node_insert i (sb\<lparr>sb_status := Running\<rparr>))) (\<lambda>_.
          and_then (modify (node_keep env i r)) (\<lambda>_.
          create_registered env i sb h)))))"

definition node_create_sandbox ::
  "('s, 'q, 'w) node_env \<Rightarrow> sandbox_spec \<Rightarrow> ('s, 'q, 'w, sandbox) node_comp" where
  "node_create_sandbox env sp = and_then (node_world (ne_uuid env)) (\<lambda>i. create_sandbox_with_id env i sp)"

section \<open>Deletion and recovery\<close>

text \<open>The handle that the agent makes from the metadata of a sandbox has no subnet.\<close>

definition node_handle :: "sandbox \<Rightarrow> string \<Rightarrow> vm_handle" where
  "node_handle sb i = (meta_to_handle (sb_vmm_meta sb) i)\<lparr>vh_subnet := None\<rparr>"

definition node_delete_sandbox :: "('s, 'q, 'w) node_env \<Rightarrow> string \<Rightarrow> ('s, 'q, 'w, unit) node_comp" where
  "node_delete_sandbox env i nd =
     (case hm_get (nd_sandboxes nd) i of
        None \<Rightarrow> node_raise (not_found (''sandbox '' @ i @ '' not on this node'')) nd
      | Some sb \<Rightarrow>
          and_then (node_call (ne_vm_stop env (node_handle sb i) Force)) (\<lambda>_.
          and_then (node_write (so_delete (ne_store env) i)) (\<lambda>_.
          and_then (modify (node_forget env i)) (\<lambda>_.
          node_net_teardown env i))) nd)"

definition node_listed :: "('s, 'q, 'w) node_env \<Rightarrow> ('s, 'q, 'w, sandbox list) node_comp" where
  "node_listed env =
     and_then (node_world (ne_now env)) (\<lambda>now nd.
       (nd, Ok (case so_list (ne_store env) now None (nd_store nd) of Ok sbs \<Rightarrow> sbs | Err _ \<Rightarrow> [])))"

definition known_runtime_ids :: "node_config \<Rightarrow> sandbox list \<Rightarrow> string list" where
  "known_runtime_ids cf sbs =
     map (\<lambda>sb. case me_vmm_id (sb_vmm_meta sb) of Some v \<Rightarrow> v | None \<Rightarrow> sb_id sb)
       (filter (\<lambda>sb. status_is_active (sb_status sb) \<and>
          (sb_node_id sb = Some (ng_node_id cf) \<or> sb_node_id sb = None)) sbs)"

fun stop_orphans :: "('s, 'q, 'w) node_env \<Rightarrow> string list \<Rightarrow> vm_handle list \<Rightarrow> ('s, 'q, 'w, unit) node_comp" where
  "stop_orphans env known [] = ok ()"
| "stop_orphans env known (h # hs) =
     and_then (if vh_id h \<in> set known then ok () else node_ignore (node_call (ne_vm_stop env h Force))) (\<lambda>_.
     stop_orphans env known hs)"

definition adopt ::
  "('s, 'q, 'w) node_env \<Rightarrow> sandbox \<Rightarrow> resources \<Rightarrow> ('s, 'q, 'w, bool) node_comp" where
  "adopt env sb r =
     and_then (modify (node_keep env (sb_id sb) r)) (\<lambda>_.
     and_then (modify (node_insert (sb_id sb)
        (if sb_status sb = Starting then sb\<lparr>sb_status := Running\<rparr> else sb))) (\<lambda>_.
     and_then (if ne_requires_guest_agent env \<and> sb_status sb \<noteq> Paused then node_try (node_ping env (sb_id sb)) else ok (Ok ())) (\<lambda>q.
     case q of
       Err e \<Rightarrow>
         and_then (node_ignore (node_update env (sb_id sb) (UStatusMessage Error
            (Some (''guest probe failed during node adoption: '' @ shown_error e))))) (\<lambda>_.
         and_then (modify (node_forget env (sb_id sb))) (\<lambda>_. ok False))
     | Ok _ \<Rightarrow>
         and_then (if sb_status sb = Starting then node_ignore (node_update env (sb_id sb) (UStatusMessage Running None)) else ok ())
           (\<lambda>_. ok True))))"

definition restore_one :: "('s, 'q, 'w) node_env \<Rightarrow> sandbox \<Rightarrow> ('s, 'q, 'w, bool) node_comp" where
  "restore_one env sb =
     and_then (node_world (ne_vm_probe env (node_handle sb (sb_id sb)))) (\<lambda>alive.
     if alive \<noteq> Ok True then
       and_then (node_ignore (node_update env (sb_id sb)
          (UStatusMessage Error (Some ''runtime probe failed during node recovery'')))) (\<lambda>_.
       and_then (modify (node_forget env (sb_id sb))) (\<lambda>_. ok False))
     else (\<lambda>nd.
       if hm_get (nd_sandboxes nd) (sb_id sb) \<noteq> None then (nd, Ok False)
       else and_then (node_try (node_admit env (sb_spec sb))) (\<lambda>a.
         case a of Err _ \<Rightarrow> ok False | Ok r \<Rightarrow> adopt env sb r) nd))"

fun restore_all :: "('s, 'q, 'w) node_env \<Rightarrow> sandbox list \<Rightarrow> ('s, 'q, 'w, nat) node_comp" where
  "restore_all env [] = ok 0"
| "restore_all env (sb # sbs) =
     and_then (restore_one env sb) (\<lambda>b. and_then (restore_all env sbs) (\<lambda>n. ok (if b then Suc n else n)))"

definition reconcile_from_store :: "('s, 'q, 'w) node_env \<Rightarrow> ('s, 'q, 'w, nat) node_comp" where
  "reconcile_from_store env =
     and_then (node_listed env) (\<lambda>sbs.
     and_then (node_world (ne_vm_discover env)) (\<lambda>found.
     and_then (stop_orphans env (known_runtime_ids (ne_config env) sbs) (case found of Ok hs \<Rightarrow> hs | Err _ \<Rightarrow> [])) (\<lambda>_.
     restore_all env (filter (\<lambda>sb. sb_node_id sb = Some (ng_node_id (ne_config env)) \<and> status_is_active (sb_status sb)) sbs))))"

end
