(* ===== verification/Node_Server.thy ===== *)
theory Node_Server
  imports Node_Agent Placement
begin

text \<open>
  The two ends of the protocol between the service and a node: the gRPC service of the daemon
  (\<open>crates/clouisled/src/server.rs\<close>) and its clients in the service (\<open>crates/clouisle-api/src/node_client.rs\<close>), the machine
  backends \<open>GrpcNodeVmm\<close> and \<open>ScheduledNodeVmm\<close> and the guest connection \<open>GrpcAgentConnection\<close>.

  The messages are those of \<open>node.proto\<close>. A stream that a client sends is the list of its messages and how it
  ends: the client closes it, keeps it open or breaks off. A handler that waits for the next message of an open
  stream never ends. The transport of tonic is a direct call: the client has the answer once the handler
  has returned. The text of a specification and that of a status are parameters.
\<close>

section \<open>Messages\<close>

datatype grpc_code = GrpcNotFound | GrpcInvalidArgument | GrpcResourceExhausted | GrpcFailedPrecondition | GrpcInternal

record grpc_status =
  rs_code :: grpc_code
  rs_message :: string

definition to_status :: "clouisle_error \<Rightarrow> grpc_status" where
  "to_status e = \<lparr>rs_code =
     (case err_kind e of
        EkNotFound \<Rightarrow> GrpcNotFound
      | EkValidation \<Rightarrow> GrpcInvalidArgument
      | EkResourceExhausted \<Rightarrow> GrpcResourceExhausted
      | EkInvalidState \<Rightarrow> GrpcFailedPrecondition
      | _ \<Rightarrow> GrpcInternal), rs_message = err_message e\<rparr>"

record proto_exec_request =
  xr_sandbox_id :: string
  xr_argv :: "string list"
  xr_env :: "(string, string) hashmap"
  xr_cwd :: string
  xr_timeout_ms :: u64

record proto_process_request =
  pr_sandbox_id :: string
  pr_frame_id :: string
  pr_argv :: "string list"
  pr_env :: "(string, string) hashmap"
  pr_cwd :: string
  pr_timeout_ms :: u64
  pr_stdin :: bool
  pr_pty :: "(u32 \<times> u32) option"

text \<open>The variants of \<open>ExecStream\<close>. Output carries the sandbox, the data and the frame identifier.\<close>

datatype exec_msg =
    MExecReq proto_exec_request
  | MExecStdout string "byte list" string
  | MExecStderr string "byte list" string
  | MExecExit string int string
  | MProcessStart proto_process_request
  | MProcessStarted string u32
  | MProcessInput string "byte list"
  | MProcessEof string
  | MProcessSignal string u32
  | MProcessResize string u32 u32
  | MProcessOk string

type_synonym exec_item = "(exec_msg option, grpc_status) result"

definition status_response :: "string \<Rightarrow> (unit, clouisle_error) result \<Rightarrow> exec_item" where
  "status_response fid r = (case r of Ok _ \<Rightarrow> Ok (Some (MProcessOk fid)) | Err e \<Rightarrow> Err (to_status e))"

section \<open>The service of the daemon\<close>

definition server_register :: "node_info \<Rightarrow> string" where
  "server_register info = (if ni_node_id info = [] then ''auto'' else ni_node_id info)"

text \<open>One report is awaited and one empty command is answered.\<close>

definition server_heartbeat :: "(heartbeat_report option, string) result \<Rightarrow> (unit option list, grpc_status) result" where
  "server_heartbeat first =
     (case first of Err e \<Rightarrow> Err \<lparr>rs_code = GrpcInternal, rs_message = e\<rparr> | Ok _ \<Rightarrow> Ok [None])"

record proto_sandbox_handle =
  sh_sandbox_id :: string
  sh_backend :: string
  sh_pid :: u64
  sh_api_socket :: string
  sh_vsock_socket :: string

definition unwrap_or_default :: "string option \<Rightarrow> string" where
  "unwrap_or_default v = (case v of Some x \<Rightarrow> x | None \<Rightarrow> [])"

definition handle_of_sandbox :: "sandbox \<Rightarrow> proto_sandbox_handle" where
  "handle_of_sandbox sb = \<lparr>sh_sandbox_id = sb_id sb, sh_backend = me_backend (sb_vmm_meta sb),
     sh_pid = (case me_pid (sb_vmm_meta sb) of Some p \<Rightarrow> p | None \<Rightarrow> 0),
     sh_api_socket = unwrap_or_default (me_api_socket (sb_vmm_meta sb)),
     sh_vsock_socket = unwrap_or_default (me_vsock_socket (sb_vmm_meta sb))\<rparr>"

text \<open>A handler answers with a response or a status.\<close>

type_synonym ('s, 'q, 'w, 'a) handler = "('s, 'q, 'w, ('a, grpc_status) result) node_comp"

definition answered :: "('s, 'q, 'w, 'a) node_comp \<Rightarrow> ('s, 'q, 'w, 'a) handler" where
  "answered m = and_then (node_try m) (\<lambda>r. ok (map_sum to_status id r))"

definition server_create_sandbox ::
  "('s, 'q, 'w) node_env \<Rightarrow> (string \<Rightarrow> (sandbox_spec, string) result) \<Rightarrow> string \<Rightarrow> string \<Rightarrow> ('s, 'q, 'w, proto_sandbox_handle) handler" where
  "server_create_sandbox env from_json i spec_json =
     (if i = [] then ok (Err \<lparr>rs_code = GrpcInvalidArgument, rs_message = ''sandbox_id is required''\<rparr>)
      else case from_json spec_json of
        Err e \<Rightarrow> ok (Err \<lparr>rs_code = GrpcInvalidArgument, rs_message = ''bad spec_json: '' @ e\<rparr>)
      | Ok sp \<Rightarrow> answered (and_then (create_sandbox_with_id env i sp) (\<lambda>sb. ok (handle_of_sandbox sb))))"

definition server_delete_sandbox :: "('s, 'q, 'w) node_env \<Rightarrow> string \<Rightarrow> ('s, 'q, 'w, bool \<times> string) node_comp" where
  "server_delete_sandbox env i =
     and_then (node_try (node_delete_sandbox env i)) (\<lambda>r. ok (case r of Ok _ \<Rightarrow> (True, []) | Err e \<Rightarrow> (False, err_message e)))"

datatype proto_file_request = FileWrite string "byte list" u32 | FileRead string | FileList string

datatype proto_file_response = WriteOk bool | FileContent "byte list" | FileEntries "dir_entry list"

fun file_frame :: "proto_file_request \<Rightarrow> frame" where
  "file_frame (FileWrite path content mode) = WriteFile path mode content"
| "file_frame (FileRead path) = ReadFile path 0 (- 1)"
| "file_frame (FileList path) = ListDir path"

definition server_file_op ::
  "('s, 'q, 'w) node_env \<Rightarrow> string \<Rightarrow> proto_file_request option \<Rightarrow> ('s, 'q, 'w, proto_file_response) handler" where
  "server_file_op env i request =
     (case request of
        None \<Rightarrow> ok (Err \<lparr>rs_code = GrpcInvalidArgument, rs_message = ''file operation is required''\<rparr>)
      | Some rq \<Rightarrow>
          and_then (answered (node_file_op env i (file_frame rq))) (\<lambda>r.
          ok (case r of
                Err s \<Rightarrow> Err s
              | Ok f \<Rightarrow>
                  (case f of
                     WriteFileResult _ \<Rightarrow> Ok (WriteOk True)
                   | ReadFileResult _ content \<Rightarrow> Ok (FileContent content)
                   | ListDirResult entries \<Rightarrow> Ok (FileEntries entries)
                   | _ \<Rightarrow> Err \<lparr>rs_code = GrpcInternal, rs_message = ''unexpected guest file response''\<rparr>))))"

section \<open>The exec stream\<close>

datatype stream_end = StreamClosed | StreamOpen | StreamBroken string

text \<open>What the handler has built while it reads: the answers in the channel of 32 places whose receiver it
  still holds, and the processes whose output is forwarded into that channel.\<close>

record 'w exec_session =
  xs_sandbox_id :: string
  xs_started :: bool
  xs_queue :: "exec_item list"
  xs_pumps :: "(string \<times> string \<times> 'w conn) list"

definition session_new :: "'w exec_session" where
  "session_new = \<lparr>xs_sandbox_id = [], xs_started = False, xs_queue = [], xs_pumps = []\<rparr>"

text \<open>Sending waits for a free place, and nobody makes one while the handler runs.\<close>

definition queue_send :: "exec_item \<Rightarrow> 'w exec_session \<Rightarrow> ('s, 'q, 'w, 'w exec_session) node_comp" where
  "queue_send item xs =
     (if length (xs_queue xs) < 32 then ok (xs\<lparr>xs_queue := xs_queue xs @ [item]\<rparr>) else throw Never)"

definition forwarded :: "string \<Rightarrow> string \<Rightarrow> exec_stream_event \<Rightarrow> exec_msg option" where
  "forwarded sid fid ev =
     (case ev of
        EvStdout d \<Rightarrow> Some (MExecStdout sid d fid)
      | EvStderr d \<Rightarrow> Some (MExecStderr sid d fid)
      | EvExit c \<Rightarrow> Some (MExecExit sid c fid)
      | EvError _ \<Rightarrow> None)"

text \<open>The items that the forwarding task of a process sends, from the events of its pump.\<close>

definition forward_items :: "string \<Rightarrow> string \<Rightarrow> (exec_stream_event, string) result list \<Rightarrow> exec_item list" where
  "forward_items sid fid evs =
     map (\<lambda>ev. case ev of Ok e \<Rightarrow> Ok (forwarded sid fid e) | Err m \<Rightarrow> Err \<lparr>rs_code = GrpcInternal, rs_message = m\<rparr>) evs"

text \<open>Before each message the forwarding tasks may have filled places of the channel with \<open>arrived\<close>.\<close>

definition queue_arrived :: "exec_item list \<Rightarrow> 'w exec_session \<Rightarrow> 'w exec_session" where
  "queue_arrived arrived xs = xs\<lparr>xs_queue := take 32 (xs_queue xs @ arrived)\<rparr>"

definition non_empty :: "string \<Rightarrow> string option" where
  "non_empty s = (if s = [] then None else Some s)"

definition server_process_start ::
  "('s, 'q, 'w) node_env \<Rightarrow> proto_process_request \<Rightarrow> 'w exec_session \<Rightarrow> ('s, 'q, 'w, 'w exec_session) node_comp" where
  "server_process_start env rq xs0 =
     (let xs = xs0\<lparr>xs_sandbox_id := pr_sandbox_id rq\<rparr> in
      and_then (node_try (node_process_start env (pr_sandbox_id rq) (pr_frame_id rq) (pr_argv rq) (pr_env rq) (non_empty (pr_cwd rq))
         (pr_timeout_ms rq) (pr_stdin rq) (map_option (\<lambda>(c, r). \<lparr>pc_cols = ucast c, pc_rows = ucast r\<rparr>) (pr_pty rq)))) (\<lambda>r.
      and_then
        (case r of
           Ok (pid, c) \<Rightarrow>
             and_then (queue_send (Ok (Some (MProcessStarted (pr_frame_id rq) pid))) xs) (\<lambda>xs.
             ok (xs\<lparr>xs_pumps := xs_pumps xs @ [(pr_sandbox_id rq, pr_frame_id rq, c)]\<rparr>))
         | Err e \<Rightarrow> queue_send (Err (to_status e)) xs) (\<lambda>xs.
      ok (xs\<lparr>xs_started := True\<rparr>))))"

definition server_control ::
  "('s, 'q, 'w) node_env \<Rightarrow> string \<Rightarrow> process_control_op \<Rightarrow> 'w exec_session \<Rightarrow> ('s, 'q, 'w, 'w exec_session) node_comp" where
  "server_control env fid oper xs =
     and_then (node_try (node_process_control env (xs_sandbox_id xs) fid oper)) (\<lambda>r. queue_send (status_response fid r) xs)"

text \<open>One message that is not an \<open>ExecReq\<close>. A signal is cut to eight bits before it is looked up.\<close>

definition server_message ::
  "('s, 'q, 'w) node_env \<Rightarrow> exec_msg option \<Rightarrow> 'w exec_session \<Rightarrow> ('s, 'q, 'w, 'w exec_session) node_comp" where
  "server_message env msg xs =
     (case msg of
        Some (MProcessStart rq) \<Rightarrow> server_process_start env rq xs
      | Some (MProcessInput fid data) \<Rightarrow> server_control env fid (OpStdin data) xs
      | Some (MProcessEof fid) \<Rightarrow> server_control env fid OpStdinEof xs
      | Some (MProcessSignal fid sig) \<Rightarrow>
          (case signal_try_from (ucast sig) of
             Ok s \<Rightarrow> server_control env fid (OpSignal s) xs
           | Err _ \<Rightarrow> queue_send (Err \<lparr>rs_code = GrpcInvalidArgument, rs_message = ''unsupported signal''\<rparr>) xs)
      | Some (MProcessResize fid cols rows) \<Rightarrow> server_control env fid (OpResize (ucast cols) (ucast rows)) xs
      | _ \<Rightarrow> ok xs)"

text \<open>The loop ends at the first \<open>ExecReq\<close> or when the client has closed its stream.\<close>

fun server_exec_loop ::
  "('s, 'q, 'w) node_env \<Rightarrow> (exec_item list \<times> exec_msg option) list \<Rightarrow> stream_end \<Rightarrow> 'w exec_session
   \<Rightarrow> ('s, 'q, 'w, ('w exec_session \<times> proto_exec_request option, grpc_status) result) node_comp" where
  "server_exec_loop env [] ending xs =
     (case ending of
        StreamClosed \<Rightarrow> ok (Ok (xs, None))
      | StreamOpen \<Rightarrow> throw Never
      | StreamBroken e \<Rightarrow> ok (Err \<lparr>rs_code = GrpcInternal, rs_message = e\<rparr>))"
| "server_exec_loop env ((arrived, msg) # msgs) ending xs =
     (case msg of
        Some (MExecReq rq) \<Rightarrow> ok (Ok ((queue_arrived arrived xs)\<lparr>xs_sandbox_id := xr_sandbox_id rq\<rparr>, Some rq))
      | _ \<Rightarrow> and_then (server_message env msg (queue_arrived arrived xs)) (\<lambda>xs'. server_exec_loop env msgs ending xs'))"

text \<open>What the response stream of one command carries: its events, and a status when the execution fails. The
  second component says whether the stream ends.\<close>

definition legacy_items :: "string \<Rightarrow> exec_stream_event list \<Rightarrow> (unit, clouisle_error stop) result \<Rightarrow> exec_item list \<times> bool" where
  "legacy_items sid evs r =
     (let items = map (\<lambda>ev. Ok (forwarded sid [] ev)) evs in
      case r of
        Ok _ \<Rightarrow> (items, True)
      | Err (Fails e) \<Rightarrow> (items @ [Err (to_status e)], True)
      | Err Never \<Rightarrow> (items, False))"

text \<open>A client that takes whatever is sent.\<close>

definition server_legacy_exec :: "('s, 'q, 'w) node_env \<Rightarrow> proto_exec_request \<Rightarrow> ('s, 'q, 'w, exec_item list \<times> bool) node_comp" where
  "server_legacy_exec env rq =
     and_then (node_try (node_exec_command_stream env (xr_sandbox_id rq) (xr_argv rq) (xr_env rq) (non_empty (xr_cwd rq))
        (xr_timeout_ms rq) (\<lambda>_. Taken))) (\<lambda>r.
     ok (case r of
           Err e \<Rightarrow> legacy_items (xr_sandbox_id rq) [] (Err (Fails e))
         | Ok (evs, q) \<Rightarrow> legacy_items (xr_sandbox_id rq) evs q))"

text \<open>The response: the stream of one command, or the channel of the session with its forwarding tasks.\<close>

datatype 'w exec_reply = CommandReply "exec_item list" bool | SessionReply "'w exec_session"

definition server_exec ::
  "('s, 'q, 'w) node_env \<Rightarrow> (exec_item list \<times> exec_msg option) list \<Rightarrow> stream_end \<Rightarrow> ('s, 'q, 'w, 'w exec_reply) handler" where
  "server_exec env msgs ending =
     and_then (server_exec_loop env msgs ending session_new) (\<lambda>r.
     case r of
       Err s \<Rightarrow> ok (Err s)
     | Ok (xs, legacy) \<Rightarrow>
         if xs_started xs then ok (Ok (SessionReply xs))
         else (case legacy of
             None \<Rightarrow> ok (Err \<lparr>rs_code = GrpcInvalidArgument, rs_message = ''no exec request in stream''\<rparr>)
           | Some rq \<Rightarrow> and_then (server_legacy_exec env rq) (\<lambda>(items, done). ok (Ok (CommandReply (xs_queue xs @ items) done)))))"

section \<open>The nodes as the service reaches them\<close>

text \<open>\<open>cl_nodes\<close> is the environment of the daemon at an endpoint; a fleet maps the endpoints where a daemon listens to its
  state. \<open>cl_refused\<close> is what the transport says when nothing listens, \<open>cl_aborted\<close> the status of a call whose handler
  panics.\<close>

record ('s, 'q, 'w, 'c) cluster =
  cl_nodes :: "string \<Rightarrow> ('s, 'q, 'w) node_env"
  cl_to_json :: "sandbox_spec \<Rightarrow> (string, string) result"
  cl_from_json :: "string \<Rightarrow> (sandbox_spec, string) result"
  cl_status_text :: "grpc_status \<Rightarrow> string"
  cl_refused :: string
  cl_aborted :: grpc_status
  cl_round :: "rat \<Rightarrow> rat"
  cl_list_ready_nodes :: "int \<Rightarrow> 'c \<Rightarrow> (registered_node list, store_error) result"

type_synonym ('s, 'q, 'w) fleet = "string \<Rightarrow> ('s, 'q, 'w) node option"

type_synonym ('s, 'q, 'w, 'a) remote = "(('s, 'q, 'w) fleet, 'a, clouisle_error stop) comp"

definition remote_raise :: "clouisle_error \<Rightarrow> ('s, 'q, 'w, 'a) remote" where
  "remote_raise e = throw (Fails e)"

definition grpc_connect :: "('s, 'q, 'w, 'c) cluster \<Rightarrow> string \<Rightarrow> string \<Rightarrow> ('s, 'q, 'w, unit) remote" where
  "grpc_connect cl what ep fl =
     (fl, if fl ep = None then Err (Fails (new_error EkVmm (what @ '': '' @ cl_refused cl))) else Ok ())"

text \<open>A call on a connection, and the error made of a status.\<close>

definition rpc ::
  "('s, 'q, 'w, 'c) cluster \<Rightarrow> string \<Rightarrow> (('s, 'q, 'w) node_env \<Rightarrow> ('s, 'q, 'w, 'a) handler) \<Rightarrow> ('s, 'q, 'w, ('a, grpc_status) result) remote" where
  "rpc cl ep f fl =
     (case fl ep of
        None \<Rightarrow> (fl, Ok (Err (cl_aborted cl)))
      | Some nd \<Rightarrow>
          (case f (cl_nodes cl ep) nd of
             (nd', r) \<Rightarrow>
               (fl(ep \<mapsto> nd'), case r of Ok x \<Rightarrow> Ok x | Err Never \<Rightarrow> Err Never | Err (Fails _) \<Rightarrow> Ok (Err (cl_aborted cl)))))"

definition rpc_or ::
  "('s, 'q, 'w, 'c) cluster \<Rightarrow> string \<Rightarrow> string \<Rightarrow> (('s, 'q, 'w) node_env \<Rightarrow> ('s, 'q, 'w, 'a) handler) \<Rightarrow> ('s, 'q, 'w, 'a) remote" where
  "rpc_or cl what ep f =
     and_then (rpc cl ep f) (\<lambda>r.
     case r of Ok a \<Rightarrow> ok a | Err s \<Rightarrow> remote_raise (new_error EkVmm (what @ '': '' @ cl_status_text cl s)))"

definition normalize_grpc_endpoint :: "string \<Rightarrow> string" where
  "normalize_grpc_endpoint endpoint =
     (let e = str_trim endpoint in
      if e = [] then []
      else if starts_with ''http://'' e \<or> starts_with ''https://'' e then e else ''http://'' @ e)"

subsection \<open>The machine backend of one node\<close>

definition grpc_vm_create ::
  "('s, 'q, 'w, 'c) cluster \<Rightarrow> string \<Rightarrow> string \<Rightarrow> sandbox_spec \<Rightarrow> ('s, 'q, 'w, vm_handle) remote" where
  "grpc_vm_create cl ep i sp =
     (case cl_to_json cl sp of
        Err e \<Rightarrow> remote_raise (new_error EkValidation e)
      | Ok json \<Rightarrow>
          and_then (grpc_connect cl (''connect clouisled '' @ ep) ep) (\<lambda>_.
          and_then (rpc_or cl ''create sandbox on clouisled'' ep (\<lambda>env. server_create_sandbox env (cl_from_json cl) i json)) (\<lambda>h.
          if sh_sandbox_id h \<noteq> i then
            remote_raise (new_error EkVmm (''clouisled returned sandbox id '' @ sh_sandbox_id h @ '' for requested '' @ i))
          else ok \<lparr>vh_id = sh_sandbox_id h, vh_backend = sh_backend h, vh_owner_id = None,
                   vh_pid = (if sh_pid h \<noteq> 0 then Some (sh_pid h) else None),
                   vh_api_socket = non_empty (sh_api_socket h), vh_vsock_socket = non_empty (sh_vsock_socket h),
                   vh_vsock_cid = None, vh_subnet = None\<rparr>)))"

definition grpc_vm_stop :: "('s, 'q, 'w, 'c) cluster \<Rightarrow> string \<Rightarrow> vm_handle \<Rightarrow> stop_mode \<Rightarrow> ('s, 'q, 'w, unit) remote" where
  "grpc_vm_stop cl ep h mode =
     and_then (grpc_connect cl (''connect clouisled '' @ ep) ep) (\<lambda>_.
     and_then (rpc_or cl ''delete sandbox on clouisled'' ep (\<lambda>env. and_then (server_delete_sandbox env (vh_id h)) (\<lambda>r. ok (Ok r)))) (\<lambda>(done, e).
     if done then ok () else remote_raise (new_error EkVmm e)))"

definition grpc_vm_probe :: "string \<Rightarrow> ('s, 'q, 'w) fleet \<Rightarrow> bool" where
  "grpc_vm_probe ep fl \<longleftrightarrow> fl ep \<noteq> None"

text \<open>The operations that the protocol does not have; starting a machine is part of its creation.\<close>

definition grpc_vm_start :: "vm_handle \<Rightarrow> (unit, clouisle_error) result" where
  "grpc_vm_start h = Ok ()"

definition grpc_vm_pause :: "vm_handle \<Rightarrow> (unit, clouisle_error) result" where
  "grpc_vm_pause h = Err (invalid_state ''remote pause is not exposed by the node protocol'')"

definition grpc_vm_resume :: "vm_handle \<Rightarrow> (unit, clouisle_error) result" where
  "grpc_vm_resume h = Err (invalid_state ''remote resume is not exposed by the node protocol'')"

definition grpc_vm_snapshot :: "vm_handle \<Rightarrow> snapshot_paths \<Rightarrow> (unit, clouisle_error) result" where
  "grpc_vm_snapshot h out = Err (invalid_state ''remote snapshots are not exposed by the node protocol'')"

definition grpc_vm_restore :: "string \<Rightarrow> sandbox_spec \<Rightarrow> snapshot_paths \<Rightarrow> (vm_handle, clouisle_error) result" where
  "grpc_vm_restore i sp from = Err (invalid_state ''remote snapshot restore is not exposed by the node protocol'')"

subsection \<open>The machine backend of a cluster\<close>

definition allocation_of :: "registered_node \<Rightarrow> node_allocation" where
  "allocation_of n = \<lparr>na_node_id = ni_node_id (rn_info n), na_allocated_vcpu = rn_allocated_vcpu n,
     na_allocated_memory_mb = rn_allocated_memory_mb n, na_sandbox_count = rn_running_sandboxes n\<rparr>"

definition node_for ::
  "('s, 'q, 'w, 'c) cluster \<Rightarrow> 'c \<Rightarrow> int \<Rightarrow> sandbox_spec \<Rightarrow> (registered_node, clouisle_error) result" where
  "node_for cl store now_ms sp =
     (case cl_list_ready_nodes cl (now_ms - 15000) store of
        Err e \<Rightarrow> Err (from_store_error e)
      | Ok nodes \<Rightarrow>
          (case place (cl_round cl) (map rn_info nodes) (map allocation_of nodes) sp LeastLoaded of
             None \<Rightarrow> Err (resource_exhausted ''no ready node can satisfy sandbox resources'')
           | Some selected \<Rightarrow>
               ok_or (invalid_state ''selected node missing from registry'')
                 (find (\<lambda>n. ni_node_id (rn_info n) = ni_node_id selected) nodes)))"

definition scheduled_create ::
  "('s, 'q, 'w, 'c) cluster \<Rightarrow> 'c \<Rightarrow> int \<Rightarrow> string \<Rightarrow> sandbox_spec \<Rightarrow> ('s, 'q, 'w, vm_handle) remote" where
  "scheduled_create cl store now_ms i sp =
     (case node_for cl store now_ms sp of
        Err e \<Rightarrow> remote_raise e
      | Ok n \<Rightarrow>
          (let ep = normalize_grpc_endpoint (rn_endpoint n) in
           and_then (grpc_vm_create cl (normalize_grpc_endpoint ep) i sp) (\<lambda>h.
           ok (h\<lparr>vh_backend := ''grpc:'' @ ep, vh_owner_id := Some (ni_node_id (rn_info n))\<rparr>))))"

definition scheduled_probe :: "vm_handle \<Rightarrow> ('s, 'q, 'w) fleet \<Rightarrow> bool" where
  "scheduled_probe h fl =
     (case strip_prefix ''grpc:'' (vh_backend h) of None \<Rightarrow> False | Some ep \<Rightarrow> grpc_vm_probe (normalize_grpc_endpoint ep) fl)"

definition scheduled_stop :: "('s, 'q, 'w, 'c) cluster \<Rightarrow> vm_handle \<Rightarrow> stop_mode \<Rightarrow> ('s, 'q, 'w, unit) remote" where
  "scheduled_stop cl h mode =
     (case strip_prefix ''grpc:'' (vh_backend h) of
        None \<Rightarrow> remote_raise (invalid_state ''missing persisted node endpoint'')
      | Some ep \<Rightarrow> grpc_vm_stop cl (normalize_grpc_endpoint ep) h mode)"

subsection \<open>The guest connection over a node\<close>

text \<open>A session keeps the sender of its stream, here the messages queued so far, and the rest of the response
  stream until somebody reads it.\<close>

record active_process =
  ga_frame_id :: string
  ga_sent :: "exec_msg list"
  ga_stream :: "(exec_item list \<times> bool) option"

record grpc_connection =
  gc_endpoint :: string
  gc_sandbox_id :: string
  gc_session :: "active_process option"

definition grpc_connect_and_hello ::
  "('s, 'q, 'w, 'c) cluster \<Rightarrow> string \<Rightarrow> vm_handle \<Rightarrow> string \<Rightarrow> ('s, 'q, 'w, grpc_connection) remote" where
  "grpc_connect_and_hello cl fallback h i =
     (let ep = (case strip_prefix ''grpc:'' (vh_backend h) of Some e \<Rightarrow> normalize_grpc_endpoint e | None \<Rightarrow> normalize_grpc_endpoint fallback) in
      if ep = [] then remote_raise (invalid_state ''missing node endpoint'')
      else and_then (grpc_connect cl ''connect node'' ep) (\<lambda>_. ok \<lparr>gc_endpoint = ep, gc_sandbox_id = i, gc_session = None\<rparr>))"

definition exec_request_of ::
  "grpc_connection \<Rightarrow> string list \<Rightarrow> (string, string) hashmap \<Rightarrow> string option \<Rightarrow> u64 \<Rightarrow> proto_exec_request" where
  "exec_request_of gc argv en cwd timeout_ms = \<lparr>xr_sandbox_id = gc_sandbox_id gc, xr_argv = argv, xr_env = en,
     xr_cwd = unwrap_or_default cwd, xr_timeout_ms = timeout_ms\<rparr>"

text \<open>The items of a response and whether it ends with them. Of a session these are the answers in the channel when the
  handler returns; the output of its processes follows.\<close>

fun reply_items :: "'w exec_reply \<Rightarrow> exec_item list \<times> bool" where
  "reply_items (CommandReply items done) = (items, done)"
| "reply_items (SessionReply xs) = (xs_queue xs, False)"

text \<open>The response stream of one command: the client closes its stream after the request.\<close>

definition grpc_exec_reply ::
  "('s, 'q, 'w, 'c) cluster \<Rightarrow> grpc_connection \<Rightarrow> proto_exec_request \<Rightarrow> ('s, 'q, 'w, exec_item list \<times> bool) remote" where
  "grpc_exec_reply cl gc rq =
     and_then (grpc_connect cl ''connect node'' (gc_endpoint gc)) (\<lambda>_.
     and_then (rpc_or cl ''node exec'' (gc_endpoint gc) (\<lambda>env. server_exec env [([], Some (MExecReq rq))] StreamClosed)) (\<lambda>r.
     ok (reply_items r)))"

definition read_error :: "('s, 'q, 'w, 'c) cluster \<Rightarrow> string \<Rightarrow> grpc_status \<Rightarrow> clouisle_error" where
  "read_error cl what s = new_error EkVmm (what @ '': '' @ cl_status_text cl s)"

fun grpc_collect ::
  "('s, 'q, 'w, 'c) cluster \<Rightarrow> exec_item list \<Rightarrow> bool \<Rightarrow> execution_result \<Rightarrow> (execution_result, clouisle_error stop) result" where
  "grpc_collect cl [] done r = Err (if done then Fails (io_error ''node exec stream ended before exit'') else Never)"
| "grpc_collect cl (Err s # items) done r = Err (Fails (read_error cl ''read node exec'' s))"
| "grpc_collect cl (Ok msg # items) done r =
     (case msg of
        Some (MExecStdout _ d _) \<Rightarrow> grpc_collect cl items done (r\<lparr>er_stdout := er_stdout r @ d\<rparr>)
      | Some (MExecStderr _ d _) \<Rightarrow> grpc_collect cl items done (r\<lparr>er_stderr := er_stderr r @ d\<rparr>)
      | Some (MExecExit _ c _) \<Rightarrow> Ok (r\<lparr>er_exit_code := c\<rparr>)
      | _ \<Rightarrow> Err (Fails (invalid_state ''unexpected node exec response'')))"

definition grpc_exec ::
  "('s, 'q, 'w, 'c) cluster \<Rightarrow> u64 \<Rightarrow> grpc_connection \<Rightarrow> string list \<Rightarrow> (string, string) hashmap \<Rightarrow> string option \<Rightarrow> u64
   \<Rightarrow> ('s, 'q, 'w, execution_result) remote" where
  "grpc_exec cl took gc argv en cwd timeout_ms =
     and_then (grpc_exec_reply cl gc (exec_request_of gc argv en cwd timeout_ms)) (\<lambda>(items, done).
     lift_result (grpc_collect cl items done \<lparr>er_exit_code = 0, er_stdout = [], er_stderr = [], er_duration_ms = took\<rparr>))"

text \<open>The events that the receiver of the caller takes, and how the streamed execution ends.\<close>

fun grpc_events ::
  "('s, 'q, 'w, 'c) cluster \<Rightarrow> (nat \<Rightarrow> send_end) \<Rightarrow> nat \<Rightarrow> exec_item list \<Rightarrow> bool
   \<Rightarrow> exec_stream_event list \<times> (unit, clouisle_error stop) result" where
  "grpc_events cl send n [] done = ([], Err (if done then Fails (io_error ''node exec stream ended before exit'') else Never))"
| "grpc_events cl send n (Err s # items) done = ([], Err (Fails (read_error cl ''read node exec'' s)))"
| "grpc_events cl send n (Ok msg # items) done =
     (let next = (\<lambda>ev. case send n of
                         Taken \<Rightarrow> (case grpc_events cl send (Suc n) items done of (evs, r) \<Rightarrow> (ev # evs, r))
                       | Gone \<Rightarrow> ([], Ok ())
                       | Full \<Rightarrow> ([], Err Never)) in
      case msg of
        Some (MExecStdout _ d _) \<Rightarrow> next (EvStdout d)
      | Some (MExecStderr _ d _) \<Rightarrow> next (EvStderr d)
      | Some (MExecExit _ c _) \<Rightarrow> (if send n = Taken then [EvExit c] else [], if send n = Full then Err Never else Ok ())
      | _ \<Rightarrow> ([], Err (Fails (invalid_state ''unexpected node exec response''))))"

definition grpc_exec_stream ::
  "('s, 'q, 'w, 'c) cluster \<Rightarrow> (nat \<Rightarrow> send_end) \<Rightarrow> grpc_connection \<Rightarrow> string list \<Rightarrow> (string, string) hashmap \<Rightarrow> string option \<Rightarrow> u64
   \<Rightarrow> ('s, 'q, 'w, exec_stream_event list \<times> (unit, clouisle_error stop) result) remote" where
  "grpc_exec_stream cl send gc argv en cwd timeout_ms =
     and_then (grpc_exec_reply cl gc (exec_request_of gc argv en cwd timeout_ms)) (\<lambda>(items, done).
     ok (grpc_events cl send 0 items done))"

definition grpc_file ::
  "('s, 'q, 'w, 'c) cluster \<Rightarrow> string \<Rightarrow> grpc_connection \<Rightarrow> proto_file_request \<Rightarrow> ('s, 'q, 'w, proto_file_response) remote" where
  "grpc_file cl what gc rq =
     and_then (grpc_connect cl ''connect node'' (gc_endpoint gc)) (\<lambda>_.
     rpc_or cl what (gc_endpoint gc) (\<lambda>env. server_file_op env (gc_sandbox_id gc) (Some rq)))"

definition grpc_write_file ::
  "('s, 'q, 'w, 'c) cluster \<Rightarrow> grpc_connection \<Rightarrow> string \<Rightarrow> byte list \<Rightarrow> u32 \<Rightarrow> ('s, 'q, 'w, unit) remote" where
  "grpc_write_file cl gc path content mode =
     and_then (grpc_file cl ''node write file'' gc (FileWrite path content mode)) (\<lambda>r.
     case r of WriteOk True \<Rightarrow> ok () | _ \<Rightarrow> remote_raise (invalid_state ''unexpected node write response''))"

definition grpc_read_file :: "('s, 'q, 'w, 'c) cluster \<Rightarrow> grpc_connection \<Rightarrow> string \<Rightarrow> ('s, 'q, 'w, byte list) remote" where
  "grpc_read_file cl gc path =
     and_then (grpc_file cl ''node read file'' gc (FileRead path)) (\<lambda>r.
     case r of FileContent content \<Rightarrow> ok content | _ \<Rightarrow> remote_raise (invalid_state ''unexpected node read response''))"

definition grpc_list_dir :: "('s, 'q, 'w, 'c) cluster \<Rightarrow> grpc_connection \<Rightarrow> string \<Rightarrow> ('s, 'q, 'w, dir_entry list) remote" where
  "grpc_list_dir cl gc path =
     and_then (grpc_file cl ''node list directory'' gc (FileList path)) (\<lambda>r.
     case r of FileEntries entries \<Rightarrow> ok entries | _ \<Rightarrow> remote_raise (invalid_state ''unexpected node list response''))"

text \<open>A ping only connects to the node; limits are not sent at all.\<close>

definition grpc_ping :: "('s, 'q, 'w, 'c) cluster \<Rightarrow> grpc_connection \<Rightarrow> ('s, 'q, 'w, unit) remote" where
  "grpc_ping cl gc = grpc_connect cl ''connect node'' (gc_endpoint gc)"

definition grpc_apply_limits :: "grpc_connection \<Rightarrow> u32 option \<Rightarrow> ('s, 'q, 'w, unit) remote" where
  "grpc_apply_limits gc pids = ok ()"

subsubsection \<open>Interactive processes\<close>

text \<open>The wait for the acknowledgement: what remains of the stream after it.\<close>

fun await_ack ::
  "('s, 'q, 'w, 'c) cluster \<Rightarrow> string \<Rightarrow> exec_item list \<Rightarrow> bool \<Rightarrow> (exec_item list, clouisle_error stop) result" where
  "await_ack cl fid [] done = Err (if done then Fails (io_error ''node process start stream ended before ack'') else Never)"
| "await_ack cl fid (Err s # items) done = Err (Fails (read_error cl ''read node process start'' s))"
| "await_ack cl fid (Ok msg # items) done =
     (case msg of Some (MProcessStarted got _) \<Rightarrow> if got = fid then Ok items else await_ack cl fid items done | _ \<Rightarrow> await_ack cl fid items done)"

text \<open>The request is queued and its sender is kept for the messages to come, so that the stream stays open; the
  call waits for the response of the node.\<close>

definition grpc_start_process ::
  "('s, 'q, 'w, 'c) cluster \<Rightarrow> string \<Rightarrow> grpc_connection \<Rightarrow> string list \<Rightarrow> (string, string) hashmap \<Rightarrow> string option \<Rightarrow> u64 \<Rightarrow> bool
   \<Rightarrow> pty_config option \<Rightarrow> ('s, 'q, 'w, grpc_connection \<times> string) remote" where
  "grpc_start_process cl fid gc argv en cwd timeout_ms stdin pty =
     (if argv = [] then remote_raise (validation_error ''argv empty'')
      else
        (let rq = \<lparr>pr_sandbox_id = gc_sandbox_id gc, pr_frame_id = fid, pr_argv = argv, pr_env = en, pr_cwd = unwrap_or_default cwd,
                   pr_timeout_ms = timeout_ms, pr_stdin = stdin, pr_pty = map_option (\<lambda>p. (ucast (pc_cols p), ucast (pc_rows p))) pty\<rparr> in
         and_then (grpc_connect cl ''connect node'' (gc_endpoint gc)) (\<lambda>_.
         and_then (rpc_or cl ''node process start'' (gc_endpoint gc) (\<lambda>env. server_exec env [([], Some (MProcessStart rq))] StreamOpen)) (\<lambda>r.
         case reply_items r of (items, done) \<Rightarrow>
           and_then (lift_result (await_ack cl fid items done)) (\<lambda>rest.
           ok (gc\<lparr>gc_session := Some \<lparr>ga_frame_id = fid, ga_sent = [MProcessStart rq], ga_stream = Some (rest, done)\<rparr>\<rparr>, fid))))))"

text \<open>The reader of a session's stream skips what is not output of its process.\<close>

fun process_events ::
  "('s, 'q, 'w, 'c) cluster \<Rightarrow> (nat \<Rightarrow> send_end) \<Rightarrow> nat \<Rightarrow> string \<Rightarrow> exec_item list \<Rightarrow> bool
   \<Rightarrow> exec_stream_event list \<times> (unit, clouisle_error stop) result" where
  "process_events cl send n pid [] done = ([], Err (if done then Fails (io_error ''node process stream ended before exit'') else Never))"
| "process_events cl send n pid (Err s # items) done = ([], Err (Fails (read_error cl ''read node process output'' s)))"
| "process_events cl send n pid (Ok msg # items) done =
     (let next = (\<lambda>ev. case send n of
                         Taken \<Rightarrow> (case process_events cl send (Suc n) pid items done of (evs, r) \<Rightarrow> (ev # evs, r))
                       | Gone \<Rightarrow> ([], Ok ())
                       | Full \<Rightarrow> ([], Err Never));
          skip = process_events cl send n pid items done in
      case msg of
        Some (MExecStdout _ d fid) \<Rightarrow> if fid = pid then next (EvStdout d) else skip
      | Some (MExecStderr _ d fid) \<Rightarrow> if fid = pid then next (EvStderr d) else skip
      | Some (MExecExit _ c fid) \<Rightarrow>
          if fid = pid then (if send n = Taken then [EvExit c] else [], if send n = Full then Err Never else Ok ()) else skip
      | _ \<Rightarrow> skip)"

definition active_session :: "grpc_connection \<Rightarrow> string \<Rightarrow> (active_process, clouisle_error) result" where
  "active_session gc pid =
     (case gc_session gc of
        None \<Rightarrow> Err (not_found (''process '' @ pid))
      | Some a \<Rightarrow> if ga_frame_id a \<noteq> pid then Err (not_found (''process '' @ pid)) else Ok a)"

definition grpc_process_events ::
  "('s, 'q, 'w, 'c) cluster \<Rightarrow> (nat \<Rightarrow> send_end) \<Rightarrow> string \<Rightarrow> grpc_connection
   \<Rightarrow> grpc_connection \<times> exec_stream_event list \<times> (unit, clouisle_error stop) result" where
  "grpc_process_events cl send pid gc =
     (case active_session gc pid of
        Err e \<Rightarrow> (gc, [], Err (Fails e))
      | Ok a \<Rightarrow>
          (case ga_stream a of
             None \<Rightarrow> (gc, [], Err (Fails (invalid_state ''process stream already consumed'')))
           | Some (items, done) \<Rightarrow> (gc\<lparr>gc_session := Some (a\<lparr>ga_stream := None\<rparr>)\<rparr>, process_events cl send 0 pid items done)))"

definition grpc_control :: "exec_msg \<Rightarrow> string \<Rightarrow> grpc_connection \<Rightarrow> grpc_connection \<times> (unit, clouisle_error) result" where
  "grpc_control msg pid gc =
     (case active_session gc pid of
        Err e \<Rightarrow> (gc, Err e)
      | Ok a \<Rightarrow> (gc\<lparr>gc_session := Some (a\<lparr>ga_sent := ga_sent a @ [msg]\<rparr>)\<rparr>, Ok ()))"

definition grpc_send_stdin :: "string \<Rightarrow> byte list \<Rightarrow> grpc_connection \<Rightarrow> grpc_connection \<times> (unit, clouisle_error) result" where
  "grpc_send_stdin pid chunk = grpc_control (MProcessInput pid chunk) pid"

definition grpc_close_stdin :: "string \<Rightarrow> grpc_connection \<Rightarrow> grpc_connection \<times> (unit, clouisle_error) result" where
  "grpc_close_stdin pid = grpc_control (MProcessEof pid) pid"

definition grpc_send_signal :: "string \<Rightarrow> process_signal \<Rightarrow> grpc_connection \<Rightarrow> grpc_connection \<times> (unit, clouisle_error) result" where
  "grpc_send_signal pid sig = grpc_control (MProcessSignal pid (signal_as_i32 sig)) pid"

definition grpc_resize_pty :: "string \<Rightarrow> u16 \<Rightarrow> u16 \<Rightarrow> grpc_connection \<Rightarrow> grpc_connection \<times> (unit, clouisle_error) result" where
  "grpc_resize_pty pid cols rows = grpc_control (MProcessResize pid (ucast cols) (ucast rows)) pid"

end
