(* ===== verification/Node_Ledger.thy ===== *)
theory Node_Ledger
  imports Node_Agent Lifecycle_Safety
begin

text \<open>
  What the calls of the node agent leave alone and what they keep. \<open>guest_frame\<close> is a preorder that allows any
  change of the world and of the firewall: every exchange with a guest or a machine stays within it.
  \<open>node_frame\<close> also allows a change of the store, and \<open>node_ledger\<close> allows a sandbox to be forgotten, which is what a failed creation
  does. The instances say that the exchanges leave the registrations alone, and that every call keeps the
  balance between the permits of the pool and the registered sandboxes.
\<close>

section \<open>Frames\<close>

named_theorems node_intros

locale guest_frame = state_preorder R for R :: "('s, 'q, 'w) node \<Rightarrow> ('s, 'q, 'w) node \<Rightarrow> bool" +
  assumes world_ok: "R nd (nd\<lparr>nd_world := w\<rparr>)"
    and network_ok: "R nd (nd\<lparr>nd_firewall := fw, nd_world := w\<rparr>)"
begin

lemmas [node_intros] = confined_and_then confined_pure confined_if

lemma n_world [node_intros]: "confined R (node_world f)"
  by (simp add: confined_def node_world_def world_ok split: prod.split)

lemma n_raise [node_intros]: "confined R (node_raise e)"
  unfolding node_raise_def by (rule confined_pure)

lemma n_read [node_intros]: "confined R (\<lambda>nd. (nd, g nd))"
  by (rule confined_const) simp

lemma n_option [node_intros]:
  "confined R m \<Longrightarrow> (\<And>x. confined R (f x)) \<Longrightarrow> confined R (case v of None \<Rightarrow> m | Some x \<Rightarrow> f x)"
  by (cases v) simp_all

lemma n_sum [node_intros]:
  "(\<And>x. confined R (f x)) \<Longrightarrow> (\<And>e. confined R (g e)) \<Longrightarrow> confined R (case r of Ok x \<Rightarrow> f x | Err e \<Rightarrow> g e)"
  by (cases r) simp_all

lemma n_pair [node_intros]: "(\<And>x y. confined R (f x y)) \<Longrightarrow> confined R (case p of (x, y) \<Rightarrow> f x y)"
  by (cases p) simp

lemma n_call [node_intros]: "confined R (node_call f)"
  unfolding node_call_def by (intro node_intros)

lemma n_try [node_intros]:
  assumes "confined R m"
  shows "confined R (node_try m)"
  unfolding confined_def
proof
  fix nd
  have "R nd (fst (m nd))" by (rule confined_at [OF assms])
  then show "R nd (fst (node_try m nd))"
    by (cases "m nd") (auto simp: node_try_def split: sum.splits stop.splits fault.splits)
qed

lemma n_ignore [node_intros]: "confined R m \<Longrightarrow> confined R (node_ignore m)"
  unfolding node_ignore_def by (intro node_intros)

lemma n_connect [node_intros]: "confined R (node_connect env ip)"
  unfolding node_connect_def by (intro node_intros) (auto intro: node_intros split: connect_end.splits)

lemma n_client [node_intros]: "confined R (guest_client m c)"
  by (simp add: confined_def guest_client_def world_ok split: prod.split)

lemma n_session [node_intros]: "confined R (guest_session env brief i m)"
  unfolding guest_session_def node_executable_def Let_def by (intro node_intros)

lemma n_file_op [node_intros]: "confined R (node_file_op env i f)"
  unfolding node_file_op_def by (intro node_intros)

lemma n_exec [node_intros]:
  "confined R (node_exec_events env brief i argv en cwd t send)"
  "confined R (node_exec_command env i argv en cwd t)"
  "confined R (node_exec_command_stream env i argv en cwd t send)"
proof -
  show e: "confined R (node_exec_events env brief i argv en cwd t send)" for brief send
    unfolding node_exec_events_def by (intro node_intros)
  show "confined R (node_exec_command env i argv en cwd t)"
    unfolding node_exec_command_def by (intro node_intros e)
  show "confined R (node_exec_command_stream env i argv en cwd t send)"
    unfolding node_exec_command_stream_def by (rule e)
qed

lemma n_process [node_intros]:
  "confined R (node_process_start env i fid argv en cwd t stdin pty)" "confined R (node_process_control env i fid oper)"
  unfolding node_process_start_def node_process_control_def by (intro node_intros)+

lemma n_net [node_intros]:
  "confined R (node_net_create env i)" "confined R (node_net_setup env i sp)" "confined R (node_net_teardown env i)"
proof -
  show "confined R (node_net_create env i)" unfolding node_net_create_def by (intro node_intros)
  show "confined R (node_net_setup env i sp)" "confined R (node_net_teardown env i)"
    by (simp_all add: confined_def node_net_setup_def node_net_teardown_def Let_def network_ok refl split: prod.split)
qed

lemma n_transition [node_intros]: "confined R (node_transition env sb ev)"
  unfolding node_transition_def by (intro node_intros)

lemma n_ping [node_intros]: "confined R (node_ping env i)"
  unfolding node_ping_def by (intro node_intros)

lemma n_secrets [node_intros]: "confined R (node_secrets env i ss)"
  by (induction ss) (auto intro: node_intros)

lemma n_init [node_intros]: "confined R (node_init_command env i sp)"
  unfolding node_init_command_def by (intro node_intros)

lemma n_guest_setup [node_intros]: "confined R (guest_setup env i sp)"
  unfolding guest_setup_def by (intro node_intros)

lemma n_listed [node_intros]: "confined R (node_listed env)"
  unfolding node_listed_def by (intro node_intros)

lemma n_orphans [node_intros]: "confined R (stop_orphans env known hs)"
  by (induction hs) (auto intro!: node_intros)

end

locale node_frame = guest_frame R for R :: "('s, 'q, 'w) node \<Rightarrow> ('s, 'q, 'w) node \<Rightarrow> bool" +
  assumes store_ok: "R nd (nd\<lparr>nd_store := s\<rparr>)"
begin

lemma n_write [node_intros]: "confined R (node_write f)"
  by (simp add: confined_def node_write_def store_ok split: prod.split)

lemma n_update [node_intros]: "confined R (node_update env i u)"
  unfolding node_update_def by (intro node_intros)

end

locale node_ledger = node_frame R for R :: "('s, 'q, 'w) node \<Rightarrow> ('s, 'q, 'w) node \<Rightarrow> bool" +
  fixes env :: "('s, 'q, 'w) node_env" and i :: string
  assumes forget_ok: "R nd (node_forget env i nd)"
begin

lemma l_forget [node_intros]: "confined R (modify (node_forget env i))"
  by (simp add: confined_def modify_def forget_ok)

lemma l_fail [node_intros]: "confined R (fail_creation env i e h)"
  unfolding fail_creation_def by (intro node_intros)

lemma l_failing [node_intros]: "confined R m \<Longrightarrow> confined R (failing env i h m)"
  unfolding failing_def by (intro node_intros)

lemma l_started [node_intros]: "confined R (create_started env i sp)"
  unfolding create_started_def Let_def by (intro node_intros)

end

section \<open>Registrations\<close>

definition registry :: "('s, 'q, 'w) node \<Rightarrow> 'q resource_pool \<times> (string, sandbox) hashmap \<times> (string, resources) hashmap" where
  "registry nd = (nd_pool nd, nd_sandboxes nd, nd_reservations nd)"

lemma registry_eqD:
  "registry nd' = registry nd \<Longrightarrow>
   nd_pool nd' = nd_pool nd \<and> nd_sandboxes nd' = nd_sandboxes nd \<and> nd_reservations nd' = nd_reservations nd"
  by (simp add: registry_def)

interpretation still: node_frame "\<lambda>nd nd'. registry nd' = registry nd"
  by unfold_locales (simp_all add: registry_def)

abbreviation still_comp :: "('s, 'q, 'w, 'a) node_comp \<Rightarrow> bool" where
  "still_comp m \<equiv> confined (\<lambda>nd nd'. registry nd' = registry nd) m"

interpretation quiet: guest_frame "\<lambda>nd nd'. registry nd' = registry nd \<and> nd_store nd' = nd_store nd"
  by unfold_locales (simp_all add: registry_def)

text \<open>What happens to \<open>i\<close> leaves the registrations of the other sandboxes alone.\<close>

definition others_kept :: "string \<Rightarrow> ('s, 'q, 'w) node \<Rightarrow> ('s, 'q, 'w) node \<Rightarrow> bool" where
  "others_kept i nd nd' \<longleftrightarrow> (\<forall>j. j \<noteq> i \<longrightarrow>
     hm_get (nd_sandboxes nd') j = hm_get (nd_sandboxes nd) j \<and> hm_get (nd_reservations nd') j = hm_get (nd_reservations nd) j)"

interpretation others: node_ledger "others_kept i" env i for env i
  by unfold_locales (auto simp: others_kept_def node_forget_def node_drop_def split: option.split)

text \<open>A guarded step that succeeds has not forgotten anything.\<close>

lemma failing_Ok:
  assumes "still_comp m" and "failing env i h m nd = (nd', Ok a)"
  shows "m nd = (nd', Ok a)" and "registry nd' = registry nd"
proof -
  show m: "m nd = (nd', Ok a)"
    using assms(2) by (auto simp: failing_def and_then_def node_try_def comp_defs node_raise_def
        split: prod.splits sum.splits stop.splits fault.splits)
  then show "registry nd' = registry nd" using confinedD [OF assms(1)] by blast
qed

text \<open>Cleaning up after a failure cannot fail: an error of the store or of the machine is ignored.\<close>

lemma node_raised_simps [simp]:
  "node_raised (Ok a) = Ok a" "node_raised (Err e) = Err (Fails (Raised e))"
  "node_raised r = Ok a \<longleftrightarrow> r = Ok a" "node_raised r = Err x \<longleftrightarrow> (\<exists>e. r = Err e \<and> x = Fails (Raised e))"
  by (cases r; auto simp: node_raised_def)+

lemma ignored_Ok [simp]:
  "snd (node_ignore (node_update env i u) nd) = Ok ()" "snd (node_ignore (node_call f) nd) = Ok ()"
  by (simp_all add: node_ignore_def node_try_def and_then_def comp_defs node_update_def node_write_def node_call_def node_world_def
      split: prod.splits sum.splits stop.splits fault.splits)

lemma teardown_Ok [simp]: "snd (node_net_teardown env i nd) = Ok ()"
  by (simp add: node_net_teardown_def split: prod.splits)

lemma and_then_total: "(\<And>s. snd (m s) = Ok a) \<Longrightarrow> and_then m f s = f a (fst (m s))"
  by (simp add: and_then_def split: prod.splits) (metis snd_conv sum.simps(6))

lemma fail_creation_run:
  "fail_creation env i e h nd =
    (node_forget env i (fst (node_net_teardown env i
       (fst ((case h of Some x \<Rightarrow> node_ignore (node_call (ne_vm_stop env x Force)) | None \<Rightarrow> ok ())
         (fst (node_ignore (node_update env i (UStatusMessage Error (Some (err_message e)))) nd)))))), Ok ())"
proof -
  have h: "snd ((case h of Some x \<Rightarrow> node_ignore (node_call (ne_vm_stop env x Force)) | None \<Rightarrow> ok ()) s) = Ok ()" for s
    by (cases h) (simp_all add: ok_def)
  show ?thesis by (simp add: fail_creation_def and_then_total [where a = "()"] h modify_def)
qed

lemma failing_Raised:
  assumes "failing env i h m nd = (nd', Err (Fails (Raised e)))"
  obtains nd1 where "m nd = (nd1, Err (Fails (Raised e)))" and "nd' = fst (fail_creation env i e h nd1)"
  using assms by (auto simp: failing_def fail_creation_run and_then_def node_try_def comp_defs node_raise_def
      split: prod.splits sum.splits stop.splits fault.splits)

section \<open>The balance of permits\<close>

text \<open>\<open>fl\<close> is the reservation in the hand of the running call. The capacity is that of the pool, with 200 sandboxes.\<close>

definition node_total :: "('s, 'q, 'w) node_env \<Rightarrow> dim \<Rightarrow> nat" where
  "node_total env d = total (node_capacity (ne_config env)) 200 d"

definition registered :: "('s, 'q, 'w) node \<Rightarrow> bool" where
  "registered nd \<longleftrightarrow> hm_ok (nd_sandboxes nd) \<and> hm_ok (nd_reservations nd) \<and>
     (\<forall>i. hm_get (nd_reservations nd) i = map_option (\<lambda>sb. sp_resources (sb_spec sb)) (hm_get (nd_sandboxes nd) i))"

definition node_balanced :: "('s, 'q, 'w) node_env \<Rightarrow> resources option \<Rightarrow> ('s, 'q, 'w) node \<Rightarrow> bool" where
  "node_balanced env fl nd \<longleftrightarrow>
     (\<forall>d. sem_available (ne_sem env) (get_sem (nd_pool nd) d) + hm_total (units d) (nd_reservations nd)
        + opt_total (units d) fl = node_total env d)"

definition node_ok :: "('s, 'q, 'w) node_env \<Rightarrow> resources option \<Rightarrow> ('s, 'q, 'w) node \<Rightarrow> bool" where
  "node_ok env fl nd \<longleftrightarrow> registered nd \<and> node_balanced env fl nd"

lemma node_total_le: "node_total env d \<le> MAX_PERMITS"
  unfolding node_total_def by (rule total_le_max) (simp add: MAX_PERMITS_def)

lemma node_ok_registry: "registry nd' = registry nd \<Longrightarrow> node_ok env fl nd' = node_ok env fl nd"
  by (simp add: node_ok_def registered_def node_balanced_def registry_def)

lemma node_balancedD:
  assumes "node_balanced env fl nd"
  shows "sem_available (ne_sem env) (get_sem (nd_pool nd) d) + hm_total (units d) (nd_reservations nd)
    + opt_total (units d) fl = node_total env d"
  using assms by (simp add: node_balanced_def)

lemma balanced_node_drop:
  assumes laws: "semaphore_laws (ne_sem env)" and bal: "node_balanced env r nd"
  shows "node_balanced env None (node_drop env r nd)"
proof (cases r)
  case (Some x)
  have "sem_available (ne_sem env) (get_sem (nd_pool nd) d) + need x d \<le> MAX_PERMITS" for d
    using node_balancedD [OF bal, of d] node_total_le [of env d] Some by (simp add: units_def)
  then have "sem_available (ne_sem env) (get_sem (reservation_drop (ne_sem env) x (nd_pool nd)) d)
      = sem_available (ne_sem env) (get_sem (nd_pool nd) d) + need x d" for d
    by (rule available_drop [OF laws])
  with bal Some show ?thesis by (simp add: node_drop_def node_balanced_def units_def ac_simps)
qed (use bal in \<open>simp add: node_drop_def\<close>)

lemma registered_drop [simp]: "registered (node_drop env r nd) = registered nd"
  by (simp add: registered_def node_drop_def split: option.split)

text \<open>The two halves of a registration, in either order.\<close>

lemma keep_insert: "node_keep env i r (node_insert i sb nd) = node_insert i sb (node_keep env i r nd)"
  by (simp add: node_keep_def node_insert_def node_drop_def split: option.split)

lemma node_ok_register:
  assumes laws: "semaphore_laws (ne_sem env)" and ok: "node_ok env (Some (sp_resources (sb_spec sb))) nd"
  shows "node_ok env None (node_insert i sb (node_keep env i (sp_resources (sb_spec sb)) nd))"
proof -
  let ?r = "sp_resources (sb_spec sb)"
  let ?nd = "nd\<lparr>nd_sandboxes := hm_insert i sb (nd_sandboxes nd), nd_reservations := hm_insert i ?r (nd_reservations nd)\<rparr>"
  have e: "node_insert i sb (node_keep env i ?r nd) = node_drop env (hm_get (nd_reservations nd) i) ?nd"
    by (simp add: node_insert_def node_keep_def node_drop_def split: option.split)
  have "node_balanced env (hm_get (nd_reservations nd) i) ?nd"
    unfolding node_balanced_def
  proof
    fix d
    show "sem_available (ne_sem env) (get_sem (nd_pool ?nd) d) + hm_total (units d) (nd_reservations ?nd)
        + opt_total (units d) (hm_get (nd_reservations nd) i) = node_total env d"
      using node_balancedD [of env "Some ?r" nd d] ok hm_total_insert [of "units d" i ?r "nd_reservations nd"]
      by (simp add: node_ok_def)
  qed
  moreover have "registered ?nd" using ok by (simp add: node_ok_def registered_def)
  ultimately show ?thesis using balanced_node_drop [OF laws] by (simp add: e node_ok_def)
qed

lemma node_ok_forget:
  assumes laws: "semaphore_laws (ne_sem env)" and ok: "node_ok env fl nd"
  shows "node_ok env fl (node_forget env i nd)"
proof -
  let ?nd = "nd\<lparr>nd_sandboxes := hm_remove i (nd_sandboxes nd), nd_reservations := hm_remove i (nd_reservations nd)\<rparr>"
  have reg: "registered ?nd" using ok by (simp add: node_ok_def registered_def)
  show ?thesis
  proof (cases "hm_get (nd_reservations nd) i")
    case None
    have "hm_total (units d) (hm_remove i (nd_reservations nd)) = hm_total (units d) (nd_reservations nd)" for d
      using hm_total_remove [of "nd_reservations nd" "units d" i] ok None by (simp add: node_ok_def registered_def)
    with ok reg None show ?thesis by (simp add: node_ok_def node_balanced_def node_forget_def node_drop_def)
  next
    case (Some x)
    have t: "hm_total (units d) (hm_remove i (nd_reservations nd)) + need x d = hm_total (units d) (nd_reservations nd)" for d
      using hm_total_remove [of "nd_reservations nd" "units d" i] ok Some by (simp add: node_ok_def registered_def units_def)
    have bal: "sem_available (ne_sem env) (get_sem (nd_pool nd) d) + hm_total (units d) (nd_reservations nd)
        + opt_total (units d) fl = node_total env d" for d
      using ok by (simp add: node_ok_def node_balanced_def)
    have "sem_available (ne_sem env) (get_sem (reservation_drop (ne_sem env) x (nd_pool nd)) d)
        = sem_available (ne_sem env) (get_sem (nd_pool nd) d) + need x d" for d
      using bal [of d] t [of d] node_total_le [of env d] by (intro available_drop [OF laws]) linarith
    then have "node_balanced env fl (node_forget env i nd)"
      unfolding node_balanced_def using bal t by (simp add: node_forget_def node_drop_def Some) (metis add.assoc add.commute)
    with reg show ?thesis by (simp add: node_ok_def node_forget_def)
  qed
qed

lemma node_ok_admit:
  assumes laws: "semaphore_laws (ne_sem env)" and ok: "node_ok env None nd" and adm: "node_admit env sp nd = (nd', r)"
  shows "node_ok env (case r of Ok x \<Rightarrow> Some x | Err _ \<Rightarrow> None) nd'"
    and "r = Ok x \<Longrightarrow> x = sp_resources sp"
    and "nd_sandboxes nd' = nd_sandboxes nd" and "nd_reservations nd' = nd_reservations nd"
proof -
  obtain p' q where a: "admit (ne_sem env) (nd_pool nd) sp = (p', q)" by (cases "admit (ne_sem env) (nd_pool nd) sp")
  have nd': "nd' = nd\<lparr>nd_pool := p'\<rparr>" and r: "r = node_raised q" using adm a by (simp_all add: node_admit_def)
  show "nd_sandboxes nd' = nd_sandboxes nd" "nd_reservations nd' = nd_reservations nd" by (simp_all add: nd')
  have reg: "registered nd'" using ok by (simp add: nd' node_ok_def registered_def)
  have bal: "sem_available (ne_sem env) (get_sem (nd_pool nd) d) + hm_total (units d) (nd_reservations nd) = node_total env d" for d
    using ok by (simp add: node_ok_def node_balanced_def)
  have le: "sem_available (ne_sem env) (get_sem (nd_pool nd) d) \<le> MAX_PERMITS" for d
    using bal [of d] node_total_le [of env d] by linarith
  show "r = Ok x \<Longrightarrow> x = sp_resources sp"
    using admit_Ok_effect(1) [OF laws, of "nd_pool nd" sp p' x] a r by (cases q) auto
  show "node_ok env (case r of Ok x \<Rightarrow> Some x | Err _ \<Rightarrow> None) nd'"
  proof (cases q)
    case (Inl e)
    with admit_Err_unchanged(1) [OF laws, of "nd_pool nd" sp p' e] a le bal reg show ?thesis
      by (simp add: node_ok_def node_balanced_def r) (simp add: nd')
  next
    case (Inr x)
    have "sem_available (ne_sem env) (get_sem p' d) + need x d = sem_available (ne_sem env) (get_sem (nd_pool nd) d)" for d
      using admit_Ok_effect(3,4) [OF laws, of "nd_pool nd" sp p' x] a Inr by (metis le_add_diff_inverse2)
    then have "sem_available (ne_sem env) (get_sem p' d) + hm_total (units d) (nd_reservations nd) + need x d = node_total env d" for d
      using bal [of d] by (metis add.assoc add.commute)
    then have "node_balanced env (Some x) nd'" by (simp add: node_balanced_def nd' units_def)
    with reg show ?thesis by (simp add: node_ok_def r Inr)
  qed
qed

section \<open>Every call keeps the balance\<close>

lemma node_ledger_ok:
  assumes "semaphore_laws (ne_sem env)"
  shows "node_ledger (\<lambda>nd nd'. node_ok env fl nd \<longrightarrow> node_ok env fl nd') env i"
proof -
  have "node_ok env fl (nd\<lparr>nd_world := w\<rparr>) = node_ok env fl nd" "node_ok env fl (nd\<lparr>nd_store := s\<rparr>) = node_ok env fl nd"
    "node_ok env fl (nd\<lparr>nd_firewall := fw, nd_world := w\<rparr>) = node_ok env fl nd" for nd w s fw
    by (rule node_ok_registry; simp add: registry_def)+
  then show ?thesis using node_ok_forget [OF assms] by unfold_locales auto
qed

lemma node_ok_still: "still_comp m \<Longrightarrow> m nd = (nd', r) \<Longrightarrow> node_ok env fl nd \<Longrightarrow> node_ok env fl nd'"
  using node_ok_registry [of nd' nd env fl] confinedD [of "\<lambda>nd nd'. registry nd' = registry nd" m nd nd' r] by simp

lemma node_ok_failing:
  assumes laws: "semaphore_laws (ne_sem env)" and "still_comp m" and "failing env i h m nd = (nd', r)" and "node_ok env fl nd"
  shows "node_ok env fl nd'"
proof -
  have "confined (\<lambda>nd nd'. node_ok env fl nd \<longrightarrow> node_ok env fl nd') m"
    using assms(2) node_ok_registry unfolding confined_def by blast
  from node_ledger.l_failing [OF node_ledger_ok [OF laws] this] assms(3,4) show ?thesis
    by (auto dest: confinedD)
qed

lemma node_ok_started:
  assumes "semaphore_laws (ne_sem env)" and "create_started env i sp nd = (nd', r)" and "node_ok env fl nd"
  shows "node_ok env fl nd'"
  using node_ledger.l_started [OF node_ledger_ok [OF assms(1)]] assms(2,3) by (auto dest: confinedD)

text \<open>What a computation makes true when it ends with an answer and when it ends with an error.\<close>

definition ends :: "('s \<Rightarrow> bool) \<Rightarrow> ('s, 'a, 'e) comp \<Rightarrow> ('a \<Rightarrow> 's \<Rightarrow> bool) \<Rightarrow> ('e \<Rightarrow> 's \<Rightarrow> bool) \<Rightarrow> bool" where
  "ends P m Q E \<longleftrightarrow> (\<forall>s. P s \<longrightarrow> (case m s of (s', r) \<Rightarrow> (case r of Ok a \<Rightarrow> Q a s' | Err e \<Rightarrow> E e s')))"

lemma endsI:
  "(\<And>s s' a. P s \<Longrightarrow> m s = (s', Ok a) \<Longrightarrow> Q a s') \<Longrightarrow> (\<And>s s' e. P s \<Longrightarrow> m s = (s', Err e) \<Longrightarrow> E e s') \<Longrightarrow> ends P m Q E"
  by (simp add: ends_def split: prod.split sum.split)

lemma endsD:
  "ends P m Q E \<Longrightarrow> P s \<Longrightarrow> m s = (s', Ok a) \<Longrightarrow> Q a s'" "ends P m Q E \<Longrightarrow> P s \<Longrightarrow> m s = (s', Err e) \<Longrightarrow> E e s'"
  by (fastforce simp: ends_def)+

lemma ends_and_then:
  "ends P m Q1 E \<Longrightarrow> (\<And>a. ends (Q1 a) (f a) Q E) \<Longrightarrow> ends P (and_then m f) Q E"
  by (fastforce simp: ends_def and_then_def split: prod.splits sum.splits)

lemma ends_ok: "(\<And>s. P s \<Longrightarrow> Q a s) \<Longrightarrow> ends P (ok a) Q E"
  by (simp add: ends_def ok_def)

lemma ends_modify: "(\<And>s. P s \<Longrightarrow> Q () (f s)) \<Longrightarrow> ends P (modify f) Q E"
  by (simp add: ends_def modify_def)

lemma ends_weaken:
  "ends P m Q E \<Longrightarrow> (\<And>s. P' s \<Longrightarrow> P s) \<Longrightarrow> (\<And>a s. Q a s \<Longrightarrow> Q' a s) \<Longrightarrow> (\<And>e s. E e s \<Longrightarrow> E' e s) \<Longrightarrow> ends P' m Q' E'"
  by (fastforce simp: ends_def split: prod.splits sum.splits)

text \<open>A sandbox with this specification is registered under \<open>i\<close>.\<close>

definition present :: "string \<Rightarrow> sandbox_spec \<Rightarrow> ('s, 'q, 'w) node \<Rightarrow> bool" where
  "present i sp nd \<longleftrightarrow> (\<exists>sb. hm_get (nd_sandboxes nd) i = Some sb \<and> sb_spec sb = sp)"

lemma present_registry: "registry nd' = registry nd \<Longrightarrow> present i sp nd' = present i sp nd"
  by (simp add: present_def registry_def)

lemma ends_still:
  assumes "still_comp m"
  shows "ends (\<lambda>nd. node_ok env fl nd \<and> present i sp nd) m (\<lambda>_ nd. node_ok env fl nd \<and> present i sp nd) (\<lambda>_. node_ok env fl)"
  using node_ok_still [OF assms] present_registry [OF confinedD [OF assms]] by (intro endsI) blast+

lemma ends_failing:
  assumes "semaphore_laws (ne_sem env)" and "still_comp m"
  shows "ends (\<lambda>nd. node_ok env fl nd \<and> present i sp nd) (failing env j h m)
    (\<lambda>_ nd. node_ok env fl nd \<and> present i sp nd) (\<lambda>_. node_ok env fl)"
  using node_ok_failing [OF assms] present_registry [OF failing_Ok(2) [OF assms(2)]] by (intro endsI) blast+

lemma node_ok_insert:
  assumes "node_ok env fl nd" and "present i (sb_spec sb) nd"
  shows "node_ok env fl (node_insert i sb nd)"
  using assms by (auto simp: node_ok_def registered_def node_balanced_def node_insert_def present_def)

lemma ends_pure: "(b \<Longrightarrow> ends P m Q E) \<Longrightarrow> ends (\<lambda>s. P s \<and> b) m Q E"
  by (cases b) (simp_all add: ends_def)

lemma ends_also: "ends P m Q E \<Longrightarrow> (\<And>s s' a. m s = (s', Ok a) \<Longrightarrow> b a) \<Longrightarrow> ends P m (\<lambda>a s. Q a s \<and> b a) E"
  by (fastforce simp: ends_def split: prod.splits sum.splits)

lemma node_transition_spec:
  "node_transition env sb ev nd = (nd', Ok sb') \<Longrightarrow> sb_spec sb' = sb_spec sb \<and> sb_id sb' = sb_id sb"
  by (auto simp: node_transition_def and_then_Ok comp_defs split: option.splits dest: sandbox_transition_frame)

lemma ends_create_registered:
  assumes laws: "semaphore_laws (ne_sem env)"
  shows "ends (\<lambda>nd. node_ok env None nd \<and> present i (sb_spec sb) nd) (create_registered env i sb h)
    (\<lambda>_. node_ok env None) (\<lambda>_. node_ok env None)"
proof -
  let ?I = "\<lambda>nd. node_ok env None nd \<and> present i (sb_spec sb) nd"
  have guest: "ends ?I (failing env i (Some h) (guest_setup env i (sb_spec sb))) (\<lambda>_. ?I) (\<lambda>_. node_ok env None)"
    by (intro ends_failing laws still.n_guest_setup)
  have update: "ends ?I (failing env i (Some h) (node_update env i u)) (\<lambda>_. ?I) (\<lambda>_. node_ok env None)" for u
    by (intro ends_failing laws still.n_update)
  have hello: "ends ?I (node_transition env sb AgentHello) (\<lambda>sb' nd. ?I nd \<and> sb_spec sb' = sb_spec sb) (\<lambda>_. node_ok env None)"
    using node_transition_spec by (intro ends_also ends_still still.n_transition) blast
  have insert: "ends ?I (modify (node_insert i sb')) (\<lambda>_. node_ok env None) (\<lambda>_. node_ok env None)"
    if "sb_spec sb' = sb_spec sb" for sb'
    using that by (intro ends_modify) (simp add: node_ok_insert)
  show ?thesis unfolding create_registered_def
    by (rule ends_and_then [OF guest] ends_and_then [OF hello] ends_pure ends_and_then [OF update] ends_and_then [OF insert] ends_ok
        | assumption)+
qed

lemma create_started_spec:
  assumes "create_started env i sp nd = (nd', Ok (sb, h))"
  shows "sb_spec sb = sp \<and> sb_id sb = i \<and> sb_status sb = Starting
     \<and> sb_node_id sb = Some (ng_node_id (ne_config env)) \<and> sb_vmm_meta sb = handle_to_meta h []"
proof -
  obtain now nd1 nd2 sb0 where
    "node_transition env ((sandbox_new now i sp)\<lparr>sb_node_id := Some (ng_node_id (ne_config env))\<rparr>) Start nd1 = (nd2, Ok sb0)"
    and "sb = sb0\<lparr>sb_vmm_meta := handle_to_meta h []\<rparr>"
    using assms unfolding create_started_def Let_def and_then_Ok ok_def by blast
  then show ?thesis
    by (auto simp: node_transition_def and_then_Ok comp_defs sandbox_new_def sandbox_transition_def transition_defs
        split: option.splits)
qed

text \<open>Before the guest is involved no step waits for ever.\<close>

definition prompt :: "('s, 'q, 'w, 'a) node_comp \<Rightarrow> bool" where
  "prompt m \<longleftrightarrow> (\<forall>nd. snd (m nd) \<noteq> Err Never)"

named_theorems prompt_intros

lemma prompt_and_then [prompt_intros]: "prompt m \<Longrightarrow> (\<And>a. prompt (f a)) \<Longrightarrow> prompt (and_then m f)"
  by (auto simp: prompt_def and_then_def split: prod.split sum.split) (metis snd_conv)

lemma prompt_steps [prompt_intros]:
  "prompt (ok a)" "prompt (node_raise e)" "prompt (throw (Fails x))" "prompt (lift_result (node_raised r))" "prompt (node_world f)"
  "prompt (node_write g)" "prompt (node_net_setup env i sp)" "prompt (node_net_teardown env i)" "prompt (modify k)"
  by (simp_all add: prompt_def comp_defs node_raise_def node_world_def node_write_def node_net_setup_def node_net_teardown_def Let_def
      split: prod.split)

lemma prompt_cases [prompt_intros]:
  "prompt m \<Longrightarrow> prompt n \<Longrightarrow> prompt (if b then m else n)"
  "prompt m \<Longrightarrow> (\<And>x. prompt (f x)) \<Longrightarrow> prompt (case v of None \<Rightarrow> m | Some x \<Rightarrow> f x)"
  "(\<And>x. prompt (g x)) \<Longrightarrow> (\<And>e. prompt (k e)) \<Longrightarrow> prompt (case r of Ok x \<Rightarrow> g x | Err e \<Rightarrow> k e)"
  by (auto split: option.split sum.split)

lemma prompt_try [prompt_intros]: "prompt m \<Longrightarrow> prompt (node_try m)"
  by (auto simp: prompt_def node_try_def split: prod.split sum.split stop.split fault.split) (metis snd_conv)

lemma prompt_calls [prompt_intros]:
  "prompt (node_call f)" "prompt (node_update env i u)" "prompt (node_net_create env i)" "prompt (node_transition env sb ev)"
  "prompt m \<Longrightarrow> prompt (node_ignore m)"
  unfolding node_call_def node_update_def node_net_create_def node_transition_def node_ignore_def
  by (intro prompt_intros; assumption)+

lemma prompt_failing [prompt_intros]: "prompt m \<Longrightarrow> prompt (failing env i h m)"
  unfolding failing_def fail_creation_def by (intro prompt_intros)

lemma prompt_started: "prompt (create_started env i sp)"
  unfolding create_started_def Let_def by (intro prompt_intros)

text \<open>A creation has the reservation in its hand until the sandbox is registered.\<close>

lemma ends_node_holding:
  assumes laws: "semaphore_laws (ne_sem env)"
  shows "ends (node_ok env (Some r)) (node_holding env r (create_started env i sp))
    (\<lambda>(sb, h) nd. node_ok env (Some r) nd \<and> sb_spec sb = sp) (\<lambda>_. node_ok env None)"
proof (rule endsI)
  fix nd nd' and q :: "sandbox \<times> vm_handle"
  assume ok: "node_ok env (Some r) nd" and run: "node_holding env r (create_started env i sp) nd = (nd', Ok q)"
  obtain sb h where q: "q = (sb, h)" by (cases q)
  from run have c: "create_started env i sp nd = (nd', Ok (sb, h))"
    by (auto simp: q node_holding_def split: prod.splits sum.splits stop.splits)
  show "(case q of (sb, h) \<Rightarrow> \<lambda>nd. node_ok env (Some r) nd \<and> sb_spec sb = sp) nd'"
    using node_ok_started [OF laws c ok] create_started_spec [OF c] by (simp add: q)
next
  fix nd nd' x
  assume ok: "node_ok env (Some r) nd" and run: "node_holding env r (create_started env i sp) nd = (nd', Err x)"
  obtain nd1 y where c: "create_started env i sp nd = (nd1, Err y)"
    using run by (cases "create_started env i sp nd") (auto simp: node_holding_def split: sum.splits stop.splits)
  moreover from c have "y \<noteq> Never" using prompt_started [of env i sp] by (auto simp: prompt_def dest: spec [of _ nd])
  ultimately have "nd' = node_drop env (Some r) nd1" using run by (cases y) (auto simp: node_holding_def)
  with balanced_node_drop [OF laws, of "Some r" nd1] node_ok_started [OF laws c ok] show "node_ok env None nd'"
    by (simp add: node_ok_def)
qed

text \<open>Every operation of the agent keeps the balance, whether it succeeds, fails or waits for a guest.\<close>

abbreviation node_keeps :: "('s, 'q, 'w) node_env \<Rightarrow> ('s, 'q, 'w, 'a) node_comp \<Rightarrow> bool" where
  "node_keeps env m \<equiv> confined (\<lambda>nd nd'. node_ok env None nd \<longrightarrow> node_ok env None nd') m"

lemma node_keeps_ends: "ends (node_ok env None) m (\<lambda>_. node_ok env None) (\<lambda>_. node_ok env None) \<Longrightarrow> node_keeps env m"
  by (fastforce simp: ends_def confined_def case_prod_beta split: sum.splits)

lemma ends_node_keeps: "node_keeps env m \<Longrightarrow> ends (node_ok env None) m (\<lambda>_. node_ok env None) (\<lambda>_. node_ok env None)"
  by (fastforce simp: ends_def confined_def case_prod_beta split: sum.splits)

lemma ends_admit:
  assumes "semaphore_laws (ne_sem env)"
  shows "ends (node_ok env None) (node_admit env sp) (\<lambda>r nd. node_ok env (Some r) nd \<and> r = sp_resources sp) (\<lambda>_. node_ok env None)"
proof (rule endsI)
  fix nd nd' r assume "node_ok env None nd" "node_admit env sp nd = (nd', Ok r)"
  with node_ok_admit(1,2) [OF assms this] show "node_ok env (Some r) nd' \<and> r = sp_resources sp" by simp
next
  fix nd nd' e assume "node_ok env None nd" "node_admit env sp nd = (nd', Err e)"
  with node_ok_admit(1) [OF assms this] show "node_ok env None nd'" by simp
qed

lemma ends_register:
  assumes "semaphore_laws (ne_sem env)" and "r = sp_resources sp" and "sb_spec sb = sp"
  shows "ends (node_ok env (Some r)) (and_then (modify (node_insert i sb)) (\<lambda>_. modify (node_keep env i r)))
    (\<lambda>_ nd. node_ok env None nd \<and> present i sp nd) E"
proof -
  have "node_ok env None (node_keep env i r (node_insert i sb nd)) \<and> present i sp (node_keep env i r (node_insert i sb nd))"
    if "node_ok env (Some r) nd" for nd
    using node_ok_register [OF assms(1), of sb nd i] that assms(2,3)
    by (simp add: keep_insert) (simp add: present_def node_insert_def)
  then show ?thesis by (simp add: ends_def and_then_def modify_def)
qed

lemma and_then_assoc: "and_then (and_then m f) g = and_then m (\<lambda>a. and_then (f a) g)"
  by (simp add: fun_eq_iff and_then_def split: prod.split sum.split)

lemma node_keeps_create:
  assumes laws: "semaphore_laws (ne_sem env)"
  shows "node_keeps env (create_sandbox_with_id env i sp)"
proof (cases "i = [] \<or> spec_validate sp \<noteq> Ok ()")
  case True
  then show ?thesis
    by (auto simp: create_sandbox_with_id_def node_raise_def confined_def throw_def split: sum.split)
next
  case False
  have rest: "ends (\<lambda>nd. node_ok env (Some r) nd) (and_then (modify (node_insert i (sb\<lparr>sb_status := Running\<rparr>))) (\<lambda>_.
      and_then (modify (node_keep env i r)) (\<lambda>_. create_registered env i sb h))) (\<lambda>_. node_ok env None) (\<lambda>_. node_ok env None)"
    if "r = sp_resources sp" "sb_spec sb = sp" for r sb h
  proof -
    have "sb_spec (sb\<lparr>sb_status := Running\<rparr>) = sp" using that(2) by simp
    from ends_and_then [OF ends_register [OF laws that(1) this, of i]
        ends_create_registered [OF laws, of i sb h, unfolded that(2)]]
    show ?thesis by (simp add: and_then_assoc)
  qed
  have all: "ends (node_ok env (Some r)) (and_then (node_holding env r (create_started env i sp)) (\<lambda>(sb, h).
      and_then (modify (node_insert i (sb\<lparr>sb_status := Running\<rparr>))) (\<lambda>_.
      and_then (modify (node_keep env i r)) (\<lambda>_. create_registered env i sb h)))) (\<lambda>_. node_ok env None) (\<lambda>_. node_ok env None)"
    if "r = sp_resources sp" for r
    using rest [OF that] by (intro ends_and_then [OF ends_node_holding [OF laws]]) (auto intro: ends_pure)
  have "ends (node_ok env None) (create_sandbox_with_id env i sp) (\<lambda>_. node_ok env None) (\<lambda>_. node_ok env None)"
    using False all by (auto simp: create_sandbox_with_id_def intro!: ends_and_then [OF ends_admit [OF laws]] ends_pure)
  then show ?thesis by (rule node_keeps_ends)
qed

lemma keeps_still: "still_comp m \<Longrightarrow> node_keeps env m"
  using node_ok_registry unfolding confined_def by blast

lemma node_keeps_delete:
  assumes laws: "semaphore_laws (ne_sem env)"
  shows "node_keeps env (node_delete_sandbox env i)"
proof -
  have "node_keeps env (and_then (node_call (ne_vm_stop env h Force)) (\<lambda>_.
      and_then (node_write (so_delete (ne_store env) i)) (\<lambda>_.
      and_then (modify (node_forget env i)) (\<lambda>_. node_net_teardown env i))))" for h
    by (intro state_preorder.confined_and_then [OF invariant_preorder] keeps_still still.n_call still.n_write still.n_net(3)
        node_ledger.l_forget [OF node_ledger_ok [OF laws]])
  then show ?thesis
    by (auto simp: confined_def node_delete_sandbox_def node_raise_def throw_def split: option.split)
qed

lemma node_keeps_adopt:
  assumes laws: "semaphore_laws (ne_sem env)"
  shows "ends (node_ok env (Some (sp_resources (sb_spec sb)))) (adopt env sb (sp_resources (sb_spec sb)))
    (\<lambda>_. node_ok env None) (\<lambda>_. node_ok env None)"
proof -
  let ?r = "sp_resources (sb_spec sb)" and ?sb = "if sb_status sb = Starting then sb\<lparr>sb_status := Running\<rparr> else sb"
  have spec: "sb_spec ?sb = sb_spec sb" by simp
  have enter: "ends (node_ok env (Some ?r)) (and_then (modify (node_keep env (sb_id sb) ?r)) (\<lambda>_. modify (node_insert (sb_id sb) ?sb)))
      (\<lambda>_. node_ok env None) (\<lambda>_. node_ok env None)"
    using node_ok_register [OF laws, of ?sb _ "sb_id sb", unfolded spec] by (simp add: ends_def and_then_def modify_def)
  note fr = node_ledger.axioms(1) [OF node_ledger_ok [OF laws]]
  note gf = node_frame.axioms(1) [OF fr]
  note intros = state_preorder.confined_and_then [OF invariant_preorder] node_ledger.l_forget [OF node_ledger_ok [OF laws]]
    state_preorder.confined_pure [OF invariant_preorder] state_preorder.confined_if [OF invariant_preorder]
    guest_frame.n_sum [OF gf] guest_frame.n_ignore [OF gf] node_frame.n_update [OF fr] guest_frame.n_try [OF gf] guest_frame.n_ping [OF gf]
  have rest: "node_keeps env (and_then
      (if ne_requires_guest_agent env \<and> sb_status sb \<noteq> Paused then node_try (node_ping env (sb_id sb)) else ok (Ok ())) (\<lambda>q.
     case q of
       Err e \<Rightarrow>
         and_then (node_ignore (node_update env (sb_id sb) (UStatusMessage Error
            (Some (''guest probe failed during node adoption: '' @ shown_error e))))) (\<lambda>_.
         and_then (modify (node_forget env (sb_id sb))) (\<lambda>_. ok False))
     | Ok _ \<Rightarrow>
         and_then (if sb_status sb = Starting then node_ignore (node_update env (sb_id sb) (UStatusMessage Running None)) else ok ())
           (\<lambda>_. ok True)))"
    by (intro intros)
  show ?thesis using ends_and_then [OF enter ends_node_keeps [OF rest]] by (simp add: adopt_def and_then_assoc)
qed

lemma keeps_restore_admitted:
  assumes laws: "semaphore_laws (ne_sem env)"
  shows "ends (node_ok env None) (and_then (node_try (node_admit env (sb_spec sb))) (\<lambda>a. case a of Err _ \<Rightarrow> ok False | Ok r \<Rightarrow> adopt env sb r))
    (\<lambda>_. node_ok env None) (\<lambda>_. node_ok env None)"
proof (rule ends_and_then)
  show "ends (node_ok env None) (node_try (node_admit env (sb_spec sb)))
      (\<lambda>a nd. case a of Err _ \<Rightarrow> node_ok env None nd | Ok r \<Rightarrow> node_ok env (Some r) nd \<and> r = sp_resources (sb_spec sb))
      (\<lambda>_. node_ok env None)"
    using ends_admit [OF laws, of "sb_spec sb"] unfolding ends_def
    by (auto simp: node_try_def split: prod.splits sum.splits stop.splits fault.splits) blast+
  fix a :: "(resources, clouisle_error) result"
  show "ends (\<lambda>nd. case a of Err _ \<Rightarrow> node_ok env None nd | Ok r \<Rightarrow> node_ok env (Some r) nd \<and> r = sp_resources (sb_spec sb))
      (case a of Err _ \<Rightarrow> ok False | Ok r \<Rightarrow> adopt env sb r) (\<lambda>_. node_ok env None) (\<lambda>_. node_ok env None)"
    using node_keeps_adopt [OF laws, of sb] by (cases a) (auto intro!: ends_ok ends_pure)
qed

lemma keeps_restore_one:
  assumes laws: "semaphore_laws (ne_sem env)"
  shows "node_keeps env (restore_one env sb)"
proof -
  note fr = node_ledger.axioms(1) [OF node_ledger_ok [OF laws]]
  note gf = node_frame.axioms(1) [OF fr]
  have "node_keeps env (\<lambda>nd. if hm_get (nd_sandboxes nd) (sb_id sb) \<noteq> None then (nd, Ok False)
       else and_then (node_try (node_admit env (sb_spec sb))) (\<lambda>a. case a of Err _ \<Rightarrow> ok False | Ok r \<Rightarrow> adopt env sb r) nd)"
    using node_keeps_ends [OF keeps_restore_admitted [OF laws]] by (simp add: confined_def)
  then show ?thesis unfolding restore_one_def
    by (intro state_preorder.confined_and_then [OF invariant_preorder] state_preorder.confined_if [OF invariant_preorder]
        guest_frame.n_world [OF gf] guest_frame.n_ignore [OF gf] node_frame.n_update [OF fr]
        state_preorder.confined_pure [OF invariant_preorder] node_ledger.l_forget [OF node_ledger_ok [OF laws]])
qed

lemma keeps_reconcile:
  assumes laws: "semaphore_laws (ne_sem env)"
  shows "node_keeps env (reconcile_from_store env)"
proof -
  note fr = node_ledger.axioms(1) [OF node_ledger_ok [OF laws]]
  note gf = node_frame.axioms(1) [OF fr]
  have all: "node_keeps env (restore_all env sbs)" for sbs
    by (induction sbs) (auto intro!: state_preorder.confined_and_then [OF invariant_preorder] keeps_restore_one laws
        state_preorder.confined_pure [OF invariant_preorder])
  show ?thesis unfolding reconcile_from_store_def
    by (intro state_preorder.confined_and_then [OF invariant_preorder] guest_frame.n_world [OF gf] guest_frame.n_listed [OF gf]
        guest_frame.n_orphans [OF gf] all)
qed

section \<open>The life of a node\<close>

text \<open>Any sequence of calls of the agent, each run to its end.\<close>

inductive node_step :: "('s, 'q, 'w) node_env \<Rightarrow> ('s, 'q, 'w) node \<Rightarrow> ('s, 'q, 'w) node \<Rightarrow> bool" for env where
  node_creates: "node_step env nd (fst (create_sandbox_with_id env i sp nd))"
| node_deletes: "node_step env nd (fst (node_delete_sandbox env i nd))"
| node_reconciles: "node_step env nd (fst (reconcile_from_store env nd))"
| node_files: "node_step env nd (fst (node_file_op env i f nd))"
| node_executes: "node_step env nd (fst (node_exec_command env i argv en cwd t nd))"
| node_streams: "node_step env nd (fst (node_exec_command_stream env i argv en cwd t send nd))"
| node_starts: "node_step env nd (fst (node_process_start env i fid argv en cwd t stdin pty nd))"
| node_controls: "node_step env nd (fst (node_process_control env i fid oper nd))"

inductive node_reach :: "('s, 'q, 'w) node_env \<Rightarrow> ('s, 'q, 'w) node \<Rightarrow> bool" for env where
  node_init: "node_reach env (node_agent_new env s w)"
| node_next: "node_reach env nd \<Longrightarrow> node_step env nd nd' \<Longrightarrow> node_reach env nd'"

lemma node_ok_still_fst: "still_comp m \<Longrightarrow> node_ok env fl nd \<Longrightarrow> node_ok env fl (fst (m nd))"
  by (metis node_ok_still prod.collapse)

lemma node_step_ok:
  assumes "semaphore_laws (ne_sem env)" and "node_step env nd nd'" and "node_ok env None nd"
  shows "node_ok env None nd'"
  using assms(2)
proof cases
  case node_creates
  then show ?thesis using confined_at [OF node_keeps_create [OF assms(1)]] assms(3) by blast
next
  case node_deletes
  then show ?thesis using confined_at [OF node_keeps_delete [OF assms(1)]] assms(3) by blast
next
  case node_reconciles
  then show ?thesis using confined_at [OF keeps_reconcile [OF assms(1)]] assms(3) by blast
qed (simp_all add: assms(3) node_ok_still_fst still.n_file_op still.n_exec still.n_process)

lemma node_new_ok:
  assumes "semaphore_laws (ne_sem env)"
  shows "node_ok env None (node_agent_new env s w)"
proof -
  let ?p = "resource_pool_new (ne_sem env) (node_capacity (ne_config env)) 200"
  have "sem_available (ne_sem env) (get_sem ?p d) = node_total env d" for d
    using assms node_total_le [of env d] unfolding node_total_def
    by (cases d) (simp_all add: resource_pool_new_def semaphore_laws_def)
  then show ?thesis by (simp add: node_ok_def registered_def node_balanced_def node_agent_new_def)
qed

lemma node_reach_ok: "node_reach env nd \<Longrightarrow> semaphore_laws (ne_sem env) \<Longrightarrow> node_ok env None nd"
  by (induction rule: node_reach.induct) (blast intro: node_new_ok node_step_ok)+

end
