(* ===== verification/Node_Creation.thy ===== *)
theory Node_Creation
  imports Node_Ledger Store_Memory
begin

text \<open>
  What a creation on a node leaves behind, for every store that keeps the contract of \<open>Store_Contract\<close>: a creation
  that fails puts back what it took and records its error, a creation that succeeds has registered the
  sandbox, kept its reservation and stored the record that it returns.
\<close>

section \<open>Stages of a creation\<close>

lemma hm_remove_insert [simp]: "hm_remove k (hm_insert k v m) = hm_remove k m"
  by (induction m) (auto simp: hm_remove_def hm_insert_def)

lemma hm_remove_none: "hm_get m k = None \<Longrightarrow> hm_remove k m = m"
  by (induction m) (auto simp: hm_remove_def hm_get_def split: if_splits)

text \<open>The record of \<open>i\<close> is \<open>v\<close>, its reservation is \<open>ro\<close>, and everything else is as it was before.\<close>

definition node_at ::
  "('s \<Rightarrow> bool) \<Rightarrow> ('s \<Rightarrow> string \<Rightarrow> sb_view option) \<Rightarrow> ('s, 'q, 'w) node \<Rightarrow> string \<Rightarrow> resources option \<Rightarrow> sb_view
   \<Rightarrow> ('s, 'q, 'w) node \<Rightarrow> bool" where
  "node_at iv lookup nd0 i ro v nd \<longleftrightarrow>
     iv (nd_store nd) \<and> lookup (nd_store nd) = (lookup (nd_store nd0))(i \<mapsto> v) \<and>
     hm_remove i (nd_sandboxes nd) = nd_sandboxes nd0 \<and> hm_remove i (nd_reservations nd) = nd_reservations nd0 \<and>
     hm_get (nd_reservations nd) i = ro"

definition node_failed ::
  "('s \<Rightarrow> bool) \<Rightarrow> ('s \<Rightarrow> string \<Rightarrow> sb_view option) \<Rightarrow> ('s, 'q, 'w) node \<Rightarrow> string \<Rightarrow> fault stop \<Rightarrow> ('s, 'q, 'w) node \<Rightarrow> bool" where
  "node_failed iv lookup nd0 i x nd \<longleftrightarrow> (\<forall>e. x = Fails (Raised e) \<longrightarrow>
     nd_sandboxes nd = nd_sandboxes nd0 \<and> nd_reservations nd = nd_reservations nd0 \<and> iv (nd_store nd) \<and>
     (\<exists>v. lookup (nd_store nd) = (lookup (nd_store nd0))(i \<mapsto> v) \<and> v_status v = Error \<and> v_message v = Some (err_message e)))"

lemma node_at_quiet:
  "registry nd' = registry nd \<and> nd_store nd' = nd_store nd \<Longrightarrow> node_at iv lookup nd0 i ro v nd' = node_at iv lookup nd0 i ro v nd"
  by (simp add: node_at_def registry_def)

text \<open>The clean-up writes the record and then stops the machine, removes the network and forgets the sandbox.\<close>

lemma fail_creation_effect:
  obtains nd1 where "registry nd1 = registry nd"
    and "nd_store nd1 = nd_store (fst (node_ignore (node_update env i (UStatusMessage Error (Some (err_message e)))) nd))"
    and "fail_creation env i e h nd = (node_forget env i nd1, Ok ())"
proof -
  let ?a = "fst (node_ignore (node_update env i (UStatusMessage Error (Some (err_message e)))) nd)"
  let ?m = "case h of Some x \<Rightarrow> node_ignore (node_call (ne_vm_stop env x Force)) | None \<Rightarrow> ok ()"
  have a: "registry ?a = registry nd" by (rule confined_at [OF still.n_ignore [OF still.n_update]])
  have "registry (fst (?m ?a)) = registry ?a \<and> nd_store (fst (?m ?a)) = nd_store ?a"
    by (rule confined_at) (auto intro!: quiet.n_option quiet.n_ignore quiet.n_call quiet.confined_pure)
  moreover have "registry (fst (node_net_teardown env i nd2)) = registry nd2 \<and> nd_store (fst (node_net_teardown env i nd2)) = nd_store nd2" for nd2
    by (rule confined_at [OF quiet.n_net(3)])
  ultimately show ?thesis using a by (intro that [of "fst (node_net_teardown env i (fst (?m ?a)))"]) (simp_all add: fail_creation_run)
qed

text \<open>The first event of a new sandbox cannot fail.\<close>

lemma start_new:
  "node_transition env ((sandbox_new now i sp)\<lparr>sb_node_id := n\<rparr>) Start nd = (nd', r) \<Longrightarrow>
   \<exists>t w. r = Ok ((sandbox_new now i sp)\<lparr>sb_node_id := n, sb_status := Starting, sb_updated_at := t\<rparr>)
     \<and> nd' = nd\<lparr>nd_world := w\<rparr>"
  by (auto simp: node_transition_def and_then_def node_world_def comp_defs sandbox_new_def sandbox_transition_def transition_defs
      split: prod.splits)

context sandbox_store
begin

lemma node_update_at:
  assumes "ne_store env = ops"
  shows "ends (node_at inv lookup nd0 i ro v) (node_update env i u) (\<lambda>_. node_at inv lookup nd0 i ro (apply_update u v)) (\<lambda>_ _. False)"
proof (rule endsI)
  fix nd nd' and r
  assume at: "node_at inv lookup nd0 i ro v nd"
  obtain w t where now: "ne_now env (nd_world nd) = (w, t)" by (cases "ne_now env (nd_world nd)")
  obtain s' where u: "so_update ops t i u (nd_store nd) = (s', Ok ())" "inv s'"
      "lookup s' = (lookup (nd_store nd))(i \<mapsto> apply_update u v)"
    using update_some [of "nd_store nd" i v t u] at by (auto simp: node_at_def)
  have run: "node_update env i u nd = (nd\<lparr>nd_world := w, nd_store := s'\<rparr>, Ok ())"
    using now u by (simp add: node_update_def node_world_def node_write_def and_then_def assms)
  show "node_update env i u nd = (nd', Ok r) \<Longrightarrow> node_at inv lookup nd0 i ro (apply_update u v) nd'"
    using run u at by (auto simp: node_at_def)
  show "node_update env i u nd = (nd', Err x) \<Longrightarrow> False" for x using run by simp
qed

lemma fail_creation_at:
  assumes ops: "ne_store env = ops" and at: "node_at inv lookup nd0 i ro v nd"
  shows "node_failed inv lookup nd0 i (Fails (Raised e)) (fst (fail_creation env i e h nd))"
proof -
  let ?u = "UStatusMessage Error (Some (err_message e))"
  obtain nd1 where nd1: "registry nd1 = registry nd"
      "nd_store nd1 = nd_store (fst (node_ignore (node_update env i ?u) nd))"
      "fail_creation env i e h nd = (node_forget env i nd1, Ok ())"
    by (rule fail_creation_effect)
  obtain nd2 where nd2: "node_update env i ?u nd = (nd2, Ok ())" "node_at inv lookup nd0 i ro (apply_update ?u v) nd2"
    using endsD [OF node_update_at [OF ops] at, of ?u] by (cases "node_update env i ?u nd"; cases "snd (node_update env i ?u nd)") auto
  then have "nd_store nd1 = nd_store nd2" by (simp add: nd1(2) node_ignore_def node_try_def and_then_def ok_def)
  with nd1(1) at nd2(2) show ?thesis
    by (auto simp: node_failed_def nd1(3) node_at_def registry_def node_forget_def node_drop_def split: option.split)
qed

lemma failing_at:
  assumes ops: "ne_store env = ops" and m: "ends (node_at inv lookup nd0 i ro v) m (\<lambda>_. node_at inv lookup nd0 i ro v') (\<lambda>_. node_at inv lookup nd0 i ro v)"
  shows "ends (node_at inv lookup nd0 i ro v) (failing env i h m) (\<lambda>_. node_at inv lookup nd0 i ro v') (node_failed inv lookup nd0 i)"
proof (rule endsI)
  fix nd nd' a
  assume at: "node_at inv lookup nd0 i ro v nd" and run: "failing env i h m nd = (nd', Ok a)"
  have "m nd = (nd', Ok a)"
    using run by (auto simp: failing_def and_then_def node_try_def comp_defs node_raise_def
        split: prod.splits sum.splits stop.splits fault.splits)
  then show "node_at inv lookup nd0 i ro v' nd'" by (rule endsD(1) [OF m at])
next
  fix nd nd' x
  assume at: "node_at inv lookup nd0 i ro v nd" and run: "failing env i h m nd = (nd', Err x)"
  show "node_failed inv lookup nd0 i x nd'"
  proof (cases "\<exists>e. x = Fails (Raised e)")
    case True
    then obtain e where x: "x = Fails (Raised e)" by blast
    obtain nd1 where "m nd = (nd1, Err (Fails (Raised e)))" "nd' = fst (fail_creation env i e h nd1)"
      using run unfolding x by (rule failing_Raised)
    with endsD(2) [OF m at] fail_creation_at [OF ops] show ?thesis by (simp add: x)
  qed (simp add: node_failed_def)
qed

lemma quiet_at:
  assumes "confined (\<lambda>nd nd'. registry nd' = registry nd \<and> nd_store nd' = nd_store nd) m"
  shows "ends (node_at inv lookup nd0 i ro v) m (\<lambda>_. node_at inv lookup nd0 i ro v) (\<lambda>_. node_at inv lookup nd0 i ro v)"
  using node_at_quiet [OF confinedD [OF assms]] by (intro endsI) blast+

lemma failing_quiet:
  assumes "ne_store env = ops" and "confined (\<lambda>nd nd'. registry nd' = registry nd \<and> nd_store nd' = nd_store nd) m"
  shows "ends (node_at inv lookup nd0 i ro v) (failing env i h m) (\<lambda>_. node_at inv lookup nd0 i ro v) (node_failed inv lookup nd0 i)"
  by (intro failing_at quiet_at assms)

lemma failing_update:
  assumes "ne_store env = ops"
  shows "ends (node_at inv lookup nd0 i ro v) (failing env i h (node_update env i u))
    (\<lambda>_. node_at inv lookup nd0 i ro (apply_update u v)) (node_failed inv lookup nd0 i)"
  by (intro failing_at ends_weaken [OF node_update_at] assms) auto

text \<open>Before the record exists nothing but the reservation in hand has been taken.\<close>

lemma create_started_at:
  assumes ops: "ne_store env = ops" and new: "lookup (nd_store nd0) i = None"
    and free: "hm_get (nd_sandboxes nd0) i = None" "hm_get (nd_reservations nd0) i = None"
  shows "ends (\<lambda>nd. registry nd = (p, nd_sandboxes nd0, nd_reservations nd0) \<and> nd_store nd = nd_store nd0 \<and> inv (nd_store nd0))
    (create_started env i sp)
    (\<lambda>(sb, h) nd. node_at inv lookup nd0 i None (view_of sb) nd \<and> sb_terminal_message sb = None)
    (node_failed inv lookup nd0 i)"
proof -
  let ?P = "\<lambda>nd. registry nd = (p, nd_sandboxes nd0, nd_reservations nd0) \<and> nd_store nd = nd_store nd0 \<and> inv (nd_store nd0)"
  let ?new = "\<lambda>now. (sandbox_new now i sp)\<lparr>sb_node_id := Some (ng_node_id (ne_config env))\<rparr>"
  have clock: "ends ?P (node_world (ne_now env)) (\<lambda>_. ?P) (node_failed inv lookup nd0 i)"
    by (rule endsI) (auto simp: node_world_def registry_def split: prod.splits)
  have start: "ends ?P (node_transition env (?new now) Start)
      (\<lambda>sb nd. ?P nd \<and> (sb_id sb = i \<and> sb_terminal_message sb = None)) (node_failed inv lookup nd0 i)" for now
    by (intro endsI; drule start_new) (auto simp: registry_def sandbox_new_def)
  have stored: "ends ?P (node_write (so_create (ne_store env) sb)) (\<lambda>_. node_at inv lookup nd0 i None (view_of sb)) (node_failed inv lookup nd0 i)"
    if "sb_id sb = i" for sb
  proof -
    have "\<exists>s'. so_create ops sb (nd_store nd0) = (s', Ok ()) \<and> inv s' \<and> lookup s' = (lookup (nd_store nd0))(i \<mapsto> view_of sb)"
      if "inv (nd_store nd0)" using create_new [of "nd_store nd0" sb] new that \<open>sb_id sb = i\<close> by simp
    then show ?thesis unfolding ops using free
      by (intro endsI) (auto simp: node_write_def node_at_def registry_def hm_remove_none)
  qed
  have machine: "ends (node_at inv lookup nd0 i None (view_of sb))
      (and_then (failing env i None (node_net_create env i)) (\<lambda>_.
       and_then (failing env i None (node_call (ne_vm_create env i sp))) (\<lambda>h.
       let sb' = sb\<lparr>sb_vmm_meta := handle_to_meta h []\<rparr> in
       and_then (failing env i (Some h) (node_update env i (UVmmMeta (sb_vmm_meta sb')))) (\<lambda>_.
       and_then (failing env i (Some h) (node_call (ne_vm_start env h))) (\<lambda>_.
       and_then (failing env i (Some h) (node_net_setup env i sp)) (\<lambda>_.
       ok (sb', h)))))))
      (\<lambda>(sb, h) nd. node_at inv lookup nd0 i None (view_of sb) nd \<and> sb_terminal_message sb = None) (node_failed inv lookup nd0 i)"
    if "sb_terminal_message sb = None" for sb
    unfolding Let_def using that
    by (intro ends_and_then [OF failing_quiet [OF ops quiet.n_net(1)]] ends_and_then [OF failing_quiet [OF ops quiet.n_call]]
        ends_and_then [OF failing_update [OF ops]] ends_and_then [OF failing_quiet [OF ops quiet.n_net(2)]] ends_ok)
      (simp add: view_of_def)
  show ?thesis
    unfolding create_started_def
    by (rule ends_and_then [OF clock ends_and_then [OF start]], rule ends_pure, rule ends_and_then [OF stored machine]) auto
qed

text \<open>After the registration the same clean-up also takes the registration back.\<close>

lemma create_registered_at:
  assumes ops: "ne_store env = ops" and sb: "sb_status sb = Starting" "sb_terminal_message sb = None"
  shows "ends (node_at inv lookup nd0 i ro (view_of sb)) (create_registered env i sb h)
    (\<lambda>sb' nd. node_at inv lookup nd0 i ro (view_of sb') nd \<and> hm_get (nd_sandboxes nd) i = Some sb' \<and> sb_status sb' = Running)
    (node_failed inv lookup nd0 i)"
proof -
  let ?at = "node_at inv lookup nd0 i ro" and ?E = "node_failed inv lookup nd0 i"
  have hello: "ends (?at (view_of sb)) (node_transition env sb AgentHello)
      (\<lambda>sb' nd. ?at (view_of sb) nd \<and> (apply_update (UStatusMessage Running None) (view_of sb) = view_of sb' \<and> sb_status sb' = Running)) ?E"
  proof (rule ends_also)
    have "node_failed inv lookup nd0 i x nd'" if "node_transition env sb AgentHello nd = (nd', Err x)" for nd nd' x
      using that sb by (auto simp: node_failed_def node_transition_def and_then_def node_world_def comp_defs sandbox_transition_def transition_defs Let_def
          split: prod.splits option.splits)
    then show "ends (?at (view_of sb)) (node_transition env sb AgentHello) (\<lambda>_. ?at (view_of sb)) ?E"
      using endsD(1) [OF quiet_at [OF quiet.n_transition]] by (intro endsI) blast+
    show "apply_update (UStatusMessage Running None) (view_of sb) = view_of sb' \<and> sb_status sb' = Running"
      if "node_transition env sb AgentHello nd = (nd', Ok sb')" for nd nd' sb'
      using that sb by (auto simp: node_transition_def and_then_Ok node_world_def comp_defs sandbox_transition_def transition_defs Let_def
          view_of_def split: prod.splits option.splits)
  qed
  have insert: "ends (?at (view_of sb')) (modify (node_insert i sb'))
      (\<lambda>_ nd. ?at (view_of sb') nd \<and> hm_get (nd_sandboxes nd) i = Some sb') ?E" for sb'
    by (rule ends_modify) (simp add: node_at_def node_insert_def)
  have expiry: "ends (?at v) (failing env i (Some h) (node_update env i (UExpiry x))) (\<lambda>_. ?at v) ?E" for v x
    using failing_update [OF ops, of nd0 i ro v "Some h" "UExpiry x"] by simp
  have running: "ends (?at (view_of sb)) (failing env i (Some h) (node_update env i (UStatusMessage Running None)))
      (\<lambda>_. ?at (view_of sb')) ?E" if "apply_update (UStatusMessage Running None) (view_of sb) = view_of sb'" for sb'
    using failing_update [OF ops, of nd0 i ro "view_of sb" "Some h" "UStatusMessage Running None"] by (simp only: that)
  show ?thesis
    unfolding create_registered_def
    by (rule ends_and_then [OF failing_quiet [OF ops quiet.n_guest_setup]], rule ends_and_then [OF hello], rule ends_pure, elim conjE,
        rule ends_and_then [OF running], assumption, rule ends_and_then [OF expiry], rule ends_and_then [OF insert], rule ends_ok) simp
qed

lemma node_holding_ends:
  assumes "ends P m Q E" and "\<And>x nd. E x nd \<Longrightarrow> E x (node_drop env (Some r) nd)"
  shows "ends P (node_holding env r m) Q E"
  using assms by (fastforce simp: ends_def node_holding_def split: prod.splits sum.splits stop.splits)

lemma create_admitted_at:
  assumes ops: "ne_store env = ops" and new: "lookup (nd_store nd0) i = None"
    and free: "hm_get (nd_sandboxes nd0) i = None" "hm_get (nd_reservations nd0) i = None"
  shows "ends (\<lambda>nd. registry nd = (p, nd_sandboxes nd0, nd_reservations nd0) \<and> nd_store nd = nd_store nd0 \<and> inv (nd_store nd0))
    (and_then (node_holding env r (create_started env i sp)) (\<lambda>(sb, h).
     and_then (modify (node_insert i (sb\<lparr>sb_status := Running\<rparr>))) (\<lambda>_.
     and_then (modify (node_keep env i r)) (\<lambda>_. create_registered env i sb h))))
    (\<lambda>sb nd. node_at inv lookup nd0 i (Some r) (view_of sb) nd \<and> hm_get (nd_sandboxes nd) i = Some sb \<and> sb_status sb = Running)
    (node_failed inv lookup nd0 i)"
proof (rule ends_and_then)
  have "ends (\<lambda>nd. registry nd = (p, nd_sandboxes nd0, nd_reservations nd0) \<and> nd_store nd = nd_store nd0 \<and> inv (nd_store nd0))
    (create_started env i sp)
    (\<lambda>q nd. (case q of (sb, h) \<Rightarrow> \<lambda>nd. node_at inv lookup nd0 i None (view_of sb) nd \<and> sb_terminal_message sb = None) nd \<and>
       (case q of (sb, h) \<Rightarrow> sb_status sb = Starting)) (node_failed inv lookup nd0 i)"
    by (intro ends_also create_started_at [OF ops new free]) (auto dest: create_started_spec)
  then show "ends (\<lambda>nd. registry nd = (p, nd_sandboxes nd0, nd_reservations nd0) \<and> nd_store nd = nd_store nd0 \<and> inv (nd_store nd0))
    (node_holding env r (create_started env i sp))
    (\<lambda>q nd. (case q of (sb, h) \<Rightarrow> node_at inv lookup nd0 i None (view_of sb) nd \<and> sb_terminal_message sb = None \<and> sb_status sb = Starting))
    (node_failed inv lookup nd0 i)"
    by (intro node_holding_ends) (auto simp: node_failed_def node_drop_def elim!: ends_weaken)
  fix q :: "sandbox \<times> vm_handle"
  obtain sb h where q: "q = (sb, h)" by (cases q)
  have "ends (node_at inv lookup nd0 i None (view_of sb)) (and_then (modify (node_insert i (sb\<lparr>sb_status := Running\<rparr>))) (\<lambda>_.
     and_then (modify (node_keep env i r)) (\<lambda>_. create_registered env i sb h)))
    (\<lambda>sb nd. node_at inv lookup nd0 i (Some r) (view_of sb) nd \<and> hm_get (nd_sandboxes nd) i = Some sb \<and> sb_status sb = Running)
    (node_failed inv lookup nd0 i)" if "sb_terminal_message sb = None" "sb_status sb = Starting"
  proof (rule ends_and_then)
    show "ends (node_at inv lookup nd0 i None (view_of sb)) (modify (node_insert i (sb\<lparr>sb_status := Running\<rparr>)))
        (\<lambda>_. node_at inv lookup nd0 i None (view_of sb)) (node_failed inv lookup nd0 i)"
      by (rule ends_modify) (simp add: node_at_def node_insert_def)
    show "ends (node_at inv lookup nd0 i None (view_of sb)) (and_then (modify (node_keep env i r)) (\<lambda>_. create_registered env i sb h))
      (\<lambda>sb nd. node_at inv lookup nd0 i (Some r) (view_of sb) nd \<and> hm_get (nd_sandboxes nd) i = Some sb \<and> sb_status sb = Running)
      (node_failed inv lookup nd0 i)"
      by (rule ends_and_then [OF _ create_registered_at [OF ops that(2,1), of nd0 i "Some r" h]], rule ends_modify)
        (simp add: node_at_def node_keep_def node_drop_def split: option.split)
  qed
  then show "ends (\<lambda>nd. case q of (sb, h) \<Rightarrow> node_at inv lookup nd0 i None (view_of sb) nd \<and> sb_terminal_message sb = None \<and> sb_status sb = Starting)
    (case q of (sb, h) \<Rightarrow> and_then (modify (node_insert i (sb\<lparr>sb_status := Running\<rparr>))) (\<lambda>_.
     and_then (modify (node_keep env i r)) (\<lambda>_. create_registered env i sb h)))
    (\<lambda>sb nd. node_at inv lookup nd0 i (Some r) (view_of sb) nd \<and> hm_get (nd_sandboxes nd) i = Some sb \<and> sb_status sb = Running)
    (node_failed inv lookup nd0 i)"
    by (simp add: q ends_pure)
qed

end

end
