(* ===== verification/Node_Properties.thy ===== *)
theory Node_Properties
  imports Node_Creation Lifecycle_Properties Placement
begin

text \<open>
  The properties of the node agent: its reservations are those of its sandboxes and never exceed the host, its
  heartbeat does not overflow, a creation ends in one of two states, and what a recovery does to the
  machines it finds.
\<close>

section \<open>A concrete node\<close>

definition desk_config :: node_config where
  "desk_config = \<lparr>ng_node_id = ''n1'', ng_hostname = ''n1'', ng_total_vcpu = 8, ng_total_memory_mb = 4096, ng_total_disk_mb = 102400,
     ng_kvm_available = True, ng_kernel_version = [], ng_firecracker_version = [], ng_labels = [], ng_manage_network = False,
     ng_heartbeat_secs = 3\<rparr>"

text \<open>The memory store, counting semaphores and a world that is a clock; machines answer as they are told to.\<close>

definition desk_env :: "(unit, clouisle_error) result \<Rightarrow> vm_handle list \<Rightarrow> (mem_store, nat, nat) node_env" where
  "desk_env start found = \<lparr>ne_config = desk_config, ne_store = mem_ops, ne_sem = counter_ops, ne_net = svc_net,
     ne_postcard = \<lparr>to_allocvec = (\<lambda>_. Err []), from_bytes = (\<lambda>_. Err [])\<rparr>, ne_version = [], ne_add_secs = plus_secs,
     ne_now = (\<lambda>w. (Suc w, int w)), ne_uuid = (\<lambda>w. (Suc w, show_nat w)), ne_elapsed_ms = (\<lambda>_. 0), ne_debug_errors = (\<lambda>_. []),
     ne_debug_frame = (\<lambda>_. []), ne_requires_guest_agent = False, ne_connect = (\<lambda>_ w. (w, Connected)), ne_write_fault = (\<lambda>_ _. None),
     ne_peer = (\<lambda>_ _ w. (w, [], True)), ne_vm_create = (\<lambda>i _ w. (w, Ok (svc_handle i))), ne_vm_start = (\<lambda>_ w. (w, start)),
     ne_vm_stop = (\<lambda>_ _ w. (w + 100, Ok ())), ne_vm_probe = (\<lambda>_ w. (w, Ok True)), ne_vm_discover = (\<lambda>w. (w, Ok found))\<rparr>"

definition desk_spec :: sandbox_spec where
  "desk_spec = demo_spec"

lemma desk_laws [simp]: "semaphore_laws (ne_sem (desk_env start found))"
  by (simp add: desk_env_def counter_ops_laws)

lemma desk_spec_ok: "spec_validate desk_spec = Ok ()" "sp_resources desk_spec = default_resources" "sp_ttl_secs desk_spec = None"
  by (simp_all add: desk_spec_def) code_simp+

lemmas desk_defs = desk_env_def desk_config_def create_sandbox_with_id_def node_admit_def admit_def Let_def create_started_def
  create_registered_def node_holding_def failing_def node_try_def node_world_def node_call_def node_write_def node_update_def node_transition_def
  node_net_create_def node_net_setup_def guest_setup_def and_then_def comp_defs node_agent_new_def node_capacity_def resource_pool_new_def
  counter_ops_def sandbox_transition_def transition_defs sandbox_new_def mem_run_defs mem_create_sandbox_def mem_new_def
  node_keep_def node_insert_def node_drop_def fail_creation_def node_ignore_def node_net_teardown_def node_raise_def

lemma desk_fails:
  "\<exists>nd'. create_sandbox_with_id (desk_env (Err e) found) ''sb'' desk_spec (node_agent_new (desk_env (Err e) found) mem_new 1)
     = (nd', Err (Fails (Raised e)))"
  using desk_spec_ok by (simp add: desk_defs default_resources_def)

lemma desk_creates:
  "\<exists>nd' sb. create_sandbox_with_id (desk_env (Ok ()) found) ''sb'' desk_spec (node_agent_new (desk_env (Ok ()) found) mem_new 1) = (nd', Ok sb)"
  using desk_spec_ok by (simp add: desk_defs default_resources_def)

section \<open>Reservations\<close>

text \<open>C11: whatever calls a node has served, the reservation it keeps under an identifier is the one of the sandbox
  registered there, and in each dimension the free permits and the reserved ones add up to the capacity that the
  node was configured with.\<close>

theorem node_permits_balanced:
  assumes "semaphore_laws (ne_sem env)" and "node_reach env nd"
  shows "hm_get (nd_reservations nd) i = map_option (\<lambda>sb. sp_resources (sb_spec sb)) (hm_get (nd_sandboxes nd) i)
    \<and> sem_available (ne_sem env) (get_sem (nd_pool nd) d) + hm_total (units d) (nd_reservations nd)
      = total (node_capacity (ne_config env)) 200 d"
  using node_reach_ok [OF assms(2,1)] by (simp add: node_ok_def registered_def node_balanced_def node_total_def)

theorem node_permits_balanced_witness:
  "let env = desk_env (Ok ()) []; nd = fst (create_sandbox_with_id env ''sb'' desk_spec (node_agent_new env mem_new 1))
   in hm_get (nd_reservations nd) ''sb'' = map_option (\<lambda>sb. sp_resources (sb_spec sb)) (hm_get (nd_sandboxes nd) ''sb'')
    \<and> sem_available (ne_sem env) (get_sem (nd_pool nd) DVcpu) + hm_total (units DVcpu) (nd_reservations nd)
      = total (node_capacity (ne_config env)) 200 DVcpu"
  unfolding Let_def by (rule node_permits_balanced [OF desk_laws]) (rule node_next [OF node_init node_creates])

text \<open>The heartbeat adds words; the sums do not wrap because what is added has been admitted.\<close>

lemma hm_total_dom:
  "hm_ok m \<Longrightarrow> hm_total g m = (\<Sum>k\<in>{k. hm_get m k \<noteq> None}. g (the (hm_get m k)))"
proof (induction m)
  case (Cons e m)
  obtain k v where e: "e = (k, v)" by (cases e)
  have ok: "hm_ok m" and new: "hm_get m k = None"
    using Cons.prems by (auto simp: e hm_ok_def hm_get_def map_of_eq_None_iff)
  have get: "hm_get (e # m) j = (if j = k then Some v else hm_get m j)" for j by (simp add: e hm_get_def)
  have fin: "finite {j. hm_get m j \<noteq> None}" using finite_dom_map_of [of m] by (simp add: hm_get_def dom_def)
  have "{j. hm_get (e # m) j \<noteq> None} = insert k {j. hm_get m j \<noteq> None}" by (auto simp: get)
  then have "(\<Sum>j\<in>{j. hm_get (e # m) j \<noteq> None}. g (the (hm_get (e # m) j)))
      = g v + (\<Sum>j\<in>{j. hm_get m j \<noteq> None}. g (the (hm_get (e # m) j)))"
    using fin new by (simp add: get)
  also have "(\<Sum>j\<in>{j. hm_get m j \<noteq> None}. g (the (hm_get (e # m) j))) = (\<Sum>j\<in>{j. hm_get m j \<noteq> None}. g (the (hm_get m j)))"
    using new by (intro sum.cong) (auto simp: get)
  finally show ?case using Cons.IH [OF ok] by (simp add: e hm_total_Cons)
qed simp

lemma registered_total:
  assumes "registered nd"
  shows "hm_total g (nd_reservations nd) = hm_total (\<lambda>sb. g (sp_resources (sb_spec sb))) (nd_sandboxes nd)"
proof -
  have get: "hm_get (nd_reservations nd) k = map_option (\<lambda>sb. sp_resources (sb_spec sb)) (hm_get (nd_sandboxes nd) k)" for k
    using assms by (simp add: registered_def)
  show ?thesis
    using assms unfolding registered_def by (simp add: hm_total_dom get) (rule sum.cong; force)
qed

lemma unat_sum_list:
  fixes f :: "'a \<Rightarrow> 'w::len word"
  assumes "sum_list (map (\<lambda>x. unat (f x)) xs) < 2 ^ LENGTH('w)"
  shows "unat (sum_list (map f xs)) = sum_list (map (\<lambda>x. unat (f x)) xs)"
  using assms by (induction xs) (auto simp: unat_word_ariths)

text \<open>C16: a heartbeat of a node reports the sums of what its sandboxes were given, without wrap-around and within the
  host: at most the configured processors, and at most the configured memory, of which the pool knows the low
  32 bits.\<close>

theorem heartbeat_within_capacity:
  assumes "semaphore_laws (ne_sem env)" and "node_reach env nd"
  shows "unat (hr_allocated_vcpu (node_heartbeat env nd)) = hm_total (\<lambda>sb. unat (vcpu (sp_resources (sb_spec sb)))) (nd_sandboxes nd)
    \<and> unat (hr_allocated_vcpu (node_heartbeat env nd)) \<le> unat (ng_total_vcpu (ne_config env))
    \<and> unat (hr_allocated_memory_mb (node_heartbeat env nd)) = hm_total (\<lambda>sb. unat (memory_mb (sp_resources (sb_spec sb)))) (nd_sandboxes nd)
    \<and> unat (hr_allocated_memory_mb (node_heartbeat env nd)) \<le> unat (ng_total_memory_mb (ne_config env)) mod 2 ^ 32"
proof -
  have ok: "registered nd" and bal: "node_balanced env None nd"
    using node_reach_ok [OF assms(2,1)] by (simp_all add: node_ok_def)
  have le: "hm_total (\<lambda>sb. need (sp_resources (sb_spec sb)) d) (nd_sandboxes nd) \<le> node_total env d" for d
    using node_balancedD [OF bal, of d] registered_total [OF ok, of "units d"] by (simp add: units_def)
  have v: "hm_total (\<lambda>sb. unat (vcpu (sp_resources (sb_spec sb)))) (nd_sandboxes nd) \<le> unat (ng_total_vcpu (ne_config env))"
    using le [of DVcpu] by (simp add: node_total_def node_capacity_def)
  have m: "hm_total (\<lambda>sb. unat (memory_mb (sp_resources (sb_spec sb)))) (nd_sandboxes nd) \<le> unat (ng_total_memory_mb (ne_config env)) mod 2 ^ 32"
    using le [of DMem] by (simp add: node_total_def node_capacity_def unsigned_ucast_eq take_bit_eq_mod)
  have "unat (ng_total_vcpu (ne_config env)) < 2 ^ LENGTH(16)" by (rule unsigned_less)
  then have hv: "unat (hr_allocated_vcpu (node_heartbeat env nd)) = hm_total (\<lambda>sb. unat (vcpu (sp_resources (sb_spec sb)))) (nd_sandboxes nd)"
    using v unfolding node_heartbeat_def Let_def heartbeat_report.simps hm_total_def by (intro unat_sum_list) simp
  have "unat (ng_total_memory_mb (ne_config env)) mod 2 ^ 32 < 2 ^ LENGTH(64)"
    by (rule less_trans [of _ "2 ^ 32"]) simp_all
  then have hm: "unat (hr_allocated_memory_mb (node_heartbeat env nd)) = hm_total (\<lambda>sb. unat (memory_mb (sp_resources (sb_spec sb)))) (nd_sandboxes nd)"
    using m unat_sum_list [of "\<lambda>sb. ucast (memory_mb (sp_resources (sb_spec sb))) :: u64" "hm_values (nd_sandboxes nd)"]
    unfolding node_heartbeat_def Let_def heartbeat_report.simps hm_total_def by (simp add: unat_memory_ucast)
  show ?thesis using v m by (simp only: hv hm)
qed

theorem heartbeat_within_capacity_witness:
  "let env = desk_env (Ok ()) []; nd = fst (create_sandbox_with_id env ''sb'' desk_spec (node_agent_new env mem_new 1))
   in unat (hr_allocated_vcpu (node_heartbeat env nd)) \<le> 8"
proof -
  let ?env = "desk_env (Ok ()) []"
  have "node_reach ?env (fst (create_sandbox_with_id ?env ''sb'' desk_spec (node_agent_new ?env mem_new 1)))"
    by (rule node_next [OF node_init node_creates])
  from heartbeat_within_capacity [OF desk_laws this] show ?thesis by (simp add: Let_def) (simp add: desk_env_def desk_config_def)
qed

section \<open>Creation\<close>

lemma create_unfold:
  assumes "i \<noteq> []" and "spec_validate sp = Ok ()"
  shows "create_sandbox_with_id env i sp = and_then (node_admit env sp) (\<lambda>r.
    and_then (node_holding env r (create_started env i sp)) (\<lambda>(sb, h).
    and_then (modify (node_insert i (sb\<lparr>sb_status := Running\<rparr>))) (\<lambda>_.
    and_then (modify (node_keep env i r)) (\<lambda>_. create_registered env i sb h))))"
  using assms by (simp add: create_sandbox_with_id_def)

lemma node_admit_effect:
  "node_admit env sp nd = (nd', r) \<Longrightarrow> nd_store nd' = nd_store nd \<and> nd_sandboxes nd' = nd_sandboxes nd
    \<and> nd_reservations nd' = nd_reservations nd \<and> (\<forall>x. r = Ok x \<longrightarrow> x = sp_resources sp)"
  by (auto simp: node_admit_def admit_def Let_def split: prod.splits option.splits)

text \<open>How a creation ends: refused before anything was stored, failed with its record, or done.\<close>

lemma create_outcome:
  assumes st: "sandbox_store (ne_store env) iv lookup" and inv: "iv (nd_store nd)" and new: "lookup (nd_store nd) i = None"
    and ok: "node_ok env None nd" and free: "hm_get (nd_sandboxes nd) i = None"
  shows "ends (\<lambda>s. s = nd) (create_sandbox_with_id env i sp)
    (\<lambda>sb nd'. node_at iv lookup nd i (Some (sp_resources sp)) (view_of sb) nd' \<and> hm_get (nd_sandboxes nd') i = Some sb \<and> sb_status sb = Running)
    (\<lambda>x nd'. node_failed iv lookup nd i x nd' \<or>
       nd_sandboxes nd' = nd_sandboxes nd \<and> nd_reservations nd' = nd_reservations nd \<and> nd_store nd' = nd_store nd)"
    (is "ends ?P ?m ?Q ?E")
proof (cases "i = [] \<or> spec_validate sp \<noteq> Ok ()")
  case True
  then show ?thesis by (auto simp: ends_def create_sandbox_with_id_def node_raise_def throw_def split: sum.split)
next
  case False
  have res: "hm_get (nd_reservations nd) i = None" using ok free by (simp add: node_ok_def registered_def)
  obtain nd1 q where adm: "node_admit env sp nd = (nd1, q)" by (cases "node_admit env sp nd")
  note eff = node_admit_effect [OF adm]
  have run: "?m nd = (case q of Err x \<Rightarrow> (nd1, Err x) | Ok r \<Rightarrow> and_then (node_holding env r (create_started env i sp)) (\<lambda>(sb, h).
      and_then (modify (node_insert i (sb\<lparr>sb_status := Running\<rparr>))) (\<lambda>_.
      and_then (modify (node_keep env i r)) (\<lambda>_. create_registered env i sb h))) nd1)"
    using False create_unfold [of i sp env] adm by (simp add: and_then_def [of "node_admit env sp"])
  show ?thesis
  proof (cases q)
    case (Inl x)
    then show ?thesis using run eff by (simp add: ends_def)
  next
    case (Inr r)
    have "registry nd1 = (nd_pool nd1, nd_sandboxes nd, nd_reservations nd) \<and> nd_store nd1 = nd_store nd \<and> iv (nd_store nd)"
      using eff inv by (simp add: registry_def)
    with sandbox_store.create_admitted_at [OF st HOL.refl new free res, of "nd_pool nd1" r sp] run Inr eff show ?thesis
      by (fastforce simp: ends_def split: prod.splits sum.splits)
  qed
qed

text \<open>C15: when a node reports that a creation failed, the registrations and the reservations are those before the call,
  every permit is free again that was free before, and the record of the sandbox, if one was made, is in the state
  \<open>Error\<close> with the message that the caller gets.\<close>

theorem failed_creation_leaves_nothing:
  assumes "semaphore_laws (ne_sem env)" and "sandbox_store (ne_store env) iv lookup" and "node_reach env nd"
    and "iv (nd_store nd)" and "lookup (nd_store nd) i = None" and "hm_get (nd_sandboxes nd) i = None"
    and "create_sandbox_with_id env i sp nd = (nd', Err (Fails (Raised e)))"
  shows "nd_sandboxes nd' = nd_sandboxes nd \<and> nd_reservations nd' = nd_reservations nd
    \<and> (\<forall>d. sem_available (ne_sem env) (get_sem (nd_pool nd') d) = sem_available (ne_sem env) (get_sem (nd_pool nd) d))
    \<and> (lookup (nd_store nd') = lookup (nd_store nd)
       \<or> (\<exists>v. lookup (nd_store nd') = (lookup (nd_store nd))(i \<mapsto> v) \<and> v_status v = Error \<and> v_message v = Some (err_message e)))"
proof -
  have ok: "node_ok env None nd" "node_ok env None nd'"
    using node_reach_ok [OF assms(3,1)] confined_at [OF node_keeps_create [OF assms(1)], of nd i sp] assms(7) by auto
  have out: "nd_sandboxes nd' = nd_sandboxes nd" "nd_reservations nd' = nd_reservations nd"
    "lookup (nd_store nd') = lookup (nd_store nd)
       \<or> (\<exists>v. lookup (nd_store nd') = (lookup (nd_store nd))(i \<mapsto> v) \<and> v_status v = Error \<and> v_message v = Some (err_message e))"
    using endsD(2) [OF create_outcome [OF assms(2,4,5) ok(1) assms(6)] HOL.refl assms(7)] by (auto simp: node_failed_def)
  have "sem_available (ne_sem env) (get_sem (nd_pool nd') d) = sem_available (ne_sem env) (get_sem (nd_pool nd) d)" for d
    using ok node_balancedD [of env None nd d] node_balancedD [of env None nd' d] by (simp add: node_ok_def out(2))
  with out show ?thesis by blast
qed

theorem failed_creation_leaves_nothing_witness:
  "let e = new_error EkVmm ''no kvm''; env = desk_env (Err e) []; nd = node_agent_new env mem_new 1;
       nd' = fst (create_sandbox_with_id env ''sb'' desk_spec nd)
   in nd_sandboxes nd' = [] \<and> nd_reservations nd' = []
    \<and> (\<forall>d. sem_available (ne_sem env) (get_sem (nd_pool nd') d) = sem_available (ne_sem env) (get_sem (nd_pool nd) d))"
proof -
  let ?e = "new_error EkVmm ''no kvm''"
  let ?env = "desk_env (Err ?e) []"
  let ?nd = "node_agent_new ?env mem_new 1"
  obtain nd' where run: "create_sandbox_with_id ?env ''sb'' desk_spec ?nd = (nd', Err (Fails (Raised ?e)))"
    using desk_fails by blast
  have store: "sandbox_store (ne_store ?env) mem_inv mem_lookup" by (simp add: desk_env_def mem.sandbox_store_axioms)
  have "mem_inv (nd_store ?nd)" "mem_lookup (nd_store ?nd) ''sb'' = None" "hm_get (nd_sandboxes ?nd) ''sb'' = None"
    by (simp_all add: node_agent_new_def mem_inv_def mem_lookup_def mem_new_def)
  from failed_creation_leaves_nothing [OF desk_laws store node_init this run] show ?thesis
    unfolding Let_def run fst_conv by (simp add: node_agent_new_def)
qed



lemma admit_refusal: "admit ops p sp = (p', Err e) \<Longrightarrow> \<exists>m. e = resource_exhausted m"
  by (auto simp: admit_def Let_def split: option.splits)

lemma create_conflict:
  assumes st: "sandbox_store (ne_store env) iv lookup" and inv: "iv (nd_store nd)" and old: "lookup (nd_store nd) i = Some v"
    and valid: "i \<noteq> []" "spec_validate sp = Ok ()" and run: "create_sandbox_with_id env i sp nd = (nd', r)"
  shows "(\<exists>m. r = Err (Fails (Raised (invalid_state m))) \<or> r = Err (Fails (Raised (resource_exhausted m))))
    \<and> nd_sandboxes nd' = nd_sandboxes nd \<and> nd_reservations nd' = nd_reservations nd \<and> nd_store nd' = nd_store nd"
proof -
  have conflict: "\<exists>m w. create_started env i sp nd1 = (nd1\<lparr>nd_world := w\<rparr>, Err (Fails (Raised (invalid_state m))))"
    if "nd_store nd1 = nd_store nd" for nd1
  proof -
    obtain w t where now: "ne_now env (nd_world nd1) = (w, t)" by fastforce
    let ?new = "(sandbox_new t i sp)\<lparr>sb_node_id := Some (ng_node_id (ne_config env))\<rparr>"
    obtain nd2 q where tr: "node_transition env ?new Start (nd1\<lparr>nd_world := w\<rparr>) = (nd2, q)" by fastforce
    from start_new [OF tr] obtain t' w' where q: "q = Ok (?new\<lparr>sb_status := Starting, sb_updated_at := t'\<rparr>)" "nd2 = nd1\<lparr>nd_world := w'\<rparr>"
      by auto
    let ?sb = "?new\<lparr>sb_status := Starting, sb_updated_at := t'\<rparr>"
    obtain m where "so_create (ne_store env) ?sb (nd_store nd) = (nd_store nd, Err (SConflict m))"
      using sandbox_store.create_dup [OF st inv, of ?sb v] old by (auto simp: sandbox_new_def)
    then have "node_write (so_create (ne_store env) ?sb) nd2 = (nd2, Err (Fails (Raised (invalid_state m))))"
      by (simp add: node_write_def q(2) that from_store_error_def)
    then show ?thesis using now tr q
      by (auto simp: create_started_def and_then_def [of "node_world (ne_now env)"] and_then_def [of "node_transition env ?new Start"]
          and_then_def [of "node_write (so_create (ne_store env) ?sb)"] node_world_def)
  qed
  obtain nd1 q where adm: "node_admit env sp nd = (nd1, q)" by fastforce
  note eff = node_admit_effect [OF adm]
  show ?thesis
  proof (cases q)
    case (Inl x)
    then obtain m where "x = Fails (Raised (resource_exhausted m))"
      using adm by (auto simp: node_admit_def split: prod.splits dest: admit_refusal)
    then show ?thesis using run eff Inl adm by (auto simp: create_unfold [OF valid] and_then_def [of "node_admit env sp"])
  next
    case (Inr x)
    obtain m w where "create_started env i sp nd1 = (nd1\<lparr>nd_world := w\<rparr>, Err (Fails (Raised (invalid_state m))))"
      using conflict eff by blast
    then show ?thesis using run eff Inr adm
      by (auto simp: create_unfold [OF valid] and_then_def [of "node_admit env sp"] and_then_def [of "node_holding env x _"]
          node_holding_def node_drop_def)
  qed
qed

text \<open>An identifier that the store of the node has a record for is refused with a conflict, and the call changes neither
  the registrations nor the reservations nor the store. A node that shares the store of the service, where the
  service makes the record before it asks the node, therefore refuses every creation.\<close>

lemma existing_record_refused:
  assumes "semaphore_laws (ne_sem env)" and "sandbox_store (ne_store env) iv lookup" and "node_reach env nd"
    and "iv (nd_store nd)" and "lookup (nd_store nd) i = Some v"
    and "i \<noteq> []" and "spec_validate sp = Ok ()" and "create_sandbox_with_id env i sp nd = (nd', r)"
  shows "(\<exists>m. r = Err (Fails (Raised (invalid_state m))) \<or> r = Err (Fails (Raised (resource_exhausted m))))
    \<and> nd_sandboxes nd' = nd_sandboxes nd \<and> nd_reservations nd' = nd_reservations nd \<and> nd_store nd' = nd_store nd
    \<and> (\<forall>d. sem_available (ne_sem env) (get_sem (nd_pool nd') d) = sem_available (ne_sem env) (get_sem (nd_pool nd) d))"
proof -
  have ok: "node_ok env None nd" "node_ok env None nd'"
    using node_reach_ok [OF assms(3,1)] confined_at [OF node_keeps_create [OF assms(1)], of nd i sp] assms(8) by auto
  have out: "(\<exists>m. r = Err (Fails (Raised (invalid_state m))) \<or> r = Err (Fails (Raised (resource_exhausted m))))"
    "nd_sandboxes nd' = nd_sandboxes nd" "nd_reservations nd' = nd_reservations nd" "nd_store nd' = nd_store nd"
    using assms(8) create_conflict [OF assms(2,4,5,6,7)] by blast+
  have "sem_available (ne_sem env) (get_sem (nd_pool nd') d) = sem_available (ne_sem env) (get_sem (nd_pool nd) d)" for d
    using ok node_balancedD [of env None nd d] node_balancedD [of env None nd' d] by (simp add: node_ok_def out(3))
  with out show ?thesis by blast
qed

lemma existing_record_refused_witness:
  "let env = desk_env (Ok ()) []; nd = node_agent_new env (fst (mem_create_sandbox (sandbox_new 1 ''sb'' desk_spec) mem_new)) 1;
       nd' = fst (create_sandbox_with_id env ''sb'' desk_spec nd)
   in nd_sandboxes nd' = [] \<and> nd_reservations nd' = [] \<and> nd_store nd' = nd_store nd"
proof -
  let ?env = "desk_env (Ok ()) []" and ?s = "fst (mem_create_sandbox (sandbox_new 1 ''sb'' desk_spec) mem_new)"
  let ?nd = "node_agent_new ?env ?s 1"
  obtain nd' r where run: "create_sandbox_with_id ?env ''sb'' desk_spec ?nd = (nd', r)" by fastforce
  have store: "sandbox_store (ne_store ?env) mem_inv mem_lookup" by (simp add: desk_env_def mem.sandbox_store_axioms)
  have "mem_inv (nd_store ?nd)" "mem_lookup (nd_store ?nd) ''sb'' = Some (view_of (sandbox_new 1 ''sb'' desk_spec))"
    by (simp_all add: node_agent_new_def mem_inv_def mem_lookup_def mem_new_def mem_create_sandbox_def sandbox_new_def)
  from existing_record_refused [OF desk_laws store node_init this _ desk_spec_ok(1) run] show ?thesis
    unfolding Let_def run fst_conv by (simp add: node_agent_new_def)
qed

section \<open>Recovery\<close>

text \<open>The machines that are stopped, one after the other, whatever the backend answers.\<close>

lemma stop_orphans_run:
  "stop_orphans env known hs nd =
    (nd\<lparr>nd_world := fold (\<lambda>h w. fst (ne_vm_stop env h Force w)) (filter (\<lambda>h. vh_id h \<notin> set known) hs) (nd_world nd)\<rparr>, Ok ())"
proof (induction hs arbitrary: nd)
  case (Cons h hs)
  obtain w r where "ne_vm_stop env h Force (nd_world nd) = (w, r)" by fastforce
  then have "node_ignore (node_call (ne_vm_stop env h Force)) nd = (nd\<lparr>nd_world := fst (ne_vm_stop env h Force (nd_world nd))\<rparr>, Ok ())"
    by (cases r) (simp_all add: node_ignore_def node_try_def node_call_def node_world_def and_then_def comp_defs)
  then show ?case by (simp add: and_then_def Cons.IH ok_def)
qed (simp add: ok_def)

text \<open>A recovery stops exactly the machines it finds that no active record of this node, and no active record without a
  node, names, and then restores the active records of this node.\<close>

lemma recovery_stops_orphans:
  assumes "ne_now env (nd_world nd) = (w1, t)" and "so_list (ne_store env) t None (nd_store nd) = Ok sbs"
    and "ne_vm_discover env w1 = (w2, Ok hs)"
  shows "reconcile_from_store env nd = restore_all env
      (filter (\<lambda>sb. sb_node_id sb = Some (ng_node_id (ne_config env)) \<and> status_is_active (sb_status sb)) sbs)
      (nd\<lparr>nd_world := fold (\<lambda>h w. fst (ne_vm_stop env h Force w))
        (filter (\<lambda>h. \<not> (\<exists>sb\<in>set sbs. status_is_active (sb_status sb) \<and> (sb_node_id sb = Some (ng_node_id (ne_config env)) \<or> sb_node_id sb = None)
           \<and> vh_id (node_handle sb (sb_id sb)) = vh_id h)) hs) w2\<rparr>)"
proof -
  have "(vh_id h \<in> set (known_runtime_ids (ne_config env) sbs)) = (\<exists>sb\<in>set sbs. status_is_active (sb_status sb)
      \<and> (sb_node_id sb = Some (ng_node_id (ne_config env)) \<or> sb_node_id sb = None) \<and> vh_id (node_handle sb (sb_id sb)) = vh_id h)" for h
    by (force simp: known_runtime_ids_def node_handle_def meta_to_handle_def)
  note orphans = this [symmetric]
  show ?thesis unfolding orphans using assms
    by (simp add: reconcile_from_store_def node_listed_def node_world_def and_then_def stop_orphans_run)
qed

lemma recovery_stops_orphans_witness:
  "let env = desk_env (Ok ()) [svc_handle ''sb'']; nd = node_agent_new env mem_new 1
   in reconcile_from_store env nd = restore_all env [] (nd\<lparr>nd_world := 102\<rparr>)"
proof -
  let ?env = "desk_env (Ok ()) [svc_handle ''sb'']" and ?nd = "node_agent_new (desk_env (Ok ()) [svc_handle ''sb'']) mem_new 1"
  have "ne_now ?env (nd_world ?nd) = (2, 1)" "so_list (ne_store ?env) 1 None (nd_store ?nd) = Ok []"
    "ne_vm_discover ?env 2 = (2, Ok [svc_handle ''sb''])"
    by (simp_all add: desk_env_def node_agent_new_def mem_ops_def mem_list_sandboxes_def mem_new_def hm_values_def)
  from recovery_stops_orphans [OF this] show ?thesis by (simp add: Let_def) (simp add: desk_env_def)
qed



end
