(* ===== verification/Node_Link.thy ===== *)
theory Node_Link
  imports Node_Server Node_Properties Guest_Link
begin

text \<open>
  What the two ends of the node protocol do together: a command run over a node gives what the node's own
  execution gives, the handle of a machine leads back to the node that made it, and an interactive process can
  be started but never be spoken to.
\<close>

section \<open>Interactive processes\<close>

text \<open>The exchanges with a guest fail with an error of the program or wait; none of them panics.\<close>

definition calm_end :: "('s, 'q, 'w, 'a) node_comp \<Rightarrow> bool" where
  "calm_end m \<longleftrightarrow> (\<forall>nd. snd (m nd) \<noteq> Err (Fails Panicked))"

named_theorems calm_intros

lemma calm_and_then [calm_intros]: "calm_end m \<Longrightarrow> (\<And>a. calm_end (f a)) \<Longrightarrow> calm_end (and_then m f)"
  by (auto simp: calm_end_def and_then_def split: prod.split sum.split) (metis snd_conv)

lemma calm_steps [calm_intros]:
  "calm_end (ok a)" "calm_end (node_raise e)" "calm_end (node_world f)" "calm_end (node_executable b i)" "calm_end (throw Never)"
  by (simp_all add: calm_end_def comp_defs node_raise_def node_world_def node_executable_def split: prod.split option.split)

lemma calm_if [calm_intros]: "calm_end m \<Longrightarrow> calm_end n \<Longrightarrow> calm_end (if b then m else n)"
  by simp

lemma calm_client [calm_intros]: "calm_end (guest_client m c)"
proof -
  have "map_stop Raised x \<noteq> Fails Panicked" for x by (cases x) simp_all
  then show ?thesis by (auto simp: calm_end_def guest_client_def split: prod.split sum.split)
qed

lemma calm_connect [calm_intros]: "calm_end (node_connect env ip)"
proof -
  have "calm_end (\<lambda>nd. (nd, Ok (g nd)))" for g :: "('a, 'b, 'c) node \<Rightarrow> 'd" by (simp add: calm_end_def)
  then show ?thesis unfolding node_connect_def by (intro calm_intros) (auto intro: calm_intros split: connect_end.split)
qed

lemma calm_session [calm_intros]: "calm_end (guest_session env brief i m)"
  unfolding guest_session_def Let_def by (intro calm_intros)

lemma calm_process_start [calm_intros]: "calm_end (node_process_start env i fid argv en cwd t stdin pty)"
  unfolding node_process_start_def by (intro calm_intros)

lemma calm_process_control [calm_intros]: "calm_end (node_process_control env i fid oper)"
  unfolding node_process_control_def by (intro calm_intros)

lemma calm_try: "calm_end m \<Longrightarrow> node_try m nd = (nd', r) \<Longrightarrow> r = Err Never \<or> (\<exists>a. r = Ok a)"
  by (cases "m nd") (auto simp: calm_end_def node_try_def dest: spec [of _ nd] split: sum.splits stop.splits fault.splits)

text \<open>Every message of a session is answered with one item, or its handler waits.\<close>

fun answered_msg :: "exec_msg option \<Rightarrow> bool" where
  "answered_msg (Some (MProcessStart _)) = True"
| "answered_msg (Some (MProcessInput _ _)) = True"
| "answered_msg (Some (MProcessEof _)) = True"
| "answered_msg (Some (MProcessSignal _ _)) = True"
| "answered_msg (Some (MProcessResize _ _ _)) = True"
| "answered_msg _ = False"

lemma queue_send_cases:
  "queue_send item xs nd = (if length (xs_queue xs) < 32 then (nd, Ok (xs\<lparr>xs_queue := xs_queue xs @ [item]\<rparr>)) else (nd, Err Never))"
  by (simp add: queue_send_def ok_def throw_def)

lemma server_control_run:
  assumes "server_control env fid oper xs nd = (nd', r)"
  shows "r = Err Never \<or> (length (xs_queue xs) < 32 \<and> (\<exists>item. r = Ok (xs\<lparr>xs_queue := xs_queue xs @ [item]\<rparr>)))"
proof -
  obtain nd1 q where t: "node_try (node_process_control env (xs_sandbox_id xs) fid oper) nd = (nd1, q)" by fastforce
  with calm_try [OF calm_process_control t] assms show ?thesis
    by (auto simp: server_control_def and_then_def queue_send_cases split: if_splits)
qed

lemma server_start_run:
  assumes "server_process_start env rq xs nd = (nd', r)"
  shows "r = Err Never \<or> (length (xs_queue xs) < 32 \<and> (\<exists>xs'. r = Ok xs' \<and> length (xs_queue xs') = Suc (length (xs_queue xs))))"
proof -
  obtain nd1 q where t: "node_try (node_process_start env (pr_sandbox_id rq) (pr_frame_id rq) (pr_argv rq) (pr_env rq) (non_empty (pr_cwd rq))
      (pr_timeout_ms rq) (pr_stdin rq) (map_option (\<lambda>(c, r). \<lparr>pc_cols = ucast c, pc_rows = ucast r\<rparr>) (pr_pty rq))) nd = (nd1, q)" by fastforce
  with calm_try [OF calm_process_start t] assms show ?thesis
    by (auto simp: server_process_start_def Let_def and_then_def queue_send_cases ok_def split: if_splits sum.splits prod.splits)
qed

lemma server_message_run:
  assumes "answered_msg msg" and "server_message env msg xs nd = (nd', r)"
  shows "r = Err Never \<or> (length (xs_queue xs) < 32 \<and> (\<exists>xs'. r = Ok xs' \<and> length (xs_queue xs') = Suc (length (xs_queue xs))))"
  using assms(2)
  by (cases msg rule: answered_msg.cases)
    (use assms(1) in \<open>auto simp: server_message_def queue_send_cases split: sum.splits if_splits dest!: server_control_run server_start_run\<close>)

lemma server_loop_blocks:
  assumes "list_all (\<lambda>(_, m). answered_msg m) msgs" and "32 < length (xs_queue xs) + length msgs" and "length (xs_queue xs) \<le> 32"
  shows "snd (server_exec_loop env msgs ending xs nd) = Err Never"
  using assms
proof (induction msgs arbitrary: xs nd)
  case (Cons e msgs)
  obtain arrived msg where e: "e = (arrived, msg)" by (cases e)
  let ?xs = "queue_arrived arrived xs"
  have len: "length (xs_queue xs) \<le> length (xs_queue ?xs)" "length (xs_queue ?xs) \<le> 32"
    using Cons.prems(3) by (simp_all add: queue_arrived_def)
  have m: "answered_msg msg" and ms: "list_all (\<lambda>(_, m). answered_msg m) msgs" using Cons.prems(1) by (simp_all add: e)
  obtain nd1 r where run: "server_message env msg ?xs nd = (nd1, r)" by fastforce
  have step: "server_exec_loop env (e # msgs) ending xs nd =
      (case r of Ok xs' \<Rightarrow> server_exec_loop env msgs ending xs' nd1 | Err x \<Rightarrow> (nd1, Err x))"
    using m run by (cases msg rule: answered_msg.cases) (simp_all add: e and_then_def)
  from server_message_run [OF m run] show ?case
  proof (elim disjE conjE exE)
    fix xs' assume "length (xs_queue ?xs) < 32" "r = Ok xs'" "length (xs_queue xs') = Suc (length (xs_queue ?xs))"
    then show ?thesis using Cons.IH [OF ms, of xs' nd1] Cons.prems(2) len by (simp add: step)
  qed (simp add: step)
qed simp

text \<open>A stream of more than 32 messages of interactive processes is never answered, however the client ends it:
  the handler fills the channel of its own response, which nobody reads before the handler has returned.\<close>

lemma session_blocks_after_32_answers:
  assumes "list_all (\<lambda>(_, m). answered_msg m) msgs" and "32 < length msgs"
  shows "snd (server_exec env msgs ending nd) = Err Never"
proof -
  have "snd (server_exec_loop env msgs ending session_new nd) = Err Never"
    using assms by (intro server_loop_blocks) (simp_all add: session_new_def)
  then show ?thesis by (cases "server_exec_loop env msgs ending session_new nd") (simp add: server_exec_def and_then_def)
qed

lemma session_blocks_after_32_answers_witness:
  "snd (server_exec (desk_env (Ok ()) []) (replicate 33 ([], Some (MProcessEof ''p''))) StreamClosed nd) = Err Never"
  by (rule session_blocks_after_32_answers) (simp_all add: list_all_length)

lemma server_open_waits:
  assumes "answered_msg msg"
  shows "snd (server_exec env [([], msg)] StreamOpen nd) = Err Never"
proof -
  obtain nd1 r where run: "server_message env msg (queue_arrived [] session_new) nd = (nd1, r)" by fastforce
  have "server_exec_loop env [([], msg)] StreamOpen session_new nd =
      (nd1, case r of Ok _ \<Rightarrow> Err Never | Err x \<Rightarrow> Err x)"
    using assms run by (cases msg rule: answered_msg.cases) (auto simp: and_then_def throw_def split: sum.splits)
  with server_message_run [OF assms run] show ?thesis by (auto simp: server_exec_def and_then_def)
qed


section \<open>Commands\<close>

abbreviation is_output :: "exec_stream_event \<Rightarrow> bool" where
  "is_output ev \<equiv> (\<exists>d. ev = EvStdout d \<or> ev = EvStderr d)"

lemma event_of_output: "event_of i f = Some ev \<Longrightarrow> \<not> is_exit ev \<Longrightarrow> is_output ev"
  by (cases f) (auto split: if_splits)

text \<open>An execution sends output, and the exit last when it succeeds.\<close>

definition stream_shape :: "exec_stream_event list \<Rightarrow> (unit, clouisle_error stop) result \<Rightarrow> bool" where
  "stream_shape evs r =
     (case r of Ok _ \<Rightarrow> \<exists>pre x. evs = pre @ [EvExit x] \<and> list_all is_output pre | Err _ \<Rightarrow> list_all is_output evs)"

lemma stream_shape_step: "is_output ev \<Longrightarrow> stream_shape evs r \<Longrightarrow> stream_shape (ev # evs) r"
  by (cases r) (auto simp: stream_shape_def intro: exI [of _ "ev # _"])

lemma conn_stream_taken:
  "conn_stream ops tx i (\<lambda>_. Taken) n c = (c', evs, r) \<Longrightarrow> sx_gone tx = Ok () \<Longrightarrow> stream_shape evs r"
proof (induction ops tx i "\<lambda>_ :: nat. Taken" n c arbitrary: c' evs rule: conn_stream.induct)
  case (1 ops tx i n c)
  obtain rest q where rd: "read_frame ops (ac_in c) = (rest, q)" by fastforce
  show ?case
  proof (cases "\<exists>f ev. q = Ok f \<and> event_of i f = Some ev")
    case False
    with "1.prems"(1) show ?thesis
      by (subst (asm) conn_stream.simps) (auto simp: rd stream_shape_def split: sum.splits codec_error.splits option.splits if_splits frame.splits)
  next
    case True
    then obtain f ev where q: "q = Ok f" and ev: "event_of i f = Some ev" by blast
    show ?thesis
    proof (cases "is_exit ev")
      case True
      then obtain x where "ev = EvExit x" by (cases ev) auto
      with "1.prems"(1) show ?thesis by (subst (asm) conn_stream.simps) (auto simp: rd q ev stream_shape_def)
    next
      case False
      obtain c1 evs1 r1 where sub: "conn_stream ops tx i (\<lambda>_. Taken) (Suc n) (c\<lparr>ac_in := rest\<rparr>) = (c1, evs1, r1)"
        using prod_cases3 by blast
      with "1.prems"(1) False have "r = r1" "evs = ev # evs1" by (subst (asm) conn_stream.simps; auto simp: rd q ev)+
      with "1.hyps" [OF rd [symmetric] q ev _ False, of c1 evs1] sub "1.prems"(2)
      show ?thesis by (auto intro: stream_shape_step event_of_output [OF ev False])
    qed
  qed
qed

lemma collect_duration:
  "collect evs (r\<lparr>er_duration_ms := t\<rparr>) = map_sum id (\<lambda>x. x\<lparr>er_duration_ms := t\<rparr>) (collect evs r)"
proof (induction evs arbitrary: r)
  case (Cons ev evs)
  have swap: "(r\<lparr>er_duration_ms := t\<rparr>)\<lparr>er_stdout := a\<rparr> = (r\<lparr>er_stdout := a\<rparr>)\<lparr>er_duration_ms := t\<rparr>"
    "(r\<lparr>er_duration_ms := t\<rparr>)\<lparr>er_stderr := a\<rparr> = (r\<lparr>er_stderr := a\<rparr>)\<lparr>er_duration_ms := t\<rparr>"
    "(r\<lparr>er_duration_ms := t\<rparr>)\<lparr>er_exit_code := b\<rparr> = (r\<lparr>er_exit_code := b\<rparr>)\<lparr>er_duration_ms := t\<rparr>" for a b
    by simp_all
  have keep: "er_stdout (r\<lparr>er_duration_ms := t\<rparr>) = er_stdout r" "er_stderr (r\<lparr>er_duration_ms := t\<rparr>) = er_stderr r" by simp_all
  show ?case by (cases ev) (simp_all only: collect.simps swap keep Cons.IH map_sum.simps id_apply)
qed simp

lemma grpc_collect_exit:
  assumes "list_all is_output pre"
  shows "grpc_collect cl (map (\<lambda>ev. Ok (forwarded sid [] ev)) pre @ Ok (forwarded sid [] (EvExit x)) # items) done r =
     map_sum Fails id (collect (pre @ [EvExit x]) r)"
  using assms by (induction pre arbitrary: r) (auto simp: forwarded_def)

lemma grpc_collect_output:
  assumes "list_all is_output pre"
  shows "\<exists>r'. grpc_collect cl (map (\<lambda>ev. Ok (forwarded sid [] ev)) pre @ items) done r = grpc_collect cl items done r'"
  using assms by (induction pre arbitrary: r) (auto simp: forwarded_def)
text \<open>The refusal of a sandbox that is not running is the only difference between the two executions of the node.\<close>

lemma node_events_brief:
  fixes nd :: "('s, 'q, 'w) node"
  assumes "node_exec_events env False i argv en cwd t send nd = (nd', r)"
  shows "node_exec_events env True i argv en cwd t send nd = (nd', r)
    \<or> (\<exists>e e'. r = Err (Fails (Raised e)) \<and> node_exec_events env True i argv en cwd t send nd = (nd', Err (Fails (Raised e'))))"
proof (cases "\<exists>sb. hm_get (nd_sandboxes nd) i = Some sb \<and> \<not> sandbox_is_executable sb")
  case False
  then have "node_executable True i nd = node_executable False i nd" by (auto simp: node_executable_def split: option.split)
  with assms show ?thesis by (simp add: node_exec_events_def guest_session_def and_then_def split: if_splits)
next
  case True
  with assms show ?thesis
    by (auto simp: node_exec_events_def guest_session_def and_then_def node_executable_def node_raised_def node_raise_def throw_def split: if_splits)
qed

lemma node_events_shape:
  assumes "node_exec_events env brief i argv en cwd t (\<lambda>_. Taken) nd = (nd', Ok (evs, r))"
  shows "stream_shape evs r"
proof -
  have client: "stream_shape evs r" if "exec_exchange env argv en cwd t (\<lambda>_. Taken) peer c = (c', Ok (evs, r))" for peer c c'
    using that by (auto simp: exec_exchange_def and_then_def node_exec_texts_def split: prod.splits sum.splits dest!: conn_stream_taken)
  from assms have "argv \<noteq> []" by (auto simp: node_exec_events_def node_raise_def throw_def split: if_splits)
  with assms obtain c nd1 where "guest_session env brief i (exec_exchange env argv en cwd t (\<lambda>_. Taken)) nd = (nd1, Ok ((evs, r), c))"
    by (auto simp: node_exec_events_def and_then_def ok_def split: prod.splits sum.splits)
  then show ?thesis
    by (auto simp: guest_session_def guest_client_def and_then_def node_raise_def throw_def Let_def split: prod.splits sum.splits if_splits dest: client)
qed

lemma server_exec_command:
  assumes "node_try (node_exec_command_stream env (xr_sandbox_id rq) (xr_argv rq) (xr_env rq) (non_empty (xr_cwd rq))
        (xr_timeout_ms rq) (\<lambda>_. Taken)) nd = (nd', r)"
  shows "server_exec env [([], Some (MExecReq rq))] StreamClosed nd =
    (nd', case r of
       Err x \<Rightarrow> Err x
     | Ok (Err e) \<Rightarrow> Ok (Ok (CommandReply [Err (to_status e)] True))
     | Ok (Ok (evs, q)) \<Rightarrow> Ok (Ok (case legacy_items (xr_sandbox_id rq) evs q of (items, done) \<Rightarrow> CommandReply items done)))"
  using assms
  by (auto simp: server_exec_def server_legacy_exec_def and_then_def ok_def queue_arrived_def session_new_def legacy_items_def Let_def
    split: sum.splits prod.splits)

lemma reply_collect:
  assumes "stream_shape evs q"
  shows "(case reply_items (case legacy_items sid evs q of (items, done) \<Rightarrow> CommandReply items done) of (items, done) \<Rightarrow> grpc_collect cl items done r) =
    (case q of
       Ok _ \<Rightarrow> map_sum Fails id (collect evs r)
     | Err Never \<Rightarrow> Err Never
     | Err (Fails e) \<Rightarrow> Err (Fails (read_error cl ''read node exec'' (to_status e))))"
proof (cases q)
  case (Inl x)
  then have out: "list_all is_output evs" using assms by (simp add: stream_shape_def)
  show ?thesis
  proof (cases x)
    case Never
    then show ?thesis using grpc_collect_output [OF out, of cl sid "[]" False r] by (auto simp: Inl legacy_items_def)
  next
    case (Fails e)
    then show ?thesis using grpc_collect_output [OF out, of cl sid "[Err (to_status e)]" True r] by (auto simp: Inl legacy_items_def)
  qed
next
  case (Inr u)
  then obtain pre x where "evs = pre @ [EvExit x]" "list_all is_output pre" using assms by (auto simp: stream_shape_def)
  then show ?thesis using grpc_collect_exit [of pre cl sid x "[]" True r] by (simp add: Inr legacy_items_def)
qed

lemma collect_shape: "stream_shape evs q \<Longrightarrow> q = Ok () \<Longrightarrow> \<exists>x. collect evs r = Ok x"
proof -
  have "\<exists>x. collect (pre @ [EvExit y]) r = Ok x" if "list_all is_output pre" for pre y
    using that by (induction pre arbitrary: r) auto
  then show "stream_shape evs q \<Longrightarrow> q = Ok () \<Longrightarrow> \<exists>x. collect evs r = Ok x" by (auto simp: stream_shape_def)
qed

text \<open>How the client's execution ends, by the end of the streamed execution on the node.\<close>

lemma grpc_exec_run:
  assumes "fl (gc_endpoint gc) = Some nd"
    and "node_exec_events (cl_nodes cl (gc_endpoint gc)) True (gc_sandbox_id gc) argv en (non_empty (unwrap_or_default cwd)) t (\<lambda>_. Taken) nd = (nd', q)"
  shows "grpc_exec cl took gc argv en cwd t fl = (fl(gc_endpoint gc \<mapsto> nd'),
    case q of
      Err Never \<Rightarrow> Err Never
    | Err (Fails Panicked) \<Rightarrow> Err (Fails (read_error cl ''node exec'' (cl_aborted cl)))
    | Err (Fails (Raised e)) \<Rightarrow> Err (Fails (read_error cl ''read node exec'' (to_status e)))
    | Ok (evs, Ok _) \<Rightarrow> map_sum Fails id (collect evs \<lparr>er_exit_code = 0, er_stdout = [], er_stderr = [], er_duration_ms = took\<rparr>)
    | Ok (evs, Err Never) \<Rightarrow> Err Never
    | Ok (evs, Err (Fails e)) \<Rightarrow> Err (Fails (read_error cl ''read node exec'' (to_status e))))"
proof -
  let ?env = "cl_nodes cl (gc_endpoint gc)" and ?rq = "exec_request_of gc argv en cwd t"
  let ?r0 = "\<lparr>er_exit_code = 0, er_stdout = [], er_stderr = [], er_duration_ms = took\<rparr>"
  obtain p where tried: "node_try (node_exec_command_stream ?env (xr_sandbox_id ?rq) (xr_argv ?rq) (xr_env ?rq) (non_empty (xr_cwd ?rq))
        (xr_timeout_ms ?rq) (\<lambda>_. Taken)) nd = (nd', p)"
    and p: "p = (case q of Ok a \<Rightarrow> Ok (Ok a) | Err (Fails (Raised e)) \<Rightarrow> Ok (Err e) | Err x \<Rightarrow> Err x)"
    using assms(2) by (auto simp: node_try_def node_exec_command_stream_def exec_request_of_def split: sum.splits stop.splits fault.splits)
  note run = assms(1) server_exec_command [OF tried]
  show ?thesis
  proof (cases q)
    case (Inl x)
    then show ?thesis
      by (cases x) (auto simp: p run grpc_exec_def grpc_exec_reply_def grpc_connect_def rpc_or_def rpc_def remote_raise_def read_error_def
        and_then_def comp_defs split: fault.split)
  next
    case (Inr a)
    obtain evs r where a: "a = (evs, r)" by fastforce
    have "stream_shape evs r" by (rule node_events_shape) (use assms(2) Inr a in simp)
    from reply_collect [OF this, where sid = "xr_sandbox_id ?rq" and cl = cl and r = ?r0] show ?thesis
      by (auto simp: Inr a p run grpc_exec_def grpc_exec_reply_def grpc_connect_def rpc_or_def rpc_def and_then_def comp_defs
        split: prod.splits sum.splits stop.splits)
  qed
qed


text \<open>A node with one running sandbox, whose guest greets and then answers a command with one line of output.\<close>

definition link_frames :: "frame list" where
  "link_frames = [Hello ''v'', ExecReq ''x'' [''sh''] [] None 5, Stdout ''x'' [104], Exited ''x'' 0]"

definition link_peer :: "nat peer" where
  "link_peer bytes w =
     (Suc w, encode_all (table_postcard link_frames) (if w = 0 then [Hello ''v''] else [Stdout ''x'' [104], Exited ''x'' 0]), False)"

definition link_env :: "(mem_store, nat, nat) node_env" where
  "link_env = (desk_env (Ok ()) [])\<lparr>ne_postcard := table_postcard link_frames, ne_version := ''v'', ne_uuid := (\<lambda>w. (w, ''x'')),
     ne_peer := (\<lambda>_. link_peer)\<rparr>"

definition link_node :: "(mem_store, nat, nat) node" where
  "link_node = (node_agent_new link_env mem_new 0)\<lparr>nd_sandboxes := [(''sb'', (sandbox_new 0 ''sb'' desk_spec)\<lparr>sb_status := Running\<rparr>)]\<rparr>"

definition link_cluster :: "(mem_store, nat, nat, registered_node list) cluster" where
  "link_cluster = \<lparr>cl_nodes = (\<lambda>_. link_env), cl_to_json = (\<lambda>_. Ok []), cl_from_json = (\<lambda>_. Ok desk_spec), cl_status_text = rs_message,
     cl_refused = ''refused'', cl_aborted = \<lparr>rs_code = GrpcInternal, rs_message = ''aborted''\<rparr>, cl_round = (\<lambda>x. x),
     cl_list_ready_nodes = (\<lambda>_ ns. Ok ns)\<rparr>"

definition link_fleet :: "(mem_store, nat, nat) fleet" where
  "link_fleet = [''http://n1:7000'' \<mapsto> link_node]"

lemma link_fits: "f \<in> set link_frames \<Longrightarrow> fits (table_postcard link_frames) f"
  by (rule table_fits_nth) (auto simp: link_frames_def)

lemma link_send:
  assumes "f \<in> set link_frames"
  shows "conn_send (table_postcard link_frames) link_peer what f \<lparr>ac_in = [], ac_eof = False, ac_fault = None, ac_peer = w\<rparr> =
    (\<lparr>ac_in = encode_all (table_postcard link_frames) (if w = 0 then [Hello ''v''] else [Stdout ''x'' [104], Exited ''x'' 0]),
      ac_eof = False, ac_fault = None, ac_peer = Suc w\<rparr>, Ok ())"
  using link_fits [OF assms] by (auto simp: conn_send_def write_frame_def link_peer_def fits_def split: sum.splits)

lemma link_read:
  "f \<in> set link_frames \<Longrightarrow>
   read_frame (table_postcard link_frames) (encode_all (table_postcard link_frames) (f # fs)) = (encode_all (table_postcard link_frames) fs, Ok f)"
  using read_frame_encode_all [OF table_roundtrip link_fits] .

lemma link_stream:
  "conn_stream (table_postcard link_frames) tx ''x'' (\<lambda>_. Taken) n
     \<lparr>ac_in = encode_all (table_postcard link_frames) [Stdout ''x'' [104], Exited ''x'' 0], ac_eof = False, ac_fault = None, ac_peer = w\<rparr> =
   (\<lparr>ac_in = [], ac_eof = False, ac_fault = None, ac_peer = w\<rparr>, [EvStdout [104], EvExit 0], Ok ())"
proof -
  have mem: "Stdout ''x'' [104] \<in> set link_frames" "Exited ''x'' 0 \<in> set link_frames" by (simp_all add: link_frames_def)
  show ?thesis by (subst conn_stream.simps, subst conn_stream.simps) (simp add: link_read mem)
qed

lemma link_exec:
  "node_exec_command link_env ''sb'' [''sh''] [] None 5 link_node =
    (link_node\<lparr>nd_world := 2\<rparr>, Ok \<lparr>er_exit_code = 0, er_stdout = [104], er_stderr = [], er_duration_ms = 0\<rparr>)"
proof -
  have ip: "is_ipv4_addr (guest_ip svc_net ''sb'')" by code_simp
  have mem: "Hello ''v'' \<in> set link_frames" "ExecReq ''x'' [''sh''] [] None 5 \<in> set link_frames" by (simp_all add: link_frames_def)
  have env: "ne_postcard link_env = table_postcard link_frames" "ne_peer link_env a = link_peer" "ne_net link_env = svc_net"
    "ne_version link_env = ''v''" "ne_uuid link_env = (\<lambda>w. (w, ''x''))" "ne_connect link_env = (\<lambda>_ w. (w, Connected))"
    "ne_write_fault link_env = (\<lambda>_ _. None)" "ne_elapsed_ms link_env = (\<lambda>_. 0)" for a
    by (simp_all add: link_env_def desk_env_def)
  obtain sb where sb: "hm_get (nd_sandboxes link_node) ''sb'' = Some sb" "sandbox_is_executable sb"
    by (simp add: link_node_def hm_get_def sandbox_is_executable_def status_is_executable_def)
  have "nd_world link_node = 0" by (simp add: link_node_def node_agent_new_def)
  then show ?thesis
    by (simp add: node_exec_command_def node_exec_events_def guest_session_def node_executable_def sb env ip Let_def node_connect_def node_world_def and_then_def comp_defs guest_client_def exchange_hello_def
      new_conn_def link_send mem conn_read_def link_read exec_exchange_def peer_world_def link_stream node_raised_def)
qed



section \<open>Machines\<close>

lemma str_trim_ends: "str_trim s \<noteq> [] \<Longrightarrow> \<not> is_whitespace (hd (str_trim s)) \<and> \<not> is_whitespace (last (str_trim s))"
proof -
  define a where "a = dropWhile is_whitespace s"
  define d where "d = dropWhile is_whitespace (rev a)"
  assume "str_trim s \<noteq> []"
  then have d: "d \<noteq> []" by (simp add: str_trim_def d_def a_def)
  have "rev a = takeWhile is_whitespace (rev a) @ d" by (simp add: d_def)
  then have "a = rev d @ rev (takeWhile is_whitespace (rev a))" by (metis rev_append rev_rev_ident)
  then have "hd a = last d" "a \<noteq> []" using d by (metis hd_append hd_rev rev_is_Nil_conv, auto)
  moreover have "\<not> is_whitespace (hd a)" using \<open>a \<noteq> []\<close> unfolding a_def by (rule hd_dropWhile)
  moreover have "\<not> is_whitespace (hd d)" using d unfolding d_def by (rule hd_dropWhile)
  moreover have "str_trim s = rev d" by (simp add: str_trim_def d_def a_def)
  ultimately show ?thesis using d by (simp add: hd_rev last_rev)
qed

lemma str_trim_kept: "s \<noteq> [] \<Longrightarrow> \<not> is_whitespace (hd s) \<Longrightarrow> \<not> is_whitespace (last s) \<Longrightarrow> str_trim s = s"
proof -
  have keep: "dropWhile P xs = xs" if "xs \<noteq> []" "\<not> P (hd xs)" for P and xs :: string using that by (cases xs) auto
  assume "s \<noteq> []" "\<not> is_whitespace (hd s)" "\<not> is_whitespace (last s)"
  then show ?thesis by (simp add: str_trim_def keep hd_rev)
qed

text \<open>An endpoint is normalised when it is put into a handle and again when it is read from there.\<close>

lemma endpoint_idem [simp]: "normalize_grpc_endpoint (normalize_grpc_endpoint e) = normalize_grpc_endpoint e"
proof (cases "str_trim e = []")
  case True
  then show ?thesis by (simp add: normalize_grpc_endpoint_def str_trim_def)
next
  case False
  note ends = str_trim_ends [OF False]
  have "\<not> is_whitespace (CHR ''h'')" by code_simp
  then have "str_trim (''http://'' @ str_trim e) = ''http://'' @ str_trim e" using False ends by (intro str_trim_kept) simp_all
  moreover have "str_trim (str_trim e) = str_trim e" using False ends by (intro str_trim_kept) simp_all
  ultimately show ?thesis using False by (auto simp: normalize_grpc_endpoint_def Let_def starts_with_iff)
qed

lemma grpc_create_run:
  assumes "grpc_vm_create cl ep i sp fl = (fl', Ok h)"
  shows "\<exists>json sp' nd nd' sb. cl_to_json cl sp = Ok json \<and> cl_from_json cl json = Ok sp' \<and> fl ep = Some nd
    \<and> create_sandbox_with_id (cl_nodes cl ep) i sp' nd = (nd', Ok sb) \<and> fl' = fl(ep \<mapsto> nd') \<and> vh_id h = i"
  using assms
  by (auto simp: grpc_vm_create_def grpc_connect_def rpc_or_def rpc_def server_create_sandbox_def answered_def node_try_def
    and_then_def comp_defs remote_raise_def split: sum.splits option.splits prod.splits if_splits stop.splits fault.splits)

lemma node_deleted:
  assumes "node_delete_sandbox env i nd = (nd', Ok ())"
  shows "hm_get (nd_sandboxes nd') i = None \<and> hm_get (nd_reservations nd') i = None"
  using assms
  by (auto simp: node_delete_sandbox_def node_raise_def and_then_def comp_defs node_net_teardown_def node_forget_def node_drop_def
    split: option.splits prod.splits sum.splits if_splits)

lemma grpc_stop_run:
  assumes "grpc_vm_stop cl ep h mode fl = (fl', Ok ())"
  shows "\<exists>nd nd'. fl ep = Some nd \<and> node_delete_sandbox (cl_nodes cl ep) (vh_id h) nd = (nd', Ok ()) \<and> fl' = fl(ep \<mapsto> nd')"
  using assms
  by (auto simp: grpc_vm_stop_def grpc_connect_def rpc_or_def rpc_def server_delete_sandbox_def node_try_def
    and_then_def comp_defs remote_raise_def split: sum.splits option.splits prod.splits if_splits stop.splits fault.splits)

text \<open>C13: a machine that the cluster has made was made by the daemon of the node the placement has chosen, under the
  requested identifier and from the specification that was sent; nothing else in the fleet has changed. The handle
  leads back there: the machine is probed as alive, and when stopping it succeeds, that node and no other has
  forgotten the sandbox and its reservation.\<close>

theorem scheduled_handle_routes_back:
  assumes "scheduled_create cl store now_ms i sp fl = (fl', Ok h)"
  shows "\<exists>n ep json sp' nd nd' sb. node_for cl store now_ms sp = Ok n \<and> ep = normalize_grpc_endpoint (rn_endpoint n)
    \<and> cl_to_json cl sp = Ok json \<and> cl_from_json cl json = Ok sp' \<and> fl ep = Some nd
    \<and> create_sandbox_with_id (cl_nodes cl ep) i sp' nd = (nd', Ok sb) \<and> fl' = fl(ep \<mapsto> nd')
    \<and> vh_id h = i \<and> vh_owner_id h = Some (ni_node_id (rn_info n)) \<and> scheduled_probe h fl'
    \<and> (\<forall>mode fl2. scheduled_stop cl h mode fl' = (fl2, Ok ()) \<longrightarrow>
         (\<exists>nd2. fl2 = fl(ep \<mapsto> nd2) \<and> hm_get (nd_sandboxes nd2) i = None \<and> hm_get (nd_reservations nd2) i = None))"
proof -
  from assms obtain n where n: "node_for cl store now_ms sp = Ok n"
    by (cases "node_for cl store now_ms sp") (auto simp: scheduled_create_def remote_raise_def throw_def)
  let ?ep = "normalize_grpc_endpoint (rn_endpoint n)"
  from assms n obtain h0 where made: "grpc_vm_create cl ?ep i sp fl = (fl', Ok h0)"
    and h: "h = h0\<lparr>vh_backend := ''grpc:'' @ ?ep, vh_owner_id := Some (ni_node_id (rn_info n))\<rparr>"
    by (auto simp: scheduled_create_def Let_def and_then_Ok ok_def)
  have route: "strip_prefix ''grpc:'' (vh_backend h) = Some ?ep" unfolding strip_prefix_Some_iff h by simp
  have gone: "\<exists>nd2. fl2 = fl(?ep \<mapsto> nd2) \<and> hm_get (nd_sandboxes nd2) i = None \<and> hm_get (nd_reservations nd2) i = None"
    if "scheduled_stop cl h mode fl' = (fl2, Ok ())" and "fl' = fl(?ep \<mapsto> nd')" "vh_id h = i" for mode fl2 nd'
    using grpc_stop_run [of cl ?ep h mode fl' fl2] that by (auto simp: scheduled_stop_def route dest: node_deleted)
  from grpc_create_run [OF made] obtain json sp' nd nd' sb where run: "cl_to_json cl sp = Ok json" "cl_from_json cl json = Ok sp'"
    "fl ?ep = Some nd" "create_sandbox_with_id (cl_nodes cl ?ep) i sp' nd = (nd', Ok sb)" "fl' = fl(?ep \<mapsto> nd')" "vh_id h0 = i" by blast
  have "vh_id h = i" "vh_owner_id h = Some (ni_node_id (rn_info n))" "scheduled_probe h fl'"
    using run by (simp_all add: h scheduled_probe_def route [unfolded h, simplified] grpc_vm_probe_def)
  with n run gone show ?thesis by blast
qed

definition desk_node :: registered_node where
  "desk_node = \<lparr>rn_info = config_node_info desk_config, rn_endpoint = ''n1:7000'', rn_status = NodeReady, rn_last_heartbeat_ms = 0,
     rn_allocated_vcpu = 0, rn_allocated_memory_mb = 0, rn_running_sandboxes = 0, rn_sandbox_ids = []\<rparr>"

definition desk_cluster :: "(mem_store, nat, nat, registered_node list) cluster" where
  "desk_cluster = link_cluster\<lparr>cl_nodes := (\<lambda>_. desk_env (Ok ()) [])\<rparr>"

definition desk_fleet :: "(mem_store, nat, nat) fleet" where
  "desk_fleet = [''http://n1:7000'' \<mapsto> node_agent_new (desk_env (Ok ()) []) mem_new 1]"

lemma desk_placed: "node_for desk_cluster [desk_node] 0 desk_spec = Ok desk_node"
proof -
  have "resources_ok (sp_resources desk_spec)" by (simp add: desk_spec_ok default_resources_ok)
  then have "node_passes [allocation_of desk_node] desk_spec (rn_info desk_node)"
    by (simp add: node_passes_iff Placement.fits_def matches_selector_def allocation_of_def find_alloc_def desk_node_def config_node_info_def
      desk_config_def desk_spec_ok default_resources_def)
      (simp add: desk_spec_def demo_spec_def default_spec_def)
  then obtain n where "place (\<lambda>x. x) [rn_info desk_node] [allocation_of desk_node] desk_spec LeastLoaded = Some n"
    using place_None_iff [of "\<lambda>x. x" "[rn_info desk_node]"] by (metis list.set_intros(1) not_Some_eq)
  then show ?thesis using place_SomeD(1) by (fastforce simp: node_for_def desk_cluster_def link_cluster_def)
qed

lemma desk_made: "\<exists>fl' h. scheduled_create desk_cluster [desk_node] 0 ''sb'' desk_spec desk_fleet = (fl', Ok h)"
proof -
  have ep: "normalize_grpc_endpoint (rn_endpoint desk_node) = ''http://n1:7000''" by code_simp
  then have again: "normalize_grpc_endpoint ''http://n1:7000'' = ''http://n1:7000''" by (metis endpoint_idem)
  obtain nd' sb where "create_sandbox_with_id (desk_env (Ok ()) []) ''sb'' desk_spec (node_agent_new (desk_env (Ok ()) []) mem_new 1) = (nd', Ok sb)"
    and "sb_id sb = ''sb''"
    using desk_spec_ok by (simp add: desk_defs default_resources_def)
  moreover have "cl_nodes desk_cluster = (\<lambda>_. desk_env (Ok ()) [])" "cl_to_json desk_cluster = (\<lambda>_. Ok [])"
    "cl_from_json desk_cluster = (\<lambda>_. Ok desk_spec)" by (simp_all add: desk_cluster_def link_cluster_def)
  ultimately show ?thesis
    by (simp add: scheduled_create_def desk_placed ep again grpc_vm_create_def grpc_connect_def
      desk_fleet_def rpc_or_def rpc_def server_create_sandbox_def answered_def node_try_def and_then_def comp_defs Let_def
      handle_of_sandbox_def)
qed

theorem scheduled_handle_routes_back_witness:
  "\<exists>fl' h nd'. scheduled_create desk_cluster [desk_node] 0 ''sb'' desk_spec desk_fleet = (fl', Ok h)
    \<and> fl' = desk_fleet(''http://n1:7000'' \<mapsto> nd') \<and> vh_owner_id h = Some ''n1'' \<and> scheduled_probe h fl'"
proof -
  obtain fl' h where made: "scheduled_create desk_cluster [desk_node] 0 ''sb'' desk_spec desk_fleet = (fl', Ok h)"
    using desk_made by blast
  have "normalize_grpc_endpoint (rn_endpoint desk_node) = ''http://n1:7000''" by code_simp
  moreover have "ni_node_id (rn_info desk_node) = ''n1''" by (simp add: desk_node_def config_node_info_def desk_config_def)
  ultimately show ?thesis using scheduled_handle_routes_back [OF made] made by (auto simp: desk_placed)
qed

end
