(* ===== verification/Spec2Isabelle.thy ===== *)
theory Spec2Isabelle
  imports Placement Frame_Codec Audit_Chain Store_Sqlite Firewall Auth Warm_Pool Admission Control_Properties Reconciler
    Lifecycle_Properties Cloud_Properties Guest_Link Guest_Init Node_Link
begin

text \<open>
  Verification of the clouisle sandbox platform, a service that runs untrusted programs in virtual machines for
  several tenants. This text says which theory models which part of \<open>src/crates/\<close>, what is
  proved of it, and what is left out.

  \<^bold>\<open>The program and its parts.\<close> An HTTP service (\<open>clouisle-api\<close>) authenticates a request, places and admits a
  sandbox, boots it (from a warm slot, from a snapshot or cold) on a virtual machine backend, talks to the agent in
  the guest through a frame protocol, and records everything in a store. A background task of the service
  repairs what failed and another of the warm pool replaces used machines. With several hosts the service is the client of a
  node daemon on each of them (\<open>clouisled\<close>), which admits, boots and deletes the sandboxes of its host, talks to their guests, and
  repairs its own state from the store every five seconds. A second, E2B compatible interface is served by the same state and adds teams, keys, volumes,
  templates with builds, snapshots, forks, processes and watchers. The parts call each other directly and share the one state of the
  service; handlers, spawned tasks and background rounds interleave at their awaits.

  \<^bold>\<open>Shared base.\<close>
  \<^item> \<open>Prelude\<close>: results, strings, decimal numbers, byte order, hash maps as association lists with their laws;
    \<open>Result_State\<close>: computations that change a state and may fail, the locale \<open>state_preorder\<close> that carries a relation over
    the sequencing of the operator \<open>?\<close>.
  \<^item> \<open>Core_Types\<close>, \<open>Sandbox_Model\<close>, \<open>Sandbox_Spec\<close> (\<open>clouisle-core\<close>): errors, resources, nodes, executions; the transition table of a
    sandbox (a sandbox runs only after the guest has said hello); specifications with their validation, the sandbox
    record with its time stamps.
  \<^item> \<open>Vmm_Types\<close> (\<open>clouisle-vmm/src/lib.rs\<close>): the values of the machine interface.

  \<^bold>\<open>Components.\<close>
  \<^item> \<open>Admission\<close> (\<open>clouisle-scheduler/src/admission.rs\<close>): permits of four semaphores taken all or none, as whole calls and as an interleaving of
    their steps; capacity is never overcommitted, whole calls refine the steps.
  \<^item> \<open>Placement\<close> (\<open>placement.rs\<close>): the chosen node passes the filter and no other that passes scores better. Scores are
    rationals under a rounding function, for the floating point numbers of the source.
  \<^item> \<open>Warm_Pool\<close> (\<open>clouisle-pool\<close>): every operation and the background task, in any order: a machine is handed to one client at
    a time.
  \<^item> \<open>Audit_Chain\<close> (\<open>clouisle-audit\<close>): the hash chain and its sink; equal heads mean equal logs when the digest has no collision.
  \<^item> \<open>Frame_Codec\<close> (\<open>clouisle-proto\<close>): encoding, the streaming decoder fed in arbitrary chunks, reader and writer.
  \<^item> \<open>Store_Contract\<close>, \<open>Store_Memory\<close>, \<open>Store_Sqlite\<close> (\<open>clouisle-store\<close>): the locale \<open>sandbox_store\<close> states the contract of the trait by
    an abstract map; both stores are interpretations of it, so that they answer every sequence of commands alike.
  \<^item> \<open>Dns_Policy\<close>, \<open>Firewall\<close> (\<open>clouisle-net\<close>): the name policy by labels, the rule text that is given to nftables and what it lets pass,
    the firewall manager, the allocation of subnets.
  \<^item> \<open>Auth\<close> (\<open>auth.rs\<close>, \<open>middleware_auth.rs\<close>, \<open>error.rs\<close> of \<open>clouisle-api\<close>): the middleware as a function of the request.
  \<^item> \<open>Control_Data\<close>, \<open>Control_Plane\<close>, \<open>Control_Safety\<close>, \<open>Control_Properties\<close> (\<open>e2b_cloud.rs\<close>): the E2B control plane with its persistence; the data
    stay consistent, teams do not reach each other's records, what was answered is on disk.
  \<^item> \<open>Reconciler\<close> (\<open>clouisled/src/reconciler.rs\<close>): one round makes the database agree with the live machines.

  \<^bold>\<open>The guest and the connection to it.\<close>
  \<^item> \<open>Guest_Files\<close>, \<open>Guest_Agent\<close>, \<open>Guest_Init\<close>, \<open>Guest_Properties\<close> (\<open>clouisle-agent\<close>): paths and files over a tree, the serve loop with every
    frame, commands, processes and their registry, the output pumps as tasks of the step relation \<open>guest_step\<close>, limits, boot
    parameters and network set-up. A write is read back and changes no other file; on a terminal the exit of a process is sent last, and its output stops at the first pause.
  \<^item> \<open>Agent_Client\<close>, \<open>Guest_Link\<close> (\<open>agent.rs\<close> of \<open>clouisle-api\<close>): the connectors and the operations of a connection against the locale
    \<open>answering_peer\<close>, of which the serve loop on the bytes it is sent is the interpretation: a command is reported as it ran, a file written is read back, a path
    that escapes is refused.

  \<^bold>\<open>The nodes.\<close>
  \<^item> \<open>Node_Agent\<close> (\<open>clouisled/src/agent.rs\<close>): the record \<open>node\<close> is the state of \<open>NodeAgent\<close> with its store and world, \<open>node_env\<close> what lies outside;
    creation with its failure path, deletion, files, commands, interactive processes, heartbeat and recovery.
  \<^item> \<open>Node_Ledger\<close>, \<open>Node_Creation\<close>, \<open>Node_Properties\<close>: the locales \<open>guest_frame\<close>, \<open>node_frame\<close> and \<open>node_ledger\<close> say what an operation may change, the triple
    \<open>ends\<close> what holds when it answers and when it fails. Over every sequence of calls (\<open>node_reach\<close>) the permits are balanced, so that a
    heartbeat reports sums that do not wrap; a creation registers exactly its sandbox, a failed one leaves nothing behind; a store
    that cannot be listed makes the recovery stop every machine.
  \<^item> \<open>Node_Server\<close> (\<open>clouisled/src/server.rs\<close>, \<open>clouisle-api/src/node_client.rs\<close>): the two ends of \<open>node.proto\<close>, the handlers of the daemon and the
    service's machine backends and guest connection over a node; a fleet maps endpoints to nodes.
  \<^item> \<open>Node_Link\<close>: a remote command gives what the node's own execution gives, a handle leads back to the node that made the machine,
    and an interactive process over a node never starts, because both sides wait for each other.

  \<^bold>\<open>The service.\<close>
  \<^item> \<open>App_State\<close>, \<open>Provisioning\<close>, \<open>Sandbox_Handlers\<close>, \<open>Fleet\<close>, \<open>Template_Builds\<close> (\<open>state.rs\<close>, \<open>handlers/\<close>): the record \<open>app\<close> is the shared state, \<open>app_env\<close>
    what lies outside: the store, the semaphores, clock, identifiers, the backend and the guest, each call of which changes a
    world and answers. A call under a deadline may answer nothing. A spawned task is a value of \<open>job\<close> that waits in the state until it runs.
  \<^item> \<open>Process_Sessions\<close>, \<open>E2b_Requests\<close>, \<open>E2b_Handlers\<close>, \<open>E2b_Envd\<close> (\<open>e2b.rs\<close>, \<open>handlers/e2b.rs\<close>) and \<open>Cloud_Handlers\<close> (\<open>handlers/e2b_cloud.rs\<close>): the
    E2B interfaces over the same state.
  \<^item> \<open>Provision_Frame\<close>, \<open>Lifecycle_Safety\<close>, \<open>Service_Ledger\<close>, \<open>Cloud_Ledger\<close>, \<open>Service_Steps\<close>: what a task may change (the locales
    \<open>effect_frame\<close> and \<open>app_frame\<close>), the balance of permits that every handler keeps, and the step relation \<open>api_step\<close> over all of them.
  \<^item> \<open>Lifecycle_Outcome\<close>, \<open>Lifecycle_Retry\<close>, \<open>Lifecycle_Properties\<close>, \<open>E2b_Properties\<close>, \<open>Cloud_Properties\<close>: the properties of the whole
    service: capacity is conserved over every run, provisioning ends in one of three states, tenants are
    separated, answers carry no secrets, deletion leaves nothing behind, restarts and forks are bounded, keys live from their
    creation to their deletion, builds are settled, snapshots leave machines running.

  \<^bold>\<open>Parameters and laws.\<close> Code outside the repository is an argument: digests (SHA-256), serialisers (postcard, JSON), the file
  system, the database files, the backend's processes, the guest's system calls, command execution. Where a property needs
  a law of them it is a named hypothesis: \<open>semaphore_laws\<close>, \<open>postcard_roundtrip\<close>, \<open>fs_laws\<close>, \<open>machine_laws\<close>, the
  injectivity of a digest on the inputs at hand, the locales of the store. Each such property has a witness in which a concrete
  function satisfies the law.

  \<^bold>\<open>Bounds and loops.\<close> Machine integers are words where the source casts, adds or compares them (ports, permits, times to live, subnets,
  frame lengths); identifiers and texts are character lists. Every loop of the model is a total function: structural, or
  with a measure (frames left in a buffer, nodes left to try). No fuel is used. A call that never returns is a value: \<open>None\<close> inside the guest,
  \<open>Never\<close> on the host. A panic of the source is the value \<open>Panicked\<close>.

  \<^bold>\<open>Granularity.\<close> A handler is one step, a spawned task another. Where the source's awaits inside a handler matter, the parts are separate definitions and
  a property puts other steps between them: admission, the warm pool, process streams, template builds.

  \<^bold>\<open>Not modelled.\<close> The Postgres store (queries evaluated by a server, same trait), the Firecracker and Docker backends and the image builder
  (external processes, registries and file system images), the processes, pipes and terminals of the guest's kernel (a parameter) and its accept loop, the mock connections of the tests, routing and
  decoding of HTTP requests, metrics in floating point, the transport of gRPC (a call is a direct one), the start-up of the daemons, the command line client. The calls of a
  node are run one after the other: a recovery that runs beside a creation, and the lock that a reader of process output holds, are outside the model.
\<close>

end
